(* ===== verification/Go_Prelude.thy ===== *)
theory Go_Prelude
  imports Main "HOL-Library.AList" "HOL-Library.Sublist"
begin

text \<open>
  The part of Go and of its standard library that the modelled packages share.

  A Go string is a sequence of bytes, so it is a \<^typ>\<open>string\<close> here (a list of
  8-bit characters). The case mappings and \<^verbatim>\<open>strings.TrimSpace\<close> are those of Go's
  ASCII path: they agree with Go on every string whose bytes are below 128.
  A Go map whose iteration order is visible to the code is an association list with
  distinct keys; the list's order is the order in which the run iterates, which Go leaves
  open, so a theorem about every such list is a theorem about every iteration order.
  A fallible call returns a sum, with \<open>Inl\<close> for the error.
  Instants and durations are integers, in nanoseconds.
\<close>

section \<open>Types of the model\<close>

type_synonym instant = int
type_synonym duration = int
type_synonym ('k, 'v) gomap = "('k \<times> 'v) list"

abbreviation second :: duration where "second \<equiv> 1000000000"
abbreviation minute :: duration where "minute \<equiv> 60 * second"
abbreviation hour :: duration where "hour \<equiv> 60 * minute"

named_theorems result_simps \<open>rewriting of error-returning calls\<close>
named_theorems gomap_simps \<open>lookups in association-list maps\<close>

section \<open>Sequencing of fallible calls\<close>

definition bind_res :: "'e + 'a \<Rightarrow> ('a \<Rightarrow> 'e + 'b) \<Rightarrow> 'e + 'b" where
  "bind_res r f = (case r of Inl e \<Rightarrow> Inl e | Inr x \<Rightarrow> f x)"

section \<open>Characters and strings\<close>

definition code_of :: "char \<Rightarrow> nat" where
  "code_of c = of_char c"

definition char_between :: "nat \<Rightarrow> nat \<Rightarrow> char \<Rightarrow> bool" where
  "char_between lo hi c = (lo \<le> code_of c \<and> code_of c \<le> hi)"

definition upper_char :: "char \<Rightarrow> char" where
  "upper_char c = (if char_between 97 122 c then char_of (code_of c - 32) else c)"

definition lower_char :: "char \<Rightarrow> char" where
  "lower_char c = (if char_between 65 90 c then char_of (code_of c + 32) else c)"

definition to_upper :: "string \<Rightarrow> string" where
  "to_upper s = map upper_char s"

definition to_lower :: "string \<Rightarrow> string" where
  "to_lower s = map lower_char s"

definition equal_fold :: "string \<Rightarrow> string \<Rightarrow> bool" where
  "equal_fold s t = (to_lower s = to_lower t)"

text \<open>\<^verbatim>\<open>unicode.IsSpace(rune(b))\<close> of a single byte: the Latin-1 white space.\<close>

definition is_space :: "char \<Rightarrow> bool" where
  "is_space c = (char_between 9 13 c \<or> code_of c = 32 \<or> code_of c = 133 \<or> code_of c = 160)"

text \<open>The white space that \<^verbatim>\<open>strings.TrimSpace\<close> removes from an ASCII string.\<close>

definition is_ascii_space :: "char \<Rightarrow> bool" where
  "is_ascii_space c = (char_between 9 13 c \<or> code_of c = 32)"

definition trim_space :: "string \<Rightarrow> string" where
  "trim_space s = rev (dropWhile is_ascii_space (rev (dropWhile is_ascii_space s)))"

definition has_prefix :: "string \<Rightarrow> string \<Rightarrow> bool" where
  "has_prefix s p = (take (length p) s = p)"

text \<open>\<^verbatim>\<open>strings.ReplaceAll\<close> for a pattern of one byte, the only form the quoting uses.\<close>

primrec replace_char :: "char \<Rightarrow> string \<Rightarrow> string \<Rightarrow> string" where
  "replace_char c new [] = []"
| "replace_char c new (x # xs) = (if x = c then new else [x]) @ replace_char c new xs"

text \<open>\<^verbatim>\<open>strings.Join\<close>.\<close>

fun join :: "string \<Rightarrow> string list \<Rightarrow> string" where
  "join sep [] = []"
| "join sep [s] = s"
| "join sep (s # t # ss) = s @ sep @ join sep (t # ss)"

text \<open>\<^verbatim>\<open>strings.Split\<close> at one byte.\<close>

fun split_on :: "char \<Rightarrow> string \<Rightarrow> string list" where
  "split_on c [] = [[]]"
| "split_on c (x # xs) =
     (if x = c then [] # split_on c xs
      else case split_on c xs of [] \<Rightarrow> [[x]] | p # ps \<Rightarrow> (x # p) # ps)"

definition trim_char :: "char \<Rightarrow> string \<Rightarrow> string" where
  "trim_char c s = rev (dropWhile ((=) c) (rev (dropWhile ((=) c) s)))"

text \<open>Go's \<^verbatim>\<open>%q\<close> of a string of printable ASCII characters.\<close>

definition go_quote :: "string \<Rightarrow> string" where
  "go_quote s =
     [CHR 34] @ concat (map (\<lambda>c. if c = CHR 34 \<or> c = CHR 92 then [CHR 92, c] else [c]) s) @ [CHR 34]"

text \<open>Decimal printing, Go's \<^verbatim>\<open>%d\<close>.\<close>

definition digit_char :: "nat \<Rightarrow> char" where
  "digit_char d = char_of (48 + d)"

fun show_nat :: "nat \<Rightarrow> string" where
  "show_nat n = (if n < 10 then [digit_char n] else show_nat (n div 10) @ [digit_char (n mod 10)])"

declare show_nat.simps [simp del]

definition show_int :: "int \<Rightarrow> string" where
  "show_int i = (if i < 0 then ''-'' @ show_nat (nat (- i)) else show_nat (nat i))"

definition is_digit :: "char \<Rightarrow> bool" where
  "is_digit c = char_between 48 57 c"

definition is_alpha :: "char \<Rightarrow> bool" where
  "is_alpha c = (char_between 65 90 c \<or> char_between 97 122 c)"

text \<open>The bytes of a number, most significant first, and the number a byte string denotes
  (\<^verbatim>\<open>binary.BigEndian\<close>, \<^verbatim>\<open>big.Int.SetBytes\<close>).\<close>

primrec big_endian :: "nat \<Rightarrow> nat \<Rightarrow> string" where
  "big_endian 0 n = []"
| "big_endian (Suc k) n = char_of (n div 256 ^ k mod 256) # big_endian k n"

definition read_bytes :: "string \<Rightarrow> nat" where
  "read_bytes s = foldl (\<lambda>v c. 256 * v + code_of c) 0 s"

section \<open>Lemmas on results\<close>

lemma bind_res_simps [simp, result_simps]:
  "bind_res (Inl e) f = Inl e" "bind_res (Inr x) f = f x"
  by (simp_all add: bind_res_def)

lemma bind_res_eq_Inr [result_simps]:
  "bind_res r f = Inr y \<longleftrightarrow> (\<exists>x. r = Inr x \<and> f x = Inr y)"
  by (cases r) auto

lemma bind_res_eq_Inl:
  "bind_res r f = Inl e \<longleftrightarrow> r = Inl e \<or> (\<exists>x. r = Inr x \<and> f x = Inl e)"
  by (cases r) auto

section \<open>Lemmas on strings\<close>

lemma length_to_upper [simp]: "length (to_upper s) = length s"
  by (simp add: to_upper_def)

lemma to_lower_append [simp]: "to_lower (s @ t) = to_lower s @ to_lower t"
  by (simp add: to_lower_def)

lemma code_of_char_of: "n < 256 \<Longrightarrow> code_of (char_of n) = n"
  by (simp add: code_of_def)

lemma lower_char_idem [simp]: "lower_char (lower_char c) = lower_char c"
  by (auto simp: lower_char_def char_between_def code_of_char_of)

lemma upper_char_idem [simp]: "upper_char (upper_char c) = upper_char c"
  by (auto simp: upper_char_def char_between_def code_of_char_of)

lemma to_lower_idem [simp]: "to_lower (to_lower s) = to_lower s"
  by (simp add: to_lower_def)

lemma to_upper_idem [simp]: "to_upper (to_upper s) = to_upper s"
  by (simp add: to_upper_def)

lemma char_of_code_of [simp]: "char_of (code_of c) = c"
  by (simp add: code_of_def)

lemma lower_upper_char: "lower_char (upper_char c) = lower_char c"
  by (auto simp: lower_char_def upper_char_def char_between_def code_of_char_of)

lemma to_lower_upper: "to_lower (to_upper s) = to_lower s"
  by (simp add: to_lower_def to_upper_def lower_upper_char)

lemma upper_lower_char: "upper_char (lower_char c) = upper_char c"
  by (auto simp: lower_char_def upper_char_def char_between_def code_of_char_of)

lemma to_upper_lower: "to_upper (to_lower s) = to_upper s"
  by (simp add: to_lower_def to_upper_def upper_lower_char)

lemma has_prefix_append [simp]: "has_prefix (p @ s) p"
  by (simp add: has_prefix_def)

lemma has_prefixE: "has_prefix s p \<Longrightarrow> \<exists>t. s = p @ t"
  by (metis append_take_drop_id has_prefix_def)

lemma replace_char_append [simp]:
  "replace_char c new (xs @ ys) = replace_char c new xs @ replace_char c new ys"
  by (induction xs) auto

lemma replace_char_id: "c \<notin> set xs \<Longrightarrow> replace_char c new xs = xs"
  by (induction xs) auto

lemma code_of_digit_char [simp]: "d < 10 \<Longrightarrow> code_of (digit_char d) = 48 + d"
  by (simp add: digit_char_def code_of_char_of)

lemma is_digit_digit_char [simp]: "d < 10 \<Longrightarrow> is_digit (digit_char d)"
  by (simp add: is_digit_def char_between_def)

lemma show_nat_digits: "c \<in> set (show_nat n) \<Longrightarrow> is_digit c"
proof (induction n rule: show_nat.induct)
  case (1 n)
  then show ?case by (subst (asm) (2) show_nat.simps) (auto split: if_splits)
qed

lemma show_nat_nonempty [simp]: "show_nat n \<noteq> []"
  by (subst show_nat.simps) simp

text \<open>The number a digit string denotes; it inverts \<^const>\<open>show_nat\<close>.\<close>

definition read_nat :: "string \<Rightarrow> nat" where
  "read_nat s = foldl (\<lambda>v c. 10 * v + (code_of c - 48)) 0 s"

lemma read_show_nat [simp]: "read_nat (show_nat n) = n"
proof (induction n rule: show_nat.induct)
  case (1 n)
  show ?case
  proof (cases "n < 10")
    case True
    then show ?thesis by (subst show_nat.simps) (simp add: read_nat_def)
  next
    case False
    with 1 have "read_nat (show_nat (n div 10)) = n div 10" by simp
    with False show ?thesis by (subst show_nat.simps) (simp add: read_nat_def)
  qed
qed

lemma show_nat_inject [simp]: "show_nat m = show_nat n \<longleftrightarrow> m = n"
  by (metis read_show_nat)

lemma show_int_inject [simp]: "show_int i = show_int j \<longleftrightarrow> i = j"
proof -
  have "show_nat n \<noteq> CHR ''-'' # s" for n s
    using show_nat_digits [of "CHR ''-''" n] by (auto simp: is_digit_def char_between_def code_of_def)
  note free = this this [symmetric]
  show ?thesis by (auto simp: show_int_def free)
qed

definition read_int :: "string \<Rightarrow> int" where
  "read_int s = (if has_prefix s ''-'' then - int (read_nat (tl s)) else int (read_nat s))"

lemma read_show_int [simp]: "read_int (show_int i) = i"
proof -
  have "\<not> has_prefix (show_nat n) ''-''" for n
    using show_nat_digits [of "CHR ''-''" n]
    by (cases "show_nat n") (auto simp: has_prefix_def is_digit_def char_between_def code_of_def)
  then show ?thesis by (auto simp: read_int_def show_int_def has_prefix_def)
qed

lemma code_of_char_of_mod: "code_of (char_of n) = n mod 256"
  by (simp add: code_of_def)

lemma length_big_endian [simp]: "length (big_endian k n) = k"
  by (induction k) auto

lemma read_bytes_from: "foldl (\<lambda>v c. 256 * v + code_of c) a (big_endian k n) = a * 256 ^ k + n mod 256 ^ k"
proof (induction k arbitrary: a)
  case (Suc k)
  have "n mod 256 ^ Suc k = (n div 256 ^ k mod 256) * 256 ^ k + n mod 256 ^ k"
    by (metis add.commute mod_mult2_eq mult.commute power_Suc)
  with Suc show ?case by (simp add: code_of_char_of_mod algebra_simps)
qed simp

lemma read_big_endian: "n < 256 ^ k \<Longrightarrow> read_bytes (big_endian k n) = n"
  by (simp add: read_bytes_def read_bytes_from)

lemma split_on_nonempty [simp]: "split_on c s \<noteq> []"
  by (cases s) (auto split: list.splits)

lemma split_on_free: "c \<notin> set s \<Longrightarrow> split_on c s = [s]"
  by (induction s) auto

lemma split_on_append: "c \<notin> set s \<Longrightarrow> split_on c (s @ c # t) = s # split_on c t"
  by (induction s) auto

lemma split_on_join:
  assumes "c \<notin> set sep" "\<forall>f \<in> set fs. c \<notin> set f" "fs \<noteq> []"
  shows "split_on c (join (c # sep) fs) = hd fs # map ((@) sep) (tl fs)"
  using assms(2,3)
proof (induction "c # sep" fs rule: join.induct)
  case (2 s)
  then show ?case by (simp add: split_on_free)
next
  case (3 s t ss)
  have pre: "split_on c (sep @ u) = (case split_on c u of p # ps \<Rightarrow> (sep @ p) # ps)" for u
    using assms(1)
  proof (induction sep)
    case Nil
    show ?case by (cases "split_on c u") auto
  next
    case (Cons x xs)
    then show ?case by (cases "split_on c u") auto
  qed
  from 3 have "split_on c (s @ c # sep @ join (c # sep) (t # ss)) = s # split_on c (sep @ join (c # sep) (t # ss))"
    by (intro split_on_append) simp
  with 3 show ?case by (simp add: pre)
qed simp

lemma join_append: "xs \<noteq> [] \<Longrightarrow> ys \<noteq> [] \<Longrightarrow> join sep (xs @ ys) = join sep xs @ sep @ join sep ys"
proof (induction xs)
  case (Cons x xs)
  then show ?case by (cases xs; cases ys) auto
qed simp

lemma find_SomeD: "find P xs = Some x \<Longrightarrow> x \<in> set xs \<and> P x"
  by (auto simp: find_Some_iff)

section \<open>Lemmas on maps\<close>

lemma find_map_key: "(\<And>x. key (f x) = key x) \<Longrightarrow> find (\<lambda>v. key v = k) (map f xs) = map_option f (find (\<lambda>v. key v = k) xs)"
  by (induction xs) auto

lemma map_of_delete_same [simp]: "map_of (AList.delete k m) k = None"
  by (simp add: AList.delete_conv')

lemma map_of_update_iff [gomap_simps]:
  "map_of (AList.update k v m) k' = (if k' = k then Some v else map_of m k')"
  by (simp add: AList.update_conv')

lemma map_of_delete_iff [gomap_simps]:
  "map_of (AList.delete k m) k' = (if k' = k then None else map_of m k')"
  by (simp add: AList.delete_conv')

lemma map_of_filter_key [gomap_simps]:
  "distinct (map fst m) \<Longrightarrow>
   map_of (filter P m) k = (case map_of m k of None \<Rightarrow> None | Some v \<Rightarrow> if P (k, v) then Some v else None)"
proof (induction m)
  case Nil
  then show ?case by simp
next
  case (Cons kv m)
  obtain k0 v0 where kv: "kv = (k0, v0)" by fastforce
  show ?case
  proof (cases "k = k0")
    case True
    with Cons.prems kv have "map_of m k = None" by (auto simp: map_of_eq_None_iff)
    with Cons True kv show ?thesis by auto
  next
    case False
    with Cons kv show ?thesis by auto
  qed
qed

lemma map_of_filter_fst:
  "map_of (filter (\<lambda>kv. \<not> G (fst kv)) m) k = (if G k then None else map_of m k)"
  by (induction m) auto

lemma distinct_keys_filter: "distinct (map fst m) \<Longrightarrow> distinct (map fst (filter P m))"
  by (induction m) auto

lemma distinct_keys_update [intro]:
  "distinct (map fst m) \<Longrightarrow> distinct (map fst (AList.update k v m))"
  by (rule AList.distinct_update)

lemma distinct_keys_delete [intro]:
  "distinct (map fst m) \<Longrightarrow> distinct (map fst (AList.delete k m))"
  by (rule AList.distinct_delete)

lemma list_all_map_values:
  "distinct (map fst m) \<Longrightarrow> (\<forall>(k, v) \<in> set m. P k v) \<longleftrightarrow> (\<forall>k v. map_of m k = Some v \<longrightarrow> P k v)"
  by (auto simp: map_of_eq_Some_iff)

section \<open>Invariants of sequences of operations\<close>

text \<open>What one admissible operation keeps, a sequence of admissible operations keeps.\<close>

locale guarded_invariant =
  fixes exec :: "'op \<Rightarrow> 's \<Rightarrow> 's" and admissible :: "'op \<Rightarrow> bool" and inv :: "'s \<Rightarrow> bool"
  assumes guarded_inv: "admissible op \<Longrightarrow> inv s \<Longrightarrow> inv (exec op s)"
begin

lemma guarded_run_inv: "\<forall>op \<in> set ops. admissible op \<Longrightarrow> inv s \<Longrightarrow> inv (fold exec ops s)"
  by (induction ops arbitrary: s) (auto intro: guarded_inv)

end

locale step_invariant =
  fixes exec :: "'op \<Rightarrow> 's \<Rightarrow> 's" and inv :: "'s \<Rightarrow> bool"
  assumes exec_inv: "inv s \<Longrightarrow> inv (exec op s)"

sublocale step_invariant \<subseteq> guarded_invariant exec "\<lambda>_. True" inv
  by unfold_locales (rule exec_inv)

context step_invariant
begin

lemma run_inv: "inv s \<Longrightarrow> inv (fold exec ops s)"
  by (rule guarded_run_inv) simp_all

end

end
