(* ===== verification/Rbac.thy ===== *)
theory Rbac
  imports Go_Prelude
begin

text \<open>
  Package \<^verbatim>\<open>internal/rbac\<close>, the enforcer (\<^verbatim>\<open>rbac.go\<close>). The policy engine is Casbin, a
  third-party package: a record of its calls is a parameter of every operation. Its state is
  a type variable; so is the durable state behind the adapter, which \<^verbatim>\<open>SavePolicy\<close> writes
  and \<^verbatim>\<open>LoadPolicy\<close> reads. What the enforcer relies on is the locale \<open>policy_engine\<close> (adding and
  removing one policy, and the durable snapshot) and its extension \<open>casbin_engine\<close> (the matcher of the model
  text).
  The mutex makes every method atomic, so each is a function of the enforcer's state.
\<close>

section \<open>The policy model\<close>

type_synonym policy_rule = "string list"

text \<open>The matcher line of \<^verbatim>\<open>modelConf\<close>; a policy that has not the four declared fields matches
  nothing.\<close>

fun matcher :: "string \<Rightarrow> string \<Rightarrow> string \<Rightarrow> string \<Rightarrow> policy_rule \<Rightarrow> bool" where
  "matcher sub ws layer act [p_sub, p_ws, p_layer, p_act] =
     (sub = p_sub \<and> (p_ws = ''*'' \<or> p_ws = ws) \<and> (p_layer = ''*'' \<or> p_layer = layer) \<and>
      (p_act = ''*'' \<or> p_act = act))"
| "matcher sub ws layer act _ = False"

definition ActionRead :: string where "ActionRead = ''read''"
definition ActionWrite :: string where "ActionWrite = ''write''"
definition ActionDelete :: string where "ActionDelete = ''delete''"
definition ActionManage :: string where "ActionManage = ''manage''"

definition RoleSuperAdmin :: string where "RoleSuperAdmin = ''super_admin''"
definition RoleAdmin :: string where "RoleAdmin = ''admin''"
definition RoleEditor :: string where "RoleEditor = ''editor''"
definition RoleViewer :: string where "RoleViewer = ''viewer''"

lemmas rbac_names = ActionRead_def ActionWrite_def ActionDelete_def ActionManage_def
  RoleSuperAdmin_def RoleAdmin_def RoleEditor_def RoleViewer_def

text \<open>The calls of \<^verbatim>\<open>casbin.Enforcer\<close> that are used; an error is a string.\<close>

record ('c, 'd) casbin =
  cb_Enforce :: "'c \<Rightarrow> string \<Rightarrow> string \<Rightarrow> string \<Rightarrow> string \<Rightarrow> string + bool"
  cb_AddPolicy :: "'c \<Rightarrow> policy_rule \<Rightarrow> 'c \<times> string option"
  cb_RemovePolicy :: "'c \<Rightarrow> policy_rule \<Rightarrow> 'c \<times> string option"
  cb_GetFilteredPolicy :: "'c \<Rightarrow> nat \<Rightarrow> string \<Rightarrow> string + policy_rule list"
  cb_GetPolicy :: "'c \<Rightarrow> string + policy_rule list"
  cb_SavePolicy :: "'c \<Rightarrow> 'd \<Rightarrow> 'd \<times> string option"
  cb_LoadPolicy :: "'c \<Rightarrow> 'd \<Rightarrow> 'c \<times> string option"

record ('c, 'd) Enforcer =
  en_loadErr :: "string option"
  en_enforcer :: 'c
  en_store :: 'd

section \<open>Access checks\<close>

definition enforce_checked ::
    "('c, 'd) casbin \<Rightarrow> ('c, 'd) Enforcer \<Rightarrow> string \<Rightarrow> string \<Rightarrow> string \<Rightarrow> string \<Rightarrow> string + bool" where
  "enforce_checked C e role workspace layer action =
     (case en_loadErr e of
        Some err \<Rightarrow> Inl err
      | None \<Rightarrow> cb_Enforce C (en_enforcer e) role workspace layer action)"

definition CanAccess where
  "CanAccess C e role workspace layer action = enforce_checked C e role workspace layer action"

definition CanAccessWorkspace where
  "CanAccessWorkspace C e role workspace = enforce_checked C e role workspace ''*'' ActionRead"

definition CanReadLayer where
  "CanReadLayer C e role workspace layer = enforce_checked C e role workspace layer ActionRead"

definition CanWriteLayer where
  "CanWriteLayer C e role workspace layer = enforce_checked C e role workspace layer ActionWrite"

definition CanManageWorkspace where
  "CanManageWorkspace C e role workspace = enforce_checked C e role workspace ''*'' ActionManage"

primrec enforce_first ::
    "('c, 'd) casbin \<Rightarrow> 'c \<Rightarrow> string \<Rightarrow> string \<Rightarrow> string \<Rightarrow> string list \<Rightarrow> string + bool" where
  "enforce_first C c role workspace action [] = Inr False"
| "enforce_first C c role workspace action (resource # resources) =
     (case cb_Enforce C c role workspace resource action of
        Inl err \<Rightarrow> Inl err
      | Inr allowed \<Rightarrow> if allowed then Inr True else enforce_first C c role workspace action resources)"

definition service_resource :: "string \<Rightarrow> string" where
  "service_resource service = ''service:'' @ to_lower service"

definition operation_resource :: "string \<Rightarrow> string \<Rightarrow> string" where
  "operation_resource service operation = ''operation:'' @ to_lower service @ '':'' @ to_upper operation"

definition CanAccessOperation ::
    "('c, 'd) casbin \<Rightarrow> ('c, 'd) Enforcer \<Rightarrow> string \<Rightarrow> string \<Rightarrow> string \<Rightarrow> string \<Rightarrow> string \<Rightarrow> string + bool" where
  "CanAccessOperation C e role workspace service operation action =
     (case en_loadErr e of
        Some err \<Rightarrow> Inl err
      | None \<Rightarrow> enforce_first C (en_enforcer e) role workspace action
                 [operation_resource service operation, service_resource service, ''*''])"

section \<open>Mutations\<close>

text \<open>\<^verbatim>\<open>persist\<close>: after a failed write the durable snapshot is loaded again; if that fails too, the
  load error stays and closes every check.\<close>

definition persist :: "('c, 'd) casbin \<Rightarrow> ('c, 'd) Enforcer \<Rightarrow> ('c, 'd) Enforcer \<times> string option" where
  "persist C e =
     (case cb_SavePolicy C (en_enforcer e) (en_store e) of
        (d, Some err) \<Rightarrow>
          (case cb_LoadPolicy C (en_enforcer e) d of
             (c, le) \<Rightarrow> (e\<lparr>en_loadErr := le, en_enforcer := c, en_store := d\<rparr>, Some err))
      | (d, None) \<Rightarrow> (e\<lparr>en_store := d\<rparr>, None))"

text \<open>The shape every mutator has: refuse while the load error stands, change the live policies
  in order, stop at the first error, then persist.\<close>

primrec change_policies ::
    "('c \<Rightarrow> policy_rule \<Rightarrow> 'c \<times> string option) \<Rightarrow> 'c \<Rightarrow> policy_rule list \<Rightarrow> 'c \<times> string option" where
  "change_policies change c [] = (c, None)"
| "change_policies change c (p # ps) =
     (case change c p of
        (c', Some err) \<Rightarrow> (c', Some err)
      | (c', None) \<Rightarrow> change_policies change c' ps)"

definition mutate ::
    "('c, 'd) casbin \<Rightarrow> ('c \<Rightarrow> policy_rule \<Rightarrow> 'c \<times> string option) \<Rightarrow> ('c, 'd) Enforcer \<Rightarrow>
     policy_rule list \<Rightarrow> ('c, 'd) Enforcer \<times> string option" where
  "mutate C change e ps =
     (case en_loadErr e of
        Some err \<Rightarrow> (e, Some err)
      | None \<Rightarrow>
          (case change_policies change (en_enforcer e) ps of
             (c, Some err) \<Rightarrow> (e\<lparr>en_enforcer := c\<rparr>, Some err)
           | (c, None) \<Rightarrow> persist C (e\<lparr>en_enforcer := c\<rparr>)))"

definition default_policies :: "policy_rule list" where
  "default_policies =
     [[RoleSuperAdmin, ''*'', ''*'', ''*''],
      [RoleAdmin, ''*'', ''*'', ActionManage], [RoleAdmin, ''*'', ''*'', ActionRead],
      [RoleAdmin, ''*'', ''*'', ActionWrite], [RoleAdmin, ''*'', ''*'', ActionDelete],
      [RoleEditor, ''*'', ''*'', ActionRead], [RoleEditor, ''*'', ''*'', ActionWrite],
      [RoleViewer, ''*'', ''*'', ActionRead]]"

definition AddDefaultPolicies where
  "AddDefaultPolicies C e = mutate C (cb_AddPolicy C) e default_policies"

definition policy_resource :: "string \<Rightarrow> string \<Rightarrow> string" where
  "policy_resource service operation =
     (if trim_space operation \<noteq> [] \<and> operation \<noteq> ''*'' then operation_resource service operation
      else service_resource service)"

definition AddOperationPolicy where
  "AddOperationPolicy C e role workspace service operation action =
     mutate C (cb_AddPolicy C) e [[role, workspace, policy_resource service operation, action]]"

definition RemoveOperationPolicy where
  "RemoveOperationPolicy C e role workspace service operation action =
     mutate C (cb_RemovePolicy C) e [[role, workspace, policy_resource service operation, action]]"

definition AddWorkspacePolicy where
  "AddWorkspacePolicy C e role workspace action =
     mutate C (cb_AddPolicy C) e [[role, workspace, ''*'', action]]"

definition AddLayerPolicy where
  "AddLayerPolicy C e role workspace layer action =
     mutate C (cb_AddPolicy C) e [[role, workspace, layer, action]]"

definition RemoveWorkspacePolicy where
  "RemoveWorkspacePolicy C e role workspace action =
     mutate C (cb_RemovePolicy C) e [[role, workspace, ''*'', action]]"

definition RemoveLayerPolicy where
  "RemoveLayerPolicy C e role workspace layer action =
     mutate C (cb_RemovePolicy C) e [[role, workspace, layer, action]]"

definition remove_filtered ::
    "('c, 'd) casbin \<Rightarrow> ('c, 'd) Enforcer \<Rightarrow> string \<Rightarrow> (policy_rule \<Rightarrow> bool) \<Rightarrow>
     ('c, 'd) Enforcer \<times> string option" where
  "remove_filtered C e workspace wanted =
     (case en_loadErr e of
        Some err \<Rightarrow> (e, Some err)
      | None \<Rightarrow>
          (case cb_GetFilteredPolicy C (en_enforcer e) 1 workspace of
             Inl err \<Rightarrow> (e, Some err)
           | Inr policies \<Rightarrow> mutate C (cb_RemovePolicy C) e (filter wanted policies)))"

definition RemoveAllWorkspacePolicies where
  "RemoveAllWorkspacePolicies C e workspace = remove_filtered C e workspace (\<lambda>_. True)"

definition RemoveResourcePolicies where
  "RemoveResourcePolicies C e workspace resources =
     remove_filtered C e workspace (\<lambda>policy. length policy > 2 \<and> policy ! 2 \<in> set resources)"

definition Reload :: "('c, 'd) casbin \<Rightarrow> ('c, 'd) Enforcer \<Rightarrow> ('c, 'd) Enforcer \<times> string option" where
  "Reload C e =
     (case cb_LoadPolicy C (en_enforcer e) (en_store e) of
        (c, le) \<Rightarrow> (e\<lparr>en_loadErr := le, en_enforcer := c\<rparr>, le))"

definition UpdatePolicyStore ::
    "('c, 'd) casbin \<Rightarrow> ('c, 'd) Enforcer \<Rightarrow> ('d \<Rightarrow> 'd \<times> string option) \<Rightarrow> ('c, 'd) Enforcer \<times> string option" where
  "UpdatePolicyStore C e remove =
     (case remove (en_store e) of
        (d, Some err) \<Rightarrow> (e\<lparr>en_store := d\<rparr>, Some err)
      | (d, None) \<Rightarrow>
          (case cb_LoadPolicy C (en_enforcer e) d of
             (c, le) \<Rightarrow> (e\<lparr>en_loadErr := le, en_enforcer := c, en_store := d\<rparr>, le)))"

definition DeleteRole where
  "DeleteRole C e remove = UpdatePolicyStore C e remove"

definition NewEnforcer ::
    "('c, 'd) casbin \<Rightarrow> ('d \<Rightarrow> string + 'c) \<Rightarrow> 'd \<Rightarrow> string + ('c, 'd) Enforcer" where
  "NewEnforcer C new_casbin d =
     (case new_casbin d of
        Inl err \<Rightarrow> Inl (''failed to create enforcer: '' @ err)
      | Inr c \<Rightarrow>
          (case cb_LoadPolicy C c d of
             (c', Some err) \<Rightarrow> Inl (''failed to load policies: '' @ err)
           | (c', None) \<Rightarrow> Inr \<lparr>en_loadErr = None, en_enforcer = c', en_store = d\<rparr>))"

definition NewEnforcerWithDefaults where
  "NewEnforcerWithDefaults C new_casbin d =
     bind_res (NewEnforcer C new_casbin d)
       (\<lambda>e. case AddDefaultPolicies C e of
              (e', Some err) \<Rightarrow> Inl (''failed to add default policies: '' @ err)
            | (e', None) \<Rightarrow> Inr e')"

section \<open>Queries\<close>

definition GetPoliciesForWorkspace where
  "GetPoliciesForWorkspace C e workspace =
     (case en_loadErr e of Some err \<Rightarrow> Inl err | None \<Rightarrow> cb_GetFilteredPolicy C (en_enforcer e) 1 workspace)"

definition GetPoliciesForRole where
  "GetPoliciesForRole C e role =
     (case en_loadErr e of Some err \<Rightarrow> Inl err | None \<Rightarrow> cb_GetFilteredPolicy C (en_enforcer e) 0 role)"

definition GetAllPolicies where
  "GetAllPolicies C e =
     (case en_loadErr e of Some err \<Rightarrow> Inl err | None \<Rightarrow> cb_GetPolicy C (en_enforcer e))"

section \<open>Parsed policies\<close>

record Policy =
  po_Role :: string
  po_Workspace :: string
  po_Layer :: string
  po_Action :: string

definition field_at :: "policy_rule \<Rightarrow> nat \<Rightarrow> string" where
  "field_at p i = (if length p > i then p ! i else [])"

definition ParsePolicy :: "policy_rule \<Rightarrow> Policy" where
  "ParsePolicy p =
     \<lparr>po_Role = field_at p 0, po_Workspace = field_at p 1, po_Layer = field_at p 2,
      po_Action = field_at p 3\<rparr>"

definition Policy_String :: "Policy \<Rightarrow> string" where
  "Policy_String p = po_Role p @ '' can '' @ po_Action p @ '' '' @ po_Workspace p @ ''/'' @ po_Layer p"

definition IsGlobal :: "Policy \<Rightarrow> bool" where
  "IsGlobal p = (po_Workspace p = ''*'')"

definition IsLayerSpecific :: "Policy \<Rightarrow> bool" where
  "IsLayerSpecific p = (po_Layer p \<noteq> ''*'' \<and> po_Layer p \<noteq> [])"

definition Matches :: "Policy \<Rightarrow> string \<Rightarrow> string \<Rightarrow> string \<Rightarrow> string \<Rightarrow> bool" where
  "Matches p role workspace layer action =
     (if po_Role p \<noteq> role then False
      else if po_Workspace p \<noteq> ''*'' \<and> po_Workspace p \<noteq> workspace then False
      else if po_Layer p \<noteq> ''*'' \<and> po_Layer p \<noteq> layer then False
      else if po_Action p \<noteq> ''*'' \<and> \<not> equal_fold (po_Action p) action then False
      else True)"

section \<open>What the enforcer promises\<close>

text \<open>
  The adapters hand a stored policy to Casbin as one comma-separated line, so a policy survives
  a reload only if its fields hold no character that is special in such a line.
\<close>

definition plain_field :: "string \<Rightarrow> bool" where
  "plain_field f =
     ((\<forall>c \<in> set f. c \<noteq> CHR '','' \<and> c \<noteq> CHR 34 \<and> c \<noteq> CHR 10 \<and> c \<noteq> CHR 13) \<and>
      (case f of [] \<Rightarrow> True | c # _ \<Rightarrow> \<not> is_space c \<and> c \<noteq> CHR ''#''))"

definition plain_policy :: "policy_rule \<Rightarrow> bool" where
  "plain_policy p = (length p = 4 \<and> list_all plain_field p)"

text \<open>Live and durable policies agree whenever checks are answered at all.\<close>

definition synced ::
    "('c \<Rightarrow> policy_rule set) \<Rightarrow> ('d \<Rightarrow> policy_rule set) \<Rightarrow> ('c, 'd) Enforcer \<Rightarrow> bool" where
  "synced live durable e \<longleftrightarrow>
     (\<forall>p \<in> durable (en_store e). plain_policy p) \<and>
     (en_loadErr e = None \<longrightarrow> live (en_enforcer e) = durable (en_store e))"

text \<open>A mutation is all or nothing. Without an error the live and the durable policies are the
  target. With an error the durable policies are unchanged, and the live ones agree with them or
  checks are closed; only when the error is the engine's own refusal of a live change
  (\<open>refused\<close>) may the changes before it stay live, until the next load or save.\<close>

definition change_outcome ::
    "('c \<Rightarrow> policy_rule set) \<Rightarrow> ('d \<Rightarrow> policy_rule set) \<Rightarrow> ('c, 'd) Enforcer \<Rightarrow> ('c, 'd) Enforcer \<Rightarrow>
     string option \<Rightarrow> string option \<Rightarrow> policy_rule set \<Rightarrow> bool" where
  "change_outcome live durable e e' r refused target \<longleftrightarrow>
     (r = None \<longrightarrow> en_loadErr e' = None \<and> live (en_enforcer e') = target \<and> durable (en_store e') = target) \<and>
     (r \<noteq> None \<longrightarrow> durable (en_store e') = durable (en_store e)) \<and>
     (\<forall>p \<in> durable (en_store e'). plain_policy p) \<and>
     (en_loadErr e' \<noteq> None \<or> live (en_enforcer e') = durable (en_store e') \<or>
      refused \<noteq> None \<and> r = refused \<and>
        live (en_enforcer e) \<inter> target \<subseteq> live (en_enforcer e') \<and>
        live (en_enforcer e') \<subseteq> live (en_enforcer e) \<union> target)"

lemma change_outcome_synced:
  "change_outcome live durable e e' r None target \<Longrightarrow> synced live durable e'"
  by (auto simp: change_outcome_def synced_def)

text \<open>The error with which the engine itself refuses one of the removals of \<^const>\<open>remove_filtered\<close>,
  if it does.\<close>

definition filtered_refusal ::
    "('c, 'd) casbin \<Rightarrow> ('c, 'd) Enforcer \<Rightarrow> string \<Rightarrow> (policy_rule \<Rightarrow> bool) \<Rightarrow> string option" where
  "filtered_refusal C e workspace wanted =
     (case cb_GetFilteredPolicy C (en_enforcer e) 1 workspace of
        Inl err \<Rightarrow> None
      | Inr policies \<Rightarrow> snd (change_policies (cb_RemovePolicy C) (en_enforcer e) (filter wanted policies)))"

section \<open>What the enforcer relies on\<close>

text \<open>
  \<open>live\<close> is the set of policies in memory, \<open>durable\<close> the set the adapter has stored. Adding and
  removing change one policy, or report an error, which may come before or after the change;
  filtering selects by one field; a save that fails leaves the durable set as it was (the
  catalog replaces it in one transaction), and one that succeeds stores the live policies;
  loading them back is promised for policies with plain fields. Enforcing evaluates the matcher
  over the live policies (policy effect: some policy allows).
\<close>

locale policy_engine =
  fixes C :: "('c, 'd) casbin" and live :: "'c \<Rightarrow> policy_rule set" and durable :: "'d \<Rightarrow> policy_rule set"
  assumes add_law: "cb_AddPolicy C c p = (c', None) \<Longrightarrow> live c' = insert p (live c)"
      "cb_AddPolicy C c p = (c', Some err) \<Longrightarrow> live c' \<in> {live c, insert p (live c)}"
    and remove_law: "cb_RemovePolicy C c p = (c', None) \<Longrightarrow> live c' = live c - {p}"
      "cb_RemovePolicy C c p = (c', Some err) \<Longrightarrow> live c' \<in> {live c, live c - {p}}"
    and filtered_law: "cb_GetFilteredPolicy C c i v = Inr ps \<Longrightarrow>
      set ps = {p \<in> live c. i < length p \<and> p ! i = v}"
    and save_law: "(\<forall>p \<in> live c. plain_policy p) \<Longrightarrow> cb_SavePolicy C c d = (d', None) \<Longrightarrow> durable d' = live c"
      "cb_SavePolicy C c d = (d', Some err) \<Longrightarrow> durable d' = durable d"
    and load_law: "(\<forall>p \<in> durable d. plain_policy p) \<Longrightarrow> cb_LoadPolicy C c d = (c', None) \<Longrightarrow> live c' = durable d"
begin

text \<open>The changes before an error, or all of them.\<close>

lemma change_add:
  "change_policies (cb_AddPolicy C) c ps = (c', r) \<Longrightarrow>
   live c \<subseteq> live c' \<and> live c' \<subseteq> set ps \<union> live c \<and> (r = None \<longrightarrow> live c' = set ps \<union> live c)"
proof (induction ps arbitrary: c)
  case (Cons p ps)
  obtain c1 r1 where 1: "cb_AddPolicy C c p = (c1, r1)" by fastforce
  show ?case
  proof (cases r1)
    case None
    with Cons.prems 1 have "change_policies (cb_AddPolicy C) c1 ps = (c', r)" by simp
    from Cons.IH [OF this] add_law(1) [of c p c1] 1 None show ?thesis by auto
  next
    case (Some err)
    with Cons.prems 1 have "c' = c1" "r = Some err" by simp_all
    with add_law(2) [of c p c1 err] 1 Some show ?thesis by auto
  qed
qed simp

lemma change_remove:
  "change_policies (cb_RemovePolicy C) c ps = (c', r) \<Longrightarrow>
   live c - set ps \<subseteq> live c' \<and> live c' \<subseteq> live c \<and> (r = None \<longrightarrow> live c' = live c - set ps)"
proof (induction ps arbitrary: c)
  case (Cons p ps)
  obtain c1 r1 where 1: "cb_RemovePolicy C c p = (c1, r1)" by fastforce
  show ?case
  proof (cases r1)
    case None
    with Cons.prems 1 have "change_policies (cb_RemovePolicy C) c1 ps = (c', r)" by simp
    from Cons.IH [OF this] remove_law(1) [of c p c1] 1 None show ?thesis by auto
  next
    case (Some err)
    with Cons.prems 1 have "c' = c1" "r = Some err" by simp_all
    with remove_law(2) [of c p c1 err] 1 Some show ?thesis by auto
  qed
qed simp

text \<open>The outcome of persisting: everything, or the durable state as before.\<close>

lemma persist_outcome:
  assumes "persist C e = (e', r)" "en_loadErr e = None"
    and plain: "\<forall>p \<in> live (en_enforcer e). plain_policy p" "\<forall>p \<in> durable (en_store e). plain_policy p"
  shows "(r = None \<longrightarrow> en_loadErr e' = None \<and> en_enforcer e' = en_enforcer e \<and>
            durable (en_store e') = live (en_enforcer e)) \<and>
         (r \<noteq> None \<longrightarrow> durable (en_store e') = durable (en_store e)) \<and> synced live durable e'"
proof (cases "cb_SavePolicy C (en_enforcer e) (en_store e)")
  case (Pair d err)
  show ?thesis
  proof (cases err)
    case None
    with Pair assms(1) have "e' = e\<lparr>en_store := d\<rparr>" "r = None" by (simp_all add: persist_def)
    moreover have "durable d = live (en_enforcer e)" using Pair None plain by (intro save_law(1)) simp_all
    ultimately show ?thesis using assms(2) plain by (simp add: synced_def)
  next
    case (Some msg)
    obtain c le where load: "cb_LoadPolicy C (en_enforcer e) d = (c, le)" by fastforce
    with Pair Some assms have "e' = e\<lparr>en_loadErr := le, en_enforcer := c, en_store := d\<rparr>" "r = Some msg"
      by (auto simp: persist_def)
    moreover have "durable d = durable (en_store e)" using Pair Some by (intro save_law(2)) simp
    moreover from this have "le = None \<Longrightarrow> live c = durable d" using load plain by (intro load_law) simp_all
    ultimately show ?thesis using plain by (simp add: synced_def)
  qed
qed

lemma mutate_outcome:
  assumes m: "mutate C change e ps = (e', r)" and sync: "synced live durable e"
    and refused: "refused = snd (change_policies change (en_enforcer e) ps)"
    and ch: "\<And>c r. change_policies change (en_enforcer e) ps = (c, r) \<Longrightarrow>
      live (en_enforcer e) \<inter> target \<subseteq> live c \<and> live c \<subseteq> live (en_enforcer e) \<union> target \<and>
      (r = None \<longrightarrow> live c = target)"
    and plain: "en_loadErr e = None \<Longrightarrow> \<forall>p \<in> target. plain_policy p"
  shows "change_outcome live durable e e' r refused target"
proof (cases "en_loadErr e")
  case (Some err)
  with m sync show ?thesis by (auto simp: mutate_def change_outcome_def synced_def)
next
  case None
  obtain c re where c: "change_policies change (en_enforcer e) ps = (c, re)" by fastforce
  note l = ch [OF c]
  show ?thesis
  proof (cases re)
    case (Some err)
    with m None c have "e' = e\<lparr>en_enforcer := c\<rparr>" "r = Some err" by (simp_all add: mutate_def)
    with l sync refused c Some show ?thesis by (auto simp: change_outcome_def synced_def)
  next
    case re: None
    with m None c have "persist C (e\<lparr>en_enforcer := c\<rparr>) = (e', r)" by (simp add: mutate_def)
    note out = persist_outcome [OF this]
    have l': "live c = target" using l re by simp
    have "\<forall>p \<in> target. plain_policy p" "\<forall>p \<in> durable (en_store e). plain_policy p"
      using plain [OF None] sync by (simp_all add: synced_def)
    with out None l' have "(r = None \<longrightarrow> en_loadErr e' = None \<and> en_enforcer e' = c \<and> durable (en_store e') = target) \<and>
      (r \<noteq> None \<longrightarrow> durable (en_store e') = durable (en_store e)) \<and> synced live durable e'" by simp
    with l' show ?thesis unfolding change_outcome_def synced_def
      by (cases r; cases "en_loadErr e'") simp_all
  qed
qed

lemma add_outcome:
  "mutate C (cb_AddPolicy C) e ps = (e', r) \<Longrightarrow> synced live durable e \<Longrightarrow>
   \<forall>p \<in> set ps. plain_policy p \<Longrightarrow>
   change_outcome live durable e e' r (snd (change_policies (cb_AddPolicy C) (en_enforcer e) ps))
     (set ps \<union> live (en_enforcer e))"
  by (rule mutate_outcome [OF _ _ refl]) (auto simp: synced_def dest: change_add)

lemma remove_outcome:
  "mutate C (cb_RemovePolicy C) e ps = (e', r) \<Longrightarrow> synced live durable e \<Longrightarrow>
   change_outcome live durable e e' r (snd (change_policies (cb_RemovePolicy C) (en_enforcer e) ps))
     (live (en_enforcer e) - set ps)"
  by (rule mutate_outcome [OF _ _ refl]) (auto simp: synced_def dest: change_remove)

lemma remove_filtered_outcome:
  assumes r: "remove_filtered C e workspace wanted = (e', r)" and sync: "synced live durable e"
  shows "change_outcome live durable e e' r (filtered_refusal C e workspace wanted)
    (live (en_enforcer e) - {p. 1 < length p \<and> p ! 1 = workspace \<and> wanted p})"
proof (cases "en_loadErr e = None \<and> \<not> isl (cb_GetFilteredPolicy C (en_enforcer e) 1 workspace)")
  case False
  with assms show ?thesis
    by (auto simp: remove_filtered_def change_outcome_def synced_def split: option.splits sum.splits)
next
  case True
  then obtain ps where ps: "cb_GetFilteredPolicy C (en_enforcer e) 1 workspace = Inr ps"
    by (cases "cb_GetFilteredPolicy C (en_enforcer e) 1 workspace") auto
  with r True have m: "mutate C (cb_RemovePolicy C) e (filter wanted ps) = (e', r)"
    by (simp add: remove_filtered_def)
  have "live (en_enforcer e) - set (filter wanted ps) =
      live (en_enforcer e) - {p. 1 < length p \<and> p ! 1 = workspace \<and> wanted p}"
    using filtered_law [OF ps] by auto
  with remove_outcome [OF m sync] ps show ?thesis by (simp add: filtered_refusal_def)
qed

end

locale casbin_engine = policy_engine +
  assumes enforce_law:
      "cb_Enforce C c role ws layer act = Inr (\<exists>p \<in> live c. matcher role ws layer act p)"
begin

lemma enforce_checked_iff:
  "en_loadErr e = None \<Longrightarrow>
   enforce_checked C e role ws layer act = Inr (\<exists>p \<in> live (en_enforcer e). matcher role ws layer act p)"
  by (simp add: enforce_checked_def enforce_law)

lemma enforce_first_iff:
  "enforce_first C c role ws act rs = Inr (\<exists>l \<in> set rs. \<exists>p \<in> live c. matcher role ws l act p)"
  by (induction rs) (auto simp: enforce_law)

lemma CanAccessOperation_iff:
  "en_loadErr e = None \<Longrightarrow>
   CanAccessOperation C e role ws service operation act =
     Inr (\<exists>l \<in> {operation_resource service operation, service_resource service, ''*''}.
            \<exists>p \<in> live (en_enforcer e). matcher role ws l act p)"
  by (simp add: CanAccessOperation_def enforce_first_iff del: enforce_first.simps)

end

end
