(* ===== verification/Protocol_Request.thy ===== *)
theory Protocol_Request
  imports Go_Prelude
begin

text \<open>
  Package \<^verbatim>\<open>internal/protocolrequest\<close>: which protocol operation a request asks for
  (\<^verbatim>\<open>request.go\<close>) and which action that operation needs (\<^verbatim>\<open>policies.go\<close>).
  Authentication, authorization and auditing all use this one resolution, so it decides which
  grant is checked. A request is its method, its decoded path, its query (in the order Go's map
  iteration yields it), its body and the descriptor an outer middleware may have stored.
  \<^verbatim>\<open>encoding/xml\<close>'s decoder is a parameter: the stream of tokens it yields for a body.
\<close>

section \<open>Data\<close>

record Descriptor =
  d_Service :: string
  d_Workspace :: string
  d_Name :: string
  d_ServiceParameter :: string
  d_Version :: string
  d_Err :: "string option"

text \<open>A token of the XML decoder; \<open>XOther\<close> is a comment or a processing instruction, and
  \<open>XError\<close> the decoder's syntax error. The end of the list is the end of the input.\<close>

record xml_name =
  xn_Space :: string
  xn_Local :: string

record xml_attr =
  xa_Name :: xml_name
  xa_Value :: string

record xml_start =
  xs_Name :: xml_name
  xs_Attr :: "xml_attr list"

datatype xml_token =
  XStart xml_start | XEnd | XDirective | XCharData string | XOther | XError

type_synonym xml_decoder = "string \<Rightarrow> xml_token list"

text \<open>The body: absent, unreadable (for example longer than the limit), or its bytes.\<close>

datatype body = NoBody | Unreadable | Body string

record http_request =
  rq_Method :: string
  rq_Path :: string
  rq_Query :: "(string, string list) gomap"
  rq_Body :: body
  rq_Descriptor :: "Descriptor option"

section \<open>Query routing\<close>

definition is_routing_key :: "string \<Rightarrow> bool" where
  "is_routing_key key = (key = ''REQUEST'' \<or> key = ''SERVICE'' \<or> key = ''VERSION'')"

definition routing_item :: "string \<Rightarrow> string \<Rightarrow> string" where
  "routing_item key item = (if key \<noteq> ''VERSION'' then to_upper item else item)"

fun routing_items ::
    "string \<Rightarrow> string list \<Rightarrow> (string \<rightharpoonup> string) \<Rightarrow> string + (string \<rightharpoonup> string)" where
  "routing_items key [] vals = Inr vals"
| "routing_items key (item # items) vals =
     (let item = routing_item key item
      in if vals key \<noteq> None \<and> vals key \<noteq> Some item
         then Inl (''conflicting '' @ key @ '' parameters'')
         else routing_items key items (vals(key \<mapsto> item)))"

fun routing_loop ::
    "(string, string list) gomap \<Rightarrow> (string \<rightharpoonup> string) \<Rightarrow> string + (string \<rightharpoonup> string)" where
  "routing_loop [] vals = Inr vals"
| "routing_loop ((key, items) # rest) vals =
     (if \<not> is_routing_key (to_upper key) then routing_loop rest vals
      else bind_res (routing_items (to_upper key) items vals) (routing_loop rest))"

definition queryRouting :: "http_request \<Rightarrow> string + (string \<rightharpoonup> string)" where
  "queryRouting r = routing_loop (rq_Query r) Map.empty"

definition query_value :: "(string \<rightharpoonup> string) \<Rightarrow> string \<Rightarrow> string" where
  "query_value q k = (case q k of None \<Rightarrow> [] | Some v \<Rightarrow> v)"

section \<open>The root element of an XML body\<close>

definition zero_start :: xml_start where
  "zero_start = \<lparr>xs_Name = \<lparr>xn_Space = [], xn_Local = []\<rparr>, xs_Attr = []\<rparr>"

fun xmlRoot_loop :: "xml_token list \<Rightarrow> xml_start \<Rightarrow> int \<Rightarrow> string + xml_start \<times> int" where
  "xmlRoot_loop [] root depth = Inr (root, depth)"
| "xmlRoot_loop (XError # ts) root depth = Inl ''malformed XML request''"
| "xmlRoot_loop (XStart el # ts) root depth =
     (if depth = 0
      then (if xn_Local (xs_Name root) \<noteq> [] then Inl ''multiple XML request roots''
            else xmlRoot_loop ts el (depth + 1))
      else xmlRoot_loop ts root (depth + 1))"
| "xmlRoot_loop (XEnd # ts) root depth = xmlRoot_loop ts root (depth - 1)"
| "xmlRoot_loop (XDirective # ts) root depth = Inl ''XML directives are not supported''"
| "xmlRoot_loop (XCharData s # ts) root depth =
     (if depth = 0 \<and> length (trim_space s) \<noteq> 0 then Inl ''text outside XML request root''
      else xmlRoot_loop ts root depth)"
| "xmlRoot_loop (XOther # ts) root depth = xmlRoot_loop ts root depth"

definition xmlRoot :: "xml_token list \<Rightarrow> string + xml_start" where
  "xmlRoot tokens =
     bind_res (xmlRoot_loop tokens zero_start 0)
       (\<lambda>(root, depth). if xn_Local (xs_Name root) = [] \<or> depth \<noteq> 0
                         then Inl ''missing XML request root'' else Inr root)"

definition validNamespace :: "string \<Rightarrow> string \<Rightarrow> bool" where
  "validNamespace service namespace =
     (if service = ''wfs''
      then namespace = ''http://www.opengis.net/wfs/2.0'' \<or> namespace = ''http://www.opengis.net/wfs''
      else if service = ''wcs''
      then namespace = ''http://www.opengis.net/wcs/2.0'' \<or> namespace = ''http://www.opengis.net/wcs/2.1''
      else False)"

text \<open>The attribute loop of \<^verbatim>\<open>resolve\<close>; \<open>seen\<close> holds the routing attributes met so far.\<close>

fun root_attrs :: "xml_attr list \<Rightarrow> string list \<Rightarrow> Descriptor \<Rightarrow> Descriptor" where
  "root_attrs [] seen d = d"
| "root_attrs (attr # attrs) seen d =
     (let name = to_upper (xn_Local (xa_Name attr))
      in if name \<noteq> ''SERVICE'' \<and> name \<noteq> ''VERSION'' then root_attrs attrs seen d
         else if name \<in> set seen \<or> xn_Space (xa_Name attr) \<noteq> []
              then d\<lparr>d_Err := Some ''ambiguous XML routing attribute''\<rparr>
              else root_attrs attrs (name # seen)
                (if name = ''SERVICE'' then d\<lparr>d_ServiceParameter := to_upper (xa_Value attr)\<rparr>
                 else d\<lparr>d_Version := xa_Value attr\<rparr>))"

section \<open>Resolution\<close>

text \<open>The first \<^verbatim>\<open>workspaces\<close> segment that is followed by another one: the workspace and what
  follows it.\<close>

fun workspace_tail :: "string list \<Rightarrow> (string \<times> string list) option" where
  "workspace_tail [] = None"
| "workspace_tail [p] = None"
| "workspace_tail (p # w # rest) =
     (if p = ''workspaces'' then Some (w, rest) else workspace_tail (w # rest))"

definition route_services :: "string list" where
  "route_services = [''wfs'', ''wms'', ''wcs'', ''wmts'', ''ogc'', ''ogc-tiles'', ''stac'']"

definition route_path :: "string \<Rightarrow> string list \<Rightarrow> string \<times> string \<times> string list" where
  "route_path service parts =
     (case workspace_tail parts of
        None \<Rightarrow> (service, [], [])
      | Some (workspace, []) \<Rightarrow> (service, workspace, [])
      | Some (workspace, s # tail) \<Rightarrow>
          if s \<in> set route_services \<and>
             (service = [] \<or> service = s \<or> (service = ''ogcapi'' \<and> s = ''ogc''))
          then (s, workspace, tail) else (service, workspace, []))"

definition stac_name :: "string \<Rightarrow> string list \<Rightarrow> string" where
  "stac_name meth tail =
     (let name = (if length tail = 1 \<and> tail ! 0 = ''search'' \<and> (meth = ''GET'' \<or> meth = ''POST'')
                  then ''SEARCH'' else meth)
      in if meth = ''GET'' \<or> meth = ''HEAD''
         then let name = (if length tail = 1 \<and> tail ! 0 = ''collections'' then ''LISTCOLLECTIONS'' else name);
                  name = (if length tail = 3 \<and> tail ! 2 = ''items'' then ''GETFEATURES'' else name)
              in if length tail = 4 \<and> tail ! 2 = ''items'' then ''GETITEM'' else name
         else name)"

definition ogc_name :: "string \<Rightarrow> string \<Rightarrow> string list \<Rightarrow> string" where
  "ogc_name service meth tail =
     (if service = ''ogcapi'' \<and> length tail = 4 \<and> tail ! 0 = ''collections'' \<and> tail ! 2 = ''items''
      then ''GETITEM''
      else if service = ''ogcapi'' \<and> length tail = 3 \<and> tail ! 0 = ''collections'' \<and> tail ! 2 = ''items''
      then ''GETFEATURES''
      else if length tail = 1 \<and> tail ! 0 = ''collections'' then ''LISTCOLLECTIONS''
      else if service = ''ogc-tiles'' \<and> length tail = 6 \<and> tail ! 0 = ''map'' \<and> tail ! 1 = ''tiles''
      then ''GETTILE''
      else if service = ''ogc-tiles'' \<and> length tail = 7 \<and> tail ! 0 = ''collections'' \<and> tail ! 2 = ''tiles''
      then ''GETTILE''
      else if service = ''ogc-tiles'' \<and> length tail = 8 \<and> tail ! 0 = ''collections'' \<and> tail ! 2 = ''map''
              \<and> tail ! 3 = ''tiles''
      then ''GETTILE''
      else meth)"

definition wmts_name :: "string list \<Rightarrow> string" where
  "wmts_name tail =
     (if length tail = 2 \<and> tail ! 1 = ''WMTSCapabilities.xml'' then ''GETCAPABILITIES''
      else if length tail = 9 then ''GETFEATUREINFO'' else ''GETTILE'')"

definition resolve_body :: "xml_decoder \<Rightarrow> string \<Rightarrow> body \<Rightarrow> Descriptor \<Rightarrow> Descriptor" where
  "resolve_body xml service b d =
     (case b of
        NoBody \<Rightarrow> d
      | Unreadable \<Rightarrow> d\<lparr>d_Err := Some ''unreadable or oversized XML request''\<rparr>
      | Body bytes \<Rightarrow>
          if length (trim_space bytes) = 0 then d
          else case xmlRoot (xml bytes) of
                 Inl err \<Rightarrow> d\<lparr>d_Err := Some err\<rparr>
               | Inr root \<Rightarrow>
                   if xn_Space (xs_Name root) \<noteq> [] \<and> \<not> validNamespace service (xn_Space (xs_Name root))
                   then d\<lparr>d_Err := Some ''unexpected protocol XML namespace''\<rparr>
                   else root_attrs (xs_Attr root) [] (d\<lparr>d_Name := to_upper (xn_Local (xs_Name root))\<rparr>))"

definition resolve :: "xml_decoder \<Rightarrow> http_request \<Rightarrow> string \<Rightarrow> string \<Rightarrow> Descriptor" where
  "resolve xml r service path =
     (let parts = split_on CHR ''/'' (trim_char CHR ''/'' path);
          (service, workspace, tail) = route_path service parts;
          service = (if service = ''ogc'' then ''ogcapi'' else service);
          d = \<lparr>d_Service = service, d_Workspace = workspace, d_Name = rq_Method r,
               d_ServiceParameter = [], d_Version = [], d_Err = None\<rparr>
      in if service = [] then d
         else if service = ''stac'' then d\<lparr>d_Name := stac_name (rq_Method r) tail\<rparr>
         else if service = ''ogcapi'' \<or> service = ''ogc-tiles''
              then d\<lparr>d_Name := ogc_name service (rq_Method r) tail\<rparr>
         else if service = ''wmts'' \<and> length tail > 0 then d\<lparr>d_Name := wmts_name tail\<rparr>
         else case queryRouting r of
                Inl err \<Rightarrow> d\<lparr>d_Err := Some err\<rparr>
              | Inr q \<Rightarrow>
                  let d = d\<lparr>d_Name := to_upper (query_value q ''REQUEST''),
                            d_ServiceParameter := to_upper (query_value q ''SERVICE''),
                            d_Version := query_value q ''VERSION''\<rparr>
                  in if rq_Method r = ''POST'' \<and> rq_Body r \<noteq> NoBody \<and> (service = ''wfs'' \<or> service = ''wcs'')
                     then resolve_body xml service (rq_Body r) d else d)"

text \<open>\<^verbatim>\<open>Prepare\<close> keeps a stored descriptor for the same service; otherwise it resolves anew.\<close>

definition Prepare :: "xml_decoder \<Rightarrow> http_request \<Rightarrow> string \<Rightarrow> http_request" where
  "Prepare xml r service =
     (case rq_Descriptor r of
        Some existing \<Rightarrow>
          if service = [] \<or> d_Service existing = service then r
          else r\<lparr>rq_Descriptor := Some (resolve xml r service (rq_Path r))\<rparr>
      | None \<Rightarrow> r\<lparr>rq_Descriptor := Some (resolve xml r service (rq_Path r))\<rparr>)"

definition Get :: "xml_decoder \<Rightarrow> http_request \<Rightarrow> Descriptor" where
  "Get xml r =
     (case rq_Descriptor (Prepare xml r []) of Some d \<Rightarrow> d | None \<Rightarrow> resolve xml r [] (rq_Path r))"

section \<open>The action an operation needs\<close>

definition read_operations :: "string list" where
  "read_operations =
     [''GETCAPABILITIES'', ''DESCRIBEFEATURETYPE'', ''GETFEATURE'', ''GETPROPERTYVALUE'',
      ''LISTSTOREDQUERIES'', ''DESCRIBESTOREDQUERIES'', ''GETMAP'', ''GETFEATUREINFO'',
      ''GETLEGENDGRAPHIC'', ''DESCRIBELAYER'', ''GETTILE'', ''GETCOVERAGE'', ''DESCRIBECOVERAGE'',
      ''GETITEM'', ''GETFEATURES'', ''LISTCOLLECTIONS'', ''GET'', ''HEAD'']"

definition method_action :: "string \<Rightarrow> string" where
  "method_action meth =
     (if meth = ''GET'' \<or> meth = ''HEAD'' \<or> meth = ''OPTIONS'' then ''read'' else ''write'')"

definition Action :: "string \<Rightarrow> string \<Rightarrow> string \<Rightarrow> string" where
  "Action service operation meth =
     (let op = to_upper operation
      in if op = ''SEARCH''
         then (if service = ''stac'' then ''read'' else method_action meth)
         else if op = ''CREATESTOREDQUERY'' \<or> op = ''DROPSTOREDQUERY''
         then (if service = ''wfs'' then ''manage'' else method_action meth)
         else if op = ''TRANSACTION'' \<or> op = ''LOCKFEATURE'' \<or> op = ''GETFEATUREWITHLOCK''
         then (if service = ''wfs'' then ''write'' else method_action meth)
         else if op \<in> set read_operations then ''read''
         else method_action meth)"

definition Mutating :: "Descriptor \<Rightarrow> string \<Rightarrow> bool" where
  "Mutating d meth = (Action (d_Service d) (d_Name d) meth \<noteq> ''read'')"

definition policy_services :: "(string \<times> string list) list" where
  "policy_services =
     [(''stac'', [''GET'', ''HEAD'', ''SEARCH'', ''LISTCOLLECTIONS'', ''GETFEATURES'', ''GETITEM'']),
      (''wfs'', [''GETCAPABILITIES'', ''DESCRIBEFEATURETYPE'', ''GETFEATURE'', ''GETPROPERTYVALUE'',
         ''LISTSTOREDQUERIES'', ''DESCRIBESTOREDQUERIES'', ''TRANSACTION'', ''LOCKFEATURE'',
         ''GETFEATUREWITHLOCK'', ''CREATESTOREDQUERY'', ''DROPSTOREDQUERY'']),
      (''wms'', [''GETCAPABILITIES'', ''GETMAP'', ''GETFEATUREINFO'', ''GETLEGENDGRAPHIC'', ''DESCRIBELAYER'']),
      (''wcs'', [''GETCAPABILITIES'', ''DESCRIBECOVERAGE'', ''GETCOVERAGE'']),
      (''wmts'', [''GETCAPABILITIES'', ''GETTILE'', ''GETFEATUREINFO'']),
      (''ogcapi'', [''GET'', ''HEAD'', ''GETITEM'', ''GETFEATURES'', ''LISTCOLLECTIONS'']),
      (''ogc-tiles'', [''GET'', ''HEAD'', ''GETTILE'', ''LISTCOLLECTIONS''])]"

definition PolicyOperations :: "(string \<times> (string \<times> string) list) list" where
  "PolicyOperations =
     map (\<lambda>(service, ops). (service, map (\<lambda>operation. (operation, Action service operation ''GET'')) ops))
       policy_services"

definition ValidatePolicy :: "string \<Rightarrow> string \<Rightarrow> string \<Rightarrow> string option" where
  "ValidatePolicy service operation action =
     (let operations = (case map_of PolicyOperations service of None \<Rightarrow> [] | Some ops \<Rightarrow> ops)
      in if operation = [] \<or> operation = ''*''
         then (if \<exists>s \<in> set (map snd operations). action = s then None
               else Some (''action '' @ go_quote action @ '' is not supported by service '' @ go_quote service))
         else case map_of operations operation of
                None \<Rightarrow> Some (''operation '' @ go_quote operation @ '' is not supported by service '' @ go_quote service)
              | Some expected \<Rightarrow>
                  if action \<noteq> expected
                  then Some (operation @ '' requires action '' @ go_quote expected @ '', not '' @ go_quote action)
                  else None)"

section \<open>Lemmas on query routing\<close>

lemma routing_items_mono:
  "routing_items key items vals = Inr vals' \<Longrightarrow> vals \<subseteq>\<^sub>m vals'"
proof (induction items arbitrary: vals)
  case Nil
  then show ?case by simp
next
  case (Cons item items)
  let ?i = "routing_item key item"
  from Cons.prems have ok: "vals key = None \<or> vals key = Some ?i"
      and rest: "routing_items key items (vals(key \<mapsto> ?i)) = Inr vals'"
    by (auto simp: Let_def split: if_splits)
  from rest have "vals(key \<mapsto> ?i) \<subseteq>\<^sub>m vals'" by (rule Cons.IH)
  moreover have "vals \<subseteq>\<^sub>m vals(key \<mapsto> ?i)" using ok by (auto simp: map_le_def)
  ultimately show ?case by (rule map_le_trans [rotated])
qed

lemma routing_items_agree:
  "routing_items key items vals = Inr vals' \<Longrightarrow> item \<in> set items \<Longrightarrow>
   vals' key = Some (routing_item key item)"
proof (induction items arbitrary: vals)
  case Nil
  then show ?case by simp
next
  case (Cons i items)
  let ?i = "routing_item key i"
  from Cons.prems(1) have rest: "routing_items key items (vals(key \<mapsto> ?i)) = Inr vals'"
    by (auto simp: Let_def split: if_splits)
  show ?case
  proof (cases "item \<in> set items")
    case True
    with rest show ?thesis by (rule Cons.IH)
  next
    case False
    with Cons.prems have "item = i" by simp
    moreover have "vals' key = Some ?i"
      using routing_items_mono [OF rest] by (auto simp: map_le_def)
    ultimately show ?thesis by simp
  qed
qed

lemma routing_loop_mono: "routing_loop q vals = Inr vals' \<Longrightarrow> vals \<subseteq>\<^sub>m vals'"
proof (induction q vals rule: routing_loop.induct)
  case (2 key items rest vals)
  then show ?case
    by (cases "is_routing_key (to_upper key)"; cases "routing_items (to_upper key) items vals")
      (auto dest: routing_items_mono intro: map_le_trans)
qed simp

lemma routing_loop_agree:
  assumes "routing_loop q vals = Inr vals'" "(key, items) \<in> set q"
    "is_routing_key (to_upper key)" "item \<in> set items"
  shows "vals' (to_upper key) = Some (routing_item (to_upper key) item)"
  using assms
proof (induction q vals rule: routing_loop.induct)
  case (2 key' items' rest vals)
  show ?case
  proof (cases "(key, items) = (key', items')")
    case True
    with "2.prems" obtain v where v: "routing_items (to_upper key) items vals = Inr v"
        "routing_loop rest v = Inr vals'"
      by (auto simp: bind_res_eq_Inr)
    from v(1) "2.prems"(4) have "v (to_upper key) = Some (routing_item (to_upper key) item)"
      by (rule routing_items_agree)
    with routing_loop_mono [OF v(2)] show ?thesis by (auto simp: map_le_def dom_def)
  next
    case False
    with "2.prems" show ?thesis
      by (cases "is_routing_key (to_upper key')"; cases "routing_items (to_upper key') items' vals")
        (auto intro: "2.IH")
  qed
qed simp

section \<open>Lemmas on XML bodies\<close>

text \<open>The elements opened at depth 0, counted from depth \<open>d\<close>.\<close>

fun top_level :: "xml_token list \<Rightarrow> int \<Rightarrow> xml_start list" where
  "top_level [] d = []"
| "top_level (XStart el # ts) d = (if d = 0 then [el] else []) @ top_level ts (d + 1)"
| "top_level (XEnd # ts) d = top_level ts (d - 1)"
| "top_level (_ # ts) d = top_level ts d"

lemma xmlRoot_loop_named:
  assumes "xmlRoot_loop ts root d = Inr (root', d')" "xn_Local (xs_Name root) \<noteq> []"
  shows "root' = root \<and> top_level ts d = [] \<and> XDirective \<notin> set ts \<and> XError \<notin> set ts"
  using assms by (induction ts root d rule: xmlRoot_loop.induct) (auto split: if_splits)

lemma xmlRoot_loop_top:
  assumes "xmlRoot_loop ts root d = Inr (root', d')" "xn_Local (xs_Name root) = []"
    "xn_Local (xs_Name root') \<noteq> []"
    "\<And>el. XStart el \<in> set ts \<Longrightarrow> xn_Local (xs_Name el) \<noteq> []"
  shows "top_level ts d = [root'] \<and> XDirective \<notin> set ts \<and> XError \<notin> set ts"
  using assms
proof (induction ts root d rule: xmlRoot_loop.induct)
  case (3 el ts root depth)
  show ?case
  proof (cases "depth = 0")
    case True
    with "3.prems" have "xmlRoot_loop ts el (depth + 1) = Inr (root', d')"
        and "xn_Local (xs_Name el) \<noteq> []" by auto
    from xmlRoot_loop_named [OF this] True show ?thesis by simp
  next
    case False
    with 3 show ?thesis by auto
  qed
qed (auto split: if_splits)

lemma root_attrs_keeps [simp]:
  "d_Name (root_attrs attrs seen d) = d_Name d" "d_Service (root_attrs attrs seen d) = d_Service d"
  by (induction attrs seen d rule: root_attrs.induct) (auto simp: Let_def)

lemma upper_examples:
  "to_upper ''Transaction'' = ''TRANSACTION''" "to_upper ''TRANSACTION'' = ''TRANSACTION''"
  "to_upper ''request'' = ''REQUEST''" "to_upper ''Request'' = ''REQUEST''"
  "to_upper ''getmap'' = ''GETMAP''" "to_upper ''GetMap'' = ''GETMAP''"
  by code_simp+

text \<open>The operations whose action does not depend on the HTTP method.\<close>

definition method_free :: "string \<Rightarrow> string \<Rightarrow> bool" where
  "method_free service operation =
     (let op = to_upper operation
      in (op = ''SEARCH'' \<and> service = ''stac'') \<or>
         (service = ''wfs'' \<and> op \<in> set [''CREATESTOREDQUERY'', ''DROPSTOREDQUERY'', ''TRANSACTION'',
            ''LOCKFEATURE'', ''GETFEATUREWITHLOCK'']) \<or>
         op \<in> set read_operations)"

lemma Action_method_free: "method_free service operation \<Longrightarrow> Action service operation m = Action service operation m'"
  unfolding Action_def Let_def
  by (auto simp: method_free_def read_operations_def Let_def)

lemma policy_table_method_free:
  "list_all (\<lambda>(service, ops). list_all (method_free service) ops) policy_services"
  by code_simp

lemma policy_table_lookup:
  "map_of policy_services service = Some ops \<Longrightarrow> operation \<in> set ops \<Longrightarrow> method_free service operation"
  using policy_table_method_free by (fastforce simp: list_all_iff dest: map_of_SomeD)

lemma map_of_PolicyOperations:
  "map_of PolicyOperations service =
     map_option (map (\<lambda>operation. (operation, Action service operation ''GET''))) (map_of policy_services service)"
proof -
  have "map_of (map (\<lambda>(service, ops). (service, map (\<lambda>operation. (operation, Action service operation ''GET'')) ops)) xs) service
      = map_option (map (\<lambda>operation. (operation, Action service operation ''GET''))) (map_of xs service)" for xs
    by (induction xs) auto
  then show ?thesis by (simp add: PolicyOperations_def)
qed

lemma map_of_tabulate: "map_of (map (\<lambda>x. (x, f x)) xs) x = (if x \<in> set xs then Some (f x) else None)"
  by (induction xs) auto

lemmas resolve_defs = resolve_def resolve_body_def Let_def

text \<open>The service a path resolves to.\<close>

definition resolved_service :: "string \<Rightarrow> string \<Rightarrow> string" where
  "resolved_service service path =
     (let s = fst (route_path service (split_on CHR ''/'' (trim_char CHR ''/'' path)))
      in if s = ''ogc'' then ''ogcapi'' else s)"

lemma d_Service_resolve_body [simp]: "d_Service (resolve_body xml service b d) = d_Service d"
  by (simp add: resolve_body_def split: body.splits sum.splits)

lemma d_Service_resolve: "d_Service (resolve xml r service path) = resolved_service service path"
  unfolding resolve_def resolved_service_def Let_def
  by (simp split: prod.splits sum.splits)

lemma resolve_rest:
  assumes "resolved_service service path \<in> {''stac'', ''ogcapi'', ''ogc-tiles''}"
    and "rq_Method r = rq_Method r'"
  shows "resolve xml r service path = resolve xml r' service path"
proof -
  obtain s w t where route: "route_path service (split_on CHR ''/'' (trim_char CHR ''/'' path)) = (s, w, t)"
    by (cases "route_path service (split_on CHR ''/'' (trim_char CHR ''/'' path))")
  from assms(1) consider "s = ''stac''" | "s = ''ogcapi''" | "s = ''ogc''" | "s = ''ogc-tiles''"
    by (auto simp: resolved_service_def route split: if_splits)
  then show ?thesis by cases (simp_all add: resolve_def route assms(2))
qed

section \<open>Properties\<close>

text \<open>
  The REST services cannot be steered by parameters: once a path resolves to the STAC, the
  OGC API or the tiles service, the query string and the body have no influence on the
  operation that is authorized.
\<close>

theorem rest_operation_ignores_parameters:
  assumes "d_Service (resolve xml r service path) \<in> {''stac'', ''ogcapi'', ''ogc-tiles''}"
  shows "resolve xml (r\<lparr>rq_Query := q, rq_Body := b\<rparr>) service path = resolve xml r service path"
  using assms by (intro resolve_rest) (simp_all add: d_Service_resolve)

theorem rest_operation_ignores_parameters_witness:
  "resolve (\<lambda>_. []) (\<lparr>rq_Method = ''GET'', rq_Path = [], rq_Query = [], rq_Body = NoBody,
       rq_Descriptor = None\<rparr>\<lparr>rq_Query := [(''REQUEST'', [''x''])], rq_Body := Body ''b''\<rparr>) []
     ''/workspaces/w/ogc/collections''
   = resolve (\<lambda>_. []) \<lparr>rq_Method = ''GET'', rq_Path = [], rq_Query = [], rq_Body = NoBody,
       rq_Descriptor = None\<rparr> [] ''/workspaces/w/ogc/collections''"
  by (rule rest_operation_ignores_parameters)
    (simp add: d_Service_resolve resolved_service_def trim_char_def route_path_def route_services_def)

text \<open>
  A successful query routing means that the request is unambiguous: every value given for
  REQUEST, SERVICE or VERSION, under any spelling of the key and in any order, agrees with the
  one value that is used (names up to letter case, versions exactly).
\<close>

theorem queryRouting_unambiguous:
  assumes "queryRouting r = Inr m" and "(key, items) \<in> set (rq_Query r)"
    and "is_routing_key (to_upper key)" and "item \<in> set items"
  shows "m (to_upper key) = Some (routing_item (to_upper key) item)"
  using assms unfolding queryRouting_def by (rule routing_loop_agree)

theorem queryRouting_unambiguous_witness:
  "[''REQUEST'' \<mapsto> ''GETMAP''] (to_upper ''request'')
    = Some (routing_item (to_upper ''request'') ''getmap'')"
  by (rule queryRouting_unambiguous [where items = "[''getmap'']" and r =
        "\<lparr>rq_Method = ''GET'', rq_Path = [], rq_Query = [(''Request'', [''GetMap'']), (''request'', [''getmap''])],
          rq_Body = NoBody, rq_Descriptor = None\<rparr>"])
    (simp_all add: queryRouting_def is_routing_key_def routing_item_def upper_examples fun_eq_iff)

text \<open>
  A WFS request that carries an XML body is authorized by the body's root element, never by
  a REQUEST parameter beside it: if the resolution does not reject a POST whose well-formed body
  has the root \<open>root\<close>, the operation is that root's name; so a Transaction, LockFeature,
  GetFeatureWithLock or stored-query change can never pass as a read.
\<close>

theorem xml_root_decides_operation:
  assumes d: "d = resolve xml r ''wfs'' path"
    and post: "rq_Method r = ''POST''" and body: "rq_Body r = Body bytes" "trim_space bytes \<noteq> []"
    and root: "xmlRoot (xml bytes) = Inr root" and accepted: "d_Err d = None"
  shows "d_Name d = to_upper (xn_Local (xs_Name root)) \<and>
    (to_upper (xn_Local (xs_Name root)) \<in> {''TRANSACTION'', ''LOCKFEATURE'', ''GETFEATUREWITHLOCK'',
       ''CREATESTOREDQUERY'', ''DROPSTOREDQUERY''} \<longrightarrow> Mutating d meth)"
proof -
  obtain w t where route: "route_path ''wfs'' (split_on CHR ''/'' (trim_char CHR ''/'' path)) = (''wfs'', w, t)"
    by (cases "workspace_tail (split_on CHR ''/'' (trim_char CHR ''/'' path))")
      (fastforce simp: route_path_def split: list.splits)+
  have "d_Name d = to_upper (xn_Local (xs_Name root)) \<and> d_Service d = ''wfs''"
    using accepted post body root unfolding d
    by (auto simp: resolve_defs route split: sum.splits if_splits)
  then show ?thesis by (auto simp: Mutating_def Action_def Let_def)
qed

theorem xml_root_decides_operation_witness:
  "Mutating (resolve (\<lambda>_. [XStart \<lparr>xs_Name = \<lparr>xn_Space = [], xn_Local = ''Transaction''\<rparr>, xs_Attr = []\<rparr>, XEnd])
     \<lparr>rq_Method = ''POST'', rq_Path = [], rq_Query = [(''request'', [''GetCapabilities''])],
      rq_Body = Body ''<Transaction/>'', rq_Descriptor = None\<rparr> ''wfs'' ''/workspaces/w/wfs'') ''POST''"
proof -
  let ?el = "\<lparr>xs_Name = \<lparr>xn_Space = [], xn_Local = ''Transaction''\<rparr>, xs_Attr = []\<rparr>"
  let ?r = "\<lparr>rq_Method = ''POST'', rq_Path = [], rq_Query = [(''request'', [''GetCapabilities''])],
      rq_Body = Body ''<Transaction/>'', rq_Descriptor = None\<rparr>"
  have root: "xmlRoot [XStart ?el, XEnd] = Inr ?el"
    by (simp add: xmlRoot_def zero_start_def)
  have trim: "trim_space ''<Transaction/>'' \<noteq> []"
    by (simp add: trim_space_def is_ascii_space_def char_between_def code_of_def)
  have ok: "d_Err (resolve (\<lambda>_. [XStart ?el, XEnd]) ?r ''wfs'' ''/workspaces/w/wfs'') = None"
    by (simp add: resolve_defs root trim_char_def route_path_def route_services_def queryRouting_def
        upper_examples is_routing_key_def)
  show ?thesis
    using xml_root_decides_operation [OF refl _ _ trim root ok, of "''POST''"]
    by (simp add: upper_examples)
qed

text \<open>
  The root that is found is the body's only top-level element and the body holds no
  directive (hence no document type declaration) and no syntax error, for every token stream in
  which elements have names.
\<close>

theorem xmlRoot_single_root:
  assumes "xmlRoot ts = Inr root" and "\<And>el. XStart el \<in> set ts \<Longrightarrow> xn_Local (xs_Name el) \<noteq> []"
  shows "top_level ts 0 = [root] \<and> XDirective \<notin> set ts \<and> XError \<notin> set ts"
proof -
  from assms(1) obtain d where "xmlRoot_loop ts zero_start 0 = Inr (root, d)"
      and "xn_Local (xs_Name root) \<noteq> []"
    by (auto simp: xmlRoot_def bind_res_eq_Inr split: if_splits)
  from xmlRoot_loop_top [OF this(1) _ this(2) assms(2)] show ?thesis by (simp add: zero_start_def)
qed

theorem xmlRoot_single_root_witness:
  "top_level [XStart \<lparr>xs_Name = \<lparr>xn_Space = [], xn_Local = ''a''\<rparr>, xs_Attr = []\<rparr>, XEnd] 0
   = [\<lparr>xs_Name = \<lparr>xn_Space = [], xn_Local = ''a''\<rparr>, xs_Attr = []\<rparr>]"
  using xmlRoot_single_root [of "[XStart \<lparr>xs_Name = \<lparr>xn_Space = [], xn_Local = ''a''\<rparr>, xs_Attr = []\<rparr>, XEnd]"
      "\<lparr>xs_Name = \<lparr>xn_Space = [], xn_Local = ''a''\<rparr>, xs_Attr = []\<rparr>"]
  by (simp add: xmlRoot_def zero_start_def)

text \<open>
  An operation grant that the policy editor accepts is the grant that requests are checked
  against: for every service and operation of the policy table the required action does not
  depend on the HTTP method, and \<^const>\<open>ValidatePolicy\<close> accepts exactly that action.
\<close>

theorem ValidatePolicy_matches_check:
  assumes "operation \<noteq> []" and "operation \<noteq> ''*''"
  shows "ValidatePolicy service operation action = None \<longleftrightarrow>
    (\<exists>ops. map_of policy_services service = Some ops \<and> operation \<in> set ops \<and>
       (\<forall>meth. action = Action service operation meth))"
proof -
  have indep: "Action service operation m = Action service operation ''GET''"
    if "map_of policy_services service = Some ops" "operation \<in> set ops" for ops m
    using policy_table_lookup [OF that] by (rule Action_method_free)
  show ?thesis
  proof (cases "map_of policy_services service")
    case None
    with assms show ?thesis by (simp add: ValidatePolicy_def map_of_PolicyOperations)
  next
    case (Some ops)
    then have "ValidatePolicy service operation action = None \<longleftrightarrow>
        operation \<in> set ops \<and> action = Action service operation ''GET''"
      using assms by (simp add: ValidatePolicy_def map_of_PolicyOperations map_of_tabulate)
    also have "\<dots> \<longleftrightarrow> operation \<in> set ops \<and> (\<forall>meth. action = Action service operation meth)"
      using indep [OF Some] by metis
    finally show ?thesis using Some by simp
  qed
qed

theorem ValidatePolicy_matches_check_witness:
  "ValidatePolicy ''wfs'' ''TRANSACTION'' ''write'' = None"
proof -
  have "Action ''wfs'' ''TRANSACTION'' m = ''write''" for m
    by (simp add: Action_def Let_def upper_examples)
  then show ?thesis
    by (subst ValidatePolicy_matches_check) (simp_all add: policy_services_def)
qed

end
