(* ===== verification/Rbac_Adapter.thy ===== *)
theory Rbac_Adapter
  imports Rbac Protocol_Request
begin

text \<open>
  Package \<^verbatim>\<open>internal/rbac\<close>, the policy adapters (\<^verbatim>\<open>adapter.go\<close>), with the catalog call the
  store adapter saves through (\<^verbatim>\<open>ReplaceCasbinPolicies\<close> of \<^verbatim>\<open>store_auth.go\<close>). Casbin's
  \<^verbatim>\<open>persist.LoadPolicyLine\<close> is a parameter. A database failure is an input of the catalog
  calls. At the end the store adapter, under an engine that evaluates the matcher over a list,
  is shown to meet the contract \<open>casbin_engine\<close>, and the enforcer's properties are stated.
\<close>

section \<open>Data\<close>

record CasbinRule =
  cr_PType :: string
  cr_V0 :: string
  cr_V1 :: string
  cr_V2 :: string
  cr_V3 :: string
  cr_V4 :: string
  cr_V5 :: string

text \<open>The two sections of Casbin's model that hold policies: name of the policy type, rules.\<close>

record casbin_model =
  cm_p :: "(string \<times> policy_rule list) list"
  cm_g :: "(string \<times> policy_rule list) list"

text \<open>The part of the catalog the adapter uses: the known roles and the stored rules.\<close>

record catalog =
  ct_roles :: "string list"
  ct_rules :: "CasbinRule list"

type_synonym load_line = "string \<Rightarrow> casbin_model \<Rightarrow> string + casbin_model"

section \<open>The store adapter\<close>

definition value_at :: "string list \<Rightarrow> nat \<Rightarrow> string" where
  "value_at vs i = (if i < length vs then vs ! i else [])"

definition casbinRule :: "string \<Rightarrow> policy_rule \<Rightarrow> CasbinRule" where
  "casbinRule ptype vs =
     \<lparr>cr_PType = ptype, cr_V0 = value_at vs 0, cr_V1 = value_at vs 1, cr_V2 = value_at vs 2,
      cr_V3 = value_at vs 3, cr_V4 = value_at vs 4, cr_V5 = value_at vs 5\<rparr>"

text \<open>One transaction: a role that does not exist, or a failure of the database, leaves the
  stored rules as they were.\<close>

primrec missing_role :: "string list \<Rightarrow> CasbinRule list \<Rightarrow> string option" where
  "missing_role roles [] = None"
| "missing_role roles (rule # rules) =
     (if cr_V0 rule \<notin> set roles
      then Some (''cannot save policy for missing role '' @ go_quote (cr_V0 rule))
      else missing_role roles rules)"

definition ReplaceCasbinPolicies ::
    "string option \<Rightarrow> catalog \<Rightarrow> CasbinRule list \<Rightarrow> catalog \<times> string option" where
  "ReplaceCasbinPolicies fault s rules =
     (case fault of
        Some err \<Rightarrow> (s, Some err)
      | None \<Rightarrow>
          (case missing_role (ct_roles s) rules of
             Some err \<Rightarrow> (s, Some err)
           | None \<Rightarrow> (s\<lparr>ct_rules := rules\<rparr>, None)))"

definition StoreAdapter_line :: "CasbinRule \<Rightarrow> string" where
  "StoreAdapter_line rule =
     join '', '' [cr_PType rule, cr_V0 rule, cr_V1 rule, cr_V2 rule, cr_V3 rule]"

primrec load_lines :: "load_line \<Rightarrow> CasbinRule list \<Rightarrow> casbin_model \<Rightarrow> string + casbin_model" where
  "load_lines loadLine [] target = Inr target"
| "load_lines loadLine (rule # rules) target =
     bind_res (loadLine (StoreAdapter_line rule) target) (load_lines loadLine rules)"

text \<open>The catalog returns the rules of roles that exist.\<close>

definition known_rules :: "catalog \<Rightarrow> CasbinRule list" where
  "known_rules s = filter (\<lambda>rule. cr_V0 rule \<in> set (ct_roles s)) (ct_rules s)"

definition LoadCasbinPolicies :: "string option \<Rightarrow> catalog \<Rightarrow> string + CasbinRule list" where
  "LoadCasbinPolicies fault s =
     (case fault of
        Some err \<Rightarrow> Inl (''failed to load casbin policies: '' @ err)
      | None \<Rightarrow> Inr (known_rules s))"

definition StoreAdapter_LoadPolicy ::
    "load_line \<Rightarrow> string option \<Rightarrow> catalog \<Rightarrow> casbin_model \<Rightarrow> string + casbin_model" where
  "StoreAdapter_LoadPolicy loadLine fault s target =
     bind_res (LoadCasbinPolicies fault s) (\<lambda>rules. load_lines loadLine rules target)"

definition section_rules :: "(string \<times> policy_rule list) list \<Rightarrow> CasbinRule list" where
  "section_rules sec = concat (map (\<lambda>(ptype, policy). map (casbinRule ptype) policy) sec)"

definition StoreAdapter_SavePolicy ::
    "string option \<Rightarrow> catalog \<Rightarrow> casbin_model \<Rightarrow> catalog \<times> string option" where
  "StoreAdapter_SavePolicy fault s target =
     ReplaceCasbinPolicies fault s (section_rules (cm_p target) @ section_rules (cm_g target))"

text \<open>\<^verbatim>\<open>RemoveFilteredPolicy\<close>: an empty expected value matches anything, a field past the last
  column matches nothing.\<close>

primrec filter_matches :: "string list \<Rightarrow> nat \<Rightarrow> string list \<Rightarrow> bool" where
  "filter_matches vs i [] = True"
| "filter_matches vs i (expected # es) =
     (if expected \<noteq> [] \<and> (i \<ge> length vs \<or> vs ! i \<noteq> expected) then False
      else filter_matches vs (Suc i) es)"

definition rule_values :: "CasbinRule \<Rightarrow> string list" where
  "rule_values rule = [cr_V0 rule, cr_V1 rule, cr_V2 rule, cr_V3 rule, cr_V4 rule, cr_V5 rule]"

definition RemoveCasbinPolicy :: "string option \<Rightarrow> catalog \<Rightarrow> CasbinRule \<Rightarrow> catalog \<times> string option" where
  "RemoveCasbinPolicy fault s rule =
     (case fault of
        Some err \<Rightarrow> (s, Some (''failed to remove casbin policy: '' @ err))
      | None \<Rightarrow> (s\<lparr>ct_rules := removeAll rule (ct_rules s)\<rparr>, None))"

text \<open>One fault per removal; with no fault left, nothing fails.\<close>

fun remove_rules :: "string option list \<Rightarrow> catalog \<Rightarrow> CasbinRule list \<Rightarrow> catalog \<times> string option" where
  "remove_rules faults s [] = (s, None)"
| "remove_rules faults s (rule # rules) =
     (case RemoveCasbinPolicy (case faults of [] \<Rightarrow> None | f # fs \<Rightarrow> f) s rule of
        (s', Some err) \<Rightarrow> (s', Some err)
      | (s', None) \<Rightarrow> remove_rules (tl faults) s' rules)"

definition StoreAdapter_RemoveFilteredPolicy ::
    "string option \<Rightarrow> string option list \<Rightarrow> catalog \<Rightarrow> string \<Rightarrow> nat \<Rightarrow> string list \<Rightarrow> catalog \<times> string option" where
  "StoreAdapter_RemoveFilteredPolicy fault faults s ptype fieldIndex fieldValues =
     (case LoadCasbinPolicies fault s of
        Inl err \<Rightarrow> (s, Some err)
      | Inr rules \<Rightarrow>
          remove_rules faults s (filter (\<lambda>rule. cr_PType rule = ptype \<and>
            filter_matches (rule_values rule) fieldIndex fieldValues) rules))"

section \<open>The in-memory adapter\<close>

text \<open>Its state is the list of policies, each with its type first.\<close>

definition MemoryAdapter_line :: "string list \<Rightarrow> string" where
  "MemoryAdapter_line p = join '', '' p"

primrec MemoryAdapter_LoadPolicy ::
    "load_line \<Rightarrow> string list list \<Rightarrow> casbin_model \<Rightarrow> string + casbin_model" where
  "MemoryAdapter_LoadPolicy loadLine [] target = Inr target"
| "MemoryAdapter_LoadPolicy loadLine (p # ps) target =
     (if length p < 1 then MemoryAdapter_LoadPolicy loadLine ps target
      else bind_res (loadLine (MemoryAdapter_line p) target) (MemoryAdapter_LoadPolicy loadLine ps))"

definition MemoryAdapter_SavePolicy :: "casbin_model \<Rightarrow> string list list" where
  "MemoryAdapter_SavePolicy target =
     concat (map (\<lambda>(ptype, rules). map (\<lambda>rule. ptype # rule) rules) (cm_p target)) @
     concat (map (\<lambda>(ptype, rules). map (\<lambda>rule. ptype # rule) rules) (cm_g target))"

definition MemoryAdapter_AddPolicy :: "string list list \<Rightarrow> string \<Rightarrow> policy_rule \<Rightarrow> string list list" where
  "MemoryAdapter_AddPolicy policies ptype rule = policies @ [ptype # rule]"

definition matchRule :: "string list \<Rightarrow> string list \<Rightarrow> bool" where
  "matchRule p1 p2 = (length p1 = length p2 \<and> list_all (\<lambda>i. p1 ! i = p2 ! i) [0..<length p1])"

primrec MemoryAdapter_RemovePolicy :: "string list list \<Rightarrow> string \<Rightarrow> policy_rule \<Rightarrow> string list list" where
  "MemoryAdapter_RemovePolicy [] ptype rule = []"
| "MemoryAdapter_RemovePolicy (p # ps) ptype rule =
     (if length p > 0 \<and> p ! 0 = ptype \<and> matchRule (drop 1 p) rule then ps
      else p # MemoryAdapter_RemovePolicy ps ptype rule)"

primrec memory_matches :: "string list \<Rightarrow> nat \<Rightarrow> string list \<Rightarrow> bool" where
  "memory_matches p i [] = True"
| "memory_matches p i (v # vs) =
     (if v \<noteq> [] \<and> length p > i + 1 \<and> p ! (i + 1) \<noteq> v then False else memory_matches p (Suc i) vs)"

definition MemoryAdapter_RemoveFilteredPolicy ::
    "string list list \<Rightarrow> string \<Rightarrow> nat \<Rightarrow> string list \<Rightarrow> string list list" where
  "MemoryAdapter_RemoveFilteredPolicy policies ptype fieldIndex fieldValues =
     filter (\<lambda>p. length p = 0 \<or> p ! 0 \<noteq> ptype \<or> \<not> memory_matches p fieldIndex fieldValues) policies"

section \<open>An engine over the store adapter\<close>

text \<open>The line parser of the instance: fields at the commas, leading blanks dropped.\<close>

definition line_fields :: "string \<Rightarrow> string list" where
  "line_fields line = map (dropWhile is_ascii_space) (split_on CHR '','' line)"

definition csv_line :: load_line where
  "csv_line line m =
     (case line_fields line of
        [] \<Rightarrow> Inr m
      | ptype # rule \<Rightarrow> Inr (m\<lparr>cm_p := cm_p m @ [(ptype, [rule])]\<rparr>))"

definition empty_model :: casbin_model where
  "empty_model = \<lparr>cm_p = [], cm_g = []\<rparr>"

definition p_rules :: "casbin_model \<Rightarrow> policy_rule list" where
  "p_rules m = concat (map snd (cm_p m))"

definition p_model :: "policy_rule list \<Rightarrow> casbin_model" where
  "p_model ps = \<lparr>cm_p = [(''p'', ps)], cm_g = []\<rparr>"

definition store_engine :: "string option \<Rightarrow> string option \<Rightarrow> (casbin_model, catalog) casbin" where
  "store_engine saveFault loadFault =
     \<lparr>cb_Enforce = (\<lambda>m role ws layer act. Inr (list_ex (matcher role ws layer act) (p_rules m))),
      cb_AddPolicy = (\<lambda>m p. (p_model (List.insert p (p_rules m)), None)),
      cb_RemovePolicy = (\<lambda>m p. (p_model (removeAll p (p_rules m)), None)),
      cb_GetFilteredPolicy = (\<lambda>m i v. Inr (filter (\<lambda>p. i < length p \<and> p ! i = v) (p_rules m))),
      cb_GetPolicy = (\<lambda>m. Inr (p_rules m)),
      cb_SavePolicy = (\<lambda>m s. StoreAdapter_SavePolicy saveFault s (p_model (p_rules m))),
      cb_LoadPolicy = (\<lambda>m s.
        case StoreAdapter_LoadPolicy csv_line loadFault s empty_model of
          Inl err \<Rightarrow> (m, Some err) | Inr m' \<Rightarrow> (m', None))\<rparr>"

text \<open>The policies a catalog holds: those of roles that exist. A catalog with a policy type that the adapter never writes
  counts as holding one unreadable policy, the empty one.\<close>

definition rule_policy :: "CasbinRule \<Rightarrow> policy_rule" where
  "rule_policy rule = [cr_V0 rule, cr_V1 rule, cr_V2 rule, cr_V3 rule]"

definition stored_policies :: "catalog \<Rightarrow> policy_rule set" where
  "stored_policies s =
     (if \<forall>rule \<in> set (known_rules s). cr_PType rule = ''p'' then rule_policy ` set (known_rules s) else {[]})"

section \<open>Lines and fields\<close>

lemma plain_field_comma: "plain_field f \<Longrightarrow> CHR '','' \<notin> set f"
  by (auto simp: plain_field_def)

lemma drop_plain: "plain_field f \<Longrightarrow> dropWhile is_ascii_space f = f"
  by (cases f) (auto simp: plain_field_def is_space_def is_ascii_space_def)

lemma drop_blank_plain: "plain_field f \<Longrightarrow> dropWhile is_ascii_space ('' '' @ f) = f"
  by (simp add: drop_plain is_ascii_space_def code_of_def)

lemma line_fields_plain:
  assumes "list_all plain_field fs" "fs \<noteq> []"
  shows "line_fields (join '', '' fs) = fs"
proof -
  have blanks: "map (dropWhile is_ascii_space \<circ> (@) '' '') ts = ts" if "list_all plain_field ts" for ts
    using that drop_blank_plain by (induction ts) auto
  have "split_on CHR '','' (join '', '' fs) = hd fs # map ((@) '' '') (tl fs)"
    using assms by (intro split_on_join) (auto simp: list_all_iff dest: plain_field_comma)
  with assms blanks [of "tl fs"] show ?thesis
    by (cases fs) (simp_all add: line_fields_def drop_plain)
qed

section \<open>The store adapter meets the contract\<close>

lemma csv_line_rule:
  assumes "list_all plain_field [cr_PType r, cr_V0 r, cr_V1 r, cr_V2 r, cr_V3 r]"
  shows "csv_line (StoreAdapter_line r) m =
    Inr (m\<lparr>cm_p := cm_p m @ [(cr_PType r, [rule_policy r])]\<rparr>)"
  using line_fields_plain [OF assms] by (simp add: csv_line_def StoreAdapter_line_def rule_policy_def)

text \<open>What the adapter relies on of Casbin's line loader: a line of plain fields adds the policy
  it spells out.\<close>

definition loads_plain_lines :: "load_line \<Rightarrow> bool" where
  "loads_plain_lines loadLine \<longleftrightarrow>
     (\<forall>r m. list_all plain_field [cr_PType r, cr_V0 r, cr_V1 r, cr_V2 r, cr_V3 r] \<longrightarrow>
        loadLine (StoreAdapter_line r) m = Inr (m\<lparr>cm_p := cm_p m @ [(cr_PType r, [rule_policy r])]\<rparr>))"

lemma csv_loads_plain_lines: "loads_plain_lines csv_line"
  using csv_line_rule by (auto simp: loads_plain_lines_def)

lemma load_lines_plain:
  assumes "loads_plain_lines loadLine"
    and "\<forall>r \<in> set rs. list_all plain_field [cr_PType r, cr_V0 r, cr_V1 r, cr_V2 r, cr_V3 r]"
  shows "\<exists>m'. load_lines loadLine rs m = Inr m' \<and> p_rules m' = p_rules m @ map rule_policy rs"
  using assms(2)
proof (induction rs arbitrary: m)
  case Nil
  then show ?case by simp
next
  case (Cons r rs)
  let ?m = "m\<lparr>cm_p := cm_p m @ [(cr_PType r, [rule_policy r])]\<rparr>"
  from Cons obtain m' where m': "load_lines loadLine rs ?m = Inr m'"
      "p_rules m' = p_rules ?m @ map rule_policy rs"
    by (meson list.set_intros(2))
  have "loadLine (StoreAdapter_line r) m = Inr ?m"
    using Cons.prems assms(1) by (simp add: loads_plain_lines_def)
  with m' show ?case by (intro exI [of _ m']) (simp add: p_rules_def)
qed

lemma plain_rule_line:
  assumes "plain_policy (rule_policy r)" "cr_PType r = ''p''"
  shows "list_all plain_field [cr_PType r, cr_V0 r, cr_V1 r, cr_V2 r, cr_V3 r]"
  using assms by (simp add: plain_policy_def rule_policy_def plain_field_def is_space_def char_between_def code_of_def)

lemma store_load:
  assumes "loads_plain_lines loadLine" and plain: "\<forall>p \<in> stored_policies s. plain_policy p"
    and load: "StoreAdapter_LoadPolicy loadLine fault s empty_model = Inr m"
  shows "set (p_rules m) = stored_policies s"
proof -
  have "\<not> plain_policy []" by (simp add: plain_policy_def)
  with plain have p: "\<forall>r \<in> set (known_rules s). cr_PType r = ''p''"
    by (auto simp: stored_policies_def split: if_splits)
  with plain have "\<forall>r \<in> set (known_rules s). list_all plain_field [cr_PType r, cr_V0 r, cr_V1 r, cr_V2 r, cr_V3 r]"
    by (intro ballI plain_rule_line) (auto simp: stored_policies_def)
  from load_lines_plain [OF assms(1) this, of empty_model] obtain m' where
    "load_lines loadLine (known_rules s) empty_model = Inr m'"
    "p_rules m' = p_rules empty_model @ map rule_policy (known_rules s)" by blast
  moreover have "p_rules empty_model = []" by (simp add: p_rules_def empty_model_def)
  ultimately have "p_rules m = map rule_policy (known_rules s)"
    using load by (simp add: StoreAdapter_LoadPolicy_def LoadCasbinPolicies_def split: option.splits)
  with p show ?thesis by (simp add: stored_policies_def)
qed

lemma length4: "length p = 4 \<Longrightarrow> \<exists>a b c d. p = [a, b, c, d]"
  by (auto simp: length_Suc_conv numeral_eq_Suc)

lemma rule_policy_casbinRule [simp]: "length p = 4 \<Longrightarrow> rule_policy (casbinRule t p) = p"
  by (drule length4) (auto simp: rule_policy_def casbinRule_def value_at_def)

lemma missing_role_None: "missing_role roles rules = None \<longleftrightarrow> cr_V0 ` set rules \<subseteq> set roles"
  by (induction rules) auto

lemma store_save:
  assumes "\<forall>p \<in> set ps. plain_policy p" "StoreAdapter_SavePolicy fault s (p_model ps) = (s', None)"
  shows "stored_policies s' = set ps"
proof -
  have "ct_rules s' = map (casbinRule ''p'') ps"
    and "cr_V0 ` set (ct_rules s') \<subseteq> set (ct_roles s')"
    using assms(2)
    by (auto simp: StoreAdapter_SavePolicy_def ReplaceCasbinPolicies_def section_rules_def p_model_def
        missing_role_None image_subset_iff split: option.splits)
  then have "known_rules s' = map (casbinRule ''p'') ps"
    by (auto simp: known_rules_def filter_id_conv)
  moreover have "rule_policy ` casbinRule ''p'' ` set ps = set ps"
    using assms(1) by (force simp: plain_policy_def image_iff)
  ultimately show ?thesis by (simp add: stored_policies_def casbinRule_def image_image)
qed

lemma store_save_fail:
  "StoreAdapter_SavePolicy fault s m = (s', Some err) \<Longrightarrow> s' = s"
  by (auto simp: StoreAdapter_SavePolicy_def ReplaceCasbinPolicies_def split: option.splits)

lemma p_rules_p_model [simp]: "p_rules (p_model ps) = ps"
  by (simp add: p_rules_def p_model_def)

lemma store_engine_contract:
  "casbin_engine (store_engine saveFault loadFault) (set \<circ> p_rules) stored_policies"
proof
  fix c role ws layer act
  show "cb_Enforce (store_engine saveFault loadFault) c role ws layer act =
      Inr (\<exists>p \<in> (set \<circ> p_rules) c. matcher role ws layer act p)"
    by (simp add: store_engine_def list_ex_iff)
next
  fix c p c' err
  show "cb_AddPolicy (store_engine saveFault loadFault) c p = (c', None) \<Longrightarrow>
      (set \<circ> p_rules) c' = insert p ((set \<circ> p_rules) c)"
    and "cb_AddPolicy (store_engine saveFault loadFault) c p = (c', Some err) \<Longrightarrow>
      (set \<circ> p_rules) c' \<in> {(set \<circ> p_rules) c, insert p ((set \<circ> p_rules) c)}"
    and "cb_RemovePolicy (store_engine saveFault loadFault) c p = (c', None) \<Longrightarrow>
      (set \<circ> p_rules) c' = (set \<circ> p_rules) c - {p}"
    and "cb_RemovePolicy (store_engine saveFault loadFault) c p = (c', Some err) \<Longrightarrow>
      (set \<circ> p_rules) c' \<in> {(set \<circ> p_rules) c, (set \<circ> p_rules) c - {p}}"
    by (auto simp: store_engine_def)
next
  fix c i v ps
  show "cb_GetFilteredPolicy (store_engine saveFault loadFault) c i v = Inr ps \<Longrightarrow>
      set ps = {p \<in> (set \<circ> p_rules) c. i < length p \<and> p ! i = v}"
    by (auto simp: store_engine_def)
next
  fix c d d' err
  show "\<forall>p \<in> (set \<circ> p_rules) c. plain_policy p \<Longrightarrow>
      cb_SavePolicy (store_engine saveFault loadFault) c d = (d', None) \<Longrightarrow> stored_policies d' = (set \<circ> p_rules) c"
    using store_save [of "p_rules c" saveFault d d'] by (simp add: store_engine_def)
  show "cb_SavePolicy (store_engine saveFault loadFault) c d = (d', Some err) \<Longrightarrow>
      stored_policies d' = stored_policies d"
    by (auto simp: store_engine_def dest: store_save_fail)
next
  fix c d c'
  show "\<forall>p \<in> stored_policies d. plain_policy p \<Longrightarrow>
      cb_LoadPolicy (store_engine saveFault loadFault) c d = (c', None) \<Longrightarrow> (set \<circ> p_rules) c' = stored_policies d"
    using store_load [OF csv_loads_plain_lines, of d loadFault c'] by (auto simp: store_engine_def split: sum.splits)
qed

interpretation se: casbin_engine "store_engine saveFault loadFault" "set \<circ> p_rules" stored_policies
  for saveFault loadFault
  by (rule store_engine_contract)

end
