(* ===== verification/Rbac_Properties.thy ===== *)
theory Rbac_Properties
  imports Rbac_Adapter
begin

text \<open>
  The properties of the access-control component: all-or-nothing mutations, checks that follow
  the stored policies through every history, the built-in roles, operation grants, the adapter's round trip and the two places where
  parts of the component disagree. Where Casbin is involved the hypothesis is its contract
  \<open>casbin_engine\<close>; every witness uses the store-adapter engine, which meets it.
\<close>

section \<open>Lemmas\<close>

lemma plain_default_policies: "\<forall>p \<in> set default_policies. plain_policy p"
  by (simp add: default_policies_def rbac_names plain_policy_def plain_field_def is_space_def
      char_between_def code_of_def)

lemma default_grants:
  "(\<exists>p \<in> set default_policies. matcher role ws layer act p) \<longleftrightarrow>
     role = ''super_admin'' \<or> role = ''admin'' \<and> act \<in> {''manage'', ''read'', ''write'', ''delete''} \<or>
     role = ''editor'' \<and> act \<in> {''read'', ''write''} \<or> role = ''viewer'' \<and> act = ''read''"
  by (auto simp: default_policies_def rbac_names)

lemma operation_not_service: "operation_resource a b \<noteq> service_resource c"
  by (simp add: operation_resource_def service_resource_def)

lemma operation_not_star: "operation_resource a b \<noteq> ''*''" "service_resource c \<noteq> ''*''"
  by (simp_all add: operation_resource_def service_resource_def)

definition fresh_enforcer :: "(casbin_model, catalog) Enforcer" where
  "fresh_enforcer =
     \<lparr>en_loadErr = None, en_enforcer = p_model [],
      en_store = \<lparr>ct_roles = [''super_admin'', ''admin'', ''editor'', ''viewer''], ct_rules = []\<rparr>\<rparr>"

text \<open>The same catalog after the enforcer was created over it.\<close>

definition loaded_enforcer :: "(casbin_model, catalog) Enforcer" where
  "loaded_enforcer = fresh_enforcer\<lparr>en_enforcer := empty_model\<rparr>"

lemma fresh_synced: "synced (set \<circ> p_rules) stored_policies fresh_enforcer"
  by (simp add: synced_def fresh_enforcer_def stored_policies_def known_rules_def)

section \<open>Histories\<close>

text \<open>The calls that change the enforcer, each with the engine that serves it: its saves and
  loads may fail at one call and succeed at the next.\<close>

datatype 'd rbac_op =
    AddDefaults
  | AddOperation string string string string string
  | RemoveOperation string string string string string
  | AddWorkspace string string string
  | RemoveWorkspace string string string
  | AddLayer string string string string
  | RemoveLayer string string string string
  | RemoveAllWorkspace string
  | RemoveResources string "string list"
  | ReloadPolicies
  | UpdateStore "'d \<Rightarrow> 'd \<times> string option"

fun rbac_exec :: "('c, 'd) casbin \<Rightarrow> ('c, 'd) Enforcer \<Rightarrow> 'd rbac_op \<Rightarrow> ('c, 'd) Enforcer \<times> string option" where
  "rbac_exec C e AddDefaults = AddDefaultPolicies C e"
| "rbac_exec C e (AddOperation role ws service operation act) = AddOperationPolicy C e role ws service operation act"
| "rbac_exec C e (RemoveOperation role ws service operation act) = RemoveOperationPolicy C e role ws service operation act"
| "rbac_exec C e (AddWorkspace role ws act) = AddWorkspacePolicy C e role ws act"
| "rbac_exec C e (RemoveWorkspace role ws act) = RemoveWorkspacePolicy C e role ws act"
| "rbac_exec C e (AddLayer role ws layer act) = AddLayerPolicy C e role ws layer act"
| "rbac_exec C e (RemoveLayer role ws layer act) = RemoveLayerPolicy C e role ws layer act"
| "rbac_exec C e (RemoveAllWorkspace ws) = RemoveAllWorkspacePolicies C e ws"
| "rbac_exec C e (RemoveResources ws resources) = RemoveResourcePolicies C e ws resources"
| "rbac_exec C e ReloadPolicies = Reload C e"
| "rbac_exec C e (UpdateStore remove) = UpdatePolicyStore C e remove"

definition rbac_run ::
    "('c, 'd) Enforcer \<Rightarrow> (('c, 'd) casbin \<times> 'd rbac_op) list \<Rightarrow> ('c, 'd) Enforcer" where
  "rbac_run e steps = foldl (\<lambda>e (C, op). fst (rbac_exec C e op)) e steps"

text \<open>The engine makes the live changes it is asked for.\<close>

definition engine_accepts :: "('c, 'd) casbin \<Rightarrow> bool" where
  "engine_accepts C \<longleftrightarrow> (\<forall>c p. snd (cb_AddPolicy C c p) = None \<and> snd (cb_RemovePolicy C c p) = None)"

text \<open>A catalog change that fails leaves the stored policies; none stores a policy that is not plain.\<close>

definition transactional :: "('d \<Rightarrow> policy_rule set) \<Rightarrow> ('d \<Rightarrow> 'd \<times> string option) \<Rightarrow> bool" where
  "transactional durable remove \<longleftrightarrow>
     (\<forall>d. (\<forall>p \<in> durable d. plain_policy p) \<longrightarrow>
        (\<forall>p \<in> durable (fst (remove d)). plain_policy p) \<and>
        (snd (remove d) \<noteq> None \<longrightarrow> durable (fst (remove d)) = durable d))"

fun op_allowed :: "('d \<Rightarrow> policy_rule set) \<Rightarrow> 'd rbac_op \<Rightarrow> bool" where
  "op_allowed durable (AddOperation role ws service operation act) =
     plain_policy [role, ws, policy_resource service operation, act]"
| "op_allowed durable (AddWorkspace role ws act) = plain_policy [role, ws, ''*'', act]"
| "op_allowed durable (AddLayer role ws layer act) = plain_policy [role, ws, layer, act]"
| "op_allowed durable (UpdateStore remove) = transactional durable remove"
| "op_allowed durable _ = True"

definition rbac_permitted ::
    "('c \<Rightarrow> policy_rule set) \<Rightarrow> ('d \<Rightarrow> policy_rule set) \<Rightarrow> ('c, 'd) casbin \<times> 'd rbac_op \<Rightarrow> bool" where
  "rbac_permitted live durable step \<longleftrightarrow>
     policy_engine (fst step) live durable \<and> engine_accepts (fst step) \<and> op_allowed durable (snd step)"

lemma change_accepted:
  "(\<And>c p. snd (change c p) = None) \<Longrightarrow> snd (change_policies change c ps) = None"
proof (induction ps arbitrary: c)
  case (Cons p ps)
  from Cons.prems [of c p] Cons.IH [OF Cons.prems] show ?case by (cases "change c p") simp
qed simp

lemma add_synced:
  assumes "policy_engine C live durable" "engine_accepts C" "synced live durable e" "list_all plain_policy ps"
  shows "synced live durable (fst (mutate C (cb_AddPolicy C) e ps))"
proof -
  have "snd (change_policies (cb_AddPolicy C) (en_enforcer e) ps) = None"
    using assms(2) by (simp add: engine_accepts_def change_accepted)
  with policy_engine.add_outcome [OF assms(1) prod.collapse [symmetric] assms(3), of ps] assms(4)
  show ?thesis by (simp add: change_outcome_synced list_all_iff)
qed

lemma remove_synced:
  assumes "policy_engine C live durable" "engine_accepts C" "synced live durable e"
  shows "synced live durable (fst (mutate C (cb_RemovePolicy C) e ps))"
proof -
  have "snd (change_policies (cb_RemovePolicy C) (en_enforcer e) ps) = None"
    using assms(2) by (simp add: engine_accepts_def change_accepted)
  with policy_engine.remove_outcome [OF assms(1) prod.collapse [symmetric] assms(3), of ps]
  show ?thesis by (simp add: change_outcome_synced)
qed

lemma remove_filtered_synced:
  assumes "policy_engine C live durable" "engine_accepts C" "synced live durable e"
  shows "synced live durable (fst (remove_filtered C e ws wanted))"
proof -
  have "filtered_refusal C e ws wanted = None"
    using assms(2) by (auto simp: filtered_refusal_def engine_accepts_def change_accepted split: sum.splits)
  with policy_engine.remove_filtered_outcome [OF assms(1) prod.collapse [symmetric] assms(3), of ws wanted]
  show ?thesis by (simp add: change_outcome_synced)
qed

lemma load_synced:
  assumes "policy_engine C live durable" "\<forall>p \<in> durable d. plain_policy p"
    and "cb_LoadPolicy C c d = (c', le)"
  shows "synced live durable \<lparr>en_loadErr = le, en_enforcer = c', en_store = d\<rparr>"
  using policy_engine.load_law [OF assms(1,2)] assms(2,3) by (auto simp: synced_def)

lemma rbac_exec_synced:
  assumes "rbac_permitted live durable (C, op)" "synced live durable e"
  shows "synced live durable (fst (rbac_exec C e op))"
proof -
  from assms(1) have eng: "policy_engine C live durable" and acc: "engine_accepts C"
    and allowed: "op_allowed durable op" by (simp_all add: rbac_permitted_def)
  note sync = add_synced [OF eng acc assms(2)] remove_synced [OF eng acc assms(2)]
    remove_filtered_synced [OF eng acc assms(2)]
  have plain: "\<forall>p \<in> durable (en_store e). plain_policy p" using assms(2) by (simp add: synced_def)
  show ?thesis
  proof (cases op)
    case AddDefaults
    then show ?thesis using sync(1) [of default_policies] plain_default_policies
      by (simp add: AddDefaultPolicies_def list_all_iff)
  next
    case ReloadPolicies
    obtain c le where "cb_LoadPolicy C (en_enforcer e) (en_store e) = (c, le)" by fastforce
    with load_synced [OF eng plain this] ReloadPolicies show ?thesis by (simp add: Reload_def synced_def)
  next
    case (UpdateStore remove)
    obtain d r where d: "remove (en_store e) = (d, r)" by fastforce
    obtain c le where l: "cb_LoadPolicy C (en_enforcer e) d = (c, le)" by fastforce
    from allowed UpdateStore have "transactional durable remove" by simp
    from this [unfolded transactional_def, rule_format, of "en_store e"] plain d
    have "\<forall>p \<in> durable d. plain_policy p" and "r \<noteq> None \<Longrightarrow> durable d = durable (en_store e)"
      by simp_all
    with load_synced [OF eng _ l] UpdateStore d l assms(2) show ?thesis
      by (cases r) (auto simp: UpdatePolicyStore_def synced_def)
  qed (use sync allowed in \<open>simp_all add: AddOperationPolicy_def RemoveOperationPolicy_def
      AddWorkspacePolicy_def RemoveWorkspacePolicy_def AddLayerPolicy_def RemoveLayerPolicy_def
      RemoveAllWorkspacePolicies_def RemoveResourcePolicies_def\<close>)
qed

lemma rbac_run_synced:
  "synced live durable e \<Longrightarrow> list_all (rbac_permitted live durable) steps \<Longrightarrow>
   synced live durable (rbac_run e steps)"
proof (induction steps arbitrary: e)
  case (Cons step steps)
  then show ?case using rbac_exec_synced [of live durable "fst step" "snd step" e]
    by (cases step) (simp add: rbac_run_def)
qed (simp add: rbac_run_def)

lemma NewEnforcer_synced:
  assumes "NewEnforcer C new_casbin d = Inr e" "casbin_engine C live durable" "\<forall>p \<in> durable d. plain_policy p"
  shows "synced live durable e"
  using assms(1) load_synced [OF casbin_engine.axioms(1) [OF assms(2)] assms(3)]
  by (auto simp: NewEnforcer_def split: sum.splits prod.splits option.splits)

lemma store_policy_engine: "policy_engine (store_engine saveFault loadFault) (set \<circ> p_rules) stored_policies"
  by (rule casbin_engine.axioms(1) [OF store_engine_contract])

lemma store_engine_accepts: "engine_accepts (store_engine saveFault loadFault)"
  by (simp add: engine_accepts_def store_engine_def)

section \<open>Properties\<close>





text \<open>
  When the engine refuses a removal after it made another, the error is returned without a
  reload: the first removal stays live although the catalog still holds the policy. Here a
  workspace with two policies is cleared and the second removal is refused.
\<close>

definition stubborn_engine :: "(casbin_model, catalog) casbin" where
  "stubborn_engine = (store_engine None None)\<lparr>cb_RemovePolicy := \<lambda>m p.
     if p ! 2 = ''m'' then (m, Some ''refused'') else cb_RemovePolicy (store_engine None None) m p\<rparr>"

lemma stubborn_policy_engine: "policy_engine stubborn_engine (set \<circ> p_rules) stored_policies"
proof -
  have calls: "cb_AddPolicy stubborn_engine = cb_AddPolicy (store_engine None None)"
    "cb_GetFilteredPolicy stubborn_engine = cb_GetFilteredPolicy (store_engine None None)"
    "cb_SavePolicy stubborn_engine = cb_SavePolicy (store_engine None None)"
    "cb_LoadPolicy stubborn_engine = cb_LoadPolicy (store_engine None None)"
    by (simp_all add: stubborn_engine_def)
  show ?thesis
  proof (unfold_locales, unfold calls)
    fix c p c' err
    show "cb_RemovePolicy stubborn_engine c p = (c', None) \<Longrightarrow> (set \<circ> p_rules) c' = (set \<circ> p_rules) c - {p}"
      using se.remove_law(1) [of None None c p c']
      by (simp add: stubborn_engine_def split: if_splits)
    show "cb_RemovePolicy stubborn_engine c p = (c', Some err) \<Longrightarrow>
        (set \<circ> p_rules) c' \<in> {(set \<circ> p_rules) c, (set \<circ> p_rules) c - {p}}"
      using se.remove_law(2) [of None None c p c' err]
      by (simp add: stubborn_engine_def split: if_splits)
  qed (fact se.add_law se.filtered_law se.save_law se.load_law)+
qed

theorem refused_removal_stays_live:
  "\<exists>e e'. synced (set \<circ> p_rules) stored_policies e
     \<and> RemoveAllWorkspacePolicies stubborn_engine e ''w'' = (e', Some ''refused'')
     \<and> CanAccess stubborn_engine e' ''viewer'' ''w'' ''l'' ''read'' = Inr False
     \<and> [''viewer'', ''w'', ''l'', ''read''] \<in> stored_policies (en_store e')"
proof -
  let ?steps = "[(store_engine None None, AddLayer ''viewer'' ''w'' ''m'' ''read''),
     (store_engine None None, AddLayer ''viewer'' ''w'' ''l'' ''read'')]"
  let ?e = "rbac_run fresh_enforcer ?steps"
  have plain: "plain_policy [''viewer'', ''w'', ''l'', ''read'']" "plain_policy [''viewer'', ''w'', ''m'', ''read'']"
    by code_simp+
  then have "list_all (rbac_permitted (set \<circ> p_rules) stored_policies) ?steps"
    by (simp add: rbac_permitted_def store_policy_engine store_engine_accepts)
  with fresh_synced have "synced (set \<circ> p_rules) stored_policies ?e" by (rule rbac_run_synced)
  moreover have "snd (RemoveAllWorkspacePolicies stubborn_engine ?e ''w'') = Some ''refused''"
    "CanAccess stubborn_engine (fst (RemoveAllWorkspacePolicies stubborn_engine ?e ''w''))
       ''viewer'' ''w'' ''l'' ''read'' = Inr False"
    "[''viewer'', ''w'', ''l'', ''read'']
       \<in> stored_policies (en_store (fst (RemoveAllWorkspacePolicies stubborn_engine ?e ''w'')))"
    by code_simp+
  ultimately show ?thesis by (metis prod.collapse)
qed

text \<open>
  The built-in roles: after the default policies were added to an empty, consistent policy
  store, the decisions are exactly these: super_admin may do everything; admin may manage, read,
  write and delete; editor may read and write; viewer may read; any other role may do nothing.
\<close>

theorem default_policies_decisions:
  assumes "casbin_engine C live durable" and "synced live durable e" and "live (en_enforcer e) = {}"
    and "AddDefaultPolicies C e = (e', None)"
  shows "CanAccess C e' role ws layer act = Inr
    (role = ''super_admin'' \<or> role = ''admin'' \<and> act \<in> {''manage'', ''read'', ''write'', ''delete''} \<or>
     role = ''editor'' \<and> act \<in> {''read'', ''write''} \<or> role = ''viewer'' \<and> act = ''read'')"
proof -
  have "change_outcome live durable e e' None
      (snd (change_policies (cb_AddPolicy C) (en_enforcer e) default_policies))
      (set default_policies \<union> live (en_enforcer e))"
    using assms(4) unfolding AddDefaultPolicies_def
    by (intro policy_engine.add_outcome [OF casbin_engine.axioms(1) [OF assms(1)] _ assms(2)] plain_default_policies)
  with assms(3) have "en_loadErr e' = None" "live (en_enforcer e') = set default_policies"
    by (simp_all add: change_outcome_def)
  then show ?thesis
    using casbin_engine.enforce_checked_iff [OF assms(1), of e' role ws layer act]
    by (simp only: CanAccess_def default_grants)
qed

theorem default_policies_decisions_witness:
  "CanAccess (store_engine None None) (fst (AddDefaultPolicies (store_engine None None) fresh_enforcer))
     ''viewer'' ''w'' ''l'' ''write'' = Inr False"
proof -
  let ?e = "fst (AddDefaultPolicies (store_engine None None) fresh_enforcer)"
  have ok: "snd (AddDefaultPolicies (store_engine None None) fresh_enforcer) = None"
    by code_simp
  have "AddDefaultPolicies (store_engine None None) fresh_enforcer = (?e, None)"
    using ok by (metis prod.collapse)
  moreover have "(set \<circ> p_rules) (en_enforcer fresh_enforcer) = {}" by (simp add: fresh_enforcer_def)
  ultimately show ?thesis
    using default_policies_decisions [OF store_engine_contract [of None None] fresh_synced, of ?e
        "''viewer''" "''w''" "''l''" "''write''"]
    by simp
qed

text \<open>
  An operation grant allows that operation, under every spelling of the service and of the
  operation, and nothing else: after it was added, an operation request is allowed exactly if
  it was allowed before or asks for the granted operation, with the granted role and action, in
  the granted workspace.
\<close>

theorem operation_grant_exact:
  assumes "casbin_engine C live durable" and "synced live durable e" and "en_loadErr e = None"
    and "trim_space operation \<noteq> []" and "operation \<noteq> ''*''"
    and "plain_policy [role, ws, operation_resource service operation, act]"
    and "AddOperationPolicy C e role ws service operation act = (e', None)"
  shows "CanAccessOperation C e' role' ws' service' operation' act' = Inr (
    CanAccessOperation C e role' ws' service' operation' act' = Inr True \<or>
    (role' = role \<and> (ws = ''*'' \<or> ws = ws') \<and> (act = ''*'' \<or> act = act') \<and>
     operation_resource service operation = operation_resource service' operation'))"
proof -
  let ?p = "[role, ws, operation_resource service operation, act]"
  have "change_outcome live durable e e' None
      (snd (change_policies (cb_AddPolicy C) (en_enforcer e) [?p])) (set [?p] \<union> live (en_enforcer e))"
    using assms(4-7) unfolding AddOperationPolicy_def policy_resource_def
    by (intro policy_engine.add_outcome [OF casbin_engine.axioms(1) [OF assms(1)] _ assms(2)]) simp_all
  then have e': "en_loadErr e' = None" "live (en_enforcer e') = insert ?p (live (en_enforcer e))"
    by (simp_all add: change_outcome_def)
  have "(\<exists>l \<in> {operation_resource service' operation', service_resource service', ''*''}.
      matcher role' ws' l act' ?p) \<longleftrightarrow>
    (role' = role \<and> (ws = ''*'' \<or> ws = ws') \<and> (act = ''*'' \<or> act = act') \<and>
     operation_resource service operation = operation_resource service' operation')"
    using operation_not_service [of service operation service'] operation_not_star by auto
  then show ?thesis
    by (simp only: casbin_engine.CanAccessOperation_iff [OF assms(1)] e' assms(3)) blast
qed

theorem operation_grant_exact_witness:
  "CanAccessOperation (store_engine None None)
     (fst (AddOperationPolicy (store_engine None None) fresh_enforcer ''viewer'' ''w'' ''WFS'' ''transaction'' ''write''))
     ''viewer'' ''w'' ''wfs'' ''Transaction'' ''write'' = Inr True"
proof -
  let ?r = "AddOperationPolicy (store_engine None None) fresh_enforcer ''viewer'' ''w'' ''WFS'' ''transaction'' ''write''"
  have trim: "trim_space ''transaction'' \<noteq> []" by code_simp
  have res: "operation_resource ''WFS'' ''transaction'' = ''operation:wfs:TRANSACTION''"
    "operation_resource ''wfs'' ''Transaction'' = ''operation:wfs:TRANSACTION''" by code_simp+
  have plain: "plain_policy [''viewer'', ''w'', operation_resource ''WFS'' ''transaction'', ''write'']"
    unfolding res by code_simp
  have "snd ?r = None" by code_simp
  then have r: "?r = (fst ?r, None)" by (metis prod.collapse)
  have "en_loadErr fresh_enforcer = None" by (simp add: fresh_enforcer_def)
  from operation_grant_exact [OF store_engine_contract fresh_synced this trim _ plain r,
      of "''viewer''" "''w''" "''wfs''" "''Transaction''" "''write''"]
  show ?thesis by (simp add: res)
qed

text \<open>
  What the store adapter saves, it loads: for policies with plain fields, a successful save
  followed by a load into an empty model yields exactly the saved policies.
\<close>

theorem StoreAdapter_roundtrip:
  assumes "loads_plain_lines loadLine" and "\<forall>p \<in> set ps. plain_policy p"
    and "StoreAdapter_SavePolicy None s (p_model ps) = (s', None)"
    and "StoreAdapter_LoadPolicy loadLine None s' empty_model = Inr m"
  shows "set (p_rules m) = set ps"
proof -
  from assms(2,3) have "stored_policies s' = set ps" by (rule store_save)
  with store_load [OF assms(1) _ assms(4)] assms(2) show ?thesis by simp
qed

theorem StoreAdapter_roundtrip_witness:
  "set (p_rules (p_model [[''viewer'', ''*'', ''l'', ''read'']])) = set [[''viewer'', ''*'', ''l'', ''read'']]"
proof (rule StoreAdapter_roundtrip [OF csv_loads_plain_lines, where
      s = "\<lparr>ct_roles = [''viewer''], ct_rules = []\<rparr>" and
      s' = "\<lparr>ct_roles = [''viewer''], ct_rules = [casbinRule ''p'' [''viewer'', ''*'', ''l'', ''read'']]\<rparr>"])
  show "\<forall>p \<in> set [[''viewer'', ''*'', ''l'', ''read'']]. plain_policy p" by code_simp
  show "StoreAdapter_SavePolicy None \<lparr>ct_roles = [''viewer''], ct_rules = []\<rparr>
      (p_model [[''viewer'', ''*'', ''l'', ''read'']]) = (\<lparr>ct_roles = [''viewer''],
        ct_rules = [casbinRule ''p'' [''viewer'', ''*'', ''l'', ''read'']]\<rparr>, None)"
    by (simp add: StoreAdapter_SavePolicy_def ReplaceCasbinPolicies_def section_rules_def p_model_def
        casbinRule_def value_at_def)
  show "StoreAdapter_LoadPolicy csv_line None \<lparr>ct_roles = [''viewer''],
      ct_rules = [casbinRule ''p'' [''viewer'', ''*'', ''l'', ''read'']]\<rparr> empty_model
    = Inr (p_model [[''viewer'', ''*'', ''l'', ''read'']])"
    by code_simp
qed

text \<open>
  The line the store adapter reads a policy back from is ambiguous when a field holds a
  comma: two stored rules that grant different things have the same line, so no loader can
  restore both; for plain fields the line determines the policy.
\<close>

theorem StoreAdapter_line_ambiguous:
  "(\<exists>a b. rule_policy a \<noteq> rule_policy b \<and> StoreAdapter_line a = StoreAdapter_line b) \<and>
   (\<forall>a b. list_all plain_field (cr_PType a # rule_policy a) \<and> list_all plain_field (cr_PType b # rule_policy b)
      \<and> StoreAdapter_line a = StoreAdapter_line b \<longrightarrow> cr_PType a = cr_PType b \<and> rule_policy a = rule_policy b)"
proof (intro conjI allI impI)
  let ?a = "casbinRule ''p'' [''viewer'', ''w'', ''a, b'', ''read'']"
  let ?b = "casbinRule ''p'' [''viewer'', ''w, a'', ''b'', ''read'']"
  have "rule_policy ?a \<noteq> rule_policy ?b \<and> StoreAdapter_line ?a = StoreAdapter_line ?b" by code_simp
  then show "\<exists>a b. rule_policy a \<noteq> rule_policy b \<and> StoreAdapter_line a = StoreAdapter_line b" by blast
next
  fix a b assume *: "list_all plain_field (cr_PType a # rule_policy a) \<and>
    list_all plain_field (cr_PType b # rule_policy b) \<and> StoreAdapter_line a = StoreAdapter_line b"
  have "line_fields (StoreAdapter_line r) = cr_PType r # rule_policy r"
    if "list_all plain_field (cr_PType r # rule_policy r)" for r
    using line_fields_plain [OF that] by (simp add: StoreAdapter_line_def rule_policy_def)
  with * have "cr_PType a # rule_policy a = cr_PType b # rule_policy b" by metis
  then show "cr_PType a = cr_PType b" and "rule_policy a = rule_policy b" by simp_all
qed

theorem StoreAdapter_line_ambiguous_witness:
  "\<exists>a b. rule_policy a \<noteq> rule_policy b \<and> StoreAdapter_line a = StoreAdapter_line b"
  using StoreAdapter_line_ambiguous by blast

text \<open>
  \<^const>\<open>Matches\<close> agrees with the matcher the enforcer evaluates except for the letter case of
  the action: it accepts every request the matcher accepts, and a request it accepts beyond
  that differs from the policy's action in letter case only. The difference is real.
\<close>

theorem Matches_vs_matcher:
  "(matcher role ws layer act [r, w, l, a] \<longrightarrow> Matches (ParsePolicy [r, w, l, a]) role ws layer act) \<and>
   (Matches (ParsePolicy [r, w, l, a]) role ws layer act \<longrightarrow>
      matcher role ws layer act [r, w, l, a] \<or> (a \<noteq> act \<and> to_lower a = to_lower act)) \<and>
   Matches (ParsePolicy [''viewer'', ''*'', ''*'', ''read'']) ''viewer'' ''w'' ''l'' ''READ'' \<and>
   \<not> matcher ''viewer'' ''w'' ''l'' ''READ'' [''viewer'', ''*'', ''*'', ''read'']"
proof -
  have "to_lower ''READ'' = to_lower ''read''" by code_simp
  then show ?thesis by (auto simp: Matches_def ParsePolicy_def field_at_def equal_fold_def)
qed

theorem Matches_vs_matcher_witness:
  "Matches (ParsePolicy [''viewer'', ''*'', ''l'', ''read'']) ''viewer'' ''w'' ''l'' ''read''"
  using Matches_vs_matcher [of "''viewer''" "''w''" "''l''" "''read''" "''viewer''" "''*''" "''l''" "''read''"]
  by simp

end
