(* ===== verification/Identity.thy ===== *)
theory Identity
  imports Go_Prelude
begin

text \<open>
  Package \<^verbatim>\<open>internal/identity\<close>, first part: the authenticated principal and the roles it
  holds (\<^verbatim>\<open>identity.go\<close>). A \<^verbatim>\<open>*Identity\<close> that may be nil is an option.
  The lemmas show how workspace assignments and global roles resolve, that the built-in role
  hierarchy is respected, and that the anonymous identity can do nothing.
\<close>

section \<open>Data\<close>

datatype auth_method =
  AuthMethodNone | AuthMethodAPIKey | AuthMethodBasic | AuthMethodJWT | AuthMethodOIDC
| AuthMethodAnonymous | AuthMethodNamed string

text \<open>The string each method stands for (the constants of type \<^verbatim>\<open>AuthMethod\<close>).\<close>

fun auth_method_string :: "auth_method \<Rightarrow> string" where
  "auth_method_string AuthMethodNone = ''none''"
| "auth_method_string AuthMethodAPIKey = ''apikey''"
| "auth_method_string AuthMethodBasic = ''basic''"
| "auth_method_string AuthMethodJWT = ''jwt''"
| "auth_method_string AuthMethodOIDC = ''oidc''"
| "auth_method_string AuthMethodAnonymous = ''anonymous''"
| "auth_method_string (AuthMethodNamed s) = s"

text \<open>A raw claim: what \<^verbatim>\<open>encoding/json\<close> decodes into an \<^verbatim>\<open>interface{}\<close>; a number by its text.\<close>

datatype json =
  JNull | JBool bool | JNumber string | JString string | JArray "json list"
| JObject "(string \<times> json) list"

record Identity =
  id_Subject :: string
  id_Email :: string
  id_DisplayName :: string
  id_AuthMethod :: auth_method
  id_Roles :: "string \<rightharpoonup> string"
  id_Claims :: "string \<rightharpoonup> json"
  id_APIKeyID :: string
  id_SessionID :: string
  id_SessionExpiresAt :: instant
  id_SessionIdleExpiresAt :: instant
  id_SessionTokenHash :: string
  id_SessionPreviousToken :: bool
  id_SessionRotationUntil :: "instant option"

text \<open>Go's zero \<^verbatim>\<open>time.Time\<close>: the first of January of year 1, in nanoseconds of Unix time.\<close>

definition zero_time :: instant where
  "zero_time = - 62135596800 * second"

text \<open>Reading a Go map: a missing key gives the zero value.\<close>

definition role_at :: "(string \<rightharpoonup> string) \<Rightarrow> string \<Rightarrow> string" where
  "role_at m k = (case m k of None \<Rightarrow> [] | Some r \<Rightarrow> r)"

section \<open>Operations\<close>

definition role_level :: "string \<Rightarrow> nat" where
  "role_level role =
     (if role = ''super_admin'' then 4 else if role = ''admin'' then 3
      else if role = ''editor'' then 2 else if role = ''viewer'' then 1 else 0)"

definition roleIncludes :: "string \<Rightarrow> string \<Rightarrow> bool" where
  "roleIncludes role target =
     (let roleLevel = role_level role; targetLevel = role_level target
      in roleLevel > 0 \<and> targetLevel > 0 \<and> roleLevel \<ge> targetLevel)"

fun GetWorkspaceRole :: "Identity option \<Rightarrow> string \<Rightarrow> string" where
  "GetWorkspaceRole None workspaceID = []"
| "GetWorkspaceRole (Some idn) workspaceID =
     (if id_Roles idn ''*'' = Some ''super_admin'' then ''super_admin''
      else case id_Roles idn workspaceID of
             Some role \<Rightarrow> role
           | None \<Rightarrow> role_at (id_Roles idn) ''*'')"

fun HasRole :: "Identity option \<Rightarrow> string \<Rightarrow> string \<Rightarrow> bool" where
  "HasRole None workspaceID role = False"
| "HasRole (Some idn) workspaceID role =
     (let resolved = GetWorkspaceRole (Some idn) workspaceID
      in resolved \<noteq> [] \<and> (resolved = role \<or> roleIncludes resolved role))"

fun HasWorkspaceAccess :: "Identity option \<Rightarrow> string \<Rightarrow> bool" where
  "HasWorkspaceAccess None workspaceID = False"
| "HasWorkspaceAccess (Some idn) workspaceID = (GetWorkspaceRole (Some idn) workspaceID \<noteq> [])"

fun IsSuperAdmin :: "Identity option \<Rightarrow> bool" where
  "IsSuperAdmin None = False"
| "IsSuperAdmin (Some idn) = (role_at (id_Roles idn) ''*'' = ''super_admin'')"

definition IsAdmin :: "Identity option \<Rightarrow> string \<Rightarrow> bool" where
  "IsAdmin idn workspaceID = HasRole idn workspaceID ''admin''"

definition CanRead :: "Identity option \<Rightarrow> string \<Rightarrow> bool" where
  "CanRead idn workspaceID = HasRole idn workspaceID ''viewer''"

definition CanWrite :: "Identity option \<Rightarrow> string \<Rightarrow> bool" where
  "CanWrite idn workspaceID = HasRole idn workspaceID ''editor''"

definition Anonymous :: Identity where
  "Anonymous =
     \<lparr>id_Subject = ''anonymous'', id_Email = [], id_DisplayName = [],
      id_AuthMethod = AuthMethodAnonymous, id_Roles = Map.empty, id_Claims = Map.empty,
      id_APIKeyID = [], id_SessionID = [], id_SessionExpiresAt = zero_time,
      id_SessionIdleExpiresAt = zero_time, id_SessionTokenHash = [],
      id_SessionPreviousToken = False, id_SessionRotationUntil = None\<rparr>"

section \<open>Role resolution\<close>

lemma roleIncludes_trans: "roleIncludes a b \<Longrightarrow> roleIncludes b c \<Longrightarrow> roleIncludes a c"
  by (auto simp: roleIncludes_def Let_def)

lemma IsSuperAdmin_iff: "IsSuperAdmin (Some idn) \<longleftrightarrow> id_Roles idn ''*'' = Some ''super_admin''"
  by (auto simp: role_at_def split: option.splits)

lemma GetWorkspaceRole_super_admin [simp]:
  "IsSuperAdmin idn \<Longrightarrow> GetWorkspaceRole idn ws = ''super_admin''"
  by (cases idn) (simp_all add: IsSuperAdmin_iff del: IsSuperAdmin.simps(2))

lemma GetWorkspaceRole_override:
  "\<not> IsSuperAdmin (Some idn) \<Longrightarrow> id_Roles idn ws = Some role \<Longrightarrow> GetWorkspaceRole (Some idn) ws = role"
  by (auto simp: IsSuperAdmin_iff simp del: IsSuperAdmin.simps)

lemma HasRole_iff:
  "HasRole idn ws role \<longleftrightarrow>
    GetWorkspaceRole idn ws \<noteq> [] \<and>
    (GetWorkspaceRole idn ws = role \<or> roleIncludes (GetWorkspaceRole idn ws) role)"
  by (cases idn) (auto simp: Let_def)

lemma HasRole_access: "HasRole idn ws role \<Longrightarrow> HasWorkspaceAccess idn ws"
  by (cases idn) (auto simp: Let_def)

lemma HasRole_included: "HasRole idn ws role \<Longrightarrow> roleIncludes role target \<Longrightarrow> HasRole idn ws target"
  by (auto simp: HasRole_iff dest: roleIncludes_trans)

section \<open>Properties\<close>

text \<open>
  The role checks respect the hierarchy super_admin > admin > editor > viewer: an identity
  with one built-in role in a workspace passes the check for every built-in role below it, so
  an administrator can write and a writer can read; and every check implies workspace access.
\<close>

theorem HasRole_hierarchy:
  "(HasRole idn ws role \<and> roleIncludes role target \<longrightarrow> HasRole idn ws target) \<and>
   (IsAdmin idn ws \<longrightarrow> CanWrite idn ws) \<and> (CanWrite idn ws \<longrightarrow> CanRead idn ws) \<and>
   (HasRole idn ws role \<longrightarrow> HasWorkspaceAccess idn ws)"
proof -
  have "roleIncludes ''admin'' ''editor''" "roleIncludes ''editor'' ''viewer''"
    by (simp_all add: roleIncludes_def role_level_def)
  then show ?thesis
    by (auto simp: IsAdmin_def CanWrite_def CanRead_def dest: HasRole_included HasRole_access)
qed

theorem HasRole_hierarchy_witness:
  "HasRole (Some (Anonymous\<lparr>id_Roles := [''ws'' \<mapsto> ''admin'']\<rparr>)) ''ws'' ''viewer''"
proof -
  let ?idn = "Some (Anonymous\<lparr>id_Roles := [''ws'' \<mapsto> ''admin'']\<rparr>)"
  have "HasRole ?idn ''ws'' ''admin''" "roleIncludes ''admin'' ''viewer''"
    by (simp_all add: Anonymous_def roleIncludes_def role_level_def Let_def)
  with HasRole_hierarchy [of ?idn "''ws''" "''admin''" "''viewer''"] show ?thesis by blast
qed

text \<open>
  Resolution of a role: a global super_admin keeps that role in every workspace; for every
  other identity an explicit workspace assignment is decisive, even when it is weaker than the
  global role (an editor everywhere who is assigned viewer in one workspace cannot write there);
  without an assignment the global role is inherited, and with neither there is no access.
\<close>

theorem GetWorkspaceRole_resolution:
  "GetWorkspaceRole (Some idn) ws =
     (if IsSuperAdmin (Some idn) then ''super_admin''
      else if ws \<in> dom (id_Roles idn) then the (id_Roles idn ws)
      else if ''*'' \<in> dom (id_Roles idn) then the (id_Roles idn ''*'') else [])
   \<and> (\<not> CanWrite (Some (idn\<lparr>id_Roles := [''*'' \<mapsto> ''editor'', ''ws'' \<mapsto> ''viewer'']\<rparr>)) ''ws'')"
proof -
  have "GetWorkspaceRole (Some idn) ws =
     (if IsSuperAdmin (Some idn) then ''super_admin''
      else if ws \<in> dom (id_Roles idn) then the (id_Roles idn ws)
      else if ''*'' \<in> dom (id_Roles idn) then the (id_Roles idn ''*'') else [])"
    by (cases "id_Roles idn ws"; cases "id_Roles idn ''*''") (auto simp: role_at_def dom_def)
  then show ?thesis
    by (simp add: CanWrite_def roleIncludes_def role_level_def)
qed

text \<open>
  The anonymous identity, and a missing one, have no role, no access and no permission in
  any workspace, and are never super administrators.
\<close>

theorem Anonymous_no_permission:
  "idn \<in> {None, Some Anonymous} \<Longrightarrow>
   GetWorkspaceRole idn ws = [] \<and> \<not> HasWorkspaceAccess idn ws \<and> \<not> HasRole idn ws role \<and>
   \<not> IsSuperAdmin idn"
  by (auto simp: Anonymous_def role_at_def)

theorem Anonymous_no_permission_witness:
  "\<not> HasRole (Some Anonymous) ''ws'' ''viewer''"
  using Anonymous_no_permission [of "Some Anonymous" "''ws''" "''viewer''"] by simp

end
