(* ===== verification/Rbac_Middleware.thy ===== *)
theory Rbac_Middleware
  imports Rbac_Properties Identity
begin

text \<open>
  Package \<^verbatim>\<open>internal/rbac\<close>, the HTTP middleware (\<^verbatim>\<open>middleware.go\<close>, \<^verbatim>\<open>operation.go\<close>).
  A middleware is a function from the request, with what earlier middleware stored in its
  context, to the outcome: the next handler runs, possibly with an operation grant in its
  context, or an error response is written. The theorems say who gets through.
\<close>

section \<open>Data\<close>

record operationGrant =
  og_workspace :: string
  og_service :: string
  og_operation :: string
  og_action :: string

record web_request =
  wr_http :: http_request
  wr_identity :: "Identity option"
  wr_workspace :: "string option"
  wr_layer :: "string option"
  wr_params :: "string \<Rightarrow> string"
  wr_grant :: "operationGrant option"

datatype outcome = Next web_request | HTTPError string nat

section \<open>Middleware\<close>

text \<open>The common tail: an error of the check is a 500, a refusal a 403.\<close>

definition decide :: "string + bool \<Rightarrow> string \<Rightarrow> string \<Rightarrow> outcome \<Rightarrow> outcome" where
  "decide check err_msg deny_msg next_outcome =
     (case check of
        Inl err \<Rightarrow> HTTPError err_msg 500
      | Inr allowed \<Rightarrow> if allowed then next_outcome else HTTPError deny_msg 403)"

definition RequireWorkspaceRead ::
    "('c, 'd) casbin \<Rightarrow> ('c, 'd) Enforcer \<Rightarrow> web_request \<Rightarrow> outcome" where
  "RequireWorkspaceRead C e r =
     (case wr_identity r of
        None \<Rightarrow> HTTPError ''authentication required'' 401
      | Some _ \<Rightarrow>
          (case wr_workspace r of
             None \<Rightarrow> HTTPError ''workspace not found'' 404
           | Some ws \<Rightarrow>
               let role = GetWorkspaceRole (wr_identity r) ws
               in if role = [] then HTTPError ''forbidden: no access to workspace'' 403
                  else decide (CanAccessWorkspace C e role ws) ''internal error checking permissions''
                         ''forbidden: insufficient permissions'' (Next r)))"

definition RequireLayerRead ::
    "('c, 'd) casbin \<Rightarrow> ('c, 'd) Enforcer \<Rightarrow> web_request \<Rightarrow> outcome" where
  "RequireLayerRead C e r =
     (case wr_identity r of
        None \<Rightarrow> HTTPError ''authentication required'' 401
      | Some _ \<Rightarrow>
          (case wr_workspace r of
             None \<Rightarrow> HTTPError ''workspace not found'' 404
           | Some ws \<Rightarrow>
               (case wr_layer r of
                  None \<Rightarrow> Next r
                | Some layer \<Rightarrow>
                    let role = GetWorkspaceRole (wr_identity r) ws
                    in if role = [] then HTTPError ''forbidden: no access to workspace'' 403
                       else decide (CanReadLayer C e role ws layer) ''internal error checking permissions''
                              ''forbidden: no access to layer'' (Next r))))"

definition request_workspace :: "web_request \<Rightarrow> string" where
  "request_workspace r =
     (case wr_workspace r of
        Some ws \<Rightarrow> ws
      | None \<Rightarrow> if wr_params r ''workspace'' = [] then wr_params r ''ws'' else wr_params r ''workspace'')"

definition RequireWorkspaceAdmin ::
    "('c, 'd) casbin \<Rightarrow> ('c, 'd) Enforcer \<Rightarrow> web_request \<Rightarrow> outcome" where
  "RequireWorkspaceAdmin C e r =
     (case wr_identity r of
        None \<Rightarrow> HTTPError ''authentication required'' 401
      | Some _ \<Rightarrow>
          if IsSuperAdmin (wr_identity r) then Next r
          else let workspaceID = request_workspace r
               in if workspaceID = [] then HTTPError ''workspace not specified'' 400
                  else let role = GetWorkspaceRole (wr_identity r) workspaceID
                       in if role = [] then HTTPError ''forbidden: no access to workspace'' 403
                          else decide (CanManageWorkspace C e role workspaceID)
                                 ''internal error checking permissions''
                                 ''forbidden: admin access required'' (Next r))"

definition RequireSuperAdmin :: "web_request \<Rightarrow> outcome" where
  "RequireSuperAdmin r =
     (case wr_identity r of
        None \<Rightarrow> HTTPError ''authentication required'' 401
      | Some _ \<Rightarrow>
          if \<not> IsSuperAdmin (wr_identity r) then HTTPError ''forbidden: super admin required'' 403
          else Next r)"

definition RequireAction ::
    "('c, 'd) casbin \<Rightarrow> ('c, 'd) Enforcer \<Rightarrow> string \<Rightarrow> web_request \<Rightarrow> outcome" where
  "RequireAction C e action r =
     (case wr_identity r of
        None \<Rightarrow> HTTPError ''authentication required'' 401
      | Some _ \<Rightarrow>
          if IsSuperAdmin (wr_identity r) then Next r
          else (case wr_workspace r of
                  None \<Rightarrow> HTTPError ''workspace not found'' 404
                | Some ws \<Rightarrow>
                    let role = GetWorkspaceRole (wr_identity r) ws
                    in if role = [] then HTTPError ''forbidden: no access to workspace'' 403
                       else let layerID = (case wr_layer r of None \<Rightarrow> ''*'' | Some layer \<Rightarrow> layer)
                            in decide (CanAccess C e role ws layerID action)
                                 ''internal error checking permissions''
                                 ''forbidden: insufficient permissions'' (Next r)))"

definition OptionalAuth :: "web_request \<Rightarrow> outcome" where
  "OptionalAuth r = Next r"

definition RequireServiceOperation ::
    "xml_decoder \<Rightarrow> ('c, 'd) casbin \<Rightarrow> ('c, 'd) Enforcer \<Rightarrow> string \<Rightarrow> web_request \<Rightarrow> outcome" where
  "RequireServiceOperation xml C e service r =
     (let r = r\<lparr>wr_http := Prepare xml (wr_http r) service\<rparr>;
          descriptor = Get xml (wr_http r)
      in case d_Err descriptor of
           Some err \<Rightarrow> HTTPError err 400
         | None \<Rightarrow>
             (case wr_identity r of
                None \<Rightarrow> Next r
              | Some _ \<Rightarrow>
                  if IsSuperAdmin (wr_identity r) then Next r
                  else (case wr_workspace r of
                          None \<Rightarrow> HTTPError ''workspace not found'' 404
                        | Some ws \<Rightarrow>
                            let role = GetWorkspaceRole (wr_identity r) ws
                            in if role = [] then Next r
                               else let action = Action service (d_Name descriptor) (rq_Method (wr_http r))
                                    in decide (CanAccessOperation C e role ws service (d_Name descriptor) action)
                                         ''authorization check failed'' ''forbidden: operation is not granted''
                                         (Next (r\<lparr>wr_grant := Some \<lparr>og_workspace = ws, og_service = service,
                                            og_operation = d_Name descriptor, og_action = action\<rparr>\<rparr>)))))"

definition requestOperation :: "xml_decoder \<Rightarrow> http_request \<Rightarrow> string \<times> http_request" where
  "requestOperation xml r =
     (let r = Prepare xml r ''wfs'' in (d_Name (Get xml r), r))"

definition operationAction :: "string \<Rightarrow> string \<Rightarrow> string \<Rightarrow> bool" where
  "operationAction service operation meth = (Action service operation meth \<noteq> ActionRead)"

definition HasOperationGrant :: "xml_decoder \<Rightarrow> web_request \<Rightarrow> string \<Rightarrow> string \<Rightarrow> string \<Rightarrow> bool" where
  "HasOperationGrant xml r workspace service action =
     (case wr_grant r of
        None \<Rightarrow> False
      | Some grant \<Rightarrow> og_workspace grant = workspace \<and> og_service grant = service \<and>
          og_action grant = action \<and> og_operation grant = d_Name (Get xml (wr_http r)))"

section \<open>Lemmas\<close>

lemma decide_Next [simp]:
  "decide check m1 m2 (Next r) = Next r' \<longleftrightarrow> check = Inr True \<and> r' = r"
  by (cases check) (auto simp: decide_def)

lemma RequireServiceOperation_grant:
  assumes "RequireServiceOperation xml C e service r = Next r'" "wr_grant r = None" "wr_grant r' = Some g"
  shows "\<exists>ws. wr_workspace r = Some ws \<and> GetWorkspaceRole (wr_identity r) ws \<noteq> [] \<and>
     g = \<lparr>og_workspace = ws, og_service = service, og_operation = d_Name (Get xml (wr_http r')),
          og_action = Action service (d_Name (Get xml (wr_http r'))) (rq_Method (wr_http r'))\<rparr> \<and>
     CanAccessOperation C e (GetWorkspaceRole (wr_identity r) ws) ws service (og_operation g) (og_action g) = Inr True"
  using assms
  by (auto simp: RequireServiceOperation_def Let_def split: option.splits if_splits)

lemma RequireSuperAdmin_iff:
  "RequireSuperAdmin r = Next r' \<longleftrightarrow> IsSuperAdmin (wr_identity r) \<and> r' = r"
  by (cases "wr_identity r") (auto simp: RequireSuperAdmin_def)

lemma RequireWorkspaceRead_iff:
  "RequireWorkspaceRead C e r = Next r' \<longleftrightarrow> r' = r \<and> (\<exists>ws role. wr_workspace r = Some ws \<and>
      role = GetWorkspaceRole (wr_identity r) ws \<and> role \<noteq> [] \<and> CanAccessWorkspace C e role ws = Inr True)"
proof (cases "wr_identity r")
  case (Some idn)
  then show ?thesis by (cases "wr_workspace r")
    (auto simp: RequireWorkspaceRead_def Let_def simp del: GetWorkspaceRole.simps)
qed (simp add: RequireWorkspaceRead_def)

lemma RequireWorkspaceAdmin_iff:
  "RequireWorkspaceAdmin C e r = Next r' \<longleftrightarrow> r' = r \<and> (IsSuperAdmin (wr_identity r) \<or>
      (\<exists>ws role. ws = request_workspace r \<and> ws \<noteq> [] \<and> role = GetWorkspaceRole (wr_identity r) ws \<and>
        role \<noteq> [] \<and> CanManageWorkspace C e role ws = Inr True))"
proof (cases "wr_identity r")
  case (Some idn)
  then show ?thesis by (cases "IsSuperAdmin (wr_identity r)")
    (auto simp: RequireWorkspaceAdmin_def Let_def simp del: GetWorkspaceRole.simps IsSuperAdmin.simps)
qed (simp add: RequireWorkspaceAdmin_def)

lemma RequireAction_iff:
  "RequireAction C e act r = Next r' \<longleftrightarrow> r' = r \<and> (IsSuperAdmin (wr_identity r) \<or>
      (\<exists>ws role. wr_workspace r = Some ws \<and> role = GetWorkspaceRole (wr_identity r) ws \<and> role \<noteq> [] \<and>
        CanAccess C e role ws (case wr_layer r of None \<Rightarrow> ''*'' | Some l \<Rightarrow> l) act = Inr True))"
proof (cases "wr_identity r")
  case (Some idn)
  then show ?thesis by (cases "IsSuperAdmin (wr_identity r)"; cases "wr_workspace r")
    (auto simp: RequireAction_def Let_def simp del: GetWorkspaceRole.simps IsSuperAdmin.simps)
qed (simp add: RequireAction_def)

lemma RequireLayerRead_iff:
  "RequireLayerRead C e r = Next r' \<longleftrightarrow> r' = r \<and> wr_identity r \<noteq> None \<and> (\<exists>ws. wr_workspace r = Some ws \<and>
      (case wr_layer r of None \<Rightarrow> True
       | Some l \<Rightarrow> GetWorkspaceRole (wr_identity r) ws \<noteq> [] \<and>
           CanReadLayer C e (GetWorkspaceRole (wr_identity r) ws) ws l = Inr True))"
  by (cases "wr_identity r"; cases "wr_workspace r"; cases "wr_layer r")
    (auto simp: RequireLayerRead_def Let_def simp del: GetWorkspaceRole.simps)

lemma RequireServiceOperation_iff:
  "RequireServiceOperation xml C e service r = Next r' \<longleftrightarrow>
      (\<exists>http operation action. http = Prepare xml (wr_http r) service \<and> d_Err (Get xml http) = None \<and>
        operation = d_Name (Get xml http) \<and> action = Action service operation (rq_Method http) \<and>
        (r' = r\<lparr>wr_http := http\<rparr> \<and> (wr_identity r = None \<or> IsSuperAdmin (wr_identity r) \<or>
           (\<exists>ws. wr_workspace r = Some ws \<and> GetWorkspaceRole (wr_identity r) ws = [])) \<or>
         (\<exists>ws role. \<not> IsSuperAdmin (wr_identity r) \<and> wr_workspace r = Some ws \<and>
           role = GetWorkspaceRole (wr_identity r) ws \<and> role \<noteq> [] \<and>
           CanAccessOperation C e role ws service operation action = Inr True \<and>
           r' = r\<lparr>wr_http := http, wr_grant := Some \<lparr>og_workspace = ws, og_service = service,
             og_operation = operation, og_action = action\<rparr>\<rparr>)))"
proof (cases "wr_identity r")
  case None
  then show ?thesis by (auto simp: RequireServiceOperation_def Let_def split: option.splits)
next
  case (Some idn)
  then show ?thesis
    by (cases "wr_workspace r"; cases "d_Err (Get xml (Prepare xml (wr_http r) service))";
        cases "IsSuperAdmin (wr_identity r)")
      (auto simp: RequireServiceOperation_def Let_def simp del: GetWorkspaceRole.simps IsSuperAdmin.simps)
qed

text \<open>A request to a workspace by a viewer of the workspace \<^verbatim>\<open>w\<close>.\<close>

definition viewer_request :: "string \<Rightarrow> web_request" where
  "viewer_request ws =
     \<lparr>wr_http = \<lparr>rq_Method = ''GET'', rq_Path = [], rq_Query = [], rq_Body = NoBody, rq_Descriptor = None\<rparr>,
      wr_identity = Some (Anonymous\<lparr>id_Subject := ''u'', id_AuthMethod := AuthMethodJWT,
        id_Roles := [''w'' \<mapsto> ''viewer'']\<rparr>),
      wr_workspace = Some ws, wr_layer = None, wr_params = (\<lambda>_. []), wr_grant = None\<rparr>"

lemma workspace_role_access:
  "GetWorkspaceRole idn ws \<noteq> [] \<Longrightarrow> HasWorkspaceAccess idn ws"
  by (cases idn) auto

section \<open>Properties\<close>

text \<open>
  C1. Who gets through each authorization middleware, exactly. The super-administrator gate passes
  global super_admins; the workspace, the administration and the action gates pass only an
  identity that is a super_admin (the last two) or whose role in that workspace the enforcer
  allows; the layer gate passes roles that may read the layer of the context, but with no layer
  there every identity; the operation gate refuses malformed requests and passes anonymous
  requests, super_admins and identities without a role in the workspace, all without a grant, and
  an identity with a role only when the enforcer allows the operation, with a grant that records
  it. A pass of the other gates changes nothing in the request.
\<close>

theorem middleware_pass_exactly:
  "(RequireSuperAdmin r = Next r' \<longleftrightarrow> IsSuperAdmin (wr_identity r) \<and> r' = r) \<and>
   (RequireWorkspaceRead C e r = Next r' \<longleftrightarrow> r' = r \<and> (\<exists>ws role. wr_workspace r = Some ws \<and>
      role = GetWorkspaceRole (wr_identity r) ws \<and> role \<noteq> [] \<and> CanAccessWorkspace C e role ws = Inr True)) \<and>
   (RequireWorkspaceAdmin C e r = Next r' \<longleftrightarrow> r' = r \<and> (IsSuperAdmin (wr_identity r) \<or>
      (\<exists>ws role. ws = request_workspace r \<and> ws \<noteq> [] \<and> role = GetWorkspaceRole (wr_identity r) ws \<and>
        role \<noteq> [] \<and> CanManageWorkspace C e role ws = Inr True))) \<and>
   (RequireAction C e act r = Next r' \<longleftrightarrow> r' = r \<and> (IsSuperAdmin (wr_identity r) \<or>
      (\<exists>ws role. wr_workspace r = Some ws \<and> role = GetWorkspaceRole (wr_identity r) ws \<and> role \<noteq> [] \<and>
        CanAccess C e role ws (case wr_layer r of None \<Rightarrow> ''*'' | Some l \<Rightarrow> l) act = Inr True))) \<and>
   (RequireLayerRead C e r = Next r' \<longleftrightarrow> r' = r \<and> wr_identity r \<noteq> None \<and> (\<exists>ws. wr_workspace r = Some ws \<and>
      (case wr_layer r of None \<Rightarrow> True
       | Some l \<Rightarrow> GetWorkspaceRole (wr_identity r) ws \<noteq> [] \<and>
           CanReadLayer C e (GetWorkspaceRole (wr_identity r) ws) ws l = Inr True))) \<and>
   (RequireServiceOperation xml C e service r = Next r' \<longleftrightarrow>
      (\<exists>http operation action. http = Prepare xml (wr_http r) service \<and> d_Err (Get xml http) = None \<and>
        operation = d_Name (Get xml http) \<and> action = Action service operation (rq_Method http) \<and>
        (r' = r\<lparr>wr_http := http\<rparr> \<and> (wr_identity r = None \<or> IsSuperAdmin (wr_identity r) \<or>
           (\<exists>ws. wr_workspace r = Some ws \<and> GetWorkspaceRole (wr_identity r) ws = [])) \<or>
         (\<exists>ws role. \<not> IsSuperAdmin (wr_identity r) \<and> wr_workspace r = Some ws \<and>
           role = GetWorkspaceRole (wr_identity r) ws \<and> role \<noteq> [] \<and>
           CanAccessOperation C e role ws service operation action = Inr True \<and>
           r' = r\<lparr>wr_http := http, wr_grant := Some \<lparr>og_workspace = ws, og_service = service,
             og_operation = operation, og_action = action\<rparr>\<rparr>))))"
  by (intro conjI RequireSuperAdmin_iff RequireWorkspaceRead_iff RequireWorkspaceAdmin_iff
      RequireAction_iff RequireLayerRead_iff RequireServiceOperation_iff)

theorem middleware_pass_exactly_witness:
  "RequireWorkspaceRead (store_engine None None)
     (fst (AddDefaultPolicies (store_engine None None) fresh_enforcer)) (viewer_request ''w'')
     = Next (viewer_request ''w'')
   \<and> RequireWorkspaceRead (store_engine None None)
     (fst (AddDefaultPolicies (store_engine None None) fresh_enforcer)) (viewer_request ''v'')
     \<noteq> Next (viewer_request ''v'')
   \<and> RequireAction (store_engine None None)
     (fst (AddDefaultPolicies (store_engine None None) fresh_enforcer)) ''write'' (viewer_request ''w'')
     \<noteq> Next (viewer_request ''w'')
   \<and> RequireLayerRead (store_engine None None) fresh_enforcer (viewer_request ''v'') = Next (viewer_request ''v'')"
proof -
  let ?e = "fst (AddDefaultPolicies (store_engine None None) fresh_enforcer)"
  have role: "GetWorkspaceRole (wr_identity (viewer_request ''w'')) ''w'' = ''viewer''"
    "GetWorkspaceRole (wr_identity (viewer_request ''v'')) ''v'' = []"
    "IsSuperAdmin (wr_identity (viewer_request ''w'')) = False"
    "CanAccessWorkspace (store_engine None None) ?e ''viewer'' ''w'' = Inr True"
    "CanAccess (store_engine None None) ?e ''viewer'' ''w'' ''*'' ''write'' = Inr False"
    by code_simp+
  have fields: "wr_workspace (viewer_request ws) = Some ws" "wr_layer (viewer_request ws) = None"
    "wr_identity (viewer_request ws) \<noteq> None" for ws
    by (simp_all add: viewer_request_def)
  note pass = middleware_pass_exactly [of "viewer_request ''w''" "viewer_request ''w''" "store_engine None None" ?e "''write''"]
    middleware_pass_exactly [of "viewer_request ''v''" "viewer_request ''v''" "store_engine None None" ?e]
    middleware_pass_exactly [of "viewer_request ''v''" "viewer_request ''v''" "store_engine None None" fresh_enforcer]
  show ?thesis
    using pass(1) [THEN conjunct2, THEN conjunct1] pass(2) [THEN conjunct2, THEN conjunct1]
      pass(1) [THEN conjunct2, THEN conjunct2, THEN conjunct2, THEN conjunct1]
      pass(3) [THEN conjunct2, THEN conjunct2, THEN conjunct2, THEN conjunct2, THEN conjunct1]
    by (simp add: role fields del: GetWorkspaceRole.simps IsSuperAdmin.simps)
qed

text \<open>
  C2. An operation grant in a request's context stands for a decision: whenever the operation
  middleware adds a grant, the enforcer allowed that operation, with the action it needs, to the
  identity's role in that workspace; the grant is recognized for exactly this request's operation,
  and a request that arrives without a grant and without an identity leaves without one.
\<close>

theorem operation_grant_is_decision:
  assumes "RequireServiceOperation xml C e service r = Next r'" and "wr_grant r = None"
  shows "(HasOperationGrant xml r' ws service' act \<longrightarrow>
      service' = service \<and> wr_workspace r = Some ws \<and>
      act = Action service (d_Name (Get xml (wr_http r'))) (rq_Method (wr_http r')) \<and>
      CanAccessOperation C e (GetWorkspaceRole (wr_identity r) ws) ws service
        (d_Name (Get xml (wr_http r'))) act = Inr True)
    \<and> (wr_identity r = None \<longrightarrow> wr_grant r' = None)"
proof (cases "wr_grant r'")
  case None
  then show ?thesis by (simp add: HasOperationGrant_def)
next
  case (Some g)
  from RequireServiceOperation_grant [OF assms Some] show ?thesis
    by (cases "wr_identity r") (auto simp: HasOperationGrant_def Some)
qed

theorem operation_grant_is_decision_witness:
  "\<exists>r'. RequireServiceOperation (\<lambda>_. []) (store_engine None None) fresh_enforcer ''wms''
     \<lparr>wr_http = \<lparr>rq_Method = ''GET'', rq_Path = ''/workspaces/w/wms'', rq_Query = [], rq_Body = NoBody,
        rq_Descriptor = None\<rparr>, wr_identity = None, wr_workspace = Some ''w'', wr_layer = None,
      wr_params = (\<lambda>_. []), wr_grant = None\<rparr> = Next r' \<and> wr_grant r' = None"
proof -
  let ?r = "\<lparr>wr_http = \<lparr>rq_Method = ''GET'', rq_Path = ''/workspaces/w/wms'', rq_Query = [], rq_Body = NoBody,
        rq_Descriptor = None\<rparr>, wr_identity = None, wr_workspace = Some ''w'', wr_layer = None,
      wr_params = (\<lambda>_. []), wr_grant = None\<rparr>"
  have "d_Err (resolve (\<lambda>_. []) (wr_http ?r) ''wms'' ''/workspaces/w/wms'') = None"
    by (simp add: resolve_defs trim_char_def route_path_def route_services_def queryRouting_def)
  then obtain r' where r': "RequireServiceOperation (\<lambda>_. []) (store_engine None None) fresh_enforcer ''wms'' ?r = Next r'"
    by (simp add: RequireServiceOperation_def Prepare_def Get_def Let_def)
  have "wr_grant ?r = None" by simp
  from operation_grant_is_decision [OF r' this] r' show ?thesis by auto
qed

text \<open>
  The layer gate without a layer in the context checks nothing: it passes every identity,
  also one that has no role in the workspace, although its comment announces a fall-back to the
  workspace check. With a layer it passes exactly the roles that may read the layer.
\<close>

theorem RequireLayerRead_without_layer:
  "(wr_layer r = None \<and> wr_identity r \<noteq> None \<and> wr_workspace r \<noteq> None \<longrightarrow> RequireLayerRead C e r = Next r) \<and>
   (\<forall>l. wr_layer r = Some l \<longrightarrow> (RequireLayerRead C e r = Next r' \<longleftrightarrow> r' = r \<and> wr_identity r \<noteq> None \<and>
      (\<exists>ws. wr_workspace r = Some ws \<and> GetWorkspaceRole (wr_identity r) ws \<noteq> [] \<and>
         CanReadLayer C e (GetWorkspaceRole (wr_identity r) ws) ws l = Inr True)))"
  by (cases "wr_identity r"; cases "wr_workspace r"; cases "wr_layer r")
    (auto simp: RequireLayerRead_def Let_def simp del: GetWorkspaceRole.simps)

theorem RequireLayerRead_without_layer_witness:
  "RequireLayerRead (store_engine None None) fresh_enforcer
     \<lparr>wr_http = \<lparr>rq_Method = ''GET'', rq_Path = [], rq_Query = [], rq_Body = NoBody, rq_Descriptor = None\<rparr>,
      wr_identity = Some Anonymous, wr_workspace = Some ''w'', wr_layer = None, wr_params = (\<lambda>_. []),
      wr_grant = None\<rparr>
   = Next \<lparr>wr_http = \<lparr>rq_Method = ''GET'', rq_Path = [], rq_Query = [], rq_Body = NoBody, rq_Descriptor = None\<rparr>,
      wr_identity = Some Anonymous, wr_workspace = Some ''w'', wr_layer = None, wr_params = (\<lambda>_. []),
      wr_grant = None\<rparr>"
  using RequireLayerRead_without_layer [of "\<lparr>wr_http = \<lparr>rq_Method = ''GET'', rq_Path = [], rq_Query = [],
      rq_Body = NoBody, rq_Descriptor = None\<rparr>, wr_identity = Some Anonymous, wr_workspace = Some ''w'',
      wr_layer = None, wr_params = (\<lambda>_. []), wr_grant = None\<rparr>"]
  by simp

end
