(* ===== verification/Rate_Limit.thy ===== *)
theory Rate_Limit
  imports Identity
begin

text \<open>
  Package \<^verbatim>\<open>internal/identity\<close>, second part: the limiter of failed authentications
  (\<^verbatim>\<open>ratelimit.go\<close>). Its map of attempts is an association list; the mutex makes each
  operation atomic, so each is a function from the state to the new state and the returned wait.
  The hash of the principal is a parameter. The lemmas show the backoff schedule, its bound,
  that a success clears a key, and that failures of one key never block another.
\<close>

section \<open>Data\<close>

record RateKey =
  rk_Key :: string
  rk_Threshold :: int

record failureAttempt =
  fa_failures :: int
  fa_blockedUntil :: instant
  fa_updatedAt :: instant

type_synonym FailureLimiter = "(string, failureAttempt) gomap"

definition clientFailureThreshold :: int where "clientFailureThreshold = 5"
definition principalFailureThreshold :: int where "principalFailureThreshold = 50"

definition zero_attempt :: failureAttempt where
  "zero_attempt = \<lparr>fa_failures = 0, fa_blockedUntil = zero_time, fa_updatedAt = zero_time\<rparr>"

definition attempt_at :: "FailureLimiter \<Rightarrow> string \<Rightarrow> failureAttempt" where
  "attempt_at l k = (case map_of l k of None \<Rightarrow> zero_attempt | Some a \<Rightarrow> a)"

section \<open>Operations\<close>

text \<open>\<^verbatim>\<open>net.SplitHostPort\<close>: the host and the port, or an error.\<close>

definition SplitHostPort :: "string \<Rightarrow> (string \<times> string) option" where
  "SplitHostPort hp =
     (if CHR '':'' \<notin> set hp then None
      else let port = rev (takeWhile (\<lambda>c. c \<noteq> CHR '':'') (rev hp));
               i = length hp - length port - 1
           in if hp ! 0 = CHR ''[''
              then (if CHR '']'' \<notin> set hp then None
                    else let e = length (takeWhile (\<lambda>c. c \<noteq> CHR '']'') hp)
                         in if e + 1 \<noteq> i then None
                            else if CHR ''['' \<in> set (drop 1 hp) \<or> CHR '']'' \<in> set (drop (e + 1) hp)
                                 then None
                                 else Some (take (e - 1) (drop 1 hp), port))
              else let host = take i hp
                   in if CHR '':'' \<in> set host \<or> CHR ''['' \<in> set hp \<or> CHR '']'' \<in> set hp
                      then None else Some (host, port))"

definition ClientAddress :: "string \<Rightarrow> string" where
  "ClientAddress remoteAddr =
     (case SplitHostPort remoteAddr of Some (host, _) \<Rightarrow> host | None \<Rightarrow> remoteAddr)"

definition CredentialRateKeys :: "(string \<Rightarrow> string) \<Rightarrow> string \<Rightarrow> string \<Rightarrow> RateKey list" where
  "CredentialRateKeys hashSessionToken remoteAddr princ =
     [\<lparr>rk_Key = ''ip:'' @ ClientAddress remoteAddr, rk_Threshold = clientFailureThreshold\<rparr>,
      \<lparr>rk_Key = ''principal:'' @ hashSessionToken princ,
       rk_Threshold = principalFailureThreshold\<rparr>]"

definition NewFailureLimiter :: FailureLimiter where
  "NewFailureLimiter = []"

definition prune :: "FailureLimiter \<Rightarrow> instant \<Rightarrow> FailureLimiter" where
  "prune l now =
     (if length l < 1024 then l
      else filter (\<lambda>(k, a). \<not> (\<not> fa_blockedUntil a > now \<and> now - fa_updatedAt a > hour)) l)"

primrec wait_loop :: "FailureLimiter \<Rightarrow> instant \<Rightarrow> RateKey list \<Rightarrow> duration \<Rightarrow> duration" where
  "wait_loop l now [] wait = wait"
| "wait_loop l now (key # keys) wait =
     (let blocked = fa_blockedUntil (attempt_at l (rk_Key key))
      in wait_loop l now keys (if blocked > now then max wait (blocked - now) else wait))"

definition Wait :: "FailureLimiter \<Rightarrow> RateKey list \<Rightarrow> instant \<Rightarrow> FailureLimiter \<times> duration" where
  "Wait l keys now = (let l' = prune l now in (l', wait_loop l' now keys 0))"

definition fail_attempt :: "failureAttempt \<Rightarrow> int \<Rightarrow> instant \<Rightarrow> failureAttempt" where
  "fail_attempt attempt threshold now =
     (let attempt = attempt\<lparr>fa_failures := fa_failures attempt + 1, fa_updatedAt := now\<rparr>;
          over = fa_failures attempt - threshold
      in if over \<ge> 0
         then let delay = 30 * second * 2 ^ nat (min over 5)
              in attempt\<lparr>fa_blockedUntil := now + min delay (15 * minute)\<rparr>
         else attempt)"

primrec fail_loop ::
    "FailureLimiter \<Rightarrow> instant \<Rightarrow> RateKey list \<Rightarrow> duration \<Rightarrow> FailureLimiter \<times> duration" where
  "fail_loop l now [] wait = (l, wait)"
| "fail_loop l now (key # keys) wait =
     (let attempt = fail_attempt (attempt_at l (rk_Key key)) (rk_Threshold key) now;
          l' = AList.update (rk_Key key) attempt l;
          blocked = fa_blockedUntil attempt
      in fail_loop l' now keys (if blocked > now then max wait (blocked - now) else wait))"

definition Fail :: "FailureLimiter \<Rightarrow> RateKey list \<Rightarrow> instant \<Rightarrow> FailureLimiter \<times> duration" where
  "Fail l keys now = fail_loop (prune l now) now keys 0"

primrec Succeed :: "FailureLimiter \<Rightarrow> RateKey list \<Rightarrow> FailureLimiter" where
  "Succeed l [] = l"
| "Succeed l (key # keys) = Succeed (AList.delete (rk_Key key) l) keys"

section \<open>The invariant\<close>

text \<open>
  Keys are distinct, every recorded attempt has failed at least once, and no block reaches
  further than fifteen minutes past the failure that set it.
\<close>

definition attempt_ok :: "failureAttempt \<Rightarrow> bool" where
  "attempt_ok a = (1 \<le> fa_failures a \<and> fa_blockedUntil a \<le> max zero_time (fa_updatedAt a + 15 * minute))"

definition limiter_inv :: "FailureLimiter \<Rightarrow> bool" where
  "limiter_inv l = (distinct (map fst l) \<and> (\<forall>(k, a) \<in> set l. attempt_ok a))"

text \<open>No recorded failure lies in the future: the clock readings of the operations never go back.\<close>

definition up_to_date :: "FailureLimiter \<Rightarrow> instant \<Rightarrow> bool" where
  "up_to_date l now = (\<forall>(k, a) \<in> set l. zero_time \<le> fa_updatedAt a \<and> fa_updatedAt a \<le> now)"

text \<open>How long one key is blocked at an instant.\<close>

definition blocked_for :: "FailureLimiter \<Rightarrow> instant \<Rightarrow> string \<Rightarrow> duration" where
  "blocked_for l now k = max 0 (fa_blockedUntil (attempt_at l k) - now)"

section \<open>Lookups\<close>

lemma attempt_at_update [simp]:
  "attempt_at (AList.update k a l) k' = (if k' = k then a else attempt_at l k')"
  by (simp add: attempt_at_def gomap_simps)

lemma attempt_at_delete [simp]:
  "attempt_at (AList.delete k l) k' = (if k' = k then zero_attempt else attempt_at l k')"
  by (simp add: attempt_at_def gomap_simps)

lemma attempt_at_prune:
  assumes "distinct (map fst l)"
  shows "attempt_at (prune l now) k = attempt_at l k \<or>
    (attempt_at (prune l now) k = zero_attempt \<and> fa_blockedUntil (attempt_at l k) \<le> now)"
  using assms by (auto simp: prune_def attempt_at_def map_of_filter_key split: option.splits)

lemma blocked_for_prune:
  assumes "distinct (map fst l)" "zero_time \<le> now" "now \<le> now'"
  shows "blocked_for (prune l now) now' k = blocked_for l now' k"
  using attempt_at_prune [OF assms(1), of now k] assms(2,3)
  by (auto simp: blocked_for_def zero_attempt_def)

lemma wait_loop_ge: "wait \<le> wait_loop l now keys wait"
  by (induction keys arbitrary: wait) (auto simp: Let_def intro: order_trans max.cobounded1)

lemma wait_loop_eq_fold:
  "0 \<le> wait \<Longrightarrow>
   wait_loop l now keys wait = fold (\<lambda>key. max (blocked_for l now (rk_Key key))) keys wait"
proof (induction keys arbitrary: wait)
  case Nil
  then show ?case by simp
next
  case (Cons key keys)
  have step: "(if fa_blockedUntil (attempt_at l (rk_Key key)) > now
      then max wait (fa_blockedUntil (attempt_at l (rk_Key key)) - now) else wait)
      = max (blocked_for l now (rk_Key key)) wait"
    using Cons.prems by (auto simp: blocked_for_def)
  show ?case using Cons by (simp add: Let_def step)
qed

lemma fold_max_Max:
  "fold (\<lambda>key. max (f key)) keys (w :: int) = Max (insert w (f ` set keys))"
proof (induction keys arbitrary: w)
  case Nil
  then show ?case by simp
next
  case (Cons k ks)
  have "Max (insert (max (f k) w) (f ` set ks)) = Max (insert (f k) (insert w (f ` set ks)))"
    by (simp add: Max_insert2 max.assoc) (cases "ks = []"; simp add: max.assoc max.left_commute)
  with Cons show ?case by (simp add: insert_commute)
qed

lemma Wait_Max: "snd (Wait l keys now) = Max (insert 0 ((\<lambda>key. blocked_for (prune l now) now (rk_Key key)) ` set keys))"
  by (simp add: Wait_def Let_def wait_loop_eq_fold fold_max_Max)

section \<open>The operations keep the invariant\<close>

lemma limiter_inv_lookup: "limiter_inv l \<Longrightarrow> map_of l k = Some a \<Longrightarrow> attempt_ok a"
  by (auto simp: limiter_inv_def dest: map_of_SomeD)

lemma limiter_inv_prune: "limiter_inv l \<Longrightarrow> limiter_inv (prune l now)"
  by (auto simp: limiter_inv_def prune_def distinct_keys_filter)

lemma fail_attempt_ok:
  assumes "a = zero_attempt \<or> attempt_ok a" "fa_updatedAt a \<le> now"
  shows "attempt_ok (fail_attempt a thr now)"
  using assms by (auto simp: fail_attempt_def attempt_ok_def zero_attempt_def Let_def)

lemma set_update_subset: "set (AList.update k v l) \<subseteq> insert (k, v) (set l)"
  by (induction l) auto

lemma set_delete_subset: "set (AList.delete k l) \<subseteq> set l"
  by (auto simp: AList.delete_eq)

lemma limiter_inv_update:
  "limiter_inv l \<Longrightarrow> attempt_ok a \<Longrightarrow> limiter_inv (AList.update k a l)"
  using set_update_subset [of k a l] by (auto simp: limiter_inv_def)

lemma attempt_at_cases: "attempt_at l k = zero_attempt \<or> (k, attempt_at l k) \<in> set l"
  by (auto simp: attempt_at_def split: option.splits dest: map_of_SomeD)

lemma attempt_at_ok:
  assumes "limiter_inv l" "up_to_date l now" "zero_time \<le> now"
  shows "attempt_at l k = zero_attempt \<or> attempt_ok (attempt_at l k)" "fa_updatedAt (attempt_at l k) \<le> now"
  using attempt_at_cases [of l k] assms
  by (auto simp: limiter_inv_def up_to_date_def zero_attempt_def)

lemma fail_loop_inv:
  assumes "limiter_inv l" "up_to_date l now" "zero_time \<le> now"
  shows "limiter_inv (fst (fail_loop l now keys w)) \<and> up_to_date (fst (fail_loop l now keys w)) now"
  using assms
proof (induction keys arbitrary: l w)
  case Nil
  then show ?case by simp
next
  case (Cons key keys)
  let ?a = "fail_attempt (attempt_at l (rk_Key key)) (rk_Threshold key) now"
  have "attempt_ok ?a" by (rule fail_attempt_ok) (use attempt_at_ok [OF Cons.prems] in auto)
  moreover have "fa_updatedAt ?a = now" by (simp add: fail_attempt_def Let_def)
  ultimately have "limiter_inv (AList.update (rk_Key key) ?a l)"
      "up_to_date (AList.update (rk_Key key) ?a l) now"
    using Cons.prems set_update_subset [of "rk_Key key" ?a l]
    by (auto simp: limiter_inv_update up_to_date_def)
  then show ?case using Cons.IH Cons.prems(3) by (simp add: Let_def)
qed

lemma up_to_date_prune: "up_to_date l now \<Longrightarrow> up_to_date (prune l t) now"
  by (auto simp: up_to_date_def prune_def)

lemma up_to_date_later: "up_to_date l now \<Longrightarrow> now \<le> now' \<Longrightarrow> up_to_date l now'"
  by (force simp: up_to_date_def)

lemma Succeed_inv:
  "limiter_inv l \<and> up_to_date l now \<Longrightarrow> limiter_inv (Succeed l keys) \<and> up_to_date (Succeed l keys) now"
proof (induction keys arbitrary: l)
  case Nil
  then show ?case by simp
next
  case (Cons key keys)
  have "limiter_inv (AList.delete (rk_Key key) l) \<and> up_to_date (AList.delete (rk_Key key) l) now"
    using Cons.prems set_delete_subset [of "rk_Key key" l]
    by (auto simp: limiter_inv_def up_to_date_def)
  then show ?case using Cons.IH by simp
qed

section \<open>What a failure changes\<close>

lemma fail_loop_other:
  "k \<notin> rk_Key ` set keys \<Longrightarrow> attempt_at (fst (fail_loop l now keys w)) k = attempt_at l k"
  by (induction keys arbitrary: l w) (auto simp: Let_def)

lemma fail_loop_wait:
  assumes "distinct (map rk_Key keys)" "0 \<le> w"
  shows "snd (fail_loop l now keys w) =
    fold (\<lambda>key. max (blocked_for (fst (fail_loop l now keys w)) now (rk_Key key))) keys w"
  using assms
proof (induction keys arbitrary: l w)
  case Nil
  then show ?case by simp
next
  case (Cons key keys)
  let ?a = "fail_attempt (attempt_at l (rk_Key key)) (rk_Threshold key) now"
  let ?l = "AList.update (rk_Key key) ?a l"
  let ?w = "if fa_blockedUntil ?a > now then max w (fa_blockedUntil ?a - now) else w"
  have "attempt_at (fst (fail_loop ?l now keys ?w)) (rk_Key key) = ?a"
    using Cons.prems(1) by (subst fail_loop_other) auto
  then have "max (blocked_for (fst (fail_loop ?l now keys ?w)) now (rk_Key key)) w = ?w"
    using Cons.prems(2) by (auto simp: blocked_for_def)
  with Cons.IH [of ?w ?l] Cons.prems show ?case by (simp add: Let_def)
qed

lemma Succeed_lookup:
  "attempt_at (Succeed l keys) k = (if k \<in> rk_Key ` set keys then zero_attempt else attempt_at l k)"
  by (induction keys arbitrary: l) auto

lemma blocked_bound:
  assumes "limiter_inv l" "up_to_date l now" "zero_time \<le> now"
  shows "0 \<le> blocked_for l now k \<and> blocked_for l now k \<le> 15 * minute"
  using attempt_at_cases [of l k] assms
  by (fastforce simp: blocked_for_def limiter_inv_def up_to_date_def attempt_ok_def zero_attempt_def)

section \<open>The interface the authenticators use\<close>

text \<open>
  A limiter as the login handlers see it: an invariant relative to the last clock reading, the
  time a key remains blocked, and the three calls. The laws are what the callers rely on.
\<close>

locale failure_limiter =
  fixes inv :: "'s \<Rightarrow> instant \<Rightarrow> bool"
    and remaining :: "'s \<Rightarrow> instant \<Rightarrow> string \<Rightarrow> duration"
    and wait :: "'s \<Rightarrow> RateKey list \<Rightarrow> instant \<Rightarrow> 's \<times> duration"
    and fail :: "'s \<Rightarrow> RateKey list \<Rightarrow> instant \<Rightarrow> 's \<times> duration"
    and succeed :: "'s \<Rightarrow> RateKey list \<Rightarrow> 's"
  assumes inv_wait: "inv s t \<Longrightarrow> t \<le> now \<Longrightarrow> inv (fst (wait s keys now)) now"
    and inv_fail: "inv s t \<Longrightarrow> t \<le> now \<Longrightarrow> inv (fst (fail s keys now)) now"
    and inv_succeed: "inv s t \<Longrightarrow> inv (succeed s keys) t"
    and remaining_bounds: "inv s t \<Longrightarrow> 0 \<le> remaining s t k \<and> remaining s t k \<le> 15 * minute"
    and wait_value: "inv s t \<Longrightarrow> t \<le> now \<Longrightarrow>
      snd (wait s keys now) = Max (insert 0 ((\<lambda>key. remaining s now (rk_Key key)) ` set keys))"
    and inv_later: "inv s t \<Longrightarrow> t \<le> now \<Longrightarrow> inv s now"
    and fail_value: "inv s t \<Longrightarrow> t \<le> now \<Longrightarrow> distinct (map rk_Key keys) \<Longrightarrow>
      snd (fail s keys now) =
        Max (insert 0 ((\<lambda>key. remaining (fst (fail s keys now)) now (rk_Key key)) ` set keys))"
    and fail_frame: "inv s t \<Longrightarrow> t \<le> now \<Longrightarrow> now \<le> now' \<Longrightarrow> k \<notin> rk_Key ` set keys \<Longrightarrow>
      remaining (fst (fail s keys now)) now' k = remaining s now' k"
    and succeed_clears: "inv s t \<Longrightarrow> k \<in> rk_Key ` set keys \<Longrightarrow> remaining (succeed s keys) t k = 0"
begin

lemma wait_bounds:
  assumes "inv s t" "t \<le> now"
  shows "0 \<le> snd (wait s keys now) \<and> snd (wait s keys now) \<le> 15 * minute"
proof -
  have "\<forall>key. 0 \<le> remaining s now (rk_Key key) \<and> remaining s now (rk_Key key) \<le> 15 * minute"
    using remaining_bounds [OF inv_later [OF assms]] by blast
  then show ?thesis by (auto simp: wait_value [OF assms])
qed

lemma fail_then_wait:
  assumes "inv s t" "t \<le> now" "distinct (map rk_Key keys)"
  shows "snd (wait (fst (fail s keys now)) keys now) = snd (fail s keys now)"
  by (simp add: wait_value [OF inv_fail [OF assms(1,2)] order_refl] fail_value [OF assms])

lemma fail_bounds:
  assumes "inv s t" "t \<le> now" "distinct (map rk_Key keys)"
  shows "0 \<le> snd (fail s keys now) \<and> snd (fail s keys now) \<le> 15 * minute"
  using wait_bounds [OF inv_fail [OF assms(1,2)] order_refl] fail_then_wait [OF assms] by metis

lemma succeed_then_wait:
  assumes "inv s t"
  shows "snd (wait (succeed s keys) keys t) = 0"
proof -
  have "(\<lambda>key. remaining (succeed s keys) t (rk_Key key)) ` set keys \<subseteq> {0}"
    using succeed_clears [OF assms] by auto
  then show ?thesis
    by (auto simp: wait_value [OF inv_succeed [OF assms] order_refl] subset_singleton_iff)
qed

lemma others_keep_waiting_time:
  assumes "inv s t" "t \<le> now" "now \<le> now'" "rk_Key key \<notin> rk_Key ` set keys"
  shows "snd (wait (fst (fail s keys now)) [key] now') = snd (wait s [key] now')"
  using fail_frame [OF assms] wait_value [OF inv_fail [OF assms(1,2)] assms(3)]
    wait_value [OF assms(1), of now' "[key]"] assms(2,3) by simp

end

definition limiter_inv_at :: "FailureLimiter \<Rightarrow> instant \<Rightarrow> bool" where
  "limiter_inv_at l t = (limiter_inv l \<and> up_to_date l t \<and> zero_time \<le> t)"

lemma limiter_inv_at_Fail:
  "limiter_inv_at l t \<Longrightarrow> t \<le> now \<Longrightarrow> limiter_inv_at (fst (Fail l keys now)) now"
  unfolding limiter_inv_at_def Fail_def
  using fail_loop_inv [of "prune l now" now keys 0] limiter_inv_prune up_to_date_prune up_to_date_later
  by (metis order_trans)

interpretation fl: failure_limiter limiter_inv_at blocked_for Wait Fail Succeed
proof unfold_locales
  fix s :: FailureLimiter and t now and keys :: "RateKey list"
  assume *: "limiter_inv_at s t" "t \<le> now"
  then have d: "distinct (map fst s)" and z: "zero_time \<le> now"
    by (auto simp: limiter_inv_at_def limiter_inv_def)
  show "limiter_inv_at (fst (Wait s keys now)) now" and "limiter_inv_at s now"
    using * by (auto simp: limiter_inv_at_def Wait_def Let_def
        intro: limiter_inv_prune up_to_date_prune up_to_date_later)
  show "limiter_inv_at (fst (Fail s keys now)) now" using * by (rule limiter_inv_at_Fail)
  show "snd (Wait s keys now) = Max (insert 0 ((\<lambda>key. blocked_for s now (rk_Key key)) ` set keys))"
    by (simp add: Wait_Max blocked_for_prune [OF d z order_refl])
  show "distinct (map rk_Key keys) \<Longrightarrow> snd (Fail s keys now) =
      Max (insert 0 ((\<lambda>key. blocked_for (fst (Fail s keys now)) now (rk_Key key)) ` set keys))"
    by (subst Fail_def, subst fail_loop_wait) (simp_all add: Fail_def fold_max_Max)
  fix now' k assume "now \<le> now'" "k \<notin> rk_Key ` set keys"
  then have "blocked_for (fst (Fail s keys now)) now' k = blocked_for (prune s now) now' k"
    by (simp add: Fail_def blocked_for_def fail_loop_other)
  then show "blocked_for (fst (Fail s keys now)) now' k = blocked_for s now' k"
    using blocked_for_prune [OF d z \<open>now \<le> now'\<close>] by simp
next
  fix s :: FailureLimiter and t and keys :: "RateKey list" assume "limiter_inv_at s t"
  then show "limiter_inv_at (Succeed s keys) t"
    using Succeed_inv by (auto simp: limiter_inv_at_def)
next
  fix s t k assume "limiter_inv_at s t"
  then show "0 \<le> blocked_for s t k \<and> blocked_for s t k \<le> 15 * minute"
    by (intro blocked_bound) (auto simp: limiter_inv_at_def)
next
  fix s :: FailureLimiter and t k and keys :: "RateKey list" assume "limiter_inv_at s t" "k \<in> rk_Key ` set keys"
  then show "blocked_for (Succeed s keys) t k = 0"
    by (simp add: blocked_for_def Succeed_lookup zero_attempt_def limiter_inv_at_def)
qed

section \<open>The backoff schedule\<close>

text \<open>Consecutive failures of one key, and the wait the last of them returns.\<close>

definition fail_times :: "RateKey \<Rightarrow> instant list \<Rightarrow> FailureLimiter \<times> duration" where
  "fail_times key ts = foldl (\<lambda>(l, _) t. Fail l [key] t) (NewFailureLimiter, 0) ts"

definition backoff :: "int \<Rightarrow> int \<Rightarrow> duration" where
  "backoff threshold n =
     (if n < threshold then 0 else min (30 * second * 2 ^ nat (min (n - threshold) 5)) (15 * minute))"

lemma fail_times_snoc:
  "fail_times key (ts @ [t]) = Fail (fst (fail_times key ts)) [key] t"
  by (simp add: fail_times_def split: prod.splits)

lemma fail_times_state:
  "\<exists>a. fst (fail_times key ts) = (if ts = [] then [] else [(rk_Key key, a)]) \<and>
       fa_failures (attempt_at (fst (fail_times key ts)) (rk_Key key)) = int (length ts) \<and>
       (int (length ts) < rk_Threshold key \<longrightarrow>
         fa_blockedUntil (attempt_at (fst (fail_times key ts)) (rk_Key key)) = zero_time)"
proof (induction ts rule: rev_induct)
  case Nil
  then show ?case
    by (simp add: fail_times_def NewFailureLimiter_def attempt_at_def zero_attempt_def)
next
  case (snoc t ts)
  let ?l = "fst (fail_times key ts)"
  let ?a = "fail_attempt (attempt_at ?l (rk_Key key)) (rk_Threshold key) t"
  have "length ?l < 1024" and "AList.update (rk_Key key) ?a ?l = [(rk_Key key, ?a)]"
    using snoc by (auto split: if_splits)
  then have "fst (fail_times key (ts @ [t])) = [(rk_Key key, ?a)]"
    by (simp add: fail_times_snoc Fail_def prune_def Let_def)
  then show ?case using snoc by (auto simp: fail_attempt_def attempt_at_def Let_def)
qed

lemma fail_times_wait:
  assumes "zero_time \<le> t"
  shows "snd (fail_times key (ts @ [t])) = backoff (rk_Threshold key) (int (length ts) + 1)"
proof -
  let ?l = "fst (fail_times key ts)"
  have "length ?l < 1024" using fail_times_state [of key ts] by (auto split: if_splits)
  then show ?thesis
    using fail_times_state [of key ts] assms
    by (auto simp: fail_times_snoc Fail_def prune_def Let_def fail_attempt_def backoff_def)
qed

section \<open>Properties\<close>

text \<open>
  The backoff schedule: of consecutive failures of one key, those below the threshold are
  answered without delay; the one that reaches the threshold blocks for thirty seconds, every
  further one doubles the block, and no block exceeds fifteen minutes.
\<close>

theorem Fail_backoff_schedule:
  assumes "zero_time \<le> t"
  shows "snd (fail_times key (ts @ [t])) = backoff (rk_Threshold key) (int (length ts) + 1)
    \<and> map (backoff 5) [4, 5, 6, 7, 8, 9, 10, 100]
      = map (\<lambda>s. s * second) [0, 30, 60, 120, 240, 480, 900, 900]"
  using fail_times_wait [OF assms] by (simp add: backoff_def)

theorem Fail_backoff_schedule_witness:
  "snd (fail_times \<lparr>rk_Key = ''ip:::1'', rk_Threshold = 5\<rparr> ([1, 2, 3, 4] @ [7])) = 30 * second"
  using Fail_backoff_schedule [of 7 "\<lparr>rk_Key = ''ip:::1'', rk_Threshold = 5\<rparr>" "[1, 2, 3, 4]"]
  by (simp add: zero_time_def backoff_def)

text \<open>
  A wait reported by the limiter is never negative and never longer than fifteen minutes;
  the wait \<^const>\<open>Fail\<close> returns is the one \<^const>\<open>Wait\<close> then reports at the same instant; and after
  \<^const>\<open>Succeed\<close> the keys are free at once.
\<close>

theorem limiter_waits:
  assumes "limiter_inv_at l t" and "t \<le> now" and "distinct (map rk_Key keys)"
  shows "0 \<le> snd (Wait l keys now) \<and> snd (Wait l keys now) \<le> 15 * minute
    \<and> snd (Wait (fst (Fail l keys now)) keys now) = snd (Fail l keys now)
    \<and> snd (Fail l keys now) \<le> 15 * minute
    \<and> snd (Wait (Succeed l keys) keys t) = 0"
  using fl.wait_bounds [OF assms(1,2)] fl.fail_then_wait [OF assms] fl.fail_bounds [OF assms]
    fl.succeed_then_wait [OF assms(1)] by blast

theorem limiter_waits_witness:
  "snd (Wait (Succeed NewFailureLimiter (CredentialRateKeys id ''1.2.3.4:80'' ''bob''))
     (CredentialRateKeys id ''1.2.3.4:80'' ''bob'') 5) = 0"
proof -
  let ?keys = "CredentialRateKeys id ''1.2.3.4:80'' ''bob''"
  have "limiter_inv_at NewFailureLimiter 5"
    by (simp add: limiter_inv_at_def NewFailureLimiter_def limiter_inv_def up_to_date_def zero_time_def)
  moreover have "distinct (map rk_Key ?keys)" by (simp add: CredentialRateKeys_def)
  ultimately show ?thesis using limiter_waits [of NewFailureLimiter 5 5 ?keys] by simp
qed

text \<open>
  Failures are charged to their own keys only: recording failures against some keys, with
  the clean-up of old entries it may trigger, leaves the waiting time of every other key
  unchanged from that moment on. So one client cannot lock another out.
\<close>

theorem Fail_isolates_keys:
  assumes "limiter_inv_at l t" and "t \<le> now" and "now \<le> now'" and "rk_Key key \<notin> rk_Key ` set keys"
  shows "snd (Wait (fst (Fail l keys now)) [key] now') = snd (Wait l [key] now')"
  using assms by (rule fl.others_keep_waiting_time)

theorem Fail_isolates_keys_witness:
  "snd (Wait (fst (Fail NewFailureLimiter (CredentialRateKeys id ''1.2.3.4:80'' ''bob'') 5))
     [\<lparr>rk_Key = ''ip:9.9.9.9'', rk_Threshold = 5\<rparr>] 6)
   = snd (Wait NewFailureLimiter [\<lparr>rk_Key = ''ip:9.9.9.9'', rk_Threshold = 5\<rparr>] 6)"
proof (rule Fail_isolates_keys [where t = 5])
  show "limiter_inv_at NewFailureLimiter 5"
    by (simp add: limiter_inv_at_def NewFailureLimiter_def limiter_inv_def up_to_date_def zero_time_def)
  have "ClientAddress ''1.2.3.4:80'' = ''1.2.3.4''"
    by (simp add: ClientAddress_def SplitHostPort_def Let_def)
  then show "rk_Key \<lparr>rk_Key = ''ip:9.9.9.9'', rk_Threshold = 5\<rparr>
      \<notin> rk_Key ` set (CredentialRateKeys id ''1.2.3.4:80'' ''bob'')"
    by (simp add: CredentialRateKeys_def)
qed simp_all

end
