(* ===== verification/Sql_Quote.thy ===== *)
theory Sql_Quote
  imports Go_Prelude
begin

text \<open>
  Package \<^verbatim>\<open>internal/sqlutil\<close>: the quoting every generated SQL statement goes through
  (\<^verbatim>\<open>quote.go\<close>). The specification is the lexical rule of PostgreSQL and DuckDB: inside
  a quoted token a doubled quote stands for one quote, and a quote that is not doubled ends the
  token. \<open>scan_quoted\<close> is that rule; the theorems say that a quoted value is read back
  unchanged and that the scan stops exactly at the closing quote, whatever the value holds.
\<close>

section \<open>Definitions\<close>

abbreviation dquote :: char where "dquote \<equiv> CHR 34"
abbreviation squote :: char where "squote \<equiv> CHR 39"

definition QuoteIdent :: "string \<Rightarrow> string" where
  "QuoteIdent name = [dquote] @ replace_char dquote [dquote, dquote] name @ [dquote]"

definition EscapeLiteral :: "string \<Rightarrow> string" where
  "EscapeLiteral value = replace_char squote [squote, squote] value"

definition QuoteLiteral :: "string \<Rightarrow> string" where
  "QuoteLiteral value = [squote] @ EscapeLiteral value @ [squote]"

text \<open>
  The lexical rule of a token quoted with \<open>q\<close>, after its opening quote: the value read and
  the text that follows the closing quote, or \<^const>\<open>None\<close> for an unterminated token.
\<close>

fun scan_quoted :: "char \<Rightarrow> string \<Rightarrow> (string \<times> string) option" where
  "scan_quoted q [] = None"
| "scan_quoted q [c] = (if c = q then Some ([], []) else None)"
| "scan_quoted q (c # d # cs) =
     (if c = q
      then (if d = q then map_option (\<lambda>(t, r). (q # t, r)) (scan_quoted q cs)
            else Some ([], d # cs))
      else map_option (\<lambda>(t, r). (c # t, r)) (scan_quoted q (d # cs)))"

definition scan_token :: "char \<Rightarrow> string \<Rightarrow> (string \<times> string) option" where
  "scan_token q s = (case s of [] \<Rightarrow> None | c # cs \<Rightarrow> if c = q then scan_quoted q cs else None)"

section \<open>The contract of a quoting function\<close>

text \<open>
  What the SQL generators rely on: every quote of the value is doubled and the result stands
  between two quotes. From it, the value is recovered by the lexical rule.
\<close>

locale sql_quoting =
  fixes q :: char and quote :: "string \<Rightarrow> string"
  assumes quote_shape: "quote s = q # replace_char q [q, q] s @ [q]"
begin

lemma scan_body:
  assumes "\<And>d ds. rest = d # ds \<Longrightarrow> d \<noteq> q"
  shows "scan_quoted q (replace_char q [q, q] s @ q # rest) = Some (s, rest)"
proof (induction s)
  case Nil
  with assms show ?case by (cases rest) auto
next
  case (Cons c cs)
  show ?case
  proof (cases "c = q")
    case True
    with Cons show ?thesis by simp
  next
    case False
    obtain e es where e: "replace_char q [q, q] cs @ q # rest = e # es"
      by (cases "replace_char q [q, q] cs") auto
    with Cons False show ?thesis by simp
  qed
qed

lemma scan_quote:
  "(\<And>d ds. rest = d # ds \<Longrightarrow> d \<noteq> q) \<Longrightarrow> scan_token q (quote s @ rest) = Some (s, rest)"
  by (simp add: scan_token_def quote_shape scan_body)

lemma quote_inject: "quote s = quote t \<Longrightarrow> s = t"
  using scan_quote [of "[]" s] scan_quote [of "[]" t] by simp

end

interpretation ident: sql_quoting dquote QuoteIdent
  by unfold_locales (simp add: QuoteIdent_def)

interpretation lit: sql_quoting squote QuoteLiteral
  by unfold_locales (simp add: QuoteLiteral_def EscapeLiteral_def)

lemmas QuoteIdent_inject = ident.quote_inject
lemmas QuoteLiteral_inject = lit.quote_inject

section \<open>Properties\<close>

text \<open>
  An identifier quoted by \<^const>\<open>QuoteIdent\<close> is one token for the SQL lexer: whatever bytes
  the name holds, quotes included, the lexer reads back exactly the name and resumes at the text
  the generator put after it, as long as that text does not start with a double quote.
\<close>

theorem QuoteIdent_single_token:
  "(case rest of [] \<Rightarrow> True | d # _ \<Rightarrow> d \<noteq> dquote) \<Longrightarrow>
   scan_token dquote (QuoteIdent name @ rest) = Some (name, rest)"
  by (rule ident.scan_quote) (simp split: list.splits)

theorem QuoteIdent_single_token_witness:
  "scan_token dquote (QuoteIdent (''a'' @ [dquote] @ ''; DROP'') @ '' = $1'')
    = Some (''a'' @ [dquote] @ ''; DROP'', '' = $1'')"
  by (rule QuoteIdent_single_token) simp

text \<open>
  A literal quoted by \<^const>\<open>QuoteLiteral\<close> is one token for the SQL lexer: whatever bytes
  the value holds, single quotes included, the lexer reads back exactly the value and
  resumes at the text that follows.
\<close>

theorem QuoteLiteral_single_token:
  "(case rest of [] \<Rightarrow> True | d # _ \<Rightarrow> d \<noteq> squote) \<Longrightarrow>
   scan_token squote (QuoteLiteral value @ rest) = Some (value, rest)"
  by (rule lit.scan_quote) (simp split: list.splits)

theorem QuoteLiteral_single_token_witness:
  "scan_token squote (QuoteLiteral (''it'' @ [squote] @ ''s'') @ '')'')
    = Some (''it'' @ [squote] @ ''s'', '')'')"
  by (rule QuoteLiteral_single_token) simp

end
