(* ===== verification/Base64.thy ===== *)
theory Base64
  imports Go_Prelude
begin

text \<open>
  The URL-safe base64 encoding without padding of Go's \<^verbatim>\<open>encoding/base64\<close>
  (\<^verbatim>\<open>RawURLEncoding\<close>), which the cache keys (\<^verbatim>\<open>internal/cache/keys.go\<close>) and the WFS lock keys
  (\<^verbatim>\<open>internal/wfs/lock_identity.go\<close>) use to put arbitrary bytes into a key. As in Go the
  decoder skips carriage returns and line feeds and ignores the unused low bits of the last
  character. The round trip makes the encoding injective, and its image has none of the
  separators the keys use.
\<close>

section \<open>Alphabet\<close>

definition b64_char :: "nat \<Rightarrow> char" where
  "b64_char v =
     (if v < 26 then char_of (65 + v)
      else if v < 52 then char_of (71 + v)
      else if v < 62 then char_of (v - 4)
      else if v = 62 then CHR ''-'' else CHR ''_'')"

definition b64_val :: "char \<Rightarrow> nat option" where
  "b64_val c =
     (let n = code_of c
      in if 65 \<le> n \<and> n \<le> 90 then Some (n - 65)
         else if 97 \<le> n \<and> n \<le> 122 then Some (n - 71)
         else if 48 \<le> n \<and> n \<le> 57 then Some (n + 4)
         else if n = 45 then Some 62
         else if n = 95 then Some 63
         else None)"

section \<open>Encoder and decoder\<close>

fun b64_digits :: "nat list \<Rightarrow> nat list" where
  "b64_digits [] = []"
| "b64_digits [a] = [a div 4, (a mod 4) * 16]"
| "b64_digits [a, b] = [a div 4, (a mod 4) * 16 + b div 16, (b mod 16) * 4]"
| "b64_digits (a # b # c # rest) =
     (a div 4) # ((a mod 4) * 16 + b div 16) # ((b mod 16) * 4 + c div 64) # (c mod 64) # b64_digits rest"

fun b64_bytes :: "nat list \<Rightarrow> nat list option" where
  "b64_bytes [] = Some []"
| "b64_bytes [p] = None"
| "b64_bytes [p, q] = Some [p * 4 + q div 16]"
| "b64_bytes [p, q, r] = Some [p * 4 + q div 16, (q mod 16) * 16 + r div 4]"
| "b64_bytes (p # q # r # s # rest) =
     map_option (\<lambda>bs. (p * 4 + q div 16) # ((q mod 16) * 16 + r div 4) # ((r mod 4) * 64 + s) # bs)
       (b64_bytes rest)"

fun all_some :: "'a option list \<Rightarrow> 'a list option" where
  "all_some [] = Some []"
| "all_some (None # xs) = None"
| "all_some (Some x # xs) = map_option (Cons x) (all_some xs)"

definition EncodeToString :: "string \<Rightarrow> string" where
  "EncodeToString s = map b64_char (b64_digits (map code_of s))"

definition DecodeString :: "string \<Rightarrow> string option" where
  "DecodeString s =
     (case all_some (map b64_val (filter (\<lambda>c. code_of c \<noteq> 10 \<and> code_of c \<noteq> 13) s)) of
        None \<Rightarrow> None
      | Some vs \<Rightarrow> map_option (map char_of) (b64_bytes vs))"

section \<open>Round trip\<close>

lemma code_of_less [simp]: "code_of c < 256"
  by (simp add: code_of_def)

lemma code_b64_char:
  "v < 64 \<Longrightarrow> code_of (b64_char v) =
     (if v < 26 then 65 + v else if v < 52 then 71 + v else if v < 62 then v - 4
      else if v = 62 then 45 else 95)"
  by (auto simp: b64_char_def code_of_char_of) (simp_all add: code_of_def)

lemma b64_val_char [simp]: "v < 64 \<Longrightarrow> b64_val (b64_char v) = Some v"
  by (auto simp: b64_val_def Let_def code_b64_char)

lemma b64_digits_bound: "\<forall>a \<in> set bs. a < 256 \<Longrightarrow> \<forall>v \<in> set (b64_digits bs). v < 64"
proof (induction bs rule: b64_digits.induct)
  case (4 a b c rest)
  then show ?case by (auto simp: less_mult_imp_div_less)
qed (auto simp: less_mult_imp_div_less)

lemma b64_bytes_digits: "\<forall>a \<in> set bs. a < 256 \<Longrightarrow> b64_bytes (b64_digits bs) = Some bs"
proof (induction bs rule: b64_digits.induct)
  case (4 a b c rest)
  then have "a < 256" "b < 256" "c < 256" "b64_bytes (b64_digits rest) = Some rest" by auto
  then show ?case by simp
qed auto

lemma all_some_map_Some: "\<forall>v \<in> set vs. f (g v) = Some v \<Longrightarrow> all_some (map f (map g vs)) = Some vs"
  by (induction vs) auto

lemma EncodeToString_alphabet:
  "c \<in> set (EncodeToString s) \<Longrightarrow> \<exists>v < 64. c = b64_char v"
  using b64_digits_bound [of "map code_of s"] by (auto simp: EncodeToString_def)

lemma EncodeToString_codes:
  assumes "c \<in> set (EncodeToString s)"
  shows "code_of c \<in> {45, 95} \<union> {48..57} \<union> {65..90} \<union> {97..122}"
proof -
  from EncodeToString_alphabet [OF assms] obtain v where "v < 64" "c = b64_char v" by blast
  then show ?thesis by (auto simp: code_b64_char)
qed

lemma DecodeString_EncodeToString [simp]: "DecodeString (EncodeToString s) = Some s"
proof -
  let ?ds = "b64_digits (map code_of s)"
  have bound: "\<forall>v \<in> set ?ds. v < 64" by (rule b64_digits_bound) auto
  have "filter (\<lambda>c. code_of c \<noteq> 10 \<and> code_of c \<noteq> 13) (EncodeToString s) = EncodeToString s"
    using EncodeToString_codes by (fastforce simp: filter_id_conv)
  moreover have "all_some (map b64_val (map b64_char ?ds)) = Some ?ds"
    using bound by (intro all_some_map_Some) auto
  moreover have "b64_bytes ?ds = Some (map code_of s)" by (rule b64_bytes_digits) auto
  ultimately show ?thesis by (simp add: DecodeString_def EncodeToString_def comp_def)
qed

lemma EncodeToString_inject [simp]: "EncodeToString s = EncodeToString t \<longleftrightarrow> s = t"
  by (metis DecodeString_EncodeToString option.inject)

lemma EncodeToString_no_char:
  "code_of c \<notin> {45, 95} \<union> {48..57} \<union> {65..90} \<union> {97..122} \<Longrightarrow> c \<notin> set (EncodeToString s)"
  using EncodeToString_codes by blast

end
