(* ===== verification/Utf8.thy ===== *)
theory Utf8
  imports Go_Prelude
begin

text \<open>
  What survives a trip through \<^verbatim>\<open>encoding/json\<close>: a Go string is a sequence of bytes, and the
  encoder replaces every byte that is not part of valid UTF-8; an \<^verbatim>\<open>int64\<close> has 64 bits. The
  laws the other theories ask of a JSON codec are stated for such values only.
\<close>

text \<open>\<^verbatim>\<open>unicode/utf8\<close>: the number of continuation bytes still missing, and the range of the next
  one, which excludes overlong forms, surrogates and values past U+10FFFF.\<close>

primrec utf8_from :: "string \<Rightarrow> nat \<Rightarrow> nat \<Rightarrow> nat \<Rightarrow> bool" where
  "utf8_from [] n lo hi = (n = 0)"
| "utf8_from (c # s) n lo hi =
     (let x = code_of c
      in if n > 0 then lo \<le> x \<and> x \<le> hi \<and> utf8_from s (n - 1) 128 191
         else if x < 128 then utf8_from s 0 128 191
         else if 194 \<le> x \<and> x \<le> 223 then utf8_from s 1 128 191
         else if x = 224 then utf8_from s 2 160 191
         else if x = 237 then utf8_from s 2 128 159
         else if 225 \<le> x \<and> x \<le> 239 then utf8_from s 2 128 191
         else if x = 240 then utf8_from s 3 144 191
         else if 241 \<le> x \<and> x \<le> 243 then utf8_from s 3 128 191
         else if x = 244 then utf8_from s 3 128 143
         else False)"

definition utf8_valid :: "string \<Rightarrow> bool" where
  "utf8_valid s = utf8_from s 0 128 191"

lemma utf8_from_append:
  "utf8_from s n lo hi \<Longrightarrow> utf8_from (s @ t) n lo hi \<longleftrightarrow> utf8_valid t"
proof (induction s arbitrary: n lo hi)
  case Nil
  then have [simp]: "n = 0" by simp
  show ?case unfolding utf8_valid_def by (cases t) (simp_all add: Let_def)
next
  case (Cons c s)
  then show ?case by (simp add: Let_def split: if_splits)
qed

lemma utf8_valid_append [simp]: "utf8_valid s \<Longrightarrow> utf8_valid (s @ t) \<longleftrightarrow> utf8_valid t"
  unfolding utf8_valid_def [of s] utf8_valid_def [of "s @ t"] by (rule utf8_from_append)

lemma utf8_valid_ascii: "\<forall>c \<in> set s. code_of c < 128 \<Longrightarrow> utf8_valid s"
  unfolding utf8_valid_def by (induction s) (simp_all add: Let_def)

definition int64_range :: "int \<Rightarrow> bool" where
  "int64_range i = (- (2 ^ 63) \<le> i \<and> i < 2 ^ 63)"

end
