(* ===== verification/Wfs_Locks.thy ===== *)
theory Wfs_Locks
  imports Base64 Identity Utf8
begin

text \<open>
  Package \<^verbatim>\<open>internal/wfs\<close>, the feature locks (\<^verbatim>\<open>locking.go\<close> up to the XML structures,
  \<^verbatim>\<open>lock_identity.go\<close>, \<^verbatim>\<open>ParseQName\<close> of \<^verbatim>\<open>models_helpers.go\<close>) and the catalog rows behind them
  (\<^verbatim>\<open>internal/store/store_wfs_locks.go\<close>).

  The store is a record; a method is a function from the store to the new store and its
  results. Each method runs under the store's mutex. The clock is read several times in a
  method; the model has one reading per loop, so an acquisition has three (sweep, check, grant).
  What the environment answers during an acquisition (the write gate, the clock, the random
  lock id, a database fault) is the record \<open>run\<close>. A map that the code ranges over is an
  association list, see \<^verbatim>\<open>Go_Prelude\<close>. A row keeps its times in columns of microseconds and the features in a JSON
  column; what that column gives back for a map is a parameter.
\<close>

section \<open>Lock keys\<close>

record lockIdentity =
  li_Source :: string
  li_Name :: string

text \<open>The library calls behind a lock key: the hexadecimal SHA-256 digest and the JSON codec of
  the \<^verbatim>\<open>lockIdentity\<close> struct; and \<open>kc_column\<close>, what the JSON column gives back for a map of features.\<close>

record key_codec =
  kc_digest :: "string \<Rightarrow> string"
  kc_marshal :: "lockIdentity \<Rightarrow> string"
  kc_unmarshal :: "string \<Rightarrow> lockIdentity option"
  kc_column :: "(string, string list) gomap \<Rightarrow> (string, string list) gomap"

definition lock_key_prefix :: string where
  "lock_key_prefix = ''@source-v1/''"

text \<open>\<^verbatim>\<open>provider\<close> is the data source's own name for the layer, where it has one.\<close>

definition sourceLockKey :: "key_codec \<Rightarrow> string \<Rightarrow> string \<Rightarrow> string option \<Rightarrow> string \<Rightarrow> string" where
  "sourceLockKey J serviceID sourceLayer provider name =
     (let source = (case provider of None \<Rightarrow> serviceID @ ''/'' @ sourceLayer | Some s \<Rightarrow> s)
      in lock_key_prefix @
         EncodeToString (kc_marshal J \<lparr>li_Source = kc_digest J source, li_Name = name\<rparr>))"

definition decodeLockKey :: "key_codec \<Rightarrow> string \<Rightarrow> lockIdentity option" where
  "decodeLockKey J key =
     (if \<not> has_prefix key lock_key_prefix then None
      else case DecodeString (drop (length lock_key_prefix) key) of
             None \<Rightarrow> None
           | Some raw \<Rightarrow>
               (case kc_unmarshal J raw of
                  None \<Rightarrow> None
                | Some identity \<Rightarrow> if li_Source identity = [] then None else Some identity))"

text \<open>\<^verbatim>\<open>ParseQName(name).LocalPart\<close>: what follows the first colon.\<close>

definition local_part :: "string \<Rightarrow> string" where
  "local_part name =
     (if CHR '':'' \<in> set name then tl (dropWhile (\<lambda>c. c \<noteq> CHR '':'') name) else name)"

definition lockDisplayName :: "key_codec \<Rightarrow> string \<Rightarrow> string" where
  "lockDisplayName J key =
     local_part (case decodeLockKey J key of None \<Rightarrow> key | Some identity \<Rightarrow> li_Name identity)"

definition sameLockTypeName :: "key_codec \<Rightarrow> string \<Rightarrow> string \<Rightarrow> bool" where
  "sameLockTypeName J a b =
     (case (decodeLockKey J a, decodeLockKey J b) of
        (Some l, Some r) \<Rightarrow> li_Source l = li_Source r
      | (None, None) \<Rightarrow> local_part a = local_part b
      | _ \<Rightarrow> True)"

section \<open>State\<close>

record FeatureLock =
  fl_LockID :: string
  fl_WorkspaceID :: string
  fl_FeatureIDs :: "(string, string list) gomap"
  fl_ExpiresAt :: instant
  fl_OwnerID :: string
  fl_CreatedAt :: instant

record WFSLockRecord =
  lr_LockID :: string
  lr_WorkspaceID :: string
  lr_OwnerID :: string
  lr_FeatureIDs :: "(string, string list) gomap"
  lr_CreatedAt :: instant
  lr_ExpiresAt :: instant

type_synonym lock_rows = "(string, WFSLockRecord) gomap"

text \<open>\<open>ls_persist\<close> is the table behind the optional write-through; \<open>None\<close> is a store in memory only.\<close>

record LockStore =
  ls_locks :: "(string, FeatureLock) gomap"
  ls_expired :: "(string, instant) gomap"
  ls_maxExpirySec :: int
  ls_maxPerWorkspace :: int
  ls_maxPerPrincipal :: int
  ls_maxFeatures :: int
  ls_persist :: "lock_rows option"

record RequestError =
  re_Code :: string
  re_Locator :: string
  re_Message :: string

record run =
  rn_gate :: "string option"
  rn_sweep :: instant
  rn_check :: instant
  rn_grant :: instant
  rn_uuid :: string
  rn_fault :: "string option"

definition LockActionAll :: string where "LockActionAll = ''ALL''"
definition LockActionSome :: string where "LockActionSome = ''SOME''"
definition DefaultLockExpiry :: int where "DefaultLockExpiry = 300"
definition expiredRetention :: duration where "expiredRetention = hour"

section \<open>Catalog rows\<close>

text \<open>A \<^verbatim>\<open>TIMESTAMP\<close>, in a column or as an argument of a query, has microseconds.\<close>

definition timestamp :: "instant \<Rightarrow> instant" where
  "timestamp t = t - t mod 1000"

definition stored_record :: "key_codec \<Rightarrow> WFSLockRecord \<Rightarrow> WFSLockRecord" where
  "stored_record J rec =
     rec\<lparr>lr_FeatureIDs := kc_column J (lr_FeatureIDs rec), lr_CreatedAt := timestamp (lr_CreatedAt rec),
         lr_ExpiresAt := timestamp (lr_ExpiresAt rec)\<rparr>"

definition PutWFSLock :: "key_codec \<Rightarrow> string option \<Rightarrow> WFSLockRecord \<Rightarrow> lock_rows \<Rightarrow> string + lock_rows" where
  "PutWFSLock J fault rec rows =
     (case fault of
        Some e \<Rightarrow> Inl (''put WFS lock: '' @ e)
      | None \<Rightarrow> Inr (AList.update (lr_LockID rec) (stored_record J rec) rows))"

definition DeleteWFSLock :: "string option \<Rightarrow> string \<Rightarrow> lock_rows \<Rightarrow> string + lock_rows" where
  "DeleteWFSLock fault lockID rows =
     (case fault of
        Some e \<Rightarrow> Inl (''delete WFS lock: '' @ e)
      | None \<Rightarrow> Inr (AList.delete lockID rows))"

definition DeleteExpiredWFSLocks :: "string option \<Rightarrow> instant \<Rightarrow> lock_rows \<Rightarrow> string + lock_rows" where
  "DeleteExpiredWFSLocks fault now rows =
     (case fault of
        Some e \<Rightarrow> Inl (''delete expired WFS locks: '' @ e)
      | None \<Rightarrow> Inr (filter (\<lambda>(_, rec). \<not> lr_ExpiresAt rec \<le> timestamp now) rows))"

definition DeleteWorkspaceWFSLocks :: "string option \<Rightarrow> string \<Rightarrow> lock_rows \<Rightarrow> string + lock_rows" where
  "DeleteWorkspaceWFSLocks fault workspaceID rows =
     (case fault of
        Some e \<Rightarrow> Inl (''delete workspace WFS locks: '' @ e)
      | None \<Rightarrow> Inr (filter (\<lambda>(_, rec). lr_WorkspaceID rec \<noteq> workspaceID) rows))"

definition ListWFSLocks :: "string option \<Rightarrow> instant \<Rightarrow> lock_rows \<Rightarrow> string + WFSLockRecord list" where
  "ListWFSLocks fault now rows =
     (case fault of
        Some e \<Rightarrow> Inl (''list WFS locks: '' @ e)
      | None \<Rightarrow> Inr (map snd (filter (\<lambda>(_, rec). lr_ExpiresAt rec > timestamp now) rows)))"

section \<open>Operations of the lock store\<close>

definition IsExpired :: "FeatureLock \<Rightarrow> instant \<Rightarrow> bool" where
  "IsExpired l now = (now > fl_ExpiresAt l)"

definition or_default :: "int \<Rightarrow> int \<Rightarrow> int" where
  "or_default v d = (if v \<le> 0 then d else v)"

definition NewLockStore :: "int \<Rightarrow> int \<Rightarrow> int \<Rightarrow> int \<Rightarrow> LockStore" where
  "NewLockStore maxExpiry maxWorkspace maxPrincipal maxFeatures =
     \<lparr>ls_locks = [], ls_expired = [], ls_maxExpirySec = or_default maxExpiry 3600,
      ls_maxPerWorkspace = or_default maxWorkspace 1000, ls_maxPerPrincipal = or_default maxPrincipal 100,
      ls_maxFeatures = or_default maxFeatures 10000, ls_persist = None\<rparr>"

definition setPersistence :: "LockStore \<Rightarrow> lock_rows \<Rightarrow> LockStore" where
  "setPersistence ls rows = ls\<lparr>ls_persist := Some rows\<rparr>"

definition lock_of_record :: "WFSLockRecord \<Rightarrow> FeatureLock" where
  "lock_of_record rec =
     \<lparr>fl_LockID = lr_LockID rec, fl_WorkspaceID = lr_WorkspaceID rec, fl_FeatureIDs = lr_FeatureIDs rec,
      fl_ExpiresAt = lr_ExpiresAt rec, fl_OwnerID = lr_OwnerID rec, fl_CreatedAt = lr_CreatedAt rec\<rparr>"

definition record_of_lock :: "FeatureLock \<Rightarrow> WFSLockRecord" where
  "record_of_lock l =
     \<lparr>lr_LockID = fl_LockID l, lr_WorkspaceID = fl_WorkspaceID l, lr_OwnerID = fl_OwnerID l,
      lr_FeatureIDs = fl_FeatureIDs l, lr_CreatedAt = fl_CreatedAt l, lr_ExpiresAt = fl_ExpiresAt l\<rparr>"

primrec restore_loop :: "instant \<Rightarrow> WFSLockRecord list \<Rightarrow> (string, FeatureLock) gomap \<Rightarrow> (string, FeatureLock) gomap" where
  "restore_loop now [] locks = locks"
| "restore_loop now (rec # recs) locks =
     restore_loop now recs
       (if \<not> lr_ExpiresAt rec > now then locks
        else AList.update (lr_LockID rec) (lock_of_record rec) locks)"

definition restore :: "instant \<Rightarrow> WFSLockRecord list \<Rightarrow> LockStore \<Rightarrow> LockStore" where
  "restore now records ls = ls\<lparr>ls_locks := restore_loop now records (ls_locks ls)\<rparr>"

primrec remember_expired :: "instant \<Rightarrow> (string \<times> FeatureLock) list \<Rightarrow> (string, instant) gomap \<Rightarrow> (string, instant) gomap" where
  "remember_expired now [] m = m"
| "remember_expired now (kl # kls) m = remember_expired now kls (AList.update (fst kl) now m)"

definition cleanExpiredLocked :: "instant \<Rightarrow> LockStore \<Rightarrow> LockStore" where
  "cleanExpiredLocked now ls =
     (let gone = filter (\<lambda>(_, l). IsExpired l now) (ls_locks ls);
          locks = filter (\<lambda>(_, l). \<not> IsExpired l now) (ls_locks ls);
          expired = remember_expired now gone (ls_expired ls)
      in ls\<lparr>ls_locks := locks,
            ls_expired := filter (\<lambda>(_, at). \<not> now - at > expiredRetention) expired\<rparr>)"

definition hasExpired :: "LockStore \<Rightarrow> string \<Rightarrow> bool" where
  "hasExpired ls lockID = (map_of (ls_expired ls) lockID \<noteq> None)"

definition covers :: "key_codec \<Rightarrow> FeatureLock \<Rightarrow> string \<Rightarrow> string \<Rightarrow> bool" where
  "covers J l typeName featureID =
     list_ex (\<lambda>(lockedTypeName, fids). sameLockTypeName J lockedTypeName typeName \<and> featureID \<in> set fids)
       (fl_FeatureIDs l)"

definition IsFeatureLocked :: "key_codec \<Rightarrow> instant \<Rightarrow> LockStore \<Rightarrow> string \<Rightarrow> string \<Rightarrow> string \<Rightarrow> bool" where
  "IsFeatureLocked J now ls workspaceID typeName featureID =
     list_ex (\<lambda>(_, l). \<not> IsExpired l now \<and> fl_WorkspaceID l = workspaceID \<and> covers J l typeName featureID)
       (ls_locks ls)"

definition display_id :: "key_codec \<Rightarrow> string \<Rightarrow> string \<Rightarrow> string" where
  "display_id J typeName fid = lockDisplayName J typeName @ ''.'' @ fid"

definition already_locked ::
    "key_codec \<Rightarrow> instant \<Rightarrow> LockStore \<Rightarrow> string \<Rightarrow> (string, string list) gomap \<Rightarrow> string list" where
  "already_locked J now ls workspaceID features =
     concat (map (\<lambda>(typeName, fids).
       map (display_id J typeName) (filter (IsFeatureLocked J now ls workspaceID typeName) fids)) features)"

definition remove_locked ::
    "key_codec \<Rightarrow> string list \<Rightarrow> (string, string list) gomap \<Rightarrow> (string, string list) gomap" where
  "remove_locked J alreadyLocked features =
     map (\<lambda>(typeName, fids). (typeName, filter (\<lambda>fid. display_id J typeName fid \<notin> set alreadyLocked) fids))
       features"

definition lock_expiry :: "LockStore \<Rightarrow> int \<Rightarrow> int" where
  "lock_expiry ls expirySeconds =
     (let e = (if expirySeconds \<le> 0 then DefaultLockExpiry else expirySeconds)
      in if e > ls_maxExpirySec ls then ls_maxExpirySec ls else e)"

definition workspace_locks :: "LockStore \<Rightarrow> string \<Rightarrow> int" where
  "workspace_locks ls workspaceID =
     int (length (filter (\<lambda>(_, l). fl_WorkspaceID l = workspaceID) (ls_locks ls)))"

definition principal_locks :: "LockStore \<Rightarrow> string \<Rightarrow> string \<Rightarrow> int" where
  "principal_locks ls workspaceID ownerID =
     int (length (filter (\<lambda>(_, l). fl_WorkspaceID l = workspaceID \<and> fl_OwnerID l = ownerID) (ls_locks ls)))"

definition total_features :: "(string, string list) gomap \<Rightarrow> int" where
  "total_features features = int (sum_list (map (\<lambda>(_, fids). length fids) features))"

definition new_lock ::
    "run \<Rightarrow> LockStore \<Rightarrow> string \<Rightarrow> (string, string list) gomap \<Rightarrow> int \<Rightarrow> string \<Rightarrow> FeatureLock" where
  "new_lock R ls workspaceID features expirySeconds ownerID =
     \<lparr>fl_LockID = rn_uuid R, fl_WorkspaceID = workspaceID, fl_FeatureIDs = features,
      fl_ExpiresAt = rn_grant R + lock_expiry ls expirySeconds * second, fl_OwnerID = ownerID,
      fl_CreatedAt = rn_grant R\<rparr>"

text \<open>The end of an acquisition: the lock enters the map and is written through; a failed write
  takes it out again.\<close>

definition grant_lock ::
    "key_codec \<Rightarrow> run \<Rightarrow> LockStore \<Rightarrow> FeatureLock \<Rightarrow> string list \<Rightarrow> LockStore \<times> FeatureLock option \<times> string list \<times> string option" where
  "grant_lock J R ls l alreadyLocked =
     (let granted = ls\<lparr>ls_locks := AList.update (fl_LockID l) l (ls_locks ls)\<rparr>
      in case ls_persist ls of
           None \<Rightarrow> (granted, Some l, alreadyLocked, None)
         | Some rows \<Rightarrow>
             (case PutWFSLock J (rn_fault R) (record_of_lock l) rows of
                Inl err \<Rightarrow>
                  (granted\<lparr>ls_locks := AList.delete (fl_LockID l) (ls_locks granted)\<rparr>, None, [],
                   Some (''persist lock: '' @ err))
              | Inr rows' \<Rightarrow> (granted\<lparr>ls_persist := Some rows'\<rparr>, Some l, alreadyLocked, None)))"

definition AcquireLockOwnedContext ::
    "key_codec \<Rightarrow> run \<Rightarrow> LockStore \<Rightarrow> string \<Rightarrow> (string, string list) gomap \<Rightarrow> int \<Rightarrow> string \<Rightarrow> string \<Rightarrow>
     LockStore \<times> FeatureLock option \<times> string list \<times> string option" where
  "AcquireLockOwnedContext J R ls workspaceID features expirySeconds lockAction ownerID =
     (case rn_gate R of
        Some err \<Rightarrow> (ls, None, [], Some err)
      | None \<Rightarrow>
          let ls = cleanExpiredLocked (rn_sweep R) ls
          in if total_features features > ls_maxFeatures ls
             then (ls, None, [], Some ''lock feature quota exceeded'')
             else if workspace_locks ls workspaceID \<ge> ls_maxPerWorkspace ls
             then (ls, None, [], Some ''workspace lock quota exceeded'')
             else if principal_locks ls workspaceID ownerID \<ge> ls_maxPerPrincipal ls
             then (ls, None, [], Some ''principal lock quota exceeded'')
             else let alreadyLocked = already_locked J (rn_check R) ls workspaceID features
                  in if lockAction = LockActionAll \<and> alreadyLocked \<noteq> []
                     then (ls, None, alreadyLocked,
                           Some (''cannot lock all features: '' @ show_nat (length alreadyLocked) @
                                 '' feature(s) already locked''))
                     else let features = (if alreadyLocked \<noteq> [] then remove_locked J alreadyLocked features
                                          else features)
                          in grant_lock J R ls (new_lock R ls workspaceID features expirySeconds ownerID)
                               alreadyLocked)"

definition AcquireLockOwned where
  "AcquireLockOwned J R = AcquireLockOwnedContext J (R\<lparr>rn_gate := None\<rparr>)"

definition AcquireLock where
  "AcquireLock J R ls workspaceID features expirySeconds lockAction =
     AcquireLockOwned J R ls workspaceID features expirySeconds lockAction []"

definition deletePersistedLock :: "string option \<Rightarrow> LockStore \<Rightarrow> string \<Rightarrow> LockStore" where
  "deletePersistedLock fault ls lockID =
     (case ls_persist ls of
        None \<Rightarrow> ls
      | Some rows \<Rightarrow>
          (case DeleteWFSLock fault lockID rows of
             Inl _ \<Rightarrow> ls
           | Inr rows' \<Rightarrow> ls\<lparr>ls_persist := Some rows'\<rparr>))"

definition ReleaseLockOwned :: "string option \<Rightarrow> LockStore \<Rightarrow> string \<Rightarrow> string \<Rightarrow> LockStore \<times> string option" where
  "ReleaseLockOwned fault ls lockID ownerID =
     (case map_of (ls_locks ls) lockID of
        None \<Rightarrow> (ls, Some (''lock not found: '' @ lockID))
      | Some l \<Rightarrow>
          if fl_OwnerID l \<noteq> [] \<and> fl_OwnerID l \<noteq> ownerID
          then (ls, Some ''lock is owned by another principal'')
          else (deletePersistedLock fault (ls\<lparr>ls_locks := AList.delete lockID (ls_locks ls)\<rparr>) lockID, None))"

definition ReleaseLock :: "string option \<Rightarrow> LockStore \<Rightarrow> string \<Rightarrow> LockStore \<times> string option" where
  "ReleaseLock fault ls lockID =
     (case map_of (ls_locks ls) lockID of
        None \<Rightarrow> (ls, Some (''lock not found: '' @ lockID))
      | Some _ \<Rightarrow>
          (deletePersistedLock fault (ls\<lparr>ls_locks := AList.delete lockID (ls_locks ls)\<rparr>) lockID, None))"

definition request_error :: "string \<Rightarrow> string \<Rightarrow> RequestError" where
  "request_error code msg = \<lparr>re_Code = code, re_Locator = ''lockId'', re_Message = msg\<rparr>"

definition ValidateLockOwner :: "instant \<Rightarrow> LockStore \<Rightarrow> string \<Rightarrow> string \<Rightarrow> string \<Rightarrow> RequestError option" where
  "ValidateLockOwner now ls lockID workspaceID ownerID =
     (let invalid = Some (request_error ''InvalidParameterValue'' ''lock is invalid or expired'')
      in case map_of (ls_locks ls) lockID of
           None \<Rightarrow> invalid
         | Some l \<Rightarrow>
             if IsExpired l now \<or> fl_WorkspaceID l \<noteq> workspaceID then invalid
             else if fl_OwnerID l \<noteq> [] \<and> fl_OwnerID l \<noteq> ownerID
             then Some (request_error ''AuthorizationFailed'' ''lock is owned by another principal'')
             else None)"

fun lockOwner :: "Identity option \<Rightarrow> string" where
  "lockOwner None = []"
| "lockOwner (Some i) =
     (if id_APIKeyID i \<noteq> [] then ''apikey:'' @ id_APIKeyID i
      else auth_method_string (id_AuthMethod i) @ '':'' @ id_Subject i)"

definition ValidateLock ::
    "instant \<Rightarrow> LockStore \<Rightarrow> string \<Rightarrow> string \<Rightarrow> string \<Rightarrow> string \<Rightarrow> RequestError option" where
  "ValidateLock now ls lockID workspaceID typeName featureID =
     (case map_of (ls_locks ls) lockID of
        None \<Rightarrow>
          if hasExpired ls lockID then Some (request_error ''LockHasExpired'' (''Lock has expired: '' @ lockID))
          else Some (request_error ''InvalidParameterValue'' (''Lock not found: '' @ lockID))
      | Some l \<Rightarrow>
          if IsExpired l now then Some (request_error ''LockHasExpired'' (''Lock has expired: '' @ lockID))
          else if fl_WorkspaceID l \<noteq> workspaceID
          then Some (request_error ''InvalidParameterValue'' (''Lock belongs to different workspace: '' @ lockID))
          else (case map_of (fl_FeatureIDs l) typeName of
                  Some fids \<Rightarrow>
                    if featureID \<in> set fids then None
                    else Some (request_error ''MissingParameterValue''
                      (''Feature '' @ typeName @ ''.'' @ featureID @ '' is not covered by lock '' @ lockID))
                | None \<Rightarrow> Some (request_error ''MissingParameterValue''
                      (''Feature '' @ typeName @ ''.'' @ featureID @ '' is not covered by lock '' @ lockID))))"

definition Expired :: "LockStore \<Rightarrow> string \<Rightarrow> bool" where
  "Expired ls lockID = hasExpired ls lockID"

definition GetLock :: "LockStore \<Rightarrow> string \<Rightarrow> FeatureLock option" where
  "GetLock ls lockID = map_of (ls_locks ls) lockID"

text \<open>The inner loops of \<^verbatim>\<open>CheckFeatureLocks\<close>: the \<^verbatim>\<open>break\<close> leaves the loop over one type's
  features only, so a later type of the same lock overwrites the feature found.\<close>

primrec held_feature ::
    "key_codec \<Rightarrow> string \<Rightarrow> string list \<Rightarrow> (string \<times> string list) list \<Rightarrow> string option \<Rightarrow> string option" where
  "held_feature J typeName affected [] found = found"
| "held_feature J typeName affected (tf # tfs) found =
     held_feature J typeName affected tfs
       (if \<not> sameLockTypeName J (fst tf) typeName then found
        else case List.find (\<lambda>fid. fid \<in> set affected) (snd tf) of None \<Rightarrow> found | Some fid \<Rightarrow> Some fid)"

primrec holding_lock ::
    "key_codec \<Rightarrow> instant \<Rightarrow> string \<Rightarrow> string \<Rightarrow> string list \<Rightarrow> string \<Rightarrow> (string \<times> FeatureLock) list \<Rightarrow>
     (FeatureLock \<times> string) option" where
  "holding_lock J now workspaceID typeName affected providedLockId [] = None"
| "holding_lock J now workspaceID typeName affected providedLockId (kl # kls) =
     (let l = snd kl; continue = holding_lock J now workspaceID typeName affected providedLockId kls
      in if IsExpired l now \<or> fl_WorkspaceID l \<noteq> workspaceID \<or> fl_LockID l = providedLockId then continue
         else case held_feature J typeName affected (fl_FeatureIDs l) None of
                None \<Rightarrow> continue
              | Some fid \<Rightarrow> Some (l, fid))"

definition CheckFeatureLocks ::
    "key_codec \<Rightarrow> instant \<Rightarrow> LockStore \<Rightarrow> string \<Rightarrow> string \<Rightarrow> string list \<Rightarrow> string \<Rightarrow> RequestError option" where
  "CheckFeatureLocks J now ls workspaceID typeName featureIDs providedLockId =
     (case holding_lock J now workspaceID typeName featureIDs providedLockId (ls_locks ls) of
        None \<Rightarrow> None
      | Some (l, fid) \<Rightarrow>
          if providedLockId = []
          then Some (request_error ''MissingParameterValue''
            (''Feature '' @ typeName @ ''.'' @ fid @
             '' is locked. A lockId must be provided to modify locked features.''))
          else if providedLockId \<noteq> fl_LockID l
          then Some (request_error ''InvalidParameterValue''
            (''Feature '' @ typeName @ ''.'' @ fid @
             '' is locked by a different lock. Provided lockId does not match.''))
          else None)"

definition CheckFeatureLock where
  "CheckFeatureLock J now ls workspaceID typeName featureID providedLockId =
     CheckFeatureLocks J now ls workspaceID typeName [featureID] providedLockId"

definition lockedFeatureIDs :: "key_codec \<Rightarrow> (string, string list) gomap \<Rightarrow> string \<Rightarrow> string list" where
  "lockedFeatureIDs J features typeName =
     concat (map snd (filter (\<lambda>(lockedTypeName, _). sameLockTypeName J lockedTypeName typeName) features))"

definition CleanExpired :: "instant \<Rightarrow> LockStore \<Rightarrow> LockStore" where
  "CleanExpired now ls = cleanExpiredLocked now ls"

definition LockStore_ClearWorkspace :: "LockStore \<Rightarrow> string \<Rightarrow> LockStore" where
  "LockStore_ClearWorkspace ls workspaceID =
     ls\<lparr>ls_locks := filter (\<lambda>(_, l). fl_WorkspaceID l \<noteq> workspaceID) (ls_locks ls)\<rparr>"

section \<open>The lock part of the runtime state\<close>

text \<open>\<^verbatim>\<open>runtime.go\<close>: the start of the process, the periodic clean-up and the removal of a workspace.
  A failed database call is logged and changes nothing. The versions are not part of this model.\<close>

definition with_rows :: "LockStore \<Rightarrow> (lock_rows \<Rightarrow> string + lock_rows) \<Rightarrow> LockStore" where
  "with_rows ls f =
     (case ls_persist ls of
        None \<Rightarrow> ls
      | Some rows \<Rightarrow> (case f rows of Inl _ \<Rightarrow> ls | Inr rows' \<Rightarrow> ls\<lparr>ls_persist := Some rows'\<rparr>))"

definition loadPersisted :: "string option \<Rightarrow> instant \<Rightarrow> instant \<Rightarrow> LockStore \<Rightarrow> LockStore" where
  "loadPersisted fault listed restored ls =
     (case ls_persist ls of
        None \<Rightarrow> ls
      | Some rows \<Rightarrow>
          (case ListWFSLocks fault listed rows of
             Inl _ \<Rightarrow> ls
           | Inr records \<Rightarrow> restore restored records ls))"

definition NewRuntimeState ::
    "int \<Rightarrow> int \<Rightarrow> int \<Rightarrow> int \<Rightarrow> lock_rows option \<Rightarrow> string option \<Rightarrow> instant \<Rightarrow> instant \<Rightarrow> LockStore" where
  "NewRuntimeState maxExpiry maxWorkspace maxPrincipal maxFeatures persistence fault listed restored =
     (let ls = NewLockStore maxExpiry maxWorkspace maxPrincipal maxFeatures
      in case persistence of
           None \<Rightarrow> ls
         | Some rows \<Rightarrow> loadPersisted fault listed restored (setPersistence ls rows))"

definition runtime_tick :: "string option \<Rightarrow> instant \<Rightarrow> instant \<Rightarrow> LockStore \<Rightarrow> LockStore" where
  "runtime_tick fault swept pruned ls = with_rows (CleanExpired swept ls) (DeleteExpiredWFSLocks fault pruned)"

definition RuntimeState_ClearWorkspace :: "string option \<Rightarrow> LockStore \<Rightarrow> string \<Rightarrow> LockStore" where
  "RuntimeState_ClearWorkspace fault ls workspaceID =
     with_rows (LockStore_ClearWorkspace ls workspaceID) (DeleteWorkspaceWFSLocks fault workspaceID)"

end
