(* ===== verification/Wfs_Lock_Invariants.thy ===== *)
theory Wfs_Lock_Invariants
  imports Wfs_Locks
begin

text \<open>
  The lock store of \<^verbatim>\<open>Wfs_Locks\<close> as a state machine: its methods as labelled operations in the
  order the mutex gives them, the states reachable by them, the invariants of these states
  (exclusive locks, rows in step with the locks, quotas) and the interface \<open>feature_guard\<close> that
  the writers rely on, interpreted on the store.
\<close>

section \<open>Operations as labels\<close>

datatype lock_op =
  Acquire run string "(string, string list) gomap" int string string
| Release_Owned "string option" string string
| Release "string option" string
| Tick "string option" instant instant
| Clear_Workspace "string option" string
| Restart "string option" instant instant

text \<open>The limits of the configuration: expiry, per workspace, per principal, features.\<close>

type_synonym limits = "int \<times> int \<times> int \<times> int"

fun lock_exec :: "key_codec \<Rightarrow> limits \<Rightarrow> lock_op \<Rightarrow> LockStore \<Rightarrow> LockStore" where
  "lock_exec J lim (Acquire R ws features expiry action owner) ls =
     fst (AcquireLockOwnedContext J R ls ws features expiry action owner)"
| "lock_exec J lim (Release_Owned fault lockID owner) ls = fst (ReleaseLockOwned fault ls lockID owner)"
| "lock_exec J lim (Release fault lockID) ls = fst (ReleaseLock fault ls lockID)"
| "lock_exec J lim (Tick fault swept pruned) ls = runtime_tick fault swept pruned ls"
| "lock_exec J lim (Clear_Workspace fault ws) ls = RuntimeState_ClearWorkspace fault ls ws"
| "lock_exec J lim (Restart fault listed restored) ls =
     (case lim of (a, b, c, d) \<Rightarrow> NewRuntimeState a b c d (ls_persist ls) fault listed restored)"

text \<open>The clock after an operation that starts at \<open>t\<close>.\<close>

fun lock_finish :: "lock_op \<Rightarrow> instant \<Rightarrow> instant" where
  "lock_finish (Acquire R ws features expiry action owner) t = rn_grant R"
| "lock_finish (Tick fault swept pruned) t = pruned"
| "lock_finish (Restart fault listed restored) t = restored"
| "lock_finish _ t = t"

text \<open>The features of a request form a Go map of valid UTF-8 strings; the column gives back such a map, in some
  order of its keys.\<close>

definition features_ok :: "(string, string list) gomap \<Rightarrow> bool" where
  "features_ok m = (distinct (map fst m) \<and> list_all (\<lambda>(ty, fids). utf8_valid ty \<and> list_all utf8_valid fids) m)"

definition column_faithful :: "key_codec \<Rightarrow> bool" where
  "column_faithful J = (\<forall>m. features_ok m \<longrightarrow> set (kc_column J m) = set m)"

text \<open>A stale row is the unexpired row of a lock the store does not hold.\<close>

definition no_stale_rows :: "instant \<Rightarrow> LockStore \<Rightarrow> bool" where
  "no_stale_rows t ls =
     (case ls_persist ls of
        None \<Rightarrow> True
      | Some rows \<Rightarrow> list_all (\<lambda>(i, r). lr_ExpiresAt r > t \<longrightarrow> i \<in> fst ` set (ls_locks ls)) rows)"

text \<open>What the environment guarantees: the clock does not run backwards and a random lock id is
  new. A process that starts with readable rows finds no stale ones: the lock of a stale row would come back.\<close>

fun lock_permitted :: "instant \<Rightarrow> lock_op \<Rightarrow> LockStore \<Rightarrow> bool" where
  "lock_permitted t (Acquire R ws features expiry action owner) ls =
     (t \<le> rn_sweep R \<and> rn_sweep R \<le> rn_check R \<and> rn_check R \<le> rn_grant R \<and> features_ok features \<and>
      rn_uuid R \<notin> fst ` set (ls_locks ls) \<and>
      (case ls_persist ls of None \<Rightarrow> True | Some rows \<Rightarrow> rn_uuid R \<notin> fst ` set rows))"
| "lock_permitted t (Tick fault swept pruned) ls = (t \<le> swept \<and> swept \<le> pruned)"
| "lock_permitted t (Restart fault listed restored) ls =
     (t \<le> listed \<and> listed \<le> restored \<and> (fault = None \<longrightarrow> no_stale_rows restored ls))"
| "lock_permitted t _ ls = True"

text \<open>Stale rows come from a row that could not be deleted, and from a start that could not read the rows.\<close>

fun leaves_no_rows :: "lock_op \<Rightarrow> bool" where
  "leaves_no_rows (Release_Owned fault lockID owner) = (fault = None)"
| "leaves_no_rows (Release fault lockID) = (fault = None)"
| "leaves_no_rows (Clear_Workspace fault ws) = (fault = None)"
| "leaves_no_rows (Restart fault listed restored) = (fault = None)"
| "leaves_no_rows _ = True"

text \<open>The reachable states; \<open>clean\<close> records that no operation so far left rows behind.\<close>

inductive lock_reachable :: "key_codec \<Rightarrow> limits \<Rightarrow> bool \<Rightarrow> instant \<Rightarrow> LockStore \<Rightarrow> bool"
  for J :: key_codec and lim :: limits where
  start: "persistence \<in> {None, Some []} \<Longrightarrow> lim = (a, b, c, d) \<Longrightarrow>
     lock_reachable J lim True t (NewRuntimeState a b c d persistence None t t)"
| op: "lock_reachable J lim clean t ls \<Longrightarrow> lock_permitted t op ls \<Longrightarrow>
     lock_reachable J lim (clean \<and> leaves_no_rows op) (lock_finish op t) (lock_exec J lim op ls)"

section \<open>Invariants\<close>

definition conflict :: "key_codec \<Rightarrow> FeatureLock \<Rightarrow> FeatureLock \<Rightarrow> bool" where
  "conflict J l1 l2 = list_ex (\<lambda>(ty, fids). list_ex (covers J l1 ty) fids) (fl_FeatureIDs l2)"

definition exclusive :: "key_codec \<Rightarrow> instant \<Rightarrow> LockStore \<Rightarrow> bool" where
  "exclusive J t ls =
     (\<forall>id1 l1 id2 l2. map_of (ls_locks ls) id1 = Some l1 \<and> map_of (ls_locks ls) id2 = Some l2 \<and>
        id1 \<noteq> id2 \<and> \<not> IsExpired l1 t \<and> \<not> IsExpired l2 t \<and> fl_WorkspaceID l1 = fl_WorkspaceID l2 \<longrightarrow>
        \<not> conflict J l1 l2)"

text \<open>Keys are unique and a lock carries its own key.\<close>

definition keyed :: "LockStore \<Rightarrow> bool" where
  "keyed ls =
     (distinct (map fst (ls_locks ls)) \<and>
      (\<forall>i l. map_of (ls_locks ls) i = Some l \<longrightarrow> fl_LockID l = i) \<and>
      (\<forall>rows. ls_persist ls = Some rows \<longrightarrow>
         distinct (map fst rows) \<and> (\<forall>i r. map_of rows i = Some r \<longrightarrow> lr_LockID r = i)))"

text \<open>A row is in step with a lock up to the precision of the columns and the order of the features.\<close>

definition row_matches :: "WFSLockRecord \<Rightarrow> FeatureLock \<Rightarrow> bool" where
  "row_matches r l =
     (lr_LockID r = fl_LockID l \<and> lr_WorkspaceID r = fl_WorkspaceID l \<and> lr_OwnerID r = fl_OwnerID l \<and>
      set (lr_FeatureIDs r) = set (fl_FeatureIDs l) \<and> lr_CreatedAt r = timestamp (fl_CreatedAt l) \<and>
      lr_ExpiresAt r = timestamp (fl_ExpiresAt l))"

definition matched :: "LockStore \<Rightarrow> bool" where
  "matched ls =
     (\<forall>rows i l r. ls_persist ls = Some rows \<and> map_of (ls_locks ls) i = Some l \<and> map_of rows i = Some r \<longrightarrow> row_matches r l)"

definition persisted :: "instant \<Rightarrow> LockStore \<Rightarrow> bool" where
  "persisted t ls =
     (\<forall>rows i l. ls_persist ls = Some rows \<and> map_of (ls_locks ls) i = Some l \<and> timestamp (fl_ExpiresAt l) > t \<longrightarrow>
        map_of rows i \<noteq> None)"

definition mirrored :: "instant \<Rightarrow> LockStore \<Rightarrow> bool" where
  "mirrored t ls =
     (\<forall>rows i r. ls_persist ls = Some rows \<and> map_of rows i = Some r \<and> lr_ExpiresAt r > t \<longrightarrow> map_of (ls_locks ls) i \<noteq> None)"

definition within_quota :: "LockStore \<Rightarrow> bool" where
  "within_quota ls =
     ((\<forall>ws. workspace_locks ls ws \<le> ls_maxPerWorkspace ls) \<and>
      (\<forall>ws owner. principal_locks ls ws owner \<le> ls_maxPerPrincipal ls))"

definition has_limits :: "limits \<Rightarrow> LockStore \<Rightarrow> bool" where
  "has_limits lim ls =
     (case lim of (a, b, c, d) \<Rightarrow> ls_maxExpirySec ls = or_default a 3600 \<and> ls_maxPerWorkspace ls = or_default b 1000 \<and>
        ls_maxPerPrincipal ls = or_default c 100 \<and> ls_maxFeatures ls = or_default d 10000)"

section \<open>Lemmas\<close>

declare map_of_eq_Some_iff [simp del]

lemma sameLockTypeName_sym: "sameLockTypeName J a b = sameLockTypeName J b a"
  by (auto simp: sameLockTypeName_def split: option.splits)

lemma sameLockTypeName_refl [simp]: "sameLockTypeName J a a"
  by (auto simp: sameLockTypeName_def split: option.splits)

lemma covers_iff:
  "covers J l ty fid \<longleftrightarrow> (\<exists>ty' fids. (ty', fids) \<in> set (fl_FeatureIDs l) \<and> sameLockTypeName J ty' ty \<and> fid \<in> set fids)"
  by (auto simp: covers_def list_ex_iff)

lemma conflict_iff:
  "conflict J l1 l2 \<longleftrightarrow>
     (\<exists>ty fids fid. (ty, fids) \<in> set (fl_FeatureIDs l2) \<and> fid \<in> set fids \<and> covers J l1 ty fid)"
  by (auto simp: conflict_def list_ex_iff)

lemma conflict_sym: "conflict J l1 l2 = conflict J l2 l1"
  by (auto simp: conflict_iff covers_iff) (metis sameLockTypeName_sym)+

lemma expired_mono: "\<not> IsExpired l t \<Longrightarrow> s \<le> t \<Longrightarrow> \<not> IsExpired l s"
  by (simp add: IsExpired_def)

lemma exclusive_mono: "exclusive J s ls \<Longrightarrow> s \<le> t \<Longrightarrow> exclusive J t ls"
  unfolding exclusive_def by (metis expired_mono)

lemma map_of_clean:
  assumes "distinct (map fst (ls_locks ls))"
  shows "map_of (ls_locks (cleanExpiredLocked now ls)) i =
    (case map_of (ls_locks ls) i of None \<Rightarrow> None | Some l \<Rightarrow> if IsExpired l now then None else Some l)"
  using assms by (auto simp: cleanExpiredLocked_def Let_def map_of_filter_key split: option.splits)

lemma clean_frame [simp]:
  "ls_persist (cleanExpiredLocked now ls) = ls_persist ls"
  "ls_maxExpirySec (cleanExpiredLocked now ls) = ls_maxExpirySec ls"
  "ls_maxPerWorkspace (cleanExpiredLocked now ls) = ls_maxPerWorkspace ls"
  "ls_maxPerPrincipal (cleanExpiredLocked now ls) = ls_maxPerPrincipal ls"
  "ls_maxFeatures (cleanExpiredLocked now ls) = ls_maxFeatures ls"
  by (simp_all add: cleanExpiredLocked_def Let_def)

lemma clean_keys:
  "distinct (map fst (ls_locks ls)) \<Longrightarrow> distinct (map fst (ls_locks (cleanExpiredLocked now ls)))"
  "fst ` set (ls_locks (cleanExpiredLocked now ls)) \<subseteq> fst ` set (ls_locks ls)"
  by (auto simp: cleanExpiredLocked_def Let_def distinct_keys_filter)

lemma IsFeatureLocked_iff:
  "IsFeatureLocked J now ls ws ty fid \<longleftrightarrow>
     (\<exists>i l. (i, l) \<in> set (ls_locks ls) \<and> \<not> IsExpired l now \<and> fl_WorkspaceID l = ws \<and> covers J l ty fid)"
  by (auto simp: IsFeatureLocked_def list_ex_iff)

text \<open>The features of a granted lock: none of them was held by a live lock at the check.\<close>

definition granted_features ::
    "key_codec \<Rightarrow> run \<Rightarrow> LockStore \<Rightarrow> string \<Rightarrow> (string, string list) gomap \<Rightarrow> (string, string list) gomap" where
  "granted_features J R ls ws features =
     (let al = already_locked J (rn_check R) (cleanExpiredLocked (rn_sweep R) ls) ws features
      in if al \<noteq> [] then remove_locked J al features else features)"

lemma granted_features_free:
  assumes "(ty, fids) \<in> set (granted_features J R ls ws features)" "fid \<in> set fids"
  shows "\<not> IsFeatureLocked J (rn_check R) (cleanExpiredLocked (rn_sweep R) ls) ws ty fid"
proof
  let ?ls = "cleanExpiredLocked (rn_sweep R) ls"
  let ?al = "already_locked J (rn_check R) ?ls ws features"
  assume locked: "IsFeatureLocked J (rn_check R) ?ls ws ty fid"
  have al: "display_id J ty fid \<in> set ?al" if "(ty, fids') \<in> set features" "fid \<in> set fids'" for fids'
    using that locked by (force simp: already_locked_def)
  show False
  proof (cases "?al = []")
    case True
    with assms have "(ty, fids) \<in> set features" by (simp add: granted_features_def Let_def)
    with al assms(2) True show False by auto
  next
    case False
    with assms obtain fids' where "(ty, fids') \<in> set features" "fids = filter (\<lambda>f. display_id J ty f \<notin> set ?al) fids'"
      by (auto simp: granted_features_def Let_def remove_locked_def)
    with al assms(2) show False by auto
  qed
qed

lemma AList_delete_update_new:
  "k \<notin> fst ` set m \<Longrightarrow> AList.delete k (AList.update k v m) = m"
  by (induction m) (auto simp: AList.delete_eq filter_id_conv)

text \<open>An acquisition either grants a lock, or leaves the store as it was or swept.\<close>

lemma acquire_cases:
  assumes run: "AcquireLockOwnedContext J R ls ws features expiry action owner = (ls', res, al, err)"
    and fresh: "rn_uuid R \<notin> fst ` set (ls_locks ls)"
  obtains (refused) "res = None" "err \<noteq> None" "ls' = ls \<or> ls' = cleanExpiredLocked (rn_sweep R) ls"
  | (granted) l where "err = None" "res = Some l"
      "l = new_lock R ls ws (granted_features J R ls ws features) expiry owner"
      "al = already_locked J (rn_check R) (cleanExpiredLocked (rn_sweep R) ls) ws features"
      "action = LockActionAll \<Longrightarrow> al = []"
      "total_features features \<le> ls_maxFeatures ls"
      "workspace_locks (cleanExpiredLocked (rn_sweep R) ls) ws < ls_maxPerWorkspace ls"
      "principal_locks (cleanExpiredLocked (rn_sweep R) ls) ws owner < ls_maxPerPrincipal ls"
      "ls' = (cleanExpiredLocked (rn_sweep R) ls)
         \<lparr>ls_locks := AList.update (rn_uuid R) l (ls_locks (cleanExpiredLocked (rn_sweep R) ls)),
          ls_persist := map_option (AList.update (rn_uuid R) (stored_record J (record_of_lock l))) (ls_persist ls)\<rparr>"
proof -
  let ?ls = "cleanExpiredLocked (rn_sweep R) ls"
  let ?al = "already_locked J (rn_check R) ?ls ws features"
  let ?l = "new_lock R ls ws (granted_features J R ls ws features) expiry owner"
  have fresh': "rn_uuid R \<notin> fst ` set (ls_locks ?ls)" using fresh clean_keys(2) by blast
  have new: "new_lock R ?ls ws (if ?al \<noteq> [] then remove_locked J ?al features else features) expiry owner = ?l"
    by (simp add: new_lock_def granted_features_def Let_def lock_expiry_def)
  have id: "fl_LockID ?l = rn_uuid R" "lr_LockID (record_of_lock ?l) = rn_uuid R"
    by (simp_all add: new_lock_def record_of_lock_def)
  note run' = run [unfolded AcquireLockOwnedContext_def Let_def new]
  show thesis
  proof (cases "rn_gate R = None \<and> \<not> total_features features > ls_maxFeatures ls \<and>
      \<not> workspace_locks ?ls ws \<ge> ls_maxPerWorkspace ls \<and> \<not> principal_locks ?ls ws owner \<ge> ls_maxPerPrincipal ls \<and>
      \<not> (action = LockActionAll \<and> ?al \<noteq> []) \<and> (ls_persist ls = None \<or> rn_fault R = None)")
    case True
    with run' have "grant_lock J R ?ls ?l ?al = (ls', res, al, err)" by auto
    with True id have "ls' = ?ls \<lparr>ls_locks := AList.update (rn_uuid R) ?l (ls_locks ?ls),
          ls_persist := map_option (AList.update (rn_uuid R) (stored_record J (record_of_lock ?l))) (ls_persist ls)\<rparr>"
      "res = Some ?l" "err = None" "al = ?al"
      by (auto simp: grant_lock_def PutWFSLock_def Let_def split: option.splits sum.splits)
    with True show thesis by (intro granted) auto
  next
    case False
    have "grant_lock J R ?ls ?l ?al = (?ls, None, [], Some (''persist lock: put WFS lock: '' @ the (rn_fault R)))"
      if "ls_persist ls \<noteq> None" "rn_fault R \<noteq> None"
      using that fresh' id
      by (auto simp: grant_lock_def PutWFSLock_def Let_def AList_delete_update_new split: option.splits)
    with False run' show thesis
      by (intro refused) (auto simp: eq_commute [of "Some x" "rn_gate R" for x] split: option.splits if_splits)
  qed
qed

subsection \<open>Operations that only take locks away\<close>

text \<open>The same lock, as it may come back from its row: its times can have lost their last digits.\<close>

definition same_lock :: "FeatureLock \<Rightarrow> FeatureLock \<Rightarrow> bool" where
  "same_lock l l' =
     (fl_LockID l' = fl_LockID l \<and> fl_WorkspaceID l' = fl_WorkspaceID l \<and> fl_OwnerID l' = fl_OwnerID l \<and>
      set (fl_FeatureIDs l') = set (fl_FeatureIDs l) \<and> timestamp (fl_CreatedAt l') = timestamp (fl_CreatedAt l) \<and>
      timestamp (fl_ExpiresAt l') = timestamp (fl_ExpiresAt l) \<and> fl_ExpiresAt l' \<le> fl_ExpiresAt l)"

lemma timestamp_simps [simp]: "timestamp t \<le> t" "timestamp (timestamp t) = timestamp t"
  by (simp_all add: timestamp_def mod_diff_left_eq)

lemma timestamp_mono: "s \<le> t \<Longrightarrow> timestamp s \<le> timestamp t"
  unfolding timestamp_def by (simp add: minus_mod_eq_div_mult zdiv_mono1)

lemma same_lock_refl [simp]: "same_lock l l"
  by (simp add: same_lock_def)

lemma same_lock_trans: "same_lock l1 l2 \<Longrightarrow> same_lock l2 l3 \<Longrightarrow> same_lock l1 l3"
  by (auto simp: same_lock_def)

lemma same_lock_conflict:
  assumes "same_lock l1 l1'" "same_lock l2 l2'"
  shows "conflict J l1' l2' = conflict J l1 l2"
  using assms by (simp add: conflict_iff covers_iff same_lock_def)

definition shrinks :: "LockStore \<Rightarrow> LockStore \<Rightarrow> bool" where
  "shrinks ls ls' =
     (distinct (map fst (ls_locks ls')) \<and>
      (\<forall>i l'. map_of (ls_locks ls') i = Some l' \<longrightarrow> (\<exists>l. map_of (ls_locks ls) i = Some l \<and> same_lock l l')) \<and>
      ls_maxPerWorkspace ls' = ls_maxPerWorkspace ls \<and> ls_maxPerPrincipal ls' = ls_maxPerPrincipal ls)"

lemma count_keys: "distinct (map fst m) \<Longrightarrow> length (filter P m) = card {i. \<exists>l. map_of m i = Some l \<and> P (i, l)}"
proof -
  assume d: "distinct (map fst m)"
  then have "length (filter P m) = card (set (map fst (filter P m)))"
    using distinct_card [OF distinct_keys_filter [OF d, of P]] by simp
  also have "set (map fst (filter P m)) = {i. \<exists>l. map_of m i = Some l \<and> P (i, l)}"
    using d by (force simp: map_of_eq_Some_iff)
  finally show ?thesis .
qed

lemma shrinks_count:
  assumes "shrinks ls ls'" "distinct (map fst (ls_locks ls))" and P: "\<And>l l'. same_lock l l' \<Longrightarrow> P l' \<Longrightarrow> P l"
  shows "length (filter (\<lambda>(_, l). P l) (ls_locks ls')) \<le> length (filter (\<lambda>(_, l). P l) (ls_locks ls))"
proof -
  have "finite {i. \<exists>l. map_of (ls_locks ls) i = Some l \<and> P l}"
    by (rule finite_subset [OF _ finite_dom_map_of [of "ls_locks ls"]]) auto
  moreover have "{i. \<exists>l. map_of (ls_locks ls') i = Some l \<and> P l} \<subseteq> {i. \<exists>l. map_of (ls_locks ls) i = Some l \<and> P l}"
    using assms(1) P unfolding shrinks_def by blast
  ultimately have "card {i. \<exists>l. map_of (ls_locks ls') i = Some l \<and> P l} \<le> card {i. \<exists>l. map_of (ls_locks ls) i = Some l \<and> P l}"
    by (rule card_mono)
  then show ?thesis using assms(1, 2) by (simp add: count_keys shrinks_def)
qed

lemma shrinks_within_quota:
  assumes "shrinks ls ls'" "distinct (map fst (ls_locks ls))" "within_quota ls"
  shows "within_quota ls'"
proof -
  have "workspace_locks ls' ws \<le> workspace_locks ls ws" for ws
    using shrinks_count [OF assms(1, 2), of "\<lambda>l. fl_WorkspaceID l = ws"] by (simp add: workspace_locks_def same_lock_def)
  moreover have "principal_locks ls' ws owner \<le> principal_locks ls ws owner" for ws owner
    using shrinks_count [OF assms(1, 2), of "\<lambda>l. fl_WorkspaceID l = ws \<and> fl_OwnerID l = owner"] by (simp add: principal_locks_def same_lock_def)
  ultimately show ?thesis using assms(1, 3) unfolding within_quota_def shrinks_def by (metis order_trans)
qed

lemma shrinks_exclusive:
  assumes "shrinks ls ls'" "exclusive J t ls"
  shows "exclusive J t ls'"
  unfolding exclusive_def
proof (intro allI impI)
  fix i l1 j l2
  assume h: "map_of (ls_locks ls') i = Some l1 \<and> map_of (ls_locks ls') j = Some l2 \<and> i \<noteq> j \<and>
    \<not> IsExpired l1 t \<and> \<not> IsExpired l2 t \<and> fl_WorkspaceID l1 = fl_WorkspaceID l2"
  then obtain k1 k2 where k: "map_of (ls_locks ls) i = Some k1" "same_lock k1 l1" "map_of (ls_locks ls) j = Some k2" "same_lock k2 l2"
    using assms(1) unfolding shrinks_def by metis
  with h have "\<not> IsExpired k1 t" "\<not> IsExpired k2 t" "fl_WorkspaceID k1 = fl_WorkspaceID k2" by (auto simp: IsExpired_def same_lock_def)
  with assms(2) h k have "\<not> conflict J k1 k2" unfolding exclusive_def by blast
  then show "\<not> conflict J l1 l2" using same_lock_conflict k by blast
qed

lemma shrinks_refl: "distinct (map fst (ls_locks ls)) \<Longrightarrow> shrinks ls ls"
  by (simp add: shrinks_def)

lemma shrinks_clean: "distinct (map fst (ls_locks ls)) \<Longrightarrow> shrinks ls (cleanExpiredLocked now ls)"
  by (auto simp: shrinks_def clean_keys map_of_clean split: option.splits if_splits)

lemma shrinks_delete:
  "distinct (map fst (ls_locks ls)) \<Longrightarrow> shrinks ls (ls\<lparr>ls_locks := AList.delete i (ls_locks ls), ls_persist := p\<rparr>)"
  by (auto simp: shrinks_def map_of_delete_iff distinct_keys_delete split: if_splits)

lemma shrinks_clear:
  "distinct (map fst (ls_locks ls)) \<Longrightarrow> shrinks ls (LockStore_ClearWorkspace ls ws)"
  by (auto simp: shrinks_def LockStore_ClearWorkspace_def distinct_keys_filter map_of_filter_key
      split: option.splits if_splits)

lemma shrinks_rows: "shrinks ls (with_rows ls' f) = shrinks ls ls'"
  by (auto simp: shrinks_def with_rows_def split: option.splits sum.splits)

subsection \<open>The restored locks\<close>

lemma map_of_restore_loop:
  assumes "distinct (map lr_LockID recs)"
  shows "map_of (restore_loop now recs m) i =
    (case List.find (\<lambda>r. lr_LockID r = i \<and> lr_ExpiresAt r > now) recs of
       Some r \<Rightarrow> Some (lock_of_record r) | None \<Rightarrow> map_of m i)"
  using assms
proof (induction recs arbitrary: m)
  case (Cons r recs)
  have "List.find (\<lambda>r. lr_LockID r = i \<and> lr_ExpiresAt r > now) recs = None" if "lr_LockID r = i"
    using that Cons.prems by (auto simp: find_None_iff) (metis imageI)
  with Cons show ?case by (auto simp: map_of_update_iff split: option.split)
qed simp

lemma distinct_restore_loop:
  "distinct (map fst m) \<Longrightarrow> distinct (map fst (restore_loop now recs m))"
  by (induction recs arbitrary: m) (auto simp: distinct_keys_update)

lemma find_keyed:
  assumes "distinct (map fst rows)" "\<forall>i r. map_of rows i = Some r \<longrightarrow> lr_LockID r = i"
  shows "List.find (\<lambda>r. lr_LockID r = i \<and> P r) (map snd (filter (\<lambda>(_, r). Q r) rows)) =
    (case map_of rows i of Some r \<Rightarrow> if P r \<and> Q r then Some r else None | None \<Rightarrow> None)"
  using assms
proof (induction rows)
  case (Cons kr rows)
  obtain k r where kr: "kr = (k, r)" by fastforce
  from Cons.prems kr have r: "lr_LockID r = k" by auto
  have keyed: "\<forall>i r. map_of rows i = Some r \<longrightarrow> lr_LockID r = i"
  proof (intro allI impI)
    fix j r' assume "map_of rows j = Some r'"
    moreover from this Cons.prems(1) kr have "j \<noteq> k"
      by (metis distinct.simps(2) fst_conv list.simps(9) map_of_eq_None_iff option.distinct(1) set_map)
    ultimately show "lr_LockID r' = j" using Cons.prems(2) [rule_format, of j r'] kr by simp
  qed
  from Cons.IH [OF _ keyed] Cons.prems(1) kr have IH: "List.find (\<lambda>r. lr_LockID r = i \<and> P r) (map snd (filter (\<lambda>(_, r). Q r) rows)) =
    (case map_of rows i of Some r \<Rightarrow> if P r \<and> Q r then Some r else None | None \<Rightarrow> None)" by simp
  have "map_of rows i = None" if "i = k" using that Cons.prems(1) kr by (auto simp: map_of_eq_None_iff)
  with IH kr r show ?case by auto
qed simp

lemma distinct_record_ids:
  assumes "distinct (map fst rows)" "\<forall>i r. map_of rows i = Some r \<longrightarrow> lr_LockID r = i"
  shows "distinct (map lr_LockID (map snd (filter Q rows)))"
proof -
  have "map (lr_LockID \<circ> snd) rows = map fst rows"
    using assms by (auto simp: map_of_eq_Some_iff)
  then have "map (lr_LockID \<circ> snd) (filter Q rows) = map fst (filter Q rows)" by auto
  with distinct_keys_filter [OF assms(1)] show ?thesis by (metis map_map)
qed

text \<open>A restart has exactly the locks whose row has not expired.\<close>

lemma restart_locks:
  assumes "keyed ls" "ls_persist ls = Some rows" "listed \<le> restored"
  shows "map_of (ls_locks (NewRuntimeState a b c d (Some rows) None listed restored)) i =
    (case map_of rows i of Some r \<Rightarrow> if lr_ExpiresAt r > restored then Some (lock_of_record r) else None | None \<Rightarrow> None)"
proof -
  have k: "distinct (map fst rows)" "\<forall>i r. map_of rows i = Some r \<longrightarrow> lr_LockID r = i"
    using assms by (auto simp: keyed_def)
  show ?thesis
    using assms(2) order_trans [OF timestamp_simps(1) assms(3)]
    by (auto simp: NewRuntimeState_def NewLockStore_def setPersistence_def loadPersisted_def ListWFSLocks_def
        restore_def Let_def map_of_restore_loop [OF distinct_record_ids [OF k]] find_keyed [OF k] split: option.splits)
qed

text \<open>One that cannot read the rows, or has none, starts without locks.\<close>

lemma restart_empty: "persistence = None \<or> fault \<noteq> None \<Longrightarrow> ls_locks (NewRuntimeState a b c d persistence fault listed restored) = []"
  by (auto simp: NewRuntimeState_def NewLockStore_def setPersistence_def loadPersisted_def ListWFSLocks_def Let_def split: option.splits)

lemma NewRuntimeState_frame [simp]:
  "ls_persist (NewRuntimeState a b c d p f t u) = p"
  "ls_maxExpirySec (NewRuntimeState a b c d p f t u) = or_default a 3600"
  "ls_maxPerWorkspace (NewRuntimeState a b c d p f t u) = or_default b 1000"
  "ls_maxPerPrincipal (NewRuntimeState a b c d p f t u) = or_default c 100"
  "ls_maxFeatures (NewRuntimeState a b c d p f t u) = or_default d 10000"
  "distinct (map fst (ls_locks (NewRuntimeState a b c d p f t u)))"
  by (auto simp: NewRuntimeState_def NewLockStore_def setPersistence_def loadPersisted_def restore_def Let_def
      distinct_restore_loop split: option.splits sum.splits)

lemma record_lock_inverse [simp]:
  "lock_of_record (record_of_lock l) = l" "record_of_lock (lock_of_record r) = r"
  by (simp_all add: lock_of_record_def record_of_lock_def)

lemma record_fields [simp]:
  "lr_LockID (record_of_lock l) = fl_LockID l" "lr_ExpiresAt (record_of_lock l) = fl_ExpiresAt l"
  "fl_LockID (lock_of_record r) = lr_LockID r" "fl_ExpiresAt (lock_of_record r) = lr_ExpiresAt r"
  "lr_WorkspaceID (record_of_lock l) = fl_WorkspaceID l" "fl_WorkspaceID (lock_of_record r) = lr_WorkspaceID r"
  "lr_LockID (stored_record J r) = lr_LockID r"
  by (simp_all add: lock_of_record_def record_of_lock_def stored_record_def)

lemma row_matches_restored: "row_matches r l \<Longrightarrow> row_matches r (lock_of_record r) \<and> same_lock l (lock_of_record r)"
  by (simp add: row_matches_def same_lock_def lock_of_record_def)

lemma stored_row_matches:
  "column_faithful J \<Longrightarrow> features_ok (fl_FeatureIDs l) \<Longrightarrow> row_matches (stored_record J (record_of_lock l)) l"
  by (simp add: row_matches_def stored_record_def record_of_lock_def column_faithful_def)

lemma granted_features_ok: "features_ok features \<Longrightarrow> features_ok (granted_features J R ls ws features)"
  by (auto simp: features_ok_def granted_features_def Let_def remove_locked_def list_all_iff comp_def split_beta)

lemma no_stale_mirrored: "keyed ls \<Longrightarrow> no_stale_rows t ls = mirrored t ls"
  by (auto simp: keyed_def no_stale_rows_def mirrored_def list_all_iff map_of_eq_None_iff map_of_eq_Some_iff split: option.splits)

subsection \<open>The invariant\<close>

definition lock_inv :: "key_codec \<Rightarrow> limits \<Rightarrow> bool \<Rightarrow> instant \<Rightarrow> LockStore \<Rightarrow> bool" where
  "lock_inv J lim clean t ls =
     (column_faithful J \<and> keyed ls \<and> exclusive J t ls \<and> within_quota ls \<and> has_limits lim ls \<and> matched ls \<and> persisted t ls \<and>
      (clean \<longrightarrow> mirrored t ls))"

lemma lock_inv_weaken: "lock_inv J lim clean t ls \<Longrightarrow> (clean' \<Longrightarrow> clean) \<Longrightarrow> lock_inv J lim clean' t ls"
  by (auto simp: lock_inv_def)

text \<open>An operation that takes locks away keeps the invariant when its rows do.\<close>

lemma lock_inv_shrinks:
  assumes "lock_inv J lim clean t ls" "shrinks ls ls'" "t \<le> t'" "has_limits lim ls'"
    and "\<And>rows. ls_persist ls' = Some rows \<Longrightarrow>
       distinct (map fst rows) \<and> (\<forall>i r. map_of rows i = Some r \<longrightarrow> lr_LockID r = i)"
    and "matched ls'" "persisted t' ls'" "clean \<Longrightarrow> mirrored t' ls'"
  shows "lock_inv J lim clean t' ls'"
proof -
  from assms(1) have k: "keyed ls" and e: "exclusive J t ls" and q: "within_quota ls"
    by (auto simp: lock_inv_def)
  have "keyed ls'" using assms(2,5) k by (fastforce simp: keyed_def shrinks_def same_lock_def)
  moreover have "exclusive J t' ls'"
    using exclusive_mono [OF shrinks_exclusive [OF assms(2) e] assms(3)] .
  moreover have "within_quota ls'"
    using shrinks_within_quota [OF assms(2) _ q] k by (simp add: keyed_def)
  ultimately show ?thesis using assms(1,4,6-8) by (simp add: lock_inv_def)
qed

lemma lock_inv_keyed:
  "lock_inv J lim clean t ls \<Longrightarrow> distinct (map fst (ls_locks ls))"
  "lock_inv J lim clean t ls \<Longrightarrow> ls_persist ls = Some rows \<Longrightarrow>
     distinct (map fst rows) \<and> (\<forall>i r. map_of rows i = Some r \<longrightarrow> lr_LockID r = i)"
  by (auto simp: lock_inv_def keyed_def)

lemma lock_inv_later:
  assumes "lock_inv J lim clean t ls" "t \<le> t'"
  shows "lock_inv J lim clean t' ls"
  using assms
  by (intro lock_inv_shrinks [OF assms(1) shrinks_refl assms(2)])
    (auto simp: lock_inv_def keyed_def persisted_def mirrored_def)

lemma lock_inv_clean:
  assumes "lock_inv J lim clean t ls" "t \<le> now"
  shows "lock_inv J lim clean now (cleanExpiredLocked now ls)"
proof (rule lock_inv_shrinks [OF assms(1) shrinks_clean [OF lock_inv_keyed(1) [OF assms(1)]] assms(2)])
  show "has_limits lim (cleanExpiredLocked now ls)" using assms by (simp add: lock_inv_def has_limits_def)
  show "matched (cleanExpiredLocked now ls)"
    using assms(1) lock_inv_keyed(1) [OF assms(1)]
    by (auto simp: lock_inv_def matched_def map_of_clean split: option.splits if_splits)
  show "persisted now (cleanExpiredLocked now ls)"
    using assms lock_inv_keyed(1) [OF assms(1)]
    by (auto simp: lock_inv_def persisted_def map_of_clean split: option.splits if_splits)
  show "mirrored now (cleanExpiredLocked now ls)" if c: clean
    unfolding mirrored_def
  proof (intro allI impI)
    fix rows i r assume h: "ls_persist (cleanExpiredLocked now ls) = Some rows \<and> map_of rows i = Some r \<and> now < lr_ExpiresAt r"
    then obtain l where l: "map_of (ls_locks ls) i = Some l" using c assms by (fastforce simp: lock_inv_def mirrored_def)
    with h assms(1) have "row_matches r l" by (auto simp: lock_inv_def matched_def)
    then have "now < fl_ExpiresAt l" using h timestamp_simps(1) [of "fl_ExpiresAt l"] unfolding row_matches_def by linarith
    with l show "map_of (ls_locks (cleanExpiredLocked now ls)) i \<noteq> None"
      by (simp add: map_of_clean lock_inv_keyed(1) [OF assms(1)] IsExpired_def)
  qed
qed (use lock_inv_keyed(2) [OF assms(1)] in simp)

text \<open>Deleting a lock with its row; without the row when its deletion failed.\<close>

lemma lock_inv_delete:
  assumes "lock_inv J lim clean t ls"
    and "p = map_option (AList.delete i) (ls_persist ls) \<or> \<not> clean \<and> p = ls_persist ls"
  shows "lock_inv J lim clean t (ls\<lparr>ls_locks := AList.delete i (ls_locks ls), ls_persist := p\<rparr>)"
proof (rule lock_inv_shrinks [OF assms(1) shrinks_delete [OF lock_inv_keyed(1) [OF assms(1)]] order_refl])
  let ?ls = "ls\<lparr>ls_locks := AList.delete i (ls_locks ls), ls_persist := p\<rparr>"
  show "has_limits lim ?ls" using assms by (simp add: lock_inv_def has_limits_def)
  show "matched ?ls"
    using assms by (cases "ls_persist ls") (auto simp: lock_inv_def matched_def map_of_delete_iff split: if_splits)
  show "persisted t ?ls"
    using assms by (cases "ls_persist ls") (auto simp: lock_inv_def persisted_def map_of_delete_iff)
  show "mirrored t ?ls" if clean
    using that assms by (cases "ls_persist ls") (auto simp: lock_inv_def mirrored_def map_of_delete_iff split: if_splits)
  show "distinct (map fst rows) \<and> (\<forall>i r. map_of rows i = Some r \<longrightarrow> lr_LockID r = i)" if "ls_persist ?ls = Some rows" for rows
    using that assms(2) lock_inv_keyed(2) [OF assms(1)]
    by (cases "ls_persist ls") (auto simp: map_of_delete_iff split: if_splits)
qed

lemma deletePersistedLock_rows:
  "deletePersistedLock fault ls i = ls\<lparr>ls_persist := if fault = None then map_option (AList.delete i) (ls_persist ls)
     else ls_persist ls\<rparr>"
  by (auto simp: deletePersistedLock_def DeleteWFSLock_def split: option.splits)

lemma lock_inv_release:
  assumes "lock_inv J lim clean t ls" "clean \<longrightarrow> fault = None"
  shows "lock_inv J lim clean t (fst (ReleaseLockOwned fault ls i owner))"
    and "lock_inv J lim clean t (fst (ReleaseLock fault ls i))"
  using lock_inv_delete [OF assms(1), of "map_option (AList.delete i) (ls_persist ls)" i]
    lock_inv_delete [OF assms(1), of "ls_persist ls" i] assms
  by (auto simp: ReleaseLockOwned_def ReleaseLock_def deletePersistedLock_rows split: option.splits)

text \<open>Deleting rows that no live lock needs.\<close>

lemma persist_frame:
  "exclusive J t (ls\<lparr>ls_persist := p\<rparr>) = exclusive J t ls"
  "within_quota (ls\<lparr>ls_persist := p\<rparr>) = within_quota ls"
  "has_limits lim (ls\<lparr>ls_persist := p\<rparr>) = has_limits lim ls"
  unfolding exclusive_def within_quota_def workspace_locks_def principal_locks_def has_limits_def
  by simp_all

lemma lock_inv_filter_rows:
  assumes "lock_inv J lim clean t ls"
    and "p = ls_persist ls \<or> p = map_option (filter P) (ls_persist ls)"
    and P: "\<And>i l r. map_of (ls_locks ls) i = Some l \<Longrightarrow> timestamp (fl_ExpiresAt l) > t \<Longrightarrow> row_matches r l \<Longrightarrow> P (i, r)"
  shows "lock_inv J lim clean t (ls\<lparr>ls_persist := p\<rparr>)"
proof (cases "ls_persist ls")
  case None
  then have "ls\<lparr>ls_persist := p\<rparr> = ls" using assms(2) by (cases ls) auto
  with assms(1) show ?thesis by simp
next
  case (Some rows)
  note k = lock_inv_keyed(2) [OF assms(1) Some]
  have f: "map_of (filter P rows) i = (case map_of rows i of None \<Rightarrow> None | Some v \<Rightarrow> if P (i, v) then Some v else None)" for i
    using k by (simp add: map_of_filter_key)
  have "keyed (ls\<lparr>ls_persist := p\<rparr>)"
    using assms(1,2) Some k by (auto simp: lock_inv_def keyed_def f distinct_keys_filter split: option.splits if_splits)
  moreover have m: "matched (ls\<lparr>ls_persist := p\<rparr>)"
    using assms(1,2) Some by (auto simp: lock_inv_def matched_def f split: option.splits if_splits)
  moreover have "persisted t (ls\<lparr>ls_persist := p\<rparr>)"
    unfolding persisted_def
  proof (intro allI impI)
    fix rows' i l assume h: "ls_persist (ls\<lparr>ls_persist := p\<rparr>) = Some rows' \<and> map_of (ls_locks (ls\<lparr>ls_persist := p\<rparr>)) i = Some l \<and> t < timestamp (fl_ExpiresAt l)"
    then obtain q where q: "map_of rows i = Some q" using assms(1) Some by (auto simp: lock_inv_def persisted_def)
    then have "row_matches q l" using assms(1) Some h by (auto simp: lock_inv_def matched_def)
    with P h have "P (i, q)" by auto
    with q h assms(2) Some show "map_of rows' i \<noteq> None" by (auto simp: f)
  qed
  moreover have "mirrored t (ls\<lparr>ls_persist := p\<rparr>)" if clean
    using that assms(1,2) Some by (auto simp: lock_inv_def mirrored_def f split: option.splits if_splits)
  ultimately show ?thesis
    using assms(1) by (simp add: lock_inv_def persist_frame)
qed

lemma lock_inv_tick:
  assumes "lock_inv J lim clean t ls" "t \<le> swept" "swept \<le> pruned"
  shows "lock_inv J lim clean pruned (runtime_tick fault swept pruned ls)"
proof -
  let ?ls = "cleanExpiredLocked swept ls"
  let ?p = "if fault = None then map_option (filter (\<lambda>(_, r). \<not> lr_ExpiresAt r \<le> timestamp pruned)) (ls_persist ls)
    else ls_persist ls"
  have "runtime_tick fault swept pruned ls = ?ls\<lparr>ls_persist := ?p\<rparr>"
    by (cases "ls_persist ls"; cases fault)
      (auto simp: runtime_tick_def CleanExpired_def with_rows_def DeleteExpiredWFSLocks_def)
  moreover have "\<not> lr_ExpiresAt r \<le> timestamp pruned" if "row_matches r l" "pruned < timestamp (fl_ExpiresAt l)" for r l
    using that timestamp_simps(1) [of pruned] unfolding row_matches_def by linarith
  ultimately show ?thesis
    using lock_inv_filter_rows [OF lock_inv_later [OF lock_inv_clean [OF assms(1,2)] assms(3)], of ?p "\<lambda>(_, r). \<not> lr_ExpiresAt r \<le> timestamp pruned"] by simp
qed

lemma lock_inv_clear:
  assumes "lock_inv J lim clean t ls" "clean \<longrightarrow> fault = None"
  shows "lock_inv J lim clean t (RuntimeState_ClearWorkspace fault ls ws)"
proof -
  let ?m = "LockStore_ClearWorkspace ls ws"
  let ?p = "if fault = None then map_option (filter (\<lambda>(_, r). lr_WorkspaceID r \<noteq> ws)) (ls_persist ls)
    else ls_persist ls"
  note k = lock_inv_keyed [OF assms(1)]
  note sh = shrinks_clear [OF k(1), of ws]
  have m: "map_of (ls_locks ?m) i = (case map_of (ls_locks ls) i of None \<Rightarrow> None |
      Some l \<Rightarrow> if fl_WorkspaceID l \<noteq> ws then Some l else None)" for i
    using k(1) by (simp add: LockStore_ClearWorkspace_def map_of_filter_key split: option.split)
  have eq: "RuntimeState_ClearWorkspace fault ls ws = ?m\<lparr>ls_persist := ?p\<rparr>"
    by (cases "ls_persist ls"; cases fault) (auto simp: RuntimeState_ClearWorkspace_def with_rows_def
        LockStore_ClearWorkspace_def DeleteWorkspaceWFSLocks_def)
  have rows: "map_of rows' i = (case map_of rows i of None \<Rightarrow> None |
      Some r \<Rightarrow> if fault = None \<longrightarrow> lr_WorkspaceID r \<noteq> ws then Some r else None)" "distinct (map fst rows')"
    if "ls_persist ls = Some rows" "?p = Some rows'" for rows rows' i
    using that k(2) by (auto simp: map_of_filter_key distinct_keys_filter split: if_splits option.splits)
  show ?thesis
    unfolding eq
  proof (rule lock_inv_shrinks [OF assms(1) _ order_refl])
    show "shrinks ls (?m\<lparr>ls_persist := ?p\<rparr>)" using sh by (simp add: shrinks_def)
    show "has_limits lim (?m\<lparr>ls_persist := ?p\<rparr>)"
      using assms by (simp add: lock_inv_def has_limits_def LockStore_ClearWorkspace_def)
    have inv: "matched ls" "persisted t ls" "clean \<Longrightarrow> mirrored t ls" using assms(1) by (simp_all add: lock_inv_def)
    have old: "\<exists>rows. ls_persist ls = Some rows" if "?p = Some rows'" for rows' using that by (auto split: if_splits)
    show "matched (?m\<lparr>ls_persist := ?p\<rparr>)"
      unfolding matched_def
    proof (intro allI impI)
      fix rows' i l q assume h: "ls_persist (?m\<lparr>ls_persist := ?p\<rparr>) = Some rows' \<and> map_of (ls_locks (?m\<lparr>ls_persist := ?p\<rparr>)) i = Some l \<and> map_of rows' i = Some q"
      with old obtain rows0 where r0: "ls_persist ls = Some rows0" by auto
      with h rows(1) [OF r0, of rows' i] inv(1) show "row_matches q l" by (auto simp: matched_def m split: option.splits if_splits)
    qed
    show "persisted t (?m\<lparr>ls_persist := ?p\<rparr>)"
      unfolding persisted_def
    proof (intro allI impI)
      fix rows' i l assume h: "ls_persist (?m\<lparr>ls_persist := ?p\<rparr>) = Some rows' \<and> map_of (ls_locks (?m\<lparr>ls_persist := ?p\<rparr>)) i = Some l \<and> t < timestamp (fl_ExpiresAt l)"
      with old obtain rows0 where r0: "ls_persist ls = Some rows0" by auto
      from h have l: "map_of (ls_locks ls) i = Some l" "fl_WorkspaceID l \<noteq> ws" by (auto simp: m split: option.splits if_splits)
      with h r0 inv(2) obtain q where q: "map_of rows0 i = Some q" by (auto simp: persisted_def)
      with l r0 inv(1) have "row_matches q l" by (auto simp: matched_def)
      with q l(2) h rows(1) [OF r0, of rows' i] show "map_of rows' i \<noteq> None" by (simp add: row_matches_def)
    qed
    show "mirrored t (?m\<lparr>ls_persist := ?p\<rparr>)" if c: clean
      unfolding mirrored_def
    proof (intro allI impI)
      fix rows' i q assume h: "ls_persist (?m\<lparr>ls_persist := ?p\<rparr>) = Some rows' \<and> map_of rows' i = Some q \<and> t < lr_ExpiresAt q"
      with old obtain rows0 where r0: "ls_persist ls = Some rows0" by auto
      with h rows(1) [OF r0, of rows' i] assms(2) c have q: "map_of rows0 i = Some q" "lr_WorkspaceID q \<noteq> ws" by (auto split: option.splits if_splits)
      with h r0 inv(3) c obtain l where l: "map_of (ls_locks ls) i = Some l" by (auto simp: mirrored_def)
      with q r0 inv(1) have "row_matches q l" by (auto simp: matched_def)
      with q(2) l show "map_of (ls_locks (?m\<lparr>ls_persist := ?p\<rparr>)) i \<noteq> None" by (simp add: m row_matches_def)
    qed
    show "distinct (map fst rows') \<and> (\<forall>i r. map_of rows' i = Some r \<longrightarrow> lr_LockID r = i)"
      if "ls_persist (?m\<lparr>ls_persist := ?p\<rparr>) = Some rows'" for rows'
      using that rows k(2) by (cases "ls_persist ls") (auto split: option.splits if_splits)
  qed
qed

lemma lock_inv_restart_empty:
  assumes "lock_inv J lim clean t ls" "lim = (a, b, c, d)" "persistence = ls_persist ls" "t \<le> restored"
    and "persistence = None \<or> fault \<noteq> None \<and> \<not> clean"
  shows "lock_inv J lim clean restored (NewRuntimeState a b c d persistence fault listed restored)"
proof -
  have e: "ls_locks (NewRuntimeState a b c d persistence fault listed restored) = []" by (rule restart_empty) (use assms(5) in blast)
  show ?thesis
    by (rule lock_inv_shrinks [OF assms(1) _ assms(4)])
      (use assms lock_inv_keyed(2) [OF assms(1)] e in \<open>auto simp: shrinks_def lock_inv_def has_limits_def matched_def persisted_def mirrored_def\<close>)
qed

text \<open>A restored lock is the lock the old process held.\<close>

lemma restored_lock:
  assumes "lock_inv J lim clean t ls" "ls_persist ls = Some rows" "mirrored restored ls" "listed \<le> restored"
    and "map_of (ls_locks (NewRuntimeState a b c d (Some rows) None listed restored)) i = Some l'"
  obtains l q where "map_of rows i = Some q" "map_of (ls_locks ls) i = Some l" "same_lock l l'" "row_matches q l'"
proof -
  have k: "keyed ls" and m: "matched ls" using assms(1) by (auto simp: lock_inv_def)
  obtain q where q: "map_of rows i = Some q" "restored < lr_ExpiresAt q" "l' = lock_of_record q"
    using assms(5) unfolding restart_locks [OF k assms(2, 4)] by (auto split: option.splits if_splits)
  then obtain l where l: "map_of (ls_locks ls) i = Some l" using assms(2, 3) by (fastforce simp: mirrored_def)
  have "row_matches q l" using m assms(2) l q(1) by (auto simp: matched_def)
  from row_matches_restored [OF this] that q l show ?thesis by blast
qed

lemma lock_inv_restart:
  assumes "lock_inv J lim clean t ls" "ls_persist ls = Some rows" "t \<le> listed" "listed \<le> restored"
    "lim = (a, b, c, d)" "mirrored restored ls"
  shows "lock_inv J lim clean restored (NewRuntimeState a b c d (Some rows) None listed restored)"
proof -
  let ?ls = "NewRuntimeState a b c d (Some rows) None listed restored"
  have k: "keyed ls" and l: "has_limits lim ls" using assms(1) by (auto simp: lock_inv_def)
  note r = restart_locks [OF k assms(2,4)] and old = restored_lock [OF assms(1, 2, 6, 4)]
  show ?thesis
  proof (rule lock_inv_shrinks [OF assms(1)])
    show "shrinks ls ?ls"
      using l assms(5) unfolding shrinks_def by (auto simp: has_limits_def elim: old)
    show "matched ?ls" by (auto simp: matched_def elim: old)
    show "persisted restored ?ls" by (auto simp: persisted_def elim: old)
    show "mirrored restored ?ls" by (auto simp: mirrored_def r split: option.splits)
  qed (use assms lock_inv_keyed(2) [OF assms(1,2)] in \<open>auto simp: has_limits_def\<close>)
qed

subsection \<open>A granted lock\<close>

lemma length_filter_update_new:
  "k \<notin> fst ` set m \<Longrightarrow> length (filter P (AList.update k v m)) = length (filter P m) + (if P (k, v) then 1 else 0)"
  by (induction m) auto

lemma lock_inv_grant:
  assumes inv: "lock_inv J lim clean t0 (cleanExpiredLocked (rn_sweep R) ls)"
    and fresh: "rn_uuid R \<notin> fst ` set (ls_locks ls)"
      "case ls_persist ls of None \<Rightarrow> True | Some rows \<Rightarrow> rn_uuid R \<notin> fst ` set rows"
    and l: "l = new_lock R ls ws (granted_features J R ls ws features) expiry owner"
    and q: "workspace_locks (cleanExpiredLocked (rn_sweep R) ls) ws < ls_maxPerWorkspace ls"
      "principal_locks (cleanExpiredLocked (rn_sweep R) ls) ws owner < ls_maxPerPrincipal ls"
    and t: "t0 \<le> rn_grant R" "rn_check R \<le> rn_grant R" and ok: "features_ok features"
  shows "lock_inv J lim clean (rn_grant R) ((cleanExpiredLocked (rn_sweep R) ls)
     \<lparr>ls_locks := AList.update (rn_uuid R) l (ls_locks (cleanExpiredLocked (rn_sweep R) ls)),
      ls_persist := map_option (AList.update (rn_uuid R) (stored_record J (record_of_lock l))) (ls_persist ls)\<rparr>)"
    (is "lock_inv J lim clean _ ?ls'")
proof -
  let ?s = "cleanExpiredLocked (rn_sweep R) ls"
  note later = lock_inv_later [OF inv t(1)]
  note k = lock_inv_keyed [OF later]
  have fields: "fl_LockID l = rn_uuid R" "fl_WorkspaceID l = ws" "fl_OwnerID l = owner"
    "fl_FeatureIDs l = granted_features J R ls ws features"
    by (simp_all add: l new_lock_def)
  have fresh': "rn_uuid R \<notin> fst ` set (ls_locks ?s)" using fresh(1) clean_keys(2) by blast
  have locks: "map_of (ls_locks ?ls') i = (if i = rn_uuid R then Some l else map_of (ls_locks ?s) i)" for i
    by (simp add: map_of_update_iff)
  have free: "\<not> conflict J l' l" if "map_of (ls_locks ?s) i = Some l'" "\<not> IsExpired l' (rn_grant R)" "fl_WorkspaceID l' = ws" for i l'
    using granted_features_free [of _ _ J R ls ws features] expired_mono [OF that(2) t(2)] that(1,3)
    by (fastforce simp: conflict_iff fields IsFeatureLocked_iff dest: map_of_SomeD)
  have "keyed ?ls'"
    using later fresh' k by (cases "ls_persist ls") (auto simp: keyed_def lock_inv_def locks fields map_of_update_iff
        distinct_keys_update split: if_splits)
  moreover have "exclusive J (rn_grant R) ?ls'"
    using later free fields
    by (auto simp: exclusive_def map_of_update_iff lock_inv_def conflict_sym [of J l] split: if_splits)
  moreover have "within_quota ?ls'"
    using later q fresh' by (auto simp: within_quota_def lock_inv_def workspace_locks_def principal_locks_def
        length_filter_update_new fields)
  moreover have "has_limits lim ?ls'" using later by (simp add: lock_inv_def has_limits_def)
  moreover have "row_matches (stored_record J (record_of_lock l)) l"
    by (rule stored_row_matches) (use later granted_features_ok [OF ok] in \<open>auto simp: lock_inv_def fields\<close>)
  moreover from this have "matched ?ls'"
    using later fresh(2) by (cases "ls_persist ls") (auto simp: matched_def lock_inv_def locks map_of_update_iff split: if_splits)
  moreover have "persisted (rn_grant R) ?ls'"
    using later by (cases "ls_persist ls") (auto simp: persisted_def lock_inv_def locks map_of_update_iff split: if_splits)
  moreover have "mirrored (rn_grant R) ?ls'" if clean
    using that later
    by (cases "ls_persist ls") (auto simp: mirrored_def lock_inv_def locks map_of_update_iff split: if_splits)
  ultimately show ?thesis using later by (simp add: lock_inv_def)
qed

lemma lock_inv_acquire:
  assumes "lock_inv J lim clean t ls" "lock_permitted t (Acquire R ws features expiry action owner) ls"
  shows "lock_inv J lim clean (rn_grant R) (lock_exec J lim (Acquire R ws features expiry action owner) ls)"
proof -
  from assms(2) have t: "t \<le> rn_sweep R" "rn_sweep R \<le> rn_check R" "rn_check R \<le> rn_grant R"
    and fresh: "rn_uuid R \<notin> fst ` set (ls_locks ls)"
      "case ls_persist ls of None \<Rightarrow> True | Some rows \<Rightarrow> rn_uuid R \<notin> fst ` set rows"
    and ok: "features_ok features"
    by auto
  note inv = lock_inv_clean [OF assms(1) t(1)]
  obtain ls' res al err where run: "AcquireLockOwnedContext J R ls ws features expiry action owner = (ls', res, al, err)"
    by (metis prod_cases4)
  from run fresh(1) show ?thesis
  proof (cases rule: acquire_cases)
    case refused
    with run show ?thesis
      using lock_inv_later [OF assms(1)] lock_inv_later [OF inv] t by auto
  next
    case (granted l)
    with run lock_inv_grant [OF inv fresh granted(3,7,8) _ _ ok] t show ?thesis by simp
  qed
qed

lemma lock_inv_exec:
  assumes inv: "lock_inv J lim clean t ls" and p: "lock_permitted t op ls"
  shows "lock_inv J lim (clean \<and> leaves_no_rows op) (lock_finish op t) (lock_exec J lim op ls)"
proof (cases op)
  case (Acquire R ws features expiry action owner)
  with lock_inv_acquire assms show ?thesis by simp
next
  case (Restart fault listed restored)
  let ?c = "clean \<and> leaves_no_rows op"
  have inv': "lock_inv J lim ?c t ls" by (rule lock_inv_weaken [OF inv]) simp
  have k: "keyed ls" using inv by (simp add: lock_inv_def)
  obtain a b c d where lim: "lim = (a, b, c, d)" by (cases lim)
  show ?thesis
  proof (cases "ls_persist ls = None \<or> fault \<noteq> None")
    case True
    with lock_inv_restart_empty [OF inv' lim refl, of restored fault listed] p Restart lim show ?thesis by auto
  next
    case False
    then obtain rows where rows: "ls_persist ls = Some rows" by auto
    with lock_inv_restart [OF inv' rows _ _ lim, of listed restored] p Restart lim False no_stale_mirrored [OF k]
    show ?thesis by auto
  qed
next
  case (Release_Owned fault lockID owner)
  with lock_inv_release(1) [OF lock_inv_weaken [OF inv], of "clean \<and> fault = None" fault lockID owner] show ?thesis by simp
next
  case (Release fault lockID)
  with lock_inv_release(2) [OF lock_inv_weaken [OF inv], of "clean \<and> fault = None" fault lockID] show ?thesis by simp
next
  case (Clear_Workspace fault ws)
  with lock_inv_clear [OF lock_inv_weaken [OF inv], of "clean \<and> fault = None" fault ws] show ?thesis by simp
next
  case (Tick fault swept pruned)
  with lock_inv_tick [OF inv] p show ?thesis by simp
qed

lemma lock_reachable_inv: "lock_reachable J lim clean t ls \<Longrightarrow> column_faithful J \<Longrightarrow> lock_inv J lim clean t ls"
proof (induction rule: lock_reachable.induct)
  case (start persistence a b c d t)
  then have "ls_locks (NewRuntimeState a b c d persistence None t t) = []"
    by (auto simp: NewRuntimeState_def NewLockStore_def setPersistence_def loadPersisted_def ListWFSLocks_def restore_def)
  with start show ?case
    by (auto simp: lock_inv_def keyed_def exclusive_def within_quota_def workspace_locks_def principal_locks_def
        has_limits_def persisted_def matched_def mirrored_def or_default_def)
qed (blast intro: lock_inv_exec)

lemma exec_durable: "(ls_persist (lock_exec J lim op ls) = None) = (ls_persist ls = None)"
proof -
  have rows: "(ls_persist (with_rows m f) = None) = (ls_persist m = None)" for m f
    by (simp add: with_rows_def split: option.split sum.split)
  have grant: "(ls_persist (fst (grant_lock J R m l al)) = None) = (ls_persist m = None)" for R m l al
    by (simp add: grant_lock_def Let_def split: option.split sum.split)
  show ?thesis
  proof (cases op)
    case (Acquire R ws features expiry action owner)
    then show ?thesis by (simp add: AcquireLockOwnedContext_def Let_def grant split: option.split)
  next
    case (Restart fault listed restored)
    then show ?thesis by (cases lim) simp
  next
    case (Release_Owned fault i owner)
    then show ?thesis by (simp add: ReleaseLockOwned_def deletePersistedLock_rows split: option.split)
  next
    case (Release fault i)
    then show ?thesis by (simp add: ReleaseLock_def deletePersistedLock_rows split: option.split)
  qed (simp_all add: runtime_tick_def CleanExpired_def RuntimeState_ClearWorkspace_def LockStore_ClearWorkspace_def rows)
qed

section \<open>The check of a mutation\<close>

lemma held_feature_None:
  "held_feature J ty affected tfs found = None \<longleftrightarrow>
     found = None \<and> (\<forall>(ty', fids) \<in> set tfs. sameLockTypeName J ty' ty \<longrightarrow> set fids \<inter> set affected = {})"
proof (induction tfs arbitrary: found)
  case (Cons tf tfs)
  have "List.find (\<lambda>fid. fid \<in> set affected) (snd tf) = None \<longleftrightarrow> set (snd tf) \<inter> set affected = {}"
    by (auto simp: find_None_iff)
  with Cons show ?case by (cases tf) (auto split: option.splits)
qed simp

lemma held_feature_covers:
  "held_feature J ty affected (fl_FeatureIDs l) None = None \<longleftrightarrow> (\<forall>f \<in> set affected. \<not> covers J l ty f)"
  by (fastforce simp: held_feature_None covers_iff)

lemma holding_lock_None:
  "holding_lock J now ws ty affected prov kls = None \<longleftrightarrow>
     (\<forall>(i, l) \<in> set kls. \<not> IsExpired l now \<and> fl_WorkspaceID l = ws \<and> fl_LockID l \<noteq> prov \<longrightarrow>
        (\<forall>f \<in> set affected. \<not> covers J l ty f))"
proof (induction kls)
  case (Cons kl kls)
  show ?case
    using Cons.IH held_feature_covers [of J ty affected "snd kl"]
    by (cases "held_feature J ty affected (fl_FeatureIDs (snd kl)) None") (auto simp: Let_def split_beta)
qed simp

lemma holding_lock_other: "holding_lock J now ws ty affected prov kls = Some (l, fid) \<Longrightarrow> fl_LockID l \<noteq> prov"
  by (induction kls) (auto simp: Let_def split: if_splits option.splits)

lemma CheckFeatureLocks_None:
  assumes "keyed ls"
  shows "CheckFeatureLocks J now ls ws ty affected prov = None \<longleftrightarrow>
     (\<forall>i l f. map_of (ls_locks ls) i = Some l \<and> \<not> IsExpired l now \<and> fl_WorkspaceID l = ws \<and> i \<noteq> prov \<and>
        f \<in> set affected \<longrightarrow> \<not> covers J l ty f)"
proof -
  have "CheckFeatureLocks J now ls ws ty affected prov = None \<longleftrightarrow>
      holding_lock J now ws ty affected prov (ls_locks ls) = None"
    by (auto simp: CheckFeatureLocks_def dest: holding_lock_other split: option.splits)
  also have "\<dots> \<longleftrightarrow> (\<forall>i l f. map_of (ls_locks ls) i = Some l \<and> \<not> IsExpired l now \<and> fl_WorkspaceID l = ws \<and>
      i \<noteq> prov \<and> f \<in> set affected \<longrightarrow> \<not> covers J l ty f)"
    using assms unfolding holding_lock_None keyed_def by (fastforce simp: map_of_eq_Some_iff)
  finally show ?thesis .
qed

section \<open>Guarding features over time\<close>

text \<open>The interface between the lock table and the writers: operations that keep a lock unless they
  give it up, and a check that refuses what another live lock covers.\<close>

primrec ops_permitted ::
    "(instant \<Rightarrow> 'op \<Rightarrow> 's \<Rightarrow> bool) \<Rightarrow> ('op \<Rightarrow> 's \<Rightarrow> 's) \<Rightarrow> ('op \<Rightarrow> instant \<Rightarrow> instant) \<Rightarrow> instant \<Rightarrow> 'op list \<Rightarrow> 's \<Rightarrow> bool" where
  "ops_permitted permitted exec finish t [] s = True"
| "ops_permitted permitted exec finish t (op # ops) s =
     (permitted t op s \<and> ops_permitted permitted exec finish (finish op t) ops (exec op s))"

locale feature_guard =
  fixes wf :: "instant \<Rightarrow> 's \<Rightarrow> bool"
    and permitted :: "instant \<Rightarrow> 'op \<Rightarrow> 's \<Rightarrow> bool"
    and exec :: "'op \<Rightarrow> 's \<Rightarrow> 's"
    and finish :: "'op \<Rightarrow> instant \<Rightarrow> instant"
    and holds :: "'s \<Rightarrow> 'id \<Rightarrow> 'l \<Rightarrow> bool"
    and live :: "'l \<Rightarrow> instant \<Rightarrow> bool"
    and protects :: "'l \<Rightarrow> 'f \<Rightarrow> bool"
    and gives_up :: "'op \<Rightarrow> 'id \<Rightarrow> 'l \<Rightarrow> bool"
    and admits :: "'s \<Rightarrow> instant \<Rightarrow> 'f list \<Rightarrow> 'id \<Rightarrow> bool"
  assumes exec_wf: "wf t s \<Longrightarrow> permitted t op s \<Longrightarrow> wf (finish op t) (exec op s)"
    and finish_mono: "permitted t op s \<Longrightarrow> t \<le> finish op t"
    and exec_keeps: "wf t s \<Longrightarrow> permitted t op s \<Longrightarrow> holds s i l \<Longrightarrow> live l (finish op t) \<Longrightarrow> \<not> gives_up op i l \<Longrightarrow>
      holds (exec op s) i l"
    and live_mono: "live l t \<Longrightarrow> u \<le> t \<Longrightarrow> live l u"
    and admits_exclusive: "wf t s \<Longrightarrow> holds s i l \<Longrightarrow> live l now \<Longrightarrow> f \<in> set fs \<Longrightarrow> protects l f \<Longrightarrow> i \<noteq> j \<Longrightarrow>
      \<not> admits s now fs j"
begin

lemma final_time_mono:
  "ops_permitted permitted exec finish t ops s \<Longrightarrow> t \<le> fold finish ops t"
  by (induction ops arbitrary: t s) (auto dest: finish_mono intro: order_trans)

lemma lock_kept:
  assumes "wf t s" "ops_permitted permitted exec finish t ops s" "holds s i l"
    and "live l (fold finish ops t)" "\<forall>op \<in> set ops. \<not> gives_up op i l"
  shows "wf (fold finish ops t) (fold exec ops s) \<and> holds (fold exec ops s) i l"
  using assms
proof (induction ops arbitrary: t s)
  case (Cons op ops)
  have "finish op t \<le> fold finish (op # ops) t"
    using Cons.prems(2) final_time_mono [of "finish op t" ops "exec op s"] by simp
  then have "live l (finish op t)" using Cons.prems(4) live_mono by blast
  with Cons.prems exec_keeps exec_wf have "holds (exec op s) i l" "wf (finish op t) (exec op s)" by auto
  with Cons show ?case by simp
qed simp

lemma lock_protects:
  assumes "wf t s" "ops_permitted permitted exec finish t ops s" "holds s i l"
    and "fold finish ops t \<le> now" "live l now" "\<forall>op \<in> set ops. \<not> gives_up op i l"
    and "protects l f" "f \<in> set fs" "i \<noteq> j"
  shows "\<not> admits (fold exec ops s) now fs j"
  using lock_kept [OF assms(1-3) live_mono [OF assms(5,4)] assms(6)] admits_exclusive assms(5,7-9) by blast

end

text \<open>The lock store is such a table: a feature is a type name with a local id. A lock lives until its expiry as a row
  records it. It is given up by a release of its owner, by the deletion of its workspace, and by a start that
  has no rows or cannot read them.\<close>

definition lock_live :: "FeatureLock \<Rightarrow> instant \<Rightarrow> bool" where
  "lock_live l t = (timestamp (fl_ExpiresAt l) > t)"

fun lock_gives_up :: "bool \<Rightarrow> lock_op \<Rightarrow> string \<Rightarrow> FeatureLock \<Rightarrow> bool" where
  "lock_gives_up durable (Release_Owned fault j owner) i l = (j = i \<and> (fl_OwnerID l = [] \<or> fl_OwnerID l = owner))"
| "lock_gives_up durable (Release fault j) i l = (j = i)"
| "lock_gives_up durable (Clear_Workspace fault ws) i l = (fl_WorkspaceID l = ws)"
| "lock_gives_up durable (Restart fault listed restored) i l = (\<not> durable \<or> fault \<noteq> None)"
| "lock_gives_up durable _ i l = False"

definition store_admits ::
    "key_codec \<Rightarrow> LockStore \<Rightarrow> instant \<Rightarrow> (string \<times> string \<times> string) list \<Rightarrow> string \<Rightarrow> bool" where
  "store_admits J ls now fs prov =
     (\<forall>(ws, ty, fid) \<in> set fs. CheckFeatureLocks J now ls ws ty [fid] prov = None)"

definition lock_protects_feature :: "key_codec \<Rightarrow> FeatureLock \<Rightarrow> string \<times> string \<times> string \<Rightarrow> bool" where
  "lock_protects_feature J l f = (case f of (ws, ty, fid) \<Rightarrow> fl_WorkspaceID l = ws \<and> covers J l ty fid)"

text \<open>The store holds a lock, as granted or as restored.\<close>

definition holds_lock :: "LockStore \<Rightarrow> string \<Rightarrow> FeatureLock \<Rightarrow> bool" where
  "holds_lock ls i l = (\<exists>l'. GetLock ls i = Some l' \<and> same_lock l l')"

lemma same_lock_live: "same_lock l l' \<Longrightarrow> lock_live l' t = lock_live l t"
  by (simp add: same_lock_def lock_live_def)

lemma live_not_expired: "lock_live l t \<Longrightarrow> \<not> IsExpired l t"
  using timestamp_simps(1) [of "fl_ExpiresAt l"] unfolding lock_live_def IsExpired_def by linarith

lemma acquire_keeps:
  assumes "lock_inv J lim clean t ls" "lock_permitted t (Acquire R ws features expiry action owner) ls"
    "GetLock ls i = Some l" "lock_live l (rn_grant R)"
  shows "GetLock (lock_exec J lim (Acquire R ws features expiry action owner) ls) i = Some l"
proof -
  let ?ls = "cleanExpiredLocked (rn_sweep R) ls"
  have fresh: "rn_uuid R \<notin> fst ` set (ls_locks ls)" using assms(2) by auto
  have i: "i \<noteq> rn_uuid R" using assms(3) fresh by (auto simp: GetLock_def map_of_eq_None_iff [symmetric])
  have "\<not> IsExpired l (rn_sweep R)" using expired_mono [OF live_not_expired [OF assms(4)]] assms(2) by auto
  then have swept: "GetLock ?ls i = Some l"
    using assms(3) lock_inv_keyed(1) [OF assms(1)] by (simp add: GetLock_def map_of_clean)
  obtain ls' res al err where run: "AcquireLockOwnedContext J R ls ws features expiry action owner = (ls', res, al, err)"
    by (metis prod_cases4)
  from run fresh show ?thesis
  proof (cases rule: acquire_cases)
    case refused
    with run swept assms(3) show ?thesis by auto
  next
    case (granted l')
    with run swept i show ?thesis by (simp add: GetLock_def map_of_update_iff)
  qed
qed

lemma exec_keeps_lock:
  assumes inv: "lock_inv J lim clean t ls" and p: "lock_permitted t op ls" and l: "GetLock ls i = Some l"
    and live: "lock_live l (lock_finish op t)" and "\<not> lock_gives_up (ls_persist ls \<noteq> None) op i l"
  shows "holds_lock (lock_exec J lim op ls) i l"
proof -
  note k = lock_inv_keyed [OF inv]
  have rows: "ls_locks (with_rows m f) = ls_locks m" for m f
    by (auto simp: with_rows_def split: option.splits sum.splits)
  have same: "GetLock (lock_exec J lim op ls) i = Some l \<Longrightarrow> ?thesis" by (auto simp: holds_lock_def)
  show ?thesis
  proof (cases op)
    case (Acquire R ws features expiry action owner)
    with acquire_keeps assms show ?thesis by (intro same) simp
  next
    case (Release_Owned fault j owner)
    with assms show ?thesis
      by (intro same) (auto simp: ReleaseLockOwned_def deletePersistedLock_rows GetLock_def map_of_delete_iff split: option.splits)
  next
    case (Release fault j)
    with assms show ?thesis
      by (intro same) (auto simp: ReleaseLock_def deletePersistedLock_rows GetLock_def map_of_delete_iff split: option.splits)
  next
    case (Tick fault swept pruned)
    have "\<not> IsExpired l swept" using expired_mono [OF live_not_expired [OF live]] p Tick by auto
    with l k(1) Tick show ?thesis
      by (intro same) (simp add: runtime_tick_def CleanExpired_def GetLock_def map_of_clean rows)
  next
    case (Clear_Workspace fault ws)
    with assms k(1) rows show ?thesis
      by (intro same) (auto simp: RuntimeState_ClearWorkspace_def LockStore_ClearWorkspace_def GetLock_def map_of_filter_key)
  next
    case (Restart fault listed restored)
    obtain a b c d where lim: "lim = (a, b, c, d)" by (cases lim)
    obtain rows where r: "ls_persist ls = Some rows" "fault = None" "listed \<le> restored" "t \<le> restored" using assms(5) p Restart by auto
    have kd: "keyed ls" using inv by (simp add: lock_inv_def)
    obtain q where q: "map_of rows i = Some q" using inv live l r Restart by (fastforce simp: lock_inv_def persisted_def GetLock_def lock_live_def)
    have m: "row_matches q l" using inv l q r(1) by (auto simp: lock_inv_def matched_def GetLock_def)
    then have "restored < lr_ExpiresAt q" using live Restart by (simp add: row_matches_def lock_live_def)
    with q m row_matches_restored [OF m] show ?thesis
      using Restart lim r restart_locks [OF kd r(1, 3)] by (simp add: holds_lock_def GetLock_def)
  qed
qed

lemma exec_holds_lock:
  assumes "lock_inv J lim clean t ls" "lock_permitted t op ls" "holds_lock ls i l" "lock_live l (lock_finish op t)"
    and "\<not> lock_gives_up (ls_persist ls \<noteq> None) op i l"
  shows "holds_lock (lock_exec J lim op ls) i l"
proof -
  obtain l' where l': "GetLock ls i = Some l'" "same_lock l l'" using assms(3) by (auto simp: holds_lock_def)
  have "\<not> lock_gives_up (ls_persist ls \<noteq> None) op i l'" using assms(5) l'(2) by (cases op) (auto simp: same_lock_def)
  from exec_keeps_lock [OF assms(1, 2) l'(1) _ this] assms(4) l'(2)
  have "holds_lock (lock_exec J lim op ls) i l'" by (simp add: same_lock_live)
  with l'(2) show ?thesis by (auto simp: holds_lock_def intro: same_lock_trans)
qed

lemma held_lock_refuses:
  assumes "lock_inv J lim clean t ls" "holds_lock ls i l" "lock_live l now" "covers J l ty fid" "fl_WorkspaceID l = ws" "fid \<in> set affected" "i \<noteq> j"
  shows "CheckFeatureLocks J now ls ws ty affected j \<noteq> None"
proof -
  obtain l' where l': "GetLock ls i = Some l'" "same_lock l l'" using assms(2) by (auto simp: holds_lock_def)
  have "keyed ls" using assms(1) by (simp add: lock_inv_def)
  note check = CheckFeatureLocks_None [OF this, of J now ws ty affected j]
  have "covers J l' ty fid" "fl_WorkspaceID l' = ws" "\<not> IsExpired l' now"
    using assms(3-5) l'(2) live_not_expired [of l' now] by (auto simp: covers_iff same_lock_def lock_live_def)
  with check l'(1) assms(6, 7) show ?thesis unfolding GetLock_def by metis
qed

interpretation locks: feature_guard
  "\<lambda>t ls. lock_inv J lim False t ls \<and> (ls_persist ls \<noteq> None) = durable" lock_permitted "lock_exec J lim" lock_finish
  holds_lock lock_live "lock_protects_feature J" "lock_gives_up durable" "store_admits J"
  for J lim durable
proof unfold_locales
  show "t \<le> lock_finish op t" if "lock_permitted t op s" for t op s
    using that by (cases op) auto
  show "\<not> store_admits J s now fs j" if "lock_inv J lim False t s \<and> (ls_persist s \<noteq> None) = durable" "holds_lock s i l" "lock_live l now"
    "f \<in> set fs" "lock_protects_feature J l f" "i \<noteq> j" for t s i l now f fs j
  proof -
    obtain ws ty fid where f: "f = (ws, ty, fid)" by (metis prod_cases3)
    have "CheckFeatureLocks J now s ws ty [fid] j \<noteq> None"
      by (rule held_lock_refuses [OF conjunct1 [OF that(1)] that(2, 3)]) (use that(5, 6) f in \<open>auto simp: lock_protects_feature_def\<close>)
    with that(4) f show ?thesis by (force simp: store_admits_def)
  qed
  show "lock_inv J lim False (lock_finish op t) (lock_exec J lim op s) \<and> (ls_persist (lock_exec J lim op s) \<noteq> None) = durable"
    if "lock_inv J lim False t s \<and> (ls_persist s \<noteq> None) = durable" "lock_permitted t op s" for t s op
    using lock_inv_exec [of J lim False t s op] that exec_durable by simp
  show "holds_lock (lock_exec J lim op s) i l"
    if "lock_inv J lim False t s \<and> (ls_persist s \<noteq> None) = durable" "lock_permitted t op s" "holds_lock s i l" "lock_live l (lock_finish op t)"
      "\<not> lock_gives_up durable op i l" for t s op i l
    using exec_holds_lock [of J lim False t s op i l] that by auto
qed (auto simp: lock_live_def)

end
