(* ===== verification/Wfs_Lock_Properties.thy ===== *)
theory Wfs_Lock_Properties
  imports Wfs_Lock_Invariants
begin

text \<open>
  The properties of the WFS feature locks: live locks never share a feature; an acquisition with
  action ALL is all or nothing and one with SOME takes what is free; a granted lock protects its
  features until it is released or expires; granted locks survive a restart; the quotas hold.
\<close>

section \<open>A small history\<close>

text \<open>A codec with the documented behaviour (what is marshalled is unmarshalled, in some order of the keys) and a history
  of two acquisitions, for the instances of the theorems.\<close>

definition line_codec :: key_codec where
  "line_codec =
     \<lparr>kc_digest = (\<lambda>s. s), kc_marshal = (\<lambda>i. li_Source i @ CHR 10 # li_Name i),
      kc_unmarshal = (\<lambda>s. if CHR 10 \<in> set s
        then Some \<lparr>li_Source = takeWhile (\<lambda>c. c \<noteq> CHR 10) s, li_Name = tl (dropWhile (\<lambda>c. c \<noteq> CHR 10) s)\<rparr>
        else None),
      kc_column = rev\<rparr>"

definition demo_run :: "instant \<Rightarrow> string \<Rightarrow> run" where
  "demo_run t uuid =
     \<lparr>rn_gate = None, rn_sweep = t, rn_check = t, rn_grant = t, rn_uuid = uuid, rn_fault = None\<rparr>"

definition demo_ops :: "lock_op list" where
  "demo_ops =
     [Acquire (demo_run 1 ''A'') ''w'' [(''roads'', [''1'', ''2''])] 60 ''ALL'' ''u1'',
      Acquire (demo_run 2 ''B'') ''w'' [(''roads'', [''2'', ''3''])] 60 ''SOME'' ''u2'']"

definition demo_limits :: limits where "demo_limits = (0, 0, 0, 0)"

definition demo_start :: LockStore where
  "demo_start = NewRuntimeState 0 0 0 0 (Some []) None 0 0"

definition demo_store :: LockStore where
  "demo_store = fold (lock_exec line_codec demo_limits) demo_ops demo_start"

definition demo_lock :: "string \<Rightarrow> string list \<Rightarrow> instant \<Rightarrow> string \<Rightarrow> FeatureLock" where
  "demo_lock i fids t owner =
     \<lparr>fl_LockID = i, fl_WorkspaceID = ''w'', fl_FeatureIDs = [(''roads'', fids)], fl_ExpiresAt = t + 60 * second,
      fl_OwnerID = owner, fl_CreatedAt = t\<rparr>"

lemma demo_store_locks:
  "ls_locks demo_store = [(''A'', demo_lock ''A'' [''1'', ''2''] 1 ''u1''), (''B'', demo_lock ''B'' [''3''] 2 ''u2'')]"
  by code_simp

lemma line_codec_faithful: "column_faithful line_codec"
  by (simp add: column_faithful_def line_codec_def)

lemma demo_start_reachable: "lock_reachable J demo_limits True 0 demo_start"
  using lock_reachable.start [of "Some []" demo_limits 0 0 0 0 J 0]
  by (simp add: demo_start_def demo_limits_def)

lemma reachable_ops:
  "lock_reachable J lim clean t ls \<Longrightarrow> ops_permitted lock_permitted (lock_exec J lim) lock_finish t ops ls \<Longrightarrow>
   lock_reachable J lim (clean \<and> list_all leaves_no_rows ops) (fold lock_finish ops t) (fold (lock_exec J lim) ops ls)"
proof (induction ops arbitrary: clean t ls)
  case (Cons op ops)
  have "lock_reachable J lim (clean \<and> leaves_no_rows op) (lock_finish op t) (lock_exec J lim op ls)"
    using Cons.prems by (intro lock_reachable.op) simp_all
  from Cons.IH [OF this] Cons.prems(2) show ?case by (simp add: conj_assoc)
qed simp

lemma demo_reachable: "lock_reachable line_codec demo_limits True 2 demo_store"
proof -
  have "ops_permitted lock_permitted (lock_exec line_codec demo_limits) lock_finish 0 demo_ops demo_start"
    by code_simp
  from reachable_ops [OF demo_start_reachable this] show ?thesis
    by (simp add: demo_store_def demo_ops_def demo_run_def)
qed

section \<open>Properties\<close>

text \<open>
  C13. Feature locks are exclusive: in every state the lock store can reach, two different locks of a
  workspace that have not expired never share a feature, whatever the iteration orders, the failing
  database writes and the interleaving of acquisitions, releases, clean-ups, workspace deletions and restarts,
  as long as no process starts with readable rows while there is a stale one, the unexpired row of a lock that the process
  before did not hold (a row whose deletion failed, or one that a start in between could not read). Without this
  condition \<open>stale_row_revives_lock\<close> is a counterexample. The features of a request are valid UTF-8.
\<close>

theorem live_locks_exclusive:
  assumes "column_faithful J" "lock_reachable J lim clean t ls"
    and "GetLock ls i = Some l1" "GetLock ls j = Some l2" "i \<noteq> j"
    and "\<not> IsExpired l1 t" "\<not> IsExpired l2 t" "fl_WorkspaceID l1 = fl_WorkspaceID l2"
    and "(ty1, fids1) \<in> set (fl_FeatureIDs l1)" "(ty2, fids2) \<in> set (fl_FeatureIDs l2)"
    and "sameLockTypeName J ty1 ty2"
  shows "set fids1 \<inter> set fids2 = {}"
proof -
  have "exclusive J t ls" using lock_reachable_inv [OF assms(2, 1)] by (simp add: lock_inv_def)
  then have "\<not> conflict J l1 l2" using assms by (auto simp: exclusive_def GetLock_def)
  then show ?thesis using assms(9-11) by (auto simp: conflict_iff covers_iff)
qed

theorem live_locks_exclusive_witness:
  "GetLock demo_store ''A'' = Some (demo_lock ''A'' [''1'', ''2''] 1 ''u1'') \<and>
   GetLock demo_store ''B'' = Some (demo_lock ''B'' [''3''] 2 ''u2'') \<and> set [''1'', ''2''] \<inter> set [''3''] = {}"
proof -
  have A: "GetLock demo_store ''A'' = Some (demo_lock ''A'' [''1'', ''2''] 1 ''u1'')"
    and B: "GetLock demo_store ''B'' = Some (demo_lock ''B'' [''3''] 2 ''u2'')"
    by (simp_all add: GetLock_def demo_store_locks)
  have "set [''1'', ''2''] \<inter> set [''3''] = {}"
    by (rule live_locks_exclusive [OF line_codec_faithful demo_reachable A B, of "''roads''" _ "''roads''"])
      (simp_all add: demo_lock_def IsExpired_def)
  with A B show ?thesis by blast
qed

text \<open>
  A row that could not be deleted revives its lock: the owner releases the lock on feature 1, the deletion of its
  row fails, another principal locks the feature, and the next process holds both locks.
\<close>

definition stale_ops :: "lock_op list" where
  "stale_ops =
     [Acquire (demo_run 1 ''A'') ''w'' [(''roads'', [''1''])] 60 ''ALL'' ''u1'', Release_Owned (Some ''busy'') ''A'' ''u1'',
      Acquire (demo_run 2 ''B'') ''w'' [(''roads'', [''1''])] 60 ''ALL'' ''u2'', Restart None 3 3]"

theorem stale_row_revives_lock:
  "map (\<lambda>(i, l). (i, fl_OwnerID l, fl_FeatureIDs l, IsExpired l 3)) (ls_locks (fold (lock_exec line_codec demo_limits) stale_ops demo_start))
     = [(''A'', ''u1'', [(''roads'', [''1''])], False), (''B'', ''u2'', [(''roads'', [''1''])], False)]
   \<and> \<not> ops_permitted lock_permitted (lock_exec line_codec demo_limits) lock_finish 0 stale_ops demo_start"
  by code_simp

text \<open>
  What an acquisition does. Refused, it leaves the locks as they were up to the sweep of expired
  ones, and names an error. Granted, the lock is in the store, lives at least one and at most the
  configured number of seconds, has at most the configured number of features, and none of its
  features was held by a live lock at the check. With action ALL it has exactly the requested
  features; with SOME exactly those whose display id is not reported as locked, and the report is
  the display ids of the requested features that were held.
\<close>

theorem acquire_outcome:
  assumes "AcquireLockOwnedContext J R ls ws features expiry action owner = (ls', res, al, err)"
    and "rn_uuid R \<notin> fst ` set (ls_locks ls)" and "ls_maxExpirySec ls > 0"
  shows "(res = None \<and> err \<noteq> None \<and> ls_persist ls' = ls_persist ls \<and>
      (ls_locks ls' = ls_locks ls \<or> ls_locks ls' = filter (\<lambda>(_, l). \<not> IsExpired l (rn_sweep R)) (ls_locks ls))) \<or>
    (\<exists>l. res = Some l \<and> err = None \<and> GetLock ls' (rn_uuid R) = Some l \<and> fl_LockID l = rn_uuid R \<and>
      fl_WorkspaceID l = ws \<and> fl_OwnerID l = owner \<and>
      rn_grant R + second \<le> fl_ExpiresAt l \<and> fl_ExpiresAt l \<le> rn_grant R + ls_maxExpirySec ls * second \<and>
      total_features features \<le> ls_maxFeatures ls \<and>
      (\<forall>ty fids fid. (ty, fids) \<in> set (fl_FeatureIDs l) \<and> fid \<in> set fids \<longrightarrow>
         \<not> IsFeatureLocked J (rn_check R) (CleanExpired (rn_sweep R) ls) ws ty fid) \<and>
      (action = LockActionAll \<longrightarrow> fl_FeatureIDs l = features \<and> al = []) \<and>
      fl_FeatureIDs l = remove_locked J al features \<and>
      set al = {display_id J ty fid | ty fid fids. (ty, fids) \<in> set features \<and> fid \<in> set fids \<and>
         IsFeatureLocked J (rn_check R) (CleanExpired (rn_sweep R) ls) ws ty fid})"
proof -
  have clean: "ls_locks (cleanExpiredLocked (rn_sweep R) ls) = filter (\<lambda>(_, l). \<not> IsExpired l (rn_sweep R)) (ls_locks ls)"
    by (simp add: cleanExpiredLocked_def Let_def)
  have al: "set (already_locked J now s ws features) = {display_id J ty fid | ty fid fids.
      (ty, fids) \<in> set features \<and> fid \<in> set fids \<and> IsFeatureLocked J now s ws ty fid}" for now s
    by (fastforce simp: already_locked_def)
  have nil: "remove_locked J [] features = features" by (induction features) (auto simp: remove_locked_def)
  from assms(1,2) show ?thesis
  proof (cases rule: acquire_cases)
    case refused
    then show ?thesis using clean by auto
  next
    case (granted l)
    have feats: "fl_FeatureIDs l = remove_locked J al features"
      using granted(3,4) nil by (auto simp: new_lock_def granted_features_def Let_def)
    have expiry: "1 \<le> lock_expiry ls expiry" "lock_expiry ls expiry \<le> ls_maxExpirySec ls"
      using assms(3) by (auto simp: lock_expiry_def Let_def DefaultLockExpiry_def)
    have free: "\<not> IsFeatureLocked J (rn_check R) (CleanExpired (rn_sweep R) ls) ws ty fid"
      if "(ty, fids) \<in> set (fl_FeatureIDs l)" "fid \<in> set fids" for ty fids fid
      using that granted_features_free granted(3) by (simp add: new_lock_def CleanExpired_def)
    have "GetLock ls' (rn_uuid R) = Some l" using granted(9) by (simp add: GetLock_def map_of_update_iff)
    moreover have "fl_LockID l = rn_uuid R" "fl_WorkspaceID l = ws" "fl_OwnerID l = owner"
      "fl_ExpiresAt l = rn_grant R + lock_expiry ls expiry * second"
      using granted(3) by (simp_all add: new_lock_def)
    moreover have "set al = {display_id J ty fid | ty fid fids. (ty, fids) \<in> set features \<and> fid \<in> set fids \<and>
         IsFeatureLocked J (rn_check R) (CleanExpired (rn_sweep R) ls) ws ty fid}"
      using granted(4) al by (simp add: CleanExpired_def)
    ultimately show ?thesis
      using granted(1,2,5,6) feats free expiry nil by auto
  qed
qed

theorem acquire_outcome_witness:
  "\<exists>ls' l. AcquireLockOwnedContext line_codec (demo_run 3 ''C'') demo_store ''w'' [(''roads'', [''4''])] 60 ''ALL'' ''u1'' =
     (ls', Some l, [], None) \<and> fl_FeatureIDs l = [(''roads'', [''4''])] \<and> fl_ExpiresAt l \<le> 3 + 3600 * second"
proof -
  obtain ls' res al err where run: "AcquireLockOwnedContext line_codec (demo_run 3 ''C'') demo_store ''w''
      [(''roads'', [''4''])] 60 ''ALL'' ''u1'' = (ls', res, al, err)"
    by (metis prod_cases4)
  have res: "fst (snd (AcquireLockOwnedContext line_codec (demo_run 3 ''C'') demo_store ''w''
      [(''roads'', [''4''])] 60 ''ALL'' ''u1'')) \<noteq> None"
    by code_simp
  have max: "ls_maxExpirySec demo_store = 3600" by code_simp
  have fresh: "rn_uuid (demo_run 3 ''C'') \<notin> fst ` set (ls_locks demo_store)" by (simp add: demo_store_locks demo_run_def)
  from acquire_outcome [OF run fresh] max res run show ?thesis
    by (auto simp: LockActionAll_def demo_run_def)
qed


definition busy_ops :: "lock_op list" where
  "busy_ops =
     [Release_Owned None ''A'' ''u2'', Restart None 2 2, Acquire (demo_run 3 ''B'') ''w'' [(''roads'', [''1''])] 60 ''SOME'' ''u2'']"


text \<open>What a lock is after a restart.\<close>

definition restored_as :: "FeatureLock \<Rightarrow> FeatureLock \<Rightarrow> bool" where
  "restored_as l l' =
     (fl_LockID l' = fl_LockID l \<and> fl_WorkspaceID l' = fl_WorkspaceID l \<and> fl_OwnerID l' = fl_OwnerID l \<and>
      set (fl_FeatureIDs l') = set (fl_FeatureIDs l) \<and> fl_CreatedAt l' = timestamp (fl_CreatedAt l) \<and>
      fl_ExpiresAt l' = timestamp (fl_ExpiresAt l))"

lemma row_restored: "row_matches r l \<Longrightarrow> restored_as l (lock_of_record r)"
  by (simp add: row_matches_def restored_as_def lock_of_record_def)



text \<open>
  The quotas hold in every reachable state: a workspace has at most the configured number of
  locks (1000 where the configuration names none) and a principal at most the configured number in
  a workspace (100).
\<close>

theorem lock_quotas:
  assumes "column_faithful J" "lock_reachable J (a, b, c, d) clean t ls"
  shows "workspace_locks ls ws \<le> (if b \<le> 0 then 1000 else b) \<and>
    principal_locks ls ws owner \<le> (if c \<le> 0 then 100 else c)"
  using lock_reachable_inv [OF assms(2, 1)] by (auto simp: lock_inv_def within_quota_def has_limits_def or_default_def)

theorem lock_quotas_witness: "workspace_locks demo_store ''w'' \<le> 1000 \<and> principal_locks demo_store ''w'' ''u1'' \<le> 100"
  using lock_quotas [OF line_codec_faithful demo_reachable [unfolded demo_limits_def], of "''w''" "''u1''"] by simp

text \<open>
  The check of a mutation is exact: it passes if and only if no live lock of the workspace other
  than the presented one covers an affected feature; without a presented lock the error asks for
  the parameter, with another one it calls the presented one invalid.
\<close>

theorem CheckFeatureLocks_exact:
  assumes "column_faithful J" "lock_reachable J lim clean t ls"
  shows "(CheckFeatureLocks J now ls ws ty affected providedLockId = None \<longleftrightarrow>
      (\<forall>i l fid. GetLock ls i = Some l \<and> \<not> IsExpired l now \<and> fl_WorkspaceID l = ws \<and> i \<noteq> providedLockId \<and>
         fid \<in> set affected \<longrightarrow> \<not> covers J l ty fid)) \<and>
    (\<forall>e. CheckFeatureLocks J now ls ws ty affected providedLockId = Some e \<longrightarrow>
       re_Code e = (if providedLockId = [] then ''MissingParameterValue'' else ''InvalidParameterValue''))"
proof -
  have "keyed ls" using lock_reachable_inv [OF assms(2, 1)] by (simp add: lock_inv_def)
  from CheckFeatureLocks_None [OF this] show ?thesis
    by (auto simp: CheckFeatureLocks_def GetLock_def request_error_def split: option.splits if_splits)
qed

theorem CheckFeatureLocks_exact_witness:
  "CheckFeatureLocks line_codec 5 demo_store ''w'' ''roads'' [''3''] ''B'' = None \<and>
   CheckFeatureLocks line_codec 5 demo_store ''w'' ''roads'' [''1''] ''B'' \<noteq> None"
proof -
  have A: "GetLock demo_store ''A'' = Some (demo_lock ''A'' [''1'', ''2''] 1 ''u1'')"
    by (simp add: GetLock_def demo_store_locks)
  have c: "covers line_codec (demo_lock ''A'' [''1'', ''2''] 1 ''u1'') ''roads'' ''1''" by code_simp
  have l: "\<not> IsExpired (demo_lock ''A'' [''1'', ''2''] 1 ''u1'') 5" "fl_WorkspaceID (demo_lock ''A'' [''1'', ''2''] 1 ''u1'') = ''w''"
    by (simp_all add: demo_lock_def IsExpired_def)
  have "''A'' \<noteq> ''B''" "''1'' \<in> set [''1'']" by simp_all
  with A c l have "CheckFeatureLocks line_codec 5 demo_store ''w'' ''roads'' [''1''] ''B'' \<noteq> None"
    using CheckFeatureLocks_exact [OF line_codec_faithful demo_reachable, of 5 "''w''" "''roads''" "[''1'']" "''B''"] by metis
  moreover have "CheckFeatureLocks line_codec 5 demo_store ''w'' ''roads'' [''3''] ''B'' = None" by code_simp
  ultimately show ?thesis by blast
qed

text \<open>
  With action SOME a feature that nobody holds can be left out: the features to leave out are
  compared by display id, the local type name with the local id, so a held feature of one source
  also takes the free feature with the same local id of another source whose type has the same
  local name out of the request.
\<close>

theorem some_skips_free_feature:
  assumes "AcquireLockOwnedContext J R ls ws features expiry LockActionSome owner = (ls', Some l, al, None)"
    and "rn_uuid R \<notin> fst ` set (ls_locks ls)"
    and "(a, fas) \<in> set features" "fid \<in> set fas" "(b, fbs) \<in> set features" "fid \<in> set fbs"
    and "lockDisplayName J a = lockDisplayName J b"
    and "IsFeatureLocked J (rn_check R) (CleanExpired (rn_sweep R) ls) ws a fid"
    and "\<not> IsFeatureLocked J (rn_check R) (CleanExpired (rn_sweep R) ls) ws b fid"
  shows "display_id J b fid \<in> set al \<and> (\<forall>fids. (b, fids) \<in> set (fl_FeatureIDs l) \<longrightarrow> fid \<notin> set fids)"
proof -
  from assms(1,2) show ?thesis
  proof (cases rule: acquire_cases)
    case (granted l')
    then have al: "al = already_locked J (rn_check R) (CleanExpired (rn_sweep R) ls) ws features"
      and l: "fl_FeatureIDs l = (if al \<noteq> [] then remove_locked J al features else features)"
      by (simp_all add: CleanExpired_def new_lock_def granted_features_def Let_def)
    have "display_id J a fid \<in> set al"
      using assms(3,4,8) unfolding al already_locked_def by force
    moreover have "display_id J a fid = display_id J b fid" using assms(7) by (simp add: display_id_def)
    ultimately show ?thesis using l by (auto simp: remove_locked_def split: if_splits)
  qed simp
qed

lemma decode_sourceLockKey:
  assumes "kc_unmarshal J (kc_marshal J i) = Some i" "i = \<lparr>li_Source = kc_digest J (s @ ''/'' @ y), li_Name = name\<rparr>"
    "kc_digest J (s @ ''/'' @ y) \<noteq> []"
  shows "decodeLockKey J (sourceLockKey J s y None name) = Some i"
  using assms by (simp add: decodeLockKey_def sourceLockKey_def Let_def)

theorem some_skips_free_feature_witness:
  "\<exists>ls R a b ls' l. AcquireLockOwnedContext line_codec R ls ''w'' [(a, [''1'']), (b, [''1''])] 60 LockActionSome ''u2'' =
      (ls', Some l, [''Roads.1''], None) \<and>
    \<not> IsFeatureLocked line_codec (rn_check R) ls ''w'' b ''1'' \<and> (\<forall>fids. (b, fids) \<in> set (fl_FeatureIDs l) \<longrightarrow> ''1'' \<notin> set fids)"
proof -
  define a where "a = sourceLockKey line_codec ''s1'' ''t'' None ''x:Roads''"
  define b where "b = sourceLockKey line_codec ''s2'' ''t'' None ''y:Roads''"
  define held where "held = \<lparr>fl_LockID = ''A'', fl_WorkspaceID = ''w'', fl_FeatureIDs = [(a, [''1''])],
    fl_ExpiresAt = 60 * second, fl_OwnerID = ''u1'', fl_CreatedAt = 0\<rparr>"
  define ls where "ls = (NewLockStore 0 0 0 0)\<lparr>ls_locks := [(''A'', held)]\<rparr>"
  let ?R = "demo_run 2 ''B''" and ?f = "[(a, [''1'']), (b, [''1''])]"
  have da: "decodeLockKey line_codec a = Some \<lparr>li_Source = ''s1/t'', li_Name = ''x:Roads''\<rparr>"
    unfolding a_def by (rule decode_sourceLockKey) (simp_all add: line_codec_def)
  have db: "decodeLockKey line_codec b = Some \<lparr>li_Source = ''s2/t'', li_Name = ''y:Roads''\<rparr>"
    unfolding b_def by (rule decode_sourceLockKey) (simp_all add: line_codec_def)
  have names: "lockDisplayName line_codec a = ''Roads''" "lockDisplayName line_codec b = ''Roads''"
    by (simp_all add: lockDisplayName_def da db local_part_def)
  have clean: "CleanExpired 2 ls = ls" by (simp add: CleanExpired_def cleanExpiredLocked_def ls_def held_def
        IsExpired_def NewLockStore_def)
  have locked: "IsFeatureLocked line_codec 2 ls ''w'' a ''1''" "\<not> IsFeatureLocked line_codec 2 ls ''w'' b ''1''"
    by (simp_all add: IsFeatureLocked_def ls_def held_def IsExpired_def covers_def sameLockTypeName_def da db)
  have al: "already_locked line_codec 2 ls ''w'' ?f = [''Roads.1'']"
    using locked by (simp add: already_locked_def display_id_def names)
  have quotas: "total_features ?f = 2" "workspace_locks ls ''w'' = 1" "principal_locks ls ''w'' ''u2'' = 0"
    "ls_maxFeatures ls = 10000" "ls_maxPerWorkspace ls = 1000" "ls_maxPerPrincipal ls = 100" "ls_persist ls = None"
    by (simp_all add: total_features_def workspace_locks_def principal_locks_def ls_def held_def NewLockStore_def or_default_def)
  obtain ls' l where run: "AcquireLockOwnedContext line_codec ?R ls ''w'' ?f 60 LockActionSome ''u2'' = (ls', Some l, [''Roads.1''], None)"
    using clean al quotas
    by (simp add: AcquireLockOwnedContext_def Let_def demo_run_def CleanExpired_def grant_lock_def
        LockActionSome_def LockActionAll_def)
  have "rn_uuid ?R \<notin> fst ` set (ls_locks ls)" by (simp add: demo_run_def ls_def)
  from some_skips_free_feature [OF run this, of a "[''1'']" "''1''" b "[''1'']"] locked clean names
  have "\<forall>fids. (b, fids) \<in> set (fl_FeatureIDs l) \<longrightarrow> ''1'' \<notin> set fids" by (simp add: demo_run_def)
  with run locked(2) show ?thesis by (intro exI [of _ ls] exI [of _ ?R]) (auto simp: demo_run_def)
qed

end
