(* ===== verification/Write_Gate.thy ===== *)
theory Write_Gate
  imports Go_Prelude
begin

text \<open>
  Package \<^verbatim>\<open>internal/wfs\<close>, the per-workspace write gate (\<^verbatim>\<open>write_gate.go\<close>), which serialises
  lock grants with the validation and commit of transactions. Goroutines run concurrently, so
  the model is a step relation: each critical section of the mutex and each channel operation
  of \<^verbatim>\<open>acquire\<close> and of the returned release function is one step of one goroutine, in any
  interleaving. Gates are heap objects; a goroutine keeps the address it looked up, and the map
  entry may be deleted and made again in between.
\<close>

section \<open>State\<close>

text \<open>\<open>wg_token\<close> is whether the channel of capacity one holds its token.\<close>

record writeGate =
  wg_token :: bool
  wg_refs :: int

text \<open>A goroutine inside \<^verbatim>\<open>acquire\<close> before its \<^verbatim>\<open>select\<close>, after it with the token, and inside the
  release function after the token was sent back.\<close>

datatype goroutine = Idle | Waiting string nat | Holding string nat | Sent string nat

record writeGates =
  gs_entries :: "string \<rightharpoonup> nat"
  gs_heap :: "nat \<Rightarrow> writeGate"
  gs_next :: nat
  gs_procs :: "nat \<Rightarrow> goroutine"

datatype gate_op = Enter nat string | Cancel nat | Take nat | Send nat | Drop nat

section \<open>Steps\<close>

definition gates_init :: writeGates where
  "gates_init = \<lparr>gs_entries = (\<lambda>_. None), gs_heap = (\<lambda>_. \<lparr>wg_token = False, wg_refs = 0\<rparr>), gs_next = 0,
     gs_procs = (\<lambda>_. Idle)\<rparr>"

text \<open>The first critical section of \<^verbatim>\<open>acquire\<close>: the entry is looked up or made, and counted.\<close>

definition gate_lookup :: "writeGates \<Rightarrow> string \<Rightarrow> writeGates \<times> nat" where
  "gate_lookup g workspace =
     (case gs_entries g workspace of
        Some e \<Rightarrow> (g, e)
      | None \<Rightarrow>
          let e = gs_next g
          in (g\<lparr>gs_entries := (gs_entries g)(workspace \<mapsto> e),
                gs_heap := (gs_heap g)(e := \<lparr>wg_token = True, wg_refs = 0\<rparr>), gs_next := Suc e\<rparr>, e))"

definition add_refs :: "int \<Rightarrow> nat \<Rightarrow> writeGates \<Rightarrow> writeGates" where
  "add_refs d e g = g\<lparr>gs_heap := (gs_heap g)(e := (gs_heap g e)\<lparr>wg_refs := wg_refs (gs_heap g e) + d\<rparr>)\<rparr>"

definition gate_drop :: "string \<Rightarrow> nat \<Rightarrow> writeGates \<Rightarrow> writeGates" where
  "gate_drop workspace e g =
     (let g = add_refs (- 1) e g
      in if wg_refs (gs_heap g e) = 0 then g\<lparr>gs_entries := (gs_entries g)(workspace := None)\<rparr> else g)"

definition set_token :: "bool \<Rightarrow> nat \<Rightarrow> writeGates \<Rightarrow> writeGates" where
  "set_token b e g = g\<lparr>gs_heap := (gs_heap g)(e := (gs_heap g e)\<lparr>wg_token := b\<rparr>)\<rparr>"

definition set_proc :: "nat \<Rightarrow> goroutine \<Rightarrow> writeGates \<Rightarrow> writeGates" where
  "set_proc p s g = g\<lparr>gs_procs := (gs_procs g)(p := s)\<rparr>"

text \<open>\<open>None\<close>: the goroutine cannot take this step now. Receiving from an empty channel and sending to
  a full one block.\<close>

fun gate_step :: "gate_op \<Rightarrow> writeGates \<Rightarrow> writeGates option" where
  "gate_step (Enter p workspace) g =
     (case gs_procs g p of
        Idle \<Rightarrow> (case gate_lookup g workspace of
                  (g', e) \<Rightarrow> Some (set_proc p (Waiting workspace e) (add_refs 1 e g')))
      | _ \<Rightarrow> None)"
| "gate_step (Cancel p) g =
     (case gs_procs g p of
        Waiting workspace e \<Rightarrow> Some (set_proc p Idle (gate_drop workspace e g))
      | _ \<Rightarrow> None)"
| "gate_step (Take p) g =
     (case gs_procs g p of
        Waiting workspace e \<Rightarrow>
          if wg_token (gs_heap g e) then Some (set_proc p (Holding workspace e) (set_token False e g)) else None
      | _ \<Rightarrow> None)"
| "gate_step (Send p) g =
     (case gs_procs g p of
        Holding workspace e \<Rightarrow>
          if wg_token (gs_heap g e) then None else Some (set_proc p (Sent workspace e) (set_token True e g))
      | _ \<Rightarrow> None)"
| "gate_step (Drop p) g =
     (case gs_procs g p of
        Sent workspace e \<Rightarrow> Some (set_proc p Idle (gate_drop workspace e g))
      | _ \<Rightarrow> None)"

inductive gate_reachable :: "writeGates \<Rightarrow> bool" where
  init: "gate_reachable gates_init"
| step: "gate_reachable g \<Longrightarrow> gate_step op g = Some g' \<Longrightarrow> gate_reachable g'"

section \<open>Invariant\<close>

fun uses :: "goroutine \<Rightarrow> (string \<times> nat) option" where
  "uses Idle = None"
| "uses (Waiting ws e) = Some (ws, e)"
| "uses (Holding ws e) = Some (ws, e)"
| "uses (Sent ws e) = Some (ws, e)"

definition users :: "writeGates \<Rightarrow> string \<Rightarrow> nat \<Rightarrow> nat set" where
  "users g ws e = {p. uses (gs_procs g p) = Some (ws, e)}"

definition gate_inv :: "writeGates \<Rightarrow> bool" where
  "gate_inv g \<longleftrightarrow>
     finite {p. gs_procs g p \<noteq> Idle} \<and>
     (\<forall>p ws e. uses (gs_procs g p) = Some (ws, e) \<longrightarrow> gs_entries g ws = Some e) \<and>
     (\<forall>ws e. gs_entries g ws = Some e \<longrightarrow> e < gs_next g \<and> users g ws e \<noteq> {} \<and>
        wg_refs (gs_heap g e) = int (card (users g ws e))) \<and>
     (\<forall>ws ws' e. gs_entries g ws = Some e \<and> gs_entries g ws' = Some e \<longrightarrow> ws = ws') \<and>
     (\<forall>p q ws ws' e. gs_procs g p = Holding ws e \<and> gs_procs g q = Holding ws' e \<longrightarrow> p = q) \<and>
     (\<forall>ws e. gs_entries g ws = Some e \<longrightarrow>
        (wg_token (gs_heap g e) \<longleftrightarrow> (\<forall>p ws'. gs_procs g p \<noteq> Holding ws' e)))"

lemma finite_users: "finite {p. gs_procs g p \<noteq> Idle} \<Longrightarrow> finite (users g ws e)"
  by (rule finite_subset [of _ "{p. gs_procs g p \<noteq> Idle}"]) (auto simp: users_def)

lemma users_set_proc:
  "users (set_proc p s g) ws e = (if uses s = Some (ws, e) then insert p (users g ws e) else users g ws e - {p})"
  by (auto simp: users_def set_proc_def)

lemma users_frame [simp]:
  "users (add_refs d e' g) ws e = users g ws e" "users (set_token b e' g) ws e = users g ws e"
  "users (gate_drop ws' e' g) ws e = users g ws e" "users (fst (gate_lookup g ws')) ws e = users g ws e"
  by (auto simp: users_def add_refs_def set_token_def gate_drop_def gate_lookup_def Let_def split: option.splits)

lemma procs_frame [simp]:
  "gs_procs (add_refs d e' g) = gs_procs g" "gs_procs (set_token b e' g) = gs_procs g"
  "gs_procs (gate_drop ws' e' g) = gs_procs g" "gs_procs (fst (gate_lookup g ws')) = gs_procs g"
  "gs_procs (set_proc p s g) = (gs_procs g)(p := s)"
  by (auto simp: add_refs_def set_token_def gate_drop_def gate_lookup_def set_proc_def Let_def split: option.splits)

lemma gate_invD:
  assumes "gate_inv g"
  shows "finite {p. gs_procs g p \<noteq> Idle}"
    and "\<And>p ws e. uses (gs_procs g p) = Some (ws, e) \<Longrightarrow> gs_entries g ws = Some e"
    and "\<And>ws e. gs_entries g ws = Some e \<Longrightarrow> e < gs_next g"
    and "\<And>ws e. gs_entries g ws = Some e \<Longrightarrow> users g ws e \<noteq> {}"
    and "\<And>ws e. gs_entries g ws = Some e \<Longrightarrow> wg_refs (gs_heap g e) = int (card (users g ws e))"
    and "\<And>ws ws' e. gs_entries g ws = Some e \<Longrightarrow> gs_entries g ws' = Some e \<Longrightarrow> ws = ws'"
    and "\<And>p q ws ws' e. gs_procs g p = Holding ws e \<Longrightarrow> gs_procs g q = Holding ws' e \<Longrightarrow> p = q"
    and "\<And>ws e. gs_entries g ws = Some e \<Longrightarrow>
        wg_token (gs_heap g e) = (\<forall>p ws'. gs_procs g p \<noteq> Holding ws' e)"
  using assms unfolding gate_inv_def by blast+

lemma gate_invI:
  assumes "finite {p. gs_procs g p \<noteq> Idle}"
    and "\<And>p ws e. uses (gs_procs g p) = Some (ws, e) \<Longrightarrow> gs_entries g ws = Some e"
    and "\<And>ws e. gs_entries g ws = Some e \<Longrightarrow> e < gs_next g"
    and "\<And>ws e. gs_entries g ws = Some e \<Longrightarrow> users g ws e \<noteq> {}"
    and "\<And>ws e. gs_entries g ws = Some e \<Longrightarrow> wg_refs (gs_heap g e) = int (card (users g ws e))"
    and "\<And>ws ws' e. gs_entries g ws = Some e \<Longrightarrow> gs_entries g ws' = Some e \<Longrightarrow> ws = ws'"
    and "\<And>p q ws ws' e. gs_procs g p = Holding ws e \<Longrightarrow> gs_procs g q = Holding ws' e \<Longrightarrow> p = q"
    and "\<And>ws e. gs_entries g ws = Some e \<Longrightarrow>
        wg_token (gs_heap g e) = (\<forall>p ws'. gs_procs g p \<noteq> Holding ws' e)"
  shows "gate_inv g"
  using assms unfolding gate_inv_def by blast

lemma finite_busy: "finite {q. gs_procs g q \<noteq> Idle} \<Longrightarrow> finite {q. ((gs_procs g)(p := s)) q \<noteq> Idle}"
  by (rule finite_subset [of _ "insert p {q. gs_procs g q \<noteq> Idle}"]) auto

text \<open>Moving a goroutine from waiting to holding, or from holding to sent, with the token.\<close>

lemma gate_inv_move:
  assumes inv: "gate_inv g" and p: "uses (gs_procs g p) = Some (ws, e)" and s: "uses s = Some (ws, e)"
    and tok: "b = (\<forall>q ws'. ((gs_procs g)(p := s)) q \<noteq> Holding ws' e)"
    and excl: "\<And>q ws' e'. s = Holding ws' e' \<Longrightarrow> gs_procs g q \<noteq> Holding ws e"
  shows "gate_inv (set_proc p s (set_token b e g))" (is "gate_inv ?g")
proof -
  note I = gate_invD [OF inv]
  have u: "users ?g ws' e' = users g ws' e'" for ws' e'
    using p s by (auto simp: users_set_proc) (auto simp: users_def)
  have en: "gs_entries ?g = gs_entries g" "gs_next ?g = gs_next g"
    "wg_refs (gs_heap ?g e') = wg_refs (gs_heap g e')" for e'
    by (simp_all add: set_proc_def set_token_def)
  have hp: "wg_token (gs_heap ?g e') = (if e' = e then b else wg_token (gs_heap g e'))" for e'
    by (simp add: set_proc_def set_token_def)
  have other: "((gs_procs g)(p := s)) q \<noteq> Holding ws' e' \<longleftrightarrow> gs_procs g q \<noteq> Holding ws' e'" if "e' \<noteq> e" for q ws' e'
    using that p s by (cases s; cases "gs_procs g p") auto
  have hold: "q = r" if "((gs_procs g)(p := s)) q = Holding ws1 e1" "((gs_procs g)(p := s)) r = Holding ws2 e1" for q r ws1 ws2 e1
  proof (cases "q = p \<or> r = p")
    case True
    have "gs_procs g x \<noteq> Holding ws3 e" if "s = Holding ws4 e4" for x ws3 ws4 e4
      using excl [OF that] I(2) [of x ws3 e] I(2) [OF p] I(6) by force
    then show ?thesis using True that s by (auto split: if_splits)
  qed (use that I(7) in \<open>auto split: if_splits\<close>)
  show ?thesis
  proof (rule gate_invI)
    show "gs_entries ?g ws' = Some e'" if "uses (gs_procs ?g q) = Some (ws', e')" for q ws' e'
      using that I(2) p s en by (auto split: if_splits)
    show "wg_token (gs_heap ?g e') = (\<forall>q ws''. gs_procs ?g q \<noteq> Holding ws'' e')" if "gs_entries ?g ws' = Some e'" for ws' e'
    proof (cases "e' = e")
      case True
      then show ?thesis using hp [of e'] tok by (simp only: procs_frame if_P [OF refl])
    next
      case False
      with that en have "gs_entries g ws' = Some e'" by simp
      with False I(8) show ?thesis unfolding hp procs_frame other [OF False] by simp
    qed
    show "q = r" if "gs_procs ?g q = Holding ws1 e1" "gs_procs ?g r = Holding ws2 e1" for q r ws1 ws2 e1
      using hold [of q ws1 e1 r ws2] that unfolding procs_frame by blast
    show "finite {q. gs_procs ?g q \<noteq> Idle}" unfolding procs_frame using finite_busy [OF I(1)] .
  qed (use I(3-6) en u in auto)
qed

text \<open>Leaving: the reference is dropped, and the entry with the last one.\<close>

lemma gate_inv_drop:
  assumes inv: "gate_inv g" and p: "uses (gs_procs g p) = Some (ws, e)" and nh: "\<And>ws' e'. gs_procs g p \<noteq> Holding ws' e'"
  shows "gate_inv (set_proc p Idle (gate_drop ws e g))" (is "gate_inv ?g")
proof -
  note I = gate_invD [OF inv]
  have e: "gs_entries g ws = Some e" using I(2) p .
  have pu: "p \<in> users g ws e" using p by (simp add: users_def)
  have fin: "finite (users g ws e)" using I(1) by (rule finite_users)
  have refs: "wg_refs (gs_heap g e) = int (card (users g ws e))" using I(5) [OF e] .
  have card: "card (users g ws e - {p}) = card (users g ws e) - 1" "card (users g ws e) > 0"
    using pu fin by (auto simp: card_gt_0_iff)
  have last: "wg_refs (gs_heap g e) - 1 = 0 \<longleftrightarrow> users g ws e - {p} = {}"
  proof -
    have "wg_refs (gs_heap g e) - 1 = 0 \<longleftrightarrow> card (users g ws e - {p}) = 0" using card refs by linarith
    also have "\<dots> \<longleftrightarrow> users g ws e - {p} = {}" using fin by (simp add: card_eq_0_iff)
    finally show ?thesis .
  qed
  have u: "users ?g ws' e' = users g ws' e' - {p}" for ws' e' by (simp add: users_set_proc)
  have u': "users ?g ws' e' = users g ws' e'" if "ws' \<noteq> ws \<or> e' \<noteq> e" for ws' e'
    using that p unfolding u by (auto simp: users_def)
  have en: "gs_entries ?g ws' = (if ws' = ws \<and> users g ws e - {p} = {} then None else gs_entries g ws')" for ws'
    using last by (auto simp: set_proc_def gate_drop_def add_refs_def Let_def)
  have hp: "wg_refs (gs_heap ?g e') = (if e' = e then wg_refs (gs_heap g e) - 1 else wg_refs (gs_heap g e'))"
    "wg_token (gs_heap ?g e') = wg_token (gs_heap g e')" "gs_next ?g = gs_next g" for e'
    by (auto simp: set_proc_def gate_drop_def add_refs_def Let_def)
  have hold: "gs_procs ?g q = Holding ws' e' \<longleftrightarrow> gs_procs g q = Holding ws' e'" for q ws' e'
    using nh by auto
  show ?thesis
  proof (rule gate_invI)
    show "gs_entries ?g ws' = Some e'" if "uses (gs_procs ?g q) = Some (ws', e')" for q ws' e'
    proof -
      from that have q: "q \<noteq> p" "uses (gs_procs g q) = Some (ws', e')" by (auto split: if_splits)
      then have "gs_entries g ws' = Some e'" using I(2) by blast
      moreover have "users g ws e - {p} \<noteq> {}" if "ws' = ws"
        using that q calculation e by (auto simp: users_def)
      ultimately show ?thesis unfolding en by auto
    qed
    show "users ?g ws' e' \<noteq> {}" if "gs_entries ?g ws' = Some e'" for ws' e'
      using that I(4) e u u' unfolding en by (cases "ws' = ws"; cases "e' = e") (auto split: if_splits)
    show "wg_refs (gs_heap ?g e') = int (card (users ?g ws' e'))" if en': "gs_entries ?g ws' = Some e'" for ws' e'
    proof (cases "e' = e")
      case True
      with en' have "ws' = ws" using I(6) e unfolding en by (auto split: if_splits)
      with True card refs show ?thesis unfolding u hp by auto
    next
      case False
      with en' have "gs_entries g ws' = Some e'" unfolding en by (auto split: if_splits)
      with I(5) False u' show ?thesis unfolding hp by simp
    qed
    show "wg_token (gs_heap ?g e') = (\<forall>q ws''. gs_procs ?g q \<noteq> Holding ws'' e')" if "gs_entries ?g ws' = Some e'" for ws' e'
      using that I(8) [of ws' e'] unfolding hp hold en by (auto split: if_splits)
    show "ws1 = ws2" if "gs_entries ?g ws1 = Some e1" "gs_entries ?g ws2 = Some e1" for ws1 ws2 e1
      using that I(6) unfolding en by (auto split: if_splits)
    show "q = r" if "gs_procs ?g q = Holding ws1 e1" "gs_procs ?g r = Holding ws2 e1" for q r ws1 ws2 e1
      using that I(7) unfolding hold by blast
    show "finite {q. gs_procs ?g q \<noteq> Idle}" using finite_busy [OF I(1), of p Idle] by simp
    show "e' < gs_next ?g" if "gs_entries ?g ws' = Some e'" for ws' e'
      using that I(3) unfolding en hp by (auto split: if_splits)
  qed
qed

text \<open>Entering, through an existing entry or a new one.\<close>

lemma gate_inv_enter:
  assumes inv: "gate_inv g" and p: "gs_procs g p = Idle" and look: "gate_lookup g ws = (g', e)"
  shows "gate_inv (set_proc p (Waiting ws e) (add_refs 1 e g'))" (is "gate_inv ?g")
proof -
  note I = gate_invD [OF inv]
  have g': "gs_procs g' = gs_procs g" "\<And>ws' e'. users g' ws' e' = users g ws' e'"
    using look procs_frame(4) [of g ws] users_frame(4) [of g ws] by simp_all
  have entries: "gs_entries g' = (gs_entries g)(ws \<mapsto> e)"
    and heap: "\<And>e'. e' \<noteq> e \<Longrightarrow> gs_heap g' e' = gs_heap g e'"
    and new: "gs_entries g ws = None \<Longrightarrow> e = gs_next g \<and> gs_next g' = Suc e \<and> gs_heap g' e = \<lparr>wg_token = True, wg_refs = 0\<rparr>"
    and old: "\<And>e'. gs_entries g ws = Some e' \<Longrightarrow> e = e' \<and> gs_next g' = gs_next g \<and> gs_heap g' e = gs_heap g e"
    using look by (auto simp: gate_lookup_def Let_def split: option.splits)
  have fresh: "users g ws' e = {}" if "gs_entries g ws = None" for ws'
    using that new I(2,3) by (fastforce simp: users_def)
  have uniq: "ws' = ws" if "gs_entries g ws' = Some e" for ws'
    using that new old I(3) [OF that] I(6) [OF that] by (cases "gs_entries g ws") auto
  have nohold: "gs_procs g q \<noteq> Holding ws' e" if "gs_entries g ws = None" for q ws'
    using fresh [OF that, of ws'] unfolding users_def by (metis (mono_tags) empty_iff mem_Collect_eq uses.simps(3))
  have pn: "p \<notin> users g ws' e'" for ws' e' using p by (simp add: users_def)
  have u: "users ?g ws' e' = (if ws' = ws \<and> e' = e then insert p (users g ws e) else users g ws' e')" for ws' e'
    using pn g' by (auto simp: users_set_proc)
  have en: "gs_entries ?g = (gs_entries g)(ws \<mapsto> e)" "gs_next ?g = gs_next g'"
    by (simp_all add: set_proc_def add_refs_def entries)
  have hp: "wg_refs (gs_heap ?g e') = (if e' = e then wg_refs (gs_heap g' e) + 1 else wg_refs (gs_heap g e'))"
    "wg_token (gs_heap ?g e') = wg_token (gs_heap g' e')" for e'
    using heap by (auto simp: set_proc_def add_refs_def)
  have hold: "gs_procs ?g q = Holding ws' e' \<longleftrightarrow> gs_procs g q = Holding ws' e'" for q ws' e'
    using p g' by auto
  have refs: "wg_refs (gs_heap g' e) = int (card (users g ws e))"
    using new old I(5) fresh by (cases "gs_entries g ws") auto
  have card: "card (insert p (users g ws e)) = Suc (card (users g ws e))"
    using pn finite_users [OF I(1)] by simp
  show ?thesis
  proof (rule gate_invI)
    show "gs_entries ?g ws' = Some e'" if "uses (gs_procs ?g q) = Some (ws', e')" for q ws' e'
      using that I(2) [of q ws' e'] old g' unfolding en by (auto split: if_splits)
    show "e' < gs_next ?g" if "gs_entries ?g ws' = Some e'" for ws' e'
      using that I(3) new old unfolding en by (cases "gs_entries g ws") (auto split: if_splits intro: less_SucI)
    show "users ?g ws' e' \<noteq> {}" if "gs_entries ?g ws' = Some e'" for ws' e'
      using that I(4) unfolding en u by (auto split: if_splits)
    show "wg_refs (gs_heap ?g e') = int (card (users ?g ws' e'))" if "gs_entries ?g ws' = Some e'" for ws' e'
    proof (cases "e' = e")
      case True
      with that uniq have "ws' = ws" unfolding en by (auto split: if_splits)
      with True refs card show ?thesis unfolding u hp by simp
    next
      case False
      with that have "gs_entries g ws' = Some e'" unfolding en by (auto split: if_splits)
      with I(5) False show ?thesis unfolding u hp by simp
    qed
    show "ws1 = ws2" if "gs_entries ?g ws1 = Some e1" "gs_entries ?g ws2 = Some e1" for ws1 ws2 e1
      using that I(6) uniq unfolding en by (auto split: if_splits)
    show "q = r" if "gs_procs ?g q = Holding ws1 e1" "gs_procs ?g r = Holding ws2 e1" for q r ws1 ws2 e1
      using that I(7) unfolding hold by blast
    show "wg_token (gs_heap ?g e') = (\<forall>q ws''. gs_procs ?g q \<noteq> Holding ws'' e')" if "gs_entries ?g ws' = Some e'" for ws' e'
    proof (cases "e' = e")
      case True
      then show ?thesis using nohold new old I(8) unfolding hp hold by (cases "gs_entries g ws") auto
    next
      case False
      with that have "gs_entries g ws' = Some e'" unfolding en by (auto split: if_splits)
      with I(8) heap False show ?thesis unfolding hp hold by simp
    qed
    show "finite {q. gs_procs ?g q \<noteq> Idle}" using finite_busy [OF I(1), of p "Waiting ws e"] g' by simp
  qed
qed

lemma gate_inv_step:
  assumes "gate_inv g" "gate_step op g = Some g'"
  shows "gate_inv g'"
proof (cases op)
  case (Enter p ws)
  with assms gate_inv_enter show ?thesis by (auto split: goroutine.splits prod.splits)
next
  case (Cancel p)
  with assms show ?thesis by (auto split: goroutine.splits intro!: gate_inv_drop)
next
  case (Drop p)
  with assms show ?thesis by (auto split: goroutine.splits intro!: gate_inv_drop)
next
  case (Take p)
  with assms obtain ws e where p: "gs_procs g p = Waiting ws e" and tok: "wg_token (gs_heap g e)"
    and g': "g' = set_proc p (Holding ws e) (set_token False e g)"
    by (auto split: goroutine.splits if_splits)
  have "gs_entries g ws = Some e" using gate_invD(2) [OF assms(1), of p] p by simp
  with tok have free: "gs_procs g q \<noteq> Holding ws' e" for q ws' using gate_invD(8) [OF assms(1)] by blast
  show ?thesis unfolding g' by (rule gate_inv_move [OF assms(1), where ws = ws]) (use p free in auto)
next
  case (Send p)
  with assms obtain ws e where p: "gs_procs g p = Holding ws e" and g': "g' = set_proc p (Sent ws e) (set_token True e g)"
    by (auto split: goroutine.splits if_splits)
  have other: "gs_procs g q \<noteq> Holding ws' e" if "q \<noteq> p" for q ws'
    using that p gate_invD(7) [OF assms(1)] by blast
  show ?thesis unfolding g' by (rule gate_inv_move [OF assms(1), where ws = ws]) (use p other in auto)
qed

lemma gate_reachable_inv: "gate_reachable g \<Longrightarrow> gate_inv g"
proof (induction rule: gate_reachable.induct)
  case init
  show ?case by (simp add: gate_inv_def gates_init_def)
qed (rule gate_inv_step)

section \<open>Property\<close>

text \<open>
  C25. The write gate is a mutual-exclusion lock per workspace that leaks nothing: in every
  interleaving at most one goroutine is between acquire and release for a workspace; a waiting
  goroutine can take the token exactly when no goroutine holds the workspace, so the token is
  never lost, a holder can always send it back without blocking; and a workspace has a map entry
  exactly while some goroutine uses it.
\<close>

theorem write_gate_exclusive:
  assumes "gate_reachable g"
  shows "(\<forall>p q ws e e'. gs_procs g p = Holding ws e \<and> gs_procs g q = Holding ws e' \<longrightarrow> p = q) \<and>
    (\<forall>p ws e. gs_procs g p = Waiting ws e \<longrightarrow>
       (gate_step (Take p) g \<noteq> None \<longleftrightarrow> \<not> (\<exists>q e'. gs_procs g q = Holding ws e'))) \<and>
    (\<forall>p ws e. gs_procs g p = Holding ws e \<longrightarrow> gate_step (Send p) g \<noteq> None) \<and>
    (\<forall>ws. gs_entries g ws \<noteq> None \<longleftrightarrow> (\<exists>p e. gs_procs g p \<in> {Waiting ws e, Holding ws e, Sent ws e}))"
proof -
  note inv = gate_reachable_inv [OF assms]
  note I = gate_invD [OF inv]
  have same: "e = e'" if "gs_procs g p \<in> {Waiting ws e, Holding ws e, Sent ws e}"
    "gs_procs g q \<in> {Waiting ws e', Holding ws e', Sent ws e'}" for p q ws e e'
    using that I(2) [of p ws e] I(2) [of q ws e'] by auto
  have excl: "p = q" if "gs_procs g p = Holding ws e" "gs_procs g q = Holding ws e'" for p q ws e e'
    using that same [of p ws e q e'] I(7) by auto
  have tok: "wg_token (gs_heap g e) \<longleftrightarrow> \<not> (\<exists>q e'. gs_procs g q = Holding ws e')"
    if "gs_procs g p \<in> {Waiting ws e, Holding ws e}" for p ws e
  proof -
    have e: "gs_entries g ws = Some e" using that I(2) [of p ws e] by auto
    have "ws' = ws" if "gs_procs g q = Holding ws' e" for q ws'
      using that I(2) [of q ws' e] I(6) e by simp
    moreover have "e' = e" if "gs_procs g q = Holding ws e'" for q e'
      using that I(2) [of q ws e'] e by simp
    ultimately show ?thesis unfolding I(8) [OF e] by blast
  qed
  have entry: "gs_entries g ws \<noteq> None \<longleftrightarrow> (\<exists>p e. gs_procs g p \<in> {Waiting ws e, Holding ws e, Sent ws e})" for ws
  proof
    assume "gs_entries g ws \<noteq> None"
    then obtain e p where "uses (gs_procs g p) = Some (ws, e)" using I(4) by (fastforce simp: users_def)
    then show "\<exists>p e. gs_procs g p \<in> {Waiting ws e, Holding ws e, Sent ws e}"
      by (cases "gs_procs g p") auto
  next
    assume "\<exists>p e. gs_procs g p \<in> {Waiting ws e, Holding ws e, Sent ws e}"
    then obtain p e where "gs_procs g p \<in> {Waiting ws e, Holding ws e, Sent ws e}" by blast
    then have "uses (gs_procs g p) = Some (ws, e)" by auto
    then show "gs_entries g ws \<noteq> None" using I(2) by simp
  qed
  have take: "gate_step (Take p) g \<noteq> None \<longleftrightarrow> \<not> (\<exists>q e'. gs_procs g q = Holding ws e')"
    if "gs_procs g p = Waiting ws e" for p ws e
    using that tok [of p ws e] by simp
  have send: "gate_step (Send p) g \<noteq> None" if "gs_procs g p = Holding ws e" for p ws e
    using that tok [of p ws e] by auto
  from excl take send entry show ?thesis by blast
qed

theorem write_gate_exclusive_witness:
  "\<exists>g. gate_reachable g \<and> gs_procs g 1 = Holding ''w'' 0 \<and> gs_procs g 2 = Waiting ''w'' 0 \<and> gate_step (Take 2) g = None"
proof -
  let ?run = "\<lambda>op g. Option.bind g (gate_step op)"
  let ?g = "the (fold ?run [Enter 1 ''w'', Enter 2 ''w'', Take 1] (Some gates_init))"
  have procs: "gs_procs ?g 1 = Holding ''w'' 0" "gs_procs ?g 2 = Waiting ''w'' 0"
    by (simp_all add: gates_init_def gate_lookup_def set_proc_def add_refs_def set_token_def)
  have s1: "gate_reachable (the (gate_step (Enter 1 ''w'') gates_init))"
    by (rule gate_reachable.step [OF gate_reachable.init, of "Enter 1 ''w''"]) (simp add: gates_init_def gate_lookup_def)
  have s2: "gate_reachable (the (fold ?run [Enter 1 ''w'', Enter 2 ''w''] (Some gates_init)))"
    by (rule gate_reachable.step [OF s1, of "Enter 2 ''w''"])
      (simp add: gates_init_def gate_lookup_def set_proc_def add_refs_def)
  have r: "gate_reachable ?g"
    by (rule gate_reachable.step [OF s2, of "Take 1"])
      (simp add: gates_init_def gate_lookup_def set_proc_def add_refs_def set_token_def)
  from write_gate_exclusive [OF r] procs have "gate_step (Take 2) ?g = None" by metis
  with r procs show ?thesis by blast
qed

end
