(* ===== verification/Cache_Manager.thy ===== *)
theory Cache_Manager
  imports Base64 "HOL-Library.Word"
begin

text \<open>
  Package \<^verbatim>\<open>internal/cache\<close>: the response cache manager (\<^verbatim>\<open>cache.go\<close>), the fill tokens
  (\<^verbatim>\<open>fill.go\<close>), the keys (\<^verbatim>\<open>keys.go\<close>) and the request policy (\<^verbatim>\<open>http.go\<close>).

  The values live in ristretto, which is not part of the repository. What it answers is an
  argument: the entry a \<^verbatim>\<open>Get\<close> finds and whether a \<^verbatim>\<open>SetWithTTL\<close> is accepted; what the
  manager asks of it is a list of commands. The theorems assume of ristretto only that it gives
  back entries that were put into it. An epoch is a heap object that tokens, entries and the
  map of current epochs share, so it is an address here. A method that holds a mutex
  throughout is one function. The generation counter is a 64-bit word and wraps. SHA-256 is a
  parameter of the keys. Metrics other than the counters used by the methods are left out.
\<close>

section \<open>Configuration\<close>

datatype CacheType =
  CacheTypeCapabilities | CacheTypeCollections | CacheTypeFeatures | CacheTypeTiles | CacheTypeCounts

fun cache_type_string :: "CacheType \<Rightarrow> string" where
  "cache_type_string CacheTypeCapabilities = ''capabilities''"
| "cache_type_string CacheTypeCollections = ''collections''"
| "cache_type_string CacheTypeFeatures = ''features''"
| "cache_type_string CacheTypeTiles = ''tiles''"
| "cache_type_string CacheTypeCounts = ''counts''"

text \<open>The five per-type structs have these fields in common; counts have no entry size (0) and only
  features have \<^verbatim>\<open>MaxEntries\<close>.\<close>

record TypeConfig =
  tc_Enabled :: bool
  tc_TTL :: duration
  tc_MaxMemoryMB :: int
  tc_MaxEntrySize :: int
  tc_MaxEntries :: int

record Config =
  cf_Enabled :: bool
  cf_Profile :: string
  cf_MaxMemoryMB :: int
  cf_CounterRatio :: int
  cf_BufferItems :: int
  cf_MetricsEnabled :: bool
  cf_TTLTick :: duration
  cf_FillCoalescingEnabled :: bool
  cf_FillTimeout :: duration
  cf_types :: "CacheType \<Rightarrow> TypeConfig"

definition type_config :: "bool \<Rightarrow> duration \<Rightarrow> int \<Rightarrow> int \<Rightarrow> int \<Rightarrow> TypeConfig" where
  "type_config enabled ttl mb entrySize entries =
     \<lparr>tc_Enabled = enabled, tc_TTL = ttl, tc_MaxMemoryMB = mb, tc_MaxEntrySize = entrySize, tc_MaxEntries = entries\<rparr>"

fun default_type :: "CacheType \<Rightarrow> TypeConfig" where
  "default_type CacheTypeCapabilities = type_config True hour 16 (2 ^ 20) 0"
| "default_type CacheTypeCollections = type_config True (30 * minute) 16 (4 * 2 ^ 20) 0"
| "default_type CacheTypeFeatures = type_config True (5 * minute) 208 (10 * 1024 * 1024) 1000"
| "default_type CacheTypeTiles = type_config True (15 * minute) 256 (10 * 2 ^ 20) 0"
| "default_type CacheTypeCounts = type_config True minute 16 0 0"

definition DefaultConfig :: Config where
  "DefaultConfig =
     \<lparr>cf_Enabled = True, cf_Profile = ''balanced'', cf_MaxMemoryMB = 512, cf_CounterRatio = 10,
      cf_BufferItems = 64, cf_MetricsEnabled = True, cf_TTLTick = 5 * second, cf_FillCoalescingEnabled = True,
      cf_FillTimeout = minute, cf_types = default_type\<rparr>"

text \<open>The settings of the configuration file, in seconds.\<close>

record TypeSettings =
  ts_Enabled :: bool
  ts_TTLSec :: int
  ts_MaxMemoryMB :: int
  ts_MaxEntrySize :: int
  ts_MaxEntries :: int

record ConfigSettings =
  st_Enabled :: bool
  st_Profile :: string
  st_MaxMemoryMB :: int
  st_CounterRatio :: int
  st_BufferItems :: int
  st_MetricsEnabled :: bool
  st_TTLTickSec :: int
  st_FillCoalescingEnabled :: bool
  st_FillTimeoutSec :: int
  st_types :: "CacheType \<Rightarrow> TypeSettings"

definition NewConfigFromSettings :: "ConfigSettings \<Rightarrow> Config" where
  "NewConfigFromSettings s =
     \<lparr>cf_Enabled = st_Enabled s, cf_Profile = st_Profile s, cf_MaxMemoryMB = st_MaxMemoryMB s,
      cf_CounterRatio = st_CounterRatio s, cf_BufferItems = st_BufferItems s, cf_MetricsEnabled = st_MetricsEnabled s,
      cf_TTLTick = st_TTLTickSec s * second, cf_FillCoalescingEnabled = st_FillCoalescingEnabled s,
      cf_FillTimeout = st_FillTimeoutSec s * second,
      cf_types = (\<lambda>kind. type_config (ts_Enabled (st_types s kind)) (ts_TTLSec (st_types s kind) * second)
        (ts_MaxMemoryMB (st_types s kind))
        (if kind = CacheTypeCounts then 0 else ts_MaxEntrySize (st_types s kind))
        (if kind = CacheTypeFeatures then ts_MaxEntries (st_types s kind) else 0))\<rparr>"

section \<open>State\<close>

record cacheEpoch =
  ce_id :: "64 word"
  ce_invalidated :: bool

text \<open>A zero token has no manager.\<close>

record FillToken =
  ft_manager :: "nat option"
  ft_kind :: CacheType
  ft_scope :: string
  ft_epoch :: "nat option"

record CacheEntry =
  en_epoch :: "nat option"
  en_Value :: string
  en_Kind :: CacheType
  en_Scope :: string
  en_Key :: string
  en_Generation :: "64 word"

text \<open>\<open>mg_id\<close> is the address of the manager; \<open>mg_caches\<close> whether the ristretto caches exist.\<close>

record Manager =
  mg_id :: nat
  mg_config :: Config
  mg_caches :: bool
  mg_epochs :: "CacheType \<Rightarrow> (string, nat) gomap"
  mg_heap :: "nat \<Rightarrow> cacheEpoch"
  mg_next :: nat
  mg_keys :: "CacheType \<Rightarrow> (string, (string, 64 word) gomap) gomap"
  mg_generation :: "64 word"
  mg_hits :: "CacheType \<Rightarrow> int"
  mg_misses :: "CacheType \<Rightarrow> int"
  mg_oversized :: "CacheType \<Rightarrow> int"
  mg_loadErrors :: "CacheType \<Rightarrow> int"

datatype command = SetWithTTL CacheType string CacheEntry int duration | Del CacheType string | Clear CacheType

definition with_defaults :: "Config \<Rightarrow> Config" where
  "with_defaults cfg =
     cfg\<lparr>cf_CounterRatio := if cf_CounterRatio cfg \<le> 0 then 10 else cf_CounterRatio cfg,
         cf_BufferItems := if cf_BufferItems cfg \<le> 0 then 64 else cf_BufferItems cfg,
         cf_TTLTick := if cf_TTLTick cfg \<le> 0 then 5 * second else cf_TTLTick cfg,
         cf_FillTimeout := if cf_FillTimeout cfg \<le> 0 then minute else cf_FillTimeout cfg\<rparr>"

definition NewManager :: "nat \<Rightarrow> Config \<Rightarrow> Manager" where
  "NewManager self cfg =
     \<lparr>mg_id = self, mg_config = with_defaults cfg, mg_caches = cf_Enabled cfg, mg_epochs = (\<lambda>_. []),
      mg_heap = (\<lambda>_. \<lparr>ce_id = 0, ce_invalidated = False\<rparr>), mg_next = 0, mg_keys = (\<lambda>_. []), mg_generation = 0,
      mg_hits = (\<lambda>_. 0), mg_misses = (\<lambda>_. 0), mg_oversized = (\<lambda>_. 0), mg_loadErrors = (\<lambda>_. 0)\<rparr>"

text \<open>What ristretto is created with. The expected number of entries is fixed for all types but
  features.\<close>

record ristretto_config =
  rc_NumCounters :: int
  rc_MaxCost :: int
  rc_BufferItems :: int
  rc_Metrics :: bool
  rc_TtlTickerDurationInSec :: int

definition nonzeroMB :: "int \<Rightarrow> int \<Rightarrow> int" where
  "nonzeroMB v fallback = (if v > 0 then v else fallback)"

fun memory_fallback :: "CacheType \<Rightarrow> int" where
  "memory_fallback CacheTypeFeatures = 208"
| "memory_fallback CacheTypeTiles = 256"
| "memory_fallback _ = 16"

fun expected_entries :: "Config \<Rightarrow> CacheType \<Rightarrow> int" where
  "expected_entries cfg CacheTypeCapabilities = 100"
| "expected_entries cfg CacheTypeCollections = 100"
| "expected_entries cfg CacheTypeFeatures =
     (if tc_MaxEntries (cf_types cfg CacheTypeFeatures) \<le> 0 then 1000 else tc_MaxEntries (cf_types cfg CacheTypeFeatures))"
| "expected_entries cfg CacheTypeTiles = 10000"
| "expected_entries cfg CacheTypeCounts = 1000"

definition newCache :: "Config \<Rightarrow> CacheType \<Rightarrow> ristretto_config" where
  "newCache cfg kind =
     \<lparr>rc_NumCounters = max 1 (expected_entries cfg kind * cf_CounterRatio cfg),
      rc_MaxCost = nonzeroMB (tc_MaxMemoryMB (cf_types cfg kind)) (memory_fallback kind) * 2 ^ 20,
      rc_BufferItems = cf_BufferItems cfg, rc_Metrics = cf_MetricsEnabled cfg,
      rc_TtlTickerDurationInSec = max 1 (cf_TTLTick cfg div second)\<rparr>"

definition all_types :: "CacheType list" where
  "all_types = [CacheTypeCapabilities, CacheTypeCollections, CacheTypeFeatures, CacheTypeTiles, CacheTypeCounts]"

text \<open>The five caches are created in this order; the first error of ristretto ends the construction.\<close>

primrec open_caches :: "(ristretto_config \<Rightarrow> string option) \<Rightarrow> Config \<Rightarrow> CacheType list \<Rightarrow> string option" where
  "open_caches ristretto cfg [] = None"
| "open_caches ristretto cfg (kind # kinds) =
     (case ristretto (newCache cfg kind) of
        Some err \<Rightarrow> Some err
      | None \<Rightarrow> open_caches ristretto cfg kinds)"

definition TryNewManager :: "(ristretto_config \<Rightarrow> string option) \<Rightarrow> nat \<Rightarrow> Config \<Rightarrow> string + Manager" where
  "TryNewManager ristretto self cfg =
     (if \<not> cf_Enabled cfg then Inr (NewManager self cfg)
      else case open_caches ristretto (with_defaults cfg) all_types of
             Some err \<Rightarrow> Inl err
           | None \<Rightarrow> Inr (NewManager self cfg))"

section \<open>Keys\<close>

fun split_colon :: "string \<Rightarrow> string list" where
  "split_colon [] = [[]]"
| "split_colon (c # cs) =
     (if c = CHR '':'' then [] # split_colon cs
      else case split_colon cs of [] \<Rightarrow> [[c]] | p # ps \<Rightarrow> (c # p) # ps)"

definition legacy_kinds :: "string list" where
  "legacy_kinds = [''capabilities'', ''collections'', ''collection'', ''features'', ''feature'', ''tiles'',
     ''wfs-features'', ''counts'', ''mvt'', ''maptile'']"

definition cacheScope :: "string \<Rightarrow> string" where
  "cacheScope key =
     (let parts = split_colon key
      in if length parts \<ge> 4 \<and> parts ! 0 = ''v2''
         then (case DecodeString (parts ! 1) of Some scope \<Rightarrow> scope | None \<Rightarrow> [])
         else if parts = [] then []
         else if length parts > 1 \<and> parts ! 0 \<in> set legacy_kinds then parts ! 1
         else parts ! 0)"

definition encode_fields :: "string list \<Rightarrow> string" where
  "encode_fields tuple = concat (map (\<lambda>f. big_endian 8 (length f mod 2 ^ 64) @ f) tuple)"

definition scopedKey :: "(string \<Rightarrow> string) \<Rightarrow> string \<Rightarrow> string \<Rightarrow> string list \<Rightarrow> string" where
  "scopedKey hexdigest kind workspace tuple =
     ''v2:'' @ EncodeToString workspace @ '':'' @ kind @ '':'' @ hexdigest (encode_fields tuple)"

definition CapabilitiesKey where "CapabilitiesKey H workspace service = scopedKey H ''capabilities'' workspace [service]"
definition WMSCapabilitiesKey where "WMSCapabilitiesKey H workspace = CapabilitiesKey H workspace ''wms''"
definition WFSCapabilitiesKey where "WFSCapabilitiesKey H workspace = CapabilitiesKey H workspace ''wfs''"
definition WCSCapabilitiesKey where "WCSCapabilitiesKey H workspace = CapabilitiesKey H workspace ''wcs''"
definition CollectionsKey where "CollectionsKey H workspace = scopedKey H ''collections'' workspace []"
definition ConformanceKey where "ConformanceKey H workspace = scopedKey H ''conformance'' workspace []"
definition CollectionKey where
  "CollectionKey H workspace collectionID = scopedKey H ''collection'' workspace [collectionID]"

record FeaturesParams =
  fp_Workspace :: string
  fp_Collection :: string
  fp_Limit :: int
  fp_Offset :: int
  fp_BBox :: string
  fp_BBoxCRS :: string
  fp_Filter :: string
  fp_FilterLang :: string
  fp_FilterCRS :: string
  fp_DateTime :: string
  fp_CRS :: string
  fp_SortBy :: string
  fp_Properties :: string

definition FeaturesKey :: "(string \<Rightarrow> string) \<Rightarrow> FeaturesParams \<Rightarrow> string" where
  "FeaturesKey H p =
     scopedKey H ''features'' (fp_Workspace p)
       [fp_Collection p, show_int (fp_Limit p), show_int (fp_Offset p), fp_BBox p, fp_BBoxCRS p, fp_Filter p,
        fp_FilterLang p, fp_FilterCRS p, fp_DateTime p, fp_CRS p, fp_SortBy p, fp_Properties p]"

definition SingleFeatureKey where
  "SingleFeatureKey H workspace collection featureID crs = scopedKey H ''feature'' workspace [collection, featureID, crs]"

record TileParams =
  tp_Workspace :: string
  tp_Layers :: string
  tp_CRS :: string
  tp_BBox :: string
  tp_Width :: int
  tp_Height :: int
  tp_Format :: string
  tp_Styles :: string
  tp_Transparent :: string
  tp_BgColor :: string
  tp_Time :: string
  tp_Elevation :: string

definition TileKey :: "(string \<Rightarrow> string) \<Rightarrow> TileParams \<Rightarrow> string" where
  "TileKey H p =
     scopedKey H ''tiles'' (tp_Workspace p)
       [tp_Layers p, tp_CRS p, tp_BBox p, show_int (tp_Width p), show_int (tp_Height p), tp_Format p, tp_Styles p,
        tp_Transparent p, tp_BgColor p, tp_Time p, tp_Elevation p]"

record WFSGetFeatureParams =
  wp_Workspace :: string
  wp_TypeNames :: string
  wp_Count :: int
  wp_StartIndex :: int
  wp_BBox :: string
  wp_SRSName :: string
  wp_Filter :: string
  wp_SortBy :: string
  wp_PropertyName :: string
  wp_ResourceID :: string
  wp_OutputFormat :: string
  wp_ResultType :: string

definition WFSGetFeatureKey :: "(string \<Rightarrow> string) \<Rightarrow> WFSGetFeatureParams \<Rightarrow> string" where
  "WFSGetFeatureKey H p =
     scopedKey H ''wfs-features'' (wp_Workspace p)
       [wp_TypeNames p, show_int (wp_Count p), show_int (wp_StartIndex p), wp_BBox p, wp_SRSName p, wp_Filter p,
        wp_SortBy p, wp_PropertyName p, wp_ResourceID p, wp_OutputFormat p, wp_ResultType p]"

definition MVTTileKey where
  "MVTTileKey H workspace collection tileMatrixSet z x y =
     scopedKey H ''mvt'' workspace [collection, tileMatrixSet, show_int z, show_int x, show_int y]"

definition MapTileKey where
  "MapTileKey H workspace collection tileMatrixSet z x y style format =
     scopedKey H ''maptile'' workspace [collection, tileMatrixSet, show_int z, show_int x, show_int y, style, format]"

section \<open>Fill tokens\<close>

definition epoch_at :: "Manager \<Rightarrow> CacheType \<Rightarrow> string \<Rightarrow> nat option" where
  "epoch_at m kind scope = map_of (mg_epochs m kind) scope"

definition BeginFill :: "Manager \<Rightarrow> CacheType \<Rightarrow> string \<Rightarrow> Manager \<times> FillToken" where
  "BeginFill m kind key =
     (let scope = cacheScope key
      in case epoch_at m kind scope of
           Some e \<Rightarrow> (m, \<lparr>ft_manager = Some (mg_id m), ft_kind = kind, ft_scope = scope, ft_epoch = Some e\<rparr>)
         | None \<Rightarrow>
             let g = mg_generation m + 1; e = mg_next m
             in (m\<lparr>mg_generation := g, mg_next := Suc e,
                   mg_heap := (mg_heap m)(e := \<lparr>ce_id = g, ce_invalidated = False\<rparr>),
                   mg_epochs := (mg_epochs m)(kind := AList.update scope e (mg_epochs m kind))\<rparr>,
                 \<lparr>ft_manager = Some (mg_id m), ft_kind = kind, ft_scope = scope, ft_epoch = Some e\<rparr>))"

definition CoalescingKey :: "Manager \<Rightarrow> FillToken \<Rightarrow> string \<Rightarrow> string" where
  "CoalescingKey m t key =
     (case ft_epoch t of
        None \<Rightarrow> key
      | Some e \<Rightarrow> key @ '':epoch='' @ show_nat (unat (ce_id (mg_heap m e))))"

definition currentEntry :: "Manager \<Rightarrow> CacheEntry option \<Rightarrow> bool" where
  "currentEntry m entry =
     (case entry of
        None \<Rightarrow> False
      | Some en \<Rightarrow> (case en_epoch en of None \<Rightarrow> True | Some e \<Rightarrow> \<not> ce_invalidated (mg_heap m e)))"

definition invalidateEpoch :: "CacheType \<Rightarrow> string \<Rightarrow> Manager \<Rightarrow> Manager" where
  "invalidateEpoch kind scope m =
     (case epoch_at m kind scope of
        None \<Rightarrow> m
      | Some e \<Rightarrow>
          m\<lparr>mg_heap := (mg_heap m)(e := (mg_heap m e)\<lparr>ce_invalidated := True\<rparr>),
            mg_epochs := (mg_epochs m)(kind := AList.delete scope (mg_epochs m kind))\<rparr>)"

section \<open>The invalidation index\<close>

definition scope_keys :: "Manager \<Rightarrow> CacheType \<Rightarrow> string \<Rightarrow> (string, 64 word) gomap" where
  "scope_keys m kind scope = (case map_of (mg_keys m kind) scope of None \<Rightarrow> [] | Some ks \<Rightarrow> ks)"

definition track :: "CacheEntry \<Rightarrow> Manager \<Rightarrow> Manager" where
  "track en m =
     (if en_Scope en = [] then m
      else m\<lparr>mg_keys := (mg_keys m)(en_Kind en := AList.update (en_Scope en)
               (AList.update (en_Key en) (en_Generation en) (scope_keys m (en_Kind en) (en_Scope en)))
               (mg_keys m (en_Kind en)))\<rparr>)"

text \<open>A missing key reads as generation zero.\<close>

definition untrack :: "CacheEntry option \<Rightarrow> Manager \<Rightarrow> Manager" where
  "untrack entry m =
     (case entry of
        None \<Rightarrow> m
      | Some en \<Rightarrow>
          if en_Scope en = [] then m
          else let keys = scope_keys m (en_Kind en) (en_Scope en);
                   gen = (case map_of keys (en_Key en) of None \<Rightarrow> 0 | Some g \<Rightarrow> g);
                   keys' = AList.delete (en_Key en) keys
               in if gen \<noteq> en_Generation en then m
                  else m\<lparr>mg_keys := (mg_keys m)(en_Kind en :=
                         if keys' = [] then AList.delete (en_Scope en) (mg_keys m (en_Kind en))
                         else AList.update (en_Scope en) keys' (mg_keys m (en_Kind en)))\<rparr>)"

definition trackedCount :: "Manager \<Rightarrow> CacheType \<Rightarrow> int" where
  "trackedCount m kind = int (sum_list (map (\<lambda>(_, ks). length ks) (mg_keys m kind)))"

section \<open>Reading and writing\<close>

definition usable :: "Manager \<Rightarrow> CacheType \<Rightarrow> bool" where
  "usable m kind = (cf_Enabled (mg_config m) \<and> tc_Enabled (cf_types (mg_config m) kind) \<and> mg_caches m)"

text \<open>The shape of \<^verbatim>\<open>GetCapabilities\<close>, \<^verbatim>\<open>GetCollections\<close>, \<^verbatim>\<open>GetFeatures\<close> and \<^verbatim>\<open>GetTile\<close>; \<open>answer\<close> is
  what ristretto finds.\<close>

definition cache_get :: "CacheType \<Rightarrow> CacheEntry option \<Rightarrow> Manager \<Rightarrow> Manager \<times> string option" where
  "cache_get kind answer m =
     (if \<not> usable m kind then (m, None)
      else if currentEntry m answer
           then (m\<lparr>mg_hits := (mg_hits m)(kind := mg_hits m kind + 1)\<rparr>, map_option en_Value answer)
           else (m\<lparr>mg_misses := (mg_misses m)(kind := mg_misses m kind + 1)\<rparr>, None))"

definition GetCapabilities where "GetCapabilities = cache_get CacheTypeCapabilities"
definition GetCollections where "GetCollections = cache_get CacheTypeCollections"
definition GetFeatures where "GetFeatures = cache_get CacheTypeFeatures"
definition GetTile where "GetTile = cache_get CacheTypeTiles"

text \<open>\<^verbatim>\<open>m.set\<close>. Returns whether ristretto accepted the entry, and the command if it was asked.\<close>

definition cache_set ::
    "CacheType \<Rightarrow> string \<Rightarrow> string \<Rightarrow> duration \<Rightarrow> int \<Rightarrow> FillToken option \<Rightarrow> bool \<Rightarrow> Manager \<Rightarrow> Manager \<times> command list \<times> bool" where
  "cache_set kind key v ttl maxEntrySize token accepted m =
     (if ttl \<le> 0 \<or> \<not> mg_caches m then (m, [], False)
      else if maxEntrySize > 0 \<and> int (length v) > maxEntrySize
           then (m\<lparr>mg_oversized := (mg_oversized m)(kind := mg_oversized m kind + 1)\<rparr>, [], False)
      else let (m, t) = (case token of None \<Rightarrow> BeginFill m kind key | Some t \<Rightarrow> (m, t))
           in case ft_epoch t of
                None \<Rightarrow> (m, [], False)
              | Some e \<Rightarrow>
                  if ft_manager t \<noteq> Some (mg_id m) \<or> ft_kind t \<noteq> kind \<or> ft_scope t \<noteq> cacheScope key \<or>
                     ce_invalidated (mg_heap m e)
                  then (m, [], False)
                  else let g = mg_generation m + 1;
                           en = \<lparr>en_epoch = Some e, en_Value = v, en_Kind = kind, en_Scope = cacheScope key,
                                 en_Key = key, en_Generation = g\<rparr>;
                           m1 = track en (m\<lparr>mg_generation := g\<rparr>)
                       in (if accepted then m1 else untrack (Some en) m1,
                           [SetWithTTL kind key en (int (length key + length v + 64)) ttl], accepted))"

text \<open>The typed setters; each is skipped when its cache is off.\<close>

definition cache_put :: "CacheType \<Rightarrow> string \<Rightarrow> string \<Rightarrow> duration \<Rightarrow> FillToken option \<Rightarrow> bool \<Rightarrow> Manager \<Rightarrow> Manager \<times> command list" where
  "cache_put kind key v ttl token accepted m =
     (if \<not> usable m kind then (m, [])
      else case cache_set kind key v ttl (tc_MaxEntrySize (cf_types (mg_config m) kind)) token accepted m of
             (m', cmds, _) \<Rightarrow> (m', cmds))"

definition SetCapabilities where
  "SetCapabilities key v token accepted m =
     cache_put CacheTypeCapabilities key v (tc_TTL (cf_types (mg_config m) CacheTypeCapabilities)) token accepted m"

definition SetCollections where
  "SetCollections key v token accepted m =
     cache_put CacheTypeCollections key v (tc_TTL (cf_types (mg_config m) CacheTypeCollections)) token accepted m"

definition SetFeatures where
  "SetFeatures key v ttl token accepted m =
     cache_put CacheTypeFeatures key v
       (if ttl = 0 then tc_TTL (cf_types (mg_config m) CacheTypeFeatures) else ttl) token accepted m"

definition SetTile where
  "SetTile key v ttl token accepted m =
     cache_put CacheTypeTiles key v
       (if ttl = 0 then tc_TTL (cf_types (mg_config m) CacheTypeTiles) else ttl) token accepted m"

definition chooseTTL :: "duration \<Rightarrow> duration \<Rightarrow> duration" where
  "chooseTTL v fallback = (if v > 0 then v else fallback)"

definition getBytes :: "CacheType \<Rightarrow> CacheEntry option \<Rightarrow> Manager \<Rightarrow> Manager \<times> string option" where
  "getBytes kind answer m =
     (case kind of
        CacheTypeCapabilities \<Rightarrow> GetCapabilities answer m
      | CacheTypeCollections \<Rightarrow> GetCollections answer m
      | CacheTypeFeatures \<Rightarrow> GetFeatures answer m
      | CacheTypeTiles \<Rightarrow> GetTile answer m
      | CacheTypeCounts \<Rightarrow> (m, None))"

definition setBytes :: "CacheType \<Rightarrow> string \<Rightarrow> string \<Rightarrow> duration \<Rightarrow> FillToken option \<Rightarrow> bool \<Rightarrow> Manager \<Rightarrow> Manager \<times> command list" where
  "setBytes kind key v ttl token accepted m =
     (case kind of
        CacheTypeFeatures \<Rightarrow> SetFeatures key v ttl token accepted m
      | CacheTypeTiles \<Rightarrow> SetTile key v ttl token accepted m
      | CacheTypeCounts \<Rightarrow> (m, [])
      | _ \<Rightarrow> cache_put kind key v (chooseTTL ttl (tc_TTL (cf_types (mg_config m) kind))) token accepted m)"

definition SetCount :: "string \<Rightarrow> int \<Rightarrow> FillToken option \<Rightarrow> bool \<Rightarrow> Manager \<Rightarrow> Manager \<times> command list" where
  "SetCount key v token accepted m =
     (if \<not> usable m CacheTypeCounts then (m, [])
      else case cache_set CacheTypeCounts key (show_int v) (tc_TTL (cf_types (mg_config m) CacheTypeCounts)) 0 token accepted m of
             (m', cmds, _) \<Rightarrow> (m', cmds))"

text \<open>\<^verbatim>\<open>Sscanf\<close> with \<^verbatim>\<open>%d\<close>, on what \<^verbatim>\<open>SetCount\<close> stores: an optional sign and digits.\<close>

definition scan_int :: "string \<Rightarrow> int option" where
  "scan_int s =
     (let neg = (s \<noteq> [] \<and> hd s = CHR ''-''); ds = takeWhile is_digit (if neg then tl s else s)
      in if ds = [] then None else Some (if neg then - int (read_nat ds) else int (read_nat ds)))"

definition GetCount :: "CacheEntry option \<Rightarrow> Manager \<Rightarrow> Manager \<times> int option" where
  "GetCount answer m =
     (if \<not> usable m CacheTypeCounts then (m, None)
      else if \<not> currentEntry m answer
           then (m\<lparr>mg_misses := (mg_misses m)(CacheTypeCounts := mg_misses m CacheTypeCounts + 1)\<rparr>, None)
      else case answer of
             None \<Rightarrow> (m, None)
           | Some en \<Rightarrow>
               (case scan_int (en_Value en) of
                  None \<Rightarrow> (m, None)
                | Some v \<Rightarrow> (m\<lparr>mg_hits := (mg_hits m)(CacheTypeCounts := mg_hits m CacheTypeCounts + 1)\<rparr>, Some v)))"

text \<open>\<^verbatim>\<open>LoadBytes\<close> without coalescing: \<open>answer1\<close> is what ristretto finds at first, \<open>answer2\<close> what it finds in
  the load function, \<open>loader\<close> what the loader returns. The value is returned whether or not it is
  admitted.\<close>

datatype LoadSource = LoadSourceHit | LoadSourceLoaded

definition load_bytes ::
    "CacheType \<Rightarrow> string \<Rightarrow> duration \<Rightarrow> FillToken \<Rightarrow> CacheEntry option \<Rightarrow> string + string \<Rightarrow> bool \<Rightarrow> Manager \<Rightarrow>
     Manager \<times> command list \<times> (string + string)" where
  "load_bytes kind key ttl token answer loader accepted m =
     (case getBytes kind answer m of
        (m, Some v) \<Rightarrow> (m, [], Inr v)
      | (m, None) \<Rightarrow>
          (case loader of
             Inl err \<Rightarrow> (m\<lparr>mg_loadErrors := (mg_loadErrors m)(kind := mg_loadErrors m kind + 1)\<rparr>, [], Inl err)
           | Inr v \<Rightarrow> (case setBytes kind key v ttl (Some token) accepted m of (m', cmds) \<Rightarrow> (m', cmds, Inr v))))"

definition LoadBytes ::
    "CacheType \<Rightarrow> string \<Rightarrow> duration \<Rightarrow> CacheEntry option \<Rightarrow> CacheEntry option \<Rightarrow> string + string \<Rightarrow> bool \<Rightarrow> Manager \<Rightarrow>
     Manager \<times> command list \<times> (string + string) \<times> LoadSource" where
  "LoadBytes kind key ttl answer1 answer2 loader accepted m =
     (case BeginFill m kind key of
        (m, token) \<Rightarrow>
          (case getBytes kind answer1 m of
             (m, Some v) \<Rightarrow> (m, [], Inr v, LoadSourceHit)
           | (m, None) \<Rightarrow>
               (case load_bytes kind key ttl token answer2 loader accepted m of
                  (m, cmds, r) \<Rightarrow> (m, cmds, r, LoadSourceLoaded))))"

section \<open>Invalidation\<close>

definition invalidateScope :: "CacheType \<Rightarrow> string \<Rightarrow> Manager \<Rightarrow> Manager \<times> command list" where
  "invalidateScope kind scope m =
     (let m = invalidateEpoch kind scope m; keys = scope_keys m kind scope
      in (m\<lparr>mg_keys := (mg_keys m)(kind := AList.delete scope (mg_keys m kind))\<rparr>, map (Del kind \<circ> fst) keys))"

definition invalidate_if :: "CacheType \<Rightarrow> string \<Rightarrow> Manager \<Rightarrow> Manager \<times> command list" where
  "invalidate_if kind scope m = (if \<not> mg_caches m then (m, []) else invalidateScope kind scope m)"

definition InvalidateCapabilities where "InvalidateCapabilities = invalidate_if CacheTypeCapabilities"
definition InvalidateCollections where "InvalidateCollections = invalidate_if CacheTypeCollections"
definition InvalidateFeatures where "InvalidateFeatures = invalidate_if CacheTypeFeatures"
definition InvalidateTiles where "InvalidateTiles = invalidate_if CacheTypeTiles"

text \<open>Running methods one after the other, collecting their commands.\<close>

primrec in_sequence :: "(Manager \<Rightarrow> Manager \<times> command list) list \<Rightarrow> Manager \<Rightarrow> Manager \<times> command list" where
  "in_sequence [] m = (m, [])"
| "in_sequence (f # fs) m = (case f m of (m', cs) \<Rightarrow> case in_sequence fs m' of (m'', ds) \<Rightarrow> (m'', cs @ ds))"

definition InvalidateWorkspace :: "string \<Rightarrow> Manager \<Rightarrow> Manager \<times> command list" where
  "InvalidateWorkspace workspaceID =
     in_sequence [InvalidateCapabilities workspaceID, InvalidateCollections workspaceID, InvalidateFeatures workspaceID,
       InvalidateTiles workspaceID, invalidateScope CacheTypeCounts workspaceID]"

definition InvalidateLayer :: "string \<Rightarrow> string \<Rightarrow> Manager \<Rightarrow> Manager \<times> command list" where
  "InvalidateLayer workspaceID layerID =
     in_sequence [InvalidateCapabilities workspaceID, InvalidateCollections workspaceID, InvalidateFeatures workspaceID,
       InvalidateTiles workspaceID]"

definition invalidate_kind :: "CacheType \<Rightarrow> Manager \<Rightarrow> Manager" where
  "invalidate_kind kind m = fold (invalidateEpoch kind) (map fst (mg_epochs m kind)) m"

definition ClearAll :: "Manager \<Rightarrow> Manager \<times> command list" where
  "ClearAll m =
     (let m = fold invalidate_kind all_types m
      in (m\<lparr>mg_epochs := (\<lambda>_. []), mg_keys := (\<lambda>_. [])\<rparr>, if mg_caches m then map Clear all_types else []))"

definition ClearByType :: "CacheType \<Rightarrow> Manager \<Rightarrow> Manager \<times> command list" where
  "ClearByType kind m =
     (let m = invalidate_kind kind m
      in (m\<lparr>mg_keys := (mg_keys m)(kind := [])\<rparr>, if mg_caches m then [Clear kind] else []))"

section \<open>Request policy\<close>

text \<open>\<^verbatim>\<open>strings.Cut\<close> at the equals sign and \<^verbatim>\<open>strings.Trim\<close> of quotes; the argument is the list of all
  directives of all \<^verbatim>\<open>Cache-Control\<close> headers, in order.\<close>

definition cut_equals :: "string \<Rightarrow> string \<times> string" where
  "cut_equals s = (takeWhile (\<lambda>c. c \<noteq> CHR ''='') s, tl (dropWhile (\<lambda>c. c \<noteq> CHR ''='') s))"

definition trim_quotes :: "string \<Rightarrow> string" where
  "trim_quotes s = rev (dropWhile (\<lambda>c. c = CHR 34) (rev (dropWhile (\<lambda>c. c = CHR 34) s)))"

primrec policy_loop :: "string list \<Rightarrow> bool \<Rightarrow> bool + bool" where
  "policy_loop [] read = Inr read"
| "policy_loop (d # ds) read =
     (let kv = cut_equals (to_lower (trim_space d)); key = trim_space (fst kv)
      in if key = ''no-store'' then Inl False
         else if key = ''no-cache'' then policy_loop ds False
         else if key = ''max-age'' \<and> trim_quotes (trim_space (snd kv)) = ''0'' then policy_loop ds False
         else policy_loop ds read)"

fun split_comma :: "string \<Rightarrow> string list" where
  "split_comma [] = [[]]"
| "split_comma (c # cs) =
     (if c = CHR '','' then [] # split_comma cs
      else case split_comma cs of [] \<Rightarrow> [[c]] | p # ps \<Rightarrow> (c # p) # ps)"

definition RequestCachePolicy :: "string list \<Rightarrow> string \<Rightarrow> bool \<times> bool" where
  "RequestCachePolicy cacheControl pragma =
     (case policy_loop (concat (map split_comma cacheControl)) True of
        Inl _ \<Rightarrow> (False, False)
      | Inr read \<Rightarrow>
          let first = (case cacheControl of [] \<Rightarrow> [] | h # _ \<Rightarrow> h)
          in if first = [] \<and> equal_fold (trim_space pragma) ''no-cache'' then (False, True) else (read, True))"

end
