(* ===== verification/Cache_Properties.thy ===== *)
theory Cache_Properties
  imports Cache_Manager
begin

text \<open>
  The properties of the cache manager: a value read before an invalidation is never served after
  it, whatever ristretto keeps and however fills, invalidations and evictions interleave; an
  invalidation of one scope leaves the others; the invalidation index keeps the latest entry of a
  key; the keys determine their scope and their parameters.
\<close>

section \<open>Histories\<close>

datatype cache_op =
  Op_Begin CacheType string
| Op_Set CacheType string string duration int "FillToken option" bool
| Op_Get CacheType "CacheEntry option"
| Op_Invalidate CacheType string
| Op_ClearAll
| Op_ClearByType CacheType
| Op_Exit CacheEntry

fun cache_exec :: "cache_op \<Rightarrow> Manager \<Rightarrow> Manager" where
  "cache_exec (Op_Begin kind key) m = fst (BeginFill m kind key)"
| "cache_exec (Op_Set kind key v ttl maxSize token accepted) m = fst (cache_set kind key v ttl maxSize token accepted m)"
| "cache_exec (Op_Get kind answer) m = fst (cache_get kind answer m)"
| "cache_exec (Op_Invalidate kind scope) m = fst (invalidateScope kind scope m)"
| "cache_exec Op_ClearAll m = fst (ClearAll m)"
| "cache_exec (Op_ClearByType kind) m = fst (ClearByType kind m)"
| "cache_exec (Op_Exit en) m = untrack (Some en) m"

text \<open>The operations that invalidate a scope of a cache.\<close>

fun invalidates :: "cache_op \<Rightarrow> CacheType \<Rightarrow> string \<Rightarrow> bool" where
  "invalidates (Op_Invalidate kind scope) k s = (kind = k \<and> scope = s)"
| "invalidates Op_ClearAll k s = True"
| "invalidates (Op_ClearByType kind) k s = (kind = k)"
| "invalidates _ k s = False"

section \<open>Epochs\<close>

definition dead_epoch :: "nat \<Rightarrow> Manager \<Rightarrow> bool" where
  "dead_epoch e m = (e < mg_next m \<and> ce_invalidated (mg_heap m e))"

definition owns_epoch :: "CacheType \<Rightarrow> string \<Rightarrow> nat \<Rightarrow> Manager \<Rightarrow> bool" where
  "owns_epoch kind scope e m = (e < mg_next m \<and> (ce_invalidated (mg_heap m e) \<or> epoch_at m kind scope = Some e))"

text \<open>The current epochs are allocated, not invalidated, and no two scopes share one.\<close>

definition epochs_wf :: "Manager \<Rightarrow> bool" where
  "epochs_wf m =
     (\<forall>kind scope e. epoch_at m kind scope = Some e \<longrightarrow> e < mg_next m \<and> \<not> ce_invalidated (mg_heap m e) \<and>
        (\<forall>k s. epoch_at m k s = Some e \<longrightarrow> k = kind \<and> s = scope))"

definition live_epoch :: "CacheType \<Rightarrow> string \<Rightarrow> nat \<Rightarrow> Manager \<Rightarrow> bool" where
  "live_epoch kind scope e m = (epochs_wf m \<and> epoch_at m kind scope = Some e)"

text \<open>The parts of the state the epochs live in; most methods do not touch them.\<close>

definition same_epochs :: "Manager \<Rightarrow> Manager \<Rightarrow> bool" where
  "same_epochs m m' = (mg_heap m' = mg_heap m \<and> mg_next m' = mg_next m \<and> mg_epochs m' = mg_epochs m \<and>
     mg_id m' = mg_id m \<and> mg_config m' = mg_config m \<and> mg_caches m' = mg_caches m)"

lemma same_epochs_refl [simp]: "same_epochs m m" by (simp add: same_epochs_def)

lemma same_epochs_track [simp]: "same_epochs m (track en m)" "same_epochs m (untrack x m)"
  by (auto simp: same_epochs_def track_def untrack_def Let_def split: option.splits)

lemma same_epochs_get [simp]: "same_epochs m (fst (cache_get kind answer m))"
  by (simp add: same_epochs_def cache_get_def)

lemma same_epochs_trans: "same_epochs a b \<Longrightarrow> same_epochs b c \<Longrightarrow> same_epochs a c"
  by (simp add: same_epochs_def)

lemma same_epochs_inv:
  assumes "same_epochs m m'"
  shows "dead_epoch e m' = dead_epoch e m" "owns_epoch kind scope e m' = owns_epoch kind scope e m"
    "epochs_wf m' = epochs_wf m" "live_epoch kind scope e m' = live_epoch kind scope e m"
  using assms by (auto simp: same_epochs_def dead_epoch_def owns_epoch_def epochs_wf_def live_epoch_def epoch_at_def)

text \<open>A set touches the epochs only by the fill it may begin itself.\<close>

lemma cache_set_epochs:
  "same_epochs m (fst (cache_set kind key v ttl maxSize token accepted m)) \<or>
   same_epochs (fst (BeginFill m kind key)) (fst (cache_set kind key v ttl maxSize token accepted m))"
proof (cases token)
  case None
  have "same_epochs (fst (BeginFill m kind key)) (fst (cache_set kind key v ttl maxSize token accepted m)) \<or>
      same_epochs m (fst (cache_set kind key v ttl maxSize token accepted m))"
    using None
    by (auto simp: cache_set_def Let_def split_beta same_epochs_def track_def untrack_def split: option.splits if_splits)
  then show ?thesis by blast
next
  case (Some t)
  then have "same_epochs m (fst (cache_set kind key v ttl maxSize token accepted m))"
    by (auto simp: cache_set_def Let_def same_epochs_def track_def untrack_def split: option.splits)
  then show ?thesis ..
qed

lemma invalidateEpoch_at:
  "epoch_at (invalidateEpoch kind scope m) k s = (if k = kind \<and> s = scope then None else epoch_at m k s)"
  by (auto simp: invalidateEpoch_def epoch_at_def map_of_delete_iff split: option.splits)

lemma invalidateEpoch_heap:
  "ce_invalidated (mg_heap (invalidateEpoch kind scope m) e) =
     (ce_invalidated (mg_heap m e) \<or> epoch_at m kind scope = Some e)"
  "mg_next (invalidateEpoch kind scope m) = mg_next m"
  by (auto simp: invalidateEpoch_def split: option.splits)

lemma BeginFill_at:
  "epoch_at (fst (BeginFill m kind key)) k s =
     (if k = kind \<and> s = cacheScope key \<and> epoch_at m kind (cacheScope key) = None then Some (mg_next m) else epoch_at m k s)"
  by (auto simp: BeginFill_def epoch_at_def Let_def map_of_update_iff split: option.splits)

lemma BeginFill_heap:
  "mg_next m \<le> mg_next (fst (BeginFill m kind key))"
  "ce_invalidated (mg_heap (fst (BeginFill m kind key)) e) =
     (if e = mg_next m \<and> epoch_at m kind (cacheScope key) = None then False else ce_invalidated (mg_heap m e))"
  "mg_next (fst (BeginFill m kind key)) = (if epoch_at m kind (cacheScope key) = None then Suc (mg_next m) else mg_next m)"
  by (auto simp: BeginFill_def Let_def split: option.splits)

lemma BeginFill_token:
  "snd (BeginFill m kind key) =
     \<lparr>ft_manager = Some (mg_id m), ft_kind = kind, ft_scope = cacheScope key,
      ft_epoch = epoch_at (fst (BeginFill m kind key)) kind (cacheScope key)\<rparr>"
  by (auto simp: BeginFill_def epoch_at_def Let_def map_of_update_iff split: option.splits)

subsection \<open>Preservation\<close>

lemma begin_keeps:
  "dead_epoch e m \<Longrightarrow> dead_epoch e (fst (BeginFill m kind key))"
  "owns_epoch k s e m \<Longrightarrow> owns_epoch k s e (fst (BeginFill m kind key))"
  by (auto simp: dead_epoch_def owns_epoch_def BeginFill_at BeginFill_heap)

lemma epochs_wfD:
  assumes "epochs_wf m" "epoch_at m kind scope = Some e"
  shows "e < mg_next m" "\<not> ce_invalidated (mg_heap m e)" "epoch_at m k s = Some e \<Longrightarrow> k = kind \<and> s = scope"
  using assms unfolding epochs_wf_def by blast+

lemma begin_keeps_wf:
  assumes "epochs_wf m"
  shows "epochs_wf (fst (BeginFill m kind key))"
proof (cases "epoch_at m kind (cacheScope key)")
  case None
  have new: "epoch_at m k s \<noteq> Some (mg_next m)" for k s using epochs_wfD(1) [OF assms] by blast
  show ?thesis
    unfolding epochs_wf_def BeginFill_at BeginFill_heap using None new epochs_wfD [OF assms]
    by (auto split: if_splits intro: less_SucI)
next
  case (Some e)
  then have "fst (BeginFill m kind key) = m" by (simp add: BeginFill_def Let_def)
  with assms show ?thesis by simp
qed

lemma begin_keeps_live: "live_epoch k s e m \<Longrightarrow> live_epoch k s e (fst (BeginFill m kind key))"
  by (auto simp: live_epoch_def begin_keeps_wf BeginFill_at)

lemma invalidate_keeps:
  "dead_epoch e m \<Longrightarrow> dead_epoch e (invalidateEpoch kind scope m)"
  "owns_epoch k s e m \<Longrightarrow> owns_epoch k s e (invalidateEpoch kind scope m)"
  by (auto simp: dead_epoch_def owns_epoch_def invalidateEpoch_at invalidateEpoch_heap)

lemma invalidate_keeps_wf:
  assumes "epochs_wf m"
  shows "epochs_wf (invalidateEpoch kind scope m)"
  unfolding epochs_wf_def invalidateEpoch_at invalidateEpoch_heap using epochs_wfD [OF assms]
  by (auto split: if_splits)

lemma invalidate_keeps_live:
  "live_epoch k s e m \<Longrightarrow> k \<noteq> kind \<or> s \<noteq> scope \<Longrightarrow> live_epoch k s e (invalidateEpoch kind scope m)"
  by (auto simp: live_epoch_def invalidate_keeps_wf invalidateEpoch_at)

lemma invalidateEpoch_kills:
  "owns_epoch kind scope e m \<Longrightarrow> dead_epoch e (invalidateEpoch kind scope m)"
  by (auto simp: dead_epoch_def owns_epoch_def invalidateEpoch_heap)

text \<open>Invalidating every scope of a type.\<close>

interpretation inv_dead: step_invariant "invalidateEpoch kind" "dead_epoch e" for kind e
  by unfold_locales (rule invalidate_keeps)

interpretation inv_owns: step_invariant "invalidateEpoch kind" "owns_epoch k s e" for kind k s e
  by unfold_locales (rule invalidate_keeps)

interpretation inv_wf: step_invariant "invalidateEpoch kind" epochs_wf for kind
  by unfold_locales (rule invalidate_keeps_wf)

lemma fold_invalidate_live:
  "live_epoch k s e m \<Longrightarrow> k \<noteq> kind \<Longrightarrow> live_epoch k s e (fold (invalidateEpoch kind) scopes m)"
  by (induction scopes arbitrary: m) (auto intro: invalidate_keeps_live)

lemma fold_invalidate_kills:
  "owns_epoch kind scope e m \<Longrightarrow> scope \<in> set scopes \<Longrightarrow> dead_epoch e (fold (invalidateEpoch kind) scopes m)"
proof (induction scopes arbitrary: m)
  case (Cons s scopes)
  then show ?case
    by (cases "s = scope") (auto intro: Cons.IH invalidate_keeps(2) inv_dead.run_inv invalidateEpoch_kills)
qed simp

lemma invalidate_kind_keeps:
  "dead_epoch e m \<Longrightarrow> dead_epoch e (invalidate_kind kind m)"
  "owns_epoch k s e m \<Longrightarrow> owns_epoch k s e (invalidate_kind kind m)"
  "epochs_wf m \<Longrightarrow> epochs_wf (invalidate_kind kind m)"
  "live_epoch k s e m \<Longrightarrow> k \<noteq> kind \<Longrightarrow> live_epoch k s e (invalidate_kind kind m)"
  unfolding invalidate_kind_def
  by (simp_all add: inv_dead.run_inv inv_owns.run_inv inv_wf.run_inv fold_invalidate_live)

lemma invalidate_kind_kills: "owns_epoch kind scope e m \<Longrightarrow> dead_epoch e (invalidate_kind kind m)"
proof (cases "ce_invalidated (mg_heap m e)")
  case True
  moreover assume "owns_epoch kind scope e m"
  ultimately show ?thesis by (intro invalidate_kind_keeps(1)) (simp add: dead_epoch_def owns_epoch_def)
next
  case False
  assume own: "owns_epoch kind scope e m"
  with False have "map_of (mg_epochs m kind) scope = Some e" by (simp add: owns_epoch_def epoch_at_def)
  then have "scope \<in> set (map fst (mg_epochs m kind))" by (metis domI dom_map_of_conv_image_fst set_map)
  with own show ?thesis unfolding invalidate_kind_def by (rule fold_invalidate_kills)
qed

lemma all_kinds: "k \<in> set all_types" by (cases k) (simp_all add: all_types_def)

lemma fold_kinds_kills:
  "owns_epoch kind scope e m \<Longrightarrow> kind \<in> set ks \<Longrightarrow> dead_epoch e (fold invalidate_kind ks m)"
proof (induction ks arbitrary: m)
  case (Cons k ks)
  have keep: "dead_epoch e m' \<Longrightarrow> dead_epoch e (fold invalidate_kind ks m')" for m'
    by (induction ks arbitrary: m') (auto intro: invalidate_kind_keeps)
  from Cons show ?case by (cases "k = kind") (auto intro: keep invalidate_kind_kills invalidate_kind_keeps)
qed simp

subsection \<open>Operations\<close>

lemma invalidateScope_epochs: "same_epochs (invalidateEpoch kind scope m) (fst (invalidateScope kind scope m))"
  by (simp add: invalidateScope_def Let_def same_epochs_def)

lemma ClearByType_epochs: "same_epochs (invalidate_kind kind m) (fst (ClearByType kind m))"
  by (simp add: ClearByType_def Let_def same_epochs_def)

lemma ClearAll_heap:
  "mg_heap (fst (ClearAll m)) = mg_heap (fold invalidate_kind all_types m)"
  "mg_next (fst (ClearAll m)) = mg_next (fold invalidate_kind all_types m)"
  "epoch_at (fst (ClearAll m)) k s = None"
  by (simp_all add: ClearAll_def Let_def epoch_at_def)

interpretation kinds_dead: step_invariant invalidate_kind "dead_epoch e" for e
  by unfold_locales (rule invalidate_kind_keeps)

lemma cache_set_keeps:
  assumes "P m" "P (fst (BeginFill m kind key))" "\<And>a b. same_epochs a b \<Longrightarrow> P b = P a"
  shows "P (fst (cache_set kind key v ttl maxSize token accepted m))"
  using cache_set_epochs [of m kind key v ttl maxSize token accepted] assms by blast

lemma exec_dead: "dead_epoch e m \<Longrightarrow> dead_epoch e (cache_exec op m)"
proof (cases op)
  case (Op_Set kind key v ttl maxSize token accepted)
  moreover assume "dead_epoch e m"
  ultimately show ?thesis using begin_keeps(1) same_epochs_inv(1) by (auto intro!: cache_set_keeps [of "dead_epoch e"])
next
  case Op_ClearAll
  moreover assume "dead_epoch e m"
  ultimately show ?thesis using kinds_dead.run_inv [of e m all_types] by (simp add: dead_epoch_def ClearAll_heap)
qed (use same_epochs_inv(1) [OF invalidateScope_epochs] same_epochs_inv(1) [OF ClearByType_epochs]
    same_epochs_inv(1) [OF same_epochs_get] same_epochs_inv(1) [OF same_epochs_track(2)] in
    \<open>simp_all add: begin_keeps invalidate_keeps invalidate_kind_keeps\<close>)

lemma exec_owns:
  assumes "owns_epoch k s e m"
  shows "owns_epoch k s e (cache_exec op m)"
proof (cases op)
  case (Op_Set kind key v ttl maxSize token accepted)
  then show ?thesis using assms begin_keeps(2) same_epochs_inv(2) by (auto intro!: cache_set_keeps [of "owns_epoch k s e"])
next
  case Op_ClearAll
  have "dead_epoch e (fold invalidate_kind all_types m)" using fold_kinds_kills [OF assms all_kinds] .
  with Op_ClearAll show ?thesis by (simp add: owns_epoch_def dead_epoch_def ClearAll_heap)
qed (use assms same_epochs_inv(2) [OF invalidateScope_epochs] same_epochs_inv(2) [OF ClearByType_epochs]
    same_epochs_inv(2) [OF same_epochs_get] same_epochs_inv(2) [OF same_epochs_track(2)] in
    \<open>simp_all add: begin_keeps invalidate_keeps invalidate_kind_keeps\<close>)

lemma exec_wf:
  assumes "epochs_wf m"
  shows "epochs_wf (cache_exec op m)"
proof (cases op)
  case (Op_Set kind key v ttl maxSize token accepted)
  then show ?thesis using assms begin_keeps_wf same_epochs_inv(3)
    by (auto intro!: cache_set_keeps [of epochs_wf])
next
  case Op_ClearAll
  then show ?thesis by (simp add: epochs_wf_def ClearAll_heap)
qed (use assms same_epochs_inv(3) [OF invalidateScope_epochs] same_epochs_inv(3) [OF ClearByType_epochs]
    same_epochs_inv(3) [OF same_epochs_get] same_epochs_inv(3) [OF same_epochs_track(2)] in
    \<open>simp_all add: begin_keeps_wf invalidate_keeps_wf invalidate_kind_keeps\<close>)

lemma exec_live:
  assumes "live_epoch k s e m" "\<not> invalidates op k s"
  shows "live_epoch k s e (cache_exec op m)"
proof (cases op)
  case (Op_Set kind key v ttl maxSize token accepted)
  then show ?thesis using assms begin_keeps_live same_epochs_inv(4) by (auto intro!: cache_set_keeps [of "live_epoch k s e"])
qed (use assms same_epochs_inv(4) [OF invalidateScope_epochs] same_epochs_inv(4) [OF ClearByType_epochs]
    same_epochs_inv(4) [OF same_epochs_get] same_epochs_inv(4) [OF same_epochs_track(2)] in
    \<open>auto simp: begin_keeps_live invalidate_keeps_live invalidate_kind_keeps\<close>)

lemma exec_kills:
  assumes "owns_epoch k s e m" "invalidates op k s"
  shows "dead_epoch e (cache_exec op m)"
proof (cases op)
  case Op_ClearAll
  then show ?thesis using fold_kinds_kills [OF assms(1) all_kinds] by (simp add: dead_epoch_def ClearAll_heap)
qed (use assms same_epochs_inv(1) [OF invalidateScope_epochs] same_epochs_inv(1) [OF ClearByType_epochs] in
    \<open>auto simp: invalidateEpoch_kills invalidate_kind_kills\<close>)

interpretation run_dead: step_invariant cache_exec "dead_epoch e" for e
  by unfold_locales (rule exec_dead)

interpretation run_owns: step_invariant cache_exec "owns_epoch k s e" for k s e
  by unfold_locales (rule exec_owns)

interpretation run_wf: step_invariant cache_exec epochs_wf
  by unfold_locales (rule exec_wf)

text \<open>Identity and configuration of the manager never change.\<close>

definition is_manager :: "nat \<Rightarrow> Config \<Rightarrow> bool \<Rightarrow> Manager \<Rightarrow> bool" where
  "is_manager self cfg caches m = (mg_id m = self \<and> mg_config m = cfg \<and> mg_caches m = caches)"

lemma is_manager_begin: "is_manager i c b (fst (BeginFill m kind key)) = is_manager i c b m"
  by (auto simp: is_manager_def BeginFill_def Let_def split: option.splits)

lemma is_manager_invalidate [simp]: "is_manager i c b (invalidateEpoch kind scope m) = is_manager i c b m"
  by (auto simp: is_manager_def invalidateEpoch_def split: option.splits)

lemma is_manager_invalidate_kind [simp]: "is_manager i c b (invalidate_kind kind m) = is_manager i c b m"
proof -
  have "is_manager i c b (fold (invalidateEpoch kind) ss m) = is_manager i c b m" for ss
    by (induction ss arbitrary: m) auto
  then show ?thesis by (simp add: invalidate_kind_def)
qed

lemma is_manager_same: "same_epochs a b' \<Longrightarrow> is_manager i c b b' = is_manager i c b a"
  by (auto simp: is_manager_def same_epochs_def)

lemma is_manager_ClearAll: "is_manager i c b (fst (ClearAll m)) = is_manager i c b m"
proof -
  have "is_manager i c b (fold invalidate_kind ks m) = is_manager i c b m" for ks
    by (induction ks arbitrary: m) auto
  then show ?thesis by (simp add: ClearAll_def Let_def is_manager_def)
qed

interpretation run_manager: step_invariant cache_exec "is_manager i c b" for i c b
proof
  show "is_manager i c b m \<Longrightarrow> is_manager i c b (cache_exec op m)" for m op
    using is_manager_same cache_set_keeps [of "is_manager i c b"]
    by (cases op) (auto simp: is_manager_begin is_manager_ClearAll is_manager_same [OF invalidateScope_epochs]
        is_manager_same [OF ClearByType_epochs] is_manager_same [OF same_epochs_get] is_manager_same [OF same_epochs_track(2)])
qed

lemma NewManager_wf: "epochs_wf (NewManager self cfg)" "is_manager self (with_defaults cfg) (cf_Enabled cfg) (NewManager self cfg)"
  by (simp_all add: epochs_wf_def NewManager_def epoch_at_def is_manager_def)

lemma BeginFill_owns:
  assumes "epochs_wf m" "BeginFill m kind key = (m', t)"
  obtains e where "ft_epoch t = Some e" "live_epoch kind (cacheScope key) e m'" "owns_epoch kind (cacheScope key) e m'"
proof -
  let ?s = "cacheScope key"
  have m': "m' = fst (BeginFill m kind key)" and t: "t = snd (BeginFill m kind key)" using assms(2) by simp_all
  obtain e where e: "epoch_at m' kind ?s = Some e"
    by (cases "epoch_at m kind ?s") (auto simp: m' BeginFill_at)
  then have "ft_epoch t = Some e" unfolding t m' BeginFill_token by simp
  moreover have wf: "epochs_wf m'" unfolding m' using begin_keeps_wf [OF assms(1)] .
  ultimately show thesis
    using that [of e] e epochs_wfD(1) [OF wf e] by (simp add: live_epoch_def owns_epoch_def)
qed

section \<open>Properties of the fill protocol\<close>

text \<open>
  C26. No stale value is served. Take a token begun in any state of a manager, then any operations,
  then an operation that invalidates the token's scope, then any operations. From then on a set
  with that token is refused before ristretto is asked, and an entry that was stored with it (an
  entry stored with a token carries the token's epoch, its value and its key) is a miss, so the
  cache does not depend on ristretto having deleted it.
\<close>

theorem stale_fill_never_served:
  assumes "m0 = fold cache_exec ops0 (NewManager self cfg)"
    and "BeginFill m0 kind key = (m1, t)"
    and "invalidates op kind (cacheScope key)"
    and "m = fold cache_exec ops2 (cache_exec op (fold cache_exec ops1 m1))"
  shows "(\<forall>k key' v ttl maxSize accepted. snd (cache_set k key' v ttl maxSize (Some t) accepted m) = ([], False)) \<and>
    (\<forall>en k. en_epoch en = ft_epoch t \<longrightarrow> snd (cache_get k (Some en) m) = None) \<and>
    (\<forall>m' k key' v ttl maxSize accepted en k' key'' c d.
       SetWithTTL k' key'' en c d \<in> set (fst (snd (cache_set k key' v ttl maxSize (Some t) accepted m'))) \<longrightarrow>
       en_epoch en = ft_epoch t \<and> en_Value en = v \<and> en_Key en = key' \<and> key'' = key' \<and> k' = k)"
proof -
  have "epochs_wf m0" unfolding assms(1) by (rule run_wf.run_inv [OF NewManager_wf(1)])
  from BeginFill_owns [OF this assms(2)] obtain e where e: "ft_epoch t = Some e" "owns_epoch kind (cacheScope key) e m1" .
  have "dead_epoch e (cache_exec op (fold cache_exec ops1 m1))"
    by (rule exec_kills [OF run_owns.run_inv [OF e(2)] assms(3)])
  then have "dead_epoch e m" unfolding assms(4) by (rule run_dead.run_inv)
  then have dead: "ce_invalidated (mg_heap m e)" by (simp add: dead_epoch_def)
  have "snd (cache_set k key' v ttl maxSize (Some t) accepted m) = ([], False)" for k key' v ttl maxSize accepted
    using e dead by (simp add: cache_set_def)
  moreover have "snd (cache_get k (Some en) m) = None" if "en_epoch en = ft_epoch t" for en k
    using that e dead by (simp add: cache_get_def currentEntry_def)
  moreover have "en_epoch en = ft_epoch t \<and> en_Value en = v \<and> en_Key en = key' \<and> key'' = key' \<and> k' = k"
    if "SetWithTTL k' key'' en c d \<in> set (fst (snd (cache_set k key' v ttl maxSize (Some t) accepted m')))"
    for m' k key' v ttl maxSize accepted en k' key'' c d
    using that e by (auto simp: cache_set_def Let_def split: if_splits)
  ultimately show ?thesis by blast
qed

theorem stale_fill_never_served_witness:
  "let (m1, t) = BeginFill (NewManager 0 DefaultConfig) CacheTypeFeatures ''features:ws:x'' in
   snd (cache_set CacheTypeFeatures ''features:ws:x'' ''old'' second 0 (Some t) True
     (fst (InvalidateFeatures ''ws'' m1))) = ([], False)"
proof -
  let ?key = "''features:ws:x''"
  obtain m1 t where b: "BeginFill (NewManager 0 DefaultConfig) CacheTypeFeatures ?key = (m1, t)" by fastforce
  have scope: "cacheScope ?key = ''ws''" by (simp add: cacheScope_def legacy_kinds_def)
  have "mg_caches m1" using b scope by (auto simp: BeginFill_def NewManager_def DefaultConfig_def epoch_at_def Let_def)
  then have m: "fst (InvalidateFeatures ''ws'' m1) = cache_exec (Op_Invalidate CacheTypeFeatures ''ws'') m1"
    by (simp add: InvalidateFeatures_def invalidate_if_def)
  have "snd (cache_set CacheTypeFeatures ?key ''old'' second 0 (Some t) True (fst (InvalidateFeatures ''ws'' m1))) = ([], False)"
    using stale_fill_never_served [of "NewManager 0 DefaultConfig" "[]" 0 DefaultConfig CacheTypeFeatures ?key m1 t
        "Op_Invalidate CacheTypeFeatures ''ws''" "cache_exec (Op_Invalidate CacheTypeFeatures ''ws'') m1" "[]" "[]"]
      b scope m by simp
  with b show ?thesis by simp
qed

text \<open>
  Invalidation is precise: as long as no operation invalidates the token's own scope, whatever
  happens to the other scopes and types, a value within the size limit that is set with the token is
  offered to ristretto, and when ristretto gives the entry back it is served.
\<close>

theorem fill_survives_other_scopes:
  assumes "m0 = fold cache_exec ops0 (NewManager self cfg)"
    and "BeginFill m0 kind key = (m1, t)"
    and "\<forall>op \<in> set ops1 \<union> set ops2. \<not> invalidates op kind (cacheScope key)"
    and "cf_Enabled cfg" "tc_Enabled (cf_types cfg kind)" "ttl > 0" "maxSize > 0 \<longrightarrow> int (length v) \<le> maxSize"
    and "m2 = fold cache_exec ops1 m1"
  shows "\<exists>en. fst (snd (cache_set kind key v ttl maxSize (Some t) True m2)) =
      [SetWithTTL kind key en (int (length key + length v + 64)) ttl] \<and>
    snd (cache_get kind (Some en) (fold cache_exec ops2 (fst (cache_set kind key v ttl maxSize (Some t) True m2)))) = Some v"
proof -
  let ?s = "cacheScope key"
  have live_run: "live_epoch kind ?s e m \<Longrightarrow> \<forall>op \<in> set ops. \<not> invalidates op kind ?s \<Longrightarrow>
      live_epoch kind ?s e (fold cache_exec ops m)" for e m ops
    by (induction ops arbitrary: m) (auto intro: exec_live)
  have wf0: "epochs_wf m0" unfolding assms(1) by (rule run_wf.run_inv [OF NewManager_wf(1)])
  have man0: "is_manager self (with_defaults cfg) True m0"
    unfolding assms(1) using run_manager.run_inv NewManager_wf(2) assms(4) by metis
  from BeginFill_owns [OF wf0 assms(2)] obtain e where e: "ft_epoch t = Some e" "live_epoch kind ?s e m1" by blast
  have man1: "is_manager self (with_defaults cfg) True m1" using man0 assms(2) is_manager_begin by (metis fst_conv)
  have man2: "is_manager self (with_defaults cfg) True m2" unfolding assms(8) by (rule run_manager.run_inv [OF man1])
  have live2: "live_epoch kind ?s e m2" unfolding assms(8) using assms(3) by (intro live_run [OF e(2)]) auto
  then have ok: "\<not> ce_invalidated (mg_heap m2 e)" using epochs_wfD(2) by (auto simp: live_epoch_def)
  have t: "ft_manager t = Some self" "ft_kind t = kind" "ft_scope t = ?s"
    using BeginFill_token [of m0 kind key] assms(2) man0 by (simp_all add: is_manager_def)
  define en where "en = \<lparr>en_epoch = Some e, en_Value = v, en_Kind = kind, en_Scope = ?s, en_Key = key,
    en_Generation = mg_generation m2 + 1\<rparr>"
  have set2: "cache_set kind key v ttl maxSize (Some t) True m2 = (track en (m2\<lparr>mg_generation := mg_generation m2 + 1\<rparr>),
      [SetWithTTL kind key en (int (length key + length v + 64)) ttl], True)"
    using assms(6,7) man2 t e(1) ok by (auto simp: cache_set_def is_manager_def Let_def en_def)
  let ?m3 = "fst (cache_set kind key v ttl maxSize (Some t) True m2)" and ?op = "Op_Set kind key v ttl maxSize (Some t) True"
  have "live_epoch kind ?s e ?m3" using exec_live [OF live2, of ?op] by simp
  then have live: "live_epoch kind ?s e (fold cache_exec ops2 ?m3)" using assms(3) by (intro live_run) auto
  have "is_manager self (with_defaults cfg) True ?m3" using run_manager.exec_inv [OF man2, of ?op] by simp
  then have "is_manager self (with_defaults cfg) True (fold cache_exec ops2 ?m3)" by (rule run_manager.run_inv)
  then have "usable (fold cache_exec ops2 ?m3) kind"
    using assms(4,5) by (simp add: usable_def is_manager_def with_defaults_def)
  moreover have "currentEntry (fold cache_exec ops2 ?m3) (Some en)"
    using live epochs_wfD(2) by (auto simp: currentEntry_def en_def live_epoch_def)
  ultimately have "snd (cache_get kind (Some en) (fold cache_exec ops2 ?m3)) = Some v"
    by (simp add: cache_get_def en_def)
  with set2 show ?thesis by auto
qed

lemma default_config_types:
  "cf_Enabled DefaultConfig" "tc_Enabled (cf_types DefaultConfig CacheTypeTiles)"
  by (simp_all add: DefaultConfig_def type_config_def)

theorem fill_survives_other_scopes_witness:
  "let (m1, t) = BeginFill (NewManager 0 DefaultConfig) CacheTypeTiles ''tiles:ws:x'' in
   \<exists>en. snd (cache_get CacheTypeTiles (Some en) (fold cache_exec [Op_Invalidate CacheTypeTiles ''other'', Op_ClearByType CacheTypeCounts]
     (fst (cache_set CacheTypeTiles ''tiles:ws:x'' ''png'' second 0 (Some t) True m1)))) = Some ''png''"
proof -
  let ?key = "''tiles:ws:x''"
  obtain m1 t where b: "BeginFill (NewManager 0 DefaultConfig) CacheTypeTiles ?key = (m1, t)" by fastforce
  have scope: "cacheScope ?key = ''ws''" by (simp add: cacheScope_def legacy_kinds_def)
  have "\<exists>en. fst (snd (cache_set CacheTypeTiles ?key ''png'' second 0 (Some t) True m1)) =
      [SetWithTTL CacheTypeTiles ?key en (int (length ?key + length ''png'' + 64)) second] \<and>
    snd (cache_get CacheTypeTiles (Some en) (fold cache_exec [Op_Invalidate CacheTypeTiles ''other'', Op_ClearByType CacheTypeCounts]
      (fst (cache_set CacheTypeTiles ?key ''png'' second 0 (Some t) True m1)))) = Some ''png''"
    by (rule fill_survives_other_scopes [where ?ops0.0 = "[]" and self = 0 and cfg = DefaultConfig and ?ops1.0 = "[]" and ?ops2.0 =
          "[Op_Invalidate CacheTypeTiles ''other'', Op_ClearByType CacheTypeCounts]", OF _ b])
      (simp_all add: scope default_config_types)
  with b show ?thesis by auto
qed

section \<open>Properties of the invalidation index\<close>

lemma scope_keys_track:
  "en_Scope en \<noteq> [] \<Longrightarrow> scope_keys (track en m) (en_Kind en) (en_Scope en) =
     AList.update (en_Key en) (en_Generation en) (scope_keys m (en_Kind en) (en_Scope en))"
  by (simp add: track_def scope_keys_def map_of_update_iff)

lemma scope_keys_untrack:
  "scope_keys (untrack (Some en) m) k s =
     (if en_Scope en \<noteq> [] \<and> k = en_Kind en \<and> s = en_Scope en \<and>
         (case map_of (scope_keys m k s) (en_Key en) of None \<Rightarrow> 0 | Some g \<Rightarrow> g) = en_Generation en
      then AList.delete (en_Key en) (scope_keys m k s) else scope_keys m k s)"
  (is "_ = (if ?c then _ else _)")
proof (cases "en_Scope en \<noteq> [] \<and>
    (case map_of (scope_keys m (en_Kind en) (en_Scope en)) (en_Key en) of None \<Rightarrow> 0 | Some g \<Rightarrow> g) = en_Generation en")
  case False
  then have "untrack (Some en) m = m" by (auto simp: untrack_def Let_def)
  with False show ?thesis by auto
next
  case True
  let ?ks = "AList.delete (en_Key en) (scope_keys m (en_Kind en) (en_Scope en))"
  have u: "untrack (Some en) m = m\<lparr>mg_keys := (mg_keys m)(en_Kind en :=
      if ?ks = [] then AList.delete (en_Scope en) (mg_keys m (en_Kind en))
      else AList.update (en_Scope en) ?ks (mg_keys m (en_Kind en)))\<rparr>"
    using True by (simp add: untrack_def Let_def)
  show ?thesis
  proof (cases "k = en_Kind en \<and> s = en_Scope en")
    case same: True
    then have "scope_keys (untrack (Some en) m) k s = ?ks"
      unfolding u by (simp add: scope_keys_def map_of_update_iff map_of_delete_iff)
    with same True show ?thesis by simp
  next
    case False
    then have "scope_keys (untrack (Some en) m) k s = scope_keys m k s"
      unfolding u by (auto simp: scope_keys_def map_of_update_iff map_of_delete_iff)
    with False show ?thesis by auto
  qed
qed

lemma untrack_other_generation:
  assumes "map_of (scope_keys m kind scope) key = Some g" "en_Generation en \<noteq> g"
  shows "map_of (scope_keys (untrack (Some en) m) kind scope) key = Some g"
  using assms by (auto simp: scope_keys_untrack map_of_delete_iff)

text \<open>
  The invalidation index follows the latest entry of a key. After an accepted set the key of a
  scoped entry is indexed under the entry's generation; when ristretto later reports the exit of
  any other entry, of the same key or not, the key stays indexed; so an invalidation of the scope
  deletes it. When the entry itself exits, or ristretto does not accept it, the key is not indexed.
\<close>

theorem index_follows_latest_entry:
  assumes "cache_set kind key v ttl maxSize token accepted m = (m', [SetWithTTL kind key en c d], accepted)"
    and "cacheScope key \<noteq> []" "en_Generation old \<noteq> en_Generation en"
  shows "(accepted \<longrightarrow> Del kind key \<in> set (snd (invalidateScope kind (cacheScope key) (untrack (Some old) m')))) \<and>
    (accepted \<longrightarrow> Del kind key \<notin> set (snd (invalidateScope kind (cacheScope key) (untrack (Some en) m')))) \<and>
    (\<not> accepted \<longrightarrow> Del kind key \<notin> set (snd (invalidateScope kind (cacheScope key) m')))"
proof -
  let ?s = "cacheScope key"
  from assms(1) obtain m1 where en: "en_Kind en = kind" "en_Scope en = ?s" "en_Key en = key"
    and m': "m' = (if accepted then track en m1 else untrack (Some en) (track en m1))"
    by (fastforce simp: cache_set_def Let_def split_beta split: if_splits option.splits)
  have dels: "Del kind key \<in> set (snd (invalidateScope kind ?s n)) \<longleftrightarrow> map_of (scope_keys n kind ?s) key \<noteq> None" for n
  proof -
    have "mg_keys (invalidateEpoch kind ?s n) = mg_keys n"
      by (simp add: invalidateEpoch_def split: option.splits)
    then show ?thesis by (auto simp: invalidateScope_def Let_def scope_keys_def map_of_eq_None_iff)
  qed
  have tracked: "map_of (scope_keys (track en m1) kind ?s) key = Some (en_Generation en)"
    using scope_keys_track [of en m1] en assms(2) by (simp add: map_of_update_iff)
  have gone: "map_of (scope_keys (untrack (Some en) (track en m1)) kind ?s) key = None"
    using tracked en assms(2) by (simp add: scope_keys_untrack)
  show ?thesis
    using tracked gone untrack_other_generation [OF tracked assms(3)] unfolding dels m' by simp
qed

theorem index_follows_latest_entry_witness:
  "\<exists>m' en old. cache_set CacheTypeTiles ''tiles:ws:x'' ''png'' second 0 None True (NewManager 0 DefaultConfig) =
      (m', [SetWithTTL CacheTypeTiles ''tiles:ws:x'' en 77 second], True) \<and>
    Del CacheTypeTiles ''tiles:ws:x'' \<in> set (snd (invalidateScope CacheTypeTiles ''ws'' (untrack (Some old) m')))"
proof -
  let ?key = "''tiles:ws:x''"
  have scope: "cacheScope ?key = ''ws''" by (simp add: cacheScope_def legacy_kinds_def)
  obtain m' en where set: "cache_set CacheTypeTiles ?key ''png'' second 0 None True (NewManager 0 DefaultConfig) =
      (m', [SetWithTTL CacheTypeTiles ?key en 77 second], True)" and gen: "en_Generation en = 2"
    by (simp add: cache_set_def BeginFill_def NewManager_def default_config_types epoch_at_def Let_def scope)
  have "Del CacheTypeTiles ?key \<in> set (snd (invalidateScope CacheTypeTiles ''ws'' (untrack (Some (en\<lparr>en_Generation := 0\<rparr>)) m')))"
    using index_follows_latest_entry [OF set, of "en\<lparr>en_Generation := 0\<rparr>"] scope gen by simp
  with set show ?thesis by blast
qed

section \<open>Properties of the keys\<close>

lemma split_colon_nonempty: "split_colon s \<noteq> []"
  by (induction s) (auto split: list.splits)

lemma split_colon_append: "CHR '':'' \<notin> set a \<Longrightarrow> split_colon (a @ CHR '':'' # b) = a # split_colon b"
  by (induction a) auto

lemma no_colon_EncodeToString: "CHR '':'' \<notin> set (EncodeToString s)"
  by (rule EncodeToString_no_char) (simp add: code_of_def)

lemma append_colon_inject:
  "CHR '':'' \<notin> set a \<Longrightarrow> CHR '':'' \<notin> set b \<Longrightarrow> a @ CHR '':'' # x = b @ CHR '':'' # y \<longleftrightarrow> a = b \<and> x = y"
  by (metis list.inject split_colon_append append_same_eq same_append_eq)

lemma big_endian_inject: "n < 2 ^ 64 \<Longrightarrow> n' < 2 ^ 64 \<Longrightarrow> big_endian 8 n = big_endian 8 n' \<Longrightarrow> n = n'"
proof -
  assume n: "n < 2 ^ 64" "n' < 2 ^ 64" and eq: "big_endian 8 n = big_endian 8 n'"
  have "(256::nat) ^ 8 = 2 ^ 64" by simp
  then have "n mod 256 ^ 8 = n" "n' mod 256 ^ 8 = n'" using n by (simp_all only: mod_less)
  moreover have "n mod 256 ^ 8 = n' mod 256 ^ 8"
    using read_bytes_from [of 0 8 n] read_bytes_from [of 0 8 n'] eq by (simp only: mult_zero_left add_0)
  ultimately show "n = n'" by metis
qed

lemma big_endian_nonempty [simp]: "big_endian 8 n \<noteq> []"
  by (metis length_big_endian list.size(3) zero_neq_numeral)

lemma encode_fields_inject:
  assumes "encode_fields xs = encode_fields ys" "\<forall>x \<in> set xs \<union> set ys. length x < 2 ^ 64"
  shows "xs = ys"
  using assms
proof (induction xs arbitrary: ys)
  case Nil
  then show ?case by (cases ys) (auto simp: encode_fields_def)
next
  case (Cons x xs)
  obtain y ys' where ys: "ys = y # ys'"
    using Cons.prems(1) by (cases ys) (auto simp: encode_fields_def)
  have eq: "big_endian 8 (length x) @ x @ encode_fields xs = big_endian 8 (length y) @ y @ encode_fields ys'"
    using Cons.prems ys by (simp add: encode_fields_def)
  then have be: "big_endian 8 (length x) = big_endian 8 (length y)" "x @ encode_fields xs = y @ encode_fields ys'"
    by (simp_all add: append_eq_append_conv)
  then have "length x = length y" using big_endian_inject Cons.prems(2) ys by simp
  with be(2) have "x = y" "encode_fields xs = encode_fields ys'" by (simp_all add: append_eq_append_conv)
  with Cons.IH [of ys'] Cons.prems(2) ys show ?case by simp
qed

text \<open>
  The scope of a key is the workspace it was made for, for every workspace name whatever bytes it
  has, so invalidating a workspace reaches exactly its keys; and a key determines its workspace,
  its kind and its parameters: two keys that are equal agree in all of them, or exhibit a collision
  of the hash. The parameters of a tuple are encoded with their lengths, so none runs into the next.
\<close>

theorem scopedKey_identifies:
  assumes "CHR '':'' \<notin> set kind" "CHR '':'' \<notin> set kind'" "\<forall>f \<in> set xs \<union> set ys. length f < 2 ^ 64"
  shows "cacheScope (scopedKey H kind workspace xs) = workspace \<and>
    (scopedKey H kind workspace xs = scopedKey H kind' workspace' ys \<longrightarrow>
      workspace = workspace' \<and> kind = kind' \<and>
      (xs = ys \<or> H (encode_fields xs) = H (encode_fields ys) \<and> encode_fields xs \<noteq> encode_fields ys))"
proof -
  let ?h = "H (encode_fields xs)"
  have "scopedKey H kind workspace xs = ''v2'' @ CHR '':'' # (EncodeToString workspace @ CHR '':'' # (kind @ CHR '':'' # ?h))"
    by (simp add: scopedKey_def)
  then have split: "split_colon (scopedKey H kind workspace xs) = ''v2'' # EncodeToString workspace # kind # split_colon ?h"
    using assms(1) by (simp add: split_colon_append [of "''v2''", simplified] split_colon_append no_colon_EncodeToString)
  have "Suc 0 \<le> length (split_colon ?h)" using split_colon_nonempty [of ?h] by (cases "split_colon ?h") auto
  then have "cacheScope (scopedKey H kind workspace xs) = workspace"
    unfolding cacheScope_def split by (simp add: Let_def)
  moreover have "workspace = workspace' \<and> kind = kind' \<and> H (encode_fields xs) = H (encode_fields ys)"
    if "scopedKey H kind workspace xs = scopedKey H kind' workspace' ys"
    using that assms(1,2) by (simp add: scopedKey_def append_colon_inject no_colon_EncodeToString)
  ultimately show ?thesis using encode_fields_inject assms(3) by blast
qed

theorem scopedKey_identifies_witness:
  "cacheScope (CollectionKey (\<lambda>s. s) ''a:b'' ''roads'') = ''a:b'' \<and>
   CollectionKey (\<lambda>s. s) ''a:b'' ''roads'' \<noteq> CollectionKey (\<lambda>s. s) ''a:b'' ''rivers''"
  using scopedKey_identifies [of "''collection''" "''collection''" "[''roads'']" "[''rivers'']" "\<lambda>s. s" "''a:b''" "''a:b''"]
  by (auto simp: CollectionKey_def)

section \<open>Workspace and layer invalidation\<close>

lemma in_sequence_exec:
  assumes "mg_caches m"
  shows "fst (in_sequence (map (\<lambda>k. invalidate_if k scope) ks) m) = fold (\<lambda>k m. cache_exec (Op_Invalidate k scope) m) ks m"
  using assms
proof (induction ks arbitrary: m)
  case (Cons k ks)
  have "mg_caches (fst (invalidateScope k scope m))"
    using Cons.prems run_manager.exec_inv [of "mg_id m" "mg_config m" True m "Op_Invalidate k scope"]
    by (simp add: is_manager_def)
  with Cons show ?case by (simp add: invalidate_if_def split_beta)
qed simp

lemma InvalidateLayer_exec:
  assumes "mg_caches m"
  shows "fst (InvalidateLayer ws layer m) = fold (\<lambda>k m. cache_exec (Op_Invalidate k ws) m)
    [CacheTypeCapabilities, CacheTypeCollections, CacheTypeFeatures, CacheTypeTiles] m"
  using in_sequence_exec [OF assms, of ws "[CacheTypeCapabilities, CacheTypeCollections, CacheTypeFeatures, CacheTypeTiles]"]
  by (simp add: InvalidateLayer_def InvalidateCapabilities_def InvalidateCollections_def InvalidateFeatures_def InvalidateTiles_def)

lemma InvalidateWorkspace_exec:
  assumes "mg_caches m"
  shows "fst (InvalidateWorkspace ws m) = cache_exec (Op_Invalidate CacheTypeCounts ws) (fst (InvalidateLayer ws layer m))"
  by (simp add: InvalidateWorkspace_def InvalidateLayer_def split_beta)

lemma fold_invalidate_ops_kills:
  "owns_epoch k s e m \<Longrightarrow> k \<in> set ks \<Longrightarrow> dead_epoch e (fold (\<lambda>k m. cache_exec (Op_Invalidate k s) m) ks m)"
proof (induction ks arbitrary: m)
  case (Cons k' ks)
  have keep: "dead_epoch e m' \<Longrightarrow> dead_epoch e (fold (\<lambda>k m. cache_exec (Op_Invalidate k s) m) ks m')" for m'
    by (induction ks arbitrary: m') (auto intro: exec_dead simp del: cache_exec.simps)
  show ?case
  proof (cases "k' = k")
    case True
    then show ?thesis using keep exec_kills [OF Cons.prems(1), of "Op_Invalidate k' s"] by simp
  next
    case False
    then show ?thesis using Cons exec_owns [OF Cons.prems(1), of "Op_Invalidate k' s"] by simp
  qed
qed simp

text \<open>
  Invalidating a workspace makes every entry of its scope in all five caches a miss. Invalidating
  a layer does so for capabilities, collections, features and tiles but leaves the counts of the
  workspace as they were: a cached count of the changed layer is served on.
\<close>

theorem invalidate_workspace_and_layer:
  assumes "m = fold cache_exec ops (NewManager self cfg)" "cf_Enabled cfg"
    and "BeginFill m kind key = (m1, t)" "cacheScope key = ws" "en_epoch en = ft_epoch t"
  shows "snd (cache_get kind (Some en) (fst (InvalidateWorkspace ws m1))) = None \<and>
    (kind \<noteq> CacheTypeCounts \<longrightarrow> snd (cache_get kind (Some en) (fst (InvalidateLayer ws layer m1))) = None) \<and>
    (kind = CacheTypeCounts \<longrightarrow> snd (GetCount (Some en) (fst (InvalidateLayer ws layer m1))) = snd (GetCount (Some en) m1))"
proof -
  let ?four = "[CacheTypeCapabilities, CacheTypeCollections, CacheTypeFeatures, CacheTypeTiles]"
  have wf: "epochs_wf m" unfolding assms(1) by (rule run_wf.run_inv [OF NewManager_wf(1)])
  have "is_manager self (with_defaults cfg) True m"
    unfolding assms(1) using run_manager.run_inv NewManager_wf(2) assms(2) by metis
  then have man: "is_manager self (with_defaults cfg) True m1" using assms(3) is_manager_begin by (metis fst_conv)
  then have caches: "mg_caches m1" by (simp add: is_manager_def)
  from BeginFill_owns [OF wf assms(3)] assms(4) obtain e
    where e: "ft_epoch t = Some e" "live_epoch kind ws e m1" "owns_epoch kind ws e m1" by blast
  let ?L = "fst (InvalidateLayer ws layer m1)" and ?W = "fst (InvalidateWorkspace ws m1)"
  note L = InvalidateLayer_exec [OF caches, of ws layer] and W = InvalidateWorkspace_exec [OF caches, of ws layer]
  have miss: "snd (cache_get kind (Some en) n) = None" if "dead_epoch e n" for n
    using that e(1) assms(5) by (simp add: cache_get_def currentEntry_def dead_epoch_def)
  have dead_layer: "dead_epoch e ?L" if "kind \<noteq> CacheTypeCounts"
    unfolding L by (rule fold_invalidate_ops_kills [OF e(3)]) (use that in \<open>cases kind; simp\<close>)
  have layer: "live_epoch kind ws e ?L" "is_manager self (with_defaults cfg) True ?L" if "kind = CacheTypeCounts"
    unfolding L using that e(2) man
    by (auto intro!: exec_live run_manager.exec_inv simp del: cache_exec.simps simp: L)
  have "dead_epoch e ?W"
  proof (cases "kind = CacheTypeCounts")
    case True
    have "owns_epoch kind ws e ?L" using layer(1) [OF True] epochs_wfD(1) by (auto simp: live_epoch_def owns_epoch_def)
    with True show ?thesis unfolding W by (intro exec_kills) auto
  next
    case False
    then show ?thesis unfolding W by (intro exec_dead dead_layer)
  qed
  moreover have "snd (GetCount (Some en) ?L) = snd (GetCount (Some en) m1)" if "kind = CacheTypeCounts"
  proof -
    have "currentEntry n (Some en)" if "live_epoch kind ws e n" for n
      using that epochs_wfD(2) e(1) assms(5) by (auto simp: currentEntry_def live_epoch_def)
    then have "currentEntry ?L (Some en)" "currentEntry m1 (Some en)" using layer(1) [OF \<open>kind = CacheTypeCounts\<close>] e(2) by auto
    moreover have "usable ?L CacheTypeCounts = usable m1 CacheTypeCounts"
      using layer(2) [OF \<open>kind = CacheTypeCounts\<close>] man by (simp add: usable_def is_manager_def)
    ultimately show ?thesis by (simp add: GetCount_def split: option.splits)
  qed
  ultimately show ?thesis using miss dead_layer by simp
qed

theorem invalidate_workspace_and_layer_witness:
  "let (m1, t) = BeginFill (NewManager 0 DefaultConfig) CacheTypeCounts ''counts:ws:x'';
       en = \<lparr>en_epoch = ft_epoch t, en_Value = ''42'', en_Kind = CacheTypeCounts, en_Scope = ''ws'',
             en_Key = ''counts:ws:x'', en_Generation = 2\<rparr>
   in snd (GetCount (Some en) (fst (InvalidateLayer ''ws'' ''roads'' m1))) = snd (GetCount (Some en) m1) \<and>
      snd (cache_get CacheTypeCounts (Some en) (fst (InvalidateWorkspace ''ws'' m1))) = None"
proof -
  obtain m1 t where b: "BeginFill (NewManager 0 DefaultConfig) CacheTypeCounts ''counts:ws:x'' = (m1, t)" by fastforce
  have scope: "cacheScope ''counts:ws:x'' = ''ws''" by (simp add: cacheScope_def legacy_kinds_def)
  from invalidate_workspace_and_layer [of "NewManager 0 DefaultConfig" "[]" 0 DefaultConfig, OF _ default_config_types(1) b scope]
  show ?thesis by (simp add: b)
qed

end
