(* ===== verification/Filter_Lexer.thy ===== *)
theory Filter_Lexer
  imports Sql_Quote
begin

text \<open>
  Package \<^verbatim>\<open>internal/filter\<close>, the tokens (\<^verbatim>\<open>token.go\<close>) and the lexer (\<^verbatim>\<open>lexer.go\<close>) of CQL2
  text filters. The lexer's state is the input from the current index on, with the index: the
  code only ever reads forward from \<^verbatim>\<open>l.i\<close>. Every loop runs over the rest of the input, so the
  functions are recursive in it. The lemmas: a token consumes input unless it is the end; the
  operator tokens have fixed texts; quoted strings and identifiers are read back as written.
\<close>

section \<open>Tokens\<close>

datatype tokenType =
  TokEOF | TokInvalid | TokIdent | TokString | TokNumber | TokBool | TokTemporal
| TokLParen | TokRParen | TokComma
| TokAnd | TokOr | TokNot
| TokEq | TokNeq | TokLt | TokGt | TokLte | TokGte
| TokPlus | TokMinus | TokMul | TokDiv
| TokLike | TokILike | TokBetween | TokIn | TokIs | TokNull
| TokSpatialOp | TokDWithin
| TokPoint | TokLineString | TokPolygon | TokMultiPoint | TokMultiLineString | TokMultiPolygon
| TokGeometryCollection | TokEnvelope

text \<open>The constants are numbered in this order; error messages print the number.\<close>

definition token_types :: "tokenType list" where
  "token_types =
     [TokEOF, TokInvalid, TokIdent, TokString, TokNumber, TokBool, TokTemporal, TokLParen, TokRParen, TokComma,
      TokAnd, TokOr, TokNot, TokEq, TokNeq, TokLt, TokGt, TokLte, TokGte, TokPlus, TokMinus, TokMul, TokDiv,
      TokLike, TokILike, TokBetween, TokIn, TokIs, TokNull, TokSpatialOp, TokDWithin, TokPoint, TokLineString,
      TokPolygon, TokMultiPoint, TokMultiLineString, TokMultiPolygon, TokGeometryCollection, TokEnvelope]"

definition token_number :: "tokenType \<Rightarrow> nat" where
  "token_number t = length (takeWhile (\<lambda>u. u \<noteq> t) token_types)"

record token =
  tk_typ :: tokenType
  tk_raw :: string
  tk_pos :: nat

abbreviation tok :: "tokenType \<Rightarrow> string \<Rightarrow> nat \<Rightarrow> token" where
  "tok t raw pos \<equiv> \<lparr>tk_typ = t, tk_raw = raw, tk_pos = pos\<rparr>"

section \<open>Lexer\<close>

record lexer =
  lx_rest :: string
  lx_i :: nat

abbreviation lexer_at :: "string \<Rightarrow> nat \<Rightarrow> lexer" where
  "lexer_at rest i \<equiv> \<lparr>lx_rest = rest, lx_i = i\<rparr>"

definition newLexer :: "string \<Rightarrow> lexer" where
  "newLexer s = lexer_at s 0"

text \<open>Go's \<^verbatim>\<open>string(b)\<close> of a byte: the UTF-8 encoding of the code point.\<close>

definition byte_string :: "char \<Rightarrow> string" where
  "byte_string c =
     (let n = code_of c in if n < 128 then [c] else [char_of (192 + n div 64), char_of (128 + n mod 64)])"

definition looksLikeDateOrDateTime :: "string \<Rightarrow> bool" where
  "looksLikeDateOrDateTime s =
     (length s \<ge> 10 \<and> s ! 4 = CHR ''-'' \<and> s ! 7 = CHR ''-'' \<and> list_all (\<lambda>i. is_digit (s ! i)) [0, 1, 2, 3, 5, 6, 8, 9])"

fun skipWS :: "string \<Rightarrow> nat \<Rightarrow> lexer" where
  "skipWS [] i = lexer_at [] i"
| "skipWS (c # cs) i = (if \<not> is_space c then lexer_at (c # cs) i else skipWS cs (i + 1))"

fun peekNumberStart :: "string \<Rightarrow> bool" where
  "peekNumberStart (c # d # cs) = ((c = CHR ''-'' \<or> c = CHR ''+'') \<and> (is_digit d \<or> d = CHR ''.''))"
| "peekNumberStart _ = False"

text \<open>The body of \<^verbatim>\<open>lexString\<close> and \<^verbatim>\<open>lexQuotedIdent\<close> after the opening quote: the text read so far, and
  what is left after the closing quote; \<open>None\<close> when there is none.\<close>

fun lex_quoted :: "char \<Rightarrow> string \<Rightarrow> string \<Rightarrow> nat \<Rightarrow> (string \<times> lexer) option" where
  "lex_quoted q [] sb i = None"
| "lex_quoted q (c # cs) sb i =
     (if c = q
      then (case cs of
              d # ds \<Rightarrow> if d = q then lex_quoted q ds (sb @ [q]) (i + 2) else Some (sb, lexer_at cs (i + 1))
            | [] \<Rightarrow> Some (sb, lexer_at cs (i + 1)))
      else lex_quoted q cs (sb @ [c]) (i + 1))"

definition lexString :: "string \<Rightarrow> nat \<Rightarrow> token \<times> lexer" where
  "lexString rest pos =
     (case lex_quoted squote (tl rest) [] (pos + 1) of
        Some (sb, l) \<Rightarrow> (tok TokString sb pos, l)
      | None \<Rightarrow> (tok TokInvalid rest pos, lexer_at [] (pos + length rest)))"

definition lexQuotedIdent :: "string \<Rightarrow> nat \<Rightarrow> token \<times> lexer" where
  "lexQuotedIdent rest pos =
     (case lex_quoted dquote (tl rest) [] (pos + 1) of
        Some (sb, l) \<Rightarrow> (tok TokIdent sb pos, l)
      | None \<Rightarrow> (tok TokInvalid rest pos, lexer_at [] (pos + length rest)))"

text \<open>Consuming a prefix of the input.\<close>

definition consume :: "string \<Rightarrow> nat \<Rightarrow> nat \<Rightarrow> lexer" where
  "consume rest pos k = lexer_at (drop k rest) (pos + k)"

definition is_word_char :: "char \<Rightarrow> bool" where
  "is_word_char c = (is_alpha c \<or> is_digit c \<or> c = CHR ''_'' \<or> c = CHR '':'' \<or> c = CHR ''$'')"

definition spatial_words :: "string list" where
  "spatial_words = [''EQUALS'', ''DISJOINT'', ''TOUCHES'', ''WITHIN'', ''OVERLAPS'', ''CROSSES'', ''INTERSECTS'',
     ''CONTAINS'', ''S_INTERSECTS'']"

text \<open>The token of a word, by its upper-case text.\<close>

definition word_token :: "string \<Rightarrow> nat \<Rightarrow> token" where
  "word_token raw pos =
     (let up = to_upper raw
      in if up = ''AND'' then tok TokAnd raw pos
         else if up = ''OR'' then tok TokOr raw pos
         else if up = ''NOT'' then tok TokNot raw pos
         else if up = ''LIKE'' then tok TokLike raw pos
         else if up = ''ILIKE'' then tok TokILike raw pos
         else if up = ''BETWEEN'' then tok TokBetween raw pos
         else if up = ''IN'' then tok TokIn raw pos
         else if up = ''IS'' then tok TokIs raw pos
         else if up = ''NULL'' then tok TokNull raw pos
         else if up = ''TRUE'' \<or> up = ''FALSE'' then tok TokBool (to_lower up) pos
         else if up = ''NOW'' then tok TokTemporal ''NOW'' pos
         else if up \<in> set spatial_words then tok TokSpatialOp (to_lower up) pos
         else if up = ''DWITHIN'' then tok TokDWithin (to_lower up) pos
         else if up = ''POINT'' then tok TokPoint ''POINT'' pos
         else if up = ''LINESTRING'' then tok TokLineString ''LINESTRING'' pos
         else if up = ''POLYGON'' then tok TokPolygon ''POLYGON'' pos
         else if up = ''MULTIPOINT'' then tok TokMultiPoint ''MULTIPOINT'' pos
         else if up = ''MULTILINESTRING'' then tok TokMultiLineString ''MULTILINESTRING'' pos
         else if up = ''MULTIPOLYGON'' then tok TokMultiPolygon ''MULTIPOLYGON'' pos
         else if up = ''GEOMETRYCOLLECTION'' then tok TokGeometryCollection ''GEOMETRYCOLLECTION'' pos
         else if up = ''ENVELOPE'' \<or> up = ''BBOX'' then tok TokEnvelope ''ENVELOPE'' pos
         else if looksLikeDateOrDateTime raw then tok TokTemporal raw pos
         else tok TokIdent raw pos)"

definition lexWord :: "string \<Rightarrow> nat \<Rightarrow> token \<times> lexer" where
  "lexWord rest pos =
     (let k = 1 + length (takeWhile is_word_char (tl rest))
      in (word_token (take k rest) pos, consume rest pos k))"

definition is_sign :: "char \<Rightarrow> bool" where
  "is_sign c = (c = CHR ''+'' \<or> c = CHR ''-'')"

text \<open>How many bytes \<^verbatim>\<open>lexNumber\<close> takes: a sign, digits and periods, an exponent.\<close>

definition exponent_length :: "string \<Rightarrow> nat" where
  "exponent_length s =
     (if s \<noteq> [] \<and> (hd s = CHR ''e'' \<or> hd s = CHR ''E'')
      then let sign = (if tl s \<noteq> [] \<and> is_sign (hd (tl s)) then 1 else 0)
           in 1 + sign + length (takeWhile is_digit (drop sign (tl s)))
      else 0)"

definition number_length :: "string \<Rightarrow> nat" where
  "number_length s =
     (let sign = (if s \<noteq> [] \<and> is_sign (hd s) then 1 else 0);
          digits = length (takeWhile (\<lambda>c. is_digit c \<or> c = CHR ''.'') (drop sign s))
      in sign + digits + exponent_length (drop (sign + digits) s))"

definition lexNumber :: "string \<Rightarrow> nat \<Rightarrow> token \<times> lexer" where
  "lexNumber rest pos =
     (let k = number_length rest in (tok TokNumber (take k rest) pos, consume rest pos k))"

definition is_temporal_char :: "char \<Rightarrow> bool" where
  "is_temporal_char c = (is_digit c \<or> is_alpha c \<or> c = CHR ''-'' \<or> c = CHR ''+'' \<or> c = CHR '':'' \<or> c = CHR ''.'')"

definition lexTemporalCandidate :: "string \<Rightarrow> nat \<Rightarrow> (token \<times> lexer) option" where
  "lexTemporalCandidate rest pos =
     (let raw = takeWhile is_temporal_char rest
      in if looksLikeDateOrDateTime raw
         then Some (tok TokTemporal raw pos, consume rest pos (length raw)) else None)"

definition single :: "tokenType \<Rightarrow> string \<Rightarrow> string \<Rightarrow> nat \<Rightarrow> token \<times> lexer" where
  "single t raw rest pos = (tok t raw pos, consume rest pos (length raw))"

text \<open>The switch of \<^verbatim>\<open>next\<close>, on an input that starts with \<open>ch\<close>.\<close>

definition lex_token :: "char \<Rightarrow> string \<Rightarrow> nat \<Rightarrow> token \<times> lexer" where
  "lex_token ch cs pos =
     (let rest = ch # cs in
     if ch = CHR ''('' then single TokLParen ''('' rest pos
     else if ch = CHR '')'' then single TokRParen '')'' rest pos
     else if ch = CHR '','' then single TokComma '','' rest pos
     else if ch = CHR ''+'' then single TokPlus ''+'' rest pos
     else if ch = CHR ''-''
     then if peekNumberStart rest then lexNumber rest pos else single TokMinus ''-'' rest pos
     else if ch = CHR ''*'' then single TokMul ''*'' rest pos
     else if ch = CHR ''/'' then single TokDiv ''/'' rest pos
     else if ch = CHR ''<''
     then if cs \<noteq> [] \<and> hd cs = CHR ''='' then single TokLte ''<='' rest pos
          else if cs \<noteq> [] \<and> hd cs = CHR ''>'' then single TokNeq ''<>'' rest pos
          else single TokLt ''<'' rest pos
     else if ch = CHR ''>''
     then if cs \<noteq> [] \<and> hd cs = CHR ''='' then single TokGte ''>='' rest pos
          else single TokGt ''>'' rest pos
     else if ch = CHR ''='' then single TokEq ''='' rest pos
     else if ch = squote then lexString rest pos
     else if ch = dquote then lexQuotedIdent rest pos
     else if is_digit ch \<or> ch = CHR ''.''
     then (case lexTemporalCandidate rest pos of Some r \<Rightarrow> r | None \<Rightarrow> lexNumber rest pos)
     else if is_alpha ch then lexWord rest pos
     else (tok TokInvalid (byte_string ch) pos, consume rest pos 1))"

definition lexer_next :: "lexer \<Rightarrow> token \<times> lexer" where
  "lexer_next l0 =
     (let l = skipWS (lx_rest l0) (lx_i l0)
      in case lx_rest l of
           [] \<Rightarrow> (tok TokEOF [] (lx_i l), l)
         | ch # cs \<Rightarrow> lex_token ch cs (lx_i l))"

section \<open>Lemmas\<close>

text \<open>Reading shortens the input.\<close>

lemma skipWS_length: "length (lx_rest (skipWS s i)) \<le> length s"
  by (induction s i rule: skipWS.induct) auto

lemma lex_quoted_length: "lex_quoted q cs sb i = Some (sb', l) \<Longrightarrow> length (lx_rest l) < length cs"
  by (induction q cs sb i rule: lex_quoted.induct) (auto split: if_splits list.splits)

lemma number_length_pos:
  "c = CHR ''-'' \<or> is_digit c \<or> c = CHR ''.'' \<Longrightarrow> number_length (c # cs) > 0"
  by (auto simp: number_length_def Let_def is_sign_def)

definition advances :: "string \<Rightarrow> token \<times> lexer \<Rightarrow> bool" where
  "advances rest r = (length (lx_rest (snd r)) < length rest \<and> tk_typ (fst r) \<noteq> TokEOF)"

lemma advances_consume: "k > 0 \<Longrightarrow> t \<noteq> TokEOF \<Longrightarrow> advances (ch # cs) (tok t raw pos, consume (ch # cs) pos k)"
  by (cases k) (auto simp: advances_def consume_def)

lemma advances_single: "raw \<noteq> [] \<Longrightarrow> t \<noteq> TokEOF \<Longrightarrow> advances (ch # cs) (single t raw (ch # cs) pos)"
  by (simp add: single_def advances_consume)

lemma advances_number: "ch = CHR ''-'' \<or> is_digit ch \<or> ch = CHR ''.'' \<Longrightarrow> advances (ch # cs) (lexNumber (ch # cs) pos)"
  by (simp add: lexNumber_def Let_def advances_consume number_length_pos)

lemma word_token_not_EOF: "tk_typ (word_token raw pos) \<noteq> TokEOF"
  by (simp add: word_token_def Let_def)

lemma advances_word: "advances (ch # cs) (lexWord (ch # cs) pos)"
  by (simp add: lexWord_def Let_def advances_def consume_def word_token_not_EOF)

lemma advances_quoted:
  "advances (ch # cs) (lexString (ch # cs) pos)" "advances (ch # cs) (lexQuotedIdent (ch # cs) pos)"
  using lex_quoted_length [of squote cs "[]" "pos + 1"] lex_quoted_length [of dquote cs "[]" "pos + 1"]
  by (auto simp: lexString_def lexQuotedIdent_def advances_def less_Suc_eq split: option.split prod.split)

lemma advances_temporal: "lexTemporalCandidate (ch # cs) pos = Some r \<Longrightarrow> advances (ch # cs) r"
proof -
  assume r: "lexTemporalCandidate (ch # cs) pos = Some r"
  let ?raw = "takeWhile is_temporal_char (ch # cs)"
  have "looksLikeDateOrDateTime ?raw" "r = (tok TokTemporal ?raw pos, consume (ch # cs) pos (length ?raw))"
    using r by (auto simp: lexTemporalCandidate_def Let_def split: if_splits)
  moreover have "length ?raw > 0" if "looksLikeDateOrDateTime ?raw"
    using that unfolding looksLikeDateOrDateTime_def by linarith
  ultimately show ?thesis by (simp only: advances_consume tokenType.distinct simp_thms)
qed

lemma advances_lex_token: "advances (ch # cs) (lex_token ch cs pos)"
  by (auto simp: lex_token_def Let_def advances_single advances_number advances_word advances_quoted advances_consume
      dest: advances_temporal split: option.split)

lemma lexer_next_cases:
  assumes "lexer_next l = (t, l')"
  obtains (eof) "lx_rest l' = []" "tk_typ t = TokEOF" "tk_raw t = []"
  | (token) ch cs where "lx_rest (skipWS (lx_rest l) (lx_i l)) = ch # cs"
      "(t, l') = lex_token ch cs (lx_i (skipWS (lx_rest l) (lx_i l)))"
  using assms by (cases "lx_rest (skipWS (lx_rest l) (lx_i l))") (auto simp: lexer_next_def Let_def)

lemma lexer_next_shorter:
  assumes "lexer_next l = (t, l')"
  shows "length (lx_rest l') \<le> length (lx_rest l) \<and> (tk_typ t \<noteq> TokEOF \<longrightarrow> length (lx_rest l') < length (lx_rest l))"
  using assms
proof (cases rule: lexer_next_cases)
  case (token ch cs)
  have "length (lx_rest l') < length (ch # cs)"
    using advances_lex_token [of ch cs "lx_i (skipWS (lx_rest l) (lx_i l))"]
    unfolding token(2) [symmetric] by (simp add: advances_def)
  also have "length (ch # cs) \<le> length (lx_rest l)" using skipWS_length [of "lx_rest l" "lx_i l"] token(1) by simp
  finally show ?thesis by simp
qed auto

section \<open>Texts of the tokens\<close>

text \<open>The parser copies the text of operator tokens into SQL, so it matters that they have only these.\<close>

definition token_ok :: "token \<Rightarrow> bool" where
  "token_ok t =
     (case tk_typ t of
        TokEq \<Rightarrow> tk_raw t = ''='' | TokNeq \<Rightarrow> tk_raw t = ''<>'' | TokLt \<Rightarrow> tk_raw t = ''<'' | TokGt \<Rightarrow> tk_raw t = ''>''
      | TokLte \<Rightarrow> tk_raw t = ''<='' | TokGte \<Rightarrow> tk_raw t = ''>='' | TokPlus \<Rightarrow> tk_raw t = ''+''
      | TokMinus \<Rightarrow> tk_raw t = ''-'' | TokMul \<Rightarrow> tk_raw t = ''*'' | TokDiv \<Rightarrow> tk_raw t = ''/''
      | TokBool \<Rightarrow> tk_raw t = ''true'' \<or> tk_raw t = ''false''
      | TokSpatialOp \<Rightarrow> to_upper (tk_raw t) \<in> set spatial_words \<and> to_lower (tk_raw t) = tk_raw t
      | _ \<Rightarrow> True)"

lemma word_token_ok: "token_ok (word_token raw pos)"
proof -
  have s: "to_lower ''TRUE'' = ''true''" "to_lower ''FALSE'' = ''false''"
    by code_simp+
  show ?thesis unfolding word_token_def Let_def
    by (simp add: token_ok_def s to_upper_lower split: if_split)
qed

definition lexes_ok :: "token \<times> lexer \<Rightarrow> bool" where
  "lexes_ok r = token_ok (fst r)"

lemma lexed_ok:
  "lexes_ok (lexNumber rest pos)" "lexes_ok (lexWord rest pos)" "lexes_ok (tok TokInvalid raw pos, l)"
  by (simp_all add: lexes_ok_def lexNumber_def lexWord_def Let_def word_token_ok token_ok_def [of "tok _ _ _"])

lemma lexed_quoted_ok: "lexes_ok (lexString rest pos)" "lexes_ok (lexQuotedIdent rest pos)"
  by (auto simp: lexes_ok_def lexString_def lexQuotedIdent_def token_ok_def split: option.split)

lemma lexed_temporal_ok: "lexTemporalCandidate rest pos = Some r \<Longrightarrow> lexes_ok r"
  by (auto simp: lexes_ok_def lexTemporalCandidate_def Let_def token_ok_def split: if_splits)

lemma operators_ok:
  "lexes_ok (single TokLParen raw rest pos)" "lexes_ok (single TokRParen raw rest pos)"
  "lexes_ok (single TokComma raw rest pos)" "lexes_ok (single TokPlus ''+'' rest pos)"
  "lexes_ok (single TokMinus ''-'' rest pos)" "lexes_ok (single TokMul ''*'' rest pos)"
  "lexes_ok (single TokDiv ''/'' rest pos)" "lexes_ok (single TokEq ''='' rest pos)"
  "lexes_ok (single TokNeq ''<>'' rest pos)" "lexes_ok (single TokLt ''<'' rest pos)"
  "lexes_ok (single TokGt ''>'' rest pos)" "lexes_ok (single TokLte ''<='' rest pos)"
  "lexes_ok (single TokGte ''>='' rest pos)"
  by (simp_all add: lexes_ok_def single_def token_ok_def)

lemma lex_token_ok: "token_ok (fst (lex_token ch cs pos))"
proof -
  have "lexes_ok (lex_token ch cs pos)"
    by (auto simp: lex_token_def Let_def lexed_ok lexed_quoted_ok operators_ok
        dest: lexed_temporal_ok split: option.split)
  then show ?thesis by (simp add: lexes_ok_def)
qed

lemma lexer_next_ok:
  assumes "lexer_next l = (t, l')"
  shows "token_ok t"
  using assms
proof (cases rule: lexer_next_cases)
  case eof
  then show ?thesis by (simp add: token_ok_def)
next
  case (token ch cs)
  then have "t = fst (lex_token ch cs (lx_i (skipWS (lx_rest l) (lx_i l))))" by (metis fst_conv)
  then show ?thesis using lex_token_ok by simp
qed

section \<open>Reading back quoted text\<close>

lemma lex_quoted_replace:
  assumes "r = [] \<or> hd r \<noteq> q"
  shows "\<exists>j. lex_quoted q (replace_char q [q, q] s @ q # r) sb i = Some (sb @ s, lexer_at r j)"
proof (induction s arbitrary: sb i)
  case Nil
  then show ?case using assms by (cases r) auto
next
  case (Cons c cs)
  show ?case
  proof (cases "c = q")
    case True
    then show ?thesis using Cons [of "sb @ [q]" "i + 2"] by simp
  next
    case False
    then show ?thesis using Cons [of "sb @ [c]" "i + 1"] by simp
  qed
qed

lemma skipWS_stop: "\<not> is_space c \<Longrightarrow> skipWS (c # cs) i = lexer_at (c # cs) i"
  by simp

lemma not_space_quotes: "\<not> is_space dquote" "\<not> is_space squote"
  by (simp_all add: is_space_def char_between_def code_of_def)

text \<open>A name quoted as in SQL is read as that identifier, a value as that string.\<close>

lemma lexer_next_ident:
  assumes "r = [] \<or> hd r \<noteq> dquote"
  shows "\<exists>j. lexer_next (lexer_at (QuoteIdent s @ r) i) = (tok TokIdent s i, lexer_at r j)"
proof -
  obtain j where "lex_quoted dquote (replace_char dquote [dquote, dquote] s @ dquote # r) [] (i + 1) = Some ([] @ s, lexer_at r j)"
    using lex_quoted_replace [OF assms] by blast
  then show ?thesis
    by (simp add: lexer_next_def QuoteIdent_def skipWS_stop not_space_quotes lex_token_def Let_def lexQuotedIdent_def)
qed

lemma lexer_next_literal:
  assumes "r = [] \<or> hd r \<noteq> squote"
  shows "\<exists>j. lexer_next (lexer_at (QuoteLiteral s @ r) i) = (tok TokString s i, lexer_at r j)"
proof -
  obtain j where "lex_quoted squote (replace_char squote [squote, squote] s @ squote # r) [] (i + 1) = Some ([] @ s, lexer_at r j)"
    using lex_quoted_replace [OF assms] by blast
  then show ?thesis
    by (simp add: lexer_next_def QuoteLiteral_def EscapeLiteral_def skipWS_stop not_space_quotes lex_token_def Let_def lexString_def)
qed

lemma lexer_next_space: "is_space c \<Longrightarrow> lexer_next (lexer_at (c # cs) i) = lexer_next (lexer_at cs (i + 1))"
  by (simp add: lexer_next_def)

lemma lexer_next_end: "lexer_next (lexer_at [] i) = (tok TokEOF [] i, lexer_at [] i)"
  by (simp add: lexer_next_def)

end
