(* ===== verification/Filter_Compiler.thy ===== *)
theory Filter_Compiler
  imports Filter_Lexer
begin

text \<open>
  Package \<^verbatim>\<open>internal/filter\<close>, the compilers from CQL2 text to parameterised SQL: \<^verbatim>\<open>compiler.go\<close> for
  PostGIS and \<^verbatim>\<open>duckdb.go\<close> for DuckDB. The two parsers are the same recursive descent, written
  twice; they differ in the spacing of lists, the casts and the geometry expressions. Here the
  descent is written once and the dialect is a field of the parser, so a definition without a
  case on the dialect is both methods of its name.

  A method takes the parser and returns an error or the SQL text with the parser after it. The
  numbers of \<^verbatim>\<open>strconv.ParseFloat\<close> and their order are a parameter. The descent takes fuel:
  \<open>scalar_fuel\<close> and \<open>boolean_fuel\<close> bound it by the input that is left, and \<open>Filter_Properties\<close>
  shows that the bound is never reached.
\<close>

section \<open>Options, arguments and errors\<close>

datatype dialect = PostGIS | DuckDB

record Options =
  StartParamIndex :: int
  FilterSRID :: int
  SourceSRID :: int
  AllowedProperties :: "string list"
  GeometryProperty :: string
  GeometryExpression :: string

datatype 'f arg = StringArg string | FloatArg 'f

record 'f floats =
  ParseFloat :: "string \<Rightarrow> 'f option"
  float_le :: "'f \<Rightarrow> 'f \<Rightarrow> bool"

datatype parse_error =
  UnexpectedToken string nat
| ExpectedToken tokenType nat string
| ExpectedDistance nat
| InvalidDistance string
| LikeRequiresString nat
| ExpectedNull nat
| InvalidNumber string
| ExpectedInLiteral nat
| ExpectedAnd nat
| ExpectedComparison nat
| UnexpectedScalar string nat
| UnsupportedGeometryProperty string string
| ExpectedEnvelopeNumber nat
| ExpectedGeometryParen string nat
| UnterminatedGeometry
| ExpectedGeometry nat
| UnknownProperty string
| EnvelopeCoordinates
| InvalidMinimumX
| InvalidMaximumX
| OutOfFuel

section \<open>Parser state\<close>

record 'f parser =
  pr_l :: lexer
  pr_cur :: token
  pr_peek :: token
  pr_args :: "'f arg list"
  pr_next :: int
  pr_opt :: Options
  pr_dialect :: dialect

type_synonym ('f, 'a) parse_result = "parse_error + 'a \<times> 'f parser"

abbreviation cur_typ :: "'f parser \<Rightarrow> tokenType" where "cur_typ p \<equiv> tk_typ (pr_cur p)"
abbreviation cur_raw :: "'f parser \<Rightarrow> string" where "cur_raw p \<equiv> tk_raw (pr_cur p)"
abbreviation cur_pos :: "'f parser \<Rightarrow> nat" where "cur_pos p \<equiv> tk_pos (pr_cur p)"
abbreviation peek_typ :: "'f parser \<Rightarrow> tokenType" where "peek_typ p \<equiv> tk_typ (pr_peek p)"

definition default_options :: "Options \<Rightarrow> Options" where
  "default_options opt =
     opt\<lparr>StartParamIndex := (if StartParamIndex opt \<le> 0 then 1 else StartParamIndex opt),
         FilterSRID := (if FilterSRID opt = 0 then 4326 else FilterSRID opt),
         GeometryProperty := (if GeometryProperty opt = [] then ''geom'' else GeometryProperty opt)\<rparr>"

definition start_parser :: "dialect \<Rightarrow> string \<Rightarrow> Options \<Rightarrow> 'f parser" where
  "start_parser d input opt0 =
     (let opt = default_options opt0;
          (cur, l1) = lexer_next (newLexer input);
          (peek, l2) = lexer_next l1
      in \<lparr>pr_l = l2, pr_cur = cur, pr_peek = peek, pr_args = [], pr_next = StartParamIndex opt,
          pr_opt = opt, pr_dialect = d\<rparr>)"

text \<open>The PostGIS options have no geometry expression.\<close>

definition newParser :: "string \<Rightarrow> Options \<Rightarrow> 'f parser" where
  "newParser input opt = start_parser PostGIS input (opt\<lparr>GeometryExpression := []\<rparr>)"

definition newDuckDBParser :: "string \<Rightarrow> Options \<Rightarrow> 'f parser" where
  "newDuckDBParser input opt = start_parser DuckDB input opt"

definition bump :: "'f parser \<Rightarrow> 'f parser" where
  "bump p = (let (t, l) = lexer_next (pr_l p) in p\<lparr>pr_cur := pr_peek p, pr_peek := t, pr_l := l\<rparr>)"

definition expect :: "tokenType \<Rightarrow> 'f parser \<Rightarrow> parse_error + 'f parser" where
  "expect t p = (if cur_typ p \<noteq> t then Inl (ExpectedToken t (cur_pos p) (cur_raw p)) else Inr (bump p))"

definition addArg :: "'f arg \<Rightarrow> 'f parser \<Rightarrow> string \<times> 'f parser" where
  "addArg v p =
     (CHR ''$'' # show_int (pr_next p), p\<lparr>pr_next := pr_next p + 1, pr_args := pr_args p @ [v]\<rparr>)"

text \<open>The frequent pair: the current token's value becomes an argument and the token is consumed.\<close>

definition take_arg :: "'f arg \<Rightarrow> 'f parser \<Rightarrow> string \<times> 'f parser" where
  "take_arg v p = (let (ph, p1) = addArg v p in (ph, bump p1))"

definition assertAllowedProperty :: "string \<Rightarrow> 'f parser \<Rightarrow> parse_error + unit" where
  "assertAllowedProperty name p =
     (if name \<in> set (AllowedProperties (pr_opt p)) then Inr () else Inl (UnknownProperty name))"

section \<open>Scalar expressions\<close>

definition scalarPrec :: "tokenType \<Rightarrow> int option" where
  "scalarPrec t = (case t of TokMul \<Rightarrow> Some 20 | TokDiv \<Rightarrow> Some 20 | TokPlus \<Rightarrow> Some 10 | TokMinus \<Rightarrow> Some 10 | _ \<Rightarrow> None)"

definition has :: "char \<Rightarrow> string \<Rightarrow> bool" where
  "has c s = (c \<in> set s)"

definition temporal_cast :: "dialect \<Rightarrow> string \<Rightarrow> string \<Rightarrow> string" where
  "temporal_cast d val ph =
     (case d of
        PostGIS \<Rightarrow>
          if (has CHR ''Z'' val \<or> has CHR ''+'' val)
             \<or> (has CHR ''T'' val \<and> has CHR '':'' val
                 \<and> (has CHR ''Z'' val \<or> has CHR ''+'' val \<or> has CHR ''-'' val))
          then ph @ ''::timestamptz'' else ph @ ''::timestamp''
      | DuckDB \<Rightarrow>
          if (has CHR ''Z'' val \<or> has CHR ''+'' val) \<or> (has CHR ''T'' val \<and> has CHR '':'' val)
          then ''CAST('' @ ph @ '' AS TIMESTAMPTZ)'' else ''CAST('' @ ph @ '' AS TIMESTAMP)'')"

text \<open>The cases of \<^verbatim>\<open>parseScalarPrimary\<close> that read a literal or a property.\<close>

definition parse_property :: "'f parser \<Rightarrow> ('f, string) parse_result" where
  "parse_property p =
     bind_res (assertAllowedProperty (cur_raw p) p) (\<lambda>_. Inr (QuoteIdent (cur_raw p), bump p))"

definition parse_number :: "'f floats \<Rightarrow> 'f parser \<Rightarrow> ('f, string) parse_result" where
  "parse_number fl p =
     (case ParseFloat fl (cur_raw p) of
        None \<Rightarrow> Inl (InvalidNumber (cur_raw p))
      | Some n \<Rightarrow> Inr (take_arg (FloatArg n) p))"

definition parse_temporal :: "'f parser \<Rightarrow> ('f, string) parse_result" where
  "parse_temporal p =
     (let val = cur_raw p
      in if equal_fold val ''NOW'' \<and> peek_typ p = TokLParen
         then bind_res (expect TokRParen (bump (bump p))) (\<lambda>p1. Inr (''NOW()'', p1))
         else let (ph, p1) = take_arg (StringArg val) p in Inr (temporal_cast (pr_dialect p) val ph, p1))"

fun parseScalarExpr :: "'f floats \<Rightarrow> nat \<Rightarrow> int \<Rightarrow> 'f parser \<Rightarrow> ('f, string) parse_result"
  and scalar_loop :: "'f floats \<Rightarrow> nat \<Rightarrow> int \<Rightarrow> string \<Rightarrow> 'f parser \<Rightarrow> ('f, string) parse_result"
  and parseScalarPrimary :: "'f floats \<Rightarrow> nat \<Rightarrow> 'f parser \<Rightarrow> ('f, string) parse_result"
where
  "parseScalarExpr fl 0 minPrec p = Inl OutOfFuel"
| "parseScalarExpr fl (Suc n) minPrec p =
     bind_res (parseScalarPrimary fl n p) (\<lambda>(left, p1). scalar_loop fl n minPrec left p1)"
| "scalar_loop fl 0 minPrec left p = Inl OutOfFuel"
| "scalar_loop fl (Suc n) minPrec left p =
     (case scalarPrec (cur_typ p) of
        None \<Rightarrow> Inr (left, p)
      | Some prec \<Rightarrow>
          if prec < minPrec then Inr (left, p)
          else bind_res (parseScalarExpr fl n (prec + 1) (bump p)) (\<lambda>(right, p1).
                 scalar_loop fl n minPrec (''('' @ left @ '' '' @ cur_raw p @ '' '' @ right @ '')'') p1))"
| "parseScalarPrimary fl 0 p = Inl OutOfFuel"
| "parseScalarPrimary fl (Suc n) p =
     (if cur_typ p = TokLParen
      then bind_res (parseScalarExpr fl n 0 (bump p)) (\<lambda>(inner, p1).
             bind_res (expect TokRParen p1) (\<lambda>p2. Inr (''('' @ inner @ '')'', p2)))
      else if cur_typ p = TokIdent then parse_property p
      else if cur_typ p = TokString then Inr (take_arg (StringArg (cur_raw p)) p)
      else if cur_typ p = TokNumber then parse_number fl p
      else if cur_typ p = TokBool then Inr (to_lower (cur_raw p), bump p)
      else if cur_typ p = TokTemporal then parse_temporal p
      else Inl (UnexpectedScalar (cur_raw p) (cur_pos p)))"

text \<open>The input that is left, in bytes, with the two tokens already read; it bounds the descent.\<close>

definition remaining :: "'f parser \<Rightarrow> nat" where
  "remaining p = length (lx_rest (pr_l p)) + (if cur_typ p = TokEOF then 0 else 1) + (if peek_typ p = TokEOF then 0 else 1)"

definition scalar_fuel :: "'f parser \<Rightarrow> nat" where
  "scalar_fuel p = 2 * remaining p + 2"

definition parse_scalar :: "'f floats \<Rightarrow> 'f parser \<Rightarrow> ('f, string) parse_result" where
  "parse_scalar fl p = parseScalarExpr fl (scalar_fuel p) 0 p"

lemma remaining_bump: "remaining (bump p) + (if cur_typ p = TokEOF then 0 else 1) \<le> remaining p"
proof -
  obtain t l where "lexer_next (pr_l p) = (t, l)" by fastforce
  with lexer_next_shorter [OF this] show ?thesis by (auto simp: remaining_def bump_def)
qed

lemma remaining_addArg [simp]: "remaining (snd (addArg v p)) = remaining p"
  by (simp add: addArg_def remaining_def)

lemma remaining_take_arg: "remaining (snd (take_arg v p)) + (if cur_typ p = TokEOF then 0 else 1) \<le> remaining p"
  using remaining_bump [of "snd (addArg v p)"] by (simp add: take_arg_def addArg_def remaining_def)

section \<open>Geometry expressions\<close>

definition envelopeWKT :: "'f floats \<Rightarrow> string list \<Rightarrow> parse_error + string" where
  "envelopeWKT fl coords =
     (case coords of
        [x0, y0, x1, y1] \<Rightarrow>
          (case ParseFloat fl x0 of
             None \<Rightarrow> Inl InvalidMinimumX
           | Some minX \<Rightarrow>
               (case ParseFloat fl x1 of
                  None \<Rightarrow> Inl InvalidMaximumX
                | Some maxX \<Rightarrow>
                    if float_le fl minX maxX
                    then Inr (''POLYGON(('' @ x0 @ '' '' @ y0 @ '','' @ x1 @ '' '' @ y0 @ '','' @ x1 @ '' '' @ y1 @ '',''
                              @ x0 @ '' '' @ y1 @ '','' @ x0 @ '' '' @ y0 @ ''))'')
                    else Inr (''MULTIPOLYGON((('' @ x0 @ '' '' @ y0 @ '',180 '' @ y0 @ '',180 '' @ y1 @ '',''
                              @ x0 @ '' '' @ y1 @ '','' @ x0 @ '' '' @ y0 @ '')),((-180 '' @ y0 @ '',''
                              @ x1 @ '' '' @ y0 @ '','' @ x1 @ '' '' @ y1 @ '',-180 '' @ y1 @ '',-180 '' @ y0 @ '')))'')))
      | _ \<Rightarrow> Inl EnvelopeCoordinates)"

text \<open>The loop over the four coordinates; \<open>k\<close> of them are still to be read.\<close>

fun envelope_coords :: "nat \<Rightarrow> string list \<Rightarrow> 'f parser \<Rightarrow> ('f, string list) parse_result" where
  "envelope_coords 0 coords p = Inr (coords, p)"
| "envelope_coords (Suc k) coords p =
     (if cur_typ p \<noteq> TokNumber then Inl (ExpectedEnvelopeNumber (cur_pos p))
      else let coords1 = coords @ [cur_raw p]; p1 = bump p
           in if k > 0 then bind_res (expect TokComma p1) (envelope_coords k coords1)
              else envelope_coords k coords1 p1)"

text \<open>The loop that copies a literal up to its matching parenthesis.\<close>

function wkt_loop :: "int \<Rightarrow> bool \<Rightarrow> string \<Rightarrow> 'f parser \<Rightarrow> ('f, string) parse_result" where
  "wkt_loop depth prevNum sb p =
     (let depth1 = (if cur_typ p = TokLParen then depth + 1
                    else if cur_typ p = TokRParen then depth - 1 else depth);
          sb1 = sb @ (if prevNum \<and> cur_typ p = TokNumber then '' '' else []) @ cur_raw p;
          p1 = bump p
      in if depth1 = 0 then Inr (sb1, p1)
         else if cur_typ p1 = TokEOF then Inl UnterminatedGeometry
         else wkt_loop depth1 (cur_typ p = TokNumber) sb1 p1)"
  by pat_completeness auto

text \<open>Every round starts on a token that is not the end but for the first, which is one round.\<close>

termination wkt_loop
proof (relation "measure (\<lambda>(_, _, _, p). 2 * remaining p + (if cur_typ p = TokEOF then 1 else 0))", goal_cases)
  case 1
  then show ?case by simp
next
  case (2 depth prevNum sb p)
  then show ?case using remaining_bump [of p] by (auto split: if_splits)
qed

declare wkt_loop.simps [simp del]

definition geometry_tokens :: "tokenType list" where
  "geometry_tokens = [TokPoint, TokLineString, TokPolygon, TokMultiPoint, TokMultiLineString, TokMultiPolygon, TokGeometryCollection]"

definition parseGeomLiteralWKT :: "'f floats \<Rightarrow> 'f parser \<Rightarrow> ('f, string) parse_result" where
  "parseGeomLiteralWKT fl p =
     (if cur_typ p = TokEnvelope
      then bind_res (expect TokLParen (bump p)) (\<lambda>p1.
           bind_res (envelope_coords 4 [] p1) (\<lambda>(coords, p2).
           bind_res (expect TokRParen p2) (\<lambda>p3.
           bind_res (envelopeWKT fl coords) (\<lambda>wkt. Inr (wkt, p3)))))
      else if cur_typ p \<in> set geometry_tokens
      then let kw = cur_raw p; p1 = bump p
           in if cur_typ p1 \<noteq> TokLParen then Inl (ExpectedGeometryParen kw (cur_pos p1))
              else wkt_loop 0 False (to_upper kw) p1
      else Inl (ExpectedGeometry (cur_pos p)))"

text \<open>The SQL of the geometry column and of a geometry literal, in each dialect.\<close>

definition geometry_column :: "'f parser \<Rightarrow> string \<Rightarrow> string" where
  "geometry_column p name =
     (case pr_dialect p of
        PostGIS \<Rightarrow> QuoteIdent name
      | DuckDB \<Rightarrow> if GeometryExpression (pr_opt p) \<noteq> [] then GeometryExpression (pr_opt p) else QuoteIdent name)"

definition geometry_arg :: "'f parser \<Rightarrow> string \<Rightarrow> 'f arg" where
  "geometry_arg p wkt =
     (case pr_dialect p of
        PostGIS \<Rightarrow> StringArg (''SRID='' @ show_int (FilterSRID (pr_opt p)) @ '';'' @ wkt)
      | DuckDB \<Rightarrow> StringArg wkt)"

definition geometry_literal :: "'f parser \<Rightarrow> string \<Rightarrow> string" where
  "geometry_literal p ph =
     (let opt = pr_opt p;
          reproject = (SourceSRID opt \<noteq> 0 \<and> SourceSRID opt \<noteq> FilterSRID opt)
      in case pr_dialect p of
           PostGIS \<Rightarrow>
             let sql = ph @ ''::geometry''
             in if reproject then ''ST_Transform('' @ sql @ '','' @ show_int (SourceSRID opt) @ '')'' else sql
         | DuckDB \<Rightarrow>
             let sql = ''ST_GeomFromText(CAST('' @ ph @ '' AS VARCHAR))''
             in if reproject
                then ''ST_Transform('' @ sql @ '', '' @ [squote] @ ''EPSG:'' @ show_int (FilterSRID opt) @ [squote] @ '', ''
                       @ [squote] @ ''EPSG:'' @ show_int (SourceSRID opt) @ [squote] @ '', always_xy := true)''
                else sql)"

definition parseGeomExpr :: "'f floats \<Rightarrow> 'f parser \<Rightarrow> ('f, string) parse_result" where
  "parseGeomExpr fl p =
     (if cur_typ p = TokIdent
      then if cur_raw p \<noteq> GeometryProperty (pr_opt p)
           then Inl (UnsupportedGeometryProperty (cur_raw p) (GeometryProperty (pr_opt p)))
           else Inr (geometry_column p (cur_raw p), bump p)
      else bind_res (parseGeomLiteralWKT fl p) (\<lambda>(wkt, p1).
             let (ph, p2) = addArg (geometry_arg p1 wkt) p1 in Inr (geometry_literal p2 ph, p2)))"

section \<open>Predicates\<close>

definition pgFunctionForCql :: "(string, string) gomap" where
  "pgFunctionForCql =
     [(''crosses'', ''ST_Crosses''), (''contains'', ''ST_Contains''), (''disjoint'', ''ST_Disjoint''),
      (''equals'', ''ST_Equals''), (''intersects'', ''ST_Intersects''), (''s_intersects'', ''ST_Intersects''),
      (''overlaps'', ''ST_Overlaps''), (''touches'', ''ST_Touches''), (''within'', ''ST_Within''),
      (''dwithin'', ''ST_DWithin'')]"

definition toPostGISFunction :: "string \<Rightarrow> string" where
  "toPostGISFunction name =
     (case map_of pgFunctionForCql (to_lower name) of Some f \<Rightarrow> f | None \<Rightarrow> ''UNKNOWN_'' @ name)"

definition duckdbFunctionForCql :: "(string, string) gomap" where
  "duckdbFunctionForCql =
     [(''crosses'', ''ST_Crosses''), (''contains'', ''ST_Contains''), (''disjoint'', ''ST_Disjoint''),
      (''equals'', ''ST_Equals''), (''intersects'', ''ST_Intersects''), (''s_intersects'', ''ST_Intersects''),
      (''overlaps'', ''ST_Overlaps''), (''touches'', ''ST_Touches''), (''within'', ''ST_Within''),
      (''dwithin'', ''ST_DWithin'')]"

definition toDuckDBFunction :: "string \<Rightarrow> string" where
  "toDuckDBFunction name =
     (case map_of duckdbFunctionForCql (to_lower name) of Some f \<Rightarrow> f | None \<Rightarrow> ''UNKNOWN_'' @ name)"

definition spatial_function :: "dialect \<Rightarrow> string \<Rightarrow> string" where
  "spatial_function d op = (case d of PostGIS \<Rightarrow> toPostGISFunction op | DuckDB \<Rightarrow> toDuckDBFunction op)"

definition list_sep :: "dialect \<Rightarrow> string" where
  "list_sep d = (case d of PostGIS \<Rightarrow> '','' | DuckDB \<Rightarrow> '', '')"

text \<open>Both spatial predicates start with two geometry expressions in parentheses.\<close>

definition parse_geometry_pair :: "'f floats \<Rightarrow> 'f parser \<Rightarrow> ('f, string \<times> string) parse_result" where
  "parse_geometry_pair fl p =
     bind_res (expect TokLParen p) (\<lambda>p1.
     bind_res (parseGeomExpr fl p1) (\<lambda>(g1, p2).
     bind_res (expect TokComma p2) (\<lambda>p3.
     bind_res (parseGeomExpr fl p3) (\<lambda>(g2, p4). Inr ((g1, g2), p4)))))"

definition parse_spatial :: "'f floats \<Rightarrow> 'f parser \<Rightarrow> ('f, string) parse_result" where
  "parse_spatial fl p =
     bind_res (parse_geometry_pair fl (bump p)) (\<lambda>((g1, g2), p1).
     bind_res (expect TokRParen p1) (\<lambda>p2.
       Inr (spatial_function (pr_dialect p) (to_lower (cur_raw p)) @ ''('' @ g1 @ list_sep (pr_dialect p) @ g2 @ '')'', p2)))"

definition parse_dwithin :: "'f floats \<Rightarrow> 'f parser \<Rightarrow> ('f, string) parse_result" where
  "parse_dwithin fl p =
     bind_res (parse_geometry_pair fl (bump p)) (\<lambda>((g1, g2), p1).
     bind_res (expect TokComma p1) (\<lambda>p2.
       if cur_typ p2 \<noteq> TokNumber then Inl (ExpectedDistance (cur_pos p2))
       else (case ParseFloat fl (cur_raw p2) of
               None \<Rightarrow> Inl (InvalidDistance (cur_raw p2))
             | Some dist \<Rightarrow>
                 let (ph, p3) = take_arg (FloatArg dist) p2; sep = list_sep (pr_dialect p)
                 in bind_res (expect TokRParen p3) (\<lambda>p4.
                      Inr (''ST_DWithin('' @ g1 @ sep @ g2 @ sep @ ph @ '')'', p4)))))"

text \<open>What follows a property name: \<^verbatim>\<open>LIKE\<close>, \<^verbatim>\<open>IS NULL\<close>, \<^verbatim>\<open>IN\<close>.\<close>

definition parse_like :: "string \<Rightarrow> bool \<Rightarrow> 'f parser \<Rightarrow> ('f, string) parse_result" where
  "parse_like prop neg p =
     (let p1 = bump p
      in if cur_typ p1 \<noteq> TokString then Inl (LikeRequiresString (cur_pos p1))
         else let (ph, p2) = take_arg (StringArg (cur_raw p1)) p1;
                  op = (if cur_typ p = TokILike then ''ILIKE'' else ''LIKE'')
              in Inr (QuoteIdent prop @ (if neg then '' NOT '' else '' '') @ op @ '' '' @ ph, p2))"

definition parse_is_null :: "string \<Rightarrow> 'f parser \<Rightarrow> ('f, string) parse_result" where
  "parse_is_null prop p =
     (let p1 = bump p;
          neg = (cur_typ p1 = TokNot);
          p2 = (if neg then bump p1 else p1)
      in if cur_typ p2 \<noteq> TokNull then Inl (ExpectedNull (cur_pos p2))
         else Inr (QuoteIdent prop @ (if neg then '' IS NOT NULL'' else '' IS NULL''), bump p2))"

definition parse_in_literal :: "'f floats \<Rightarrow> 'f parser \<Rightarrow> ('f, string) parse_result" where
  "parse_in_literal fl p =
     (if cur_typ p = TokString then Inr (take_arg (StringArg (cur_raw p)) p)
      else if cur_typ p = TokNumber then parse_number fl p
      else Inl (ExpectedInLiteral (cur_pos p)))"

lemma parse_in_literal_remaining: "parse_in_literal fl p = Inr (ph, p') \<Longrightarrow> remaining p' < remaining p"
proof -
  assume r: "parse_in_literal fl p = Inr (ph, p')"
  then have "cur_typ p \<noteq> TokEOF" by (auto simp: parse_in_literal_def split: if_splits)
  moreover have "\<exists>v. take_arg v p = (ph, p')"
    using r by (auto simp: parse_in_literal_def parse_number_def split: if_splits option.splits)
  ultimately show ?thesis using remaining_take_arg [of _ p] by (metis Suc_eq_plus1 Suc_le_eq snd_conv)
qed

function in_list :: "'f floats \<Rightarrow> string list \<Rightarrow> 'f parser \<Rightarrow> ('f, string list) parse_result" where
  "in_list fl phs p =
     (case parse_in_literal fl p of
        Inl e \<Rightarrow> Inl e
      | Inr (ph, p1) \<Rightarrow>
          if cur_typ p1 = TokComma then in_list fl (phs @ [ph]) (bump p1) else Inr (phs @ [ph], p1))"
  by pat_completeness auto

termination in_list
proof (relation "measure (\<lambda>(_, _, p). remaining p)", goal_cases)
  case 1
  then show ?case by simp
next
  case (2 fl phs p r ph p1)
  then have "remaining p1 < remaining p" by (auto intro: parse_in_literal_remaining)
  then show ?case using remaining_bump [of p1] by simp
qed

declare in_list.simps [simp del]

definition parse_in :: "'f floats \<Rightarrow> string \<Rightarrow> bool \<Rightarrow> 'f parser \<Rightarrow> ('f, string) parse_result" where
  "parse_in fl prop neg p =
     bind_res (expect TokLParen (bump p)) (\<lambda>p1.
     bind_res (in_list fl [] p1) (\<lambda>(phs, p2).
     bind_res (expect TokRParen p2) (\<lambda>p3.
       Inr (QuoteIdent prop @ (if neg then '' NOT IN ('' else '' IN ('') @ join (list_sep (pr_dialect p)) phs @ '')'', p3))))"

text \<open>\<^verbatim>\<open>BETWEEN\<close> and the binary comparisons, after the left side.\<close>

definition comparison_tokens :: "tokenType list" where
  "comparison_tokens = [TokEq, TokNeq, TokLt, TokGt, TokLte, TokGte]"

definition parse_between :: "'f floats \<Rightarrow> string \<Rightarrow> string \<Rightarrow> 'f parser \<Rightarrow> ('f, string) parse_result" where
  "parse_between fl left op p =
     bind_res (parse_scalar fl p) (\<lambda>(a, p1).
       if cur_typ p1 \<noteq> TokAnd then Inl (ExpectedAnd (cur_pos p1))
       else bind_res (parse_scalar fl (bump p1)) (\<lambda>(b, p2).
              Inr (left @ op @ a @ '' AND '' @ b, p2)))"

definition parse_relation :: "'f floats \<Rightarrow> string \<Rightarrow> 'f parser \<Rightarrow> ('f, string) parse_result" where
  "parse_relation fl left p =
     (if cur_typ p = TokNot \<and> peek_typ p = TokBetween
      then parse_between fl left '' NOT BETWEEN '' (bump (bump p))
      else if cur_typ p = TokBetween then parse_between fl left '' BETWEEN '' (bump p)
      else if cur_typ p \<in> set comparison_tokens
      then bind_res (parse_scalar fl (bump p)) (\<lambda>(right, p1).
             Inr (left @ '' '' @ cur_raw p @ '' '' @ right, p1))
      else Inl (ExpectedComparison (cur_pos p)))"

definition parse_property_predicate :: "'f floats \<Rightarrow> 'f parser \<Rightarrow> ('f, string) parse_result" where
  "parse_property_predicate fl p =
     (let prop = cur_raw p
      in bind_res (assertAllowedProperty prop p) (\<lambda>_.
           let p1 = bump p;
               neg = (cur_typ p1 = TokNot \<and> peek_typ p1 \<in> {TokLike, TokILike, TokIn});
               p2 = (if neg then bump p1 else p1)
           in if cur_typ p2 \<in> {TokLike, TokILike} then parse_like prop neg p2
              else if cur_typ p2 = TokIs then parse_is_null prop p2
              else if cur_typ p2 = TokIn then parse_in fl prop neg p2
              else parse_relation fl (QuoteIdent prop) p2))"

definition parseComparison :: "'f floats \<Rightarrow> 'f parser \<Rightarrow> ('f, string) parse_result" where
  "parseComparison fl p =
     (if cur_typ p = TokIdent then parse_property_predicate fl p
      else bind_res (parse_scalar fl p) (\<lambda>(left, p1). parse_relation fl left p1))"

definition parsePredicate :: "'f floats \<Rightarrow> 'f parser \<Rightarrow> ('f, string) parse_result" where
  "parsePredicate fl p =
     (if cur_typ p = TokSpatialOp then parse_spatial fl p
      else if cur_typ p = TokDWithin then parse_dwithin fl p
      else parseComparison fl p)"

section \<open>Boolean expressions\<close>

fun parseOr :: "'f floats \<Rightarrow> nat \<Rightarrow> 'f parser \<Rightarrow> ('f, string) parse_result"
  and or_loop :: "'f floats \<Rightarrow> nat \<Rightarrow> string \<Rightarrow> 'f parser \<Rightarrow> ('f, string) parse_result"
  and parseAnd :: "'f floats \<Rightarrow> nat \<Rightarrow> 'f parser \<Rightarrow> ('f, string) parse_result"
  and and_loop :: "'f floats \<Rightarrow> nat \<Rightarrow> string \<Rightarrow> 'f parser \<Rightarrow> ('f, string) parse_result"
  and parseNot :: "'f floats \<Rightarrow> nat \<Rightarrow> 'f parser \<Rightarrow> ('f, string) parse_result"
  and parsePrimary :: "'f floats \<Rightarrow> nat \<Rightarrow> 'f parser \<Rightarrow> ('f, string) parse_result"
where
  "parseOr fl 0 p = Inl OutOfFuel"
| "parseOr fl (Suc n) p = bind_res (parseAnd fl n p) (\<lambda>(left, p1). or_loop fl n left p1)"
| "or_loop fl 0 left p = Inl OutOfFuel"
| "or_loop fl (Suc n) left p =
     (if cur_typ p = TokOr
      then bind_res (parseAnd fl n (bump p)) (\<lambda>(right, p1). or_loop fl n (''('' @ left @ '' OR '' @ right @ '')'') p1)
      else Inr (left, p))"
| "parseAnd fl 0 p = Inl OutOfFuel"
| "parseAnd fl (Suc n) p = bind_res (parseNot fl n p) (\<lambda>(left, p1). and_loop fl n left p1)"
| "and_loop fl 0 left p = Inl OutOfFuel"
| "and_loop fl (Suc n) left p =
     (if cur_typ p = TokAnd
      then bind_res (parseNot fl n (bump p)) (\<lambda>(right, p1). and_loop fl n (''('' @ left @ '' AND '' @ right @ '')'') p1)
      else Inr (left, p))"
| "parseNot fl 0 p = Inl OutOfFuel"
| "parseNot fl (Suc n) p =
     (if cur_typ p = TokNot
      then bind_res (parseNot fl n (bump p)) (\<lambda>(expr, p1). Inr (''(NOT '' @ expr @ '')'', p1))
      else parsePrimary fl n p)"
| "parsePrimary fl 0 p = Inl OutOfFuel"
| "parsePrimary fl (Suc n) p =
     (if cur_typ p = TokLParen
      then bind_res (parseOr fl n (bump p)) (\<lambda>(inner, p1).
             bind_res (expect TokRParen p1) (\<lambda>p2. Inr (''('' @ inner @ '')'', p2)))
      else parsePredicate fl p)"

definition boolean_fuel :: "'f parser \<Rightarrow> nat" where
  "boolean_fuel p = 4 * remaining p + 4"

definition parse :: "'f floats \<Rightarrow> string \<Rightarrow> 'f parser \<Rightarrow> ('f, string) parse_result" where
  "parse fl input p =
     (if trim_space input = [] then Inr ([], p)
      else bind_res (parseOr fl (boolean_fuel p) p) (\<lambda>(sql, p1).
             if cur_typ p1 \<noteq> TokEOF then Inl (UnexpectedToken (cur_raw p1) (cur_pos p1)) else Inr (sql, p1)))"

definition Compile :: "'f floats \<Rightarrow> string \<Rightarrow> Options \<Rightarrow> parse_error + string \<times> 'f arg list \<times> int" where
  "Compile fl cql opt =
     bind_res (parse fl cql (newParser cql opt)) (\<lambda>(out, p). Inr (out, pr_args p, pr_next p))"

definition CompileForDuckDB :: "'f floats \<Rightarrow> string \<Rightarrow> Options \<Rightarrow> parse_error + string \<times> 'f arg list \<times> int" where
  "CompileForDuckDB fl cql opt =
     bind_res (parse fl cql (newDuckDBParser cql opt)) (\<lambda>(out, p). Inr (out, pr_args p, pr_next p))"

end
