(* ===== verification/Sql_Scan.thy ===== *)
theory Sql_Scan
  imports Filter_Compiler
begin

text \<open>
  How the database reads the text the filter compilers generate. \<open>scan_sql\<close> is a scanner for the
  lexical rules of PostgreSQL and DuckDB the text touches: quoted identifiers with doubled
  quotes, quoted literals, numbered placeholders, statement separators. It returns the
  identifiers, placeholders and separators in order, or nothing when a quoted token is left
  open. \<open>safe\<close> says what a piece of generated text may hold, and its lemmas put pieces together
  the way the parser does.
\<close>

section \<open>The scanner\<close>

datatype sql_event = Param nat | Ident string | Semicolon

datatype sql_state = Plain | InParam nat | InIdent string | AfterIdent string | InLit

type_synonym scan = "sql_state \<times> sql_event list"

definition plain_step :: "sql_event list \<Rightarrow> char \<Rightarrow> scan" where
  "plain_step es c =
     (if c = CHR ''$'' then (InParam 0, es)
      else if c = dquote then (InIdent [], es)
      else if c = squote then (InLit, es)
      else if c = CHR '';'' then (Plain, es @ [Semicolon])
      else (Plain, es))"

fun scan_step :: "scan \<Rightarrow> char \<Rightarrow> scan" where
  "scan_step (Plain, es) c = plain_step es c"
| "scan_step (InParam k, es) c =
     (if is_digit c then (InParam (10 * k + (code_of c - 48)), es) else plain_step (es @ [Param k]) c)"
| "scan_step (InIdent s, es) c = (if c = dquote then (AfterIdent s, es) else (InIdent (s @ [c]), es))"
| "scan_step (AfterIdent s, es) c =
     (if c = dquote then (InIdent (s @ [dquote]), es) else plain_step (es @ [Ident s]) c)"
| "scan_step (InLit, es) c = (if c = squote then (Plain, es) else (InLit, es))"

fun scan_end :: "scan \<Rightarrow> sql_event list option" where
  "scan_end (Plain, es) = Some es"
| "scan_end (InParam k, es) = Some (es @ [Param k])"
| "scan_end (AfterIdent s, es) = Some (es @ [Ident s])"
| "scan_end _ = None"

definition scan_sql :: "string \<Rightarrow> sql_event list option" where
  "scan_sql sql = scan_end (foldl scan_step (Plain, []) sql)"

fun params :: "sql_event list \<Rightarrow> nat list" where
  "params [] = []"
| "params (Param k # es) = k # params es"
| "params (_ # es) = params es"

section \<open>Pieces of text\<close>

text \<open>A piece read on its own, after anything that ends outside a quoted token.\<close>

definition emits :: "string \<Rightarrow> sql_event list \<Rightarrow> bool" where
  "emits s es = (\<forall>acc. scan_end (foldl scan_step (Plain, acc) s) = Some (acc @ es))"

definition plain_char :: "char \<Rightarrow> bool" where
  "plain_char c = (c \<notin> {CHR ''$'', dquote, squote, CHR '';''})"

text \<open>A character that ends a placeholder or an identifier before it.\<close>

definition separator :: "char \<Rightarrow> bool" where
  "separator c = (\<not> is_digit c \<and> c \<noteq> dquote)"

lemma emits_Nil: "emits [] []"
  by (simp add: emits_def)

lemma emits_plain: "plain_char c \<Longrightarrow> emits (c # t) es = emits t es"
  by (simp add: emits_def plain_char_def plain_step_def)

lemma scan_resume: "scan_end r = Some es \<Longrightarrow> separator c \<Longrightarrow> scan_step r c = scan_step (Plain, es) c"
  by (cases r rule: scan_end.cases) (auto simp: separator_def)

lemma emits_append:
  assumes "emits s es" "emits (c # t) fs" "separator c"
  shows "emits (s @ c # t) (es @ fs)"
  unfolding emits_def
proof
  fix acc
  let ?r = "foldl scan_step (Plain, acc) s"
  have "scan_step ?r c = scan_step (Plain, acc @ es) c"
    using assms(1, 3) by (intro scan_resume) (simp_all add: emits_def)
  then have "foldl scan_step (Plain, acc) (s @ c # t) = foldl scan_step (Plain, acc @ es) (c # t)" by simp
  then show "scan_end (foldl scan_step (Plain, acc) (s @ c # t)) = Some (acc @ es @ fs)"
    using assms(2) unfolding emits_def by simp
qed

lemma scan_digits:
  "list_all is_digit ds \<Longrightarrow>
   foldl scan_step (InParam k, acc) ds = (InParam (foldl (\<lambda>v c. 10 * v + (code_of c - 48)) k ds), acc)"
  by (induction ds arbitrary: k) auto

lemma emits_param: "emits (CHR ''$'' # show_nat k) [Param k]"
proof -
  have "list_all is_digit (show_nat k)" by (auto simp: list_all_iff intro: show_nat_digits)
  then have "foldl scan_step (Plain, acc) (CHR ''$'' # show_nat k) = (InParam k, acc)" for acc
    using read_show_nat [of k] by (simp add: plain_step_def scan_digits read_nat_def)
  then show ?thesis unfolding emits_def by (simp del: foldl_Cons)
qed

lemma scan_ident_body:
  "foldl scan_step (InIdent s, acc) (replace_char dquote [dquote, dquote] t) = (InIdent (s @ t), acc)"
  by (induction t arbitrary: s) auto

lemma emits_ident: "emits (QuoteIdent name) [Ident name]"
  by (simp add: emits_def QuoteIdent_def plain_step_def scan_ident_body)

lemma scan_literal_body: "squote \<notin> set s \<Longrightarrow> foldl scan_step (InLit, acc) s = (InLit, acc)"
  by (induction s) auto

lemma emits_literal:
  assumes "squote \<notin> set s"
  shows "emits (squote # s @ squote # t) es = emits t es"
  using assms by (simp add: emits_def plain_step_def scan_literal_body)

section \<open>Safe pieces\<close>

text \<open>
  A piece that uses the placeholders from \<open>n\<close> to before \<open>m\<close>, in order and once each, names only
  properties of the options, and holds no statement separator.
\<close>

definition event_ok :: "Options \<Rightarrow> sql_event \<Rightarrow> bool" where
  "event_ok opt e =
     (case e of
        Param _ \<Rightarrow> True
      | Ident name \<Rightarrow> name \<in> set (AllowedProperties opt) \<or> name = GeometryProperty opt
      | Semicolon \<Rightarrow> False)"

lemma event_okD:
  assumes "list_all (event_ok opt) es"
  shows "Ident name \<in> set es \<Longrightarrow> name \<in> set (AllowedProperties opt) \<or> name = GeometryProperty opt"
    and "Semicolon \<notin> set es"
  using assms by (fastforce simp: list_all_iff event_ok_def)+

definition well_scanned :: "Options \<Rightarrow> int \<Rightarrow> int \<Rightarrow> string \<Rightarrow> bool" where
  "well_scanned opt n m s = (\<exists>es. emits s es \<and> params es = map nat [n..m - 1] \<and> list_all (event_ok opt) es)"

text \<open>
  The geometry expression of the DuckDB options comes from the adapter, not from the request, and
  stands in the text as it is: the text is as good as the expression.
\<close>

definition trusted_expression :: "Options \<Rightarrow> bool" where
  "trusted_expression opt = well_scanned opt 0 0 (GeometryExpression opt)"

definition safe :: "Options \<Rightarrow> int \<Rightarrow> int \<Rightarrow> string \<Rightarrow> bool" where
  "safe opt n m s = (n \<le> m \<and> (trusted_expression opt \<longrightarrow> well_scanned opt n m s))"

definition plain_text :: "string \<Rightarrow> bool" where
  "plain_text s = list_all plain_char s"

text \<open>Fixed text that may follow any piece.\<close>

definition sep_text :: "string \<Rightarrow> bool" where
  "sep_text s = (s \<noteq> [] \<and> separator (hd s) \<and> plain_text s)"

lemma params_append [simp]: "params (es @ fs) = params es @ params fs"
  by (induction es rule: params.induct) auto

lemma safeI: "n \<le> m \<Longrightarrow> emits s es \<Longrightarrow> params es = map nat [n..m - 1] \<Longrightarrow> list_all (event_ok opt) es \<Longrightarrow> safe opt n m s"
  by (auto simp: safe_def well_scanned_def)

lemma safe_Nil [simp]: "safe opt n n []"
  by (rule safeI [OF _ emits_Nil]) simp_all

lemma safe_plain: "plain_char c \<Longrightarrow> safe opt n m (c # t) = safe opt n m t"
  by (simp add: safe_def well_scanned_def emits_plain)

lemma safe_prefix: "plain_text s \<Longrightarrow> safe opt n m t \<Longrightarrow> safe opt n m (s @ t)"
  by (induction s) (auto simp: plain_text_def safe_plain)

lemma safe_text: "plain_text s \<Longrightarrow> safe opt n n s"
  using safe_prefix [of s opt n n "[]"] by simp

lemma safe_append:
  assumes "safe opt n m s" "safe opt m k (c # t)" "separator c"
  shows "safe opt n k (s @ c # t)"
proof -
  have le: "n \<le> m" "m \<le> k" using assms(1, 2) by (simp_all add: safe_def)
  have split: "[n..k - 1] = [n..m - 1] @ [m..k - 1]" using upto_split1 [of n m "k - 1"] le
    by (cases "m \<le> k - 1") auto
  have "well_scanned opt n k (s @ c # t)" if w: "well_scanned opt n m s" "well_scanned opt m k (c # t)"
  proof -
    obtain es fs where "emits s es" "params es = map nat [n..m - 1]" "list_all (event_ok opt) es"
      and "emits (c # t) fs" "params fs = map nat [m..k - 1]" "list_all (event_ok opt) fs"
      using w by (auto simp: well_scanned_def)
    with assms(3) split show ?thesis unfolding well_scanned_def
      by (intro exI [of _ "es @ fs"]) (simp_all add: emits_append)
  qed
  with assms(1, 2) le show ?thesis by (auto simp: safe_def)
qed

lemma safe_infix:
  assumes "safe opt n m s" "safe opt m k t" "sep_text mid"
  shows "safe opt n k (s @ mid @ t)"
proof -
  obtain c cs where "mid = c # cs" "separator c" "plain_text (c # cs)"
    using assms(3) by (cases mid) (auto simp: sep_text_def)
  with safe_append [OF assms(1) _ this(2), of k "cs @ t"] safe_prefix [of "c # cs" opt m k t] assms(2) show ?thesis by simp
qed

lemma safe_suffix: "safe opt n m s \<Longrightarrow> sep_text suf \<Longrightarrow> safe opt n m (s @ suf)"
  using safe_infix [of opt n m s m "[]" suf] by simp

lemma safe_wrap: "safe opt n m s \<Longrightarrow> plain_text pre \<Longrightarrow> sep_text suf \<Longrightarrow> safe opt n m (pre @ s @ suf)"
  by (simp add: safe_prefix safe_suffix)

lemma safe_param: "n \<ge> 0 \<Longrightarrow> safe opt n (n + 1) (CHR ''$'' # show_int n)"
  by (rule safeI [of _ _ _ "[Param (nat n)]"]) (simp_all add: emits_param show_int_def event_ok_def)

lemma safe_ident:
  "name \<in> set (AllowedProperties opt) \<or> name = GeometryProperty opt \<Longrightarrow> safe opt n n (QuoteIdent name)"
  by (rule safeI [OF _ emits_ident]) (simp_all add: event_ok_def)

lemma safe_literal: "squote \<notin> set s \<Longrightarrow> safe opt n m t \<Longrightarrow> safe opt n m (squote # s @ squote # t)"
  by (simp add: safe_def well_scanned_def emits_literal)

lemma safe_expression: "safe opt n n (GeometryExpression opt)"
  by (simp add: safe_def trusted_expression_def well_scanned_def)

lemma safe_scan:
  assumes "safe opt n m s" "trusted_expression opt"
  shows "\<exists>es. scan_sql s = Some es \<and> params es = map nat [n..m - 1] \<and> list_all (event_ok opt) es"
  using assms by (auto simp: safe_def well_scanned_def emits_def scan_sql_def)

text \<open>Printed numbers are plain text.\<close>

lemma plain_digit: "is_digit c \<Longrightarrow> plain_char c"
  by (auto simp: plain_char_def is_digit_def char_between_def code_of_def)

lemma plain_show_int: "plain_text (show_int i)"
proof -
  have "plain_text (show_nat k)" for k
    by (auto simp: plain_text_def list_all_iff intro!: plain_digit dest: show_nat_digits)
  moreover have "plain_char CHR ''-''" by (simp add: plain_char_def)
  ultimately show ?thesis by (simp add: show_int_def plain_text_def)
qed

lemma plain_text_append [simp]: "plain_text (s @ t) = (plain_text s \<and> plain_text t)"
  by (simp add: plain_text_def)

lemma plain_no_squote: "plain_text s \<Longrightarrow> squote \<notin> set s"
  by (auto simp: plain_text_def list_all_iff plain_char_def)

end
