(* ===== verification/Filter_Safety.thy ===== *)
theory Filter_Safety
  imports Sql_Scan
begin

text \<open>
  What every method of the filter parsers keeps and returns: the parser only moves forward, its
  arguments and placeholders stay in step, the fuel never runs out, and the returned text is
  \<open>safe\<close>. \<open>runs\<close> is the contract of a method; its rules follow the sequencing of the calls.
\<close>

section \<open>The contract of a parser method\<close>

definition parser_wf :: "'f parser \<Rightarrow> bool" where
  "parser_wf p =
     (token_ok (pr_cur p) \<and> token_ok (pr_peek p) \<and> pr_next p \<ge> 1)"

definition moves :: "'f parser \<Rightarrow> 'f parser \<Rightarrow> bool" where
  "moves p p' =
     (parser_wf p' \<and> pr_opt p' = pr_opt p \<and> pr_dialect p' = pr_dialect p \<and> pr_next p \<le> pr_next p'
      \<and> int (length (pr_args p')) - pr_next p' = int (length (pr_args p)) - pr_next p
      \<and> remaining p' \<le> remaining p)"

definition runs :: "('a \<Rightarrow> 'f parser \<Rightarrow> bool) \<Rightarrow> 'f parser \<Rightarrow> ('f, 'a) parse_result \<Rightarrow> bool" where
  "runs Q p r = (case r of Inl e \<Rightarrow> e \<noteq> OutOfFuel | Inr (x, p') \<Rightarrow> moves p p' \<and> Q x p')"

definition checks :: "'f parser \<Rightarrow> parse_error + 'f parser \<Rightarrow> bool" where
  "checks p r = (case r of Inl e \<Rightarrow> e \<noteq> OutOfFuel | Inr p' \<Rightarrow> moves p p' \<and> pr_next p' = pr_next p)"

abbreviation yields :: "'f parser \<Rightarrow> ('f, string) parse_result \<Rightarrow> bool" where
  "yields p \<equiv> runs (\<lambda>s p'. safe (pr_opt p) (pr_next p) (pr_next p') s) p"

lemma moves_refl: "parser_wf p \<Longrightarrow> moves p p"
  by (simp add: moves_def)

lemma moves_trans: "moves p q \<Longrightarrow> moves q r \<Longrightarrow> moves p r"
  by (auto simp: moves_def)

lemma moves_wf: "moves p q \<Longrightarrow> parser_wf q"
  by (simp add: moves_def)

lemma moves_opt: "moves p q \<Longrightarrow> pr_opt q = pr_opt p \<and> pr_dialect q = pr_dialect p"
  by (simp add: moves_def)

lemma runs_Inl [simp]: "runs Q p (Inl e) = (e \<noteq> OutOfFuel)"
  by (simp add: runs_def)

lemma runs_Inr: "runs Q p (Inr (x, p')) = (moves p p' \<and> Q x p')"
  by (simp add: runs_def)

lemma runs_mono: "runs Q p r \<Longrightarrow> (\<And>x p'. moves p p' \<Longrightarrow> Q x p' \<Longrightarrow> R x p') \<Longrightarrow> runs R p r"
  by (auto simp: runs_def split: sum.splits)

lemma runs_from: "moves p q \<Longrightarrow> runs Q q r \<Longrightarrow> runs Q p r"
  by (auto simp: runs_def split: sum.splits intro: moves_trans)

lemma runs_bind:
  assumes "runs Q p r" "\<And>x p'. moves p p' \<Longrightarrow> Q x p' \<Longrightarrow> runs R p' (f (x, p'))"
  shows "runs R p (bind_res r f)"
proof (cases r)
  case (Inr y)
  obtain x p' where "y = (x, p')" by fastforce
  with Inr assms show ?thesis by (auto simp: runs_def [of Q] intro: runs_from)
qed (use assms in \<open>simp add: runs_def [of Q]\<close>)

lemma runs_check:
  assumes "checks p r" "\<And>p'. moves p p' \<Longrightarrow> pr_next p' = pr_next p \<Longrightarrow> runs R p' (f p')"
  shows "runs R p (bind_res r f)"
  using assms by (cases r) (auto simp: checks_def intro: runs_from)

section \<open>Reading tokens\<close>

lemma bump_wf: "parser_wf p \<Longrightarrow> parser_wf (bump p)"
  using lexer_next_ok [of "pr_l p"] by (cases "lexer_next (pr_l p)") (auto simp: parser_wf_def bump_def)

lemma bump_next [simp]: "pr_next (bump p) = pr_next p" "pr_opt (bump p) = pr_opt p"
    "pr_dialect (bump p) = pr_dialect p" "pr_args (bump p) = pr_args p"
  by (simp_all add: bump_def split: prod.split)

lemma moves_bump: "parser_wf p \<Longrightarrow> moves p (bump p)"
  using remaining_bump [of p] bump_wf [of p] by (simp add: moves_def)

lemma checks_expect: "parser_wf p \<Longrightarrow> checks p (expect t p)"
  by (simp add: checks_def expect_def moves_bump)

lemma addArg_simps [simp]:
  "fst (addArg v p) = CHR ''$'' # show_int (pr_next p)" "pr_next (snd (addArg v p)) = pr_next p + 1"
  "pr_opt (snd (addArg v p)) = pr_opt p" "pr_dialect (snd (addArg v p)) = pr_dialect p"
  by (simp_all add: addArg_def)

lemma moves_addArg: "parser_wf p \<Longrightarrow> moves p (snd (addArg v p))"
  by (simp add: moves_def parser_wf_def addArg_def remaining_def)

lemma moves_take_arg: "parser_wf p \<Longrightarrow> moves p (snd (take_arg v p))"
proof -
  assume "parser_wf p"
  then have "moves p (bump (snd (addArg v p)))" by (metis moves_addArg moves_bump moves_trans moves_wf)
  then show ?thesis by (simp add: take_arg_def case_prod_beta)
qed

lemma take_arg_simps [simp]:
  "fst (take_arg v p) = CHR ''$'' # show_int (pr_next p)" "pr_next (snd (take_arg v p)) = pr_next p + 1"
  "pr_opt (snd (take_arg v p)) = pr_opt p" "pr_dialect (snd (take_arg v p)) = pr_dialect p"
  by (simp_all add: take_arg_def addArg_def)

lemma wf_next: "parser_wf p \<Longrightarrow> 0 \<le> pr_next p"
  by (simp add: parser_wf_def)

lemma yields_take_arg: "parser_wf p \<Longrightarrow> yields p (Inr (take_arg v p))"
  using moves_take_arg [of p v] safe_param [OF wf_next, of p]
  by (cases "take_arg v p") (metis runs_Inr fst_conv snd_conv take_arg_simps(1, 2))

section \<open>Scalar expressions\<close>

lemma sep_texts:
  "sep_text '')''" "sep_text '' ''" "sep_text '',''" "sep_text '', ''" "sep_text '' AND ''" "sep_text '' OR ''"
  "sep_text ''::timestamptz''" "sep_text ''::timestamp''" "sep_text '' AS TIMESTAMPTZ)''" "sep_text '' AS TIMESTAMP)''"
  "sep_text ''::geometry''" "sep_text '' AS VARCHAR))''" "sep_text '' IS NULL''" "sep_text '' IS NOT NULL''"
  "sep_text '' BETWEEN ''" "sep_text '' NOT BETWEEN ''" "sep_text '' IN (''" "sep_text '' NOT IN (''"
  "sep_text '' LIKE ''" "sep_text '' NOT LIKE ''" "sep_text '' ILIKE ''" "sep_text '' NOT ILIKE ''"
  by code_simp+

lemma plain_texts:
  "plain_text ''(''" "plain_text ''true''" "plain_text ''false''" "plain_text ''NOW()''" "plain_text ''CAST(''"
  "plain_text ''ST_Transform(''" "plain_text ''ST_GeomFromText(CAST(''" "plain_text ''ST_DWithin(''" "plain_text ''(NOT ''"
  "plain_text ''EPSG:''" "plain_text '', always_xy := true)''"
  by code_simp+

lemma safe_temporal_cast: "safe opt n m ph \<Longrightarrow> safe opt n m (temporal_cast d val ph)"
  by (cases d) (simp_all add: temporal_cast_def safe_suffix safe_wrap sep_texts plain_texts del: append.simps)

lemma yields_property: "parser_wf p \<Longrightarrow> yields p (parse_property p)"
  by (simp add: parse_property_def assertAllowedProperty_def runs_Inr moves_bump safe_ident)

lemma yields_number: "parser_wf p \<Longrightarrow> yields p (parse_number fl p)"
  by (simp add: parse_number_def yields_take_arg split: option.split)

lemma yields_temporal:
  assumes "parser_wf p"
  shows "yields p (parse_temporal p)"
proof (cases "equal_fold (cur_raw p) ''NOW'' \<and> peek_typ p = TokLParen")
  case True
  have m: "moves p (bump (bump p))" using assms by (metis moves_bump moves_trans bump_wf)
  have "yields p (bind_res (expect TokRParen (bump (bump p))) (\<lambda>p1. Inr (''NOW()'', p1)))"
    by (rule runs_from [OF m], rule runs_check [OF checks_expect [OF moves_wf [OF m]]])
      (simp add: runs_Inr moves_refl moves_wf safe_text plain_texts del: append.simps)
  then show ?thesis by (simp add: parse_temporal_def True Let_def)
next
  case False
  obtain ph p1 where t: "take_arg (StringArg (cur_raw p)) p = (ph, p1)" by fastforce
  then have "yields p (Inr (ph, p1))" using yields_take_arg [OF assms] by metis
  then show ?thesis using False t by (auto simp: parse_temporal_def Let_def runs_Inr safe_temporal_cast)
qed

lemma operator_text: "token_ok t \<Longrightarrow> scalarPrec (tk_typ t) = Some k \<Longrightarrow> sep_text ('' '' @ tk_raw t @ '' '')"
proof -
  have "\<forall>w \<in> {''+'', ''-'', ''*'', ''/''}. sep_text ('' '' @ w @ '' '')" by code_simp
  then show "token_ok t \<Longrightarrow> scalarPrec (tk_typ t) = Some k \<Longrightarrow> ?thesis"
    by (auto simp: scalarPrec_def token_ok_def split: tokenType.splits simp del: append.simps)
qed

lemma safe_infix_paren:
  "safe opt n m l \<Longrightarrow> safe opt m k r \<Longrightarrow> sep_text mid \<Longrightarrow> safe opt n k (''('' @ l @ mid @ r @ '')'')"
  using safe_wrap [OF safe_infix, of opt n m l k r mid "''(''" "'')''"] by (simp add: sep_texts plain_texts)

text \<open>The fuel each method of the scalar cycle needs, for all three at once.\<close>

definition scalar_fuel_ok :: "'f floats \<Rightarrow> nat \<Rightarrow> bool" where
  "scalar_fuel_ok fl n =
     ((\<forall>minPrec p. parser_wf p \<longrightarrow> 2 * remaining p + 2 \<le> n \<longrightarrow> yields p (parseScalarExpr fl n minPrec p))
      \<and> (\<forall>minPrec left k p. parser_wf p \<longrightarrow> 2 * remaining p + 1 \<le> n \<longrightarrow> safe (pr_opt p) k (pr_next p) left \<longrightarrow>
           runs (\<lambda>s p'. safe (pr_opt p) k (pr_next p') s) p (scalar_loop fl n minPrec left p))
      \<and> (\<forall>p. parser_wf p \<longrightarrow> 2 * remaining p + 1 \<le> n \<longrightarrow> yields p (parseScalarPrimary fl n p)))"

lemma scalar_fuel_okD:
  assumes "scalar_fuel_ok fl n" "parser_wf p"
  shows "2 * remaining p + 2 \<le> n \<Longrightarrow> yields p (parseScalarExpr fl n minPrec p)"
    "2 * remaining p + 1 \<le> n \<Longrightarrow> safe (pr_opt p) k (pr_next p) left \<Longrightarrow>
       runs (\<lambda>s p'. safe (pr_opt p) k (pr_next p') s) p (scalar_loop fl n minPrec left p)"
    "2 * remaining p + 1 \<le> n \<Longrightarrow> yields p (parseScalarPrimary fl n p)"
  using assms by (simp_all add: scalar_fuel_ok_def)

lemma scalar_primary_step:
  assumes n: "scalar_fuel_ok fl n" and p: "parser_wf p" and fuel: "2 * remaining p + 1 \<le> Suc n"
  shows "yields p (parseScalarPrimary fl (Suc n) p)"
proof (cases "cur_typ p = TokLParen")
  case True
  let ?q = "bump p"
  have q: "parser_wf ?q" "moves p ?q" using p by (simp_all add: bump_wf moves_bump)
  have "2 * remaining ?q + 2 \<le> n" using remaining_bump [of p] fuel True by simp
  then have inner: "yields ?q (parseScalarExpr fl n 0 ?q)" by (rule scalar_fuel_okD(1) [OF n q(1)])
  have "yields ?q (bind_res (parseScalarExpr fl n 0 ?q) (\<lambda>(inner, p1).
          bind_res (expect TokRParen p1) (\<lambda>p2. Inr (''('' @ inner @ '')'', p2))))"
  proof (rule runs_bind [OF inner], simp only: prod.case)
    fix inner p1
    assume p1: "moves ?q p1" and s: "safe (pr_opt ?q) (pr_next ?q) (pr_next p1) inner"
    show "runs (\<lambda>s p'. safe (pr_opt ?q) (pr_next ?q) (pr_next p') s) p1
            (bind_res (expect TokRParen p1) (\<lambda>p2. Inr (''('' @ inner @ '')'', p2)))"
      by (rule runs_check [OF checks_expect [OF moves_wf [OF p1]]])
        (use s in \<open>simp add: runs_Inr moves_refl moves_wf safe_wrap sep_texts plain_texts del: append.simps\<close>)
  qed
  from runs_from [OF q(2) this] show ?thesis by (simp add: True)
next
  case False
  have "safe (pr_opt p) (pr_next p) (pr_next p) (to_lower (cur_raw p))" if "cur_typ p = TokBool"
  proof -
    have "to_lower ''true'' = ''true''" "to_lower ''false'' = ''false''" by code_simp+
    then show ?thesis using p that by (auto simp: parser_wf_def token_ok_def safe_text plain_texts)
  qed
  then show ?thesis using False p
    by (simp add: yields_property yields_take_arg yields_number yields_temporal runs_Inr moves_bump)
qed

lemma scalar_loop_step:
  assumes n: "scalar_fuel_ok fl n" and p: "parser_wf p" and fuel: "2 * remaining p + 1 \<le> Suc n"
    and left: "safe (pr_opt p) k (pr_next p) left"
  shows "runs (\<lambda>s p'. safe (pr_opt p) k (pr_next p') s) p (scalar_loop fl (Suc n) minPrec left p)"
proof (cases "\<exists>prec. scalarPrec (cur_typ p) = Some prec \<and> \<not> prec < minPrec")
  case False
  then show ?thesis using left p by (auto simp: runs_Inr moves_refl split: option.split)
next
  case True
  then obtain prec where prec: "scalarPrec (cur_typ p) = Some prec" "\<not> prec < minPrec" by blast
  let ?q = "bump p"
  have q: "parser_wf ?q" "moves p ?q" using p by (simp_all add: bump_wf moves_bump)
  have noteof: "cur_typ p \<noteq> TokEOF" using prec(1) by (auto simp: scalarPrec_def)
  have fq: "2 * remaining ?q + 2 \<le> n" using remaining_bump [of p] fuel noteof by simp
  have op: "sep_text ('' '' @ cur_raw p @ '' '')" using p prec(1) by (simp add: parser_wf_def operator_text del: append.simps)
  have "runs (\<lambda>s p'. safe (pr_opt p) k (pr_next p') s) ?q
          (bind_res (parseScalarExpr fl n (prec + 1) ?q) (\<lambda>(right, p1).
             scalar_loop fl n minPrec (''('' @ left @ '' '' @ cur_raw p @ '' '' @ right @ '')'') p1))"
  proof (rule runs_bind [OF scalar_fuel_okD(1) [OF n q(1) fq]], simp only: prod.case)
    fix right p1
    assume p1: "moves ?q p1" and s: "safe (pr_opt ?q) (pr_next ?q) (pr_next p1) right"
    have o1: "pr_opt p1 = pr_opt p" and f1: "2 * remaining p1 + 1 \<le> n" using p1 fq by (auto simp: moves_def)
    have "safe (pr_opt p) k (pr_next p1) (''('' @ left @ ('' '' @ cur_raw p @ '' '') @ right @ '')'')"
      using safe_infix_paren [OF left _ op] s by simp
    then show "runs (\<lambda>s p'. safe (pr_opt p) k (pr_next p') s) p1
        (scalar_loop fl n minPrec (''('' @ left @ '' '' @ cur_raw p @ '' '' @ right @ '')'') p1)"
      using scalar_fuel_okD(2) [OF n moves_wf [OF p1] f1] o1 by simp
  qed
  from runs_from [OF q(2) this] show ?thesis using prec by simp
qed

lemma scalar_fuel_ok: "scalar_fuel_ok fl n"
proof (induction n)
  case 0
  then show ?case by (simp add: scalar_fuel_ok_def)
next
  case (Suc n)
  have "yields p (parseScalarExpr fl (Suc n) minPrec p)" if p: "parser_wf p" and "2 * remaining p + 2 \<le> Suc n" for minPrec p
  proof -
    have fuel: "2 * remaining p + 1 \<le> n" using that by simp
    show ?thesis
      unfolding parseScalarExpr.simps
    proof (rule runs_bind [OF scalar_fuel_okD(3) [OF Suc p fuel]], simp only: prod.case)
      fix left p1
      assume p1: "moves p p1" and s: "safe (pr_opt p) (pr_next p) (pr_next p1) left"
      then show "runs (\<lambda>s p'. safe (pr_opt p) (pr_next p) (pr_next p') s) p1 (scalar_loop fl n minPrec left p1)"
        using scalar_fuel_okD(2) [OF Suc moves_wf [OF p1], of "pr_next p" left minPrec] fuel by (simp add: moves_def)
    qed
  qed
  with scalar_primary_step [OF Suc] scalar_loop_step [OF Suc] show ?case
    unfolding scalar_fuel_ok_def by blast
qed

lemma yields_scalar: "parser_wf p \<Longrightarrow> yields p (parse_scalar fl p)"
  unfolding parse_scalar_def scalar_fuel_def by (rule scalar_fuel_okD(1) [OF scalar_fuel_ok]) simp_all

section \<open>Geometry expressions\<close>

text \<open>Reading a literal leaves the placeholders as they are: its text becomes one argument afterwards.\<close>

abbreviation reads :: "'f parser \<Rightarrow> ('f, 'a) parse_result \<Rightarrow> bool" where
  "reads p \<equiv> runs (\<lambda>_ p'. pr_next p' = pr_next p) p"

lemma reads_bump: "parser_wf p \<Longrightarrow> reads (bump p) r \<Longrightarrow> reads p r"
  using runs_from [OF moves_bump, of p] by simp

lemma reads_wkt_loop: "parser_wf p \<Longrightarrow> reads p (wkt_loop depth prevNum sb p)"
proof (induction depth prevNum sb p rule: wkt_loop.induct)
  case (1 depth prevNum sb p)
  note IH = 1(1) and p = 1(2)
  show ?case
    using IH [OF refl refl refl _ _ bump_wf [OF p], THEN reads_bump [OF p]] p
    by (subst wkt_loop.simps) (simp add: Let_def runs_Inr moves_bump)
qed

lemma reads_envelope_coords: "parser_wf p \<Longrightarrow> reads p (envelope_coords k coords p)"
proof (induction k coords p rule: envelope_coords.induct)
  case (1 coords p)
  then show ?case by (simp add: runs_Inr moves_refl)
next
  case (2 k coords p)
  note p = 2(3)
  let ?c = "coords @ [cur_raw p]"
  have "reads (bump p) (bind_res (expect TokComma (bump p)) (envelope_coords k ?c))"
    if "cur_typ p = TokNumber" "k > 0"
  proof (rule runs_check [OF checks_expect [OF bump_wf [OF p]]])
    fix p1
    assume m: "moves (bump p) p1" and e: "pr_next p1 = pr_next (bump p)"
    have "reads p1 (envelope_coords k ?c p1)"
      by (rule 2(1)) (use that m in \<open>simp_all add: moves_wf\<close>)
    then show "runs (\<lambda>_ p'. pr_next p' = pr_next (bump p)) p1 (envelope_coords k ?c p1)" using e by simp
  qed
  moreover have "reads (bump p) (envelope_coords k ?c (bump p))" if "cur_typ p = TokNumber" "\<not> k > 0"
    using 2(2) [of ?c "bump p"] that bump_wf [OF p] by simp
  ultimately show ?case by (simp add: Let_def reads_bump [OF p])
qed

lemma envelopeWKT_no_fuel: "envelopeWKT fl coords \<noteq> Inl OutOfFuel"
  by (simp add: envelopeWKT_def split: list.split option.split)

lemma reads_geometry: 
  assumes p: "parser_wf p"
  shows "reads p (parseGeomLiteralWKT fl p)"
proof -
  have "reads p2 (bind_res (expect TokRParen p2) (\<lambda>p3. bind_res (envelopeWKT fl coords) (\<lambda>wkt. Inr (wkt, p3))))"
    if "parser_wf p2" for p2 :: "'a parser" and coords
  proof (rule runs_check [OF checks_expect [OF that]])
    fix p3
    assume "moves p2 p3" "pr_next p3 = pr_next p2"
    then show "runs (\<lambda>_ p'. pr_next p' = pr_next p2) p3 (bind_res (envelopeWKT fl coords) (\<lambda>wkt. Inr (wkt, p3)))"
      using envelopeWKT_no_fuel [of fl coords]
      by (cases "envelopeWKT fl coords") (auto simp: runs_Inr intro: moves_refl moves_wf)
  qed
  note close = this
  have coords: "reads p1 (bind_res (envelope_coords 4 [] p1) (\<lambda>(coords, p2).
           bind_res (expect TokRParen p2) (\<lambda>p3. bind_res (envelopeWKT fl coords) (\<lambda>wkt. Inr (wkt, p3)))))"
    if "parser_wf p1" for p1 :: "'a parser"
  proof (rule runs_bind [OF reads_envelope_coords [OF that]], simp only: prod.case)
    fix coords p2
    assume "moves p1 p2" "pr_next p2 = pr_next p1"
    then show "runs (\<lambda>_ p'. pr_next p' = pr_next p1) p2
        (bind_res (expect TokRParen p2) (\<lambda>p3. bind_res (envelopeWKT fl coords) (\<lambda>wkt. Inr (wkt, p3))))"
      using close [OF moves_wf, of p1 p2 coords] by simp
  qed
  have "reads (bump p) (bind_res (expect TokLParen (bump p)) (\<lambda>p1.
           bind_res (envelope_coords 4 [] p1) (\<lambda>(coords, p2).
           bind_res (expect TokRParen p2) (\<lambda>p3.
           bind_res (envelopeWKT fl coords) (\<lambda>wkt. Inr (wkt, p3))))))"
  proof (rule runs_check [OF checks_expect [OF bump_wf [OF p]]])
    fix p1
    assume "moves (bump p) p1" "pr_next p1 = pr_next (bump p)"
    then show "runs (\<lambda>_ p'. pr_next p' = pr_next (bump p)) p1 (bind_res (envelope_coords 4 [] p1) (\<lambda>(coords, p2).
        bind_res (expect TokRParen p2) (\<lambda>p3. bind_res (envelopeWKT fl coords) (\<lambda>wkt. Inr (wkt, p3)))))"
      using coords [OF moves_wf, of "bump p" p1] by simp
  qed
  then have "reads p (bind_res (expect TokLParen (bump p)) (\<lambda>p1.
           bind_res (envelope_coords 4 [] p1) (\<lambda>(coords, p2).
           bind_res (expect TokRParen p2) (\<lambda>p3.
           bind_res (envelopeWKT fl coords) (\<lambda>wkt. Inr (wkt, p3))))))" by (rule reads_bump [OF p])
  moreover have "reads p (wkt_loop 0 False sb (bump p))" for sb
    by (rule reads_bump [OF p]) (rule reads_wkt_loop [OF bump_wf [OF p]])
  ultimately show ?thesis by (simp add: parseGeomLiteralWKT_def Let_def)
qed

lemma safe_geometry_column:
  "name = GeometryProperty (pr_opt p) \<Longrightarrow> safe (pr_opt p) n n (geometry_column p name)"
  by (cases "pr_dialect p") (simp_all add: geometry_column_def safe_ident safe_expression)

lemma safe_epsg: "safe opt n m t \<Longrightarrow> safe opt n m ('', '' @ [squote] @ ''EPSG:'' @ show_int i @ [squote] @ t)"
  using safe_literal [of "''EPSG:'' @ show_int i" opt n m t] plain_no_squote [of "''EPSG:'' @ show_int i"]
    safe_prefix [of "'', ''" opt n m] sep_texts(4)
  by (simp add: plain_show_int plain_texts sep_text_def del: append.simps) simp

lemma safe_geometry_literal:
  assumes "safe opt n m ph" "pr_opt p = opt"
  shows "safe opt n m (geometry_literal p ph)"
proof (cases "pr_dialect p")
  case PostGIS
  have s: "safe opt n m (ph @ ''::geometry'')" using assms(1) by (intro safe_suffix sep_texts)
  have "sep_text ('','' @ show_int i @ '')'')" for i
    using sep_texts(1, 3) plain_show_int [of i] by (simp add: sep_text_def plain_text_def)
  from safe_wrap [OF s plain_texts(6) this] show ?thesis using s PostGIS assms(2)
    by (simp add: geometry_literal_def Let_def)
next
  case DuckDB
  let ?s = "''ST_GeomFromText(CAST('' @ ph @ '' AS VARCHAR))''"
  have s: "safe opt n m ?s" using assms(1) by (intro safe_wrap plain_texts sep_texts)
  have e: "safe opt m m ('', '' @ [squote] @ ''EPSG:'' @ show_int i @ [squote] @ '', '' @ [squote] @ ''EPSG:'' @ show_int j @ [squote]
      @ '', always_xy := true)'')" for i j
    by (intro safe_epsg safe_text plain_texts)
  have "safe opt n m (?s @ '', '' @ [squote] @ ''EPSG:'' @ show_int i @ [squote] @ '', '' @ [squote] @ ''EPSG:'' @ show_int j @ [squote]
      @ '', always_xy := true)'')" for i j
    using safe_append [OF s, of m "CHR '',''"] e [of i j] sep_texts(3) by (simp add: sep_text_def)
  from safe_prefix [OF plain_texts(6) this] s show ?thesis using DuckDB assms(2)
    by (simp add: geometry_literal_def Let_def)
qed

lemma yields_geometry:
  assumes p: "parser_wf p"
  shows "yields p (parseGeomExpr fl p)"
proof (cases "cur_typ p = TokIdent")
  case True
  then show ?thesis using p by (simp add: parseGeomExpr_def runs_Inr moves_bump safe_geometry_column)
next
  case False
  have "yields p (bind_res (parseGeomLiteralWKT fl p) (\<lambda>(wkt, p1).
             let (ph, p2) = addArg (geometry_arg p1 wkt) p1 in Inr (geometry_literal p2 ph, p2)))"
  proof (rule runs_bind [OF reads_geometry [OF p]], simp only: prod.case)
    fix wkt p1
    assume m: "moves p p1" and e: "pr_next p1 = pr_next p"
    let ?r = "addArg (geometry_arg p1 wkt) p1"
    have "safe (pr_opt p) (pr_next p) (pr_next (snd ?r)) (geometry_literal (snd ?r) (fst ?r))"
      using safe_param [OF wf_next [OF p], of "pr_opt p"] m e by (intro safe_geometry_literal) (simp_all add: moves_opt)
    then show "runs (\<lambda>s p'. safe (pr_opt p) (pr_next p) (pr_next p') s) p1
        (let (ph, p2) = ?r in Inr (geometry_literal p2 ph, p2))"
      using moves_addArg [OF moves_wf [OF m]] by (simp add: runs_Inr case_prod_beta)
  qed
  then show ?thesis using False by (simp add: parseGeomExpr_def)
qed

section \<open>Predicates\<close>

text \<open>A method that starts after some text and extends it.\<close>

abbreviation extends :: "int \<Rightarrow> 'f parser \<Rightarrow> ('f, string) parse_result \<Rightarrow> bool" where
  "extends k p \<equiv> runs (\<lambda>s p'. safe (pr_opt p) k (pr_next p') s) p"

text \<open>The last step of most methods: a closing parenthesis, then the text.\<close>

lemma runs_close:
  assumes "parser_wf p" "\<And>p'. moves p p' \<Longrightarrow> pr_next p' = pr_next p \<Longrightarrow> Q s p'"
  shows "runs Q p (bind_res (expect t p) (\<lambda>p'. Inr (s, p')))"
  by (rule runs_check [OF checks_expect [OF assms(1)]]) (auto simp: runs_Inr intro: assms(2) moves_refl moves_wf)

lemma runs_geometry_pair:
  assumes p: "parser_wf p"
  shows "runs (\<lambda>(g1, g2) p'. \<exists>m. safe (pr_opt p) (pr_next p) m g1 \<and> safe (pr_opt p) m (pr_next p') g2) p
           (parse_geometry_pair fl p)"
    (is "runs ?Q p _")
  unfolding parse_geometry_pair_def
proof (rule runs_check [OF checks_expect [OF p]])
  fix p1
  assume p1: "moves p p1" "pr_next p1 = pr_next p"
  show "runs ?Q p1 (bind_res (parseGeomExpr fl p1) (\<lambda>(g1, p2). bind_res (expect TokComma p2) (\<lambda>p3.
          bind_res (parseGeomExpr fl p3) (\<lambda>(g2, p4). Inr ((g1, g2), p4)))))"
  proof (rule runs_bind [OF yields_geometry [OF moves_wf [OF p1(1)]]], simp only: prod.case)
    fix g1 p2
    assume p2: "moves p1 p2" and g1: "safe (pr_opt p1) (pr_next p1) (pr_next p2) g1"
    show "runs ?Q p2 (bind_res (expect TokComma p2) (\<lambda>p3. bind_res (parseGeomExpr fl p3) (\<lambda>(g2, p4). Inr ((g1, g2), p4))))"
    proof (rule runs_check [OF checks_expect [OF moves_wf [OF p2]]])
      fix p3
      assume p3: "moves p2 p3" "pr_next p3 = pr_next p2"
      have o3: "pr_opt p1 = pr_opt p" "pr_opt p3 = pr_opt p" using p1 p2 p3 by (simp_all add: moves_def)
      show "runs ?Q p3 (bind_res (parseGeomExpr fl p3) (\<lambda>(g2, p4). Inr ((g1, g2), p4)))"
        by (rule runs_bind [OF yields_geometry [OF moves_wf [OF p3(1)]]])
          (use g1 o3 p1(2) p3(2) in \<open>auto simp: runs_Inr intro: moves_refl moves_wf\<close>)
    qed
  qed
qed

lemma runs_after_geometry:
  assumes "parser_wf p"
    and "\<And>g1 g2 p1 m. moves p p1 \<Longrightarrow> safe (pr_opt p) (pr_next p) m g1 \<Longrightarrow> safe (pr_opt p) m (pr_next p1) g2 \<Longrightarrow>
           runs R p1 (f ((g1, g2), p1))"
  shows "runs R p (bind_res (parse_geometry_pair fl p) f)"
  by (rule runs_bind [OF runs_geometry_pair [OF assms(1)]]) (use assms(2) in \<open>auto split: prod.splits\<close>)

lemma plain_to_upper: "plain_text (to_upper s) \<Longrightarrow> plain_text s"
proof -
  have "plain_char (upper_char c) \<Longrightarrow> plain_char c" for c
    by (auto simp: plain_char_def upper_char_def char_between_def code_of_def split: if_splits)
  then show "plain_text (to_upper s) \<Longrightarrow> plain_text s" by (auto simp: plain_text_def to_upper_def list_all_iff)
qed

lemma spatial_functions:
  assumes "to_upper op \<in> set spatial_words"
  shows "plain_text (spatial_function d op @ ''('')"
proof -
  have "\<forall>w \<in> set spatial_words. plain_text w" "\<forall>(k, f) \<in> set pgFunctionForCql. plain_text f"
    "\<forall>(k, f) \<in> set duckdbFunctionForCql. plain_text f" "plain_text ''UNKNOWN_''"
    by code_simp+
  moreover from this(1) have "plain_text op" using assms plain_to_upper by blast
  ultimately show ?thesis using plain_texts(1)
    by (cases d) (auto simp: spatial_function_def toPostGISFunction_def toDuckDBFunction_def
        simp del: append.simps split: option.split dest!: map_of_SomeD)
qed

lemma sep_list_sep: "sep_text (list_sep d)"
  by (cases d) (simp_all only: list_sep_def dialect.case sep_texts)

lemma yields_spatial:
  assumes p: "parser_wf p" and t: "cur_typ p = TokSpatialOp"
  shows "yields p (parse_spatial fl p)"
proof -
  let ?q = "bump p"
  have f: "plain_text (spatial_function (pr_dialect p) (to_lower (cur_raw p)) @ ''('')"
  proof -
    have "token_ok (pr_cur p)" using p by (simp add: parser_wf_def)
    then show ?thesis using t by (intro spatial_functions) (simp add: token_ok_def to_upper_lower)
  qed
  have "yields ?q (parse_spatial fl p)"
    unfolding parse_spatial_def
  proof (rule runs_after_geometry [OF bump_wf [OF p]], simp only: prod.case, rule runs_close [OF moves_wf], assumption)
    fix g1 g2 p1 m p2
    assume g: "safe (pr_opt ?q) (pr_next ?q) m g1" "safe (pr_opt ?q) m (pr_next p1) g2" "pr_next p2 = pr_next p1"
    have "safe (pr_opt ?q) (pr_next ?q) (pr_next p2) ((spatial_function (pr_dialect p) (to_lower (cur_raw p)) @ ''('')
        @ (g1 @ list_sep (pr_dialect p) @ g2) @ '')'')"
      using g f by (intro safe_wrap safe_infix sep_list_sep sep_texts) simp_all
    then show "safe (pr_opt ?q) (pr_next ?q) (pr_next p2)
        (spatial_function (pr_dialect p) (to_lower (cur_raw p)) @ ''('' @ g1 @ list_sep (pr_dialect p) @ g2 @ '')'')" by simp
  qed
  from runs_from [OF moves_bump [OF p] this] show ?thesis by simp
qed

lemma yields_dwithin:
  assumes p: "parser_wf p"
  shows "yields p (parse_dwithin fl p)"
proof -
  let ?q = "bump p" and ?sep = "list_sep (pr_dialect p)"
  have dist: "extends k p2 (let (ph, p3) = take_arg v p2 in bind_res (expect TokRParen p3) (\<lambda>p4. Inr (pre @ ph @ '')'', p4)))"
    if p2: "parser_wf p2" and pre: "\<And>m t. safe (pr_opt p2) (pr_next p2) m t \<Longrightarrow> safe (pr_opt p2) k m (pre @ t)"
    for p2 :: "'a parser" and k pre v
  proof -
    have "safe (pr_opt p2) k (pr_next p2 + 1) (pre @ fst (take_arg v p2) @ '')'')"
      using p2 by (intro pre safe_suffix sep_texts) (simp add: safe_param wf_next)
    then show ?thesis using moves_take_arg [OF p2, of v]
      by (auto simp: case_prod_beta simp del: append.simps intro!: runs_from [OF moves_take_arg [OF p2]] runs_close moves_wf)
  qed
  have "yields ?q (parse_dwithin fl p)"
    unfolding parse_dwithin_def
  proof (rule runs_after_geometry [OF bump_wf [OF p]], simp only: prod.case, rule runs_check [OF checks_expect [OF moves_wf]], assumption)
    fix g1 g2 p1 m p2
    assume g: "safe (pr_opt ?q) (pr_next ?q) m g1" "safe (pr_opt ?q) m (pr_next p1) g2"
      and p1: "moves ?q p1" and p2: "moves p1 p2" "pr_next p2 = pr_next p1"
    have o2: "pr_opt p2 = pr_opt ?q" using p1 p2 by (simp add: moves_def)
    have pre: "safe (pr_opt p2) (pr_next ?q) m' ((''ST_DWithin('' @ g1 @ ?sep @ g2 @ ?sep) @ t)"
      if "safe (pr_opt p2) (pr_next p2) m' t" for m' t
      using safe_prefix [OF plain_texts(8) safe_infix [OF safe_infix [OF g sep_list_sep] _ sep_list_sep], of m' t "pr_dialect p" "pr_dialect p"]
        that o2 p2(2) by simp
    show "runs (\<lambda>s p'. safe (pr_opt ?q) (pr_next ?q) (pr_next p') s) p2
       (if cur_typ p2 \<noteq> TokNumber then Inl (ExpectedDistance (cur_pos p2))
       else (case ParseFloat fl (cur_raw p2) of
               None \<Rightarrow> Inl (InvalidDistance (cur_raw p2))
             | Some dist \<Rightarrow>
                 let (ph, p3) = take_arg (FloatArg dist) p2; sep = ?sep
                 in bind_res (expect TokRParen p3) (\<lambda>p4. Inr (''ST_DWithin('' @ g1 @ sep @ g2 @ sep @ ph @ '')'', p4))))"
      using dist [OF moves_wf [OF p2(1)] pre] o2 by (simp add: case_prod_beta Let_def split: option.split)
  qed
  from runs_from [OF moves_bump [OF p] this] show ?thesis by simp
qed

lemma safe_property:
  "nm \<in> set (AllowedProperties opt) \<Longrightarrow> sep_text mid \<Longrightarrow> safe opt n m t \<Longrightarrow> safe opt n m (QuoteIdent nm @ mid @ t)"
  using safe_infix [OF safe_ident, of nm opt n m t mid] by simp

lemma yields_like:
  assumes p: "parser_wf p" and nm: "nm \<in> set (AllowedProperties (pr_opt p))"
  shows "yields p (parse_like nm neg p)"
proof -
  let ?q = "bump p" and ?op = "if cur_typ p = TokILike then ''ILIKE'' else ''LIKE''"
  have q: "parser_wf ?q" using p by (rule bump_wf)
  have sep: "sep_text ((if neg then '' NOT '' else '' '') @ ?op @ '' '')" by (cases neg) (simp_all add: sep_texts [simplified])
  have "safe (pr_opt ?q) (pr_next ?q) (pr_next ?q + 1) (fst (take_arg v ?q))" for v
    using safe_param [OF wf_next [OF q]] by simp
  from safe_property [OF _ sep this] nm
  have "safe (pr_opt p) (pr_next p) (pr_next p + 1)
          (QuoteIdent nm @ (if neg then '' NOT '' else '' '') @ ?op @ '' '' @ fst (take_arg v ?q))" for v by simp
  then have "yields ?q (parse_like nm neg p)" using moves_take_arg [OF q]
    by (simp add: parse_like_def Let_def case_prod_beta runs_Inr)
  from runs_from [OF moves_bump [OF p] this] show ?thesis by simp
qed

lemma yields_is_null:
  assumes p: "parser_wf p" and nm: "nm \<in> set (AllowedProperties (pr_opt p))"
  shows "yields p (parse_is_null nm p)"
proof -
  have m: "moves p (bump (bump p))" "moves p (bump (bump (bump p)))" using p by (metis bump_wf moves_bump moves_trans)+
  have "safe (pr_opt p) (pr_next p) (pr_next p) (QuoteIdent nm @ (if neg then '' IS NOT NULL'' else '' IS NULL''))" for neg
    using nm by (cases neg) (simp_all add: safe_suffix safe_ident sep_texts del: append.simps)
  from this [of True] this [of False] m show ?thesis by (simp add: parse_is_null_def Let_def runs_Inr del: append.simps)
qed

text \<open>The list of \<^verbatim>\<open>IN\<close>: its placeholders, joined, continue the ones before.\<close>

lemma join_snoc: "xs \<noteq> [] \<Longrightarrow> join sep (xs @ [x]) = join sep xs @ sep @ x"
proof (induction xs)
  case (Cons a xs)
  then show ?case by (cases xs) auto
qed simp

lemma yields_in_literal: "parser_wf p \<Longrightarrow> yields p (parse_in_literal fl p)"
  by (simp add: parse_in_literal_def yields_take_arg yields_number)

definition in_text :: "string \<Rightarrow> Options \<Rightarrow> int \<Rightarrow> int \<Rightarrow> string list \<Rightarrow> bool" where
  "in_text sep opt k n phs = (if phs = [] then n = k else safe opt k n (join sep phs))"

lemma in_text_snoc:
  assumes "in_text sep opt k n phs" "safe opt n m ph" "sep_text sep"
  shows "in_text sep opt k m (phs @ [ph])"
proof (cases "phs = []")
  case False
  then show ?thesis using safe_infix [OF _ assms(2, 3), of k "join sep phs"] assms(1) by (simp add: in_text_def join_snoc)
qed (use assms in \<open>simp add: in_text_def\<close>)

lemma runs_in_list:
  assumes "sep_text sep" "parser_wf p" "in_text sep (pr_opt p) k (pr_next p) phs"
  shows "runs (\<lambda>phs' p'. phs' \<noteq> [] \<and> in_text sep (pr_opt p) k (pr_next p') phs') p (in_list fl phs p)"
  using assms(2, 3)
proof (induction fl phs p rule: in_list.induct)
  case (1 fl phs p)
  show ?case
  proof (cases "parse_in_literal fl p")
    case (Inl e)
    then show ?thesis using yields_in_literal [OF 1(2), of fl] by (subst in_list.simps) simp
  next
    case (Inr r)
    obtain ph p1 where r: "r = (ph, p1)" by fastforce
    have y: "moves p p1" "safe (pr_opt p) (pr_next p) (pr_next p1) ph"
      using yields_in_literal [OF 1(2), of fl] Inr r by (simp_all add: runs_Inr)
    have t: "in_text sep (pr_opt p) k (pr_next p1) (phs @ [ph])" using in_text_snoc [OF 1(3) y(2) assms(1)] .
    have o1: "pr_opt p1 = pr_opt p" using y(1) by (simp add: moves_opt)
    have "runs (\<lambda>phs' p'. phs' \<noteq> [] \<and> in_text sep (pr_opt p) k (pr_next p') phs') p (in_list fl (phs @ [ph]) (bump p1))"
      if "cur_typ p1 = TokComma"
      using runs_from [OF moves_trans [OF y(1) moves_bump [OF moves_wf [OF y(1)]]] 1(1) [OF Inr r [symmetric] that bump_wf]] t o1
        moves_wf [OF y(1)] by simp
    then show ?thesis using Inr r y t by (subst in_list.simps) (simp add: runs_Inr)
  qed
qed

lemma yields_in:
  assumes p: "parser_wf p" and nm: "nm \<in> set (AllowedProperties (pr_opt p))"
  shows "yields p (parse_in fl nm neg p)"
proof -
  let ?q = "bump p" and ?sep = "list_sep (pr_dialect p)" and ?in = "if neg then '' NOT IN ('' else '' IN (''"
  have sep: "sep_text ?in" by (cases neg) (simp_all only: if_True if_False sep_texts)
  have "yields ?q (parse_in fl nm neg p)"
    unfolding parse_in_def
  proof (rule runs_check [OF checks_expect [OF bump_wf [OF p]]])
    fix p1
    assume p1: "moves ?q p1" "pr_next p1 = pr_next ?q"
    have o1: "pr_opt p1 = pr_opt p" using p1(1) by (simp add: moves_def)
    show "runs (\<lambda>s p'. safe (pr_opt ?q) (pr_next ?q) (pr_next p') s) p1
            (bind_res (in_list fl [] p1) (\<lambda>(phs, p2). bind_res (expect TokRParen p2) (\<lambda>p3.
               Inr (QuoteIdent nm @ ?in @ join ?sep phs @ '')'', p3))))"
    proof (rule runs_bind [OF runs_in_list [OF sep_list_sep [of "pr_dialect p"] moves_wf [OF p1(1)], of "pr_next p1"]],
        simp add: in_text_def, simp only: prod.case, rule runs_close [OF moves_wf], assumption)
      fix phs p2 p3
      assume t: "phs \<noteq> [] \<and> in_text ?sep (pr_opt p1) (pr_next p1) (pr_next p2) phs" and "pr_next p3 = pr_next p2"
      then have "safe (pr_opt p) (pr_next p) (pr_next p3) (join ?sep phs @ '')'')"
        using p1(2) o1 by (intro safe_suffix sep_texts) (simp add: in_text_def)
      from safe_property [OF nm sep this]
      show "safe (pr_opt ?q) (pr_next ?q) (pr_next p3) (QuoteIdent nm @ ?in @ join ?sep phs @ '')'')" by simp
    qed
  qed
  from runs_from [OF moves_bump [OF p] this] show ?thesis by simp
qed

end
