(* ===== verification/Filter_Properties.thy ===== *)
theory Filter_Properties
  imports Filter_Safety
begin

text \<open>
  The comparisons and the boolean descent under the contract of \<open>Filter_Safety\<close>, and the
  properties of the two compilers.
\<close>

section \<open>Comparisons\<close>

lemma extends_between:
  assumes p: "parser_wf p" and left: "safe (pr_opt p) k (pr_next p) left" and op: "sep_text op"
  shows "extends k p (parse_between fl left op p)"
  unfolding parse_between_def
proof (rule runs_bind [OF yields_scalar [OF p]], simp only: prod.case)
  fix a p1
  assume p1: "moves p p1" and a: "safe (pr_opt p) (pr_next p) (pr_next p1) a"
  let ?q = "bump p1"
  have q: "parser_wf ?q" "moves p1 ?q" "pr_opt p1 = pr_opt p" using p1 by (auto simp: bump_wf moves_bump moves_wf moves_opt)
  have "runs (\<lambda>s p'. safe (pr_opt p) k (pr_next p') s) ?q
          (bind_res (parse_scalar fl ?q) (\<lambda>(b, p2). Inr (left @ op @ a @ '' AND '' @ b, p2)))"
  proof (rule runs_bind [OF yields_scalar [OF q(1)]], simp only: prod.case)
    fix b p2
    assume p2: "moves ?q p2" and b: "safe (pr_opt ?q) (pr_next ?q) (pr_next p2) b"
    have "safe (pr_opt p) k (pr_next p2) (left @ op @ (a @ '' AND '' @ b))"
      using b q(3) by (intro safe_infix [OF left _ op] safe_infix [OF a _ sep_texts(5)]) simp
    then show "runs (\<lambda>s p'. safe (pr_opt p) k (pr_next p') s) p2 (Inr (left @ op @ a @ '' AND '' @ b, p2))"
      using p2 by (auto simp: runs_Inr intro: moves_refl moves_wf)
  qed
  from runs_from [OF q(2) this]
  show "runs (\<lambda>s p'. safe (pr_opt p) k (pr_next p') s) p1
     (if cur_typ p1 \<noteq> TokAnd then Inl (ExpectedAnd (cur_pos p1))
      else bind_res (parse_scalar fl ?q) (\<lambda>(b, p2). Inr (left @ op @ a @ '' AND '' @ b, p2)))" by simp
qed

lemma comparison_text: "token_ok t \<Longrightarrow> tk_typ t \<in> set comparison_tokens \<Longrightarrow> sep_text ('' '' @ tk_raw t @ '' '')"
proof -
  assume "token_ok t" "tk_typ t \<in> set comparison_tokens"
  then have "tk_raw t \<in> {''='', ''<>'', ''<'', ''>'', ''<='', ''>=''}"
    by (auto simp: comparison_tokens_def token_ok_def)
  moreover have "\<forall>w \<in> {''='', ''<>'', ''<'', ''>'', ''<='', ''>=''}. sep_text ('' '' @ w @ '' '')" by code_simp
  ultimately show ?thesis by blast
qed

lemma extends_relation:
  assumes p: "parser_wf p" and left: "safe (pr_opt p) k (pr_next p) left"
  shows "extends k p (parse_relation fl left p)"
proof -
  let ?q = "bump p"
  have q: "parser_wf ?q" "moves p ?q" "parser_wf (bump ?q)" "moves p (bump ?q)"
    using p by (metis bump_wf moves_bump moves_trans)+
  have "extends k p (parse_between fl left '' NOT BETWEEN '' (bump ?q))"
    using runs_from [OF q(4) extends_between [OF q(3), of k left "'' NOT BETWEEN ''"]] left sep_texts(16) by simp
  moreover have "extends k p (parse_between fl left '' BETWEEN '' ?q)"
    using runs_from [OF q(2) extends_between [OF q(1), of k left "'' BETWEEN ''"]] left sep_texts(15) by simp
  moreover have "extends k p (bind_res (parse_scalar fl ?q) (\<lambda>(right, p1). Inr (left @ '' '' @ cur_raw p @ '' '' @ right, p1)))"
    if c: "cur_typ p \<in> set comparison_tokens"
  proof (rule runs_from [OF q(2)], rule runs_bind [OF yields_scalar [OF q(1)]], simp only: prod.case)
    fix right p1
    assume p1: "moves ?q p1" and r: "safe (pr_opt ?q) (pr_next ?q) (pr_next p1) right"
    have op: "sep_text ('' '' @ cur_raw p @ '' '')" using p c comparison_text by (simp add: parser_wf_def)
    have "safe (pr_opt p) k (pr_next p1) (left @ ('' '' @ cur_raw p @ '' '') @ right)"
      using r by (intro safe_infix [OF left _ op]) simp
    then show "runs (\<lambda>s p'. safe (pr_opt p) k (pr_next p') s) p1 (Inr (left @ '' '' @ cur_raw p @ '' '' @ right, p1))"
      using p1 by (auto simp: runs_Inr intro: moves_refl moves_wf)
  qed
  ultimately show ?thesis by (simp add: parse_relation_def del: append.simps)
qed

lemma yields_property_predicate:
  assumes p: "parser_wf p"
  shows "yields p (parse_property_predicate fl p)"
proof (cases "cur_raw p \<in> set (AllowedProperties (pr_opt p))")
  case True
  define neg where "neg = (cur_typ (bump p) = TokNot \<and> peek_typ (bump p) \<in> {TokLike, TokILike, TokIn})"
  define q where "q = (if neg then bump (bump p) else bump p)"
  have b: "moves p (bump p)" "moves p (bump (bump p))" using p by (metis bump_wf moves_bump moves_trans)+
  then have q: "moves p q" "parser_wf q" by (auto simp: q_def intro: moves_wf)
  have q': "pr_opt q = pr_opt p" "pr_next q = pr_next p" by (simp_all add: q_def)
  have nm: "cur_raw p \<in> set (AllowedProperties (pr_opt q))" using True q' by simp
  have "yields q (if cur_typ q \<in> {TokLike, TokILike} then parse_like (cur_raw p) neg q
              else if cur_typ q = TokIs then parse_is_null (cur_raw p) q
              else if cur_typ q = TokIn then parse_in fl (cur_raw p) neg q
              else parse_relation fl (QuoteIdent (cur_raw p)) q)"
    using yields_like [OF q(2) nm] yields_is_null [OF q(2) nm] yields_in [OF q(2) nm]
      extends_relation [OF q(2) safe_ident, of "cur_raw p"] nm by simp
  moreover have "parse_property_predicate fl p =
             (if cur_typ q \<in> {TokLike, TokILike} then parse_like (cur_raw p) neg q
              else if cur_typ q = TokIs then parse_is_null (cur_raw p) q
              else if cur_typ q = TokIn then parse_in fl (cur_raw p) neg q
              else parse_relation fl (QuoteIdent (cur_raw p)) q)"
    unfolding parse_property_predicate_def assertAllowedProperty_def Let_def q_def neg_def if_P [OF True] bind_res_simps ..
  ultimately have "yields q (parse_property_predicate fl p)" by (simp only:)
  from runs_from [OF q(1) this] show ?thesis by (simp only: q')
qed (simp add: parse_property_predicate_def assertAllowedProperty_def)

lemma yields_predicate:
  assumes p: "parser_wf p"
  shows "yields p (parsePredicate fl p)"
proof -
  have "yields p (bind_res (parse_scalar fl p) (\<lambda>(left, p1). parse_relation fl left p1))"
  proof (rule runs_bind [OF yields_scalar [OF p]], simp only: prod.case)
    fix left p1
    assume "moves p p1" "safe (pr_opt p) (pr_next p) (pr_next p1) left"
    then show "runs (\<lambda>s p'. safe (pr_opt p) (pr_next p) (pr_next p') s) p1 (parse_relation fl left p1)"
      using extends_relation [of p1 "pr_next p" left fl] by (simp add: moves_def)
  qed
  then show ?thesis using p
    by (simp add: parsePredicate_def parseComparison_def yields_spatial yields_dwithin yields_property_predicate)
qed

section \<open>Boolean expressions\<close>

text \<open>The fuel each method of the boolean cycle needs.\<close>

definition boolean_fuel_ok :: "'f floats \<Rightarrow> nat \<Rightarrow> bool" where
  "boolean_fuel_ok fl n =
     ((\<forall>p. parser_wf p \<longrightarrow> 4 * remaining p + 4 \<le> n \<longrightarrow> yields p (parseOr fl n p))
      \<and> (\<forall>k left p. parser_wf p \<longrightarrow> 4 * remaining p + 1 \<le> n \<longrightarrow> safe (pr_opt p) k (pr_next p) left \<longrightarrow>
           extends k p (or_loop fl n left p))
      \<and> (\<forall>p. parser_wf p \<longrightarrow> 4 * remaining p + 3 \<le> n \<longrightarrow> yields p (parseAnd fl n p))
      \<and> (\<forall>k left p. parser_wf p \<longrightarrow> 4 * remaining p + 1 \<le> n \<longrightarrow> safe (pr_opt p) k (pr_next p) left \<longrightarrow>
           extends k p (and_loop fl n left p))
      \<and> (\<forall>p. parser_wf p \<longrightarrow> 4 * remaining p + 2 \<le> n \<longrightarrow> yields p (parseNot fl n p))
      \<and> (\<forall>p. parser_wf p \<longrightarrow> 4 * remaining p + 1 \<le> n \<longrightarrow> yields p (parsePrimary fl n p)))"

lemma boolean_fuel_okD:
  assumes "boolean_fuel_ok fl n" "parser_wf p"
  shows "4 * remaining p + 4 \<le> n \<Longrightarrow> yields p (parseOr fl n p)"
    "4 * remaining p + 1 \<le> n \<Longrightarrow> safe (pr_opt p) k (pr_next p) left \<Longrightarrow> extends k p (or_loop fl n left p)"
    "4 * remaining p + 3 \<le> n \<Longrightarrow> yields p (parseAnd fl n p)"
    "4 * remaining p + 1 \<le> n \<Longrightarrow> safe (pr_opt p) k (pr_next p) left \<Longrightarrow> extends k p (and_loop fl n left p)"
    "4 * remaining p + 2 \<le> n \<Longrightarrow> yields p (parseNot fl n p)"
    "4 * remaining p + 1 \<le> n \<Longrightarrow> yields p (parsePrimary fl n p)"
  using assms by (simp_all add: boolean_fuel_ok_def)

text \<open>One round of a loop over a left-associative operator, for \<^verbatim>\<open>OR\<close> and \<^verbatim>\<open>AND\<close>.\<close>

lemma extends_operator:
  assumes p: "parser_wf p" and left: "safe (pr_opt p) k (pr_next p) left" and mid: "sep_text mid"
    and operand: "yields (bump p) r"
    and loop: "\<And>s p1. moves (bump p) p1 \<Longrightarrow> safe (pr_opt p1) k (pr_next p1) s \<Longrightarrow> extends k p1 (loop s p1)"
  shows "extends k p (bind_res r (\<lambda>(right, p1). loop (''('' @ left @ mid @ right @ '')'') p1))"
proof (rule runs_from [OF moves_bump [OF p]], rule runs_bind [OF operand], simp only: prod.case)
  fix right p1
  assume p1: "moves (bump p) p1" and r: "safe (pr_opt (bump p)) (pr_next (bump p)) (pr_next p1) right"
  have o1: "pr_opt p1 = pr_opt p" using p1 by (simp add: moves_def)
  have "safe (pr_opt p1) k (pr_next p1) (''('' @ left @ mid @ right @ '')'')"
    using safe_infix_paren [OF left _ mid] r o1 by simp
  from loop [OF p1 this] o1
  show "runs (\<lambda>s p'. safe (pr_opt p) k (pr_next p') s) p1 (loop (''('' @ left @ mid @ right @ '')'') p1)" by simp
qed

text \<open>A method that reads an operand and enters its loop.\<close>

lemma yields_then_loop:
  assumes "yields p r"
    and "\<And>s p1. moves p p1 \<Longrightarrow> safe (pr_opt p1) (pr_next p) (pr_next p1) s \<Longrightarrow> extends (pr_next p) p1 (loop s p1)"
  shows "yields p (bind_res r (\<lambda>(left, p1). loop left p1))"
  by (rule runs_bind [OF assms(1)]) (use assms(2) in \<open>simp add: moves_def\<close>)

lemma boolean_or_step:
  assumes n: "boolean_fuel_ok fl n" and p: "parser_wf p"
  shows "4 * remaining p + 4 \<le> Suc n \<Longrightarrow> yields p (parseOr fl (Suc n) p)"
    and "4 * remaining p + 3 \<le> Suc n \<Longrightarrow> yields p (parseAnd fl (Suc n) p)"
proof -
  assume f: "4 * remaining p + 4 \<le> Suc n"
  show "yields p (parseOr fl (Suc n) p)"
    unfolding parseOr.simps
  proof (rule yields_then_loop [OF boolean_fuel_okD(3) [OF n p]])
    show "4 * remaining p + 3 \<le> n" using f by simp
    show "extends (pr_next p) p1 (or_loop fl n s p1)" if "moves p p1" "safe (pr_opt p1) (pr_next p) (pr_next p1) s" for s p1
      using boolean_fuel_okD(2) [OF n moves_wf [OF that(1)] _ that(2)] that(1) f by (simp add: moves_def)
  qed
next
  assume f: "4 * remaining p + 3 \<le> Suc n"
  show "yields p (parseAnd fl (Suc n) p)"
    unfolding parseAnd.simps
  proof (rule yields_then_loop [OF boolean_fuel_okD(5) [OF n p]])
    show "4 * remaining p + 2 \<le> n" using f by simp
    show "extends (pr_next p) p1 (and_loop fl n s p1)" if "moves p p1" "safe (pr_opt p1) (pr_next p) (pr_next p1) s" for s p1
      using boolean_fuel_okD(4) [OF n moves_wf [OF that(1)] _ that(2)] that(1) f by (simp add: moves_def)
  qed
qed

lemma boolean_loop_step:
  assumes n: "boolean_fuel_ok fl n" and p: "parser_wf p" and f: "4 * remaining p + 1 \<le> Suc n"
    and left: "safe (pr_opt p) k (pr_next p) left"
  shows "extends k p (or_loop fl (Suc n) left p)" "extends k p (and_loop fl (Suc n) left p)"
proof -
  have stop: "extends k p (Inr (left, p))" using left p by (simp add: runs_Inr moves_refl)
  have q: "parser_wf (bump p)" using p by (rule bump_wf)
  have fq: "4 * remaining (bump p) + 4 \<le> n" if "cur_typ p \<noteq> TokEOF" using remaining_bump [of p] that f by simp
  have f1: "4 * remaining p1 + 1 \<le> n" if "moves (bump p) p1" "cur_typ p \<noteq> TokEOF" for p1
    using that(1) fq [OF that(2)] by (simp add: moves_def)
  have "extends k p (bind_res (parseAnd fl n (bump p)) (\<lambda>(right, p1). or_loop fl n (''('' @ left @ '' OR '' @ right @ '')'') p1))"
    if t: "cur_typ p = TokOr"
    using fq t by (intro extends_operator [OF p left sep_texts(6)] boolean_fuel_okD(3) [OF n q] boolean_fuel_okD(2) [OF n moves_wf] f1) simp_all
  then show "extends k p (or_loop fl (Suc n) left p)" using stop by (simp del: append.simps)
  have "extends k p (bind_res (parseNot fl n (bump p)) (\<lambda>(right, p1). and_loop fl n (''('' @ left @ '' AND '' @ right @ '')'') p1))"
    if t: "cur_typ p = TokAnd"
    using fq t by (intro extends_operator [OF p left sep_texts(5)] boolean_fuel_okD(5) [OF n q] boolean_fuel_okD(4) [OF n moves_wf] f1) simp_all
  then show "extends k p (and_loop fl (Suc n) left p)" using stop by (simp del: append.simps)
qed

text \<open>A method that consumes a token, reads an operand and puts text around it.\<close>

lemma yields_bracketed:
  assumes p: "parser_wf p" and r: "yields (bump p) r" and txts: "plain_text pre" "sep_text suf"
    and k: "\<And>s p1. moves (bump p) p1 \<Longrightarrow>
              f (s, p1) = Inr (pre @ s @ suf, p1) \<or> f (s, p1) = bind_res (expect t p1) (\<lambda>p2. Inr (pre @ s @ suf, p2))"
  shows "yields p (bind_res r f)"
proof -
  have "yields (bump p) (bind_res r f)"
  proof (rule runs_bind [OF r])
    fix s p1
    assume p1: "moves (bump p) p1" and s: "safe (pr_opt (bump p)) (pr_next (bump p)) (pr_next p1) s"
    have w: "safe (pr_opt (bump p)) (pr_next (bump p)) (pr_next p1) (pre @ s @ suf)" by (rule safe_wrap [OF s txts])
    have "runs (\<lambda>s p'. safe (pr_opt (bump p)) (pr_next (bump p)) (pr_next p') s) p1 (Inr (pre @ s @ suf, p1))"
      using p1 w by (auto simp: runs_Inr intro: moves_refl moves_wf)
    moreover have "runs (\<lambda>s p'. safe (pr_opt (bump p)) (pr_next (bump p)) (pr_next p') s) p1
        (bind_res (expect t p1) (\<lambda>p2. Inr (pre @ s @ suf, p2)))"
      using w by (intro runs_close moves_wf [OF p1]) simp
    ultimately show "runs (\<lambda>s p'. safe (pr_opt (bump p)) (pr_next (bump p)) (pr_next p') s) p1 (f (s, p1))"
      using k [OF p1, of s] by (elim disjE) (simp_all only:)
  qed
  from runs_from [OF moves_bump [OF p] this] show ?thesis by simp
qed

lemma boolean_not_step:
  assumes n: "boolean_fuel_ok fl n" and p: "parser_wf p"
  shows "4 * remaining p + 2 \<le> Suc n \<Longrightarrow> yields p (parseNot fl (Suc n) p)"
    and "4 * remaining p + 1 \<le> Suc n \<Longrightarrow> yields p (parsePrimary fl (Suc n) p)"
proof -
  have fq: "4 * remaining (bump p) + 4 \<le> n" if "cur_typ p \<noteq> TokEOF" "4 * remaining p + 1 \<le> Suc n"
    using remaining_bump [of p] that by simp
  have q: "parser_wf (bump p)" using p by (rule bump_wf)
  {
    assume f: "4 * remaining p + 2 \<le> Suc n"
    have "yields p (bind_res (parseNot fl n (bump p)) (\<lambda>(expr, p1). Inr (''(NOT '' @ expr @ '')'', p1)))"
      if "cur_typ p = TokNot"
      by (rule yields_bracketed [OF p boolean_fuel_okD(5) [OF n q] plain_texts(9) sep_texts(1)])
        (use fq that f in \<open>simp_all del: append.simps\<close>)
    then show "yields p (parseNot fl (Suc n) p)" using boolean_fuel_okD(6) [OF n p] f by (simp del: append.simps)
  }
  assume f: "4 * remaining p + 1 \<le> Suc n"
  have "yields p (bind_res (parseOr fl n (bump p)) (\<lambda>(inner, p1).
             bind_res (expect TokRParen p1) (\<lambda>p2. Inr (''('' @ inner @ '')'', p2))))"
    if "cur_typ p = TokLParen"
    by (rule yields_bracketed [OF p boolean_fuel_okD(1) [OF n q] plain_texts(1) sep_texts(1), where t = TokRParen])
      (use fq that f in \<open>simp_all del: append.simps\<close>)
  then show "yields p (parsePrimary fl (Suc n) p)" using yields_predicate [OF p] by (simp del: append.simps)
qed

lemma boolean_fuel_ok: "boolean_fuel_ok fl n"
proof (induction n)
  case 0
  then show ?case by (simp add: boolean_fuel_ok_def)
next
  case (Suc n)
  from boolean_or_step [OF Suc] boolean_loop_step [OF Suc] boolean_not_step [OF Suc] show ?case
    unfolding boolean_fuel_ok_def by blast
qed

section \<open>The compilers\<close>

lemma start_parser_wf: "parser_wf (start_parser d input opt)"
proof -
  obtain t l where a: "lexer_next (newLexer input) = (t, l)" by fastforce
  obtain u m where b: "lexer_next l = (u, m)" by fastforce
  show ?thesis using lexer_next_ok [OF a] lexer_next_ok [OF b] a b
    by (simp add: start_parser_def Let_def parser_wf_def default_options_def)
qed

lemma start_parser_fields:
  "pr_next (start_parser d input opt) = StartParamIndex (default_options opt)" "pr_args (start_parser d input opt) = []"
  "pr_opt (start_parser d input opt) = default_options opt" "pr_dialect (start_parser d input opt) = d"
  by (simp_all add: start_parser_def Let_def split: prod.split)

lemma yields_parse:
  assumes "parser_wf p"
  shows "yields p (parse fl input p)"
proof (cases "trim_space input = []")
  case True
  then show ?thesis using assms by (simp add: parse_def runs_Inr moves_refl)
next
  case False
  have "yields p (parseOr fl (boolean_fuel p) p)"
    by (rule boolean_fuel_okD(1) [OF boolean_fuel_ok assms]) (simp add: boolean_fuel_def)
  then have "yields p (bind_res (parseOr fl (boolean_fuel p) p) (\<lambda>(sql, p1).
             if cur_typ p1 \<noteq> TokEOF then Inl (UnexpectedToken (cur_raw p1) (cur_pos p1)) else Inr (sql, p1)))"
    by (rule runs_bind) (auto simp: runs_Inr intro: moves_refl moves_wf)
  then show ?thesis using False by (simp add: parse_def)
qed

text \<open>Both compilers are the parse of a fresh parser.\<close>

lemma compile_safe:
  assumes r: "parse fl input (start_parser d input opt) = Inr (sql, p)" and t: "trusted_expression (default_options opt)"
  shows "\<exists>es. scan_sql sql = Some es \<and> params es = map nat [StartParamIndex (default_options opt)..pr_next p - 1]
           \<and> list_all (event_ok (default_options opt)) es
           \<and> int (length (pr_args p)) = pr_next p - StartParamIndex (default_options opt)"
proof -
  have y: "yields (start_parser d input opt) (Inr (sql, p))"
    using yields_parse [OF start_parser_wf, of d input opt fl input] unfolding r .
  then have "int (length (pr_args p)) = pr_next p - StartParamIndex (default_options opt)"
    by (simp add: runs_Inr moves_def start_parser_fields)
  moreover have "safe (default_options opt) (StartParamIndex (default_options opt)) (pr_next p) sql"
    using y by (simp add: runs_Inr start_parser_fields)
  ultimately show ?thesis using safe_scan [OF _ t] by blast
qed

section \<open>One comparison, end to end\<close>

text \<open>The tokens of \<open>"name" = 'value'\<close>, for every name and value.\<close>

definition equality_filter :: "string \<Rightarrow> string \<Rightarrow> string" where
  "equality_filter name value = QuoteIdent name @ '' = '' @ QuoteLiteral value"

lemma lexer_next_equals: "lexer_next (lexer_at ('' = '' @ s) i) = (tok TokEq ''='' (i + 1), lexer_at (CHR '' '' # s) (i + 2))"
proof -
  have "is_space CHR '' ''" "\<not> is_space CHR ''=''" by (simp_all add: is_space_def char_between_def code_of_def)
  then show ?thesis by (simp add: lexer_next_def lex_token_def Let_def single_def consume_def)
qed

lemma equality_tokens:
  obtains i j l0 l1 l2 l3 where "lexer_next (newLexer (equality_filter name value)) = (tok TokIdent name 0, l0)"
    "lexer_next l0 = (tok TokEq ''='' i, l1)" "lexer_next l1 = (tok TokString value j, l2)"
    "lexer_next l2 = (tok TokEOF [] l3, l2)"
proof -
  obtain i where a: "lexer_next (newLexer (equality_filter name value)) = (tok TokIdent name 0, lexer_at ('' = '' @ QuoteLiteral value) i)"
    using lexer_next_ident [of "'' = '' @ QuoteLiteral value" name 0] by (auto simp: newLexer_def equality_filter_def)
  obtain k where c: "lexer_next (lexer_at (QuoteLiteral value) (i + 3)) = (tok TokString value (i + 3), lexer_at [] k)"
    using lexer_next_literal [of "[]" "value" "i + 3"] by auto
  have "is_space CHR '' ''" by (simp add: is_space_def char_between_def code_of_def)
  with c have c': "lexer_next (lexer_at (CHR '' '' # QuoteLiteral value) (i + 2)) = (tok TokString value (i + 3), lexer_at [] k)"
    by (simp add: lexer_next_space numeral_3_eq_3)
  show ?thesis by (rule that [OF a lexer_next_equals c' lexer_next_end])
qed

lemma equality_not_blank: "trim_space (equality_filter name value) \<noteq> []"
proof -
  have "\<not> is_ascii_space dquote" by (simp add: is_ascii_space_def char_between_def code_of_def)
  then have "dquote \<in> set (trim_space (equality_filter name value))"
    by (simp add: trim_space_def equality_filter_def QuoteIdent_def) (simp add: dropWhile_append split: if_split)
  then show ?thesis by auto
qed

lemma take_arg_bump:
  "lexer_next (pr_l p) = (t, l) \<Longrightarrow>
   take_arg v p = (CHR ''$'' # show_int (pr_next p),
     p\<lparr>pr_next := pr_next p + 1, pr_args := pr_args p @ [v], pr_cur := pr_peek p, pr_peek := t, pr_l := l\<rparr>)"
  by (simp add: take_arg_def addArg_def bump_def)

text \<open>A scalar expression that is one string literal.\<close>

lemma parse_scalar_string:
  assumes "cur_typ p = TokString" "peek_typ p = TokEOF"
  shows "parse_scalar fl p = Inr (take_arg (StringArg (cur_raw p)) p)"
proof -
  obtain n where n: "scalar_fuel p = Suc (Suc n)" using add_2_eq_Suc' scalar_fuel_def by metis
  obtain t l where l: "lexer_next (pr_l p) = (t, l)" by fastforce
  show ?thesis unfolding parse_scalar_def n using assms
    by (simp add: take_arg_bump [OF l] scalarPrec_def)
qed

text \<open>A filter whose first predicate consumes the whole input.\<close>

lemma parse_single_predicate:
  assumes "cur_typ p \<notin> {TokNot, TokLParen}" "trim_space input \<noteq> []"
    and "parsePredicate fl p = Inr (sql, p')" "cur_typ p' = TokEOF"
  shows "parse fl input p = Inr (sql, p')"
proof -
  have "boolean_fuel p = Suc (Suc (Suc (Suc (4 * remaining p))))" by (simp add: boolean_fuel_def)
  then show ?thesis using assms by (simp add: parse_def)
qed

lemma parsePredicate_equality:
  assumes "cur_typ p = TokIdent" "cur_raw p \<in> set (AllowedProperties (pr_opt p))" "cur_typ (bump p) = TokEq"
    and "cur_raw (bump p) = ''=''" "parse_scalar fl (bump (bump p)) = Inr (s, p')"
  shows "parsePredicate fl p = Inr (QuoteIdent (cur_raw p) @ '' = '' @ s, p')"
  using assms by (simp add: parsePredicate_def parseComparison_def parse_property_predicate_def assertAllowedProperty_def
      Let_def parse_relation_def comparison_tokens_def)

lemma parse_equality:
  assumes nm: "nm \<in> set (AllowedProperties opt)"
  shows "\<exists>p. parse fl (equality_filter nm v) (start_parser d (equality_filter nm v) opt) = Inr (QuoteIdent nm @ '' = $'' @ show_int (StartParamIndex (default_options opt)), p)
           \<and> pr_args p = [StringArg v] \<and> pr_next p = StartParamIndex (default_options opt) + 1"
proof -
  let ?p = "start_parser d (equality_filter nm v) opt :: 'a parser"
  obtain i j l0 l1 l2 l3 where l: "lexer_next (newLexer (equality_filter nm v)) = (tok TokIdent nm 0, l0)"
    "lexer_next l0 = (tok TokEq ''='' i, l1)" "lexer_next l1 = (tok TokString v j, l2)"
    "lexer_next l2 = (tok TokEOF [] l3, l2)" by (rule equality_tokens)
  define q where "q = \<lparr>pr_l = l2, pr_cur = tok TokString v j, pr_peek = tok TokEOF [] l3, pr_args = ([] :: 'a arg list),
    pr_next = StartParamIndex (default_options opt), pr_opt = default_options opt, pr_dialect = d\<rparr>"
  have q: "bump (bump ?p) = q" using l by (simp add: start_parser_def Let_def bump_def q_def)
  have t: "cur_typ ?p = TokIdent" "cur_raw ?p = nm" "cur_typ (bump ?p) = TokEq" "cur_raw (bump ?p) = ''=''"
    "AllowedProperties (pr_opt ?p) = AllowedProperties opt"
    using l by (simp_all add: start_parser_def Let_def bump_def default_options_def)
  have "parse_scalar fl q = Inr (take_arg (StringArg v) q)"
    using parse_scalar_string [of q fl] by (simp add: q_def)
  then have pred: "parsePredicate fl ?p = Inr (QuoteIdent nm @ '' = '' @ fst (take_arg (StringArg v) q), snd (take_arg (StringArg v) q))"
    using parsePredicate_equality [of ?p fl "fst (take_arg (StringArg v) q)" "snd (take_arg (StringArg v) q)"] nm
    unfolding q t prod.collapse by blast
  have e: "cur_typ (snd (take_arg (StringArg v) q)) = TokEOF" "pr_args (snd (take_arg (StringArg v) q)) = [StringArg v]"
    "pr_next q = StartParamIndex (default_options opt)"
    by (simp_all add: take_arg_def addArg_def bump_def q_def l)
  have "cur_typ ?p \<notin> {TokNot, TokLParen}" using t(1) by simp
  from parse_single_predicate [OF this equality_not_blank pred e(1)] e(2, 3) show ?thesis
    by (intro exI [of _ "snd (take_arg (StringArg v) q)"]) simp
qed

lemma Compile_equality:
  assumes "nm \<in> set (AllowedProperties opt)"
  shows "Compile fl (equality_filter nm v) opt =
     (let n = StartParamIndex (default_options opt)
      in Inr (QuoteIdent nm @ '' = $'' @ show_int n, [StringArg v], n + 1))"
  using parse_equality [of nm "opt\<lparr>GeometryExpression := []\<rparr>" fl v PostGIS] assms
  by (auto simp: Compile_def newParser_def Let_def default_options_def)

lemma CompileForDuckDB_equality:
  assumes "nm \<in> set (AllowedProperties opt)"
  shows "CompileForDuckDB fl (equality_filter nm v) opt =
     (let n = StartParamIndex (default_options opt)
      in Inr (QuoteIdent nm @ '' = $'' @ show_int n, [StringArg v], n + 1))"
  using parse_equality [of nm opt fl v DuckDB] assms
  by (auto simp: CompileForDuckDB_def newDuckDBParser_def Let_def)

text \<open>An error of the first predicate is the error of the filter.\<close>

lemma parse_predicate_error:
  assumes "cur_typ p \<notin> {TokNot, TokLParen}" "trim_space input \<noteq> []" "parsePredicate fl p = Inl e"
  shows "parse fl input p = Inl e"
proof -
  have "boolean_fuel p = Suc (Suc (Suc (Suc (4 * remaining p))))" by (simp add: boolean_fuel_def)
  then show ?thesis using assms by (simp add: parse_def)
qed

lemma lexer_next_plus: "lexer_next (lexer_at ('' + '' @ s) i) = (tok TokPlus ''+'' (i + 1), lexer_at (CHR '' '' # s) (i + 2))"
proof -
  have "is_space CHR '' ''" "\<not> is_space CHR ''+''" by (simp_all add: is_space_def char_between_def code_of_def)
  then show ?thesis by (simp add: lexer_next_def lex_token_def Let_def single_def consume_def)
qed

lemma ident_not_blank: "trim_space (QuoteIdent name @ r) \<noteq> []"
proof -
  have "\<not> is_ascii_space dquote" by (simp add: is_ascii_space_def char_between_def code_of_def)
  then have "dquote \<in> set (trim_space (QuoteIdent name @ r))"
    by (simp add: trim_space_def QuoteIdent_def) (simp add: dropWhile_append split: if_split)
  then show ?thesis by auto
qed

section \<open>Properties\<close>

definition sample_options :: Options where
  "sample_options = \<lparr>StartParamIndex = 3, FilterSRID = 0, SourceSRID = 3857, AllowedProperties = [''name''],
     GeometryProperty = [], GeometryExpression = QuoteIdent ''geom''\<rparr>"

lemma sample_trusted: "trusted_expression (default_options sample_options)"
  unfolding trusted_expression_def well_scanned_def
  by (intro exI [of _ "[Ident ''geom'']"])
    (simp add: sample_options_def default_options_def emits_ident event_ok_def)

text \<open>
  C3. The SQL of a compiled filter cannot carry request text out of its tokens. However the filter
  is written, the generated text, read by the lexical rules of the database, closes every quoted
  token; the identifiers in it are properties of the allow list or the geometry property; its
  placeholders are, in order and once each, the numbers from the first index up to the
  index returned, one for each returned argument; and it has no statement separator. For
  DuckDB this holds when the adapter's geometry expression has these properties itself.
\<close>

theorem compiled_filter_safe:
  assumes "Compile fl cql opt = Inr (sql, args, nextIndex)
           \<or> CompileForDuckDB fl cql opt = Inr (sql, args, nextIndex) \<and> trusted_expression (default_options opt)"
  shows "\<exists>es. scan_sql sql = Some es
           \<and> params es = map nat [StartParamIndex (default_options opt)..nextIndex - 1]
           \<and> int (length args) = nextIndex - StartParamIndex (default_options opt)
           \<and> (\<forall>name. Ident name \<in> set es \<longrightarrow>
                name \<in> set (AllowedProperties opt) \<or> name = GeometryProperty (default_options opt))
           \<and> Semicolon \<notin> set es"
proof -
  have "\<exists>d opt' p. parse fl cql (start_parser d cql opt' :: 'a parser) = Inr (sql, p) \<and> pr_args p = args \<and> pr_next p = nextIndex
          \<and> trusted_expression (default_options opt') \<and> AllowedProperties opt' = AllowedProperties opt
          \<and> StartParamIndex (default_options opt') = StartParamIndex (default_options opt)
          \<and> GeometryProperty (default_options opt') = GeometryProperty (default_options opt)"
    using assms
  proof (elim disjE conjE)
    assume "Compile fl cql opt = Inr (sql, args, nextIndex)"
    moreover have "trusted_expression (default_options (opt\<lparr>GeometryExpression := []\<rparr>))"
      unfolding trusted_expression_def well_scanned_def
      by (intro exI [of _ "[]"]) (simp add: default_options_def emits_Nil)
    ultimately show ?thesis
      by (intro exI [of _ PostGIS] exI [of _ "opt\<lparr>GeometryExpression := []\<rparr>"])
        (auto simp: Compile_def newParser_def bind_res_eq_Inr default_options_def)
  next
    assume "CompileForDuckDB fl cql opt = Inr (sql, args, nextIndex)" "trusted_expression (default_options opt)"
    then show ?thesis
      by (intro exI [of _ DuckDB] exI [of _ opt]) (auto simp: CompileForDuckDB_def newDuckDBParser_def bind_res_eq_Inr)
  qed
  then obtain d opt' p where r: "parse fl cql (start_parser d cql opt' :: 'a parser) = Inr (sql, p)"
    and p: "pr_args p = args" "pr_next p = nextIndex" and t: "trusted_expression (default_options opt')"
    and o: "AllowedProperties opt' = AllowedProperties opt"
      "StartParamIndex (default_options opt') = StartParamIndex (default_options opt)"
      "GeometryProperty (default_options opt') = GeometryProperty (default_options opt)" by blast
  have a: "AllowedProperties (default_options opt') = AllowedProperties opt" using o(1) by (simp add: default_options_def)
  from compile_safe [OF r t] obtain es where es: "scan_sql sql = Some es" "list_all (event_ok (default_options opt')) es"
    "params es = map nat [StartParamIndex (default_options opt)..nextIndex - 1]"
    "int (length args) = nextIndex - StartParamIndex (default_options opt)" unfolding p o by blast
  from event_okD [OF es(2)] es(1, 3, 4) show ?thesis unfolding a o by blast
qed

theorem compiled_filter_safe_witness:
  "\<exists>es. scan_sql (QuoteIdent ''name'' @ '' = $'' @ show_int 3) = Some es \<and> params es = map nat [3..3]
     \<and> (\<forall>name. Ident name \<in> set es \<longrightarrow> name \<in> {''name'', ''geom''}) \<and> Semicolon \<notin> set es"
proof -
  have "Compile fl (equality_filter ''name'' [dquote, squote]) sample_options
          = Inr (QuoteIdent ''name'' @ '' = $'' @ show_int 3, [StringArg [dquote, squote]], 4)" for fl :: "nat floats"
    by (simp add: Compile_equality sample_options_def default_options_def)
  from compiled_filter_safe [OF disjI1 [OF this]] show ?thesis
    by (simp add: sample_options_def default_options_def)
qed

text \<open>
  C4. Compiling a filter always ends, in both dialects: on every input the recursive descent returns
  a result or an error of the parser within the fuel that the remaining input gives it.
\<close>

theorem compile_terminates:
  "Compile fl cql opt \<noteq> Inl OutOfFuel \<and> CompileForDuckDB fl cql opt \<noteq> Inl OutOfFuel"
proof -
  have "parse fl cql (start_parser d cql opt') \<noteq> Inl OutOfFuel" for d opt'
    using yields_parse [OF start_parser_wf, of d cql opt' fl cql] by (auto simp: runs_def)
  then show ?thesis
    by (auto simp: Compile_def CompileForDuckDB_def newParser_def newDuckDBParser_def bind_res_eq_Inl)
qed

text \<open>
  A value written into a filter as a quoted literal reaches the database unchanged, as an
  argument and not as SQL: for every allowed property and every value, whatever quotes they
  hold, the filter \<open>"name" = 'value'\<close> compiles, in both dialects, to the quoted name, an
  equality and one placeholder, with the value as its argument.
\<close>

theorem quoted_value_reaches_argument:
  assumes "name \<in> set (AllowedProperties opt)"
  shows "(let n = StartParamIndex (default_options opt); cql = QuoteIdent name @ '' = '' @ QuoteLiteral v;
              r = Inr (QuoteIdent name @ '' = $'' @ show_int n, [StringArg v], n + 1)
          in Compile fl cql opt = r \<and> CompileForDuckDB fl cql opt = r)"
  using Compile_equality [OF assms, of fl v] CompileForDuckDB_equality [OF assms, of fl v]
  by (simp add: Let_def equality_filter_def)

theorem quoted_value_reaches_argument_witness:
  "Compile \<lparr>ParseFloat = \<lambda>_. None, float_le = \<lambda>(a :: nat) b. a \<le> b\<rparr>
      (QuoteIdent ''name'' @ '' = '' @ QuoteLiteral (''O'' @ [squote] @ ''Brien'')) sample_options
    = Inr (QuoteIdent ''name'' @ '' = $'' @ show_int 3, [StringArg (''O'' @ [squote] @ ''Brien'')], 4)"
  using quoted_value_reaches_argument [of "''name''" sample_options "''O'' @ [squote] @ ''Brien''"
      "\<lparr>ParseFloat = \<lambda>_. None, float_le = \<lambda>(a :: nat) b. a \<le> b\<rparr>"]
  by (simp add: Let_def sample_options_def default_options_def)

text \<open>
  A comparison cannot start with arithmetic on a property: every filter of the form
  \<open>"name" + ...\<close> with an allowed name is rejected at the operator, although the comment in
  \<^verbatim>\<open>parseComparison\<close> says the generic scalar parser continues from the property.
\<close>

theorem property_first_arithmetic_rejected:
  assumes "name \<in> set (AllowedProperties opt)"
  shows "\<exists>pos. Compile fl (QuoteIdent name @ '' + '' @ rest) opt = Inl (ExpectedComparison pos)"
proof -
  let ?opt = "opt\<lparr>GeometryExpression := []\<rparr>"
  let ?p = "start_parser PostGIS (QuoteIdent name @ '' + '' @ rest) ?opt :: 'a parser"
  obtain i where l: "lexer_next (newLexer (QuoteIdent name @ '' + '' @ rest)) = (tok TokIdent name 0, lexer_at ('' + '' @ rest) i)"
    using lexer_next_ident [of "'' + '' @ rest" name 0] by (auto simp: newLexer_def)
  have t: "cur_typ ?p = TokIdent" "cur_raw ?p = name" "cur_typ (bump ?p) = TokPlus"
    "AllowedProperties (pr_opt ?p) = AllowedProperties opt"
    using l lexer_next_plus [of rest i]
    by (simp_all add: start_parser_def Let_def bump_def default_options_def case_prod_beta del: append.simps)
  have "parsePredicate fl p = Inl (ExpectedComparison (cur_pos (bump p)))"
    if "cur_typ p = TokIdent" "cur_raw p \<in> set (AllowedProperties (pr_opt p))" "cur_typ (bump p) = TokPlus" for p
    using that by (simp add: parsePredicate_def parseComparison_def parse_property_predicate_def assertAllowedProperty_def
        Let_def parse_relation_def comparison_tokens_def)
  from this [of ?p] have "parsePredicate fl ?p = Inl (ExpectedComparison (cur_pos (bump ?p)))"
    unfolding t using assms by simp
  moreover have "cur_typ ?p \<notin> {TokNot, TokLParen}" unfolding t by simp
  ultimately have "parse fl (QuoteIdent name @ '' + '' @ rest) ?p = Inl (ExpectedComparison (cur_pos (bump ?p)))"
    by (intro parse_predicate_error ident_not_blank)
  then show ?thesis by (simp add: Compile_def newParser_def)
qed

theorem property_first_arithmetic_rejected_witness:
  "\<exists>pos. Compile \<lparr>ParseFloat = \<lambda>_. None, float_le = \<lambda>(a :: nat) b. a \<le> b\<rparr>
     (QuoteIdent ''name'' @ '' + '' @ ''1 = 2'') sample_options = Inl (ExpectedComparison pos)"
  by (rule property_first_arithmetic_rejected) (simp add: sample_options_def)

end
