(* ===== verification/Tile_Types.thy ===== *)
theory Tile_Types
  imports Go_Prelude
begin

text \<open>
  Package \<^verbatim>\<open>internal/tilecache\<close>, the identity of a tile and the keys it is stored under
  (\<^verbatim>\<open>types.go\<close>), and the file path of a key (\<^verbatim>\<open>filesystem.go\<close>). The hash is a parameter. The
  file-name functions of \<^verbatim>\<open>path/filepath\<close> are those of Unix.
\<close>

section \<open>Tile identity\<close>

record tile_identity =
  ti_WorkspaceID :: string
  ti_WorkspaceRevision :: int
  ti_ResourceID :: string
  ti_ResourceKind :: string
  ti_Generation :: int
  ti_TileType :: string
  ti_MatrixSet :: string
  ti_Zoom :: int
  ti_Column :: int
  ti_Row :: int
  ti_StyleDigest :: string
  ti_StyleName :: string
  ti_Format :: string

definition extensionForFormat :: "string \<Rightarrow> string" where
  "extensionForFormat format =
     (let f = to_lower (trim_space format)
      in if f \<in> {''image/png'', ''png''} then ''png''
         else if f \<in> {''image/jpeg'', ''image/jpg'', ''jpeg'', ''jpg''} then ''jpg''
         else if f \<in> {''image/webp'', ''webp''} then ''webp''
         else if f \<in> {''application/vnd.mapbox-vector-tile'', ''application/x-protobuf'', ''mvt'', ''pbf''} then ''mvt''
         else [])"

definition tile_valid :: "tile_identity \<Rightarrow> bool" where
  "tile_valid i =
     (\<not> (ti_WorkspaceID i = [] \<or> ti_WorkspaceRevision i \<le> 0 \<or> ti_ResourceID i = [] \<or> ti_Generation i \<le> 0
         \<or> ti_MatrixSet i = [] \<or> ti_Zoom i < 0 \<or> ti_Column i < 0 \<or> ti_Row i < 0)
      \<and> ti_TileType i \<in> {''map'', ''vector''} \<and> extensionForFormat (ti_Format i) \<noteq> [])"

definition cacheLayoutVersion :: string where
  "cacheLayoutVersion = ''v1''"

definition CanonicalKey :: "tile_identity \<Rightarrow> string" where
  "CanonicalKey i =
     join ''|'' [cacheLayoutVersion, ti_WorkspaceID i, show_int (ti_WorkspaceRevision i), ti_ResourceID i, ti_ResourceKind i,
       show_int (ti_Generation i), ti_TileType i, ti_MatrixSet i, show_int (ti_Zoom i), show_int (ti_Column i),
       show_int (ti_Row i), ti_StyleDigest i, ti_Format i]"

section \<open>Object keys\<close>

text \<open>\<^verbatim>\<open>strings.ReplaceAll\<close> of two periods by an underscore.\<close>

fun replace_dots :: "string \<Rightarrow> string" where
  "replace_dots (c # d # cs) =
     (if c = CHR ''.'' \<and> d = CHR ''.'' then CHR ''_'' # replace_dots cs else c # replace_dots (d # cs))"
| "replace_dots s = s"

definition sanitizePathPart :: "string \<Rightarrow> string" where
  "sanitizePathPart value =
     map (\<lambda>c. if c \<in> {CHR ''/'', CHR 0x5C, CHR 0x00} then CHR ''_'' else c) (replace_dots (trim_space value))"

definition hex_digit :: "nat \<Rightarrow> char" where
  "hex_digit d = (if d < 10 then char_of (48 + d) else char_of (87 + d))"

definition hex_encode :: "string \<Rightarrow> string" where
  "hex_encode s = concat (map (\<lambda>c. [hex_digit (code_of c div 16), hex_digit (code_of c mod 16)]) s)"

definition object_parts :: "(string \<Rightarrow> string) \<Rightarrow> string \<Rightarrow> tile_identity \<Rightarrow> string list" where
  "object_parts sha256 objectPrefix i =
     [trim_char CHR ''/'' objectPrefix, cacheLayoutVersion, ti_WorkspaceID i, CHR ''w'' # show_int (ti_WorkspaceRevision i),
      ti_ResourceID i, show_int (ti_Generation i), ti_TileType i, ti_MatrixSet i, show_int (ti_Zoom i), show_int (ti_Row i),
      show_int (ti_Column i), if ti_StyleDigest i = [] then ''default'' else ti_StyleDigest i,
      hex_encode (take 16 (sha256 (CanonicalKey i))) @ ''.'' @ extensionForFormat (ti_Format i)]"

definition ObjectKey :: "(string \<Rightarrow> string) \<Rightarrow> string \<Rightarrow> tile_identity \<Rightarrow> string" where
  "ObjectKey sha256 objectPrefix i =
     join ''/'' (map sanitizePathPart (filter (\<lambda>part. part \<noteq> []) (object_parts sha256 objectPrefix i)))"

section \<open>File paths\<close>

text \<open>\<^verbatim>\<open>filepath.Clean\<close>: empty and \<open>.\<close> components go, \<open>..\<close> takes the one before it.\<close>

fun clean_parts :: "bool \<Rightarrow> string list \<Rightarrow> string list \<Rightarrow> string list" where
  "clean_parts rooted acc [] = rev acc"
| "clean_parts rooted acc (p # ps) =
     (if p = [] \<or> p = ''.'' then clean_parts rooted acc ps
      else if p = ''..''
      then (case acc of
              [] \<Rightarrow> clean_parts rooted (if rooted then [] else [''..'']) ps
            | q # acc' \<Rightarrow> if q = ''..'' then clean_parts rooted (''..'' # acc) ps else clean_parts rooted acc' ps)
      else clean_parts rooted (p # acc) ps)"

definition is_abs :: "string \<Rightarrow> bool" where
  "is_abs path = has_prefix path ''/''"

definition filepath_Clean :: "string \<Rightarrow> string" where
  "filepath_Clean path =
     (let parts = clean_parts (is_abs path) [] (split_on CHR ''/'' path)
      in if is_abs path then CHR ''/'' # join ''/'' parts
         else if parts = [] then ''.'' else join ''/'' parts)"

definition filepath_Join :: "string \<Rightarrow> string \<Rightarrow> string" where
  "filepath_Join root path = filepath_Clean (root @ ''/'' @ path)"

text \<open>\<^verbatim>\<open>filepath.Rel\<close> of two absolute clean paths.\<close>

fun rel_parts :: "string list \<Rightarrow> string list \<Rightarrow> string list" where
  "rel_parts [] ts = ts"
| "rel_parts bs [] = replicate (length bs) ''..''"
| "rel_parts (b # bs) (t # ts) = (if b = t then rel_parts bs ts else replicate (length (b # bs)) ''..'' @ t # ts)"

definition filepath_Rel :: "string \<Rightarrow> string \<Rightarrow> string" where
  "filepath_Rel base target =
     (let parts = rel_parts (clean_parts True [] (split_on CHR ''/'' base)) (clean_parts True [] (split_on CHR ''/'' target))
      in if parts = [] then ''.'' else join ''/'' parts)"

definition escapes :: "string \<Rightarrow> bool" where
  "escapes path = (path = ''..'' \<or> has_prefix path ''../'')"

datatype path_error = InvalidObjectKey | PathEscapesRoot

definition FilesystemStore_path :: "string \<Rightarrow> string \<Rightarrow> path_error + string" where
  "FilesystemStore_path root key =
     (let clean = filepath_Clean key
      in if clean = ''.'' \<or> is_abs clean \<or> escapes clean then Inl InvalidObjectKey
         else let path = filepath_Join root clean
              in if escapes (filepath_Rel root path) then Inl PathEscapesRoot else Inr path)"

section \<open>Lemmas\<close>

lemma show_int_bar: "CHR ''|'' \<notin> set (show_int k)"
proof -
  have "\<not> is_digit CHR ''|''" by (simp add: is_digit_def char_between_def code_of_def)
  then have "CHR ''|'' \<notin> set (show_nat n)" for n using show_nat_digits by blast
  then show ?thesis by (simp add: show_int_def)
qed

lemma split_on_join_plain:
  assumes "\<forall>f \<in> set fs. c \<notin> set f" "fs \<noteq> []"
  shows "split_on c (join [c] fs) = fs"
proof -
  have "map ((@) []) (tl fs) = tl fs" by (rule map_idI) simp
  then show ?thesis using split_on_join [of c "[]" fs] assms by simp
qed

text \<open>No part of an object key holds a separator or two periods in a row.\<close>

lemma replace_dots_dots: "replace_dots s \<noteq> p @ ''..'' @ q"
proof (induction s arbitrary: p rule: replace_dots.induct)
  case (1 c d cs)
  show ?case
  proof (cases "c = CHR ''.'' \<and> d = CHR ''.''")
    case True
    then show ?thesis using 1(1) by (cases p) auto
  next
    case False
    have start: "replace_dots (d # cs) = d # t \<or> (\<exists>t. replace_dots (d # cs) = CHR ''_'' # t)" if "replace_dots (d # cs) = x # t" for x t
      using that by (cases cs) (auto split: if_splits)
    show ?thesis
    proof (cases p)
      case Nil
      with False start show ?thesis by auto
    next
      case (Cons x p')
      with False 1(2) [of p'] show ?thesis by auto
    qed
  qed
qed (auto simp: append_eq_Cons_conv Cons_eq_append_conv)

lemma sanitize_no_slash: "CHR ''/'' \<notin> set (sanitizePathPart s)"
  by (auto simp: sanitizePathPart_def)

lemma sanitize_not_dots: "sanitizePathPart s \<noteq> ''..''"
proof
  assume a: "sanitizePathPart s = ''..''"
  then have "replace_dots (trim_space s) = [] @ ''..'' @ []"
    by (auto simp: sanitizePathPart_def map_eq_Cons_conv split: if_splits)
  then show False using replace_dots_dots by blast
qed

lemma sanitize_nonempty: "trim_space s \<noteq> [] \<Longrightarrow> sanitizePathPart s \<noteq> []"
proof -
  have "replace_dots t \<noteq> []" if "t \<noteq> []" for t using that by (cases t rule: replace_dots.cases) auto
  then show "trim_space s \<noteq> [] \<Longrightarrow> sanitizePathPart s \<noteq> []" by (simp add: sanitizePathPart_def)
qed

lemma clean_parts_relative:
  "''..'' \<notin> set ps \<Longrightarrow> clean_parts rooted acc ps = rev acc @ filter (\<lambda>p. p \<noteq> [] \<and> p \<noteq> ''.'') ps"
  by (induction ps arbitrary: acc) auto

lemma clean_parts_rooted:
  "''..'' \<notin> set qs \<Longrightarrow> clean_parts rooted acc (ps @ qs) = clean_parts rooted acc ps @ filter (\<lambda>p. p \<noteq> [] \<and> p \<noteq> ''.'') qs"
proof (induction ps arbitrary: acc)
  case Nil
  then show ?case by (simp add: clean_parts_relative)
next
  case (Cons p ps)
  then show ?case by (auto split: list.split)
qed

lemma rel_parts_append: "rel_parts bs (bs @ ts) = ts"
  by (induction bs) auto

text \<open>A file name: a non-empty component without separator that is not a special one.\<close>

definition proper_name :: "string \<Rightarrow> bool" where
  "proper_name p = (p \<noteq> [] \<and> p \<noteq> ''.'' \<and> p \<noteq> ''..'' \<and> CHR ''/'' \<notin> set p)"

lemma first_part:
  "escapes s \<Longrightarrow> hd (split_on CHR ''/'' s) = ''..''" "is_abs s \<Longrightarrow> hd (split_on CHR ''/'' s) = []"
proof -
  show "hd (split_on CHR ''/'' s) = ''..''" if "escapes s"
  proof -
    from that have "s = ''..'' \<or> (\<exists>t. s = ''../'' @ t)" by (auto simp: escapes_def dest: has_prefixE)
    then show ?thesis by auto
  qed
  show "hd (split_on CHR ''/'' s) = []" if "is_abs s"
    using that has_prefixE [of s "''/''"] by (auto simp: is_abs_def)
qed

lemma join_not_special:
  assumes "ps \<noteq> []" "\<forall>p \<in> set ps. proper_name p"
  shows "join ''/'' ps \<noteq> ''.''" "\<not> is_abs (join ''/'' ps)" "\<not> escapes (join ''/'' ps)"
proof -
  have "hd (split_on CHR ''/'' (join ''/'' ps)) = hd ps"
    using split_on_join_plain [of ps "CHR ''/''"] assms by (simp add: proper_name_def)
  moreover have "proper_name (hd ps)" using assms by simp
  moreover have "hd (split_on CHR ''/'' ''.'') = ''.''" by simp
  ultimately show "join ''/'' ps \<noteq> ''.''" "\<not> is_abs (join ''/'' ps)" "\<not> escapes (join ''/'' ps)"
    using first_part [of "join ''/'' ps"] by (auto simp: proper_name_def)
qed

lemma clean_proper: "\<forall>p \<in> set ps. proper_name p \<Longrightarrow> clean_parts rooted acc ps = rev acc @ ps"
  by (subst clean_parts_relative) (auto simp: proper_name_def filter_id_conv)

lemma clean_join:
  assumes "ps \<noteq> []" "\<forall>p \<in> set ps. CHR ''/'' \<notin> set p \<and> p \<noteq> ''..''" "hd ps \<noteq> []"
    and "filter (\<lambda>p. p \<noteq> [] \<and> p \<noteq> ''.'') ps = qs" "qs \<noteq> []"
  shows "filepath_Clean (join ''/'' ps) = join ''/'' qs"
proof -
  have sp: "split_on CHR ''/'' (join ''/'' ps) = ps" using split_on_join_plain [of ps] assms by simp
  then have "\<not> is_abs (join ''/'' ps)" using first_part(2) assms(3) by metis
  moreover have "clean_parts False [] ps = qs" using assms clean_parts_relative [of ps False "[]"] by auto
  ultimately show ?thesis using sp assms(5) by (simp add: filepath_Clean_def Let_def)
qed

text \<open>Joining clean names to an absolute clean root.\<close>

lemma root_join:
  assumes "\<forall>r \<in> set rs. proper_name r" "\<forall>q \<in> set qs. proper_name q" "qs \<noteq> []"
  shows "filepath_Join (CHR ''/'' # join ''/'' rs) (join ''/'' qs) = CHR ''/'' # join ''/'' (rs @ qs)"
    and "filepath_Rel (CHR ''/'' # join ''/'' rs) (CHR ''/'' # join ''/'' (rs @ qs)) = join ''/'' qs"
proof -
  have all: "\<forall>p \<in> set (rs @ qs). proper_name p" using assms by auto
  have j: "CHR ''/'' # join ''/'' rs @ ''/'' @ join ''/'' qs = join ''/'' ([[]] @ (if rs = [] then [[]] else rs) @ qs)"
  proof (cases "rs = []")
    case True
    then show ?thesis using assms(3) by (cases qs) auto
  next
    case False
    then obtain r rs' where r: "rs = r # rs'" by (cases rs) auto
    with join_append [of rs qs "''/''"] assms(3) False show ?thesis by simp
  qed
  have sp: "split_on CHR ''/'' (join ''/'' ([[]] @ (if rs = [] then [[]] else rs) @ qs)) = [[]] @ (if rs = [] then [[]] else rs) @ qs"
    by (rule split_on_join_plain) (use all in \<open>auto simp: proper_name_def\<close>)
  have "clean_parts True [] ([[]] @ (if rs = [] then [[]] else rs) @ qs) = rs @ qs"
    using clean_proper [of "rs @ qs" True "[]"] clean_proper [of qs True "[]"] all by auto
  moreover have "is_abs (CHR ''/'' # join ''/'' rs @ ''/'' @ join ''/'' qs)" by (simp add: is_abs_def has_prefix_def)
  ultimately show "filepath_Join (CHR ''/'' # join ''/'' rs) (join ''/'' qs) = CHR ''/'' # join ''/'' (rs @ qs)"
    unfolding filepath_Join_def filepath_Clean_def Let_def append_Cons [of _ "join ''/'' rs"] by (simp only: if_True j sp)
  have split: "clean_parts True [] (split_on CHR ''/'' (CHR ''/'' # join ''/'' xs)) = xs" if "\<forall>x \<in> set xs. proper_name x" for xs
  proof (cases "xs = []")
    case False
    then show ?thesis using that split_on_join_plain [of xs "CHR ''/''"] clean_proper [of xs True "[]"]
      by (simp add: proper_name_def)
  qed simp
  show "filepath_Rel (CHR ''/'' # join ''/'' rs) (CHR ''/'' # join ''/'' (rs @ qs)) = join ''/'' qs"
    using split [of rs] split [of "rs @ qs"] assms all by (simp add: filepath_Rel_def Let_def rel_parts_append)
qed

section \<open>Properties\<close>

definition no_bar :: "tile_identity \<Rightarrow> bool" where
  "no_bar i = list_all (\<lambda>s. CHR ''|'' \<notin> set s)
     [ti_WorkspaceID i, ti_ResourceID i, ti_ResourceKind i, ti_TileType i, ti_MatrixSet i, ti_StyleDigest i, ti_Format i]"

text \<open>
  The cache key of a tile identifies it: two identities whose text fields hold no vertical bar
  have the same key only when they agree in every field but the style name, which is a selector
  and not part of the tile. So a tile of one workspace, revision, generation or position is never
  found under the key of another.
\<close>

theorem canonical_key_identifies:
  assumes "no_bar i" "no_bar j" "CanonicalKey i = CanonicalKey j"
  shows "i\<lparr>ti_StyleName := s\<rparr> = j\<lparr>ti_StyleName := s\<rparr>"
proof -
  let ?f = "\<lambda>i. [cacheLayoutVersion, ti_WorkspaceID i, show_int (ti_WorkspaceRevision i), ti_ResourceID i, ti_ResourceKind i,
       show_int (ti_Generation i), ti_TileType i, ti_MatrixSet i, show_int (ti_Zoom i), show_int (ti_Column i),
       show_int (ti_Row i), ti_StyleDigest i, ti_Format i]"
  have split: "split_on CHR ''|'' (CanonicalKey i) = ?f i" if "no_bar i" for i
    unfolding CanonicalKey_def
    by (rule split_on_join_plain) (use that show_int_bar in \<open>auto simp: no_bar_def cacheLayoutVersion_def\<close>)
  from split [OF assms(1)] split [OF assms(2)] assms(3) have "?f i = ?f j" by simp
  then show ?thesis by (cases i; cases j) simp
qed

definition sample_tile :: tile_identity where
  "sample_tile = \<lparr>ti_WorkspaceID = ''ws'', ti_WorkspaceRevision = 1, ti_ResourceID = ''roads'', ti_ResourceKind = ''feature'',
     ti_Generation = 2, ti_TileType = ''map'', ti_MatrixSet = ''WebMercatorQuad'', ti_Zoom = 3, ti_Column = 4, ti_Row = 5,
     ti_StyleDigest = ''..'', ti_StyleName = ''day'', ti_Format = ''png''\<rparr>"

theorem canonical_key_identifies_witness:
  "sample_tile\<lparr>ti_StyleName := ''x''\<rparr> = (sample_tile\<lparr>ti_StyleName := ''night''\<rparr>)\<lparr>ti_StyleName := ''x''\<rparr>"
  by (rule canonical_key_identifies) (simp_all add: no_bar_def sample_tile_def CanonicalKey_def)

text \<open>
  A tile is never written outside the cache directory: for every identity, whatever its fields and
  the configured prefix hold, slashes and parent references included, the object key of the
  tile is accepted and its path is the root followed by proper file names only. The prefix has
  to be empty or more than blanks.
\<close>

theorem object_path_inside_root:
  assumes "\<forall>r \<in> set rs. proper_name r"
    and "trim_char CHR ''/'' objectPrefix = [] \<or> trim_space (trim_char CHR ''/'' objectPrefix) \<noteq> []"
  shows "\<exists>names. names \<noteq> [] \<and> (\<forall>p \<in> set names. proper_name p)
           \<and> FilesystemStore_path (CHR ''/'' # join ''/'' rs) (ObjectKey sha256 objectPrefix i) = Inr (CHR ''/'' # join ''/'' (rs @ names))"
proof -
  define ps where "ps = map sanitizePathPart (filter (\<lambda>part. part \<noteq> []) (object_parts sha256 objectPrefix i))"
  define names where "names = filter (\<lambda>p. p \<noteq> [] \<and> p \<noteq> ''.'') ps"
  have clean: "CHR ''/'' \<notin> set p \<and> p \<noteq> ''..''" if "p \<in> set ps" for p
    using that sanitize_no_slash sanitize_not_dots by (auto simp: ps_def)
  have v1': "sanitizePathPart cacheLayoutVersion = ''v1''" by code_simp
  then have v1: "''v1'' \<in> set ps" by (force simp: ps_def object_parts_def cacheLayoutVersion_def)
  then have ne: "names \<noteq> []" by (auto simp: names_def filter_empty_conv)
  have proper: "\<forall>p \<in> set names. proper_name p" using clean by (auto simp: names_def proper_name_def)
  have "hd ps \<noteq> []"
  proof (cases "trim_char CHR ''/'' objectPrefix = []")
    case True
    then show ?thesis using v1' by (simp add: ps_def object_parts_def cacheLayoutVersion_def)
  next
    case False
    then show ?thesis using assms(2) sanitize_nonempty by (simp add: ps_def object_parts_def)
  qed
  then have "filepath_Clean (join ''/'' ps) = join ''/'' names"
    using clean v1 ne by (intro clean_join) (auto simp: names_def)
  then have "FilesystemStore_path (CHR ''/'' # join ''/'' rs) (join ''/'' ps) = Inr (CHR ''/'' # join ''/'' (rs @ names))"
    using join_not_special [OF ne proper] root_join [OF assms(1) proper ne]
    by (simp add: FilesystemStore_path_def Let_def)
  with ne proper show ?thesis by (auto simp: ObjectKey_def ps_def)
qed

theorem object_path_inside_root_witness:
  "\<exists>names. names \<noteq> [] \<and> (\<forall>p \<in> set names. proper_name p)
     \<and> FilesystemStore_path ''/var/tiles'' (ObjectKey (\<lambda>_. ''0123456789abcdef'') ''../..'' sample_tile)
         = Inr (CHR ''/'' # join ''/'' ([''var'', ''tiles''] @ names))"
proof -
  have "trim_space (trim_char CHR ''/'' ''../..'') \<noteq> []" by code_simp
  with object_path_inside_root [of "[''var'', ''tiles'']" "''../..''" "\<lambda>_. ''0123456789abcdef''" sample_tile] show ?thesis
    by (simp add: proper_name_def)
qed

end
