(* ===== verification/Tile_Ownership.thy ===== *)
theory Tile_Ownership
  imports Go_Prelude
begin

text \<open>
  Package \<^verbatim>\<open>internal/tilecache\<close>, the single-writer lease of a shared object-store prefix
  (\<^verbatim>\<open>ownership.go\<close>). Any number of processes start, claim the marker object with conditional
  writes, verify it at intervals and release it. A step of the system is one request to the object
  store with the local decision that follows it, so every interleaving of requests is a run.
  A request may fail without effect, and a write may take effect without its answer arriving. The
  ETag is a function of the content, the weakest reading of what object stores promise.
\<close>

section \<open>Marker and guard\<close>

record ownerMarker =
  om_SchemaVersion :: int
  om_InstanceID :: string
  om_Hostname :: string
  om_PID :: int
  om_StartedAt :: instant
  om_Released :: bool

definition legacyOwnerMarkerVersion :: int where "legacyOwnerMarkerVersion = 1"
definition ownerMarkerVersion :: int where "ownerMarkerVersion = 3"

datatype ownershipState = ownershipStarting | ownershipHeld | ownershipLost | ownershipReleased

record observedOwner =
  oo_marker :: ownerMarker
  oo_etag :: string

text \<open>What a process is configured with; \<open>og_marker\<close> is the body it writes while it owns the prefix.\<close>

record ownershipGuard =
  og_marker :: ownerMarker
  og_TakeoverOwnerID :: string

definition markerBody :: "ownershipGuard \<Rightarrow> bool \<Rightarrow> ownerMarker" where
  "markerBody g released = (og_marker g)\<lparr>om_SchemaVersion := ownerMarkerVersion, om_Released := released\<rparr>"

text \<open>The object under the marker key: its decoded body, if it decodes, and its ETag.\<close>

type_synonym lease = "(ownerMarker option \<times> string) option"

datatype read_result = NotFound | Observed observedOwner | Unreadable

definition readMarker :: "lease \<Rightarrow> read_result" where
  "readMarker l =
     (case l of
        None \<Rightarrow> NotFound
      | Some (None, etag) \<Rightarrow> Unreadable
      | Some (Some marker, etag) \<Rightarrow>
          if om_SchemaVersion marker < legacyOwnerMarkerVersion \<or> om_SchemaVersion marker > ownerMarkerVersion
             \<or> om_Released marker \<and> om_SchemaVersion marker < 3 \<or> om_InstanceID marker = [] \<or> etag = []
          then Unreadable else Observed \<lparr>oo_marker = marker, oo_etag = etag\<rparr>)"

text \<open>The conditional writes: the new object when the condition holds, \<open>None\<close> for a conflict.\<close>

definition CreateLease :: "(ownerMarker \<Rightarrow> string) \<Rightarrow> ownerMarker \<Rightarrow> lease \<Rightarrow> lease option" where
  "CreateLease E body l = (if l = None then Some (Some (Some body, E body)) else None)"

definition ReplaceLease :: "(ownerMarker \<Rightarrow> string) \<Rightarrow> ownerMarker \<Rightarrow> string \<Rightarrow> lease \<Rightarrow> lease option" where
  "ReplaceLease E body etag l =
     (case l of Some (_, e) \<Rightarrow> if e = etag then Some (Some (Some body, E body)) else None | None \<Rightarrow> None)"

text \<open>The switch of \<^verbatim>\<open>acquire\<close> after the marker was read: the write it makes, or \<open>None\<close> to give up.\<close>

datatype claim = Create | Replace string

definition acquire_decision :: "ownershipGuard \<Rightarrow> read_result \<Rightarrow> claim option" where
  "acquire_decision g r =
     (case r of
        Unreadable \<Rightarrow> None
      | NotFound \<Rightarrow> if og_TakeoverOwnerID g \<noteq> [] then None else Some Create
      | Observed ob \<Rightarrow>
          if om_Released (oo_marker ob)
          then if og_TakeoverOwnerID g \<noteq> [] then None else Some (Replace (oo_etag ob))
          else if og_TakeoverOwnerID g = [] then None
          else if og_TakeoverOwnerID g \<noteq> om_InstanceID (oo_marker ob) then None
          else Some (Replace (oo_etag ob)))"

definition acquire_write :: "(ownerMarker \<Rightarrow> string) \<Rightarrow> ownershipGuard \<Rightarrow> claim \<Rightarrow> lease \<Rightarrow> lease option" where
  "acquire_write E g c l =
     (case c of Create \<Rightarrow> CreateLease E (markerBody g False) l
      | Replace etag \<Rightarrow> ReplaceLease E (markerBody g False) etag l)"

text \<open>The check that a read marker is this process's claim with the ETag it was given.\<close>

definition marker_matches :: "ownershipGuard \<Rightarrow> string \<Rightarrow> read_result \<Rightarrow> bool" where
  "marker_matches g etag r =
     (case r of
        Observed ob \<Rightarrow> \<not> om_Released (oo_marker ob) \<and> om_InstanceID (oo_marker ob) = om_InstanceID (og_marker g) \<and> oo_etag ob = etag
      | _ \<Rightarrow> False)"

section \<open>Processes\<close>

text \<open>Where a process is: before its read, before its write, before its verification, owner with an
  ETag, fenced off by a failed check, fenced off and about to release the marker, or gone.\<close>

datatype phase = Starting | Decided claim | Claimed string | Held string | Lost | Releasing string | Released | Failed

definition guard_state :: "phase \<Rightarrow> ownershipState" where
  "guard_state ph =
     (case ph of Held _ \<Rightarrow> ownershipHeld | Lost \<Rightarrow> ownershipLost | Releasing _ \<Rightarrow> ownershipReleased | Released \<Rightarrow> ownershipReleased | _ \<Rightarrow> ownershipStarting)"

definition beginMutation :: "ownershipState \<Rightarrow> bool" where
  "beginMutation st = (st = ownershipHeld)"

definition ownership_health :: "ownershipState \<Rightarrow> bool" where
  "ownership_health st = (st = ownershipHeld)"

definition markLost :: "phase \<Rightarrow> phase" where
  "markLost ph = (case ph of Held _ \<Rightarrow> Lost | _ \<Rightarrow> ph)"

record ownership =
  ow_lease :: lease
  ow_phase :: "nat \<Rightarrow> phase"

definition set_phase :: "nat \<Rightarrow> phase \<Rightarrow> ownership \<Rightarrow> ownership" where
  "set_phase p ph s = s\<lparr>ow_phase := (ow_phase s)(p := ph)\<rparr>"

inductive ownership_step :: "(ownerMarker \<Rightarrow> string) \<Rightarrow> (nat \<Rightarrow> ownershipGuard) \<Rightarrow> ownership \<Rightarrow> ownership \<Rightarrow> bool"
  for E :: "ownerMarker \<Rightarrow> string" and G :: "nat \<Rightarrow> ownershipGuard" where
  read: "ow_phase s p = Starting \<Longrightarrow> acquire_decision (G p) (readMarker (ow_lease s)) = Some c \<Longrightarrow>
     ownership_step E G s (set_phase p (Decided c) s)"
| refuse: "ow_phase s p = Starting \<Longrightarrow> ownership_step E G s (set_phase p Failed s)"
| claim: "ow_phase s p = Decided c \<Longrightarrow> acquire_write E (G p) c (ow_lease s) = Some l \<Longrightarrow>
     ownership_step E G s (set_phase p (Claimed (E (markerBody (G p) False))) (s\<lparr>ow_lease := l\<rparr>))"
| claim_unanswered: "ow_phase s p = Decided c \<Longrightarrow> acquire_write E (G p) c (ow_lease s) = Some l \<Longrightarrow>
     ownership_step E G s (set_phase p Failed (s\<lparr>ow_lease := l\<rparr>))"
| claim_failed: "ow_phase s p = Decided c \<Longrightarrow> ownership_step E G s (set_phase p Failed s)"
| verified: "ow_phase s p = Claimed e \<Longrightarrow> marker_matches (G p) e (readMarker (ow_lease s)) \<Longrightarrow>
     ownership_step E G s (set_phase p (Held e) s)"
| not_verified: "ow_phase s p = Claimed e \<Longrightarrow> ownership_step E G s (set_phase p Failed s)"
| check_kept: "ow_phase s p = Held e \<Longrightarrow> marker_matches (G p) e (readMarker (ow_lease s)) \<Longrightarrow> ownership_step E G s s"
| check_lost: "ow_phase s p = Held e \<Longrightarrow> ownership_step E G s (set_phase p (markLost (Held e)) s)"
| release_fence: "ow_phase s p = Held e \<Longrightarrow> ownership_step E G s (set_phase p (Releasing e) s)"
| release_unowned: "ow_phase s p = Lost \<Longrightarrow> ownership_step E G s (set_phase p Released s)"
| release: "ow_phase s p = Releasing e \<Longrightarrow> ReplaceLease E (markerBody (G p) True) e (ow_lease s) = Some l \<Longrightarrow>
     ownership_step E G s (set_phase p Released (s\<lparr>ow_lease := l\<rparr>))"
| release_failed: "ow_phase s p = Releasing e \<Longrightarrow> ownership_step E G s (set_phase p Released s)"
| crash: "ownership_step E G s (set_phase p Failed s)"

inductive ownership_reachable :: "(ownerMarker \<Rightarrow> string) \<Rightarrow> (nat \<Rightarrow> ownershipGuard) \<Rightarrow> ownership \<Rightarrow> bool"
  for E :: "ownerMarker \<Rightarrow> string" and G :: "nat \<Rightarrow> ownershipGuard" where
  start: "ow_lease s = None \<or> (\<exists>m. ow_lease s = Some (Some m, E m) \<and> (\<forall>p. om_InstanceID (og_marker (G p)) \<noteq> om_InstanceID m)) \<Longrightarrow>
     (\<And>p. ow_phase s p = Starting) \<Longrightarrow> ownership_reachable E G s"
| step: "ownership_reachable E G s \<Longrightarrow> ownership_step E G s s' \<Longrightarrow> ownership_reachable E G s'"

inductive_cases ownership_stepE: "ownership_step E G s s'"

section \<open>Invariant\<close>

text \<open>
  Process identities are fresh random identifiers, and different bodies have different ETags.
\<close>

definition distinct_owners :: "(nat \<Rightarrow> ownershipGuard) \<Rightarrow> bool" where
  "distinct_owners G = (inj (\<lambda>p. om_InstanceID (og_marker (G p))))"

definition no_takeover :: "(nat \<Rightarrow> ownershipGuard) \<Rightarrow> bool" where
  "no_takeover G = (\<forall>p. og_TakeoverOwnerID (G p) = [])"

definition own_lease :: "(ownerMarker \<Rightarrow> string) \<Rightarrow> ownershipGuard \<Rightarrow> lease" where
  "own_lease E g = Some (Some (markerBody g False), E (markerBody g False))"

text \<open>Without takeovers an owner's marker is in place, and a planned replacement was seen released.\<close>

definition ownership_inv :: "(ownerMarker \<Rightarrow> string) \<Rightarrow> (nat \<Rightarrow> ownershipGuard) \<Rightarrow> ownership \<Rightarrow> bool" where
  "ownership_inv E G s =
     ((\<forall>l. ow_lease s = Some l \<longrightarrow> (\<exists>m. l = (Some m, E m)))
      \<and> (\<forall>p e. ow_phase s p \<in> {Held e, Claimed e, Releasing e} \<longrightarrow>
           e = E (markerBody (G p) False) \<and> ow_lease s = own_lease E (G p))
      \<and> (\<forall>p e. ow_phase s p = Decided (Replace e) \<longrightarrow> (\<exists>m. om_Released m \<and> e = E m)))"

lemma ownership_invD:
  assumes "ownership_inv E G s"
  shows "ow_lease s = Some l \<Longrightarrow> \<exists>m. l = (Some m, E m)"
    and "ow_phase s p = Held e \<Longrightarrow> e = E (markerBody (G p) False) \<and> ow_lease s = own_lease E (G p)"
    and "ow_phase s p = Claimed e \<Longrightarrow> e = E (markerBody (G p) False) \<and> ow_lease s = own_lease E (G p)"
    and "ow_phase s p = Releasing e \<Longrightarrow> e = E (markerBody (G p) False) \<and> ow_lease s = own_lease E (G p)"
    and "ow_phase s p = Decided (Replace e) \<Longrightarrow> \<exists>m. om_Released m \<and> e = E m"
  using assms unfolding ownership_inv_def by blast+

lemma markerBody_Released [simp]: "om_Released (markerBody g r) = r" "om_InstanceID (markerBody g r) = om_InstanceID (og_marker g)"
  by (simp_all add: markerBody_def)

text \<open>A step that leaves the lease alone and ends a phase keeps the invariant.\<close>

lemma ownership_inv_phase:
  assumes "ownership_inv E G s"
    and "\<And>e. ph \<in> {Held e, Claimed e, Releasing e} \<Longrightarrow> e = E (markerBody (G p) False) \<and> ow_lease s = own_lease E (G p)"
    and "\<And>e. ph = Decided (Replace e) \<Longrightarrow> \<exists>m. om_Released m \<and> e = E m"
  shows "ownership_inv E G (set_phase p ph s)"
  using assms unfolding ownership_inv_def set_phase_def by auto

lemma own_lease_inject:
  assumes "distinct_owners G" "own_lease E (G p) = own_lease E (G q)"
  shows "p = q"
proof -
  have "om_InstanceID (markerBody (G p) False) = om_InstanceID (markerBody (G q) False)"
    using assms(2) by (simp add: own_lease_def)
  then show ?thesis using assms(1) by (auto simp: distinct_owners_def dest: injD)
qed

text \<open>A planned write that succeeds finds the prefix unowned.\<close>

lemma claim_unowned:
  assumes "inj E" "ownership_inv E G s" "ow_phase s p = Decided c" "acquire_write E (G p) c (ow_lease s) = Some l"
  shows "l = own_lease E (G p) \<and> (\<forall>q. ow_lease s \<noteq> own_lease E (G q))"
proof (cases c)
  case Create
  then show ?thesis using assms(4)
    by (auto simp: acquire_write_def CreateLease_def own_lease_def split: if_splits)
next
  case (Replace e)
  then obtain m where m: "om_Released m" "e = E m" using ownership_invD(5) [OF assms(2)] assms(3) by blast
  obtain b where b: "ow_lease s = Some (b, E m)" "l = own_lease E (G p)"
    using assms(4) Replace m(2)
    by (auto simp: acquire_write_def ReplaceLease_def own_lease_def split: option.splits prod.splits if_splits)
  then have "b = Some m" using ownership_invD(1) [OF assms(2), of "(b, E m)"] assms(1) by (auto dest: injD)
  with b m(1) show ?thesis by (auto simp: own_lease_def)
qed

lemma ownership_inv_write:
  assumes "ownership_inv E G s" "\<forall>q. q \<noteq> p \<longrightarrow> ow_lease s \<noteq> own_lease E (G q)"
    and "\<exists>m. l = Some (Some m, E m)"
    and "ph = Claimed (E (markerBody (G p) False)) \<and> l = own_lease E (G p) \<or> ph = Failed \<or> ph = Released"
  shows "ownership_inv E G (set_phase p ph (s\<lparr>ow_lease := l\<rparr>))"
proof -
  have "ow_phase s q \<notin> {Held e, Claimed e, Releasing e}" if "q \<noteq> p" for q e
    using assms(1, 2) that unfolding ownership_inv_def by blast
  then show ?thesis using assms(1, 3, 4) unfolding ownership_inv_def set_phase_def by auto
qed

lemma ownership_inv_step:
  assumes E: "inj E" and G: "distinct_owners G" "no_takeover G" and inv: "ownership_inv E G s" and st: "ownership_step E G s s'"
  shows "ownership_inv E G s'"
  using st
proof (cases rule: ownership_step.cases)
  case (read p c)
  have "\<exists>m. om_Released m \<and> e = E m" if c: "c = Replace e" for e
  proof -
    obtain ob where o: "readMarker (ow_lease s) = Observed ob" "om_Released (oo_marker ob)" "e = oo_etag ob"
      using read(3) c G(2) by (auto simp: acquire_decision_def no_takeover_def split: read_result.splits if_splits)
    have "ow_lease s = Some (Some (oo_marker ob), oo_etag ob)"
      using o(1) by (auto simp: readMarker_def split: option.splits prod.splits if_splits)
    with o ownership_invD(1) [OF inv] show ?thesis by fastforce
  qed
  then show ?thesis unfolding read(1) by (intro ownership_inv_phase [OF inv]) auto
next
  case (claim p c l)
  note u = claim_unowned [OF E inv claim(2, 3)]
  show ?thesis unfolding claim(1) by (rule ownership_inv_write [OF inv]) (use u in \<open>auto simp: own_lease_def\<close>)
next
  case (claim_unanswered p c l)
  note u = claim_unowned [OF E inv claim_unanswered(2, 3)]
  show ?thesis unfolding claim_unanswered(1) by (rule ownership_inv_write [OF inv]) (use u in \<open>auto simp: own_lease_def\<close>)
next
  case (verified p e)
  then show ?thesis using ownership_invD(3) [OF inv verified(2)] by (auto intro: ownership_inv_phase [OF inv])
next
  case (release p e l)
  have own: "ow_lease s = own_lease E (G p)" using ownership_invD(4) [OF inv release(2)] by simp
  then have "\<forall>q. q \<noteq> p \<longrightarrow> ow_lease s \<noteq> own_lease E (G q)" using own_lease_inject [OF G(1)] by metis
  then show ?thesis using release by (auto intro!: ownership_inv_write [OF inv] simp: ReplaceLease_def split: option.splits prod.splits if_splits)
next
  case (release_fence p e)
  then show ?thesis using ownership_invD(2) [OF inv release_fence(2)] by (auto intro: ownership_inv_phase [OF inv])
qed (auto simp: markLost_def intro!: ownership_inv_phase [OF inv] inv)

lemma ownership_reachable_inv:
  assumes "inj E" "distinct_owners G" "no_takeover G" "ownership_reachable E G s"
  shows "ownership_inv E G s"
  using assms(4)
proof induction
  case (start s)
  then show ?case by (auto simp: ownership_inv_def)
qed (rule ownership_inv_step [OF assms(1-3)])

text \<open>With takeovers: a planned replacement is of a released marker, or of the named owner's claim.\<close>

definition replaceable :: "ownershipGuard \<Rightarrow> ownerMarker \<Rightarrow> bool" where
  "replaceable g m =
     (if og_TakeoverOwnerID g = [] then om_Released m else \<not> om_Released m \<and> om_InstanceID m = og_TakeoverOwnerID g)"

definition plan_ok :: "(ownerMarker \<Rightarrow> string) \<Rightarrow> ownershipGuard \<Rightarrow> phase \<Rightarrow> bool" where
  "plan_ok E g ph =
     (case ph of
        Decided (Replace e) \<Rightarrow> (\<exists>m. e = E m \<and> replaceable g m)
      | Decided Create \<Rightarrow> og_TakeoverOwnerID g = []
      | Held e \<Rightarrow> e = E (markerBody g False) | Claimed e \<Rightarrow> e = E (markerBody g False)
      | Releasing e \<Rightarrow> e = E (markerBody g False) | _ \<Rightarrow> True)"

definition takeover_inv :: "(ownerMarker \<Rightarrow> string) \<Rightarrow> (nat \<Rightarrow> ownershipGuard) \<Rightarrow> ownership \<Rightarrow> bool" where
  "takeover_inv E G s =
     ((\<forall>l. ow_lease s = Some l \<longrightarrow> (\<exists>m. l = (Some m, E m))) \<and> (\<forall>p. plan_ok E (G p) (ow_phase s p)))"

lemma takeover_inv_phase: "takeover_inv E G s \<Longrightarrow> plan_ok E (G p) ph \<Longrightarrow> takeover_inv E G (set_phase p ph s)"
  by (auto simp: takeover_inv_def set_phase_def)

lemma takeover_inv_write:
  "takeover_inv E G s \<Longrightarrow> plan_ok E (G p) ph \<Longrightarrow> \<exists>m. l = Some (Some m, E m) \<Longrightarrow>
   takeover_inv E G (set_phase p ph (s\<lparr>ow_lease := l\<rparr>))"
  by (auto simp: takeover_inv_def set_phase_def)

lemma writes_give_etag:
  "acquire_write E g c l = Some l' \<Longrightarrow> l' = own_lease E g"
  "ReplaceLease E b e l = Some l' \<Longrightarrow> l' = Some (Some b, E b)"
  by (auto simp: acquire_write_def CreateLease_def ReplaceLease_def own_lease_def
      split: claim.splits if_splits option.splits prod.splits)

lemma decision_plan_ok:
  assumes "takeover_inv E G s" "acquire_decision g (readMarker (ow_lease s)) = Some c"
  shows "plan_ok E g (Decided c)"
proof (cases c)
  case (Replace e)
  then obtain ob where ob: "readMarker (ow_lease s) = Observed ob" "e = oo_etag ob" "replaceable g (oo_marker ob)"
    using assms(2) by (auto simp: acquire_decision_def replaceable_def split: read_result.splits if_splits)
  then have "ow_lease s = Some (Some (oo_marker ob), oo_etag ob)"
    by (auto simp: readMarker_def split: option.splits prod.splits if_splits)
  with assms(1) have "e = E (oo_marker ob)" using ob(2) by (fastforce simp: takeover_inv_def)
  with ob(3) Replace show ?thesis by (auto simp: plan_ok_def)
next
  case Create
  then show ?thesis using assms(2) by (auto simp: plan_ok_def acquire_decision_def split: read_result.splits if_splits)
qed

lemma takeover_inv_step:
  assumes inv: "takeover_inv E G s" and st: "ownership_step E G s s'"
  shows "takeover_inv E G s'"
  using st
proof (cases rule: ownership_step.cases)
  case (read p c)
  then show ?thesis using decision_plan_ok [OF inv] by (simp add: takeover_inv_phase [OF inv])
next
  case (claim p c l)
  then show ?thesis using writes_give_etag(1) [OF claim(3)]
    by (auto intro!: takeover_inv_write [OF inv] simp: plan_ok_def own_lease_def)
next
  case (claim_unanswered p c l)
  then show ?thesis using writes_give_etag(1) [OF claim_unanswered(3)]
    by (auto intro!: takeover_inv_write [OF inv] simp: plan_ok_def own_lease_def)
next
  case (verified p e)
  moreover have "plan_ok E (G p) (Claimed e)" using inv verified(2) by (metis takeover_inv_def)
  ultimately show ?thesis by (auto intro!: takeover_inv_phase [OF inv] simp: plan_ok_def)
next
  case (release p e l)
  then show ?thesis using writes_give_etag(2) [OF release(3)]
    by (auto intro!: takeover_inv_write [OF inv] simp: plan_ok_def)
next
  case (release_fence p e)
  moreover have "plan_ok E (G p) (Held e)" using inv release_fence(2) by (metis takeover_inv_def)
  ultimately show ?thesis by (auto intro!: takeover_inv_phase [OF inv] simp: plan_ok_def)
qed (auto intro!: takeover_inv_phase [OF inv] inv simp: plan_ok_def markLost_def)

lemma takeover_reachable_inv: "ownership_reachable E G s \<Longrightarrow> takeover_inv E G s"
proof (induction rule: ownership_reachable.induct)
  case (start s)
  then show ?case by (auto simp: takeover_inv_def plan_ok_def)
qed (rule takeover_inv_step)

text \<open>What a write that succeeds has replaced.\<close>

lemma stored_marker:
  assumes "inj E" "takeover_inv E G s" "ow_lease s = Some (b, E m)"
  shows "b = Some m"
  using assms by (auto simp: takeover_inv_def dest: injD)

lemma claim_replaces:
  assumes "inj E" "takeover_inv E G s" "ow_phase s p = Decided c" "acquire_write E (G p) c (ow_lease s) = Some l"
  shows "l = own_lease E (G p) \<and>
    (case ow_lease s of None \<Rightarrow> og_TakeoverOwnerID (G p) = [] | Some (b, _) \<Rightarrow> (\<exists>m. b = Some m \<and> replaceable (G p) m))"
proof -
  have plan: "plan_ok E (G p) (Decided c)" using assms(2, 3) by (metis takeover_inv_def)
  show ?thesis
  proof (cases c)
    case Create
    then show ?thesis using plan assms(4)
      by (auto simp: plan_ok_def acquire_write_def CreateLease_def own_lease_def split: if_splits)
  next
    case (Replace e)
    with plan obtain m where m: "e = E m" "replaceable (G p) m" by (auto simp: plan_ok_def)
    obtain b where b: "ow_lease s = Some (b, E m)"
      using assms(4) Replace m(1) by (auto simp: acquire_write_def ReplaceLease_def split: option.splits prod.splits if_splits)
    with stored_marker [OF assms(1, 2) b] m(2) writes_give_etag(1) [OF assms(4)] show ?thesis by auto
  qed
qed

lemma release_replaces:
  assumes "inj E" "takeover_inv E G s" "ow_phase s p = Releasing e" "ReplaceLease E (markerBody (G p) True) e (ow_lease s) = Some l"
  shows "ow_lease s = own_lease E (G p) \<and> e = E (markerBody (G p) False)
    \<and> l = Some (Some (markerBody (G p) True), E (markerBody (G p) True))"
proof -
  have "plan_ok E (G p) (Releasing e)" using assms(2, 3) by (metis takeover_inv_def)
  then have e: "e = E (markerBody (G p) False)" by (simp add: plan_ok_def)
  obtain b where b: "ow_lease s = Some (b, E (markerBody (G p) False))"
    using assms(4) e by (auto simp: ReplaceLease_def split: option.splits prod.splits if_splits)
  with stored_marker [OF assms(1, 2) b] e writes_give_etag(2) [OF assms(4)] show ?thesis by (auto simp: own_lease_def)
qed

section \<open>Properties\<close>

text \<open>
  C27. The persistent tile cache has one writer: when no process is told to take over, in every
  interleaving of starts, claims, checks, releases and crashes, with requests failing and answers
  getting lost, at most one process passes the mutation gate.
\<close>

theorem tile_cache_single_writer:
  assumes "inj E" "distinct_owners G" "no_takeover G" "ownership_reachable E G s"
    and "beginMutation (guard_state (ow_phase s p))" "beginMutation (guard_state (ow_phase s q))"
  shows "p = q"
proof -
  have held: "ow_lease s = own_lease E (G r)" if "beginMutation (guard_state (ow_phase s r))" for r
  proof -
    from that obtain e where "ow_phase s r = Held e"
      by (auto simp: beginMutation_def guard_state_def split: phase.splits)
    then show ?thesis using ownership_invD(2) [OF ownership_reachable_inv [OF assms(1-4)]] by blast
  qed
  have "own_lease E (G p) = own_lease E (G q)" using held [OF assms(5)] held [OF assms(6)] by simp
  then show ?thesis by (rule own_lease_inject [OF assms(2)])
qed

text \<open>An example: numbered processes, and a content encoding that keeps every field apart.\<close>

definition sample_guard :: "nat \<Rightarrow> ownershipGuard" where
  "sample_guard p = \<lparr>og_marker = \<lparr>om_SchemaVersion = 3, om_InstanceID = CHR ''i'' # replicate p (CHR ''0''), om_Hostname = ''a'', om_PID = int p,
     om_StartedAt = 0, om_Released = False\<rparr>, og_TakeoverOwnerID = []\<rparr>"

definition takeover_guard :: "nat \<Rightarrow> ownershipGuard" where
  "takeover_guard p = (sample_guard p)\<lparr>og_TakeoverOwnerID := if p = 1 then ''i'' else []\<rparr>"

primrec escape_field :: "string \<Rightarrow> string" where
  "escape_field [] = ''.''"
| "escape_field (c # cs) = CHR ''x'' # c # escape_field cs"

definition sample_etag :: "ownerMarker \<Rightarrow> string" where
  "sample_etag m =
     escape_field (om_InstanceID m) @ escape_field (om_Hostname m) @ escape_field (show_int (om_SchemaVersion m))
     @ escape_field (show_int (om_PID m)) @ escape_field (show_int (om_StartedAt m)) @ (if om_Released m then ''r'' else ''h'')"

lemma escape_field_inject [simp]: "escape_field xs @ r = escape_field ys @ t \<longleftrightarrow> xs = ys \<and> r = t"
proof (induction xs arbitrary: ys)
  case Nil
  show ?case by (cases ys) auto
next
  case (Cons x xs)
  then show ?case by (cases ys) auto
qed

lemma sample_etag_inj: "inj sample_etag"
proof (rule injI)
  fix x y assume "sample_etag x = sample_etag y"
  then show "x = y" by (cases x; cases y) (auto simp: sample_etag_def split: if_splits)
qed

lemma sample_guard_ok: "distinct_owners sample_guard" "no_takeover sample_guard"
  by (auto simp: distinct_owners_def no_takeover_def sample_guard_def inj_def dest: arg_cong [of _ _ length])

definition unowned :: ownership where
  "unowned = \<lparr>ow_lease = None, ow_phase = \<lambda>_. Starting\<rparr>"

text \<open>A process that starts on an unowned prefix comes to hold it.\<close>

lemma acquire_unowned:
  assumes "og_TakeoverOwnerID (G p) = []" "om_InstanceID (og_marker (G p)) \<noteq> []" "E (markerBody (G p) False) \<noteq> []"
  shows "ownership_reachable E G
    \<lparr>ow_lease = own_lease E (G p), ow_phase = (\<lambda>_. Starting)(p := Held (E (markerBody (G p) False)))\<rparr>"
proof -
  let ?e = "E (markerBody (G p) False)"
  have 0: "ownership_reachable E G unowned" by (rule ownership_reachable.start) (auto simp: unowned_def)
  have 1: "ownership_step E G unowned (set_phase p (Decided Create) unowned)"
    by (rule ownership_step.read) (use assms(1) in \<open>auto simp: unowned_def readMarker_def acquire_decision_def\<close>)
  let ?s2 = "set_phase p (Claimed ?e) ((set_phase p (Decided Create) unowned)\<lparr>ow_lease := own_lease E (G p)\<rparr>)"
  have 2: "ownership_step E G (set_phase p (Decided Create) unowned) ?s2"
    by (rule ownership_step.claim)
      (auto simp: unowned_def set_phase_def acquire_write_def CreateLease_def own_lease_def)
  have "marker_matches (G p) ?e (readMarker (own_lease E (G p)))"
    using assms(2, 3) by (simp add: own_lease_def readMarker_def marker_matches_def markerBody_def
        legacyOwnerMarkerVersion_def ownerMarkerVersion_def)
  then have 3: "ownership_step E G ?s2 (set_phase p (Held ?e) ?s2)"
    by (intro ownership_step.verified) (auto simp: set_phase_def)
  have "ownership_reachable E G (set_phase p (Held ?e) ?s2)"
    using 0 1 2 3 by (meson ownership_reachable.step)
  then show ?thesis by (simp add: set_phase_def unowned_def)
qed

lemma sample_etag_nonempty [simp]: "sample_etag m \<noteq> []"
  by (simp add: sample_etag_def)

lemma tile_cache_single_writer_witness:
  "\<exists>s. ownership_reachable sample_etag sample_guard s \<and> beginMutation (guard_state (ow_phase s 0))
       \<and> (\<forall>q. beginMutation (guard_state (ow_phase s q)) \<longrightarrow> q = 0)"
proof -
  let ?s = "\<lparr>ow_lease = own_lease sample_etag (sample_guard 0),
    ow_phase = (\<lambda>_. Starting)(0 := Held (sample_etag (markerBody (sample_guard 0) False)))\<rparr>"
  have r: "ownership_reachable sample_etag sample_guard ?s"
    by (rule acquire_unowned) (simp_all add: sample_guard_def)
  have b: "beginMutation (guard_state (ow_phase ?s 0))" by (simp add: beginMutation_def guard_state_def)
  from tile_cache_single_writer [OF sample_etag_inj sample_guard_ok r _ b] r b show ?thesis by blast
qed

text \<open>
  C28. How the prefix changes hands, takeovers included: the marker object only ever changes when a
  process writes its own claim over an absent marker, a released one, or the marker of exactly the
  owner its operator named, or when an owner marks its own claim released. So a stale owner's
  release never touches the marker of the process that replaced it.
\<close>

theorem ownership_changes_hands:
  assumes "inj E" "ownership_reachable E G s" "ownership_step E G s s'" "ow_lease s' \<noteq> ow_lease s"
  shows "\<exists>p. ow_lease s' = own_lease E (G p)
              \<and> (case ow_lease s of None \<Rightarrow> og_TakeoverOwnerID (G p) = [] | Some (b, _) \<Rightarrow> (\<exists>m. b = Some m \<and> replaceable (G p) m))
            \<or> ow_lease s = own_lease E (G p) \<and> ow_phase s p = Releasing (E (markerBody (G p) False))
              \<and> ow_lease s' = Some (Some (markerBody (G p) True), E (markerBody (G p) True))"
proof -
  note inv = takeover_reachable_inv [OF assms(2)]
  show ?thesis using assms(3)
  proof (cases rule: ownership_step.cases)
    case (claim p c l)
    with claim_replaces [OF assms(1) inv claim(2, 3)] show ?thesis by (auto simp: set_phase_def)
  next
    case (claim_unanswered p c l)
    with claim_replaces [OF assms(1) inv claim_unanswered(2, 3)] show ?thesis by (auto simp: set_phase_def)
  next
    case (release p e l)
    with release_replaces [OF assms(1) inv release(2, 3)] show ?thesis by (auto simp: set_phase_def)
  qed (use assms(4) in \<open>auto simp: set_phase_def\<close>)
qed

lemma ownership_changes_hands_witness:
  "\<exists>s s'. ownership_reachable sample_etag takeover_guard s \<and> ownership_step sample_etag takeover_guard s s'
     \<and> ow_lease s' = own_lease sample_etag (takeover_guard 1)
     \<and> (\<exists>p. ow_lease s' = own_lease sample_etag (takeover_guard p)
              \<and> (case ow_lease s of None \<Rightarrow> og_TakeoverOwnerID (takeover_guard p) = [] | Some (b, _) \<Rightarrow> (\<exists>m. b = Some m \<and> replaceable (takeover_guard p) m))
            \<or> ow_lease s = own_lease sample_etag (takeover_guard p)
              \<and> ow_phase s p = Releasing (sample_etag (markerBody (takeover_guard p) False))
              \<and> ow_lease s' = Some (Some (markerBody (takeover_guard p) True), sample_etag (markerBody (takeover_guard p) True)))"
proof -
  let ?e = "sample_etag (markerBody (takeover_guard 0) False)"
  let ?s = "\<lparr>ow_lease = own_lease sample_etag (takeover_guard 0), ow_phase = (\<lambda>_. Starting)(0 := Held ?e)\<rparr>"
  let ?s1 = "set_phase 1 (Decided (Replace ?e)) ?s"
  let ?s2 = "set_phase 1 (Claimed (sample_etag (markerBody (takeover_guard 1) False)))
    (?s1\<lparr>ow_lease := own_lease sample_etag (takeover_guard 1)\<rparr>)"
  note defs = takeover_guard_def sample_guard_def markerBody_def own_lease_def readMarker_def legacyOwnerMarkerVersion_def
    ownerMarkerVersion_def
  have r: "ownership_reachable sample_etag takeover_guard ?s"
    by (rule acquire_unowned) (simp_all add: takeover_guard_def sample_guard_def)
  have "ownership_step sample_etag takeover_guard ?s ?s1"
    by (rule ownership_step.read) (simp_all add: acquire_decision_def defs)
  with r have r1: "ownership_reachable sample_etag takeover_guard ?s1" by (rule ownership_reachable.step)
  have st: "ownership_step sample_etag takeover_guard ?s1 ?s2"
    by (rule ownership_step.claim [where c = "Replace ?e"])
      (simp_all add: set_phase_def acquire_write_def ReplaceLease_def own_lease_def)
  have l: "ow_lease ?s2 = own_lease sample_etag (takeover_guard 1)" by (simp add: set_phase_def)
  have "ow_lease ?s2 \<noteq> ow_lease ?s1"
    by (simp add: set_phase_def own_lease_def takeover_guard_def sample_guard_def markerBody_def)
  from ownership_changes_hands [OF sample_etag_inj r1 st this] r1 st l show ?thesis by blast
qed

end
