(* ===== verification/Tile_Job_Store.thy ===== *)
theory Tile_Job_Store
  imports Go_Prelude "HOL-Library.Multiset" "HOL-Library.Word" "HOL-Library.List_Lexorder" "HOL-Library.Char_ord" "HOL-Library.Product_Lexorder"
begin

text \<open>
  Package \<^verbatim>\<open>internal/tilecache\<close>, the durable job tables (\<^verbatim>\<open>jobs.go\<close>). The two SQL tables are lists of
  records; a statement is the function that gives the tables after it, and a rolled-back
  transaction leaves them as they were. Identifiers from \<^verbatim>\<open>uuid.NewString\<close> and the time are
  arguments. A request is stored as itself: encoding it as JSON and decoding it again is the
  identity on these fields.
\<close>

section \<open>Ordered results\<close>

text \<open>An \<^verbatim>\<open>ORDER BY\<close> keeps the rows and what is distinct about them.\<close>

lemma distinct_map_sort_key: "distinct (map f (sort_key g xs)) \<longleftrightarrow> distinct (map f xs)"
  by (rule mset_eq_imp_distinct_iff) simp

section \<open>Data\<close>

text \<open>A \<^verbatim>\<open>float64\<close> is kept as its bits; the tables only store it.\<close>

type_synonym float64 = "64 word"

datatype Operation = OperationSeed | OperationReseed | OperationTruncate | OtherOperation string

datatype JobStatus = JobQueued | JobRunning | JobCancelling | JobCancelled | JobSucceeded | JobFailed

record Bounds =
  bd_BBox :: "float64 \<times> float64 \<times> float64 \<times> float64"
  bd_CRS :: string

record JobRequest =
  rq_Operation :: Operation
  rq_Resource :: string
  rq_ResourceID :: string
  rq_ResourceKind :: string
  rq_AllResources :: bool
  rq_TileType :: string
  rq_TileMatrixSet :: string
  rq_Format :: string
  rq_Style :: string
  rq_MinZoom :: "int option"
  rq_MaxZoom :: "int option"
  rq_Bounds :: "Bounds option"
  rq_Generation :: int

record Job =
  jb_ID :: string
  jb_WorkspaceID :: string
  jb_Request :: JobRequest
  jb_Status :: JobStatus
  jb_TotalTiles :: int
  jb_ProcessedTiles :: int
  jb_SucceededTiles :: int
  jb_SkippedTiles :: int
  jb_FailedTiles :: int
  jb_BytesWritten :: int
  jb_BytesDeleted :: int
  jb_CancelRequested :: bool
  jb_ErrorMessage :: string
  jb_CreatedBy :: string
  jb_CreatedAt :: instant
  jb_StartedAt :: "instant option"
  jb_CompletedAt :: "instant option"
  jb_UpdatedAt :: instant

record CreateJobInput =
  ci_WorkspaceID :: string
  ci_Request :: JobRequest
  ci_TotalTiles :: int
  ci_CreatedBy :: string

record JobUpdate =
  up_Status :: "JobStatus option"
  up_TotalTiles :: "int option"
  up_ProcessedTiles :: "int option"
  up_SucceededTiles :: "int option"
  up_SkippedTiles :: "int option"
  up_FailedTiles :: "int option"
  up_BytesWritten :: "int option"
  up_BytesDeleted :: "int option"
  up_CancelRequested :: "bool option"
  up_ErrorMessage :: "string option"
  up_StartedAt :: "instant option"
  up_CompletedAt :: "instant option"

definition no_update :: JobUpdate where
  "no_update = \<lparr>up_Status = None, up_TotalTiles = None, up_ProcessedTiles = None, up_SucceededTiles = None,
     up_SkippedTiles = None, up_FailedTiles = None, up_BytesWritten = None, up_BytesDeleted = None,
     up_CancelRequested = None, up_ErrorMessage = None, up_StartedAt = None, up_CompletedAt = None\<rparr>"

record JobChunk =
  ck_ID :: string
  ck_JobID :: string
  ck_Zoom :: int
  ck_MinCol :: int
  ck_MaxCol :: int
  ck_MinRow :: int
  ck_MaxRow :: int
  ck_NextOffset :: int
  ck_Status :: string
  ck_Attempts :: int
  ck_LastError :: string
  ck_UpdatedAt :: instant

record job_tables =
  jt_jobs :: "Job list"
  jt_chunks :: "JobChunk list"

datatype job_error = ErrJobNotFound | DuplicateKey | AlreadyFinished JobStatus | StillActive string JobStatus

section \<open>Operations\<close>

text \<open>A row is updated in place; \<open>is_active\<close> is the status test the lifecycle operations repeat.\<close>

definition update_jobs :: "(Job \<Rightarrow> bool) \<Rightarrow> (Job \<Rightarrow> Job) \<Rightarrow> job_tables \<Rightarrow> job_tables" where
  "update_jobs P f t = t\<lparr>jt_jobs := map (\<lambda>j. if P j then f j else j) (jt_jobs t)\<rparr>"

definition is_active :: "JobStatus \<Rightarrow> bool" where
  "is_active st = (st \<in> {JobQueued, JobRunning, JobCancelling})"

definition claimable :: "Job \<Rightarrow> bool" where
  "claimable j = (jb_Status j = JobQueued \<and> \<not> jb_CancelRequested j)"

definition next_claim :: "job_tables \<Rightarrow> Job option" where
  "next_claim t =
     (case sort_key (\<lambda>j. (jb_CreatedAt j, jb_ID j)) (filter claimable (jt_jobs t)) of [] \<Rightarrow> None | j # _ \<Rightarrow> Some j)"

definition ClaimNextTileCacheJob :: "instant \<Rightarrow> job_tables \<Rightarrow> Job option \<times> job_tables" where
  "ClaimNextTileCacheJob now t =
     (case next_claim t of
        None \<Rightarrow> (None, t)
      | Some j \<Rightarrow>
          let claim = (\<lambda>k. k\<lparr>jb_Status := JobRunning, jb_StartedAt := Some now, jb_UpdatedAt := now\<rparr>)
          in (Some (claim j), update_jobs (\<lambda>k. jb_ID k = jb_ID j \<and> claimable k) claim t))"

definition new_job :: "string \<Rightarrow> instant \<Rightarrow> CreateJobInput \<Rightarrow> Job" where
  "new_job uuid now input =
     \<lparr>jb_ID = uuid, jb_WorkspaceID = ci_WorkspaceID input, jb_Request = ci_Request input, jb_Status = JobQueued,
      jb_TotalTiles = ci_TotalTiles input, jb_ProcessedTiles = 0, jb_SucceededTiles = 0, jb_SkippedTiles = 0, jb_FailedTiles = 0,
      jb_BytesWritten = 0, jb_BytesDeleted = 0, jb_CancelRequested = False, jb_ErrorMessage = [], jb_CreatedBy = ci_CreatedBy input,
      jb_CreatedAt = now, jb_StartedAt = None, jb_CompletedAt = None, jb_UpdatedAt = now\<rparr>"

definition CreateTileCacheJob :: "string \<Rightarrow> instant \<Rightarrow> CreateJobInput \<Rightarrow> job_tables \<Rightarrow> job_error + (Job \<times> job_tables)" where
  "CreateTileCacheJob uuid now input t =
     (if uuid \<in> jb_ID ` set (jt_jobs t) then Inl DuplicateKey
      else Inr (new_job uuid now input, t\<lparr>jt_jobs := jt_jobs t @ [new_job uuid now input]\<rparr>))"

definition GetTileCacheJob :: "string \<Rightarrow> job_tables \<Rightarrow> job_error + Job" where
  "GetTileCacheJob jobid t = (case find (\<lambda>j. jb_ID j = jobid) (jt_jobs t) of None \<Rightarrow> Inl ErrJobNotFound | Some j \<Rightarrow> Inr j)"

definition ListTileCacheJobs :: "string \<Rightarrow> int \<Rightarrow> job_tables \<Rightarrow> Job list" where
  "ListTileCacheJobs workspaceID limit t =
     (let limit = if limit \<le> 0 \<or> limit > 1000 then 100 else limit
      in take (nat limit) (sort_key (\<lambda>j. - jb_CreatedAt j)
           (filter (\<lambda>j. workspaceID = [] \<or> jb_WorkspaceID j = workspaceID) (jt_jobs t))))"

definition set_or :: "'a option \<Rightarrow> 'a \<Rightarrow> 'a" where
  "set_or v old = (case v of None \<Rightarrow> old | Some x \<Rightarrow> x)"

definition apply_update :: "JobUpdate \<Rightarrow> instant \<Rightarrow> Job \<Rightarrow> Job" where
  "apply_update u now j =
     j\<lparr>jb_Status := set_or (up_Status u) (jb_Status j),
       jb_TotalTiles := set_or (up_TotalTiles u) (jb_TotalTiles j),
       jb_ProcessedTiles := set_or (up_ProcessedTiles u) (jb_ProcessedTiles j),
       jb_SucceededTiles := set_or (up_SucceededTiles u) (jb_SucceededTiles j),
       jb_SkippedTiles := set_or (up_SkippedTiles u) (jb_SkippedTiles j),
       jb_FailedTiles := set_or (up_FailedTiles u) (jb_FailedTiles j),
       jb_BytesWritten := set_or (up_BytesWritten u) (jb_BytesWritten j),
       jb_BytesDeleted := set_or (up_BytesDeleted u) (jb_BytesDeleted j),
       jb_CancelRequested := set_or (up_CancelRequested u) (jb_CancelRequested j),
       jb_ErrorMessage := set_or (up_ErrorMessage u) (jb_ErrorMessage j),
       jb_StartedAt := (case up_StartedAt u of None \<Rightarrow> jb_StartedAt j | Some x \<Rightarrow> Some x),
       jb_CompletedAt := (case up_CompletedAt u of None \<Rightarrow> jb_CompletedAt j | Some x \<Rightarrow> Some x),
       jb_UpdatedAt := now\<rparr>"

definition UpdateTileCacheJob :: "string \<Rightarrow> JobUpdate \<Rightarrow> instant \<Rightarrow> job_tables \<Rightarrow> job_error + (Job \<times> job_tables)" where
  "UpdateTileCacheJob jobid u now t =
     bind_res (GetTileCacheJob jobid t) (\<lambda>j.
       let j' = apply_update u now j
       in Inr (j', update_jobs (\<lambda>k. jb_ID k = jobid) (\<lambda>_. j') t))"

definition cancel_row :: "instant \<Rightarrow> Job \<Rightarrow> Job" where
  "cancel_row now j =
     j\<lparr>jb_CancelRequested := True,
       jb_Status := (if jb_Status j = JobQueued then JobCancelled else JobCancelling),
       jb_CompletedAt := (if jb_Status j = JobQueued then Some now else jb_CompletedAt j), jb_UpdatedAt := now\<rparr>"

definition RequestTileCacheJobCancel :: "string \<Rightarrow> instant \<Rightarrow> job_tables \<Rightarrow> job_error option \<times> job_tables" where
  "RequestTileCacheJobCancel jobid now t =
     (if \<exists>j \<in> set (jt_jobs t). jb_ID j = jobid \<and> is_active (jb_Status j)
      then (None, update_jobs (\<lambda>j. jb_ID j = jobid \<and> is_active (jb_Status j)) (cancel_row now) t)
      else case GetTileCacheJob jobid t of Inl e \<Rightarrow> (Some e, t) | Inr j \<Rightarrow> (Some (AlreadyFinished (jb_Status j)), t))"

definition ResetInterruptedTileCacheJobs :: "instant \<Rightarrow> job_tables \<Rightarrow> job_tables" where
  "ResetInterruptedTileCacheJobs now t =
     (let t1 = t\<lparr>jt_chunks := map (\<lambda>c. if ck_Status c = ''running'' then c\<lparr>ck_Status := ''queued'', ck_UpdatedAt := now\<rparr> else c) (jt_chunks t)\<rparr>;
          t2 = update_jobs (\<lambda>j. jb_Status j = JobRunning) (\<lambda>j. j\<lparr>jb_Status := JobQueued, jb_UpdatedAt := now\<rparr>) t1
      in update_jobs (\<lambda>j. jb_Status j = JobCancelling)
           (\<lambda>j. j\<lparr>jb_Status := JobCancelled, jb_CompletedAt := Some now, jb_UpdatedAt := now\<rparr>) t2)"

text \<open>The chunks of a job are replaced in one transaction: a duplicate identifier undoes the whole of it.\<close>

fun insert_chunks :: "string \<Rightarrow> instant \<Rightarrow> string list \<Rightarrow> JobChunk list \<Rightarrow> JobChunk list \<Rightarrow> job_error + JobChunk list" where
  "insert_chunks jobID now uuids [] rows = Inr rows"
| "insert_chunks jobID now uuids (c # cs) rows =
     (let c' = c\<lparr>ck_ID := (if ck_ID c = [] then hd (uuids @ [[]]) else ck_ID c), ck_JobID := jobID,
                 ck_Status := (if ck_Status c = [] then ''queued'' else ck_Status c), ck_UpdatedAt := now\<rparr>
      in if ck_ID c' \<in> ck_ID ` set rows then Inl DuplicateKey
         else insert_chunks jobID now (if ck_ID c = [] then tl uuids else uuids) cs (rows @ [c']))"

definition ReplaceTileCacheJobChunks :: "string \<Rightarrow> string list \<Rightarrow> instant \<Rightarrow> JobChunk list \<Rightarrow> job_tables \<Rightarrow> job_error + job_tables" where
  "ReplaceTileCacheJobChunks jobID uuids now chunks t =
     bind_res (insert_chunks jobID now uuids chunks (filter (\<lambda>c. ck_JobID c \<noteq> jobID) (jt_chunks t))) (\<lambda>rows.
       Inr (t\<lparr>jt_chunks := rows\<rparr>))"

definition ListTileCacheJobChunks :: "string \<Rightarrow> job_tables \<Rightarrow> JobChunk list" where
  "ListTileCacheJobChunks jobID t =
     sort_key (\<lambda>c. (ck_Zoom c, ck_MinRow c, ck_MinCol c)) (filter (\<lambda>c. ck_JobID c = jobID) (jt_chunks t))"

definition UpdateTileCacheJobChunk :: "JobChunk \<Rightarrow> instant \<Rightarrow> job_tables \<Rightarrow> job_tables" where
  "UpdateTileCacheJobChunk chunk now t =
     t\<lparr>jt_chunks := map (\<lambda>c. if ck_ID c = ck_ID chunk
         then c\<lparr>ck_NextOffset := ck_NextOffset chunk, ck_Status := ck_Status chunk, ck_Attempts := ck_Attempts chunk,
                ck_LastError := ck_LastError chunk, ck_UpdatedAt := now\<rparr>
         else c) (jt_chunks t)\<rparr>"

section \<open>Lifecycle operations\<close>

definition lifecycleJobs :: "string \<Rightarrow> string list \<Rightarrow> job_tables \<Rightarrow> Job list" where
  "lifecycleJobs workspaceID resourceIDs t =
     filter (\<lambda>j. resourceIDs = [] \<or> rq_AllResources (jb_Request j) \<or> rq_ResourceID (jb_Request j) \<in> set resourceIDs)
       (sort_key jb_CreatedAt (filter (\<lambda>j. jb_WorkspaceID j = workspaceID) (jt_jobs t)))"

definition delete_job :: "string \<Rightarrow> job_tables \<Rightarrow> job_tables" where
  "delete_job jobid t =
     t\<lparr>jt_chunks := filter (\<lambda>c. ck_JobID c \<noteq> jobid) (jt_chunks t), jt_jobs := filter (\<lambda>j. jb_ID j \<noteq> jobid) (jt_jobs t)\<rparr>"

definition purgeLifecycleJobs :: "string \<Rightarrow> string list \<Rightarrow> job_tables \<Rightarrow> job_error + (int \<times> job_tables)" where
  "purgeLifecycleJobs workspaceID resourceIDs t =
     (let jobs = lifecycleJobs workspaceID resourceIDs t
      in case find (\<lambda>j. is_active (jb_Status j)) jobs of
           Some j \<Rightarrow> Inl (StillActive (jb_ID j) (jb_Status j))
         | None \<Rightarrow> Inr (int (length jobs), fold (delete_job \<circ> jb_ID) jobs t))"

definition cancelLifecycleJobs :: "string \<Rightarrow> string list \<Rightarrow> instant \<Rightarrow> job_tables \<Rightarrow> job_tables" where
  "cancelLifecycleJobs workspaceID resourceIDs now t =
     fold (\<lambda>j. update_jobs (\<lambda>k. jb_ID k = jb_ID j) (cancel_row now))
       (filter (\<lambda>j. is_active (jb_Status j)) (lifecycleJobs workspaceID resourceIDs t)) t"

definition activeLifecycleJobs :: "string \<Rightarrow> string list \<Rightarrow> job_tables \<Rightarrow> int" where
  "activeLifecycleJobs workspaceID resourceIDs t =
     int (length (filter (\<lambda>j. is_active (jb_Status j)) (lifecycleJobs workspaceID resourceIDs t)))"

end
