(* ===== verification/Tile_Index.thy ===== *)
theory Tile_Index
  imports Tile_Types Tile_Job_Store
begin

text \<open>
  Package \<^verbatim>\<open>internal/tilecache\<close>, the metadata index (\<^verbatim>\<open>index.go\<close>). The table of entries is a list of
  rows with its primary key \<^verbatim>\<open>cache_key\<close> and the uniqueness of \<^verbatim>\<open>object_key\<close> checked where a statement
  can break them; \<^verbatim>\<open>cache_usage\<close> is a map. A transaction is a function that gives the index after its
  commit, or \<open>None\<close> when a statement fails and it is rolled back. Byte counts are integers: they
  stay far below the bounds of \<^verbatim>\<open>int64\<close>.
\<close>

section \<open>Data\<close>

record tile_policy =
  pl_WorkspaceQuotaBytes :: int
  pl_ResourceQuotaBytes :: int

record tile_entry =
  te_Identity :: tile_identity
  te_CacheKey :: string
  te_ObjectKey :: string
  te_SizeBytes :: int
  te_ETag :: string
  te_CreatedAt :: instant
  te_LastAccessedAt :: instant

datatype row_state = Pending | Ready

type_synonym tile_row = "tile_entry \<times> row_state"
type_synonym scope = "string \<times> string"

record metadataIndex =
  mi_entries :: "tile_row list"
  mi_usage :: "(scope, int \<times> int) gomap"
  mi_jobs :: job_tables

record tile_selector =
  sl_WorkspaceID :: string
  sl_ResourceID :: string
  sl_TileType :: string
  sl_MatrixSet :: string
  sl_Format :: string
  sl_StyleDigest :: string
  sl_StyleName :: string
  sl_MinZoom :: "int option"
  sl_MaxZoom :: "int option"

definition row_key :: "tile_row \<Rightarrow> string" where
  "row_key r = te_CacheKey (fst r)"

text \<open>The columns hold milliseconds; reading them back gives the truncated instant.\<close>

definition unix_milli :: "instant \<Rightarrow> instant" where
  "unix_milli t = t div 1000000 * 1000000"

section \<open>Usage\<close>

definition resource_scope :: "string \<Rightarrow> string \<Rightarrow> scope" where
  "resource_scope workspaceID resourceID = (''resource'', workspaceID @ CHR '':'' # resourceID)"

definition usage_scopes :: "tile_entry \<Rightarrow> scope list" where
  "usage_scopes e =
     [(''global'', ''global''), (''workspace'', ti_WorkspaceID (te_Identity e)),
      resource_scope (ti_WorkspaceID (te_Identity e)) (ti_ResourceID (te_Identity e))]"

text \<open>One upsert of \<^verbatim>\<open>cache_usage\<close>: a new row takes the values as they are, an old one adds, not below zero.\<close>

definition upsert_usage :: "int \<Rightarrow> int \<Rightarrow> scope \<Rightarrow> (scope, int \<times> int) gomap \<Rightarrow> (scope, int \<times> int) gomap" where
  "upsert_usage b n sc u =
     AList.update sc (case map_of u sc of None \<Rightarrow> (b, n) | Some (x, y) \<Rightarrow> (max 0 (x + b), max 0 (y + n))) u"

definition adjustUsage :: "tile_entry \<Rightarrow> int \<Rightarrow> int \<Rightarrow> (scope, int \<times> int) gomap \<Rightarrow> (scope, int \<times> int) gomap" where
  "adjustUsage e b n u = fold (upsert_usage b n) (usage_scopes e) u"

definition index_usage :: "scope \<Rightarrow> metadataIndex \<Rightarrow> int \<times> int" where
  "index_usage sc i = (case map_of (mi_usage i) sc of None \<Rightarrow> (0, 0) | Some u \<Rightarrow> u)"

section \<open>Entries\<close>

definition getReady :: "string \<Rightarrow> metadataIndex \<Rightarrow> tile_entry option" where
  "getReady key i = map_option fst (find (\<lambda>r. row_key r = key \<and> snd r = Ready) (mi_entries i))"

definition object_taken :: "tile_entry \<Rightarrow> tile_row list \<Rightarrow> bool" where
  "object_taken e rows = (\<exists>r \<in> set rows. row_key r \<noteq> te_CacheKey e \<and> te_ObjectKey (fst r) = te_ObjectKey e)"

definition upsert_row :: "tile_row \<Rightarrow> tile_row list \<Rightarrow> tile_row list" where
  "upsert_row r rows =
     (if row_key r \<in> row_key ` set rows then map (\<lambda>q. if row_key q = row_key r then r else q) rows else rows @ [r])"

definition markPending :: "instant \<Rightarrow> tile_entry \<Rightarrow> tile_entry option \<Rightarrow> metadataIndex \<Rightarrow> metadataIndex option" where
  "markPending now e previous i =
     (let u = (case previous of None \<Rightarrow> mi_usage i | Some p \<Rightarrow> adjustUsage p (- te_SizeBytes p) (- 1) (mi_usage i));
          row = (e\<lparr>te_CreatedAt := unix_milli now, te_LastAccessedAt := unix_milli now\<rparr>, Pending)
      in if object_taken e (mi_entries i) then None
         else Some (i\<lparr>mi_entries := upsert_row row (mi_entries i), mi_usage := u\<rparr>))"

definition markReady :: "tile_entry \<Rightarrow> metadataIndex \<Rightarrow> metadataIndex option" where
  "markReady e i =
     (let hit = (\<lambda>r. row_key r = te_CacheKey e \<and> snd r = Pending)
      in if length (filter hit (mi_entries i)) \<noteq> 1 then None
         else Some (i\<lparr>mi_entries := map (\<lambda>r. if hit r then ((fst r)\<lparr>te_SizeBytes := te_SizeBytes e, te_ETag := te_ETag e\<rparr>, Ready) else r) (mi_entries i),
                      mi_usage := adjustUsage e (te_SizeBytes e) 1 (mi_usage i)\<rparr>))"

definition delete_row :: "string \<Rightarrow> tile_row list \<Rightarrow> tile_row list" where
  "delete_row key rows = filter (\<lambda>r. row_key r \<noteq> key) rows"

definition restore_row :: "tile_entry option \<Rightarrow> string \<Rightarrow> metadataIndex \<Rightarrow> metadataIndex option" where
  "restore_row previous pendingKey i =
     (let rows = delete_row pendingKey (mi_entries i)
      in case previous of
           None \<Rightarrow> Some (i\<lparr>mi_entries := rows\<rparr>)
         | Some p \<Rightarrow>
             if te_CacheKey p \<in> row_key ` set rows \<or> object_taken p rows then None
             else Some (i\<lparr>mi_entries := rows @ [(p\<lparr>te_CreatedAt := unix_milli (te_CreatedAt p), te_LastAccessedAt := unix_milli (te_LastAccessedAt p)\<rparr>, Ready)],
                          mi_usage := adjustUsage p (te_SizeBytes p) 1 (mi_usage i)\<rparr>))"

definition remove :: "tile_entry \<Rightarrow> metadataIndex \<Rightarrow> metadataIndex" where
  "remove e i =
     (case find (\<lambda>r. row_key r = te_CacheKey e) (mi_entries i) of
        None \<Rightarrow> i
      | Some r \<Rightarrow>
          i\<lparr>mi_entries := delete_row (te_CacheKey e) (mi_entries i),
            mi_usage := (if snd r = Ready then adjustUsage e (- te_SizeBytes e) (- 1) (mi_usage i) else mi_usage i)\<rparr>)"

definition lru :: "string \<Rightarrow> string \<Rightarrow> string \<Rightarrow> string \<Rightarrow> metadataIndex \<Rightarrow> tile_entry option" where
  "lru scopeType workspaceID resourceID excludeKey i =
     (let hit = (\<lambda>r. snd r = Ready \<and> row_key r \<noteq> excludeKey
            \<and> (scopeType \<in> {''workspace'', ''resource''} \<longrightarrow> ti_WorkspaceID (te_Identity (fst r)) = workspaceID)
            \<and> (scopeType = ''resource'' \<longrightarrow> ti_ResourceID (te_Identity (fst r)) = resourceID))
      in case sort_key (\<lambda>r. (te_LastAccessedAt (fst r), te_CreatedAt (fst r))) (filter hit (mi_entries i)) of
           [] \<Rightarrow> None | r # _ \<Rightarrow> Some (fst r))"

definition updateAccess :: "(string, instant) gomap \<Rightarrow> metadataIndex \<Rightarrow> metadataIndex" where
  "updateAccess vals i =
     i\<lparr>mi_entries := fold (\<lambda>(key, t). map (\<lambda>r. if row_key r = key \<and> snd r = Ready then ((fst r)\<lparr>te_LastAccessedAt := unix_milli t\<rparr>, Ready) else r))
         vals (mi_entries i)\<rparr>"

definition nonReady :: "metadataIndex \<Rightarrow> tile_entry list" where
  "nonReady i = map fst (filter (\<lambda>r. snd r \<noteq> Ready) (mi_entries i))"

definition selected :: "tile_selector \<Rightarrow> tile_identity \<Rightarrow> bool" where
  "selected s t =
     ((sl_WorkspaceID s \<noteq> [] \<longrightarrow> ti_WorkspaceID t = sl_WorkspaceID s) \<and> (sl_ResourceID s \<noteq> [] \<longrightarrow> ti_ResourceID t = sl_ResourceID s)
      \<and> (sl_TileType s \<noteq> [] \<longrightarrow> ti_TileType t = sl_TileType s) \<and> (sl_MatrixSet s \<noteq> [] \<longrightarrow> ti_MatrixSet t = sl_MatrixSet s)
      \<and> (sl_Format s \<noteq> [] \<longrightarrow> ti_Format t = sl_Format s) \<and> (sl_StyleDigest s \<noteq> [] \<longrightarrow> ti_StyleDigest t = sl_StyleDigest s)
      \<and> (sl_StyleName s \<noteq> [] \<longrightarrow> ti_StyleName t = sl_StyleName s)
      \<and> (case sl_MinZoom s of None \<Rightarrow> True | Some z \<Rightarrow> z \<le> ti_Zoom t) \<and> (case sl_MaxZoom s of None \<Rightarrow> True | Some z \<Rightarrow> ti_Zoom t \<le> z))"

definition selectEntries :: "tile_selector \<Rightarrow> nat \<Rightarrow> metadataIndex \<Rightarrow> tile_entry list" where
  "selectEntries s limit i =
     take limit (map fst (sort_key row_key (filter (\<lambda>r. snd r = Ready \<and> selected s (te_Identity (fst r))) (mi_entries i))))"

text \<open>\<^verbatim>\<open>purgeLifecycleUsage\<close> of \<^verbatim>\<open>jobs.go\<close>.\<close>

definition purgeLifecycleUsage :: "string \<Rightarrow> string list \<Rightarrow> metadataIndex \<Rightarrow> metadataIndex" where
  "purgeLifecycleUsage workspaceID resourceIDs i =
     i\<lparr>mi_usage := filter (\<lambda>((ty, sid), _).
         \<not> (if resourceIDs = []
             then ty = ''workspace'' \<and> sid = workspaceID \<or> ty = ''resource'' \<and> has_prefix sid (workspaceID @ '':'')
             else \<exists>r \<in> set resourceIDs. (ty, sid) = resource_scope workspaceID r)) (mi_usage i)\<rparr>"

section \<open>Accounting\<close>

text \<open>What the ready rows of a scope add up to.\<close>

definition in_scope :: "scope \<Rightarrow> tile_row \<Rightarrow> bool" where
  "in_scope sc r = (snd r = Ready \<and> sc \<in> set (usage_scopes (fst r)))"

definition row_share :: "scope \<Rightarrow> tile_row \<Rightarrow> int \<times> int" where
  "row_share sc r = (if in_scope sc r then (te_SizeBytes (fst r), 1) else (0, 0))"

definition scope_total :: "scope \<Rightarrow> tile_row list \<Rightarrow> int \<times> int" where
  "scope_total sc rows = ((\<Sum>r\<leftarrow>rows. fst (row_share sc r)), (\<Sum>r\<leftarrow>rows. snd (row_share sc r)))"

text \<open>The counters of every scope are the totals of its ready rows.\<close>

definition accounted :: "metadataIndex \<Rightarrow> bool" where
  "accounted i = (\<forall>sc. index_usage sc i = scope_total sc (mi_entries i))"

definition rows_ok :: "tile_row list \<Rightarrow> bool" where
  "rows_ok rows = (distinct (map row_key rows) \<and> (\<forall>r \<in> set rows. 0 \<le> te_SizeBytes (fst r)))"

definition index_ok :: "metadataIndex \<Rightarrow> bool" where
  "index_ok i = (rows_ok (mi_entries i) \<and> accounted i)"

lemma usage_of_adjust:
  "index_usage sc (i\<lparr>mi_usage := adjustUsage e b n (mi_usage i)\<rparr>) =
   (if sc \<in> set (usage_scopes e)
    then (case map_of (mi_usage i) sc of None \<Rightarrow> (b, n) | Some (x, y) \<Rightarrow> (max 0 (x + b), max 0 (y + n)))
    else index_usage sc i)"
  by (auto simp: index_usage_def adjustUsage_def usage_scopes_def upsert_usage_def resource_scope_def gomap_simps split: option.splits)

text \<open>As long as nothing goes below zero the adjustment is exact.\<close>

lemma adjust_exact:
  assumes "sc \<in> set (usage_scopes e) \<Longrightarrow> 0 \<le> fst (index_usage sc i) + b \<and> 0 \<le> snd (index_usage sc i) + n"
  shows "index_usage sc (i\<lparr>mi_entries := rows, mi_usage := adjustUsage e b n (mi_usage i)\<rparr>) =
    (if sc \<in> set (usage_scopes e) then (fst (index_usage sc i) + b, snd (index_usage sc i) + n) else index_usage sc i)"
proof -
  have "index_usage sc (i\<lparr>mi_entries := rows, mi_usage := u\<rparr>) = index_usage sc (i\<lparr>mi_usage := u\<rparr>)" for u
    by (simp add: index_usage_def)
  then show ?thesis using assms by (simp add: usage_of_adjust) (auto simp: index_usage_def split: option.splits)
qed

lemma index_usage_rows [simp]:
  "index_usage sc (i\<lparr>mi_entries := rows\<rparr>) = index_usage sc i"
  "index_usage sc (i\<lparr>mi_entries := rows, mi_usage := mi_usage i\<rparr>) = index_usage sc i"
  by (simp_all add: index_usage_def)

lemma scope_total_simps [simp]:
  "scope_total sc [] = (0, 0)"
  "scope_total sc (r # rows) = (fst (row_share sc r) + fst (scope_total sc rows), snd (row_share sc r) + snd (scope_total sc rows))"
  "scope_total sc (rows @ rows') = (fst (scope_total sc rows) + fst (scope_total sc rows'), snd (scope_total sc rows) + snd (scope_total sc rows'))"
  by (simp_all add: scope_total_def)

lemma row_share_nonneg: "0 \<le> te_SizeBytes (fst r) \<Longrightarrow> 0 \<le> fst (row_share sc r) \<and> 0 \<le> snd (row_share sc r)"
  by (simp add: row_share_def)

lemma scope_total_nonneg: "\<forall>r \<in> set rows. 0 \<le> te_SizeBytes (fst r) \<Longrightarrow> 0 \<le> fst (scope_total sc rows) \<and> 0 \<le> snd (scope_total sc rows)"
proof (induction rows)
  case (Cons r rows)
  then show ?case using row_share_nonneg [of r sc] by simp
qed simp

lemma delete_row_absent: "key \<notin> row_key ` set rows \<Longrightarrow> delete_row key rows = rows"
  by (auto simp: delete_row_def filter_id_conv)

lemma scope_total_delete:
  assumes "distinct (map row_key rows)" "r \<in> set rows"
  shows "scope_total sc (delete_row (row_key r) rows) =
    (fst (scope_total sc rows) - fst (row_share sc r), snd (scope_total sc rows) - snd (row_share sc r))"
  using assms
proof (induction rows)
  case (Cons q rows)
  show ?case
  proof (cases "q = r")
    case True
    then have "delete_row (row_key r) rows = rows" using Cons.prems(1) by (intro delete_row_absent) auto
    with True show ?thesis by (simp add: delete_row_def)
  next
    case False
    with Cons.prems have "row_key q \<noteq> row_key r" "r \<in> set rows" by auto
    with Cons show ?thesis by (simp add: delete_row_def)
  qed
qed simp

lemma rows_ok_delete: "rows_ok rows \<Longrightarrow> rows_ok (delete_row key rows)"
  by (auto simp: rows_ok_def delete_row_def distinct_map inj_on_def)

lemma accountedD: "index_ok i \<Longrightarrow> index_usage sc i = scope_total sc (mi_entries i)"
  unfolding index_ok_def accounted_def by blast

lemma index_okI: "rows_ok (mi_entries i) \<Longrightarrow> (\<And>sc. index_usage sc i = scope_total sc (mi_entries i)) \<Longrightarrow> index_ok i"
  unfolding index_ok_def accounted_def by blast

section \<open>What each transaction keeps\<close>

text \<open>An entry held by a caller agrees with the ready row of its key: what is charged is what is paid back.\<close>

definition agrees :: "tile_entry \<Rightarrow> metadataIndex \<Rightarrow> bool" where
  "agrees e i =
     (\<forall>r \<in> set (mi_entries i). row_key r = te_CacheKey e \<and> snd r = Ready \<longrightarrow>
        te_SizeBytes (fst r) = te_SizeBytes e \<and> usage_scopes (fst r) = usage_scopes e)"

lemma getReady_Some:
  assumes "getReady key i = Some e"
  shows "(e, Ready) \<in> set (mi_entries i)" "te_CacheKey e = key"
proof -
  obtain st where "find (\<lambda>r. row_key r = key \<and> snd r = Ready) (mi_entries i) = Some (e, st)"
    using assms by (auto simp: getReady_def)
  from find_SomeD [OF this] show "(e, Ready) \<in> set (mi_entries i)" "te_CacheKey e = key" by (auto simp: row_key_def)
qed

lemma getReady_None: "getReady key i = None \<Longrightarrow> r \<in> set (mi_entries i) \<Longrightarrow> row_key r = key \<Longrightarrow> snd r = Pending"
  by (cases r; cases "snd r") (auto simp: getReady_def find_None_iff)

lemma same_row: "rows_ok rows \<Longrightarrow> r \<in> set rows \<Longrightarrow> q \<in> set rows \<Longrightarrow> row_key r = row_key q \<Longrightarrow> r = q"
  by (auto simp: rows_ok_def distinct_map dest: inj_onD)

lemma agrees_row: "index_ok i \<Longrightarrow> (e, st) \<in> set (mi_entries i) \<Longrightarrow> agrees e i"
  by (auto simp: agrees_def index_ok_def dest: same_row [of "mi_entries i" "(e, st)"] simp: row_key_def)

lemma mi_entries_remove [simp]: "mi_entries (remove e i) = delete_row (te_CacheKey e) (mi_entries i)"
  by (fastforce simp: remove_def find_None_iff intro!: delete_row_absent [symmetric] split: option.splits)

text \<open>Taking a ready row out and paying its share back keeps the books.\<close>

lemma unaccount:
  assumes ok: "index_ok i" and r: "r \<in> set (mi_entries i)" "snd r = Ready"
    and e: "te_SizeBytes e = te_SizeBytes (fst r)" "usage_scopes e = usage_scopes (fst r)"
  shows "index_usage sc (i\<lparr>mi_entries := rows, mi_usage := adjustUsage e (- te_SizeBytes e) (- 1) (mi_usage i)\<rparr>)
    = scope_total sc (delete_row (row_key r) (mi_entries i))"
proof -
  have d: "distinct (map row_key (mi_entries i))" using ok by (simp add: index_ok_def rows_ok_def)
  have "rows_ok (delete_row (row_key r) (mi_entries i))" using ok by (simp add: index_ok_def rows_ok_delete)
  then have "0 \<le> fst (scope_total sc (delete_row (row_key r) (mi_entries i)))" "0 \<le> snd (scope_total sc (delete_row (row_key r) (mi_entries i)))"
    using scope_total_nonneg by (simp_all add: rows_ok_def)
  then show ?thesis unfolding scope_total_delete [OF d r(1)] using e r(2)
    by (subst adjust_exact) (auto simp: accountedD [OF ok] row_share_def in_scope_def)
qed

lemma remove_ok:
  assumes ok: "index_ok i" and ag: "agrees e i"
  shows "index_ok (remove e i)"
proof (rule index_okI)
  show "rows_ok (mi_entries (remove e i))" using ok by (simp add: index_ok_def rows_ok_delete)
  fix sc
  show "index_usage sc (remove e i) = scope_total sc (mi_entries (remove e i))"
  proof (cases "find (\<lambda>r. row_key r = te_CacheKey e) (mi_entries i)")
    case None
    then have "remove e i = i" by (simp add: remove_def)
    with accountedD [OF ok] show ?thesis by metis
  next
    case (Some r)
    then have r: "r \<in> set (mi_entries i)" "row_key r = te_CacheKey e" by (auto dest: find_SomeD)
    have d: "distinct (map row_key (mi_entries i))" using ok by (simp add: index_ok_def rows_ok_def)
    show ?thesis
    proof (cases "snd r")
      case Ready
      with ag r have "te_SizeBytes e = te_SizeBytes (fst r)" "usage_scopes e = usage_scopes (fst r)" by (auto simp: agrees_def)
      from unaccount [OF ok r(1) Ready this] Some Ready r(2) show ?thesis by (simp add: remove_def)
    next
      case Pending
      with scope_total_delete [OF d r(1)] Some r(2) accountedD [OF ok] show ?thesis
        by (simp add: remove_def row_share_def in_scope_def)
    qed
  qed
qed

text \<open>A pending row counts for nothing.\<close>

lemma scope_total_upsert_pending:
  assumes "distinct (map row_key rows)" "snd row = Pending"
  shows "scope_total sc (upsert_row row rows) = scope_total sc (delete_row (row_key row) rows)"
proof -
  have "scope_total sc (map (\<lambda>q. if row_key q = row_key row then row else q) rows) = scope_total sc (delete_row (row_key row) rows)"
    using assms(2) by (induction rows) (auto simp: delete_row_def row_share_def in_scope_def)
  with assms(2) show ?thesis by (auto simp: upsert_row_def delete_row_absent row_share_def in_scope_def)
qed

lemma map_row_key_upsert:
  "map row_key (upsert_row row rows) = (if row_key row \<in> row_key ` set rows then map row_key rows else map row_key rows @ [row_key row])"
  by (auto simp: upsert_row_def)

lemma rows_ok_upsert: "rows_ok rows \<Longrightarrow> 0 \<le> te_SizeBytes (fst row) \<Longrightarrow> rows_ok (upsert_row row rows)"
  unfolding rows_ok_def map_row_key_upsert by (auto simp: upsert_row_def)

lemma markPending_ok:
  assumes ok: "index_ok i" and sz: "0 \<le> te_SizeBytes e"
    and m: "markPending now e (getReady (te_CacheKey e) i) i = Some i'"
  shows "index_ok i'"
proof -
  let ?row = "(e\<lparr>te_CreatedAt := unix_milli now, te_LastAccessedAt := unix_milli now\<rparr>, Pending)"
  have d: "distinct (map row_key (mi_entries i))" using ok by (simp add: index_ok_def rows_ok_def)
  have k: "row_key ?row = te_CacheKey e" by (simp add: row_key_def)
  have rows: "mi_entries i' = upsert_row ?row (mi_entries i)"
    using m by (auto simp: markPending_def Let_def split: if_splits option.splits)
  show ?thesis
  proof (rule index_okI)
    show "rows_ok (mi_entries i')" unfolding rows using ok sz by (intro rows_ok_upsert) (auto simp: index_ok_def)
    fix sc
    have tot: "scope_total sc (mi_entries i') = scope_total sc (delete_row (te_CacheKey e) (mi_entries i))"
      unfolding rows using scope_total_upsert_pending [OF d, of ?row] k by simp
    show "index_usage sc i' = scope_total sc (mi_entries i')"
    proof (cases "getReady (te_CacheKey e) i")
      case None
      have "scope_total sc (delete_row (te_CacheKey e) (mi_entries i)) = scope_total sc (mi_entries i)"
      proof (cases "te_CacheKey e \<in> row_key ` set (mi_entries i)")
        case True
        then obtain r where r: "r \<in> set (mi_entries i)" "row_key r = te_CacheKey e" by auto
        with getReady_None [OF None] scope_total_delete [OF d r(1)] show ?thesis
          by (simp add: row_share_def in_scope_def)
      qed (simp add: delete_row_absent)
      moreover have "index_usage sc i' = index_usage sc i"
        using m None by (auto simp: markPending_def Let_def split: if_splits)
      ultimately show ?thesis using tot accountedD [OF ok] by simp
    next
      case (Some p)
      have "index_usage sc i' = scope_total sc (delete_row (row_key (p, Ready)) (mi_entries i))"
        using m Some unaccount [OF ok getReady_Some(1) [OF Some], of p sc "upsert_row ?row (mi_entries i)"]
        by (auto simp: markPending_def Let_def split: if_splits)
      then show ?thesis using tot getReady_Some(2) [OF Some] by (simp add: row_key_def)
    qed
  qed
qed

text \<open>The pending row that becomes ready is charged with its size.\<close>

lemma markReady_rows:
  assumes ok: "rows_ok (mi_entries i)" and m: "markReady e i = Some i'"
  obtains xs r ys where "mi_entries i = xs @ r # ys" "row_key r = te_CacheKey e" "snd r = Pending"
    "mi_entries i' = xs @ ((fst r)\<lparr>te_SizeBytes := te_SizeBytes e, te_ETag := te_ETag e\<rparr>, Ready) # ys"
    "mi_usage i' = adjustUsage e (te_SizeBytes e) 1 (mi_usage i)"
proof -
  let ?hit = "\<lambda>r. row_key r = te_CacheKey e \<and> snd r = Pending"
  let ?f = "\<lambda>r. if ?hit r then ((fst r)\<lparr>te_SizeBytes := te_SizeBytes e, te_ETag := te_ETag e\<rparr>, Ready) else r"
  from m have one: "length (filter ?hit (mi_entries i)) = 1"
    and i': "i' = i\<lparr>mi_entries := map ?f (mi_entries i), mi_usage := adjustUsage e (te_SizeBytes e) 1 (mi_usage i)\<rparr>"
    by (auto simp: markReady_def Let_def split: if_splits)
  from one obtain r where r: "r \<in> set (mi_entries i)" "?hit r"
    by (metis (mono_tags, lifting) filter_False length_0_conv zero_neq_one)
  from split_list [OF r(1)] obtain xs ys where s: "mi_entries i = xs @ r # ys" by blast
  have "map ?f xs = xs" "map ?f ys = ys"
    using ok r(2) unfolding s rows_ok_def by (auto intro!: map_idI simp: image_iff)
  with i' s r(2) show ?thesis by (intro that [of xs r ys]) simp_all
qed

lemma markReady_ok:
  assumes ok: "index_ok i" and sz: "0 \<le> te_SizeBytes e" and m: "markReady e i = Some i'"
    and sc: "\<And>r. r \<in> set (mi_entries i) \<Longrightarrow> row_key r = te_CacheKey e \<Longrightarrow> te_Identity (fst r) = te_Identity e"
  shows "index_ok i'"
proof -
  have rok: "rows_ok (mi_entries i)" using ok by (simp add: index_ok_def)
  obtain xs r ys where s: "mi_entries i = xs @ r # ys" "row_key r = te_CacheKey e" "snd r = Pending"
    "mi_entries i' = xs @ ((fst r)\<lparr>te_SizeBytes := te_SizeBytes e, te_ETag := te_ETag e\<rparr>, Ready) # ys"
    "mi_usage i' = adjustUsage e (te_SizeBytes e) 1 (mi_usage i)"
    using markReady_rows [OF rok m] by blast
  have id: "usage_scopes ((fst r)\<lparr>te_SizeBytes := te_SizeBytes e, te_ETag := te_ETag e\<rparr>) = usage_scopes e"
    using sc [of r] s(1, 2) by (simp add: usage_scopes_def)
  show ?thesis
  proof (rule index_okI)
    show "rows_ok (mi_entries i')" using rok sz unfolding s(1, 4) rows_ok_def by (auto simp: row_key_def)
    fix sc'
    have nonneg: "0 \<le> fst (scope_total sc' (mi_entries i))" "0 \<le> snd (scope_total sc' (mi_entries i))"
      using rok scope_total_nonneg by (simp_all add: rows_ok_def)
    have "index_usage sc' i' = index_usage sc' (i\<lparr>mi_entries := mi_entries i', mi_usage := adjustUsage e (te_SizeBytes e) 1 (mi_usage i)\<rparr>)"
      by (simp add: index_usage_def s(5))
    then show "index_usage sc' i' = scope_total sc' (mi_entries i')"
      using nonneg sz id s(3) by (simp add: adjust_exact accountedD [OF ok]) (simp add: s(1, 4) row_share_def in_scope_def)
  qed
qed

lemma restore_ok:
  assumes ok: "index_ok i" and m: "restore_row previous key i = Some i'"
    and pend: "\<And>r. r \<in> set (mi_entries i) \<Longrightarrow> row_key r = key \<Longrightarrow> snd r = Pending"
    and p: "\<And>p. previous = Some p \<Longrightarrow> te_CacheKey p = key \<and> 0 \<le> te_SizeBytes p"
  shows "index_ok i'"
proof -
  have rok: "rows_ok (mi_entries i)" and d: "distinct (map row_key (mi_entries i))"
    using ok by (simp_all add: index_ok_def rows_ok_def)
  have tot: "scope_total sc (delete_row key (mi_entries i)) = scope_total sc (mi_entries i)" for sc
  proof (cases "key \<in> row_key ` set (mi_entries i)")
    case True
    then obtain r where r: "r \<in> set (mi_entries i)" "row_key r = key" by auto
    with pend scope_total_delete [OF d r(1)] show ?thesis by (simp add: row_share_def in_scope_def)
  qed (simp add: delete_row_absent)
  show ?thesis
  proof (cases previous)
    case None
    with m show ?thesis using tot accountedD [OF ok] rok by (auto simp: restore_row_def intro!: index_okI rows_ok_delete)
  next
    case (Some q)
    let ?row = "(q\<lparr>te_CreatedAt := unix_milli (te_CreatedAt q), te_LastAccessedAt := unix_milli (te_LastAccessedAt q)\<rparr>, Ready)"
    have fresh: "key \<notin> row_key ` set (delete_row key (mi_entries i))"
      and i': "i' = i\<lparr>mi_entries := delete_row key (mi_entries i) @ [?row], mi_usage := adjustUsage q (te_SizeBytes q) 1 (mi_usage i)\<rparr>"
      using m Some p by (auto simp: restore_row_def Let_def split: if_splits)
    have nonneg: "0 \<le> fst (scope_total sc (mi_entries i))" "0 \<le> snd (scope_total sc (mi_entries i))" for sc
      using rok scope_total_nonneg by (simp_all add: rows_ok_def)
    have "rows_ok (mi_entries i')"
      using rows_ok_delete [OF rok, of key] fresh p [OF Some] unfolding i' rows_ok_def by (auto simp: row_key_def)
    then show ?thesis unfolding i'
      by (intro index_okI)
        (use nonneg p [OF Some] in \<open>auto simp: adjust_exact accountedD [OF ok] tot row_share_def in_scope_def usage_scopes_def\<close>)
  qed
qed

text \<open>Access times and the job tables are not part of the books.\<close>

definition touch_row :: "string \<times> instant \<Rightarrow> tile_row \<Rightarrow> tile_row" where
  "touch_row kt r =
     (if row_key r = fst kt \<and> snd r = Ready then ((fst r)\<lparr>te_LastAccessedAt := unix_milli (snd kt)\<rparr>, Ready) else r)"

lemma touch_row_simps [simp]:
  "row_key (touch_row kt r) = row_key r" "te_SizeBytes (fst (touch_row kt r)) = te_SizeBytes (fst r)"
  "row_share sc (touch_row kt r) = row_share sc r" "te_Identity (fst (touch_row kt r)) = te_Identity (fst r)"
  "snd (touch_row kt r) = snd r" "te_ObjectKey (fst (touch_row kt r)) = te_ObjectKey (fst r)" "te_ETag (fst (touch_row kt r)) = te_ETag (fst r)"
  by (auto simp: touch_row_def row_key_def row_share_def in_scope_def usage_scopes_def)

lemma updateAccess_rows: "mi_entries (updateAccess vals i) = fold (\<lambda>kt. map (touch_row kt)) vals (mi_entries i)"
proof -
  have "(\<lambda>(key, t). map (\<lambda>r. if row_key r = key \<and> snd r = Ready then ((fst r)\<lparr>te_LastAccessedAt := unix_milli t\<rparr>, Ready) else r))
    = (\<lambda>kt. map (touch_row kt))" by (auto simp: touch_row_def fun_eq_iff)
  then show ?thesis by (simp add: updateAccess_def)
qed

lemma touch_rows_ok: "rows_ok rows \<Longrightarrow> rows_ok (map (touch_row kt) rows) \<and> scope_total sc (map (touch_row kt) rows) = scope_total sc rows"
  by (simp add: rows_ok_def scope_total_def comp_def)

lemma updateAccess_ok:
  assumes "index_ok i"
  shows "index_ok (updateAccess vals i)"
proof (rule index_okI)
  have *: "rows_ok rows \<Longrightarrow> rows_ok (fold (\<lambda>kt. map (touch_row kt)) vals rows)
      \<and> scope_total sc (fold (\<lambda>kt. map (touch_row kt)) vals rows) = scope_total sc rows" for rows sc
    by (induction vals arbitrary: rows) (auto simp: touch_rows_ok)
  show "rows_ok (mi_entries (updateAccess vals i))" using * [of "mi_entries i"] assms by (simp add: updateAccess_rows index_ok_def)
  fix sc
  have "index_usage sc (updateAccess vals i) = index_usage sc i" by (simp add: updateAccess_def)
  with * [of "mi_entries i" sc] assms show "index_usage sc (updateAccess vals i) = scope_total sc (mi_entries (updateAccess vals i))"
    by (simp add: updateAccess_rows accountedD index_ok_def)
qed

text \<open>
  Usage rows may only be purged once the scope is empty. With workspace identifiers free of colons
  (they are UUIDs) no other workspace has a resource scope that starts with this one's.
\<close>

definition plain_workspaces :: "metadataIndex \<Rightarrow> bool" where
  "plain_workspaces i = (\<forall>r \<in> set (mi_entries i). CHR '':'' \<notin> set (ti_WorkspaceID (te_Identity (fst r))))"

definition purged_scopes :: "string \<Rightarrow> string list \<Rightarrow> tile_row \<Rightarrow> bool" where
  "purged_scopes workspaceID resourceIDs r =
     (snd r = Ready \<and> ti_WorkspaceID (te_Identity (fst r)) = workspaceID
      \<and> (resourceIDs = [] \<or> ti_ResourceID (te_Identity (fst r)) \<in> set resourceIDs))"

lemma colon_split:
  "CHR '':'' \<notin> set a \<Longrightarrow> CHR '':'' \<notin> set b \<Longrightarrow> a @ CHR '':'' # x = b @ CHR '':'' # y \<longleftrightarrow> a = b \<and> x = y"
proof (induction a arbitrary: b)
  case Nil
  then show ?case by (cases b) auto
next
  case (Cons c a)
  then show ?case by (cases b) auto
qed

lemma colon_prefix:
  assumes "CHR '':'' \<notin> set a" "CHR '':'' \<notin> set b"
  shows "has_prefix (a @ CHR '':'' # x) (b @ '':'') \<longleftrightarrow> a = b"
proof
  assume "has_prefix (a @ CHR '':'' # x) (b @ '':'')"
  then obtain t where "a @ CHR '':'' # x = b @ CHR '':'' # t" using has_prefixE by fastforce
  with assms show "a = b" by (simp add: colon_split)
qed (simp add: has_prefix_def)

lemma purge_ok:
  assumes ok: "index_ok i" and plain: "plain_workspaces i" "CHR '':'' \<notin> set workspaceID"
    and empty: "\<And>r. r \<in> set (mi_entries i) \<Longrightarrow> \<not> purged_scopes workspaceID resourceIDs r"
  shows "index_ok (purgeLifecycleUsage workspaceID resourceIDs i)"
proof (rule index_okI)
  show "rows_ok (mi_entries (purgeLifecycleUsage workspaceID resourceIDs i))" using ok by (simp add: purgeLifecycleUsage_def index_ok_def)
  fix sc :: scope
  let ?gone = "\<lambda>sc :: scope. if resourceIDs = []
             then fst sc = ''workspace'' \<and> snd sc = workspaceID \<or> fst sc = ''resource'' \<and> has_prefix (snd sc) (workspaceID @ '':'')
             else \<exists>r \<in> set resourceIDs. sc = resource_scope workspaceID r"
  have u: "index_usage sc (purgeLifecycleUsage workspaceID resourceIDs i) = (if ?gone sc then (0, 0) else index_usage sc i)"
  proof -
    have "mi_usage (purgeLifecycleUsage workspaceID resourceIDs i) = filter (\<lambda>kv. \<not> ?gone (fst kv)) (mi_usage i)"
      by (simp add: purgeLifecycleUsage_def case_prod_unfold)
    then show ?thesis using map_of_filter_fst [of ?gone "mi_usage i" sc] by (simp add: index_usage_def)
  qed
  have "row_share sc r = (0, 0)" if g: "?gone sc" and r: "r \<in> set (mi_entries i)" for r
  proof -
    have "CHR '':'' \<notin> set (ti_WorkspaceID (te_Identity (fst r)))" using plain(1) r by (simp add: plain_workspaces_def)
    then have "\<not> in_scope sc r"
      using g empty [OF r] plain(2)
      by (auto simp: in_scope_def purged_scopes_def usage_scopes_def resource_scope_def colon_split colon_prefix split: if_splits)
    then show ?thesis by (simp add: row_share_def)
  qed
  then have "scope_total sc (mi_entries i) = (0, 0)" if "?gone sc"
    using that by (simp add: scope_total_def cong: map_cong)
  then show "index_usage sc (purgeLifecycleUsage workspaceID resourceIDs i) = scope_total sc (mi_entries (purgeLifecycleUsage workspaceID resourceIDs i))"
    unfolding u using accountedD [OF ok] by (simp add: purgeLifecycleUsage_def)
qed

section \<open>Rows after each transaction\<close>

lemma set_upsert_row: "r \<in> set (upsert_row row rows) \<longleftrightarrow> r = row \<or> r \<in> set rows \<and> row_key r \<noteq> row_key row"
proof (cases "row_key row \<in> row_key ` set rows")
  case True
  then obtain q where "q \<in> set rows" "row_key q = row_key row" by auto
  then show ?thesis by (auto simp: upsert_row_def image_iff) metis+
next
  case False
  then have "row_key r \<noteq> row_key row" if "r \<in> set rows" using that by (metis imageI)
  with False show ?thesis by (auto simp: upsert_row_def)
qed

lemma set_delete_row [simp]: "r \<in> set (delete_row key rows) \<longleftrightarrow> r \<in> set rows \<and> row_key r \<noteq> key"
  by (simp add: delete_row_def)

definition pending_row :: "instant \<Rightarrow> tile_entry \<Rightarrow> tile_row" where
  "pending_row now e = (e\<lparr>te_CreatedAt := unix_milli now, te_LastAccessedAt := unix_milli now\<rparr>, Pending)"

lemma pending_row_simps [simp]:
  "row_key (pending_row now e) = te_CacheKey e" "snd (pending_row now e) = Pending" "te_Identity (fst (pending_row now e)) = te_Identity e"
  "te_ObjectKey (fst (pending_row now e)) = te_ObjectKey e" "te_SizeBytes (fst (pending_row now e)) = te_SizeBytes e"
  by (simp_all add: pending_row_def row_key_def)

lemma markPending_rows:
  assumes "markPending now e previous i = Some i'"
  shows "mi_entries i' = upsert_row (pending_row now e) (mi_entries i)" "\<not> object_taken e (mi_entries i)" "mi_jobs i' = mi_jobs i"
  using assms by (auto simp: markPending_def pending_row_def Let_def split: if_splits)

lemma markPending_total:
  assumes "distinct (map row_key (mi_entries i))" "markPending now e previous i = Some i'"
  shows "scope_total sc (mi_entries i') = scope_total sc (delete_row (te_CacheKey e) (mi_entries i))"
  using scope_total_upsert_pending [OF assms(1), of "pending_row now e"] markPending_rows(1) [OF assms(2)] by simp

text \<open>A row counts for its scopes, and only when it is ready.\<close>

lemma markReady_total:
  assumes ok: "rows_ok (mi_entries i)" and m: "markReady e i = Some i'"
    and sc: "\<And>r. r \<in> set (mi_entries i) \<Longrightarrow> row_key r = te_CacheKey e \<Longrightarrow> te_Identity (fst r) = te_Identity e"
  shows "fst (scope_total sc (mi_entries i')) =
    fst (scope_total sc (mi_entries i)) + (if sc \<in> set (usage_scopes e) then te_SizeBytes e else 0)"
proof -
  obtain xs r ys where s: "mi_entries i = xs @ r # ys" "row_key r = te_CacheKey e" "snd r = Pending"
    "mi_entries i' = xs @ ((fst r)\<lparr>te_SizeBytes := te_SizeBytes e, te_ETag := te_ETag e\<rparr>, Ready) # ys"
    using markReady_rows [OF ok m] by metis
  then show ?thesis using sc [of r] by (simp add: row_share_def in_scope_def usage_scopes_def)
qed

lemma delete_row_total_le:
  assumes "\<forall>r \<in> set rows. 0 \<le> te_SizeBytes (fst r)"
  shows "fst (scope_total sc (delete_row key rows)) \<le> fst (scope_total sc rows)"
  using assms
proof (induction rows)
  case (Cons r rows)
  then show ?case using row_share_nonneg [of r sc] by (auto simp: delete_row_def)
qed (simp add: delete_row_def)

lemma getReady_iff:
  assumes "rows_ok (mi_entries i)"
  shows "getReady key i = Some e \<longleftrightarrow> (e, Ready) \<in> set (mi_entries i) \<and> te_CacheKey e = key"
proof
  assume r: "(e, Ready) \<in> set (mi_entries i) \<and> te_CacheKey e = key"
  show "getReady key i = Some e"
  proof (cases "getReady key i")
    case None
    with r getReady_None [OF None, of "(e, Ready)"] show ?thesis by (simp add: row_key_def)
  next
    case (Some e')
    from getReady_Some [OF this] r same_row [OF assms, of "(e, Ready)" "(e', Ready)"] Some show ?thesis by (simp add: row_key_def)
  qed
qed (auto dest: getReady_Some)

lemma delete_row_delete_row: "delete_row k (delete_row k' rows) = delete_row k' (delete_row k rows)"
  by (auto simp: delete_row_def intro: filter_cong)

end
