(* ===== verification/Tile_Cache.thy ===== *)
theory Tile_Cache
  imports Tile_Index Tile_Ownership
begin

text \<open>
  Package \<^verbatim>\<open>internal/tilecache\<close>, the manager of the persistent cache (\<^verbatim>\<open>manager.go\<close>). A manager is the
  index, the payloads of the blob store, the ownership state and the counters. Operations run in a
  state monad with errors. Every request to the index or to the blob store takes the next element of
  a list of faults: it succeeds, or it fails after some of its effects took place, so the theorems
  over all fault lists cover errors and crashes at every point. An index transaction is
  all or nothing; a write to the blob store may take effect and still report an error.
\<close>

section \<open>State\<close>

datatype tc_error = InvalidIdentity | InvalidConfig | OwnershipLostError | MetadataError | BackendError | QuotaUnsatisfiable | JobError job_error

text \<open>The list in \<open>Fault\<close> tells which of the effects of the failed request took place.\<close>

datatype fault = NoFault | Fault "bool list"

record tile_manager =
  tm_MaxBytes :: int
  tm_ObjectPrefix :: string
  tm_index :: metadataIndex
  tm_blobs :: "(string, string) gomap"
  tm_ownership :: "ownershipState option"
  tm_accessed :: "(string, instant) gomap"
  tm_hits :: int
  tm_misses :: int
  tm_writes :: int
  tm_writeErrors :: int
  tm_evictions :: int
  tm_bytesEvicted :: int
  tm_oversized :: int
  tm_orphans :: int
  tm_faults :: "fault list"

type_synonym 'a tm = "tile_manager \<Rightarrow> (tc_error + 'a) \<times> tile_manager"

definition tret :: "'a \<Rightarrow> 'a tm" where
  "tret x m = (Inr x, m)"

definition tfail :: "tc_error \<Rightarrow> 'a tm" where
  "tfail e m = (Inl e, m)"

definition tbind :: "'a tm \<Rightarrow> ('a \<Rightarrow> 'b tm) \<Rightarrow> 'b tm" where
  "tbind a f m = (case a m of (Inl e, m1) \<Rightarrow> (Inl e, m1) | (Inr x, m1) \<Rightarrow> f x m1)"

text \<open>The outcome of a call whose error the caller inspects or drops.\<close>

definition ttry :: "'a tm \<Rightarrow> (tc_error + 'a) tm" where
  "ttry a m = (case a m of (r, m1) \<Rightarrow> (Inr r, m1))"

definition tmodify :: "(tile_manager \<Rightarrow> tile_manager) \<Rightarrow> unit tm" where
  "tmodify f m = (Inr (), f m)"

definition take_fault :: "tile_manager \<Rightarrow> fault \<times> tile_manager" where
  "take_fault m = (case tm_faults m of [] \<Rightarrow> (NoFault, m) | f # fs \<Rightarrow> (f, m\<lparr>tm_faults := fs\<rparr>))"

section \<open>Requests to the index and to the blob store\<close>

definition index_query :: "(metadataIndex \<Rightarrow> 'a) \<Rightarrow> 'a tm" where
  "index_query q m =
     (case take_fault m of (NoFault, m1) \<Rightarrow> (Inr (q (tm_index m1)), m1) | (Fault _, m1) \<Rightarrow> (Inl MetadataError, m1))"

definition index_exec :: "(metadataIndex \<Rightarrow> metadataIndex option) \<Rightarrow> unit tm" where
  "index_exec q m =
     (case take_fault m of
        (NoFault, m1) \<Rightarrow> (case q (tm_index m1) of None \<Rightarrow> (Inl MetadataError, m1) | Some i \<Rightarrow> (Inr (), m1\<lparr>tm_index := i\<rparr>))
      | (Fault _, m1) \<Rightarrow> (Inl MetadataError, m1))"

definition index_remove :: "tile_entry \<Rightarrow> unit tm" where
  "index_remove e = index_exec (\<lambda>i. Some (remove e i))"

definition blob_Get :: "string \<Rightarrow> string option tm" where
  "blob_Get key m =
     (case take_fault m of (NoFault, m1) \<Rightarrow> (Inr (map_of (tm_blobs m1) key), m1) | (Fault _, m1) \<Rightarrow> (Inl BackendError, m1))"

definition blob_effects :: "(string \<times> string option) list \<Rightarrow> tile_manager \<Rightarrow> tile_manager" where
  "blob_effects ops m =
     m\<lparr>tm_blobs := fold (\<lambda>(k, v). case v of None \<Rightarrow> AList.delete k | Some c \<Rightarrow> AList.update k c) ops (tm_blobs m)\<rparr>"

definition blob_request :: "(string \<times> string option) list \<Rightarrow> unit tm" where
  "blob_request ops m =
     (case take_fault m of
        (NoFault, m1) \<Rightarrow> (Inr (), blob_effects ops m1)
      | (Fault done, m1) \<Rightarrow> (Inl BackendError, blob_effects (map fst (filter snd (zip ops done))) m1))"

definition blob_Put :: "string \<Rightarrow> string \<Rightarrow> unit tm" where
  "blob_Put key content = blob_request [(key, Some content)]"

definition blob_Delete :: "string \<Rightarrow> unit tm" where
  "blob_Delete key = blob_request [(key, None)]"

definition blob_DeleteBatch :: "string list \<Rightarrow> unit tm" where
  "blob_DeleteBatch keys = blob_request (map (\<lambda>k. (k, None)) keys)"

section \<open>Reads\<close>

text \<open>A read is one step here. In the code the entry is looked up and the payload read outside the lock, and only the repair
  takes it: \<open>repair\<close> on its own, of an entry that may be stale, is a step of the histories in
  \<open>Tile_Cache_Invariants\<close>, too.\<close>

definition manager_beginMutation :: "tile_manager \<Rightarrow> bool" where
  "manager_beginMutation m = (case tm_ownership m of None \<Rightarrow> True | Some st \<Rightarrow> beginMutation st)"

definition Writable :: "tile_manager \<Rightarrow> bool" where
  "Writable m = (case tm_ownership m of None \<Rightarrow> True | Some st \<Rightarrow> ownership_health st)"

text \<open>The repair of an entry whose payload is gone; its error is dropped.\<close>

definition repair :: "tile_entry \<Rightarrow> unit tm" where
  "repair e m = (if manager_beginMutation m then (Inr (), snd (index_remove e m)) else (Inr (), m))"

definition Get_entry :: "string \<Rightarrow> instant \<Rightarrow> tile_entry \<Rightarrow> (string \<times> tile_entry) option tm" where
  "Get_entry key now e =
     tbind (blob_Get (te_ObjectKey e)) (\<lambda>b.
       case b of
         None \<Rightarrow>
           tbind (repair e) (\<lambda>_. tbind (tmodify (\<lambda>m. m\<lparr>tm_misses := tm_misses m + 1, tm_orphans := tm_orphans m + 1\<rparr>)) (\<lambda>_. tret None))
       | Some content \<Rightarrow>
           tbind (tmodify (\<lambda>m. (if Writable m then m\<lparr>tm_accessed := AList.update key now (tm_accessed m)\<rparr> else m)\<lparr>tm_hits := tm_hits m + 1\<rparr>)) (\<lambda>_.
             tret (Some (content, e))))"

definition Get_tile :: "tile_identity \<Rightarrow> instant \<Rightarrow> (string \<times> tile_entry) option tm" where
  "Get_tile ident now =
     (if \<not> tile_valid ident then tfail InvalidIdentity
      else let key = CanonicalKey ident
           in tbind (index_query (getReady key)) (\<lambda>r.
                case r of
                  None \<Rightarrow> tbind (tmodify (\<lambda>m. m\<lparr>tm_misses := tm_misses m + 1\<rparr>)) (\<lambda>_. tret None)
                | Some e \<Rightarrow> Get_entry key now e))"

definition Exists_tile :: "tile_identity \<Rightarrow> bool tm" where
  "Exists_tile ident =
     (if \<not> tile_valid ident then tfail InvalidIdentity
      else tbind (index_query (getReady (CanonicalKey ident))) (\<lambda>r.
             case r of
               None \<Rightarrow> tret False
             | Some e \<Rightarrow> tbind (blob_Get (te_ObjectKey e)) (\<lambda>b.
                 case b of
                   None \<Rightarrow> tbind (repair e) (\<lambda>_. tbind (tmodify (\<lambda>m. m\<lparr>tm_orphans := tm_orphans m + 1\<rparr>)) (\<lambda>_. tret False))
                 | Some _ \<Rightarrow> tret True)))"

section \<open>Eviction\<close>

lemma tbind_cong [fundef_cong]:
  "a m = a' m' \<Longrightarrow> (\<And>x m1. a' m' = (Inr x, m1) \<Longrightarrow> f x m1 = f' x m1) \<Longrightarrow> tbind a f m = tbind a' f' m'"
  by (auto simp: tbind_def split: prod.splits sum.splits)

lemma take_fault_keeps [simp]:
  "take_fault m = (f, m1) \<Longrightarrow> tm_index m1 = tm_index m" "take_fault m = (f, m1) \<Longrightarrow> tm_blobs m1 = tm_blobs m"
  "take_fault m = (f, m1) \<Longrightarrow> tm_ownership m1 = tm_ownership m" "take_fault m = (f, m1) \<Longrightarrow> tm_MaxBytes m1 = tm_MaxBytes m"
  "take_fault m = (f, m1) \<Longrightarrow> tm_ObjectPrefix m1 = tm_ObjectPrefix m"
  by (auto simp: take_fault_def split: list.splits)

lemma index_query_Inr: "index_query q m = (Inr x, m1) \<Longrightarrow> x = q (tm_index m) \<and> tm_index m1 = tm_index m"
  by (auto simp: index_query_def split: prod.splits fault.splits)

lemma index_remove_Inr: "index_remove e m = (Inr x, m1) \<Longrightarrow> tm_index m1 = remove e (tm_index m)"
  by (auto simp: index_remove_def index_exec_def split: prod.splits fault.splits option.splits)

lemma blob_request_index: "blob_request ops m = (r, m1) \<Longrightarrow> tm_index m1 = tm_index m"
  by (auto simp: blob_request_def blob_effects_def split: prod.splits fault.splits)

lemma lru_Some:
  assumes "lru scope ws res excludeKey i = Some e"
  shows "(e, Ready) \<in> set (mi_entries i)" "te_CacheKey e \<noteq> excludeKey"
proof -
  define hit where "hit = (\<lambda>r. snd r = Ready \<and> row_key r \<noteq> excludeKey
            \<and> (scope \<in> {''workspace'', ''resource''} \<longrightarrow> ti_WorkspaceID (te_Identity (fst r)) = ws)
            \<and> (scope = ''resource'' \<longrightarrow> ti_ResourceID (te_Identity (fst r)) = res))"
  obtain st rs where s: "sort_key (\<lambda>r. (te_LastAccessedAt (fst r), te_CreatedAt (fst r))) (filter hit (mi_entries i)) = (e, st) # rs"
    using assms by (auto simp: lru_def hit_def Let_def split: list.splits)
  have "(e, st) \<in> set (filter hit (mi_entries i))"
    using arg_cong [OF s, of set] by (simp only: set_sort) auto
  then show "(e, Ready) \<in> set (mi_entries i)" "te_CacheKey e \<noteq> excludeKey" by (auto simp: hit_def row_key_def)
qed

lemma length_delete_row: "r \<in> set rows \<Longrightarrow> length (delete_row (row_key r) rows) < length rows"
  by (auto simp: delete_row_def intro: length_filter_less)

definition count_eviction :: "tile_entry \<Rightarrow> tile_manager \<Rightarrow> tile_manager" where
  "count_eviction e m = m\<lparr>tm_evictions := tm_evictions m + 1, tm_bytesEvicted := tm_bytesEvicted m + te_SizeBytes e\<rparr>"

lemma tm_index_count_eviction [simp]: "tm_index (count_eviction e m) = tm_index m"
  by (simp add: count_eviction_def)

text \<open>The loop ends because each round takes a row out of the index.\<close>

function evictUntil :: "scope \<Rightarrow> tile_identity \<Rightarrow> string \<Rightarrow> int \<Rightarrow> int \<Rightarrow> unit tm" where
  "evictUntil sc ident excludeKey delta quota m =
     tbind (index_query (index_usage sc)) (\<lambda>u m1.
       if fst u + delta \<le> quota then tret () m1
       else tbind (index_query (lru (fst sc) (ti_WorkspaceID ident) (ti_ResourceID ident) excludeKey)) (\<lambda>c m2.
              case c of
                None \<Rightarrow> tfail QuotaUnsatisfiable m2
              | Some e \<Rightarrow>
                  tbind (blob_Delete (te_ObjectKey e)) (\<lambda>_.
                    tbind (index_remove e) (\<lambda>_.
                      tbind (tmodify (count_eviction e)) (\<lambda>_ m5.
                        evictUntil sc ident excludeKey delta quota m5))) m2) m1) m"
  by pat_completeness auto

termination
proof (relation "measure (\<lambda>(_, _, _, _, _, m). length (mi_entries (tm_index m)))")
  fix sc ident excludeKey delta quota m u m1 c m2 e x m3 y m4 z m5
  assume "index_query (index_usage sc) m = (Inr u, m1)" "\<not> fst u + delta \<le> quota"
    and q: "index_query (lru (fst sc) (ti_WorkspaceID ident) (ti_ResourceID ident) excludeKey) m1 = (Inr c, m2)" "c = Some e"
    and d: "blob_Delete (te_ObjectKey e) m2 = (Inr x, m3)" "index_remove e m3 = (Inr y, m4)" "tmodify (count_eviction e) m4 = (Inr z, m5)"
  then have i: "tm_index m5 = remove e (tm_index m)" "lru (fst sc) (ti_WorkspaceID ident) (ti_ResourceID ident) excludeKey (tm_index m) = Some e"
    by (auto simp: tmodify_def blob_Delete_def dest!: index_query_Inr index_remove_Inr blob_request_index)
  from length_delete_row [OF lru_Some(1) [OF i(2)]] i(1)
  show "((sc, ident, excludeKey, delta, quota, m5), (sc, ident, excludeKey, delta, quota, m))
      \<in> measure (\<lambda>(_, _, _, _, _, m). length (mi_entries (tm_index m)))"
    by (simp add: row_key_def)
qed auto

declare evictUntil.simps [simp del]

section \<open>Writes\<close>

definition count_writeError :: "tile_manager \<Rightarrow> tile_manager" where
  "count_writeError m = m\<lparr>tm_writeErrors := tm_writeErrors m + 1\<rparr>"

text \<open>The three quota checks of \<^verbatim>\<open>Put\<close>; a quota that is not positive is no quota.\<close>

fun evict_checks :: "tile_identity \<Rightarrow> string \<Rightarrow> int \<Rightarrow> (scope \<times> int) list \<Rightarrow> unit tm" where
  "evict_checks ident key delta [] = tret ()"
| "evict_checks ident key delta ((sc, quota) # cs) =
     (if quota \<le> 0 then evict_checks ident key delta cs
      else tbind (ttry (evictUntil sc ident key delta quota)) (\<lambda>r.
             case r of
               Inl e \<Rightarrow> tbind (tmodify count_writeError) (\<lambda>_. tfail e)
             | Inr _ \<Rightarrow> evict_checks ident key delta cs))"

definition quota_checks :: "tile_identity \<Rightarrow> tile_policy \<Rightarrow> int \<Rightarrow> (scope \<times> int) list" where
  "quota_checks ident policy maxBytes =
     [(resource_scope (ti_WorkspaceID ident) (ti_ResourceID ident), pl_ResourceQuotaBytes policy),
      ((''workspace'', ti_WorkspaceID ident), pl_WorkspaceQuotaBytes policy), ((''global'', ''global''), maxBytes)]"

definition new_entry :: "(string \<Rightarrow> string) \<Rightarrow> string \<Rightarrow> tile_identity \<Rightarrow> string \<Rightarrow> instant \<Rightarrow> tile_entry" where
  "new_entry sha256 objectPrefix ident content now =
     \<lparr>te_Identity = ident, te_CacheKey = CanonicalKey ident, te_ObjectKey = ObjectKey sha256 objectPrefix ident,
      te_SizeBytes = int (length content), te_ETag = hex_encode (sha256 content), te_CreatedAt = now, te_LastAccessedAt = now\<rparr>"

text \<open>The pending row, the payload, the ready row, and the way back from each failure.\<close>

definition write_entry :: "tile_entry \<Rightarrow> string \<Rightarrow> instant \<Rightarrow> tile_entry option \<Rightarrow> bool tm" where
  "write_entry e content now previous =
     tbind (index_exec (markPending now e previous)) (\<lambda>_.
       tbind (ttry (blob_Put (te_ObjectKey e) content)) (\<lambda>put.
         case put of
           Inl err \<Rightarrow>
             tbind (ttry (index_exec (restore_row previous (te_CacheKey e)))) (\<lambda>_.
               tbind (tmodify count_writeError) (\<lambda>_. tfail err))
         | Inr _ \<Rightarrow>
             tbind (ttry (index_exec (markReady e))) (\<lambda>ready.
               case ready of
                 Inl err \<Rightarrow>
                   tbind (ttry (blob_Delete (te_ObjectKey e))) (\<lambda>_.
                     tbind (ttry (index_remove e)) (\<lambda>_.
                       tbind (tmodify count_writeError) (\<lambda>_. tfail err)))
               | Inr _ \<Rightarrow> tbind (tmodify (\<lambda>m. m\<lparr>tm_writes := tm_writes m + 1\<rparr>)) (\<lambda>_. tret True))))"

definition put_replacing :: "(string \<Rightarrow> string) \<Rightarrow> tile_identity \<Rightarrow> string \<Rightarrow> tile_policy \<Rightarrow> instant \<Rightarrow> tile_entry option \<Rightarrow> bool tm" where
  "put_replacing sha256 ident content policy now previous m =
     (let delta = int (length content) - (case previous of None \<Rightarrow> 0 | Some p \<Rightarrow> te_SizeBytes p)
      in tbind (evict_checks ident (CanonicalKey ident) delta (if delta > 0 then quota_checks ident policy (tm_MaxBytes m) else []))
           (\<lambda>_. write_entry (new_entry sha256 (tm_ObjectPrefix m) ident content now) content now previous) m)"

definition Put :: "(string \<Rightarrow> string) \<Rightarrow> tile_identity \<Rightarrow> string \<Rightarrow> tile_policy \<Rightarrow> instant \<Rightarrow> bool tm" where
  "Put sha256 ident content policy now m =
     (if \<not> tile_valid ident then (Inl InvalidIdentity, m)
      else if \<not> manager_beginMutation m then (Inl OwnershipLostError, count_writeError m)
      else if \<exists>limit \<in> {pl_ResourceQuotaBytes policy, pl_WorkspaceQuotaBytes policy, tm_MaxBytes m}. limit > 0 \<and> int (length content) > limit
      then (Inr False, m\<lparr>tm_oversized := tm_oversized m + 1\<rparr>)
      else tbind (index_query (getReady (CanonicalKey ident))) (put_replacing sha256 ident content policy now) m)"

section \<open>Deletes\<close>

record delete_result =
  dr_Entries :: int
  dr_Bytes :: int

definition no_deletes :: delete_result where
  "no_deletes = \<lparr>dr_Entries = 0, dr_Bytes = 0\<rparr>"

definition fenced :: "'a tm \<Rightarrow> 'a tm" where
  "fenced a m = (if manager_beginMutation m then a m else (Inl OwnershipLostError, m))"

text \<open>A delete returns what it counted so far with its error.\<close>

fun remove_each :: "tile_entry list \<Rightarrow> delete_result \<Rightarrow> (delete_result \<times> tc_error option) tm" where
  "remove_each [] res = tret (res, None)"
| "remove_each (e # es) res =
     tbind (ttry (index_remove e)) (\<lambda>r.
       case r of
         Inl err \<Rightarrow> tret (res, Some err)
       | Inr _ \<Rightarrow> remove_each es \<lparr>dr_Entries = dr_Entries res + 1, dr_Bytes = dr_Bytes res + te_SizeBytes e\<rparr>)"

lemma ttry_Inr: "ttry a m = (Inr r, m1) \<Longrightarrow> a m = (r, m1)"
  by (auto simp: ttry_def split: prod.splits)

lemma tbind_Inr: "tbind a f m = (Inr y, m2) \<longleftrightarrow> (\<exists>x m1. a m = (Inr x, m1) \<and> f x m1 = (Inr y, m2))"
  by (auto simp: tbind_def split: prod.splits sum.splits)

lemma remove_each_rows:
  "remove_each es res m = (Inr (res', None), m1) \<Longrightarrow>
   mi_entries (tm_index m1) = filter (\<lambda>r. row_key r \<notin> te_CacheKey ` set es) (mi_entries (tm_index m))"
proof (induction es arbitrary: res m)
  case (Cons e es)
  obtain r m2 where r: "index_remove e m = (r, m2)" by fastforce
  with Cons.prems have "r = Inr ()" and rest:
    "remove_each es \<lparr>dr_Entries = dr_Entries res + 1, dr_Bytes = dr_Bytes res + te_SizeBytes e\<rparr> m2 = (Inr (res', None), m1)"
    by (auto simp: tbind_def ttry_def tret_def split: sum.splits)
  with r have m2: "index_remove e m = (Inr (), m2)" by simp
  from Cons.IH [OF rest] index_remove_Inr [OF m2] show ?case
    by (auto simp: delete_row_def intro!: filter_cong)
qed (simp add: tret_def)

lemma selectEntries_subset: "e \<in> set (selectEntries s n i) \<Longrightarrow> (e, Ready) \<in> set (mi_entries i)"
  by (auto simp: selectEntries_def dest!: in_set_takeD)

function delete_all :: "tile_selector \<Rightarrow> delete_result \<Rightarrow> (delete_result \<times> tc_error option) tm" where
  "delete_all s res m =
     tbind (ttry (index_query (selectEntries s 500))) (\<lambda>q m1.
       case q of
         Inl e \<Rightarrow> tret (res, Some e) m1
       | Inr es \<Rightarrow>
           if es = [] then tret (res, None) m1
           else tbind (ttry (blob_DeleteBatch (map te_ObjectKey es))) (\<lambda>d m2.
                  case d of
                    Inl e \<Rightarrow> tret (res, Some e) m2
                  | Inr _ \<Rightarrow>
                      tbind (remove_each es res) (\<lambda>r m3.
                        case r of
                          (res', Some e) \<Rightarrow> tret (res', Some e) m3
                        | (res', None) \<Rightarrow> delete_all s res' m3) m2) m1) m"
  by pat_completeness auto

termination
proof (relation "measure (\<lambda>(_, _, m). length (mi_entries (tm_index m)))")
  fix s :: tile_selector and res m q m1 es d m2 x r m3 res' err
  assume a: "ttry (index_query (selectEntries s 500)) m = (Inr q, m1)" "q = Inr es" "es \<noteq> []"
    and b: "ttry (blob_DeleteBatch (map te_ObjectKey es)) m1 = (Inr d, m2)" "d = Inr x"
    and c: "remove_each es res m2 = (Inr r, m3)" "(res', err) = r" "err = None"
  have es: "es = selectEntries s 500 (tm_index m)" "tm_index m2 = tm_index m"
    using a b by (auto simp: blob_DeleteBatch_def dest!: ttry_Inr index_query_Inr blob_request_index)
  obtain e where e: "e \<in> set es" using a(3) by (cases es) auto
  then have row: "(e, Ready) \<in> set (mi_entries (tm_index m))" using es selectEntries_subset by blast
  have "mi_entries (tm_index m3) = filter (\<lambda>r. row_key r \<notin> te_CacheKey ` set es) (mi_entries (tm_index m))"
    using remove_each_rows c es(2) by metis
  moreover have "\<not> row_key (e, Ready) \<notin> te_CacheKey ` set es" using e by (simp add: row_key_def)
  ultimately show "((s, res', m3), (s, res, m)) \<in> measure (\<lambda>(_, _, m). length (mi_entries (tm_index m)))"
    using row by (auto intro: length_filter_less)
qed auto

declare delete_all.simps [simp del]

definition Delete :: "tile_selector \<Rightarrow> (delete_result \<times> tc_error option) tm" where
  "Delete s = fenced (delete_all s no_deletes)"

definition DeleteIdentity :: "tile_identity \<Rightarrow> delete_result tm" where
  "DeleteIdentity ident =
     (if \<not> tile_valid ident then tfail InvalidIdentity
      else fenced (tbind (index_query (getReady (CanonicalKey ident))) (\<lambda>r.
        case r of
          None \<Rightarrow> tret no_deletes
        | Some e \<Rightarrow> tbind (blob_Delete (te_ObjectKey e)) (\<lambda>_. tbind (index_remove e) (\<lambda>_.
            tret \<lparr>dr_Entries = 1, dr_Bytes = te_SizeBytes e\<rparr>)))))"

section \<open>Maintenance\<close>

fun reconcile_each :: "tile_entry list \<Rightarrow> unit tm" where
  "reconcile_each [] = tret ()"
| "reconcile_each (e # es) =
     tbind (ttry (blob_Delete (te_ObjectKey e))) (\<lambda>_.
       tbind (index_remove e) (\<lambda>_.
         tbind (tmodify (\<lambda>m. m\<lparr>tm_orphans := tm_orphans m + 1\<rparr>)) (\<lambda>_. reconcile_each es)))"

definition reconcile :: "unit tm" where
  "reconcile = fenced (tbind (index_query nonReady) reconcile_each)"

text \<open>Access times that could not be written are merged back, the later time winning.\<close>

definition merge_accessed :: "(string, instant) gomap \<Rightarrow> (string, instant) gomap \<Rightarrow> (string, instant) gomap" where
  "merge_accessed vals current =
     fold (\<lambda>(key, v) acc. case map_of acc key of None \<Rightarrow> AList.update key v acc
       | Some c \<Rightarrow> if v > c then AList.update key v acc else acc) vals current"

definition flushAccess :: "unit tm" where
  "flushAccess m =
     (if \<not> manager_beginMutation m then (Inr (), m)
      else let vals = tm_accessed m; m1 = m\<lparr>tm_accessed := []\<rparr>
           in if vals = [] then (Inr (), m1)
              else case index_exec (\<lambda>i. Some (updateAccess vals i)) m1 of
                     (Inl _, m2) \<Rightarrow> (Inr (), m2\<lparr>tm_accessed := merge_accessed vals (tm_accessed m2)\<rparr>)
                   | (Inr _, m2) \<Rightarrow> (Inr (), m2))"

section \<open>Statistics\<close>

text \<open>\<^verbatim>\<open>Utilization\<close>, a floating-point ratio of the two fields before it, is left out.\<close>

record Usage =
  us_SizeBytes :: int
  us_EntryCount :: int
  us_QuotaBytes :: int
  us_RemainingBytes :: int

definition applyQuota :: "int \<times> int \<Rightarrow> int \<Rightarrow> Usage" where
  "applyQuota u quota =
     \<lparr>us_SizeBytes = fst u, us_EntryCount = snd u, us_QuotaBytes = quota, us_RemainingBytes = max 0 (quota - fst u)\<rparr>"

record cache_stats =
  st_Global :: Usage
  st_Workspace :: "Usage option"
  st_Resource :: "Usage option"
  st_counters :: "int list"

definition Stats :: "string \<Rightarrow> string \<Rightarrow> int \<Rightarrow> int \<Rightarrow> cache_stats tm" where
  "Stats workspaceID resourceID workspaceQuota resourceQuota m =
     tbind (index_query (index_usage (''global'', ''global''))) (\<lambda>g.
       let stats = \<lparr>st_Global = applyQuota g (tm_MaxBytes m), st_Workspace = None, st_Resource = None,
             st_counters = [tm_hits m, tm_misses m, tm_writes m, tm_writeErrors m, tm_evictions m, tm_bytesEvicted m, tm_oversized m, tm_orphans m]\<rparr>
       in if workspaceID = [] then tret stats
          else tbind (index_query (index_usage (''workspace'', workspaceID))) (\<lambda>w.
            let stats = stats\<lparr>st_Workspace := Some (applyQuota w (if workspaceQuota \<le> 0 then tm_MaxBytes m else workspaceQuota))\<rparr>
            in if resourceID = [] then tret stats
               else tbind (index_query (index_usage (resource_scope workspaceID resourceID))) (\<lambda>r.
                 let quota = (if resourceQuota \<le> 0 then workspaceQuota else resourceQuota)
                 in tret (stats\<lparr>st_Resource := Some (applyQuota r (if quota \<le> 0 then tm_MaxBytes m else quota))\<rparr>)))) m"

section \<open>Jobs and the catalog lifecycle\<close>

text \<open>The job tables live in the index and are written behind the same ownership gate (\<^verbatim>\<open>fenced_jobs.go\<close>).\<close>

definition job_exec :: "(job_tables \<Rightarrow> job_error + ('a \<times> job_tables)) \<Rightarrow> 'a tm" where
  "job_exec q m =
     (case take_fault m of
        (NoFault, m1) \<Rightarrow> (case q (mi_jobs (tm_index m1)) of
            Inl e \<Rightarrow> (Inl (JobError e), m1)
          | Inr (x, t) \<Rightarrow> (Inr x, m1\<lparr>tm_index := (tm_index m1)\<lparr>mi_jobs := t\<rparr>\<rparr>))
      | (Fault _, m1) \<Rightarrow> (Inl MetadataError, m1))"

definition fenced_CreateTileCacheJob :: "string \<Rightarrow> instant \<Rightarrow> CreateJobInput \<Rightarrow> Job tm" where
  "fenced_CreateTileCacheJob uuid now input = fenced (job_exec (CreateTileCacheJob uuid now input))"

definition fenced_ClaimNextTileCacheJob :: "instant \<Rightarrow> Job option tm" where
  "fenced_ClaimNextTileCacheJob now = fenced (job_exec (\<lambda>t. Inr (ClaimNextTileCacheJob now t)))"

definition fenced_GetTileCacheJob :: "string \<Rightarrow> Job tm" where
  "fenced_GetTileCacheJob jobid = job_exec (\<lambda>t. bind_res (GetTileCacheJob jobid t) (\<lambda>j. Inr (j, t)))"

definition fenced_ListTileCacheJobs :: "string \<Rightarrow> int \<Rightarrow> Job list tm" where
  "fenced_ListTileCacheJobs workspaceID limit = index_query (\<lambda>i. ListTileCacheJobs workspaceID limit (mi_jobs i))"

definition fenced_UpdateTileCacheJob :: "string \<Rightarrow> JobUpdate \<Rightarrow> instant \<Rightarrow> Job tm" where
  "fenced_UpdateTileCacheJob jobid u now = fenced (job_exec (UpdateTileCacheJob jobid u now))"

definition fenced_RequestTileCacheJobCancel :: "string \<Rightarrow> instant \<Rightarrow> unit tm" where
  "fenced_RequestTileCacheJobCancel jobid now =
     fenced (job_exec (\<lambda>t. case RequestTileCacheJobCancel jobid now t of (Some e, _) \<Rightarrow> Inl e | (None, t') \<Rightarrow> Inr ((), t')))"

definition fenced_ResetInterruptedTileCacheJobs :: "instant \<Rightarrow> unit tm" where
  "fenced_ResetInterruptedTileCacheJobs now = fenced (job_exec (\<lambda>t. Inr ((), ResetInterruptedTileCacheJobs now t)))"

definition fenced_ReplaceTileCacheJobChunks :: "string \<Rightarrow> string list \<Rightarrow> instant \<Rightarrow> JobChunk list \<Rightarrow> unit tm" where
  "fenced_ReplaceTileCacheJobChunks jobid uuids now chunks =
     fenced (job_exec (\<lambda>t. bind_res (ReplaceTileCacheJobChunks jobid uuids now chunks t) (\<lambda>t'. Inr ((), t'))))"

definition fenced_ListTileCacheJobChunks :: "string \<Rightarrow> JobChunk list tm" where
  "fenced_ListTileCacheJobChunks jobid = index_query (\<lambda>i. ListTileCacheJobChunks jobid (mi_jobs i))"

definition fenced_UpdateTileCacheJobChunk :: "JobChunk \<Rightarrow> instant \<Rightarrow> unit tm" where
  "fenced_UpdateTileCacheJobChunk chunk now = fenced (job_exec (\<lambda>t. Inr ((), UpdateTileCacheJobChunk chunk now t)))"

definition CancelLifecycleJobs :: "string \<Rightarrow> string list \<Rightarrow> instant \<Rightarrow> unit tm" where
  "CancelLifecycleJobs workspaceID resourceIDs now =
     fenced (job_exec (\<lambda>t. Inr ((), cancelLifecycleJobs workspaceID resourceIDs now t)))"

definition ActiveLifecycleJobs :: "string \<Rightarrow> string list \<Rightarrow> int tm" where
  "ActiveLifecycleJobs workspaceID resourceIDs = index_query (\<lambda>i. activeLifecycleJobs workspaceID resourceIDs (mi_jobs i))"

fun lifecycle_usage :: "string \<Rightarrow> string list \<Rightarrow> int \<times> int \<Rightarrow> (int \<times> int) tm" where
  "lifecycle_usage workspaceID [] acc = tret acc"
| "lifecycle_usage workspaceID (r # rs) acc =
     tbind (Stats workspaceID r 0 0) (\<lambda>s.
       lifecycle_usage workspaceID rs
         (case st_Resource s of None \<Rightarrow> acc | Some u \<Rightarrow> (fst acc + us_EntryCount u, snd acc + us_SizeBytes u)))"

definition LifecycleStats :: "string \<Rightarrow> string list \<Rightarrow> (int \<times> int \<times> int) tm" where
  "LifecycleStats workspaceID resourceIDs =
     tbind (if resourceIDs = []
            then tbind (Stats workspaceID [] 0 0) (\<lambda>s. tret (case st_Workspace s of None \<Rightarrow> (0, 0) | Some u \<Rightarrow> (us_EntryCount u, us_SizeBytes u)))
            else lifecycle_usage workspaceID resourceIDs (0, 0)) (\<lambda>(entries, bytes).
       tbind (index_query (\<lambda>i. lifecycleJobs workspaceID resourceIDs (mi_jobs i))) (\<lambda>jobs.
         tret (entries, bytes, int (length jobs))))"

text \<open>The tiles of a scope first, then its jobs, then its usage rows. One step here; in the code the lock is
  taken for each delete only, and the purges of jobs and usage run without it: they are steps on their own of the histories
  in \<open>Tile_Cache_Invariants\<close>, too.\<close>

definition workspace_selector :: "string \<Rightarrow> string \<Rightarrow> tile_selector" where
  "workspace_selector workspaceID resourceID =
     \<lparr>sl_WorkspaceID = workspaceID, sl_ResourceID = resourceID, sl_TileType = [], sl_MatrixSet = [], sl_Format = [],
      sl_StyleDigest = [], sl_StyleName = [], sl_MinZoom = None, sl_MaxZoom = None\<rparr>"

fun delete_scopes :: "string \<Rightarrow> string list \<Rightarrow> delete_result \<Rightarrow> (delete_result \<times> tc_error option) tm" where
  "delete_scopes workspaceID [] res = tret (res, None)"
| "delete_scopes workspaceID (r # rs) res =
     tbind (delete_all (workspace_selector workspaceID r) no_deletes) (\<lambda>(d, err).
       case err of
         Some e \<Rightarrow> tret (res, Some e)
       | None \<Rightarrow> delete_scopes workspaceID rs \<lparr>dr_Entries = dr_Entries res + dr_Entries d, dr_Bytes = dr_Bytes res + dr_Bytes d\<rparr>)"

fun purge_usage :: "string \<Rightarrow> string list \<Rightarrow> unit tm" where
  "purge_usage workspaceID [] = tret ()"
| "purge_usage workspaceID (r # rs) =
     tbind (index_exec (\<lambda>i. Some (purgeLifecycleUsage workspaceID [r] i))) (\<lambda>_. purge_usage workspaceID rs)"

definition purge_rest :: "string \<Rightarrow> string list \<Rightarrow> delete_result \<Rightarrow> (delete_result \<times> int \<times> tc_error option) tm" where
  "purge_rest workspaceID resourceIDs res =
     tbind (ttry (job_exec (purgeLifecycleJobs workspaceID resourceIDs))) (\<lambda>p.
       case p of
         Inl e \<Rightarrow> tret (res, 0, Some e)
       | Inr n \<Rightarrow>
           tbind (ttry (if resourceIDs = [] then index_exec (\<lambda>i. Some (purgeLifecycleUsage workspaceID [] i))
                        else purge_usage workspaceID resourceIDs)) (\<lambda>u.
             tret (res, n, case u of Inl e \<Rightarrow> Some e | Inr _ \<Rightarrow> None)))"

definition PurgeLifecycle :: "string \<Rightarrow> string list \<Rightarrow> (delete_result \<times> int \<times> tc_error option) tm" where
  "PurgeLifecycle workspaceID resourceIDs =
     fenced (tbind (delete_scopes workspaceID (if resourceIDs = [] then [[]] else resourceIDs) no_deletes) (\<lambda>(res, err).
       case err of
         Some e \<Rightarrow> tret (res, 0, Some e)
       | None \<Rightarrow> purge_rest workspaceID resourceIDs res))"

definition LifecycleInventory :: "(string \<times> string) list tm" where
  "LifecycleInventory =
     tbind (index_query (\<lambda>i. map (\<lambda>r. (ti_WorkspaceID (te_Identity (fst r)), ti_ResourceID (te_Identity (fst r)))) (mi_entries i))) (\<lambda>tiles.
       tbind (index_query (\<lambda>i. map (\<lambda>j. (jb_WorkspaceID j, rq_ResourceID (jb_Request j))) (jt_jobs (mi_jobs i)))) (\<lambda>jobs.
         tret (sort (remdups (tiles @ jobs)))))"

section \<open>Start\<close>

text \<open>A process starts over what the last one left: its own configuration and ownership, no access times, no counters.
  A size that is not positive is refused; a smaller one than before evicts nothing.\<close>

definition restart :: "int \<Rightarrow> string \<Rightarrow> ownershipState option \<Rightarrow> fault list \<Rightarrow> tile_manager \<Rightarrow> tile_manager" where
  "restart maxBytes objectPrefix ownership faults m =
     m\<lparr>tm_MaxBytes := maxBytes, tm_ObjectPrefix := objectPrefix, tm_ownership := ownership, tm_accessed := [],
       tm_hits := 0, tm_misses := 0, tm_writes := 0, tm_writeErrors := 0,
       tm_evictions := 0, tm_bytesEvicted := 0, tm_oversized := 0, tm_orphans := 0, tm_faults := faults\<rparr>"

definition NewTileManager :: "int \<Rightarrow> string \<Rightarrow> ownershipState option \<Rightarrow> fault list \<Rightarrow> tile_manager \<Rightarrow> (tc_error + unit) \<times> tile_manager" where
  "NewTileManager maxBytes objectPrefix ownership faults m =
     (if maxBytes \<le> 0 then (Inl InvalidConfig, m) else reconcile (restart maxBytes objectPrefix ownership faults m))"

end
