(* ===== verification/Tile_Cache_Invariants.thy ===== *)
theory Tile_Cache_Invariants
  imports Tile_Cache
begin

text \<open>
  The operations of the persistent tile cache keep its books: the counters of every scope are the
  totals of its ready rows, and the cache is within its size, under every pattern of faults. Proved
  with triples over the state monad, transaction by transaction, then for sequences of operations.
\<close>

section \<open>Triples\<close>

text \<open>From a state with \<open>P\<close>, the outcome and the state after satisfy \<open>Q\<close>.\<close>

definition triple :: "(tile_manager \<Rightarrow> bool) \<Rightarrow> 'a tm \<Rightarrow> (tc_error + 'a \<Rightarrow> tile_manager \<Rightarrow> bool) \<Rightarrow> bool" where
  "triple P a Q = (\<forall>m. P m \<longrightarrow> (case a m of (r, m1) \<Rightarrow> Q r m1))"

abbreviation keeps :: "(tile_manager \<Rightarrow> bool) \<Rightarrow> 'a tm \<Rightarrow> bool" where
  "keeps I a \<equiv> triple I a (\<lambda>_. I)"

lemma tripleI: "(\<And>m r m1. P m \<Longrightarrow> a m = (r, m1) \<Longrightarrow> Q r m1) \<Longrightarrow> triple P a Q"
  by (auto simp: triple_def split: prod.splits)

lemma tripleD: "triple P a Q \<Longrightarrow> P m \<Longrightarrow> a m = (r, m1) \<Longrightarrow> Q r m1"
  by (auto simp: triple_def split: prod.splits)

lemma triple_bind:
  assumes "triple P a (\<lambda>r m. case r of Inl e \<Rightarrow> Q (Inl e) m | Inr x \<Rightarrow> R x m)" "\<And>x. triple (R x) (f x) Q"
  shows "triple P (tbind a f) Q"
proof (rule tripleI)
  fix m r m1 assume p: "P m" and b: "tbind a f m = (r, m1)"
  obtain r0 m0 where a: "a m = (r0, m0)" by fastforce
  show "Q r m1" using tripleD [OF assms(1) p a] b a tripleD [OF assms(2)]
    by (cases r0) (auto simp: tbind_def)
qed

lemma triple_weaken: "triple P a Q \<Longrightarrow> (\<And>m. P' m \<Longrightarrow> P m) \<Longrightarrow> (\<And>r m. Q r m \<Longrightarrow> Q' r m) \<Longrightarrow> triple P' a Q'"
  by (fastforce simp: triple_def split: prod.splits)

lemma triple_ret: "(\<And>m. P m \<Longrightarrow> Q (Inr x) m) \<Longrightarrow> triple P (tret x) Q"
  by (simp add: triple_def tret_def)

lemma triple_fail: "(\<And>m. P m \<Longrightarrow> Q (Inl e) m) \<Longrightarrow> triple P (tfail e) Q"
  by (simp add: triple_def tfail_def)

lemma triple_modify: "(\<And>m. P m \<Longrightarrow> Q (Inr ()) (f m)) \<Longrightarrow> triple P (tmodify f) Q"
  by (simp add: triple_def tmodify_def)

lemma triple_try: "triple P a (\<lambda>r. Q (Inr r)) \<Longrightarrow> triple P (ttry a) Q"
  by (auto simp: triple_def ttry_def split: prod.splits)

lemma triple_fenced:
  assumes "triple P a Q" "\<And>m. P m \<Longrightarrow> Q (Inl OwnershipLostError) m"
  shows "triple P (fenced a) Q"
  using assms by (auto simp: triple_def fenced_def split: prod.splits)

lemma keeps_bind: "keeps I a \<Longrightarrow> (\<And>x. keeps I (f x)) \<Longrightarrow> keeps I (tbind a f)"
  by (rule triple_bind [where R = "\<lambda>_. I"]) (auto elim!: triple_weaken split: sum.splits)

text \<open>A property of the index and the configuration: faults, payloads and counters do not matter to it.\<close>

definition indexed :: "(int \<Rightarrow> metadataIndex \<Rightarrow> bool) \<Rightarrow> tile_manager \<Rightarrow> bool" where
  "indexed J m = J (tm_MaxBytes m) (tm_index m)"

lemma take_fault_indexed [simp]: "take_fault m = (f, m1) \<Longrightarrow> indexed J m1 = indexed J m"
  by (simp add: indexed_def)

lemma triple_query:
  assumes "\<And>m. indexed J m \<Longrightarrow> Q (Inl MetadataError) m" "\<And>m. indexed J m \<Longrightarrow> Q (Inr (q (tm_index m))) m"
  shows "triple (indexed J) (index_query q) Q"
proof (rule tripleI)
  fix m r m1 assume "indexed J m" "index_query q m = (r, m1)"
  moreover obtain f m0 where "take_fault m = (f, m0)" by fastforce
  ultimately have "indexed J m1" "r = Inl MetadataError \<or> r = Inr (q (tm_index m1))"
    by (auto simp: index_query_def split: fault.splits)
  then show "Q r m1" using assms by auto
qed

lemma triple_exec:
  assumes "\<And>m. indexed J m \<Longrightarrow> Q (Inl MetadataError) m"
    and "\<And>m i. indexed J m \<Longrightarrow> q (tm_index m) = Some i \<Longrightarrow> Q (Inr ()) (m\<lparr>tm_index := i\<rparr>)"
  shows "triple (indexed J) (index_exec q) Q"
proof (rule tripleI)
  fix m r m1 assume "indexed J m" "index_exec q m = (r, m1)"
  then show "Q r m1" using assms by (auto simp: index_exec_def split: prod.splits fault.splits option.splits)
qed

lemma triple_blob: "triple (indexed J) (blob_request ops) (\<lambda>_. indexed J)"
  by (rule tripleI) (auto simp: indexed_def blob_request_def blob_effects_def split: prod.splits fault.splits)

lemma triple_blob_Get: "triple (indexed J) (blob_Get key) (\<lambda>_. indexed J)"
  by (rule tripleI) (auto simp: blob_Get_def split: prod.splits fault.splits)

section \<open>The books B\<close>

abbreviation global_scope :: scope where "global_scope \<equiv> (''global'', ''global'')"

text \<open>The counters are the totals of the ready rows, and the cache is within the bound \<open>B\<close>, the largest size
  that was configured: a process that starts with a smaller one does not evict.\<close>

definition books :: "int \<Rightarrow> int \<Rightarrow> metadataIndex \<Rightarrow> bool" where
  "books B maxBytes i =
     (0 < maxBytes \<and> maxBytes \<le> B \<and> index_ok i \<and> plain_workspaces i \<and> fst (scope_total global_scope (mi_entries i)) \<le> B)"

abbreviation cache_ok :: "int \<Rightarrow> tile_manager \<Rightarrow> bool" where "cache_ok B \<equiv> indexed (books B)"

lemma books_remove:
  assumes "books B n i" "agrees e i"
  shows "books B n (remove e i)"
proof -
  have "\<forall>r \<in> set (mi_entries i). 0 \<le> te_SizeBytes (fst r)" using assms(1) by (simp add: books_def index_ok_def rows_ok_def)
  from delete_row_total_le [OF this] assms show ?thesis
    by (auto simp: books_def remove_ok plain_workspaces_def intro: order_trans)
qed

lemma agrees_remove: "agrees e i \<Longrightarrow> agrees e (remove e' i)"
  by (auto simp: agrees_def)

text \<open>Entries that a caller read from the index and holds while only rows are removed.\<close>

definition holding :: "int \<Rightarrow> tile_entry list \<Rightarrow> int \<Rightarrow> metadataIndex \<Rightarrow> bool" where
  "holding B es maxBytes i = (books B maxBytes i \<and> (\<forall>e \<in> set es. agrees e i))"

lemma triple_remove: "triple (indexed (holding B (e # es))) (index_remove e) (\<lambda>_. indexed (holding B es))"
  unfolding index_remove_def
  by (rule triple_exec) (auto simp: indexed_def holding_def intro: books_remove agrees_remove)

lemma holding_books: "indexed (holding B es) m \<Longrightarrow> cache_ok B m"
  by (simp add: indexed_def holding_def)

lemma keeps_remove_each: "triple (indexed (holding B es)) (remove_each es res) (\<lambda>_. cache_ok B)"
proof (induction es arbitrary: res)
  case (Cons e es)
  show ?case unfolding remove_each.simps
    by (rule triple_bind [where R = "\<lambda>_. indexed (holding B es)"], rule triple_try)
      (auto intro!: triple_weaken [OF triple_remove] triple_weaken [OF Cons.IH] triple_ret holding_books split: sum.splits)
qed (auto intro!: triple_ret holding_books)

section \<open>Eviction\<close>

text \<open>Rows other than the protected one may have been removed since \<open>i0\<close>.\<close>

definition shrunk :: "string \<Rightarrow> metadataIndex \<Rightarrow> metadataIndex \<Rightarrow> bool" where
  "shrunk key i0 i = (\<exists>P. mi_entries i = filter P (mi_entries i0) \<and> (\<forall>r. row_key r = key \<longrightarrow> P r))"

definition since :: "int \<Rightarrow> string \<Rightarrow> int \<times> metadataIndex \<Rightarrow> int \<Rightarrow> metadataIndex \<Rightarrow> bool" where
  "since B key i0 maxBytes i = (maxBytes = fst i0 \<and> books B maxBytes i \<and> shrunk key (snd i0) i)"

lemma since_refl: "books B n i \<Longrightarrow> since B key (n, i) n i"
  by (auto simp: since_def shrunk_def intro!: exI [of _ "\<lambda>_. True"])

lemma shrunk_delete: "shrunk key i0 i \<Longrightarrow> te_CacheKey e \<noteq> key \<Longrightarrow> shrunk key i0 (remove e i)"
  by (auto simp: shrunk_def delete_row_def)

lemma since_remove:
  assumes "since B key i0 n i" "(e, Ready) \<in> set (mi_entries i)" "te_CacheKey e \<noteq> key"
  shows "since B key i0 n (remove e i)"
proof -
  have "books B n i" "agrees e i" using assms(1, 2) by (auto simp: since_def books_def intro: agrees_row)
  from books_remove [OF this] assms show ?thesis by (simp add: since_def shrunk_delete)
qed

lemma filter_total_le:
  assumes "\<forall>r \<in> set rows. 0 \<le> te_SizeBytes (fst r)"
  shows "fst (scope_total sc (filter P rows)) \<le> fst (scope_total sc rows)"
  using assms
proof (induction rows)
  case (Cons r rows)
  then show ?case using row_share_nonneg [of r sc] by auto
qed simp

lemma shrunk_usage_le:
  assumes "books B n i0" "books B n' i" "shrunk key i0 i"
  shows "fst (index_usage sc i) \<le> fst (index_usage sc i0)"
proof -
  obtain P where P: "mi_entries i = filter P (mi_entries i0)" using assms(3) by (auto simp: shrunk_def)
  have "index_usage sc i = scope_total sc (mi_entries i)" "index_usage sc i0 = scope_total sc (mi_entries i0)"
    using assms(1, 2) accountedD by (auto simp: books_def)
  moreover have "\<forall>r \<in> set (mi_entries i0). 0 \<le> te_SizeBytes (fst r)" using assms(1) by (simp add: books_def index_ok_def rows_ok_def)
  ultimately show ?thesis unfolding P by (simp add: filter_total_le)
qed

lemma evictUntil_fun:
  "evictUntil sc ident key delta quota =
     tbind (index_query (index_usage sc)) (\<lambda>u.
       if fst u + delta \<le> quota then tret ()
       else tbind (index_query (lru (fst sc) (ti_WorkspaceID ident) (ti_ResourceID ident) key)) (\<lambda>c.
              case c of
                None \<Rightarrow> tfail QuotaUnsatisfiable
              | Some e \<Rightarrow> tbind (blob_Delete (te_ObjectKey e)) (\<lambda>_. tbind (index_remove e) (\<lambda>_.
                  tbind (tmodify (count_eviction e)) (\<lambda>_. evictUntil sc ident key delta quota)))))"
  by (rule ext, subst evictUntil.simps) (auto intro!: tbind_cong split: option.splits)

definition rounds :: "nat \<Rightarrow> (int \<Rightarrow> metadataIndex \<Rightarrow> bool) \<Rightarrow> int \<Rightarrow> metadataIndex \<Rightarrow> bool" where
  "rounds k J n i = (J n i \<and> length (mi_entries i) < k)"

lemma triple_evict_rounds:
  "triple (indexed (rounds k (since B key i0))) (evictUntil sc ident key delta quota)
     (\<lambda>r m. indexed (since B key i0) m \<and> (r = Inr () \<longrightarrow> fst (index_usage sc (tm_index m)) + delta \<le> quota))"
  (is "triple (?P k) _ ?Q")
proof (induction k)
  case 0
  show ?case by (simp add: triple_def indexed_def rounds_def)
next
  case (Suc k)
  let ?J = "\<lambda>e n i. rounds (Suc k) (since B key i0) n i \<and> (e, Ready) \<in> set (mi_entries i) \<and> te_CacheKey e \<noteq> key"
  have rm: "triple (indexed (?J e)) (index_remove e) (\<lambda>r m. case r of Inl e \<Rightarrow> ?Q (Inl e) m | Inr x \<Rightarrow> ?P k m)" for e
    unfolding index_remove_def
  proof (rule triple_exec)
    fix m i assume "indexed (?J e) m" "Some (remove e (tm_index m)) = Some i"
    then show "case Inr () of Inl e \<Rightarrow> ?Q (Inl e) (m\<lparr>tm_index := i\<rparr>) | Inr x \<Rightarrow> ?P k (m\<lparr>tm_index := i\<rparr>)"
      using length_delete_row [of "(e, Ready)" "mi_entries (tm_index m)"]
      by (auto simp: indexed_def rounds_def row_key_def intro: since_remove)
  qed (simp add: indexed_def rounds_def)
  have del: "triple (indexed (?J e)) (blob_Delete (te_ObjectKey e)) (\<lambda>r m. case r of Inl e \<Rightarrow> ?Q (Inl e) m | Inr x \<Rightarrow> indexed (?J e) m)" for e
    unfolding blob_Delete_def by (rule triple_weaken [OF triple_blob [where J = "?J e"]]) (auto simp: indexed_def rounds_def split: sum.splits)
  have step: "triple (indexed (?J e)) (tbind (blob_Delete (te_ObjectKey e)) (\<lambda>_. tbind (index_remove e) (\<lambda>_.
                  tbind (tmodify (count_eviction e)) (\<lambda>_. evictUntil sc ident key delta quota)))) ?Q" for e
    by (rule triple_bind [OF del], rule triple_bind [OF rm], rule triple_bind [where R = "\<lambda>_. ?P k"], rule triple_modify)
      (use Suc in \<open>auto simp: indexed_def count_eviction_def\<close>)
  have pick: "triple (?P (Suc k)) (index_query (lru (fst sc) (ti_WorkspaceID ident) (ti_ResourceID ident) key))
      (\<lambda>r m. case r of Inl e \<Rightarrow> ?Q (Inl e) m | Inr c \<Rightarrow> ?P (Suc k) m \<and> (\<forall>e. c = Some e \<longrightarrow> indexed (?J e) m))"
    by (rule triple_query) (auto simp: indexed_def rounds_def dest: lru_Some)
  have evict: "triple (?P (Suc k)) (tbind (index_query (lru (fst sc) (ti_WorkspaceID ident) (ti_ResourceID ident) key)) (\<lambda>c.
              case c of
                None \<Rightarrow> tfail QuotaUnsatisfiable
              | Some e \<Rightarrow> tbind (blob_Delete (te_ObjectKey e)) (\<lambda>_. tbind (index_remove e) (\<lambda>_.
                  tbind (tmodify (count_eviction e)) (\<lambda>_. evictUntil sc ident key delta quota))))) ?Q"
    by (rule triple_bind [OF pick])
      (auto split: option.splits intro!: triple_fail triple_weaken [OF step] simp: indexed_def rounds_def)
  show ?case
    by (subst evictUntil_fun, rule triple_bind [where R = "\<lambda>u m. ?P (Suc k) m \<and> u = index_usage sc (tm_index m)"], rule triple_query)
      (auto intro!: triple_ret triple_weaken [OF evict] simp: indexed_def rounds_def)
qed

lemma triple_evict: "triple (indexed (since B key i0)) (evictUntil sc ident key delta quota)
  (\<lambda>r m. indexed (since B key i0) m \<and> (r = Inr () \<longrightarrow> fst (index_usage sc (tm_index m)) + delta \<le> quota))"
proof (rule tripleI)
  fix m r m1 assume a: "indexed (since B key i0) m" "evictUntil sc ident key delta quota m = (r, m1)"
  from a(1) have "indexed (rounds (Suc (length (mi_entries (tm_index m)))) (since B key i0)) m" by (simp add: indexed_def rounds_def)
  from tripleD [OF triple_evict_rounds this a(2)]
  show "indexed (since B key i0) m1 \<and> (r = Inr () \<longrightarrow> fst (index_usage sc (tm_index m1)) + delta \<le> quota)" .
qed

lemma shrunk_trans: "shrunk key i0 i1 \<Longrightarrow> shrunk key i1 i2 \<Longrightarrow> shrunk key i0 i2"
  unfolding shrunk_def
proof (elim exE conjE)
  fix P Q assume "mi_entries i1 = filter P (mi_entries i0)" "\<forall>r. row_key r = key \<longrightarrow> P r"
    "mi_entries i2 = filter Q (mi_entries i1)" "\<forall>r. row_key r = key \<longrightarrow> Q r"
  then show "\<exists>P. mi_entries i2 = filter P (mi_entries i0) \<and> (\<forall>r. row_key r = key \<longrightarrow> P r)"
    by (intro exI [of _ "\<lambda>r. P r \<and> Q r"]) (auto intro: filter_cong)
qed

lemma since_trans:
  assumes "indexed (since B key (tm_MaxBytes m, tm_index m)) m1" "indexed (since B key (tm_MaxBytes m1, tm_index m1)) m2"
  shows "indexed (since B key (tm_MaxBytes m, tm_index m)) m2"
  using assms by (auto simp: indexed_def since_def intro: shrunk_trans)

lemma since_usage_le:
  assumes "cache_ok B m" "indexed (since B key (tm_MaxBytes m, tm_index m)) m1"
  shows "fst (index_usage sc (tm_index m1)) \<le> fst (index_usage sc (tm_index m))"
  using assms by (auto simp: indexed_def since_def intro: shrunk_usage_le)

text \<open>After the checks every scope with a quota has room, and the tile that is replaced is still there.\<close>

lemma evict_checks_spec:
  "cache_ok B m \<Longrightarrow> evict_checks ident key delta cs m = (r, m1) \<Longrightarrow>
   indexed (since B key (tm_MaxBytes m, tm_index m)) m1
   \<and> (r = Inr () \<longrightarrow> (\<forall>(sc, quota) \<in> set cs. 0 < quota \<longrightarrow> fst (index_usage sc (tm_index m1)) + delta \<le> quota))"
proof (induction cs arbitrary: m)
  case Nil
  then show ?case by (auto simp: tret_def indexed_def intro: since_refl)
next
  case (Cons c cs)
  obtain sc quota where c: "c = (sc, quota)" by fastforce
  show ?case
  proof (cases "quota \<le> 0")
    case True
    with Cons c show ?thesis by auto
  next
    case False
    obtain r2 m2 where ev: "evictUntil sc ident key delta quota m = (r2, m2)" by fastforce
    have s: "indexed (since B key (tm_MaxBytes m, tm_index m)) m" using Cons.prems(1) by (simp add: indexed_def since_refl)
    note e = tripleD [OF triple_evict s ev]
    then have ok2: "cache_ok B m2" by (auto simp: indexed_def since_def)
    show ?thesis
    proof (cases r2)
      case (Inl err)
      with Cons.prems False c ev e show ?thesis
        by (auto simp: tbind_def ttry_def tmodify_def tfail_def count_writeError_def indexed_def)
    next
      case (Inr x)
      then have rest: "evict_checks ident key delta cs m2 = (r, m1)" using Cons.prems False c ev by (simp add: tbind_def ttry_def)
      note IH = Cons.IH [OF ok2 rest]
      have "fst (index_usage sc (tm_index m1)) + delta \<le> quota" if "r = Inr ()"
        using since_usage_le [OF ok2 conjunct1 [OF IH], of sc] e Inr by simp
      with IH since_trans [OF conjunct1 [OF e] conjunct1 [OF IH]] c show ?thesis by auto
    qed
  qed
qed

section \<open>Writing an entry\<close>

definition prev_size :: "tile_entry option \<Rightarrow> int" where
  "prev_size p = (case p of None \<Rightarrow> 0 | Some e \<Rightarrow> te_SizeBytes e)"

definition replacing :: "int \<Rightarrow> tile_entry \<Rightarrow> tile_entry option \<Rightarrow> int \<Rightarrow> metadataIndex \<Rightarrow> bool" where
  "replacing B e previous n i =
     (books B n i \<and> previous = getReady (te_CacheKey e) i \<and> 0 \<le> te_SizeBytes e \<and> CHR '':'' \<notin> set (ti_WorkspaceID (te_Identity e))
      \<and> fst (scope_total global_scope (mi_entries i)) + te_SizeBytes e - prev_size previous \<le> B)"

text \<open>Between the pending and the ready row: there is room for the new size and for the old one.\<close>

definition mid_write :: "int \<Rightarrow> tile_entry \<Rightarrow> tile_entry option \<Rightarrow> int \<Rightarrow> metadataIndex \<Rightarrow> bool" where
  "mid_write B e previous n i =
     (books B n i \<and> 0 \<le> te_SizeBytes e
      \<and> (\<forall>r \<in> set (mi_entries i). row_key r = te_CacheKey e \<longrightarrow> snd r = Pending \<and> te_Identity (fst r) = te_Identity e)
      \<and> fst (scope_total global_scope (mi_entries i)) + te_SizeBytes e \<le> B
      \<and> (\<forall>p. previous = Some p \<longrightarrow> te_CacheKey p = te_CacheKey e \<and> 0 \<le> te_SizeBytes p \<and> CHR '':'' \<notin> set (ti_WorkspaceID (te_Identity p))
            \<and> fst (scope_total global_scope (mi_entries i)) + te_SizeBytes p \<le> B))"

lemma total_without_previous:
  assumes "index_ok i" "previous = getReady key i" "\<And>p. previous = Some p \<Longrightarrow> sc \<in> set (usage_scopes p)"
  shows "fst (scope_total sc (delete_row key (mi_entries i))) = fst (scope_total sc (mi_entries i)) - prev_size previous"
proof -
  have d: "distinct (map row_key (mi_entries i))" using assms(1) by (simp add: index_ok_def rows_ok_def)
  show ?thesis
  proof (cases previous)
    case None
    show ?thesis
    proof (cases "key \<in> row_key ` set (mi_entries i)")
      case True
      then obtain r where r: "r \<in> set (mi_entries i)" "row_key r = key" by auto
      then show ?thesis using scope_total_delete [OF d r(1)] getReady_None [OF _ r] None assms(2)
        by (simp add: prev_size_def row_share_def in_scope_def)
    qed (simp add: delete_row_absent prev_size_def None)
  next
    case (Some p)
    then have p: "(p, Ready) \<in> set (mi_entries i)" "row_key (p, Ready) = key"
      using getReady_Some [of key i p] assms(2) by (auto simp: row_key_def)
    then show ?thesis using scope_total_delete [OF d p(1)] Some
      by (simp add: prev_size_def row_share_def in_scope_def assms(3))
  qed
qed

lemma markPending_mid:
  assumes pre: "replacing B e previous n i" and m: "markPending now e previous i = Some i'"
  shows "mid_write B e previous n i'"
proof -
  have b: "books B n i" and pv: "previous = getReady (te_CacheKey e) i" and sz: "0 \<le> te_SizeBytes e" and ws: "CHR '':'' \<notin> set (ti_WorkspaceID (te_Identity e))"
    and room: "fst (scope_total global_scope (mi_entries i)) + te_SizeBytes e - prev_size previous \<le> B"
    using pre by (auto simp: replacing_def)
  have ok: "index_ok i" using b by (simp add: books_def)
  then have d: "distinct (map row_key (mi_entries i))" by (simp add: index_ok_def rows_ok_def)
  have tot: "fst (scope_total global_scope (mi_entries i')) = fst (scope_total global_scope (mi_entries i)) - prev_size previous"
    using markPending_total [OF d m] total_without_previous [OF ok pv, of global_scope] by (simp add: usage_scopes_def)
  have p: "(p, Ready) \<in> set (mi_entries i) \<and> te_CacheKey p = te_CacheKey e" if "previous = Some p" for p
    using getReady_Some [of "te_CacheKey e" i p] pv that by auto
  then have psz: "0 \<le> te_SizeBytes p \<and> CHR '':'' \<notin> set (ti_WorkspaceID (te_Identity p))" if "previous = Some p" for p
    using b that unfolding books_def index_ok_def rows_ok_def plain_workspaces_def by fastforce
  have "0 \<le> prev_size previous" using psz by (auto simp: prev_size_def split: option.splits)
  moreover have "index_ok i'" using markPending_ok [OF ok sz] m pv by simp
  ultimately show ?thesis
    using b p psz tot room sz ws markPending_rows(1) [OF m]
    by (auto simp: mid_write_def books_def plain_workspaces_def set_upsert_row prev_size_def split: option.splits)
qed

text \<open>The three ways out of it.\<close>

lemma markReady_books:
  assumes "mid_write B e previous n i" "markReady e i = Some i'"
  shows "books B n i'"
proof -
  have ok: "index_ok i" "rows_ok (mi_entries i)" using assms(1) by (auto simp: mid_write_def books_def index_ok_def)
  have id: "r \<in> set (mi_entries i) \<Longrightarrow> row_key r = te_CacheKey e \<Longrightarrow> te_Identity (fst r) = te_Identity e" for r
    using assms(1) by (auto simp: mid_write_def)
  obtain xs r ys where s: "mi_entries i = xs @ r # ys" "mi_entries i' = xs @ ((fst r)\<lparr>te_SizeBytes := te_SizeBytes e, te_ETag := te_ETag e\<rparr>, Ready) # ys"
    using markReady_rows [OF ok(2) assms(2)] by metis
  have "plain_workspaces i'" using assms(1) by (simp add: mid_write_def books_def plain_workspaces_def s)
  moreover have "index_ok i'" by (rule markReady_ok [OF ok(1) _ assms(2) id]) (use assms(1) in \<open>simp add: mid_write_def\<close>)
  moreover have "fst (scope_total global_scope (mi_entries i')) = fst (scope_total global_scope (mi_entries i)) + te_SizeBytes e"
    using markReady_total [OF ok(2) assms(2) id, of global_scope] by (simp add: usage_scopes_def)
  ultimately show ?thesis using assms(1) by (simp add: mid_write_def books_def)
qed

lemma restore_books:
  assumes "mid_write B e previous n i" "restore_row previous (te_CacheKey e) i = Some i'"
  shows "books B n i'"
proof -
  have ok: "index_ok i" using assms(1) by (auto simp: mid_write_def books_def)
  have nonneg: "\<forall>r \<in> set (mi_entries i). 0 \<le> te_SizeBytes (fst r)" using ok by (simp add: index_ok_def rows_ok_def)
  have ok': "index_ok i'" by (rule restore_ok [OF ok assms(2)]) (use assms(1) in \<open>auto simp: mid_write_def\<close>)
  note le = delete_row_total_le [OF nonneg, of global_scope "te_CacheKey e"]
  show ?thesis
  proof (cases previous)
    case None
    then show ?thesis using assms ok' le by (auto simp: restore_row_def mid_write_def books_def plain_workspaces_def)
  next
    case (Some p)
    then have "mi_entries i' = delete_row (te_CacheKey e) (mi_entries i) @
        [(p\<lparr>te_CreatedAt := unix_milli (te_CreatedAt p), te_LastAccessedAt := unix_milli (te_LastAccessedAt p)\<rparr>, Ready)]"
      using assms(2) by (auto simp: restore_row_def Let_def split: if_splits)
    then show ?thesis using assms(1) ok' le Some
      by (auto simp: mid_write_def books_def plain_workspaces_def row_share_def)
  qed
qed

lemma remove_mid: "mid_write B e previous n i \<Longrightarrow> books B n (remove e i)"
  by (rule books_remove) (auto simp: mid_write_def agrees_def)

lemma keeps_write_entry: "triple (indexed (replacing B e previous)) (write_entry e content now previous) (\<lambda>_. cache_ok B)"
proof -
  let ?M = "indexed (mid_write B e previous)"
  have mid: "?M m \<Longrightarrow> cache_ok B m" for m by (simp add: indexed_def mid_write_def)
  have pend: "triple (indexed (replacing B e previous)) (index_exec (markPending now e previous))
      (\<lambda>r m. case r of Inl err \<Rightarrow> cache_ok B m | Inr x \<Rightarrow> ?M m)"
    by (rule triple_exec) (auto simp: indexed_def replacing_def intro: markPending_mid [unfolded replacing_def])
  have put: "triple ?M (ttry (blob_Put (te_ObjectKey e) content)) (\<lambda>r m. case r of Inl err \<Rightarrow> cache_ok B m | Inr x \<Rightarrow> ?M m)"
    unfolding blob_Put_def by (rule triple_try, rule triple_weaken [OF triple_blob [where J = "mid_write B e previous"]]) auto
  have undone: "triple ?M (ttry (index_exec (restore_row previous (te_CacheKey e)))) (\<lambda>r m. case r of Inl err \<Rightarrow> cache_ok B m | Inr x \<Rightarrow> cache_ok B m)"
    by (rule triple_try, rule triple_exec) (auto simp: mid, auto simp: indexed_def intro: restore_books)
  have ready: "triple ?M (ttry (index_exec (markReady e))) (\<lambda>r m. case r of Inl err \<Rightarrow> cache_ok B m | Inr x \<Rightarrow> (case x of Inl err \<Rightarrow> ?M m | Inr y \<Rightarrow> cache_ok B m))"
    by (rule triple_try, rule triple_exec) (auto simp: indexed_def intro: markReady_books)
  have undo: "triple ?M (ttry (blob_Delete (te_ObjectKey e))) (\<lambda>r m. case r of Inl err \<Rightarrow> cache_ok B m | Inr x \<Rightarrow> ?M m)"
    unfolding blob_Delete_def by (rule triple_try, rule triple_weaken [OF triple_blob [where J = "mid_write B e previous"]]) auto
  have gone: "triple ?M (ttry (index_remove e)) (\<lambda>r m. case r of Inl err \<Rightarrow> cache_ok B m | Inr x \<Rightarrow> cache_ok B m)"
    unfolding index_remove_def by (rule triple_try, rule triple_exec) (auto simp: mid, auto simp: indexed_def intro: remove_mid)
  have fail: "triple (cache_ok B) (tbind (tmodify count_writeError) (\<lambda>_. tfail err)) (\<lambda>_. cache_ok B)" for err :: tc_error
    by (rule keeps_bind) (auto intro!: triple_modify triple_fail simp: indexed_def count_writeError_def)
  have count: "triple (cache_ok B) (tbind (tmodify (\<lambda>m. m\<lparr>tm_writes := tm_writes m + 1\<rparr>)) (\<lambda>_. tret True)) (\<lambda>_. cache_ok B)"
    by (rule keeps_bind) (auto intro!: triple_modify triple_ret simp: indexed_def)
  note rest = triple_bind [OF undone] triple_bind [OF undo] triple_bind [OF gone] triple_weaken [OF fail] triple_weaken [OF count]
  show ?thesis unfolding write_entry_def
    by (rule triple_bind [OF pend], rule triple_bind [OF put])
      (auto split: sum.splits intro!: rest triple_bind [OF ready])
qed

section \<open>Every operation keeps the books B\<close>

lemma find_filter: "(\<And>x. P x \<Longrightarrow> Q x) \<Longrightarrow> find P (filter Q xs) = find P xs"
  by (induction xs) auto

lemma shrunk_getReady: "shrunk key i0 i \<Longrightarrow> getReady key i = getReady key i0"
proof -
  assume "shrunk key i0 i"
  then obtain P where "mi_entries i = filter P (mi_entries i0)" "\<forall>r. row_key r = key \<longrightarrow> P r" unfolding shrunk_def by blast
  then show ?thesis unfolding getReady_def by (metis (mono_tags, lifting) find_filter)
qed

definition put_delta :: "string \<Rightarrow> tile_entry option \<Rightarrow> int" where
  "put_delta content previous = int (length content) - prev_size previous"

lemma evicted_replacing:
  assumes ok: "cache_ok B m" and ws: "CHR '':'' \<notin> set (ti_WorkspaceID ident)"
    and ev: "evict_checks ident (CanonicalKey ident) (put_delta content previous)
        (if put_delta content previous > 0 then quota_checks ident policy (tm_MaxBytes m) else []) m = (Inr (), m1)"
    and pv: "previous = getReady (CanonicalKey ident) (tm_index m)"
  shows "indexed (replacing B (new_entry sha256 objectPrefix ident content now) previous) m1"
proof -
  note e = evict_checks_spec [OF ok ev]
  have s: "books B (tm_MaxBytes m1) (tm_index m1)" "tm_MaxBytes m1 = tm_MaxBytes m" "getReady (CanonicalKey ident) (tm_index m1) = previous"
    using conjunct1 [OF e] pv shrunk_getReady by (auto simp: indexed_def since_def)
  have u: "index_usage global_scope (tm_index m1) = scope_total global_scope (mi_entries (tm_index m1))"
    using s(1) accountedD by (auto simp: books_def)
  have "fst (scope_total global_scope (mi_entries (tm_index m1))) + put_delta content previous \<le> B"
  proof (cases "put_delta content previous > 0")
    case True
    with e have "fst (index_usage global_scope (tm_index m1)) + put_delta content previous \<le> tm_MaxBytes m"
      using s(1, 2) by (auto simp: quota_checks_def books_def)
    with u s(1, 2) show ?thesis by (simp add: books_def)
  next
    case False
    with s(1) show ?thesis by (simp add: books_def)
  qed
  with s ws show ?thesis by (simp add: indexed_def replacing_def new_entry_def put_delta_def)
qed

lemma Put_unfold:
  "put_replacing sha256 ident content policy now previous m =
     tbind (evict_checks ident (CanonicalKey ident) (put_delta content previous)
        (if put_delta content previous > 0 then quota_checks ident policy (tm_MaxBytes m) else []))
       (\<lambda>_. write_entry (new_entry sha256 (tm_ObjectPrefix m) ident content now) content now previous) m"
  by (simp add: put_replacing_def put_delta_def prev_size_def Let_def)

lemma put_replacing_ok:
  assumes "cache_ok B m" "CHR '':'' \<notin> set (ti_WorkspaceID ident)" "previous = getReady (CanonicalKey ident) (tm_index m)"
    and "put_replacing sha256 ident content policy now previous m = (r, m')"
  shows "cache_ok B m'"
proof -
  let ?cs = "if put_delta content previous > 0 then quota_checks ident policy (tm_MaxBytes m) else []"
  obtain r1 m1 where ev: "evict_checks ident (CanonicalKey ident) (put_delta content previous) ?cs m = (r1, m1)" by fastforce
  show ?thesis
  proof (cases r1)
    case (Inl err)
    then have "m' = m1" using assms(4) ev by (simp add: Put_unfold tbind_def)
    with evict_checks_spec [OF assms(1) ev] show ?thesis by (auto simp: indexed_def since_def)
  next
    case (Inr x)
    then have "write_entry (new_entry sha256 (tm_ObjectPrefix m) ident content now) content now previous m1 = (r, m')"
      using assms(4) ev by (simp add: Put_unfold tbind_def)
    from tripleD [OF keeps_write_entry _ this] evicted_replacing [OF assms(1, 2) _ assms(3)] ev Inr show ?thesis by auto
  qed
qed

lemma keeps_Put:
  assumes "CHR '':'' \<notin> set (ti_WorkspaceID ident)"
  shows "keeps (cache_ok B) (Put sha256 ident content policy now)"
proof (rule tripleI)
  fix m r m1 assume ok: "cache_ok B m" and p: "Put sha256 ident content policy now m = (r, m1)"
  obtain q m0 where q: "index_query (getReady (CanonicalKey ident)) m = (q, m0)" by fastforce
  have s: "cache_ok B m0" "q = Inl MetadataError \<or> q = Inr (getReady (CanonicalKey ident) (tm_index m0))"
    using tripleD [OF triple_query [where Q = "\<lambda>q m. cache_ok B m \<and> (q = Inl MetadataError \<or> q = Inr (getReady (CanonicalKey ident) (tm_index m)))"] ok q]
    by auto
  show "cache_ok B m1"
  proof (cases q)
    case (Inl err)
    then show ?thesis using p q s ok
      by (auto simp: Put_def tbind_def count_writeError_def indexed_def split: if_splits)
  next
    case (Inr previous)
    then show ?thesis using p q s ok put_replacing_ok [OF s(1) assms]
      by (auto simp: Put_def tbind_def count_writeError_def indexed_def split: if_splits)
  qed
qed

text \<open>An entry that was just read agrees with its row.\<close>

lemma triple_lookup:
  "triple (cache_ok B) (index_query (getReady key)) (\<lambda>r m. case r of Inl err \<Rightarrow> cache_ok B m | Inr x \<Rightarrow> (case x of None \<Rightarrow> cache_ok B m | Some e \<Rightarrow> indexed (holding B [e]) m))"
  by (rule triple_query) (auto simp: indexed_def holding_def books_def intro: agrees_row dest: getReady_Some(1) split: option.splits)

lemma keeps_repair: "triple (indexed (holding B [e])) (repair e) (\<lambda>_. cache_ok B)"
proof (rule tripleI)
  fix m r m1 assume "indexed (holding B [e]) m" "repair e m = (r, m1)"
  then show "cache_ok B m1" using tripleD [OF triple_remove [of B e "[]"], of m] holding_books
    by (auto simp: repair_def split: if_splits) (metis prod.collapse holding_books)
qed

lemma keeps_read:
  assumes "\<And>e. triple (indexed (holding B [e])) (found e) (\<lambda>_. cache_ok B)" "keeps (cache_ok B) absent"
  shows "keeps (cache_ok B) (tbind (index_query (getReady key)) (\<lambda>r. case r of None \<Rightarrow> absent | Some e \<Rightarrow> found e))"
  by (rule triple_bind [OF triple_lookup]) (auto split: option.splits intro: assms)

lemma keeps_after_blob:
  assumes "triple (indexed (holding B [e])) missing (\<lambda>_. cache_ok B)" "\<And>c. triple (indexed (holding B [e])) (present c) (\<lambda>_. cache_ok B)"
  shows "triple (indexed (holding B [e])) (tbind (blob_Get key) (\<lambda>b. case b of None \<Rightarrow> missing | Some c \<Rightarrow> present c)) (\<lambda>_. cache_ok B)"
  by (rule triple_bind [where R = "\<lambda>_. indexed (holding B [e])"], rule triple_weaken [OF triple_blob_Get [where J = "holding B [e]"]])
    (auto split: option.splits sum.splits intro: assms holding_books)

lemma keeps_Get: "keeps (cache_ok B) (Get_tile ident now)"
proof -
  have miss: "triple (indexed (holding B [e])) (tbind (repair e) (\<lambda>_. tbind (tmodify (\<lambda>m. m\<lparr>tm_misses := tm_misses m + 1, tm_orphans := tm_orphans m + 1\<rparr>)) (\<lambda>_. tret None))) (\<lambda>_. cache_ok B)" for e
    by (rule triple_bind [where R = "\<lambda>_. cache_ok B"], rule triple_weaken [OF keeps_repair])
      (auto split: sum.splits intro!: keeps_bind triple_modify triple_ret simp: indexed_def)
  have hit: "triple (indexed (holding B [e])) (tbind (tmodify f) (\<lambda>_. tret x)) (\<lambda>_. cache_ok B)"
    if "\<And>m. tm_MaxBytes (f m) = tm_MaxBytes m \<and> tm_index (f m) = tm_index m" for e f and x :: "(string \<times> tile_entry) option"
    by (rule triple_bind [where R = "\<lambda>_. cache_ok B"], rule triple_modify)
      (use that in \<open>auto simp: indexed_def holding_def intro!: triple_ret\<close>)
  have absent: "keeps (cache_ok B) (tbind (tmodify (\<lambda>m. m\<lparr>tm_misses := tm_misses m + 1\<rparr>)) (\<lambda>_. tret None))"
    by (rule keeps_bind) (auto intro!: triple_modify triple_ret simp: indexed_def)
  show ?thesis unfolding Get_tile_def Get_entry_def Let_def
    by (auto intro!: triple_fail keeps_read keeps_after_blob miss hit absent)
qed

lemma keeps_Exists: "keeps (cache_ok B) (Exists_tile ident)"
proof -
  have miss: "triple (indexed (holding B [e])) (tbind (repair e) (\<lambda>_. tbind (tmodify (\<lambda>m. m\<lparr>tm_orphans := tm_orphans m + 1\<rparr>)) (\<lambda>_. tret False))) (\<lambda>_. cache_ok B)" for e
    by (rule triple_bind [where R = "\<lambda>_. cache_ok B"], rule triple_weaken [OF keeps_repair])
      (auto split: sum.splits intro!: keeps_bind triple_modify triple_ret simp: indexed_def)
  show ?thesis unfolding Exists_tile_def
    by (auto intro!: triple_fail keeps_read keeps_after_blob miss triple_ret simp: indexed_def holding_def)
qed

lemma keeps_DeleteIdentity: "keeps (cache_ok B) (DeleteIdentity ident)"
proof -
  have del: "triple (indexed (holding B [e])) (tbind (blob_Delete (te_ObjectKey e)) (\<lambda>_. tbind (index_remove e) (\<lambda>_. tret x))) (\<lambda>_. cache_ok B)" for e and x :: delete_result
    unfolding blob_Delete_def
    by (rule triple_bind [where R = "\<lambda>_. indexed (holding B [e])"], rule triple_weaken [OF triple_blob [where J = "holding B [e]"]])
      (auto split: sum.splits intro!: triple_bind [where R = "\<lambda>_. cache_ok B"] triple_weaken [OF triple_remove [of B e "[]"]] triple_ret holding_books)
  show ?thesis unfolding DeleteIdentity_def by (auto intro!: triple_fail triple_fenced keeps_read del triple_ret)
qed

text \<open>The delete loop, by the number of rows.\<close>

lemma delete_all_fun:
  "delete_all s res =
     tbind (ttry (index_query (selectEntries s 500))) (\<lambda>q.
       case q of
         Inl e \<Rightarrow> tret (res, Some e)
       | Inr es \<Rightarrow>
           if es = [] then tret (res, None)
           else tbind (ttry (blob_DeleteBatch (map te_ObjectKey es))) (\<lambda>d.
                  case d of
                    Inl e \<Rightarrow> tret (res, Some e)
                  | Inr _ \<Rightarrow> tbind (remove_each es res) (\<lambda>r. case r of (res', Some e) \<Rightarrow> tret (res', Some e) | (res', None) \<Rightarrow> delete_all s res')))"
  by (rule ext, subst delete_all.simps) (auto intro!: tbind_cong split: option.splits sum.splits)

lemma delete_all_step:
  assumes "index_query (selectEntries s 500) m = (q, m2)"
  shows "delete_all s res m =
    (case q of
       Inl e \<Rightarrow> (Inr (res, Some e), m2)
     | Inr es \<Rightarrow>
         if es = [] then (Inr (res, None), m2)
         else case blob_DeleteBatch (map te_ObjectKey es) m2 of
                (Inl e, m3) \<Rightarrow> (Inr (res, Some e), m3)
              | (Inr _, m3) \<Rightarrow> (case remove_each es res m3 of
                    (Inl e, m4) \<Rightarrow> (Inl e, m4)
                  | (Inr (r, Some e), m4) \<Rightarrow> (Inr (r, Some e), m4)
                  | (Inr (r, None), m4) \<Rightarrow> delete_all s r m4))"
  by (subst delete_all_fun) (use assms in \<open>auto simp: tbind_def ttry_def tret_def split: sum.splits option.splits prod.splits\<close>)

lemma delete_all_ok: "cache_ok B m \<Longrightarrow> delete_all s res m = (r, m1) \<Longrightarrow> cache_ok B m1"
proof (induction s res m arbitrary: r rule: delete_all.induct)
  case (1 s res m)
  obtain q m2 where q: "index_query (selectEntries s 500) m = (q, m2)" by fastforce
  have s2: "cache_ok B m2 \<and> (\<forall>es. q = Inr es \<longrightarrow> indexed (holding B es) m2)"
    by (rule tripleD [OF triple_query 1(2) q])
      (auto simp: indexed_def holding_def books_def intro: agrees_row dest: selectEntries_subset)
  show ?case
  proof (cases "\<exists>es. q = Inr es \<and> es \<noteq> []")
    case False
    then show ?thesis using 1(3) delete_all_step [OF q] s2 by (auto split: sum.splits)
  next
    case True
    then obtain es where es: "q = Inr es" "es \<noteq> []" by blast
    obtain d m3 where d: "blob_DeleteBatch (map te_ObjectKey es) m2 = (d, m3)" by fastforce
    have s3: "indexed (holding B es) m3" using tripleD [OF triple_blob _ d [unfolded blob_DeleteBatch_def]] s2 es by blast
    obtain x m4 where x: "remove_each es res m3 = (x, m4)" by fastforce
    have s4: "cache_ok B m4" by (rule tripleD [OF keeps_remove_each s3 x])
    note step = delete_all_step [OF q, of res, unfolded es(1)]
    show ?thesis
    proof (cases "\<exists>res'. d = Inr () \<and> x = Inr (res', None)")
      case True
      then obtain res' where x': "d = Inr ()" "x = Inr (res', None)" by blast
      then have "delete_all s res' m4 = (r, m1)" using step es(2) d x 1(3) by simp
      with 1(1) [of q m2 es d m3 "()" "(res', None)" m4 res' None] x' es q d x s4 show ?thesis by (simp add: ttry_def)
    next
      case False
      with step es(2) d x 1(3) holding_books [OF s3] s4 show ?thesis
        by (auto split: sum.splits option.splits prod.splits)
    qed
  qed
qed

section \<open>Deletes are complete\<close>

definition doomed :: "tile_selector \<Rightarrow> tile_row \<Rightarrow> bool" where
  "doomed s r = (snd r = Ready \<and> selected s (te_Identity (fst r)))"

definition tally :: "tile_row list \<Rightarrow> delete_result" where
  "tally rows = \<lparr>dr_Entries = int (length rows), dr_Bytes = (\<Sum>r\<leftarrow>rows. te_SizeBytes (fst r))\<rparr>"

definition add_result :: "delete_result \<Rightarrow> delete_result \<Rightarrow> delete_result" where
  "add_result a b = \<lparr>dr_Entries = dr_Entries a + dr_Entries b, dr_Bytes = dr_Bytes a + dr_Bytes b\<rparr>"

lemma remove_each_tally:
  "remove_each es res m = (Inr (res', None), m1) \<Longrightarrow> res' = add_result res (tally (map (\<lambda>e. (e, Ready)) es))"
proof (induction es arbitrary: res m)
  case (Cons e es)
  obtain r m2 where "index_remove e m = (r, m2)" by fastforce
  with Cons.prems have "remove_each es \<lparr>dr_Entries = dr_Entries res + 1, dr_Bytes = dr_Bytes res + te_SizeBytes e\<rparr> m2 = (Inr (res', None), m1)"
    by (auto simp: tbind_def ttry_def tret_def split: sum.splits)
  from Cons.IH [OF this] show ?case by (simp add: add_result_def tally_def)
qed (simp add: tret_def add_result_def tally_def)

text \<open>One batch takes exactly its own rows out of the doomed ones.\<close>

lemma tally_mset: "mset xs = mset ys \<Longrightarrow> tally xs = tally ys"
proof -
  assume m: "mset xs = mset ys"
  have "(\<Sum>r\<leftarrow>zs. te_SizeBytes (fst r)) = sum_mset (image_mset (\<lambda>r. te_SizeBytes (fst r)) (mset zs))" for zs :: "tile_row list"
    by (metis mset_map sum_mset_sum_list)
  with m show ?thesis by (simp add: tally_def mset_eq_length [OF m])
qed

lemma tally_append: "tally (xs @ ys) = add_result (tally xs) (tally ys)"
  by (simp add: tally_def add_result_def)

lemma batch_tally:
  assumes ok: "rows_ok rows" and es: "es = take n (map fst (sort_key row_key (filter (doomed s) rows)))"
  shows "add_result (tally (map (\<lambda>e. (e, Ready)) es)) (tally (filter (doomed s) (filter (\<lambda>r. row_key r \<notin> te_CacheKey ` set es) rows)))
    = tally (filter (doomed s) rows)"
proof -
  let ?sorted = "sort_key row_key (filter (doomed s) rows)"
  have ready: "map (\<lambda>e. (e, Ready)) (map fst (take n ?sorted)) = take n ?sorted"
    by (auto simp: doomed_def intro!: map_idI dest!: in_set_takeD)
  have es': "es = map fst (take n ?sorted)" using es by (simp add: take_map)
  have keys: "te_CacheKey ` set es = row_key ` set (take n ?sorted)" by (auto simp: es' row_key_def)
  have "distinct (map row_key (filter (doomed s) rows))" using ok by (auto simp: rows_ok_def distinct_map inj_on_def)
  then have "distinct (map row_key (take n ?sorted @ drop n ?sorted))"
    unfolding append_take_drop_id distinct_map_sort_key .
  then have free: "filter (\<lambda>r. row_key r \<notin> row_key ` set (take n ?sorted)) (take n ?sorted @ drop n ?sorted) = drop n ?sorted"
    by (simp only: filter_append map_append distinct_append set_map) (auto simp: filter_empty_conv filter_id_conv)
  have m: "mset (filter (doomed s) (filter (\<lambda>r. row_key r \<notin> te_CacheKey ` set es) rows)) = mset (drop n ?sorted)"
  proof -
    have "mset (filter (doomed s) (filter (\<lambda>r. row_key r \<notin> te_CacheKey ` set es) rows))
        = mset (filter (\<lambda>r. row_key r \<notin> te_CacheKey ` set es) ?sorted)"
      by (simp add: filter_sort conj_commute del: mset_filter)
    also have "\<dots> = mset (drop n ?sorted)" using free unfolding keys append_take_drop_id by (rule arg_cong)
    finally show ?thesis .
  qed
  have "tally (filter (doomed s) rows) = tally (take n ?sorted @ drop n ?sorted)" by (rule tally_mset) simp
  also have "\<dots> = add_result (tally (take n ?sorted)) (tally (drop n ?sorted))" by (rule tally_append)
  finally show ?thesis using tally_mset [OF m] ready by (simp add: es')
qed

lemma selectEntries_doomed: "selectEntries s n i = take n (map fst (sort_key row_key (filter (doomed s) (mi_entries i))))"
proof -
  have "(\<lambda>r. snd r = Ready \<and> selected s (te_Identity (fst r))) = doomed s" by (auto simp: doomed_def fun_eq_iff)
  then show ?thesis by (simp add: selectEntries_def)
qed

text \<open>The rows of one batch are doomed; what is left is what was not in it.\<close>

lemma batch_kept:
  assumes "rows_ok rows" "es = take n (map fst (sort_key row_key (filter (doomed s) rows)))"
  shows "filter (\<lambda>r. \<not> doomed s r) (filter (\<lambda>r. row_key r \<notin> te_CacheKey ` set es) rows) = filter (\<lambda>r. \<not> doomed s r) rows"
proof -
  have "doomed s r" if "r \<in> set rows" "row_key r \<in> te_CacheKey ` set es" for r
  proof -
    obtain e where e: "e \<in> set es" "row_key r = te_CacheKey e" using \<open>row_key r \<in> te_CacheKey ` set es\<close> by blast
    then obtain q where q: "q \<in> set rows" "doomed s q" "e = fst q" unfolding assms(2) by (auto dest!: in_set_takeD)
    with e(2) same_row [OF assms(1) that(1) q(1)] show ?thesis by (simp add: row_key_def)
  qed
  then show ?thesis by (auto intro: filter_cong)
qed

lemma delete_all_complete:
  "rows_ok (mi_entries (tm_index m)) \<Longrightarrow> delete_all s res m = (Inr (res', None), m1) \<Longrightarrow>
   mi_entries (tm_index m1) = filter (\<lambda>r. \<not> doomed s r) (mi_entries (tm_index m))
   \<and> res' = add_result res (tally (filter (doomed s) (mi_entries (tm_index m))))"
proof (induction s res m rule: delete_all.induct)
  case (1 s res m)
  obtain q0 m2 where q0: "index_query (selectEntries s 500) m = (q0, m2)" by fastforce
  with 1(3) obtain es where q: "index_query (selectEntries s 500) m = (Inr es, m2)"
    by (cases q0) (auto simp: delete_all_step)
  note step = delete_all_step [OF q, of res]
  have es: "es = take 500 (map fst (sort_key row_key (filter (doomed s) (mi_entries (tm_index m)))))" and i2: "tm_index m2 = tm_index m"
    using index_query_Inr [OF q] by (simp_all add: selectEntries_doomed)
  show ?case
  proof (cases "es = []")
    case True
    then have "filter (doomed s) (mi_entries (tm_index m)) = []" using es by simp (metis mset_sort mset_zero_iff)
    moreover from this have "filter (\<lambda>r. \<not> doomed s r) (mi_entries (tm_index m)) = mi_entries (tm_index m)"
      by (simp add: filter_empty_conv filter_id_conv)
    moreover have "res' = res" "m1 = m2" using 1(3) step True by simp_all
    ultimately show ?thesis using i2 by (simp add: tally_def add_result_def)
  next
    case False
    obtain d m3 where d: "blob_DeleteBatch (map te_ObjectKey es) m2 = (d, m3)" by fastforce
    obtain x m4 where x: "remove_each es res m3 = (x, m4)" by fastforce
    with 1(3) d step False obtain r2 where x2: "d = Inr ()" "x = Inr (r2, None)" "delete_all s r2 m4 = (Inr (res', None), m1)"
      by (auto split: sum.splits option.splits prod.splits)
    have i3: "tm_index m3 = tm_index m" using blob_request_index d i2 by (simp add: blob_DeleteBatch_def)
    have rows: "mi_entries (tm_index m4) = filter (\<lambda>r. row_key r \<notin> te_CacheKey ` set es) (mi_entries (tm_index m))"
      using remove_each_rows x x2(2) i3 by metis
    have ok4: "rows_ok (mi_entries (tm_index m4))" using 1(2) unfolding rows by (auto simp: rows_ok_def distinct_map inj_on_def)
    note IH = 1(1) [of "Inr es" m2 es d m3 "()" "(r2, None)" m4 r2 None, OF _ refl False _ _ _ refl refl ok4 x2(3)]
    have "mi_entries (tm_index m1) = filter (\<lambda>r. \<not> doomed s r) (mi_entries (tm_index m4))
        \<and> res' = add_result r2 (tally (filter (doomed s) (mi_entries (tm_index m4))))"
      by (rule IH) (use q d x x2 in \<open>auto simp: ttry_def\<close>)
    moreover have "r2 = add_result res (tally (map (\<lambda>e. (e, Ready)) es))" using remove_each_tally x x2(2) by metis
    ultimately show ?thesis unfolding rows batch_kept [OF 1(2) es] using batch_tally [OF 1(2) es, symmetric] by (simp add: add_result_def)
  qed
qed

text \<open>The payloads: those of the deleted tiles are gone, all others are as before.\<close>

definition payload_keys :: "tile_row list \<Rightarrow> string set" where
  "payload_keys rows = (\<lambda>r. te_ObjectKey (fst r)) ` set rows"

lemma blob_DeleteBatch_Inr:
  assumes "blob_DeleteBatch keys m = (Inr x, m1)"
  shows "map_of (tm_blobs m1) k = (if k \<in> set keys then None else map_of (tm_blobs m) k)"
proof -
  have fold: "map_of (fold (\<lambda>(k, v). case v of None \<Rightarrow> AList.delete k | Some c \<Rightarrow> AList.update k c) (map (\<lambda>k. (k, None)) ks) bs) k =
      (if k \<in> set ks then None else map_of bs k)" for ks and bs :: "(string, string) gomap"
    by (induction ks arbitrary: bs) (simp_all add: gomap_simps)
  show ?thesis using assms fold by (auto simp: blob_DeleteBatch_def blob_request_def blob_effects_def split: prod.splits fault.splits)
qed

lemma remove_each_blobs: "remove_each es res m = (r, m1) \<Longrightarrow> tm_blobs m1 = tm_blobs m"
proof (induction es arbitrary: res m)
  case (Cons e es)
  obtain q m2 where q: "index_remove e m = (q, m2)" by fastforce
  then have "tm_blobs m2 = tm_blobs m"
    by (auto simp: index_remove_def index_exec_def split: prod.splits fault.splits option.splits)
  with Cons q show ?case by (cases q) (auto simp: tbind_def ttry_def tret_def)
qed (simp add: tret_def)

lemma batch_payloads:
  assumes "rows_ok rows" "es = take n (map fst (sort_key row_key (filter (doomed s) rows)))"
  shows "payload_keys (filter (doomed s) rows) =
    te_ObjectKey ` set es \<union> payload_keys (filter (doomed s) (filter (\<lambda>r. row_key r \<notin> te_CacheKey ` set es) rows))"
proof -
  have sub: "\<exists>q \<in> set rows. doomed s q \<and> e = fst q" if "e \<in> set es" for e
    using that unfolding assms(2) by (auto dest!: in_set_takeD)
  have own: "fst r \<in> set es" if "r \<in> set rows" "row_key r \<in> te_CacheKey ` set es" for r
  proof -
    obtain e where e: "e \<in> set es" "row_key r = te_CacheKey e" using \<open>row_key r \<in> te_CacheKey ` set es\<close> by blast
    then obtain q where "q \<in> set rows" "e = fst q" using sub by blast
    with e same_row [OF assms(1) that(1)] show ?thesis by (simp add: row_key_def)
  qed
  show ?thesis (is "?L = ?E \<union> ?R")
  proof (rule set_eqI, rule iffI)
    fix k assume "k \<in> ?L"
    then obtain r where r: "r \<in> set rows" "doomed s r" "k = te_ObjectKey (fst r)" by (auto simp: payload_keys_def)
    show "k \<in> ?E \<union> ?R"
    proof (cases "row_key r \<in> te_CacheKey ` set es")
      case True
      then have "fst r \<in> set es" by (rule own [OF r(1)])
      then show ?thesis unfolding r(3) by blast
    next
      case False
      with r(1, 2) have "r \<in> set (filter (doomed s) (filter (\<lambda>r. row_key r \<notin> te_CacheKey ` set es) rows))" by simp
      then show ?thesis unfolding r(3) payload_keys_def by blast
    qed
  next
    fix k assume "k \<in> ?E \<union> ?R"
    then consider e where "e \<in> set es" "k = te_ObjectKey e" | "k \<in> ?R" by blast
    then show "k \<in> ?L"
    proof cases
      case 1
      from sub [OF 1(1)] obtain q where "q \<in> set (filter (doomed s) rows)" "e = fst q" by auto
      then show ?thesis unfolding 1(2) payload_keys_def by blast
    qed (auto simp: payload_keys_def)
  qed
qed

lemma delete_all_payloads:
  "rows_ok (mi_entries (tm_index m)) \<Longrightarrow> delete_all s res m = (Inr (res', None), m1) \<Longrightarrow>
   map_of (tm_blobs m1) k = (if k \<in> payload_keys (filter (doomed s) (mi_entries (tm_index m))) then None else map_of (tm_blobs m) k)"
proof (induction s res m rule: delete_all.induct)
  case (1 s res m)
  obtain q0 m2 where q0: "index_query (selectEntries s 500) m = (q0, m2)" by fastforce
  with 1(3) obtain es where q: "index_query (selectEntries s 500) m = (Inr es, m2)"
    by (cases q0) (auto simp: delete_all_step)
  note step = delete_all_step [OF q, of res]
  have es: "es = take 500 (map fst (sort_key row_key (filter (doomed s) (mi_entries (tm_index m)))))"
    and i2: "tm_index m2 = tm_index m" "tm_blobs m2 = tm_blobs m"
    using index_query_Inr [OF q] q by (auto simp: selectEntries_doomed index_query_def split: prod.splits fault.splits)
  show ?case
  proof (cases "es = []")
    case True
    then have "filter (doomed s) (mi_entries (tm_index m)) = []" using es by simp (metis mset_sort mset_zero_iff)
    moreover have "m1 = m2" using 1(3) step True by simp
    ultimately show ?thesis using i2 by (simp add: payload_keys_def)
  next
    case False
    obtain d m3 where d: "blob_DeleteBatch (map te_ObjectKey es) m2 = (d, m3)" by fastforce
    obtain x m4 where x: "remove_each es res m3 = (x, m4)" by fastforce
    with 1(3) d step False obtain r2 where x2: "d = Inr ()" "x = Inr (r2, None)" "delete_all s r2 m4 = (Inr (res', None), m1)"
      by (auto split: sum.splits option.splits prod.splits)
    have i3: "tm_index m3 = tm_index m" using blob_request_index d i2 by (simp add: blob_DeleteBatch_def)
    have rows: "mi_entries (tm_index m4) = filter (\<lambda>r. row_key r \<notin> te_CacheKey ` set es) (mi_entries (tm_index m))"
      using remove_each_rows x x2(2) i3 by metis
    have ok4: "rows_ok (mi_entries (tm_index m4))" using 1(2) unfolding rows by (auto simp: rows_ok_def distinct_map inj_on_def)
    note IH = 1(1) [of "Inr es" m2 es d m3 "()" "(r2, None)" m4 r2 None, OF _ refl False _ _ _ refl refl ok4 x2(3)]
    have "map_of (tm_blobs m1) k = (if k \<in> payload_keys (filter (doomed s) (mi_entries (tm_index m4))) then None else map_of (tm_blobs m4) k)"
      by (rule IH) (use q d x x2 in \<open>auto simp: ttry_def\<close>)
    moreover have "map_of (tm_blobs m4) k = (if k \<in> te_ObjectKey ` set es then None else map_of (tm_blobs m) k)"
      using blob_DeleteBatch_Inr d x2(1) remove_each_blobs [OF x] i2(2) by simp
    ultimately show ?thesis unfolding batch_payloads [OF 1(2) es] rows by auto
  qed
qed

section \<open>Maintenance and lifecycle\<close>

lemma doomed_workspace:
  "doomed (workspace_selector ws x) r \<longleftrightarrow> snd r = Ready \<and> (ws \<noteq> [] \<longrightarrow> ti_WorkspaceID (te_Identity (fst r)) = ws)
     \<and> (x \<noteq> [] \<longrightarrow> ti_ResourceID (te_Identity (fst r)) = x)"
  by (simp add: doomed_def selected_def workspace_selector_def)

lemma delete_scopes_spec:
  "cache_ok B m \<Longrightarrow> delete_scopes ws rs res m = (r, m1) \<Longrightarrow>
   cache_ok B m1 \<and> (\<forall>res'. r = Inr (res', None) \<longrightarrow>
     mi_entries (tm_index m1) = filter (\<lambda>q. \<forall>x \<in> set rs. \<not> doomed (workspace_selector ws x) q) (mi_entries (tm_index m)))"
proof (induction rs arbitrary: res m)
  case Nil
  then show ?case by (simp add: tret_def)
next
  case (Cons x rs)
  obtain d m2 where d: "delete_all (workspace_selector ws x) no_deletes m = (d, m2)" by fastforce
  have ok2: "cache_ok B m2" by (rule delete_all_ok [OF Cons.prems(1) d])
  show ?case
  proof (cases "\<exists>res'. d = Inr (res', None)")
    case True
    then obtain res' where d': "d = Inr (res', None)" by blast
    have rok: "rows_ok (mi_entries (tm_index m))" using Cons.prems(1) by (simp add: indexed_def books_def index_ok_def)
    have rest: "delete_scopes ws rs \<lparr>dr_Entries = dr_Entries res + dr_Entries res', dr_Bytes = dr_Bytes res + dr_Bytes res'\<rparr> m2 = (r, m1)"
      using Cons.prems(2) d d' by (simp add: tbind_def)
    from Cons.IH [OF ok2 rest] delete_all_complete [OF rok d [unfolded d']] show ?thesis by simp
  next
    case False
    then show ?thesis using Cons.prems(2) d ok2 by (cases d) (auto simp: tbind_def tret_def split: option.splits)
  qed
qed

lemma index_usage_jobs [simp]: "index_usage sc (i\<lparr>mi_jobs := t\<rparr>) = index_usage sc i"
  by (simp add: index_usage_def)

lemma books_jobs [simp]: "books B n (i\<lparr>mi_jobs := t\<rparr>) = books B n i"
  by (simp add: books_def index_ok_def accounted_def plain_workspaces_def)

lemma keeps_job_exec: "triple (\<lambda>m. cache_ok B m \<and> P (mi_entries (tm_index m))) (job_exec q) (\<lambda>_ m. cache_ok B m \<and> P (mi_entries (tm_index m)))"
proof (rule tripleI)
  fix m r m1 assume a: "cache_ok B m \<and> P (mi_entries (tm_index m))" "job_exec q m = (r, m1)"
  obtain f m0 where "take_fault m = (f, m0)" by fastforce
  with a show "cache_ok B m1 \<and> P (mi_entries (tm_index m1))"
    by (auto simp: job_exec_def indexed_def split: fault.splits sum.splits prod.splits)
qed

lemma keeps_job: "keeps (cache_ok B) (fenced (job_exec q))"
  using keeps_job_exec [of B "\<lambda>_. True" q] by (auto intro: triple_fenced)

lemma purge_books:
  assumes "books B n i" "CHR '':'' \<notin> set ws" "\<forall>r \<in> set (mi_entries i). \<not> purged_scopes ws rs r"
  shows "books B n (purgeLifecycleUsage ws rs i)"
  using assms purge_ok [of i ws rs] by (auto simp: books_def plain_workspaces_def purgeLifecycleUsage_def)

lemma keeps_purge_usage:
  assumes "CHR '':'' \<notin> set ws"
  shows "triple (indexed (\<lambda>n i. books B n i \<and> (\<forall>r \<in> set (mi_entries i). \<forall>x \<in> set rs. \<not> purged_scopes ws [x] r))) (purge_usage ws rs) (\<lambda>_. cache_ok B)"
proof (induction rs)
  case Nil
  then show ?case by (auto intro!: triple_ret simp: indexed_def)
next
  case (Cons x rs)
  show ?case unfolding purge_usage.simps
    by (rule triple_bind [OF _ Cons.IH], rule triple_exec)
      (auto simp: indexed_def purge_books assms, simp add: purgeLifecycleUsage_def)
qed

text \<open>The scope holds no ready row once its tiles are deleted.\<close>

definition emptied :: "int \<Rightarrow> string \<Rightarrow> string list \<Rightarrow> int \<Rightarrow> metadataIndex \<Rightarrow> bool" where
  "emptied B ws rs n i =
     (books B n i \<and> (\<forall>r \<in> set (mi_entries i). \<forall>x \<in> set (if rs = [] then [[]] else rs). \<not> doomed (workspace_selector ws x) r))"

lemma keeps_purge_rest:
  assumes ws: "CHR '':'' \<notin> set ws"
  shows "triple (indexed (emptied B ws rs)) (purge_rest ws rs res) (\<lambda>_. cache_ok B)"
proof -
  let ?E = "indexed (emptied B ws rs)"
  have jobs: "triple ?E (ttry (job_exec (purgeLifecycleJobs ws rs))) (\<lambda>r m. case r of Inl e \<Rightarrow> cache_ok B m | Inr x \<Rightarrow> ?E m)"
    by (rule triple_try, rule triple_weaken [OF keeps_job_exec [of B "\<lambda>rows. \<forall>r \<in> set rows. \<forall>x \<in> set (if rs = [] then [[]] else rs). \<not> doomed (workspace_selector ws x) r"]])
      (auto simp: indexed_def emptied_def)
  have whole: "triple ?E (ttry (index_exec (\<lambda>i. Some (purgeLifecycleUsage ws [] i)))) (\<lambda>_. cache_ok B)" if "rs = []"
    by (rule triple_weaken [where P = "indexed (\<lambda>n i. books B n i \<and> (\<forall>r \<in> set (mi_entries i). \<not> purged_scopes ws [] r))"], rule triple_try, rule triple_exec)
      (use that in \<open>auto simp: indexed_def emptied_def purge_books ws doomed_workspace purged_scopes_def\<close>)
  have each: "triple ?E (ttry (purge_usage ws rs)) (\<lambda>_. cache_ok B)" if "rs \<noteq> []"
    by (rule triple_weaken [OF triple_try [where Q = "\<lambda>_. cache_ok B", OF keeps_purge_usage [OF ws]]])
      (use that in \<open>auto simp: indexed_def emptied_def doomed_workspace purged_scopes_def\<close>)
  have usage: "triple ?E (ttry (if rs = [] then index_exec (\<lambda>i. Some (purgeLifecycleUsage ws [] i)) else purge_usage ws rs)) (\<lambda>_. cache_ok B)"
    using whole each by simp
  have tail: "triple ?E (tbind (ttry (if rs = [] then index_exec (\<lambda>i. Some (purgeLifecycleUsage ws [] i)) else purge_usage ws rs)) (\<lambda>u. tret (f u))) (\<lambda>_. cache_ok B)" for f :: "_ \<Rightarrow> delete_result \<times> int \<times> tc_error option"
    by (rule triple_bind [where R = "\<lambda>_. cache_ok B"], rule triple_weaken [OF usage]) (auto intro: triple_ret split: sum.splits)
  have err: "triple ?E (tret y) (\<lambda>_. cache_ok B)" for y :: "delete_result \<times> int \<times> tc_error option"
    by (rule triple_ret) (simp add: indexed_def emptied_def)
  show ?thesis unfolding purge_rest_def by (rule triple_bind [OF jobs]) (use tail err in \<open>auto split: sum.splits\<close>)
qed

lemma keeps_PurgeLifecycle:
  assumes ws: "CHR '':'' \<notin> set ws"
  shows "keeps (cache_ok B) (PurgeLifecycle ws rs)"
proof -
  let ?xs = "if rs = [] then [[]] else rs"
  let ?R = "\<lambda>x m. cache_ok B m \<and> (snd x = None \<longrightarrow> indexed (emptied B ws rs) m)"
  have del: "triple (cache_ok B) (delete_scopes ws ?xs no_deletes) (\<lambda>r m. case r of Inl e \<Rightarrow> cache_ok B m | Inr x \<Rightarrow> ?R x m)"
  proof (rule tripleI)
    fix m r m1 assume "cache_ok B m" "delete_scopes ws ?xs no_deletes m = (r, m1)"
    from delete_scopes_spec [OF this] show "case r of Inl e \<Rightarrow> cache_ok B m1 | Inr x \<Rightarrow> ?R x m1"
      by (cases r) (auto simp: indexed_def emptied_def)
  qed
  have rest: "triple (?R x) (case x of (res, err) \<Rightarrow> case err of Some e \<Rightarrow> tret (res, 0, Some e) | None \<Rightarrow> purge_rest ws rs res) (\<lambda>_. cache_ok B)" for x
    by (cases x; cases "snd x") (auto intro: triple_ret triple_weaken [OF keeps_purge_rest [OF ws]])
  show ?thesis unfolding PurgeLifecycle_def by (rule triple_fenced, rule triple_bind [OF del rest])
qed

lemma keeps_reconcile_each: "triple (indexed (holding B es)) (reconcile_each es) (\<lambda>_. cache_ok B)"
proof (induction es)
  case (Cons e es)
  have del: "triple (indexed (holding B (e # es))) (ttry (blob_Delete (te_ObjectKey e))) (\<lambda>r m. case r of Inl x \<Rightarrow> cache_ok B m | Inr x \<Rightarrow> indexed (holding B (e # es)) m)"
    unfolding blob_Delete_def by (rule triple_try, rule triple_weaken [OF triple_blob [where J = "holding B (e # es)"]]) auto
  have count: "triple (indexed (holding B es)) (tmodify (\<lambda>m. m\<lparr>tm_orphans := tm_orphans m + 1\<rparr>)) (\<lambda>r m. case r of Inl x \<Rightarrow> cache_ok B m | Inr x \<Rightarrow> indexed (holding B es) m)"
    by (rule triple_modify) (simp add: indexed_def)
  show ?case unfolding reconcile_each.simps
    by (rule triple_bind [OF del], rule triple_bind [where R = "\<lambda>_. indexed (holding B es)"], rule triple_weaken [OF triple_remove])
      (auto split: sum.splits intro!: triple_bind [OF count] Cons.IH holding_books)
qed (auto intro!: triple_ret holding_books)

lemma keeps_reconcile: "keeps (cache_ok B) reconcile"
  unfolding reconcile_def
proof (rule triple_fenced, rule triple_bind [OF _ keeps_reconcile_each], rule triple_query)
  fix m assume ok: "cache_ok B m"
  then show "case Inr (nonReady (tm_index m)) of Inl e \<Rightarrow> cache_ok B m | Inr es \<Rightarrow> indexed (holding B es) m"
    by (auto simp: indexed_def holding_def nonReady_def books_def intro: agrees_row)
qed auto

lemma keeps_flushAccess: "keeps (cache_ok B) flushAccess"
proof (rule tripleI)
  fix m r m1 assume ok: "cache_ok B m" and f: "flushAccess m = (r, m1)"
  have up: "books B n (updateAccess vals i)" if "books B n i" for n vals i
  proof -
    have 1: "scope_total sc (fold (\<lambda>kt. map (touch_row kt)) vals rows) = scope_total sc rows" for sc rows
      by (induction vals arbitrary: rows) (auto simp: scope_total_def comp_def)
    have 2: "(\<forall>r \<in> set (fold (\<lambda>kt. map (touch_row kt)) vals rows). P (ti_WorkspaceID (te_Identity (fst r)))) \<longleftrightarrow> (\<forall>r \<in> set rows. P (ti_WorkspaceID (te_Identity (fst r))))" for rows P
      by (induction vals arbitrary: rows) auto
    show ?thesis using that updateAccess_ok [of i vals] 2 [of "mi_entries i" "\<lambda>w. CHR '':'' \<notin> set w"]
      by (simp add: books_def updateAccess_rows 1 plain_workspaces_def)
  qed
  have t: "keeps (cache_ok B) (index_exec (\<lambda>i. Some (updateAccess vals i)))" for vals
    by (rule triple_exec) (auto simp: indexed_def up)
  have "cache_ok B (m\<lparr>tm_accessed := []\<rparr>)" using ok by (simp add: indexed_def)
  from tripleD [OF t this] ok f show "cache_ok B m1"
    by (auto simp: flushAccess_def Let_def indexed_def split: if_splits prod.splits sum.splits)
qed

section \<open>Sequences of operations\<close>

datatype cache_op =
    OpGet tile_identity instant | OpExists tile_identity | OpPut tile_identity string tile_policy instant
  | OpDelete tile_selector | OpDeleteIdentity tile_identity | OpPurge string "string list" | OpReconcile | OpFlush
  | OpCreateJob string instant CreateJobInput | OpClaimJob instant | OpUpdateJob string JobUpdate instant | OpCancelJob string instant
  | OpResetJobs instant | OpReplaceChunks string "string list" instant "JobChunk list" | OpUpdateChunk JobChunk instant
  | OpCancelLifecycle string "string list" instant
  | OpRepair tile_entry | OpPurgeJobs string "string list" | OpPurgeUsage string "string list"
  | OpOwnership "ownershipState option" | OpRestart int string "ownershipState option" "fault list"

text \<open>The state after an operation; \<open>OpOwnership\<close> is a transition of the guard, \<open>OpRestart\<close> a new process with its own
  configuration and faults. \<open>OpRepair\<close>, \<open>OpPurgeJobs\<close> and \<open>OpPurgeUsage\<close> are the critical sections of reads and of
  purges on their own: in the code other operations can run between the lookup of a read and its repair, and between
  the deletes and the purges of \<^verbatim>\<open>PurgeLifecycle\<close> (the deletes are those of \<open>OpDelete\<close>). The lookups themselves change
  nothing.\<close>

fun cache_exec :: "(string \<Rightarrow> string) \<Rightarrow> cache_op \<Rightarrow> tile_manager \<Rightarrow> tile_manager" where
  "cache_exec H (OpGet ident now) m = snd (Get_tile ident now m)"
| "cache_exec H (OpExists ident) m = snd (Exists_tile ident m)"
| "cache_exec H (OpPut ident content policy now) m = snd (Put H ident content policy now m)"
| "cache_exec H (OpDelete s) m = snd (Delete s m)"
| "cache_exec H (OpDeleteIdentity ident) m = snd (DeleteIdentity ident m)"
| "cache_exec H (OpPurge ws rs) m = snd (PurgeLifecycle ws rs m)"
| "cache_exec H OpReconcile m = snd (reconcile m)"
| "cache_exec H OpFlush m = snd (flushAccess m)"
| "cache_exec H (OpCreateJob uuid now input) m = snd (fenced_CreateTileCacheJob uuid now input m)"
| "cache_exec H (OpClaimJob now) m = snd (fenced_ClaimNextTileCacheJob now m)"
| "cache_exec H (OpUpdateJob jobid u now) m = snd (fenced_UpdateTileCacheJob jobid u now m)"
| "cache_exec H (OpCancelJob jobid now) m = snd (fenced_RequestTileCacheJobCancel jobid now m)"
| "cache_exec H (OpResetJobs now) m = snd (fenced_ResetInterruptedTileCacheJobs now m)"
| "cache_exec H (OpReplaceChunks jobid uuids now chunks) m = snd (fenced_ReplaceTileCacheJobChunks jobid uuids now chunks m)"
| "cache_exec H (OpUpdateChunk chunk now) m = snd (fenced_UpdateTileCacheJobChunk chunk now m)"
| "cache_exec H (OpCancelLifecycle ws rs now) m = snd (CancelLifecycleJobs ws rs now m)"
| "cache_exec H (OpOwnership st) m = m\<lparr>tm_ownership := st\<rparr>"
| "cache_exec H (OpRepair e) m = snd (repair e m)"
| "cache_exec H (OpPurgeJobs ws rs) m = snd (fenced (job_exec (purgeLifecycleJobs ws rs)) m)"
| "cache_exec H (OpPurgeUsage ws rs) m = snd (fenced (index_exec (\<lambda>i. Some (purgeLifecycleUsage ws rs i))) m)"
| "cache_exec H (OpRestart maxBytes objectPrefix st faults) m = snd (NewTileManager maxBytes objectPrefix st faults m)"

text \<open>Under which conditions an operation keeps the books: workspace identifiers contain no colon (they are UUIDs); a
  repair finds the entry it read still agreeing with the row; the counters of a scope are purged only when no ready
  tile of the scope is left; no configured size exceeds the bound.\<close>

fun cache_op_ok :: "int \<Rightarrow> cache_op \<Rightarrow> tile_manager \<Rightarrow> bool" where
  "cache_op_ok B (OpPut ident _ _ _) m = (CHR '':'' \<notin> set (ti_WorkspaceID ident))"
| "cache_op_ok B (OpPurge ws _) m = (CHR '':'' \<notin> set ws)"
| "cache_op_ok B (OpRepair e) m = agrees e (tm_index m)"
| "cache_op_ok B (OpPurgeUsage ws rs) m =
     (CHR '':'' \<notin> set ws \<and> list_all (\<lambda>r. \<not> purged_scopes ws rs r) (mi_entries (tm_index m)))"
| "cache_op_ok B (OpRestart maxBytes _ _ _) m = (maxBytes \<le> B)"
| "cache_op_ok B _ m = True"

primrec cache_run_ok :: "(string \<Rightarrow> string) \<Rightarrow> int \<Rightarrow> cache_op list \<Rightarrow> tile_manager \<Rightarrow> bool" where
  "cache_run_ok H B [] m = True"
| "cache_run_ok H B (oper # opers) m = (cache_op_ok B oper m \<and> cache_run_ok H B opers (cache_exec H oper m))"

text \<open>An operation that is not permitted counts as none.\<close>

definition cache_step :: "(string \<Rightarrow> string) \<Rightarrow> int \<Rightarrow> cache_op \<Rightarrow> tile_manager \<Rightarrow> tile_manager" where
  "cache_step H B oper m = (if cache_op_ok B oper m then cache_exec H oper m else m)"

lemma cache_run_steps: "cache_run_ok H B opers m \<Longrightarrow> fold (cache_exec H) opers m = fold (cache_step H B) opers m"
  by (induction opers arbitrary: m) (simp_all add: cache_step_def)

lemma keeps_snd: "keeps I a \<Longrightarrow> I m \<Longrightarrow> I (snd (a m))"
  by (metis tripleD prod.collapse)

lemma keeps_Delete: "keeps (cache_ok B) (Delete s)"
proof -
  have "keeps (cache_ok B) (delete_all s no_deletes)" by (rule tripleI) (rule delete_all_ok)
  then show ?thesis unfolding Delete_def by (rule triple_fenced)
qed

lemmas cache_exec_keeps =
  keeps_snd [OF keeps_Get] keeps_snd [OF keeps_Exists] keeps_snd [OF keeps_Put] keeps_snd [OF keeps_Delete]
  keeps_snd [OF keeps_DeleteIdentity] keeps_snd [OF keeps_PurgeLifecycle] keeps_snd [OF keeps_reconcile]
  keeps_snd [OF keeps_flushAccess] keeps_snd [OF keeps_job]

lemma keeps_purge_step:
  assumes "CHR '':'' \<notin> set ws"
  shows "triple (indexed (\<lambda>n i. books B n i \<and> (\<forall>r \<in> set (mi_entries i). \<not> purged_scopes ws rs r)))
    (fenced (index_exec (\<lambda>i. Some (purgeLifecycleUsage ws rs i)))) (\<lambda>_. cache_ok B)"
  by (rule triple_fenced, rule triple_exec) (auto simp: indexed_def purge_books assms)

lemma cache_exec_ok: "cache_op_ok B oper m \<Longrightarrow> cache_ok B m \<Longrightarrow> cache_ok B (cache_exec H oper m)"
proof (cases oper)
  case (OpRestart maxBytes objectPrefix st faults)
  assume "cache_op_ok B oper m" "cache_ok B m"
  then have "cache_ok B (restart maxBytes objectPrefix st faults m)" if "0 < maxBytes"
    using that OpRestart by (simp add: indexed_def restart_def books_def)
  with OpRestart \<open>cache_ok B m\<close> show ?thesis by (simp add: NewTileManager_def cache_exec_keeps)
next
  case (OpOwnership st)
  then show "cache_ok B m \<Longrightarrow> ?thesis" by (simp add: indexed_def)
next
  case (OpRepair e)
  assume "cache_op_ok B oper m" "cache_ok B m"
  then have "indexed (holding B [e]) m" using OpRepair by (simp add: indexed_def holding_def)
  from tripleD [OF keeps_repair this prod.collapse [symmetric]] OpRepair show ?thesis by simp
next
  case (OpPurgeUsage ws rs)
  assume a: "cache_op_ok B oper m" "cache_ok B m"
  then have "indexed (\<lambda>n i. books B n i \<and> (\<forall>r \<in> set (mi_entries i). \<not> purged_scopes ws rs r)) m"
    using OpPurgeUsage by (simp add: indexed_def list_all_iff)
  from tripleD [OF keeps_purge_step this prod.collapse [symmetric]] OpPurgeUsage a show ?thesis by simp
qed (simp_all add: cache_exec_keeps fenced_CreateTileCacheJob_def fenced_ClaimNextTileCacheJob_def fenced_UpdateTileCacheJob_def
    fenced_RequestTileCacheJobCancel_def fenced_ResetInterruptedTileCacheJobs_def fenced_ReplaceTileCacheJobChunks_def
    fenced_UpdateTileCacheJobChunk_def CancelLifecycleJobs_def)

interpretation tile_books: step_invariant "cache_step H B" "cache_ok B" for H B
  by unfold_locales (simp add: cache_step_def cache_exec_ok)

end
