(* ===== verification/Tile_Cache_Properties.thy ===== *)
theory Tile_Cache_Properties
  imports Tile_Cache_Invariants
begin

text \<open>
  What the persistent tile cache promises: its books balance under every sequence of operations with
  every pattern of faults, quotas hold, a stored tile is the tile that is read back, deletes are
  complete, a crash is cleaned up, and a process that lost its ownership changes nothing.
\<close>

section \<open>A stored tile\<close>

lemma index_exec_Inr: "index_exec q m = (Inr x, m1) \<Longrightarrow> q (tm_index m) = Some (tm_index m1) \<and> tm_blobs m1 = tm_blobs m"
  by (auto simp: index_exec_def split: prod.splits fault.splits option.splits)

lemma blob_Put_Inr: "blob_Put key content m = (Inr x, m1) \<Longrightarrow> tm_index m1 = tm_index m \<and> map_of (tm_blobs m1) key = Some content"
  by (auto simp: blob_Put_def blob_request_def blob_effects_def gomap_simps split: prod.splits fault.splits)

lemma write_entry_success:
  assumes "write_entry e content now previous m = (Inr True, m')"
  obtains i1 where "markPending now e previous (tm_index m) = Some i1" "markReady e i1 = Some (tm_index m')"
    "map_of (tm_blobs m') (te_ObjectKey e) = Some content"
proof -
  obtain u1 m1 where p: "index_exec (markPending now e previous) m = (Inr u1, m1)"
    and 1: "tbind (ttry (blob_Put (te_ObjectKey e) content)) (\<lambda>put.
         case put of
           Inl err \<Rightarrow> tbind (ttry (index_exec (restore_row previous (te_CacheKey e)))) (\<lambda>_. tbind (tmodify count_writeError) (\<lambda>_. tfail err))
         | Inr _ \<Rightarrow>
             tbind (ttry (index_exec (markReady e))) (\<lambda>ready.
               case ready of
                 Inl err \<Rightarrow> tbind (ttry (blob_Delete (te_ObjectKey e))) (\<lambda>_. tbind (ttry (index_remove e)) (\<lambda>_. tbind (tmodify count_writeError) (\<lambda>_. tfail err)))
               | Inr _ \<Rightarrow> tbind (tmodify (\<lambda>m. m\<lparr>tm_writes := tm_writes m + 1\<rparr>)) (\<lambda>_. tret True))) m1 = (Inr True, m')"
    using assms unfolding write_entry_def tbind_Inr [of "index_exec _"] by blast
  obtain put m2 where b: "blob_Put (te_ObjectKey e) content m1 = (put, m2)" by fastforce
  with 1 obtain u2 where put: "put = Inr u2" by (cases put) (auto simp: tbind_def ttry_def tmodify_def tfail_def split: prod.splits sum.splits)
  obtain ready m3 where r: "index_exec (markReady e) m2 = (ready, m3)" by fastforce
  with 1 b put obtain u3 where ready: "ready = Inr u3" "m' = m3\<lparr>tm_writes := tm_writes m3 + 1\<rparr>"
    by (cases ready) (auto simp: tbind_def ttry_def tmodify_def tfail_def tret_def split: prod.splits sum.splits)
  show ?thesis
    using that [of "tm_index m1"] index_exec_Inr [OF p] blob_Put_Inr b put index_exec_Inr [of "markReady e" m2 u3 m3] r ready by simp
qed

lemma Put_stored:
  assumes "Put sha256 ident content policy now m = (Inr True, m')"
  obtains m0 m1 where "tm_index m0 = tm_index m" "tm_MaxBytes m0 = tm_MaxBytes m" "tm_ObjectPrefix m0 = tm_ObjectPrefix m" "tile_valid ident"
    "evict_checks ident (CanonicalKey ident) (put_delta content (getReady (CanonicalKey ident) (tm_index m)))
        (if put_delta content (getReady (CanonicalKey ident) (tm_index m)) > 0 then quota_checks ident policy (tm_MaxBytes m) else []) m0 = (Inr (), m1)"
    "write_entry (new_entry sha256 (tm_ObjectPrefix m) ident content now) content now (getReady (CanonicalKey ident) (tm_index m)) m1 = (Inr True, m')"
proof -
  have v: "tile_valid ident" and b: "tbind (index_query (getReady (CanonicalKey ident))) (put_replacing sha256 ident content policy now) m = (Inr True, m')"
    using assms by (auto simp: Put_def split: if_splits)
  from b obtain pv m0 where q: "index_query (getReady (CanonicalKey ident)) m = (Inr pv, m0)" and p: "put_replacing sha256 ident content policy now pv m0 = (Inr True, m')"
    unfolding tbind_Inr by blast
  have s: "pv = getReady (CanonicalKey ident) (tm_index m)" "tm_index m0 = tm_index m" "tm_MaxBytes m0 = tm_MaxBytes m" "tm_ObjectPrefix m0 = tm_ObjectPrefix m"
    using q by (auto simp: index_query_def split: prod.splits fault.splits)
  from p obtain u m1 where e: "evict_checks ident (CanonicalKey ident) (put_delta content pv)
        (if put_delta content pv > 0 then quota_checks ident policy (tm_MaxBytes m0) else []) m0 = (Inr u, m1)"
    and w: "write_entry (new_entry sha256 (tm_ObjectPrefix m0) ident content now) content now pv m1 = (Inr True, m')"
    unfolding Put_unfold tbind_Inr by blast
  have "u = ()" by simp
  note s' = s(1, 3, 4) this
  show ?thesis by (rule that [OF s(2-4) v e [unfolded s'] w [unfolded s']])
qed

text \<open>What storing a tile does to the counter of a scope it is in.\<close>

lemma written_usage:
  assumes pre: "replacing B e previous n i" and w: "markPending now e previous i = Some i1" "markReady e i1 = Some i2"
    and sc: "sc \<in> set (usage_scopes e)" "\<And>p. previous = Some p \<Longrightarrow> usage_scopes p = usage_scopes e"
  shows "fst (index_usage sc i2) = fst (index_usage sc i) + te_SizeBytes e - prev_size previous"
proof -
  have ok: "index_ok i" and pv: "previous = getReady (te_CacheKey e) i" using pre by (auto simp: replacing_def books_def)
  have mid: "mid_write B e previous n i1" by (rule markPending_mid [OF pre w(1)])
  then have ok1: "rows_ok (mi_entries i1)" and id: "r \<in> set (mi_entries i1) \<Longrightarrow> row_key r = te_CacheKey e \<Longrightarrow> te_Identity (fst r) = te_Identity e" for r
    by (auto simp: mid_write_def books_def index_ok_def)
  have "index_ok i2" using markReady_books [OF mid w(2)] by (simp add: books_def)
  then have "fst (index_usage sc i2) = fst (scope_total sc (mi_entries i1)) + te_SizeBytes e"
    using markReady_total [OF ok1 w(2) id] sc(1) accountedD by simp
  moreover have d: "distinct (map row_key (mi_entries i))" using ok by (simp add: index_ok_def rows_ok_def)
  have "fst (scope_total sc (delete_row (te_CacheKey e) (mi_entries i))) = fst (scope_total sc (mi_entries i)) - prev_size previous"
    by (rule total_without_previous [OF ok pv]) (use sc in auto)
  ultimately show ?thesis using markPending_total [OF d w(1)] accountedD [OF ok] by simp
qed

section \<open>What no operation touches\<close>

text \<open>The configuration and the ownership state are not the operations' to change.\<close>

definition settled :: "int \<times> string \<times> ownershipState option \<Rightarrow> tile_manager \<Rightarrow> bool" where
  "settled c m = ((tm_MaxBytes m, tm_ObjectPrefix m, tm_ownership m) = c)"

lemma take_fault_settled [simp]: "take_fault m = (f, m1) \<Longrightarrow> settled c m1 = settled c m"
  by (simp add: settled_def)

lemma settled_update [simp]:
  "settled c (m\<lparr>tm_index := i\<rparr>) = settled c m" "settled c (m\<lparr>tm_blobs := b\<rparr>) = settled c m" "settled c (m\<lparr>tm_accessed := a\<rparr>) = settled c m"
  "settled c (m\<lparr>tm_misses := k\<rparr>) = settled c m" "settled c (m\<lparr>tm_hits := k\<rparr>) = settled c m" "settled c (m\<lparr>tm_orphans := k\<rparr>) = settled c m"
  "settled c (m\<lparr>tm_writes := k\<rparr>) = settled c m" "settled c (m\<lparr>tm_oversized := k\<rparr>) = settled c m" "settled c (count_writeError m) = settled c m"
  "settled c (count_eviction e m) = settled c m"
  by (simp_all add: settled_def count_writeError_def count_eviction_def)

lemma settled_requests:
  "keeps (settled c) (index_query q)" "keeps (settled c) (index_exec x)" "keeps (settled c) (index_remove e)"
  "keeps (settled c) (job_exec j)" "keeps (settled c) (blob_Get key)" "keeps (settled c) (blob_Put key content)"
  "keeps (settled c) (blob_Delete key)" "keeps (settled c) (blob_DeleteBatch keys)"
  by (auto intro!: tripleI simp: index_query_def index_exec_def index_remove_def job_exec_def blob_Get_def blob_Put_def
      blob_Delete_def blob_DeleteBatch_def blob_request_def blob_effects_def split: prod.splits fault.splits option.splits sum.splits)

lemma settled_modify: "(\<And>m. settled c (f m) = settled c m) \<Longrightarrow> keeps (settled c) (tmodify f)"
  by (rule triple_modify) simp

lemma settled_pure: "keeps (settled c) (tret x)" "keeps (settled c) (tfail e)"
  by (auto intro: triple_ret triple_fail)

lemma settled_try: "keeps (settled c) a \<Longrightarrow> keeps (settled c) (ttry a)"
  by (rule triple_try)

lemma settled_fenced: "keeps (settled c) a \<Longrightarrow> keeps (settled c) (fenced a)"
  by (rule triple_fenced)

lemmas settled_intros = keeps_bind settled_requests settled_modify settled_pure settled_try settled_fenced

lemma settled_bind:
  assumes "settled c m" "keeps (settled c) a" "\<And>x m1. a m = (Inr x, m1) \<Longrightarrow> settled c m1 \<Longrightarrow> settled c (snd (f x m1))"
  shows "settled c (snd (tbind a f m))"
proof -
  obtain r m1 where a: "a m = (r, m1)" by fastforce
  with tripleD [OF assms(2, 1)] assms(3) show ?thesis by (cases r) (auto simp: tbind_def)
qed

lemma settled_evict: "settled c m \<Longrightarrow> settled c (snd (evictUntil sc ident key delta quota m))"
proof (induction sc ident key delta quota m rule: evictUntil.induct)
  case (1 sc ident key delta quota m)
  show ?case
    by (subst evictUntil.simps, rule settled_bind [OF 1(2) settled_requests(1)])
      (auto simp: tret_def tfail_def intro!: settled_bind settled_requests settled_modify 1(1) split: option.splits)
qed

lemma settled_remove_each: "keeps (settled c) (remove_each es res)"
  by (induction es arbitrary: res) (auto intro!: settled_intros split: sum.splits)

lemma settled_delete_all: "settled c m \<Longrightarrow> settled c (snd (delete_all s res m))"
proof (induction s res m rule: delete_all.induct)
  case (1 s res m)
  show ?case
    by (subst delete_all.simps, rule settled_bind [OF 1(2) settled_try [OF settled_requests(1)]])
      (auto simp: tret_def intro!: settled_bind settled_requests settled_try settled_remove_each 1(1) split: option.splits sum.splits)
qed

lemma keeps_of_snd: "(\<And>m. I m \<Longrightarrow> I (snd (a m))) \<Longrightarrow> keeps I a"
  by (rule tripleI) (metis snd_conv)

lemma settled_loops: "keeps (settled c) (evictUntil sc ident key delta quota)" "keeps (settled c) (delete_all s res)"
  by (rule keeps_of_snd, erule settled_evict) (rule keeps_of_snd, erule settled_delete_all)

lemma settled_evict_checks: "keeps (settled c) (evict_checks ident key delta cs)"
  by (induction ident key delta cs rule: evict_checks.induct)
    (auto intro!: settled_intros settled_loops split: sum.splits)

lemma settled_write_entry: "keeps (settled c) (write_entry e content now previous)"
  unfolding write_entry_def by (auto intro!: settled_intros split: sum.splits)

lemma settled_Put: "keeps (settled c) (Put sha256 ident content policy now)"
proof -
  have rep: "keeps (settled c) (put_replacing sha256 ident content policy now previous)" for previous
  proof (rule keeps_of_snd)
    fix m assume "settled c m"
    then show "settled c (snd (put_replacing sha256 ident content policy now previous m))"
      unfolding Put_unfold by (rule keeps_snd [rotated]) (intro keeps_bind settled_evict_checks settled_write_entry)
  qed
  have "keeps (settled c) (tbind (index_query (getReady (CanonicalKey ident))) (put_replacing sha256 ident content policy now))"
    by (intro settled_intros rep)
  then show ?thesis by (auto intro!: keeps_of_snd dest: keeps_snd simp: Put_def)
qed

lemma settled_repair: "keeps (settled c) (repair e)"
  by (auto intro!: keeps_of_snd keeps_snd [OF settled_requests(3)] simp: repair_def)

lemma settled_reads: "keeps (settled c) (Get_tile ident now)" "keeps (settled c) (Exists_tile ident)"
  unfolding Get_tile_def Get_entry_def Exists_tile_def Let_def
  by (auto intro!: settled_intros settled_repair split: option.splits if_splits)

lemma settled_deletes: "keeps (settled c) (Delete s)" "keeps (settled c) (DeleteIdentity ident)"
  unfolding Delete_def DeleteIdentity_def
  by (auto intro!: settled_intros settled_loops split: option.splits)

lemma settled_purge: "keeps (settled c) (PurgeLifecycle ws rs)"
proof -
  have 1: "keeps (settled c) (delete_scopes ws xs res)" for xs res
    by (induction ws xs res rule: delete_scopes.induct)
      (auto intro!: settled_intros settled_loops split: option.splits)
  have 2: "keeps (settled c) (purge_usage ws xs)" for xs
    by (induction ws xs rule: purge_usage.induct) (auto intro!: settled_intros)
  show ?thesis unfolding PurgeLifecycle_def purge_rest_def
    by (auto intro!: settled_intros settled_loops 1 2 split: option.splits sum.splits)
qed

lemma settled_maintenance: "keeps (settled c) reconcile" "keeps (settled c) flushAccess"
proof -
  have 1: "keeps (settled c) (reconcile_each es)" for es by (induction es) (auto intro!: settled_intros)
  then show "keeps (settled c) reconcile" unfolding reconcile_def by (intro settled_intros)
  show "keeps (settled c) flushAccess"
  proof (rule keeps_of_snd)
    fix m assume s: "settled c m"
    have "settled c (snd (index_exec q (m\<lparr>tm_accessed := []\<rparr>)))" for q
      by (rule keeps_snd [OF settled_requests(2)]) (simp add: s)
    with s show "settled c (snd (flushAccess m))"
      by (auto simp: flushAccess_def Let_def split: prod.splits sum.splits) (metis snd_conv)+
  qed
qed

lemmas cache_exec_settled =
  keeps_snd [OF settled_reads(1)] keeps_snd [OF settled_reads(2)] keeps_snd [OF settled_Put] keeps_snd [OF settled_deletes(1)]
  keeps_snd [OF settled_deletes(2)] keeps_snd [OF settled_purge] keeps_snd [OF settled_maintenance(1)]
  keeps_snd [OF settled_maintenance(2)] keeps_snd [OF settled_fenced [OF settled_requests(4)]] keeps_snd [OF settled_repair]
  keeps_snd [OF settled_fenced [OF settled_requests(2)]]

fun process_op :: "cache_op \<Rightarrow> bool" where
  "process_op (OpOwnership _) = False"
| "process_op (OpRestart _ _ _ _) = False"
| "process_op _ = True"

lemma cache_exec_settled_op:
  assumes "settled c m" "process_op oper"
  shows "settled c (cache_exec H oper m)"
  using assms
  by (cases oper) (simp_all add: cache_exec_settled fenced_CreateTileCacheJob_def fenced_ClaimNextTileCacheJob_def fenced_UpdateTileCacheJob_def
        fenced_RequestTileCacheJobCancel_def fenced_ResetInterruptedTileCacheJobs_def fenced_ReplaceTileCacheJobChunks_def
        fenced_UpdateTileCacheJobChunk_def CancelLifecycleJobs_def)

section \<open>Properties\<close>

definition empty_cache :: "int \<Rightarrow> string \<Rightarrow> ownershipState option \<Rightarrow> fault list \<Rightarrow> tile_manager" where
  "empty_cache maxBytes objectPrefix ownership faults =
     \<lparr>tm_MaxBytes = maxBytes, tm_ObjectPrefix = objectPrefix,
      tm_index = \<lparr>mi_entries = [], mi_usage = [], mi_jobs = \<lparr>jt_jobs = [], jt_chunks = []\<rparr>\<rparr>, tm_blobs = [], tm_ownership = ownership,
      tm_accessed = [], tm_hits = 0, tm_misses = 0, tm_writes = 0, tm_writeErrors = 0, tm_evictions = 0, tm_bytesEvicted = 0,
      tm_oversized = 0, tm_orphans = 0, tm_faults = faults\<rparr>"

lemma empty_cache_ok: "0 < n \<Longrightarrow> n \<le> B \<Longrightarrow> cache_ok B (empty_cache n pre own fs)"
  by (simp add: empty_cache_def indexed_def books_def index_ok_def rows_ok_def accounted_def index_usage_def plain_workspaces_def)

text \<open>
  C29. The books of the persistent tile cache balance. Take any sequence of its critical sections, from an empty cache:
  reads, writes, deletes, purges, reconciliations, job updates, ownership changes, restarts with other settings, and the
  repairs and usage purges that run apart from the lookup or the deletes before them, with any pattern of failing index
  transactions and blob requests. Suppose that no repair acts on an entry its row no longer agrees with, that the
  counters of a scope are purged only when no ready tile of it is left, that workspace identifiers contain no colon
  (they are UUIDs), and that no configured size exceeds \<open>B\<close>. Then the byte and entry counters of every scope equal the
  totals of its ready rows, and all ready tiles together stay within \<open>B\<close>. The first two conditions are needed: see
  \<open>stale_repair_drops_new_tile\<close> and \<open>late_purge_loses_usage\<close>.
\<close>

theorem tile_cache_books_balance:
  assumes "0 < maxBytes" "maxBytes \<le> B" "cache_run_ok H B opers (empty_cache maxBytes objectPrefix ownership faults)"
    and "i = tm_index (fold (cache_exec H) opers (empty_cache maxBytes objectPrefix ownership faults))"
  shows "index_usage sc i = scope_total sc (mi_entries i) \<and> fst (index_usage global_scope i) \<le> B"
proof -
  let ?m = "fold (cache_exec H) opers (empty_cache maxBytes objectPrefix ownership faults)"
  have "cache_ok B ?m" unfolding cache_run_steps [OF assms(3)]
    by (rule tile_books.run_inv) (rule empty_cache_ok [OF assms(1, 2)])
  then have b: "books B (tm_MaxBytes ?m) i" by (simp add: indexed_def assms(4))
  then have "index_ok i" by (simp add: books_def)
  from accountedD [OF this] b show ?thesis by (simp add: books_def)
qed

definition sample_identity :: tile_identity where
  "sample_identity = \<lparr>ti_WorkspaceID = ''w'', ti_WorkspaceRevision = 1, ti_ResourceID = ''r'', ti_ResourceKind = [], ti_Generation = 1,
     ti_TileType = ''map'', ti_MatrixSet = ''m'', ti_Zoom = 0, ti_Column = 0, ti_Row = 0, ti_StyleDigest = [], ti_StyleName = [],
     ti_Format = ''png''\<rparr>"

definition no_policy :: tile_policy where
  "no_policy = \<lparr>pl_WorkspaceQuotaBytes = 0, pl_ResourceQuotaBytes = 0\<rparr>"

text \<open>A tile is stored and read, the cache is restarted with half its size, a first attempt to replace the tile fails at the
  index, and the second succeeds.\<close>

definition sample_run :: "cache_op list" where
  "sample_run = [OpPut sample_identity ''ab'' no_policy 5, OpGet sample_identity 6, OpRestart 5 [] None [NoFault, Fault []],
     OpPut sample_identity ''abc'' no_policy 7, OpPut sample_identity ''abc'' no_policy 8, OpReconcile]"

definition sample_run_end :: metadataIndex where
  "sample_run_end = tm_index (fold (cache_exec (\<lambda>s. s)) sample_run (empty_cache 10 [] None []))"

lemma sample_run_ok: "cache_run_ok (\<lambda>s. s) 10 sample_run (empty_cache 10 [] None [])"
  by code_simp

lemma tile_cache_books_balance_witness:
  "index_usage global_scope sample_run_end = scope_total global_scope (mi_entries sample_run_end)
   \<and> fst (index_usage global_scope sample_run_end) \<le> 10 \<and> index_usage global_scope sample_run_end = (3, 1)"
proof -
  have "index_usage global_scope sample_run_end = (3, 1)" by code_simp
  moreover have "index_usage global_scope sample_run_end = scope_total global_scope (mi_entries sample_run_end)
      \<and> fst (index_usage global_scope sample_run_end) \<le> 10"
    by (rule tile_cache_books_balance [OF _ _ sample_run_ok sample_run_end_def]) simp_all
  ultimately show ?thesis by blast
qed

text \<open>
  C30. A stored tile respects every quota: after a successful write, the bytes of the tile's resource,
  of its workspace and of the whole cache are within the quota that applies, or no more than they
  were. The entry it replaces belongs to the same resource, as canonical keys identify tiles.
\<close>

theorem put_respects_quotas:
  assumes ok: "cache_ok B m" and ws: "CHR '':'' \<notin> set (ti_WorkspaceID ident)"
    and put: "Put sha256 ident content policy now m = (Inr True, m')"
    and prev: "\<forall>p. getReady (CanonicalKey ident) (tm_index m) = Some p \<longrightarrow>
      ti_WorkspaceID (te_Identity p) = ti_WorkspaceID ident \<and> ti_ResourceID (te_Identity p) = ti_ResourceID ident"
    and check: "(sc, quota) \<in> set (quota_checks ident policy (tm_MaxBytes m))" "0 < quota"
  shows "fst (index_usage sc (tm_index m')) \<le> max quota (fst (index_usage sc (tm_index m)))"
proof -
  let ?p = "getReady (CanonicalKey ident) (tm_index m)" and ?e = "new_entry sha256 (tm_ObjectPrefix m) ident content now"
  obtain m0 m1 where s: "tm_index m0 = tm_index m" "tm_MaxBytes m0 = tm_MaxBytes m"
    and ev: "evict_checks ident (CanonicalKey ident) (put_delta content ?p)
        (if put_delta content ?p > 0 then quota_checks ident policy (tm_MaxBytes m) else []) m0 = (Inr (), m1)"
    and w: "write_entry ?e content now ?p m1 = (Inr True, m')"
    using Put_stored [OF put] by metis
  have ok0: "cache_ok B m0" using ok s by (simp add: indexed_def)
  have r: "replacing B ?e ?p (tm_MaxBytes m1) (tm_index m1)"
    using evicted_replacing [OF ok0 ws ev [folded s(2)]] s(1) by (simp add: indexed_def)
  obtain i1 where "markPending now ?e ?p (tm_index m1) = Some i1" "markReady ?e i1 = Some (tm_index m')"
    using write_entry_success [OF w] by metis
  then have "fst (index_usage sc (tm_index m')) = fst (index_usage sc (tm_index m1)) + te_SizeBytes ?e - prev_size ?p"
    by (rule written_usage [OF r]) (use check(1) prev in \<open>auto simp: quota_checks_def usage_scopes_def new_entry_def\<close>)
  then have "fst (index_usage sc (tm_index m')) = fst (index_usage sc (tm_index m1)) + put_delta content ?p"
    by (simp add: put_delta_def new_entry_def)
  moreover have "fst (index_usage sc (tm_index m1)) \<le> fst (index_usage sc (tm_index m))"
    using since_usage_le [OF ok0 conjunct1 [OF evict_checks_spec [OF ok0 ev]], of sc] s(1) by simp
  moreover have "fst (index_usage sc (tm_index m1)) + put_delta content ?p \<le> quota" if "put_delta content ?p > 0"
    using evict_checks_spec [OF ok0 ev] check that by auto
  ultimately show ?thesis by (cases "put_delta content ?p > 0") auto
qed

definition sample_cache :: tile_manager where
  "sample_cache = empty_cache 10 [] None []"

definition sample_stored :: tile_manager where
  "sample_stored = snd (Put (\<lambda>s. s) sample_identity ''ab'' no_policy 5 sample_cache)"

lemma sample_put: "Put (\<lambda>s. s) sample_identity ''ab'' no_policy 5 sample_cache = (Inr True, sample_stored)"
proof -
  have "fst (Put (\<lambda>s. s) sample_identity ''ab'' no_policy 5 sample_cache) = Inr True" by code_simp
  then show ?thesis unfolding sample_stored_def by (metis prod.collapse)
qed

text \<open>The cache that holds this one tile, written out.\<close>

definition sample_entry :: "string \<Rightarrow> tile_entry" where
  "sample_entry content =
     \<lparr>te_Identity = sample_identity, te_CacheKey = ''v1|w|1|r||1|map|m|0|0|0||png'',
      te_ObjectKey = ''v1/w/w1/r/1/map/m/0/0/0/default/76317c777c317c727c7c317c6d61707c.png'',
      te_SizeBytes = int (length content), te_ETag = hex_encode content, te_CreatedAt = 0, te_LastAccessedAt = 0\<rparr>"

definition stored_cache :: "string \<Rightarrow> int \<Rightarrow> tile_manager" where
  "stored_cache content n =
     sample_cache\<lparr>tm_index := \<lparr>mi_entries = [(sample_entry content, Ready)],
         mi_usage = map (\<lambda>sc. (sc, int (length content), 1)) (usage_scopes (sample_entry content)), mi_jobs = \<lparr>jt_jobs = [], jt_chunks = []\<rparr>\<rparr>,
       tm_blobs := [(te_ObjectKey (sample_entry content), content)], tm_writes := n\<rparr>"

lemma sample_stored_eq [code]: "sample_stored = stored_cache ''ab'' 1"
  by code_simp

lemma sample_cache_ok: "cache_ok 10 sample_cache"
  unfolding sample_cache_def by (rule empty_cache_ok) simp_all

lemma put_respects_quotas_witness:
  "fst (index_usage global_scope (tm_index sample_stored)) = 2 \<and> fst (index_usage global_scope (tm_index sample_stored)) \<le> max 10 0"
proof -
  have "fst (index_usage global_scope (tm_index sample_stored)) \<le> max 10 (fst (index_usage global_scope (tm_index sample_cache)))"
    by (rule put_respects_quotas [OF sample_cache_ok _ sample_put])
      (simp_all add: sample_identity_def sample_cache_def empty_cache_def getReady_def quota_checks_def)
  moreover have "fst (index_usage global_scope (tm_index sample_cache)) = 0" by code_simp
  moreover have "fst (index_usage global_scope (tm_index sample_stored)) = 2" by code_simp
  ultimately show ?thesis by simp
qed

lemma Get_ready:
  assumes "tile_valid ident" "tm_faults m = []" "getReady (CanonicalKey ident) (tm_index m) = Some e" "map_of (tm_blobs m) (te_ObjectKey e) = Some content"
  shows "fst (Get_tile ident now m) = Inr (Some (content, e))"
  using assms by (simp add: Get_tile_def Get_entry_def Let_def tbind_def index_query_def blob_Get_def take_fault_def tmodify_def tret_def)

text \<open>
  C33. What was stored is what is read: after a successful write, a read of the same tile returns
  the same bytes, with the entry of that identity, its size and the hash of the bytes as its ETag.
\<close>

theorem put_then_get:
  assumes ok: "cache_ok B m" and ws: "CHR '':'' \<notin> set (ti_WorkspaceID ident)"
    and put: "Put sha256 ident content policy now m = (Inr True, m')" and calm: "tm_faults m' = []"
  shows "\<exists>e. fst (Get_tile ident later m') = Inr (Some (content, e)) \<and> te_Identity e = ident
             \<and> te_SizeBytes e = int (length content) \<and> te_ETag e = hex_encode (sha256 content)"
proof -
  let ?p = "getReady (CanonicalKey ident) (tm_index m)" and ?e = "new_entry sha256 (tm_ObjectPrefix m) ident content now"
  obtain m0 m1 where s: "tm_index m0 = tm_index m" "tm_MaxBytes m0 = tm_MaxBytes m" "tile_valid ident"
    and ev: "evict_checks ident (CanonicalKey ident) (put_delta content ?p)
        (if put_delta content ?p > 0 then quota_checks ident policy (tm_MaxBytes m) else []) m0 = (Inr (), m1)"
    and w: "write_entry ?e content now ?p m1 = (Inr True, m')"
    using Put_stored [OF put] by metis
  have ok0: "cache_ok B m0" using ok s by (simp add: indexed_def)
  have r: "replacing B ?e ?p (tm_MaxBytes m1) (tm_index m1)"
    using evicted_replacing [OF ok0 ws ev [folded s(2)]] s(1) by (simp add: indexed_def)
  obtain i1 where i1: "markPending now ?e ?p (tm_index m1) = Some i1" "markReady ?e i1 = Some (tm_index m')"
    and b: "map_of (tm_blobs m') (te_ObjectKey ?e) = Some content"
    using write_entry_success [OF w] by metis
  have mid: "mid_write B ?e ?p (tm_MaxBytes m1) i1" by (rule markPending_mid [OF r i1(1)])
  then have ok1: "rows_ok (mi_entries i1)" by (simp add: mid_write_def books_def index_ok_def)
  obtain xs q ys where q: "mi_entries i1 = xs @ q # ys" "row_key q = te_CacheKey ?e"
    "mi_entries (tm_index m') = xs @ ((fst q)\<lparr>te_SizeBytes := te_SizeBytes ?e, te_ETag := te_ETag ?e\<rparr>, Ready) # ys"
    using markReady_rows [OF ok1 i1(2)] by metis
  have "q = pending_row now ?e"
    using q(1, 2) markPending_rows(1) [OF i1(1)] set_upsert_row [of q "pending_row now ?e" "mi_entries (tm_index m1)"] by simp
  moreover have "books B (tm_MaxBytes m1) (tm_index m')" by (rule markReady_books [OF mid i1(2)])
  then have "rows_ok (mi_entries (tm_index m'))" by (simp add: books_def index_ok_def)
  ultimately have "getReady (CanonicalKey ident) (tm_index m') = Some ((fst (pending_row now ?e))\<lparr>te_SizeBytes := te_SizeBytes ?e, te_ETag := te_ETag ?e\<rparr>)"
    using q by (simp add: getReady_iff new_entry_def pending_row_def)
  from Get_ready [OF s(3) calm this] b show ?thesis by (simp add: new_entry_def pending_row_def)
qed

lemma put_then_get_witness:
  "\<exists>e. fst (Get_tile sample_identity 9 sample_stored) = Inr (Some (''ab'', e)) \<and> te_Identity e = sample_identity
       \<and> te_SizeBytes e = int (length ''ab'') \<and> te_ETag e = hex_encode ''ab''"
proof -
  have "tm_faults sample_stored = []" by code_simp
  from put_then_get [OF sample_cache_ok _ sample_put this] show ?thesis by (simp add: sample_identity_def)
qed

definition frozen :: "metadataIndex \<Rightarrow> (string, string) gomap \<Rightarrow> tile_manager \<Rightarrow> bool" where
  "frozen i b m = (\<not> manager_beginMutation m \<and> tm_index m = i \<and> tm_blobs m = b)"

lemma frozen_requests: "keeps (frozen i b) (index_query q)" "keeps (frozen i b) (blob_Get key)" "keeps (frozen i b) (repair e)"
  by (auto intro!: tripleI simp: frozen_def manager_beginMutation_def index_query_def blob_Get_def repair_def split: prod.splits fault.splits if_splits)

lemma frozen_modify: "(\<And>m. frozen i b m \<Longrightarrow> frozen i b (f m)) \<Longrightarrow> keeps (frozen i b) (tmodify f)"
  by (rule triple_modify)

lemma frozen_reads: "keeps (frozen i b) (Get_tile ident now)" "keeps (frozen i b) (Exists_tile ident)"
  unfolding Get_tile_def Get_entry_def Exists_tile_def Let_def
  by (auto intro!: keeps_bind frozen_requests frozen_modify triple_ret triple_fail split: option.splits)
    (auto simp: frozen_def manager_beginMutation_def split: if_splits)

lemma reads_keep:
  assumes "\<not> manager_beginMutation m"
  shows "tm_index (snd (Get_tile ident now m)) = tm_index m \<and> tm_blobs (snd (Get_tile ident now m)) = tm_blobs m"
    and "tm_index (snd (Exists_tile ident m)) = tm_index m \<and> tm_blobs (snd (Exists_tile ident m)) = tm_blobs m"
proof -
  have "frozen (tm_index m) (tm_blobs m) m" using assms by (simp add: frozen_def)
  from keeps_snd [OF frozen_reads(1) this] keeps_snd [OF frozen_reads(2) this]
  show "tm_index (snd (Get_tile ident now m)) = tm_index m \<and> tm_blobs (snd (Get_tile ident now m)) = tm_blobs m"
    "tm_index (snd (Exists_tile ident m)) = tm_index m \<and> tm_blobs (snd (Exists_tile ident m)) = tm_blobs m"
    by (simp_all add: frozen_def)
qed

text \<open>
  C34. A process that does not own the prefix is fenced: whatever operation it runs, the index, its job
  tables and the payloads stay as they are.
\<close>

theorem fenced_process_changes_nothing:
  assumes "\<not> manager_beginMutation m" "process_op oper"
  shows "tm_index (cache_exec H oper m) = tm_index m \<and> tm_blobs (cache_exec H oper m) = tm_blobs m"
  using assms reads_keep [OF assms(1)]
  by (cases oper) (simp_all add: Put_def count_writeError_def Delete_def DeleteIdentity_def PurgeLifecycle_def reconcile_def flushAccess_def tfail_def
      fenced_def fenced_CreateTileCacheJob_def fenced_ClaimNextTileCacheJob_def fenced_UpdateTileCacheJob_def
      fenced_RequestTileCacheJobCancel_def fenced_ResetInterruptedTileCacheJobs_def fenced_ReplaceTileCacheJobChunks_def
      fenced_UpdateTileCacheJobChunk_def CancelLifecycleJobs_def repair_def)

lemma fenced_process_changes_nothing_witness:
  "mi_entries (tm_index (cache_exec (\<lambda>s. s) (OpDeleteIdentity sample_identity) (sample_stored\<lparr>tm_ownership := Some ownershipLost\<rparr>)))
     = mi_entries (tm_index sample_stored) \<and> mi_entries (tm_index sample_stored) \<noteq> []"
proof -
  have "\<not> manager_beginMutation (sample_stored\<lparr>tm_ownership := Some ownershipLost\<rparr>)" by (simp add: manager_beginMutation_def beginMutation_def)
  from fenced_process_changes_nothing [OF this, of "OpDeleteIdentity sample_identity" "\<lambda>s. s"]
  have "tm_index (cache_exec (\<lambda>s. s) (OpDeleteIdentity sample_identity) (sample_stored\<lparr>tm_ownership := Some ownershipLost\<rparr>)) = tm_index sample_stored"
    by simp
  moreover have "mi_entries (tm_index sample_stored) \<noteq> []" by code_simp
  ultimately show ?thesis by simp
qed

text \<open>
  C35. Deletes are exact: a delete that returns without an error has removed every ready tile its
  selector matches, row and payload, and no other row and no other payload, and reports their number and their bytes.
\<close>

theorem delete_exact:
  assumes "cache_ok B m" "Delete s m = (Inr (res, None), m')"
  shows "mi_entries (tm_index m') = filter (\<lambda>r. \<not> (snd r = Ready \<and> selected s (te_Identity (fst r)))) (mi_entries (tm_index m))
    \<and> res = tally (filter (\<lambda>r. snd r = Ready \<and> selected s (te_Identity (fst r))) (mi_entries (tm_index m)))
    \<and> (\<forall>k. map_of (tm_blobs m') k =
          (if k \<in> payload_keys (filter (\<lambda>r. snd r = Ready \<and> selected s (te_Identity (fst r))) (mi_entries (tm_index m)))
           then None else map_of (tm_blobs m) k))"
proof -
  have d: "delete_all s no_deletes m = (Inr (res, None), m')" using assms(2) by (auto simp: Delete_def fenced_def split: if_splits)
  have "rows_ok (mi_entries (tm_index m))" using assms(1) by (simp add: indexed_def books_def index_ok_def)
  from delete_all_complete [OF this d] delete_all_payloads [OF this d] show ?thesis
    by (simp add: doomed_def [abs_def] add_result_def tally_def no_deletes_def)
qed

lemma delete_exact_witness:
  "\<exists>m'. Delete (workspace_selector ''w'' []) sample_stored = (Inr (\<lparr>dr_Entries = 1, dr_Bytes = 2\<rparr>, None), m')
     \<and> mi_entries (tm_index m') = [] \<and> map_of (tm_blobs sample_stored) (te_ObjectKey (sample_entry ''ab'')) = Some ''ab''
     \<and> map_of (tm_blobs m') (te_ObjectKey (sample_entry ''ab'')) = None"
proof -
  have "fst (Delete (workspace_selector ''w'' []) sample_stored) = Inr (\<lparr>dr_Entries = 1, dr_Bytes = 2\<rparr>, None)" by code_simp
  then obtain m' where d: "Delete (workspace_selector ''w'' []) sample_stored = (Inr (\<lparr>dr_Entries = 1, dr_Bytes = 2\<rparr>, None), m')"
    by (metis prod.collapse)
  have ok: "cache_ok 10 sample_stored"
    using tripleD [OF keeps_Put sample_cache_ok sample_put] by (simp add: sample_identity_def)
  have rows: "mi_entries (tm_index sample_stored) = [(sample_entry ''ab'', Ready)]" by (simp add: sample_stored_eq stored_cache_def)
  have sel: "selected (workspace_selector ''w'' []) (te_Identity (sample_entry ''ab''))" by code_simp
  have "map_of (tm_blobs sample_stored) (te_ObjectKey (sample_entry ''ab'')) = Some ''ab''"
    by (simp add: sample_stored_eq stored_cache_def)
  with delete_exact [OF ok d] d rows sel show ?thesis by (simp add: payload_keys_def)
qed

lemma reconcile_each_calm:
  "tm_faults m = [] \<Longrightarrow> \<exists>m'. reconcile_each es m = (Inr (), m') \<and> tm_faults m' = []
     \<and> mi_entries (tm_index m') = filter (\<lambda>r. row_key r \<notin> te_CacheKey ` set es) (mi_entries (tm_index m))
     \<and> (\<forall>k. map_of (tm_blobs m') k = (if k \<in> te_ObjectKey ` set es then None else map_of (tm_blobs m) k))"
proof (induction es arbitrary: m)
  case Nil
  then show ?case by (simp add: tret_def)
next
  case (Cons e es)
  let ?m1 = "(blob_effects [(te_ObjectKey e, None)] m)\<lparr>tm_index := remove e (tm_index m), tm_orphans := tm_orphans m + 1\<rparr>"
  have "reconcile_each (e # es) m = reconcile_each es ?m1" using Cons.prems
    by (simp add: tbind_def ttry_def blob_Delete_def blob_request_def take_fault_def index_remove_def index_exec_def tmodify_def blob_effects_def)
  moreover have "tm_faults ?m1 = []" using Cons.prems by (simp add: blob_effects_def)
  then obtain m' where m': "reconcile_each es ?m1 = (Inr (), m')" "tm_faults m' = []"
    "mi_entries (tm_index m') = filter (\<lambda>r. row_key r \<notin> te_CacheKey ` set es) (mi_entries (tm_index ?m1))"
    "\<forall>k. map_of (tm_blobs m') k = (if k \<in> te_ObjectKey ` set es then None else map_of (tm_blobs ?m1) k)"
    using Cons.IH [of ?m1] by blast
  moreover have "filter (\<lambda>r. row_key r \<notin> te_CacheKey ` set es) (mi_entries (tm_index ?m1))
      = filter (\<lambda>r. row_key r \<notin> te_CacheKey ` set (e # es)) (mi_entries (tm_index m))"
    by (auto simp: delete_row_def intro: filter_cong)
  ultimately show ?case by (auto simp: blob_effects_def gomap_simps)
qed

text \<open>
  C36. A crash leaves nothing behind: whatever state the previous process stopped in, a start whose
  requests succeed, with any settings, removes exactly the pending rows, deletes exactly their payloads, and leaves every
  ready row and every other payload as it was.
\<close>

theorem restart_cleans_up:
  assumes ok: "cache_ok B m" and own: "ownership = None \<or> ownership = Some ownershipHeld" and pos: "0 < maxBytes"
  shows "\<exists>m'. NewTileManager maxBytes objectPrefix ownership [] m = (Inr (), m')
    \<and> mi_entries (tm_index m') = filter (\<lambda>r. snd r = Ready) (mi_entries (tm_index m))
    \<and> (\<forall>k. map_of (tm_blobs m') k =
          (if k \<in> payload_keys (filter (\<lambda>r. snd r = Pending) (mi_entries (tm_index m))) then None else map_of (tm_blobs m) k))"
proof -
  let ?m = "restart maxBytes objectPrefix ownership [] m" and ?es = "nonReady (tm_index m)"
  have rok: "rows_ok (mi_entries (tm_index m))" using ok by (simp add: indexed_def books_def index_ok_def)
  have new: "NewTileManager maxBytes objectPrefix ownership [] m = reconcile_each ?es ?m"
    using own pos by (auto simp: NewTileManager_def reconcile_def fenced_def manager_beginMutation_def beginMutation_def restart_def tbind_def index_query_def take_fault_def)
  have iff: "row_key r \<in> te_CacheKey ` set ?es \<longleftrightarrow> snd r \<noteq> Ready" if r: "r \<in> set (mi_entries (tm_index m))" for r
  proof
    assume "row_key r \<in> te_CacheKey ` set ?es"
    then obtain q where "q \<in> set (mi_entries (tm_index m))" "snd q \<noteq> Ready" "row_key r = row_key q" by (auto simp: nonReady_def row_key_def)
    with same_row [OF rok r] show "snd r \<noteq> Ready" by auto
  next
    assume "snd r \<noteq> Ready"
    with r show "row_key r \<in> te_CacheKey ` set ?es" by (force simp: nonReady_def row_key_def image_iff)
  qed
  have kept: "filter (\<lambda>r. row_key r \<notin> te_CacheKey ` set ?es) (mi_entries (tm_index m)) = filter (\<lambda>r. snd r = Ready) (mi_entries (tm_index m))"
    by (rule filter_cong [OF refl]) (simp add: iff)
  obtain m' where m': "reconcile_each ?es ?m = (Inr (), m')"
    "mi_entries (tm_index m') = filter (\<lambda>r. row_key r \<notin> te_CacheKey ` set ?es) (mi_entries (tm_index m))"
    "\<forall>k. map_of (tm_blobs m') k = (if k \<in> te_ObjectKey ` set ?es then None else map_of (tm_blobs m) k)"
    using reconcile_each_calm [of ?m ?es] by (auto simp: restart_def)
  have "(snd r \<noteq> Ready) = (snd r = Pending)" for r :: tile_row by (cases "snd r") simp_all
  then have "te_ObjectKey ` set ?es = payload_keys (filter (\<lambda>r. snd r = Pending) (mi_entries (tm_index m)))"
    by (simp add: nonReady_def payload_keys_def image_image)
  then show ?thesis unfolding new using m' kept by (intro exI [of _ m']) simp
qed

text \<open>A process that dies between the payload and the ready row.\<close>

definition crashed_cache :: tile_manager where
  "crashed_cache = snd (Put (\<lambda>s. s) sample_identity ''ab'' no_policy 5 (empty_cache 10 [] None ([NoFault, NoFault, NoFault, NoFault] @ replicate 3 (Fault []))))"

lemma restart_cleans_up_witness:
  "map snd (mi_entries (tm_index crashed_cache)) = [Pending] \<and> tm_blobs crashed_cache \<noteq> []
   \<and> (\<exists>m'. NewTileManager 5 [] None [] crashed_cache = (Inr (), m') \<and> mi_entries (tm_index m') = [] \<and> map_of (tm_blobs m') (te_ObjectKey (sample_entry ''ab'')) = None)"
proof -
  have ok: "cache_ok 10 crashed_cache" unfolding crashed_cache_def
    by (rule keeps_snd [OF keeps_Put]) (simp_all add: sample_identity_def empty_cache_ok)
  have p: "map (\<lambda>r. (te_ObjectKey (fst r), snd r)) (mi_entries (tm_index crashed_cache)) = [(te_ObjectKey (sample_entry ''ab''), Pending)]"
    and b: "tm_blobs crashed_cache \<noteq> []" by code_simp+
  then obtain e where e: "mi_entries (tm_index crashed_cache) = [(e, Pending)]" "te_ObjectKey e = te_ObjectKey (sample_entry ''ab'')"
    by (auto simp: map_eq_Cons_conv)
  with b restart_cleans_up [OF ok, of None 5 "[]"] show ?thesis by (auto simp: payload_keys_def)
qed

definition race_entry :: tile_entry where
  "race_entry = the (getReady (CanonicalKey sample_identity) (tm_index sample_stored))"

definition race_deleted :: tile_manager where
  "race_deleted = snd (DeleteIdentity sample_identity sample_stored)"

definition race_stored :: tile_manager where
  "race_stored = snd (Put (\<lambda>s. s) sample_identity ''abc'' no_policy 7 race_deleted)"

definition race_repaired :: tile_manager where
  "race_repaired = snd (repair race_entry race_stored)"

lemma race_stored_eq [code]: "race_stored = stored_cache ''abc'' 2"
  by code_simp

text \<open>
  The repair of an orphaned entry trusts an entry that was read outside the lock. In this
  interleaving a reader looks a tile up, the tile is deleted, the reader misses its payload, the tile is
  stored again, and the repair then drops the new tile from the index and pays back
  the old size: the counters no longer balance.
\<close>

theorem stale_repair_drops_new_tile:
  "map_of (tm_blobs race_deleted) (te_ObjectKey race_entry) = None
   \<and> map fst (mi_entries (tm_index race_stored)) = [sample_entry ''abc'']
   \<and> mi_entries (tm_index race_repaired) = [] \<and> index_usage global_scope (tm_index race_repaired) = (1, 0)"
  by code_simp

text \<open>
  The usage purge of a lifecycle purge is apart from the deletes before it: a tile stored in between loses its counters,
  and is not counted against any quota from then on.
\<close>

theorem late_purge_loses_usage:
  "map (\<lambda>oper. cache_op_ok 10 oper sample_stored) [OpPurgeUsage ''w'' []] = [False]
   \<and> map fst (mi_entries (tm_index (cache_exec H (OpPurgeUsage ''w'' []) sample_stored))) = [sample_entry ''ab'']
   \<and> index_usage (''workspace'', ''w'') (tm_index (cache_exec H (OpPurgeUsage ''w'' []) sample_stored)) = (0, 0)"
  by code_simp

end
