(* ===== verification/Tile_Jobs.thy ===== *)
theory Tile_Jobs
  imports Tile_Job_Store
begin

text \<open>
  Package \<^verbatim>\<open>internal/tilejobs\<close> (\<^verbatim>\<open>manager.go\<close>): the durable seed, reseed and truncate jobs over the job
  tables. The workspace registry and the tile engine are arguments: what they answer is data of the
  operation. Floating-point arithmetic is a parameter: clipping the bounds to the grid, and the four
  floors that give the tile range of a matrix. Everything after the floors is integer arithmetic and is
  modelled as written. Other goroutines and the effect of a failing write enter a running chunk
  as arguments, per tile.
\<close>

section \<open>Tile ranges and chunks\<close>

type_synonym bbox = "float64 \<times> float64 \<times> float64 \<times> float64"

record TileMatrix =
  mx_ID :: string
  mx_CellSize :: float64
  mx_PointOfOrigin :: "float64 \<times> float64"
  mx_TileWidth :: int
  mx_TileHeight :: int
  mx_MatrixWidth :: int
  mx_MatrixHeight :: int

record TileMatrixSetDefinition =
  td_ID :: string
  td_BoundingBox :: "bbox option"
  td_TileMatrices :: "TileMatrix list"

text \<open>The floating-point part: the requested box within the world, if they meet, and the floors.\<close>

record float_ops =
  fo_clip :: "bbox \<Rightarrow> bbox \<Rightarrow> bbox option"
  fo_range :: "TileMatrix \<Rightarrow> bbox \<Rightarrow> int \<times> int \<times> int \<times> int"

datatype jobs_error = UnknownMatrixSet | Panic | InvalidRequest string | StoreError job_error

text \<open>The loop counter of \<^verbatim>\<open>for x := lo; x <= hi; x += step\<close>.\<close>

function steps :: "int \<Rightarrow> int \<Rightarrow> int \<Rightarrow> int list" where
  "steps lo hi step = (if lo > hi \<or> step \<le> 0 then [] else lo # steps (lo + step) hi step)"
  by pat_completeness auto
termination by (relation "measure (\<lambda>(lo, hi, _). nat (hi - lo + 1))") auto

declare steps.simps [simp del]

definition chunk_at :: "int \<Rightarrow> int \<Rightarrow> int \<Rightarrow> int \<Rightarrow> int \<Rightarrow> int \<Rightarrow> int \<Rightarrow> JobChunk" where
  "chunk_at zoom maxCol maxRow columnBlock rowBlock row column =
     \<lparr>ck_ID = [], ck_JobID = [], ck_Zoom = zoom, ck_MinCol = column, ck_MaxCol = min maxCol (column + columnBlock - 1),
      ck_MinRow = row, ck_MaxRow = min maxRow (row + rowBlock - 1), ck_NextOffset = 0, ck_Status = ''queued'',
      ck_Attempts = 0, ck_LastError = [], ck_UpdatedAt = 0\<rparr>"

definition range_chunks :: "int \<Rightarrow> int \<times> int \<times> int \<times> int \<Rightarrow> JobChunk list" where
  "range_chunks zoom rng =
     (case rng of (minCol, maxCol, minRow, maxRow) \<Rightarrow>
        let width = maxCol - minCol + 1;
            columnBlock = min width 32;
            rowBlock = max 1 (1024 div columnBlock)
        in concat (map (\<lambda>row. map (chunk_at zoom maxCol maxRow columnBlock rowBlock row) (steps minCol maxCol columnBlock))
             (steps minRow maxRow rowBlock)))"

definition clamp_range :: "TileMatrix \<Rightarrow> int \<times> int \<times> int \<times> int \<Rightarrow> int \<times> int \<times> int \<times> int" where
  "clamp_range mx rng =
     (case rng of (minCol, maxCol, minRow, maxRow) \<Rightarrow>
        (max 0 minCol, min (mx_MatrixWidth mx - 1) maxCol, max 0 minRow, min (mx_MatrixHeight mx - 1) maxRow))"

definition range_empty :: "int \<times> int \<times> int \<times> int \<Rightarrow> bool" where
  "range_empty rng = (case rng of (minCol, maxCol, minRow, maxRow) \<Rightarrow> minCol > maxCol \<or> minRow > maxRow)"

definition range_size :: "int \<times> int \<times> int \<times> int \<Rightarrow> int" where
  "range_size rng = (case rng of (minCol, maxCol, minRow, maxRow) \<Rightarrow> (maxCol - minCol + 1) * (maxRow - minRow + 1))"

text \<open>One zoom level after the other; indexing past the matrices of the set panics.\<close>

function zoom_loop :: "float_ops \<Rightarrow> TileMatrixSetDefinition \<Rightarrow> bbox \<Rightarrow> int \<Rightarrow> int \<Rightarrow> JobChunk list \<Rightarrow> int \<Rightarrow> jobs_error + (JobChunk list \<times> int)" where
  "zoom_loop F td box zoom maxZoom chunks ntiles =
     (if zoom > maxZoom then Inr (chunks, ntiles)
      else if zoom < 0 \<or> nat zoom \<ge> length (td_TileMatrices td) then Inl Panic
      else let mx = td_TileMatrices td ! nat zoom;
               rng = clamp_range mx (fo_range F mx box)
           in if range_empty rng then zoom_loop F td box (zoom + 1) maxZoom chunks ntiles
              else zoom_loop F td box (zoom + 1) maxZoom (chunks @ range_chunks zoom rng) (ntiles + range_size rng))"
  by pat_completeness auto
termination by (relation "measure (\<lambda>(_, _, _, zoom, maxZoom, _, _). nat (maxZoom - zoom + 1))") auto

declare zoom_loop.simps [simp del]

definition buildChunks :: "float_ops \<Rightarrow> TileMatrixSetDefinition option \<Rightarrow> int \<Rightarrow> int \<Rightarrow> bbox \<Rightarrow> jobs_error + (JobChunk list \<times> int)" where
  "buildChunks F defn minZoom maxZoom requested =
     (case defn of
        None \<Rightarrow> Inl UnknownMatrixSet
      | Some td \<Rightarrow>
          (case td_BoundingBox td of
             None \<Rightarrow> Inl Panic
           | Some world \<Rightarrow>
               (case fo_clip F requested world of
                  None \<Rightarrow> Inr ([], 0)
                | Some box \<Rightarrow> zoom_loop F td box minZoom maxZoom [] 0)))"

section \<open>Running a chunk\<close>

text \<open>The tile at an offset of a chunk, row by row.\<close>

definition chunk_width :: "JobChunk \<Rightarrow> int" where
  "chunk_width c = ck_MaxCol c - ck_MinCol c + 1"

definition chunk_total :: "JobChunk \<Rightarrow> int" where
  "chunk_total c = chunk_width c * (ck_MaxRow c - ck_MinRow c + 1)"

definition tile_at :: "JobChunk \<Rightarrow> int \<Rightarrow> int \<times> int \<times> int" where
  "tile_at c offset = (ck_Zoom c, ck_MinCol c + offset mod chunk_width c, ck_MinRow c + offset div chunk_width c)"

datatype tile_outcome = TileFailed string | TileSkipped | TileDone int

record jobState =
  js_job :: Job
  js_processed :: int
  js_succeeded :: int
  js_skipped :: int
  js_failed :: int
  js_bytesWritten :: int
  js_bytesDeleted :: int
  js_cancelled :: bool
  js_interrupted :: bool

definition new_state :: "Job \<Rightarrow> jobState" where
  "new_state j = \<lparr>js_job = j, js_processed = 0, js_succeeded = 0, js_skipped = 0, js_failed = 0, js_bytesWritten = 0,
     js_bytesDeleted = 0, js_cancelled = False, js_interrupted = False\<rparr>"

definition jobState_update :: "jobState \<Rightarrow> JobStatus \<Rightarrow> string \<Rightarrow> instant option \<Rightarrow> JobUpdate" where
  "jobState_update s st message completed =
     no_update\<lparr>up_Status := Some st,
       up_ProcessedTiles := Some (jb_ProcessedTiles (js_job s) + js_processed s),
       up_SucceededTiles := Some (jb_SucceededTiles (js_job s) + js_succeeded s),
       up_SkippedTiles := Some (jb_SkippedTiles (js_job s) + js_skipped s),
       up_FailedTiles := Some (jb_FailedTiles (js_job s) + js_failed s),
       up_BytesWritten := Some (jb_BytesWritten (js_job s) + js_bytesWritten s),
       up_BytesDeleted := Some (jb_BytesDeleted (js_job s) + js_bytesDeleted s),
       up_ErrorMessage := Some message, up_CompletedAt := completed\<rparr>"

text \<open>
  What happens around one tile: whether the context is done, what other goroutines do to the tables
  before the cancellation check and during the work, the outcome of the work, and whether the two
  progress writes, whose errors the code drops, take effect.
\<close>

record tile_event =
  ev_done :: bool
  ev_before :: "job_tables \<Rightarrow> job_tables"
  ev_during :: "job_tables \<Rightarrow> job_tables"
  ev_outcome :: tile_outcome
  ev_chunk_saved :: bool
  ev_job_saved :: bool

definition cancelRequested :: "string \<Rightarrow> job_tables \<Rightarrow> bool" where
  "cancelRequested jobid t = (case GetTileCacheJob jobid t of Inl _ \<Rightarrow> False | Inr j \<Rightarrow> jb_CancelRequested j)"

definition save_chunk :: "bool \<Rightarrow> JobChunk \<Rightarrow> instant \<Rightarrow> job_tables \<Rightarrow> job_tables" where
  "save_chunk ok c now t = (if ok then UpdateTileCacheJobChunk c now t else t)"

definition save_job :: "bool \<Rightarrow> string \<Rightarrow> JobUpdate \<Rightarrow> instant \<Rightarrow> job_tables \<Rightarrow> job_tables" where
  "save_job ok jobid u now t =
     (if ok then case UpdateTileCacheJob jobid u now t of Inl _ \<Rightarrow> t | Inr (_, t') \<Rightarrow> t' else t)"

definition count_outcome :: "tile_outcome \<Rightarrow> JobChunk \<times> jobState \<Rightarrow> JobChunk \<times> jobState" where
  "count_outcome out cs =
     (case cs of (c, s) \<Rightarrow>
        let c1 = c\<lparr>ck_NextOffset := ck_NextOffset c + 1\<rparr>; s1 = s\<lparr>js_processed := js_processed s + 1\<rparr>
        in case out of
             TileFailed err \<Rightarrow> (c1\<lparr>ck_Attempts := ck_Attempts c1 + 1, ck_LastError := err\<rparr>, s1\<lparr>js_failed := js_failed s1 + 1\<rparr>)
           | TileSkipped \<Rightarrow> (c1, s1\<lparr>js_skipped := js_skipped s1 + 1\<rparr>)
           | TileDone bytes \<Rightarrow>
               (c1, if rq_Operation (jb_Request (js_job s1)) = OperationTruncate
                    then s1\<lparr>js_succeeded := js_succeeded s1 + 1, js_bytesDeleted := js_bytesDeleted s1 + bytes\<rparr>
                    else s1\<lparr>js_succeeded := js_succeeded s1 + 1, js_bytesWritten := js_bytesWritten s1 + bytes\<rparr>))"

lemma count_outcome_chunk [simp]:
  "ck_NextOffset (fst (count_outcome out (c, s))) = ck_NextOffset c + 1"
  "ck_MinCol (fst (count_outcome out (c, s))) = ck_MinCol c" "ck_MaxCol (fst (count_outcome out (c, s))) = ck_MaxCol c"
  "ck_MinRow (fst (count_outcome out (c, s))) = ck_MinRow c" "ck_MaxRow (fst (count_outcome out (c, s))) = ck_MaxRow c"
  "ck_Zoom (fst (count_outcome out (c, s))) = ck_Zoom c" "ck_ID (fst (count_outcome out (c, s))) = ck_ID c"
  "js_job (snd (count_outcome out (c, s))) = js_job s"
  by (simp_all add: count_outcome_def Let_def split: tile_outcome.splits)

lemma count_outcome_total [simp]: "chunk_total (fst (count_outcome out (c, s))) = chunk_total c"
  by (simp add: chunk_total_def chunk_width_def)

text \<open>The loop; the last component lists the tiles it worked on.\<close>

record chunk_run =
  cr_chunk :: JobChunk
  cr_state :: jobState
  cr_tables :: job_tables
  cr_tiles :: "(int \<times> int \<times> int) list"

function chunk_loop :: "(int \<Rightarrow> tile_event) \<Rightarrow> instant \<Rightarrow> chunk_run \<Rightarrow> chunk_run" where
  "chunk_loop ev now r =
     (let c = cr_chunk r; s = cr_state r; e = ev (ck_NextOffset c); jobid = jb_ID (js_job s)
      in if ck_NextOffset c < chunk_total c
         then if ev_done e
              then let c' = c\<lparr>ck_Status := ''queued''\<rparr>
                   in r\<lparr>cr_chunk := c', cr_state := s\<lparr>js_interrupted := True\<rparr>, cr_tables := save_chunk (ev_chunk_saved e) c' now (cr_tables r)\<rparr>
              else let t1 = ev_before e (cr_tables r)
                   in if cancelRequested jobid t1
                      then let c' = c\<lparr>ck_Status := ''cancelled''\<rparr>
                           in r\<lparr>cr_chunk := c', cr_state := s\<lparr>js_cancelled := True\<rparr>, cr_tables := save_chunk (ev_chunk_saved e) c' now t1\<rparr>
                      else let t2 = ev_during e t1;
                               cs = count_outcome (ev_outcome e) (c, s);
                               t3 = save_chunk (ev_chunk_saved e) (fst cs) now t2;
                               t4 = save_job (ev_job_saved e) jobid (jobState_update (snd cs) JobRunning [] None) now t3
                           in chunk_loop ev now \<lparr>cr_chunk = fst cs, cr_state = snd cs, cr_tables = t4, cr_tiles = cr_tiles r @ [tile_at c (ck_NextOffset c)]\<rparr>
         else let c' = c\<lparr>ck_Status := ''succeeded''\<rparr>
              in r\<lparr>cr_chunk := c', cr_tables := save_chunk (ev_chunk_saved e) c' now (cr_tables r)\<rparr>)"
  by pat_completeness auto

termination
  by (relation "measure (\<lambda>(_, _, r). nat (chunk_total (cr_chunk r) - ck_NextOffset (cr_chunk r)))") auto

declare chunk_loop.simps [simp del]

definition runChunk :: "(int \<Rightarrow> tile_event) \<Rightarrow> bool \<Rightarrow> instant \<Rightarrow> jobState \<Rightarrow> JobChunk \<Rightarrow> job_tables \<Rightarrow> chunk_run" where
  "runChunk ev saved now s c t =
     (let c' = c\<lparr>ck_Status := ''running''\<rparr>
      in chunk_loop ev now \<lparr>cr_chunk = c', cr_state = s, cr_tables = save_chunk saved c' now t, cr_tiles = []\<rparr>)"

section \<open>Finishing a job\<close>

definition finishFailed :: "Job \<Rightarrow> string \<Rightarrow> instant \<Rightarrow> job_tables \<Rightarrow> job_tables" where
  "finishFailed j message now t =
     save_job True (jb_ID j) (no_update\<lparr>up_Status := Some JobFailed, up_ErrorMessage := Some message, up_CompletedAt := Some now\<rparr>) now t"

text \<open>The end of \<^verbatim>\<open>run\<close>, after the workers have stopped.\<close>

definition run_finish :: "jobState \<Rightarrow> instant \<Rightarrow> job_tables \<Rightarrow> job_tables" where
  "run_finish s now t =
     (let jobid = jb_ID (js_job s)
      in if js_interrupted s then t
         else if js_cancelled s \<or> cancelRequested jobid t
         then save_job True jobid (no_update\<lparr>up_Status := Some JobCancelled, up_CompletedAt := Some now\<rparr>) now t
         else let failed = js_failed s > 0
              in save_job True jobid
                   (jobState_update s (if failed then JobFailed else JobSucceeded) (if failed then ''one or more tiles failed'' else []) (Some now)) now t)"

text \<open>The checks of \<^verbatim>\<open>run\<close> before the work: what became of workspace and resource, and the stored chunks.\<close>

datatype run_plan = RunFailed string | RunTruncate | RunChunks "JobChunk list"

definition run_prepare :: "bool \<Rightarrow> bool \<Rightarrow> Job \<Rightarrow> job_tables \<Rightarrow> run_plan" where
  "run_prepare workspace_ok resource_ok j t =
     (let rq = jb_Request j; chunks = ListTileCacheJobChunks (jb_ID j) t
      in if \<not> workspace_ok then RunFailed ''workspace no longer exists''
         else if \<not> rq_AllResources rq \<and> \<not> resource_ok then RunFailed ''resource no longer exists''
         else if chunks = [] \<and> (rq_Operation rq \<noteq> OperationTruncate \<or> rq_Bounds rq \<noteq> None) then RunFailed ''job has no durable tile chunks''
         else if rq_Operation rq = OperationTruncate \<and> rq_Bounds rq = None \<and> chunks = [] then RunTruncate
         else RunChunks (filter (\<lambda>c. ck_Status c \<noteq> ''succeeded'') chunks))"

text \<open>A job's chunks, one worker: chunk after chunk with the shared state.\<close>

fun run_chunks :: "(JobChunk \<Rightarrow> int \<Rightarrow> tile_event) \<Rightarrow> instant \<Rightarrow> JobChunk list \<Rightarrow> jobState \<Rightarrow> job_tables \<Rightarrow> jobState \<times> job_tables \<times> (int \<times> int \<times> int) list" where
  "run_chunks ev now [] s t = (s, t, [])"
| "run_chunks ev now (c # cs) s t =
     (let r = runChunk (ev c) True now s c t
      in case run_chunks ev now cs (cr_state r) (cr_tables r) of (s', t', tiles) \<Rightarrow> (s', t', cr_tiles r @ tiles))"

text \<open>The unbounded truncate: what the cache answered to the delete by selector.\<close>

definition run_truncate :: "string + (int \<times> int) \<Rightarrow> instant \<Rightarrow> Job \<Rightarrow> job_tables \<Rightarrow> job_tables" where
  "run_truncate answer now j t =
     (case answer of
        Inl err \<Rightarrow> finishFailed j err now t
      | Inr (entries, bytes) \<Rightarrow>
          save_job True (jb_ID j)
            (no_update\<lparr>up_Status := Some JobSucceeded, up_TotalTiles := Some entries, up_ProcessedTiles := Some entries,
               up_SucceededTiles := Some entries, up_BytesDeleted := Some bytes, up_CompletedAt := Some now\<rparr>) now t)"

definition run_job :: "bool \<Rightarrow> bool \<Rightarrow> string + (int \<times> int) \<Rightarrow> (JobChunk \<Rightarrow> int \<Rightarrow> tile_event) \<Rightarrow> instant \<Rightarrow> Job \<Rightarrow> job_tables
    \<Rightarrow> job_tables \<times> (int \<times> int \<times> int) list" where
  "run_job workspace_ok resource_ok truncated ev now j t =
     (case run_prepare workspace_ok resource_ok j t of
        RunFailed message \<Rightarrow> (finishFailed j message now t, [])
      | RunTruncate \<Rightarrow> (run_truncate truncated now j t, [])
      | RunChunks cs \<Rightarrow> (case run_chunks ev now cs (new_state j) t of (s, t', tiles) \<Rightarrow> (run_finish s now t', tiles)))"

section \<open>Processing one tile\<close>

text \<open>\<^verbatim>\<open>processTile\<close>: the cache and the engine answer, render attempts are retried \<open>maxRetries\<close> times.\<close>

record tile_answers =
  ta_identity_error :: "string option"
  ta_exists :: "string + bool"
  ta_delete :: "string + (int \<times> int)"
  ta_fetch :: "nat \<Rightarrow> string + int"
  ta_exists_after :: "nat \<Rightarrow> string + bool"

fun render_attempts :: "tile_answers \<Rightarrow> nat \<Rightarrow> nat \<Rightarrow> string \<Rightarrow> tile_outcome" where
  "render_attempts a attempt 0 lastErr = TileFailed lastErr"
| "render_attempts a attempt (Suc left) lastErr =
     (case ta_fetch a attempt of
        Inl err \<Rightarrow> render_attempts a (Suc attempt) left err
      | Inr n \<Rightarrow>
          (case ta_exists_after a attempt of
             Inr True \<Rightarrow> TileDone n
           | Inr False \<Rightarrow> render_attempts a (Suc attempt) left ''tile was not persisted; check cache quotas''
           | Inl err \<Rightarrow> render_attempts a (Suc attempt) left err))"

definition processTile :: "tile_answers \<Rightarrow> int \<Rightarrow> Operation \<Rightarrow> tile_outcome" where
  "processTile a maxRetries oper =
     (case ta_identity_error a of
        Some err \<Rightarrow> TileFailed err
      | None \<Rightarrow>
          if oper = OperationSeed \<and> ta_exists a \<noteq> Inr False
          then (case ta_exists a of Inl err \<Rightarrow> TileFailed err | Inr _ \<Rightarrow> TileSkipped)
          else if oper = OperationTruncate
          then (case ta_delete a of Inl err \<Rightarrow> TileFailed err | Inr (entries, bytes) \<Rightarrow> if entries = 0 then TileSkipped else TileDone bytes)
          else render_attempts a 0 (nat (maxRetries + 1)) [])"

section \<open>Claiming and quiescing\<close>

record jobs_manager =
  jm_blockedWorkspaces :: "string set"
  jm_blockedResources :: "(string, string set) gomap"

definition lifecycleBlocked :: "jobs_manager \<Rightarrow> string \<Rightarrow> string \<Rightarrow> bool \<Rightarrow> bool" where
  "lifecycleBlocked m workspaceID resourceID allResources =
     (workspaceID \<in> jm_blockedWorkspaces m
      \<or> (case map_of (jm_blockedResources m) workspaceID of None \<Rightarrow> False | Some rs \<Rightarrow> allResources \<or> resourceID \<in> rs))"

definition job_blocked :: "jobs_manager \<Rightarrow> Job \<Rightarrow> bool" where
  "job_blocked m j = lifecycleBlocked m (jb_WorkspaceID j) (rq_ResourceID (jb_Request j)) (rq_AllResources (jb_Request j))"

definition quiesce_block :: "string \<Rightarrow> string list \<Rightarrow> jobs_manager \<Rightarrow> jobs_manager" where
  "quiesce_block workspaceID resourceIDs m =
     (if resourceIDs = [] then m\<lparr>jm_blockedWorkspaces := insert workspaceID (jm_blockedWorkspaces m)\<rparr>
      else let old = (case map_of (jm_blockedResources m) workspaceID of None \<Rightarrow> {} | Some rs \<Rightarrow> rs)
           in m\<lparr>jm_blockedResources := AList.update workspaceID (old \<union> set resourceIDs) (jm_blockedResources m)\<rparr>)"

text \<open>A claimed job whose scope is quiesced is cancelled and not handed out.\<close>

definition claimNext :: "jobs_manager \<Rightarrow> instant \<Rightarrow> job_tables \<Rightarrow> Job option \<times> job_tables" where
  "claimNext m now t =
     (case ClaimNextTileCacheJob now t of
        (None, t1) \<Rightarrow> (None, t1)
      | (Some j, t1) \<Rightarrow>
          if job_blocked m j
          then (None, save_job True (jb_ID j) (no_update\<lparr>up_Status := Some JobCancelled, up_CompletedAt := Some now\<rparr>) now t1)
          else (Some j, t1))"

end
