(* ===== verification/Tile_Job_Properties.thy ===== *)
theory Tile_Job_Properties
  imports Tile_Jobs
begin

text \<open>
  What the durable tile jobs promise: the chunks of a job partition its tiles, work is resumed at the
  stored position, every claimable job is handed out once and oldest first, a quiesced scope is not
  worked on, and, as far as the code goes, what a cancelled, resumed or freshly created job reports.
\<close>

section \<open>Blocks of a range\<close>

lemma steps_iff: "0 < s \<Longrightarrow> x \<in> set (steps lo hi s) \<longleftrightarrow> lo \<le> x \<and> x \<le> hi \<and> s dvd x - lo"
proof (induction lo hi s rule: steps.induct)
  case (1 lo hi s)
  show ?case
  proof (cases "lo > hi")
    case True
    then show ?thesis by (subst steps.simps) auto
  next
    case False
    have "s dvd x - (lo + s) \<longleftrightarrow> s dvd x - lo" by (metis diff_diff_eq dvd_refl dvd_diff_commute zdvd_zdiffD dvd_diff)
    moreover have "s \<le> x - lo" if "s dvd x - lo" "lo < x" using that zdvd_imp_le by fastforce
    ultimately show ?thesis using False 1 by (subst steps.simps) (auto simp: algebra_simps)
  qed
qed

lemma distinct_steps: "distinct (steps lo hi s)"
proof (induction lo hi s rule: steps.induct)
  case (1 lo hi s)
  then show ?case by (subst steps.simps) (auto simp: steps_iff)
qed

text \<open>Every value of the range is in the block of exactly one step.\<close>

definition block_of :: "int \<Rightarrow> int \<Rightarrow> int \<Rightarrow> int" where
  "block_of lo s v = lo + (v - lo) div s * s"

lemma block_of_step:
  assumes "0 < s" "lo \<le> v" "v \<le> hi"
  shows "block_of lo s v \<in> set (steps lo hi s) \<and> block_of lo s v \<le> v \<and> v \<le> block_of lo s v + s - 1"
proof -
  have "(v - lo) div s * s + (v - lo) mod s = v - lo" by (rule div_mult_mod_eq)
  moreover have "0 \<le> (v - lo) mod s" "(v - lo) mod s < s" using assms(1) by simp_all
  ultimately have "block_of lo s v \<le> v" "v \<le> block_of lo s v + s - 1" unfolding block_of_def by linarith+
  moreover have "0 \<le> (v - lo) div s * s" using assms by (simp add: pos_imp_zdiv_nonneg_iff)
  ultimately show ?thesis using assms by (auto simp: steps_iff) (simp_all add: block_of_def)
qed

lemma block_unique:
  assumes "0 < s" "x \<in> set (steps lo hi s)" "x \<le> v" "v \<le> x + s - 1"
  shows "x = block_of lo s v"
proof -
  obtain k where k: "x = lo + s * k" using assms(1, 2) by (auto simp: steps_iff dvd_def) (metis add.commute diff_add_cancel)
  have "(v - lo) div s = k"
    by (rule int_div_pos_eq [of _ _ _ "v - x"]) (use assms k in auto)
  with k show ?thesis by (simp add: block_of_def)
qed

section \<open>Tiles of a chunk\<close>

definition chunk_tiles :: "JobChunk \<Rightarrow> (int \<times> int \<times> int) list" where
  "chunk_tiles c = map (tile_at c) [0..chunk_total c - 1]"

definition in_chunk :: "JobChunk \<Rightarrow> int \<times> int \<times> int \<Rightarrow> bool" where
  "in_chunk c tile = (case tile of (zoom, column, row) \<Rightarrow>
     zoom = ck_Zoom c \<and> ck_MinCol c \<le> column \<and> column \<le> ck_MaxCol c \<and> ck_MinRow c \<le> row \<and> row \<le> ck_MaxRow c)"

definition chunk_ok :: "JobChunk \<Rightarrow> bool" where
  "chunk_ok c = (ck_MinCol c \<le> ck_MaxCol c \<and> ck_MinRow c \<le> ck_MaxRow c)"

lemma offset_bounds:
  assumes "chunk_ok c" "0 \<le> k" "k < chunk_total c"
  shows "0 \<le> k mod chunk_width c \<and> k mod chunk_width c < chunk_width c \<and> 0 \<le> k div chunk_width c \<and> k div chunk_width c \<le> ck_MaxRow c - ck_MinRow c"
proof -
  have w: "0 < chunk_width c" using assms(1) by (simp add: chunk_ok_def chunk_width_def)
  have "k div chunk_width c \<le> (chunk_total c - 1) div chunk_width c" using assms(3) w by (intro zdiv_mono1) auto
  also have "(chunk_total c - 1) div chunk_width c = ck_MaxRow c - ck_MinRow c"
    by (rule int_div_pos_eq [of _ _ _ "chunk_width c - 1"]) (use w in \<open>auto simp: chunk_total_def algebra_simps\<close>)
  finally have "k div chunk_width c \<le> ck_MaxRow c - ck_MinRow c" .
  with w assms(2) show ?thesis by (simp add: pos_imp_zdiv_nonneg_iff)
qed

lemma set_chunk_tiles: "chunk_ok c \<Longrightarrow> tile \<in> set (chunk_tiles c) \<longleftrightarrow> in_chunk c tile"
proof
  assume ok: "chunk_ok c" and "tile \<in> set (chunk_tiles c)"
  then obtain k where "tile = tile_at c k" "0 \<le> k" "k < chunk_total c" by (auto simp: chunk_tiles_def)
  with offset_bounds [OF ok, of k] show "in_chunk c tile" by (simp add: in_chunk_def tile_at_def) (simp add: chunk_width_def)
next
  assume ok: "chunk_ok c" and i: "in_chunk c tile"
  obtain z x y where tile: "tile = (z, x, y)" by (cases tile)
  define a b where "a = x - ck_MinCol c" and "b = y - ck_MinRow c"
  have ab: "0 \<le> a" "a < chunk_width c" "0 \<le> b" "b \<le> ck_MaxRow c - ck_MinRow c" "z = ck_Zoom c"
    using i by (auto simp: tile in_chunk_def a_def b_def chunk_width_def)
  have "b * chunk_width c \<le> (ck_MaxRow c - ck_MinRow c) * chunk_width c" using ab by (intro mult_right_mono) auto
  then have "a + b * chunk_width c < chunk_total c" using ab by (simp add: chunk_total_def algebra_simps)
  moreover have "tile_at c (a + b * chunk_width c) = tile" using ab by (simp add: tile tile_at_def a_def b_def)
  ultimately show "tile \<in> set (chunk_tiles c)" unfolding chunk_tiles_def set_map using ab
    by (intro image_eqI [of _ _ "a + b * chunk_width c"]) auto
qed

lemma distinct_chunk_tiles:
  assumes "chunk_ok c"
  shows "distinct (chunk_tiles c)"
proof -
  have "k = l" if "tile_at c k = tile_at c l" for k l
    using that by (simp add: tile_at_def) (metis mult_div_mod_eq)
  then show ?thesis by (auto simp: chunk_tiles_def distinct_map inj_on_def)
qed

lemma length_chunk_tiles: "chunk_ok c \<Longrightarrow> int (length (chunk_tiles c)) = chunk_total c"
  by (simp add: chunk_tiles_def chunk_total_def chunk_ok_def chunk_width_def)

definition job_tiles :: "JobChunk list \<Rightarrow> (int \<times> int \<times> int) list" where
  "job_tiles cs = concat (map chunk_tiles cs)"

lemma job_tiles_simps [simp]: "job_tiles [] = []" "job_tiles (xs @ ys) = job_tiles xs @ job_tiles ys"
  by (simp_all add: job_tiles_def)

section \<open>The chunks of a range\<close>

definition in_range :: "int \<Rightarrow> int \<times> int \<times> int \<times> int \<Rightarrow> int \<times> int \<times> int \<Rightarrow> bool" where
  "in_range zoom rng tile =
     (case (rng, tile) of ((minCol, maxCol, minRow, maxRow), (z, column, row)) \<Rightarrow>
        z = zoom \<and> minCol \<le> column \<and> column \<le> maxCol \<and> minRow \<le> row \<and> row \<le> maxRow)"

lemma in_range_zoom: "in_range z rng tile \<Longrightarrow> fst tile = z"
  by (cases tile) (auto simp: in_range_def split: prod.splits)

lemma chunk_at_simps [simp]:
  "ck_Zoom (chunk_at z mc mr cb rb r c) = z" "ck_MinCol (chunk_at z mc mr cb rb r c) = c" "ck_MaxCol (chunk_at z mc mr cb rb r c) = min mc (c + cb - 1)"
  "ck_MinRow (chunk_at z mc mr cb rb r c) = r" "ck_MaxRow (chunk_at z mc mr cb rb r c) = min mr (r + rb - 1)"
  by (simp_all add: chunk_at_def)

lemma distinct_concat_map:
  assumes "distinct xs" "\<And>x. x \<in> set xs \<Longrightarrow> distinct (f x)" "\<And>x y. x \<in> set xs \<Longrightarrow> y \<in> set xs \<Longrightarrow> x \<noteq> y \<Longrightarrow> set (f x) \<inter> set (f y) = {}"
  shows "distinct (concat (map f xs))"
  using assms
proof (induction xs)
  case (Cons x xs)
  have "set (f x) \<inter> set (concat (map f xs)) = {}" using Cons.prems(1, 3) by fastforce
  with Cons show ?case by simp
qed simp

text \<open>One pair of block origins per chunk.\<close>

fun col_block :: "int \<times> int \<times> int \<times> int \<Rightarrow> int" where
  "col_block (minCol, maxCol, minRow, maxRow) = min (maxCol - minCol + 1) 32"

definition row_block :: "int \<times> int \<times> int \<times> int \<Rightarrow> int" where
  "row_block rng = max 1 (1024 div col_block rng)"

fun origins :: "int \<times> int \<times> int \<times> int \<Rightarrow> (int \<times> int) list" where
  "origins (minCol, maxCol, minRow, maxRow) =
     List.product (steps minRow maxRow (row_block (minCol, maxCol, minRow, maxRow))) (steps minCol maxCol (col_block (minCol, maxCol, minRow, maxRow)))"

fun block_chunk :: "int \<Rightarrow> int \<times> int \<times> int \<times> int \<Rightarrow> int \<times> int \<Rightarrow> JobChunk" where
  "block_chunk zoom (minCol, maxCol, minRow, maxRow) (row, column) =
     chunk_at zoom maxCol maxRow (col_block (minCol, maxCol, minRow, maxRow)) (row_block (minCol, maxCol, minRow, maxRow)) row column"

lemma range_chunks_blocks: "range_chunks zoom rng = map (block_chunk zoom rng) (origins rng)"
  by (cases rng) (simp add: range_chunks_def Let_def product_concat_map map_concat comp_def row_block_def)

lemma block_sizes:
  assumes "\<not> range_empty rng"
  shows "1 \<le> col_block rng" "1 \<le> row_block rng" "col_block rng * row_block rng \<le> 1024"
proof -
  show 1: "1 \<le> col_block rng" "1 \<le> row_block rng" using assms by (cases rng; simp add: range_empty_def row_block_def)+
  have 32: "col_block rng \<le> 32" by (cases rng) simp
  have "1024 div 32 \<le> 1024 div col_block rng" using 1 32 by (intro zdiv_mono2) auto
  then have rb: "row_block rng = 1024 div col_block rng" by (simp add: row_block_def)
  have "1024 div col_block rng * col_block rng + 1024 mod col_block rng = 1024" "0 \<le> 1024 mod col_block rng"
    using 1 by (auto intro: div_mult_mod_eq)
  then show "col_block rng * row_block rng \<le> 1024" unfolding rb mult.commute [of "col_block rng"] by linarith
qed

lemma distinct_origins: "distinct (origins rng)"
proof -
  have "distinct xs \<Longrightarrow> distinct ys \<Longrightarrow> distinct (List.product xs ys)" for xs ys :: "int list"
    by (induction xs) (auto simp: distinct_map inj_on_def)
  then show ?thesis by (cases rng) (simp add: distinct_steps)
qed

lemma block_chunk_ok:
  assumes "\<not> range_empty rng" "q \<in> set (origins rng)"
  shows "chunk_ok (block_chunk zoom rng q)" "chunk_total (block_chunk zoom rng q) \<le> 1024"
proof -
  let ?c = "block_chunk zoom rng q"
  obtain minCol maxCol minRow maxRow r k where e: "rng = (minCol, maxCol, minRow, maxRow)" "q = (r, k)" by (cases rng; cases q)
  note b = block_sizes [OF assms(1)]
  show ok: "chunk_ok ?c" using assms(2) b by (auto simp: e chunk_ok_def steps_iff)
  have "chunk_width ?c \<le> col_block rng" "ck_MaxRow ?c - ck_MinRow ?c + 1 \<le> row_block rng" "0 \<le> ck_MaxRow ?c - ck_MinRow ?c + 1"
    using ok by (auto simp: e chunk_width_def chunk_ok_def)
  then have "chunk_total ?c \<le> col_block rng * row_block rng" unfolding chunk_total_def using b by (intro mult_mono) auto
  with b(3) show "chunk_total ?c \<le> 1024" by simp
qed

text \<open>A tile of the range is in exactly one block.\<close>

lemma block_chunk_tiles:
  assumes ne: "\<not> range_empty (minCol, maxCol, minRow, maxRow)" (is "\<not> range_empty ?rng")
  shows "q \<in> set (origins ?rng) \<and> in_chunk (block_chunk zoom ?rng q) (z, x, y)
    \<longleftrightarrow> in_range zoom ?rng (z, x, y) \<and> q = (block_of minRow (row_block ?rng) y, block_of minCol (col_block ?rng) x)"
proof -
  define cb rb where "cb = col_block ?rng" and "rb = row_block ?rng"
  have b: "0 < cb" "0 < rb" using block_sizes [OF ne] unfolding cb_def rb_def by linarith+
  obtain r k where q: "q = (r, k)" by fastforce
  have step: "v \<in> set (steps lo hi s) \<and> v \<le> w \<and> w \<le> min hi (v + s - 1) \<longleftrightarrow> lo \<le> w \<and> w \<le> hi \<and> v = block_of lo s w"
    if "0 < s" for v w lo hi s :: int
    using that block_of_step [of s lo w hi] block_unique [of s v lo hi w] by (auto simp: steps_iff)
  have "q \<in> set (origins ?rng) \<and> in_chunk (block_chunk zoom ?rng q) (z, x, y) \<longleftrightarrow>
      z = zoom \<and> (r \<in> set (steps minRow maxRow rb) \<and> r \<le> y \<and> y \<le> min maxRow (r + rb - 1)) \<and> (k \<in> set (steps minCol maxCol cb) \<and> k \<le> x \<and> x \<le> min maxCol (k + cb - 1))"
    by (auto simp: q in_chunk_def cb_def rb_def simp del: col_block.simps)
  then show ?thesis unfolding step [OF b(1)] step [OF b(2)] by (auto simp: q in_range_def cb_def rb_def)
qed

lemma range_chunks_exact:
  assumes ne: "\<not> range_empty rng"
  shows "distinct (job_tiles (range_chunks zoom rng))"
    and "tile \<in> set (job_tiles (range_chunks zoom rng)) \<longleftrightarrow> in_range zoom rng tile"
proof -
  obtain minCol maxCol minRow maxRow where rng: "rng = (minCol, maxCol, minRow, maxRow)" by (cases rng)
  note tiles = block_chunk_tiles [OF ne [unfolded rng], of _ zoom, folded rng]
  have mem: "t \<in> set (chunk_tiles (block_chunk zoom rng q)) \<longleftrightarrow> in_chunk (block_chunk zoom rng q) t" if "q \<in> set (origins rng)" for q t
    by (rule set_chunk_tiles [OF block_chunk_ok(1) [OF ne that]])
  have disj: "set (chunk_tiles (block_chunk zoom rng q)) \<inter> set (chunk_tiles (block_chunk zoom rng q')) = {}"
    if "q \<in> set (origins rng)" "q' \<in> set (origins rng)" "q \<noteq> q'" for q q'
  proof (rule ccontr)
    assume "\<not> ?thesis"
    then obtain z x y where "(z, x, y) \<in> set (chunk_tiles (block_chunk zoom rng q))" "(z, x, y) \<in> set (chunk_tiles (block_chunk zoom rng q'))"
      by auto
    then have "in_chunk (block_chunk zoom rng q) (z, x, y)" "in_chunk (block_chunk zoom rng q') (z, x, y)"
      using mem [OF that(1)] mem [OF that(2)] by blast+
    with that tiles [of q z x y] tiles [of q' z x y] show False by auto
  qed
  show "distinct (job_tiles (range_chunks zoom rng))" unfolding range_chunks_blocks job_tiles_def map_map
    by (rule distinct_concat_map [OF distinct_origins]) (simp_all add: distinct_chunk_tiles block_chunk_ok [OF ne] disj)
  obtain z x y where tile: "tile = (z, x, y)" by (cases tile)
  show "tile \<in> set (job_tiles (range_chunks zoom rng)) \<longleftrightarrow> in_range zoom rng tile"
  proof -
    have "tile \<in> set (job_tiles (range_chunks zoom rng)) \<longleftrightarrow> (\<exists>q \<in> set (origins rng). in_chunk (block_chunk zoom rng q) (z, x, y))"
      using mem by (simp add: range_chunks_blocks job_tiles_def tile)
    then show ?thesis using tiles [of _ z x y] by (auto simp: tile)
  qed
qed

section \<open>All zoom levels\<close>

definition level_range :: "float_ops \<Rightarrow> TileMatrixSetDefinition \<Rightarrow> bbox \<Rightarrow> int \<Rightarrow> int \<times> int \<times> int \<times> int" where
  "level_range F td box zoom = clamp_range (td_TileMatrices td ! nat zoom) (fo_range F (td_TileMatrices td ! nat zoom) box)"

definition level_chunks :: "float_ops \<Rightarrow> TileMatrixSetDefinition \<Rightarrow> bbox \<Rightarrow> int \<Rightarrow> JobChunk list" where
  "level_chunks F td box zoom = (if range_empty (level_range F td box zoom) then [] else range_chunks zoom (level_range F td box zoom))"

definition level_size :: "float_ops \<Rightarrow> TileMatrixSetDefinition \<Rightarrow> bbox \<Rightarrow> int \<Rightarrow> int" where
  "level_size F td box zoom = (if range_empty (level_range F td box zoom) then 0 else range_size (level_range F td box zoom))"

lemma zoom_loop_levels:
  "0 \<le> zoom \<Longrightarrow> zoom_loop F td box zoom maxZoom chunks n =
     (if zoom \<le> maxZoom \<and> int (length (td_TileMatrices td)) \<le> maxZoom then Inl Panic
      else Inr (chunks @ concat (map (level_chunks F td box) [zoom..maxZoom]), n + (\<Sum>z\<leftarrow>[zoom..maxZoom]. level_size F td box z)))"
proof (induction F td box zoom maxZoom chunks n rule: zoom_loop.induct)
  case (1 F td box zoom maxZoom chunks n)
  show ?case
  proof (cases "zoom \<le> maxZoom \<and> nat zoom < length (td_TileMatrices td)")
    case True
    then have "[zoom..maxZoom] = zoom # [zoom + 1..maxZoom]" by (simp add: upto_rec1)
    with True 1 show ?thesis
      by (subst zoom_loop.simps) (auto simp: Let_def level_chunks_def level_size_def level_range_def)
  next
    case False
    then show ?thesis using 1(3) by (subst zoom_loop.simps) auto
  qed
qed

text \<open>The tiles of a range and its size.\<close>

lemma range_tiles_length:
  assumes "\<not> range_empty rng"
  shows "int (length (job_tiles (range_chunks zoom rng))) = range_size rng"
proof -
  obtain minCol maxCol minRow maxRow where rng: "rng = (minCol, maxCol, minRow, maxRow)" by (cases rng)
  let ?L = "job_tiles (range_chunks zoom rng)"
  have "set ?L = {zoom} \<times> {minCol..maxCol} \<times> {minRow..maxRow}"
  proof (rule set_eqI)
    fix tile
    show "tile \<in> set ?L \<longleftrightarrow> tile \<in> {zoom} \<times> {minCol..maxCol} \<times> {minRow..maxRow}"
      unfolding range_chunks_exact(2) [OF assms] by (cases tile) (auto simp: rng in_range_def)
  qed
  then have "card (set ?L) = nat (maxCol - minCol + 1) * nat (maxRow - minRow + 1)" by (simp add: card_cartesian_product)
  moreover have "card (set ?L) = length ?L" by (rule distinct_card [OF range_chunks_exact(1) [OF assms]])
  ultimately have "int (length ?L) = int (nat (maxCol - minCol + 1) * nat (maxRow - minRow + 1))" by simp
  then show ?thesis using assms by (simp add: rng range_size_def range_empty_def)
qed

lemma level_exact:
  "distinct (job_tiles (level_chunks F td box zoom))"
  "tile \<in> set (job_tiles (level_chunks F td box zoom)) \<longleftrightarrow> in_range zoom (level_range F td box zoom) tile"
  "int (length (job_tiles (level_chunks F td box zoom))) = level_size F td box zoom"
  "c \<in> set (level_chunks F td box zoom) \<Longrightarrow> chunk_total c \<le> 1024"
proof -
  let ?r = "level_range F td box zoom"
  have empty: "\<not> in_range zoom ?r tile" if "range_empty ?r" using that by (auto simp: in_range_def range_empty_def split: prod.splits)
  show "distinct (job_tiles (level_chunks F td box zoom))"
    "tile \<in> set (job_tiles (level_chunks F td box zoom)) \<longleftrightarrow> in_range zoom ?r tile"
    "int (length (job_tiles (level_chunks F td box zoom))) = level_size F td box zoom"
    using range_chunks_exact [of ?r] range_tiles_length [of ?r zoom] empty by (auto simp: level_chunks_def level_size_def)
  show "chunk_total c \<le> 1024" if "c \<in> set (level_chunks F td box zoom)"
    using that block_chunk_ok(2) [of ?r] by (auto simp: level_chunks_def range_chunks_blocks split: if_splits)
qed

lemma levels_exact:
  "distinct zs \<Longrightarrow> distinct (job_tiles (concat (map (level_chunks F td box) zs)))
   \<and> (\<forall>tile. tile \<in> set (job_tiles (concat (map (level_chunks F td box) zs))) \<longleftrightarrow> (\<exists>z \<in> set zs. in_range z (level_range F td box z) tile))
   \<and> int (length (job_tiles (concat (map (level_chunks F td box) zs)))) = (\<Sum>z\<leftarrow>zs. level_size F td box z)"
proof (induction zs)
  case (Cons z zs)
  let ?A = "job_tiles (level_chunks F td box z)" and ?B = "job_tiles (concat (map (level_chunks F td box) zs))"
  have IH: "distinct ?B" "tile \<in> set ?B \<longleftrightarrow> (\<exists>z \<in> set zs. in_range z (level_range F td box z) tile)" "int (length ?B) = (\<Sum>z\<leftarrow>zs. level_size F td box z)" for tile
    using Cons by (auto simp del: split_paired_All split_paired_Ex)
  have split: "job_tiles (concat (map (level_chunks F td box) (z # zs))) = ?A @ ?B" by simp
  have "set ?A \<inter> set ?B = {}"
  proof -
    have "fst tile = z" if "tile \<in> set ?A" for tile using that level_exact(2) in_range_zoom by blast
    moreover have "fst tile \<in> set zs" if "tile \<in> set ?B" for tile using that IH(2) in_range_zoom by blast
    ultimately show ?thesis using Cons.prems by fastforce
  qed
  then have "distinct (?A @ ?B)" "int (length (?A @ ?B)) = (\<Sum>z\<leftarrow>z # zs. level_size F td box z)"
    using IH(1, 3) level_exact(1, 3) [of F td box z] by simp_all
  moreover have "tile \<in> set (?A @ ?B) \<longleftrightarrow> (\<exists>z \<in> set (z # zs). in_range z (level_range F td box z) tile)" for tile
    using IH(2) [of tile] level_exact(2) [of tile F td box z] by simp
  ultimately show ?case unfolding split by blast
qed simp

section \<open>Running a chunk to its end\<close>

text \<open>What a run adds: a stretch of tiles from where it started, each counted once.\<close>

lemma count_outcome_counters:
  "js_processed (snd (count_outcome out (c, s))) = js_processed s + 1"
  "js_succeeded (snd (count_outcome out (c, s))) + js_skipped (snd (count_outcome out (c, s))) + js_failed (snd (count_outcome out (c, s)))
     = js_succeeded s + js_skipped s + js_failed s + 1"
  by (simp_all add: count_outcome_def Let_def split: tile_outcome.splits)

definition same_area :: "JobChunk \<Rightarrow> JobChunk \<Rightarrow> bool" where
  "same_area c c' = ((ck_Zoom c', ck_MinCol c', ck_MaxCol c', ck_MinRow c', ck_MaxRow c', ck_ID c') = (ck_Zoom c, ck_MinCol c, ck_MaxCol c, ck_MinRow c, ck_MaxRow c, ck_ID c))"

lemma same_area_facts:
  assumes "same_area c c'"
  shows "tile_at c' = tile_at c" "chunk_total c' = chunk_total c"
  using assms by (simp_all add: same_area_def fun_eq_iff tile_at_def chunk_total_def chunk_width_def)

definition outcomes :: "jobState \<Rightarrow> int" where
  "outcomes s = js_succeeded s + js_skipped s + js_failed s"

definition progressed :: "int \<Rightarrow> chunk_run \<Rightarrow> chunk_run \<Rightarrow> bool" where
  "progressed n r r' =
     (let c = cr_chunk r; c' = cr_chunk r'; k = ck_NextOffset c
      in 0 \<le> n \<and> k + n \<le> chunk_total c \<and> same_area c c' \<and> ck_NextOffset c' = k + n
         \<and> cr_tiles r' = cr_tiles r @ map (tile_at c) [k..k + n - 1]
         \<and> js_processed (cr_state r') = js_processed (cr_state r) + n \<and> outcomes (cr_state r') = outcomes (cr_state r) + n
         \<and> (ck_Status c' = ''succeeded'' \<and> k + n = chunk_total c \<or> ck_Status c' = ''queued'' \<and> js_interrupted (cr_state r')
             \<or> ck_Status c' = ''cancelled'' \<and> js_cancelled (cr_state r')))"

lemma progressed_step:
  assumes "progressed n r1 r'" "ck_NextOffset (cr_chunk r) < chunk_total (cr_chunk r)"
    and "same_area (cr_chunk r) (cr_chunk r1)" "ck_NextOffset (cr_chunk r1) = ck_NextOffset (cr_chunk r) + 1"
    and "cr_tiles r1 = cr_tiles r @ [tile_at (cr_chunk r) (ck_NextOffset (cr_chunk r))]"
    and "js_processed (cr_state r1) = js_processed (cr_state r) + 1" "outcomes (cr_state r1) = outcomes (cr_state r) + 1"
  shows "progressed (n + 1) r r'"
proof -
  note same = same_area_facts [OF assms(3)]
  have "[ck_NextOffset (cr_chunk r)..ck_NextOffset (cr_chunk r) + n] = ck_NextOffset (cr_chunk r) # [ck_NextOffset (cr_chunk r) + 1..ck_NextOffset (cr_chunk r) + n]"
    using assms(1) by (simp add: upto_rec1 progressed_def Let_def)
  moreover have "same_area (cr_chunk r) (cr_chunk r')" using assms(1, 3) by (simp add: progressed_def same_area_def Let_def)
  ultimately show ?thesis using assms(1, 4-7) same by (simp add: progressed_def Let_def add.assoc) (auto simp: algebra_simps)
qed

lemma chunk_loop_spec: "ck_NextOffset (cr_chunk r) \<le> chunk_total (cr_chunk r) \<Longrightarrow> \<exists>n. progressed n r (chunk_loop ev now r)"
proof (induction ev now r rule: chunk_loop.induct)
  case (1 ev now r)
  define c s e where "c = cr_chunk r" and "s = cr_state r" and "e = ev (ck_NextOffset c)"
  define t1 where "t1 = ev_before e (cr_tables r)"
  show ?case
  proof (cases "ck_NextOffset c < chunk_total c \<and> \<not> ev_done e \<and> \<not> cancelRequested (jb_ID (js_job s)) t1")
    case False
    then have "progressed 0 r (chunk_loop ev now r)" using 1(2)
      by (subst chunk_loop.simps) (auto simp: progressed_def same_area_def outcomes_def Let_def chunk_total_def chunk_width_def c_def s_def e_def t1_def)
    then show ?thesis by blast
  next
    case True
    let ?cs = "count_outcome (ev_outcome e) (c, s)"
    let ?r1 = "\<lparr>cr_chunk = fst ?cs, cr_state = snd ?cs,
        cr_tables = save_job (ev_job_saved e) (jb_ID (js_job s)) (jobState_update (snd ?cs) JobRunning [] None) now (save_chunk (ev_chunk_saved e) (fst ?cs) now (ev_during e t1)),
        cr_tiles = cr_tiles r @ [tile_at c (ck_NextOffset c)]\<rparr>"
    have loop: "chunk_loop ev now r = chunk_loop ev now ?r1"
      using True by (subst chunk_loop.simps) (simp add: Let_def c_def s_def e_def t1_def)
    have "\<exists>n. progressed n ?r1 (chunk_loop ev now ?r1)"
      by (rule 1(1) [OF c_def s_def e_def refl _ _ t1_def _ refl refl refl refl]) (use True in auto)
    then obtain n where n: "progressed n ?r1 (chunk_loop ev now ?r1)" by blast
    have "progressed (n + 1) r (chunk_loop ev now ?r1)"
      by (rule progressed_step [OF n]) (use True in \<open>auto simp: c_def s_def same_area_def outcomes_def count_outcome_counters\<close>)
    then show ?thesis unfolding loop by blast
  qed
qed

section \<open>What is stored of a chunk\<close>

text \<open>The row of a chunk, less the columns a resumption does not depend on: its area, its position and whether it is done.\<close>

definition fixed_part :: "JobChunk \<Rightarrow> JobChunk" where
  "fixed_part c = c\<lparr>ck_Status := (if ck_Status c = ''succeeded'' then ''succeeded'' else []), ck_Attempts := 0, ck_LastError := [], ck_UpdatedAt := 0\<rparr>"

definition chunk_view :: "string \<Rightarrow> job_tables \<Rightarrow> JobChunk list" where
  "chunk_view cid t = map fixed_part (filter (\<lambda>c. ck_ID c = cid) (jt_chunks t))"

definition spares :: "string \<Rightarrow> (job_tables \<Rightarrow> job_tables) \<Rightarrow> bool" where
  "spares cid f = (\<forall>t. chunk_view cid (f t) = chunk_view cid t)"

lemma update_jobs_view [simp]: "chunk_view cid (update_jobs P f t) = chunk_view cid t"
  by (simp add: chunk_view_def update_jobs_def)

lemma view_of_rows:
  assumes "\<And>c. ck_ID (f c) = ck_ID c" "\<And>c. ck_ID c = cid \<Longrightarrow> fixed_part (f c) = g (fixed_part c)"
  shows "chunk_view cid (t\<lparr>jt_chunks := map f (jt_chunks t)\<rparr>) = map g (chunk_view cid t)"
proof -
  have "map fixed_part (filter (\<lambda>c. ck_ID c = cid) (map f cs)) = map g (map fixed_part (filter (\<lambda>c. ck_ID c = cid) cs))" for cs
    using assms by (induction cs) simp_all
  then show ?thesis by (simp add: chunk_view_def)
qed

lemma save_job_view [simp]: "chunk_view cid (save_job ok jobid u now t) = chunk_view cid t"
  by (simp add: save_job_def UpdateTileCacheJob_def bind_res_def Let_def split: sum.splits)

lemma save_chunk_view:
  "chunk_view cid (save_chunk ok c now t) =
     (if ok \<and> ck_ID c = cid then map (\<lambda>v. v\<lparr>ck_NextOffset := ck_NextOffset c, ck_Status := ck_Status (fixed_part c)\<rparr>) (chunk_view cid t)
      else chunk_view cid t)"
proof -
  let ?f = "\<lambda>r. if ck_ID r = ck_ID c then r\<lparr>ck_NextOffset := ck_NextOffset c, ck_Status := ck_Status c, ck_Attempts := ck_Attempts c, ck_LastError := ck_LastError c, ck_UpdatedAt := now\<rparr> else r"
  have "chunk_view cid (t\<lparr>jt_chunks := map ?f (jt_chunks t)\<rparr>) = map (\<lambda>v. v\<lparr>ck_NextOffset := ck_NextOffset c, ck_Status := ck_Status (fixed_part c)\<rparr>) (chunk_view cid t)"
    if "ck_ID c = cid" by (rule view_of_rows) (use that in \<open>simp_all add: fixed_part_def\<close>)
  moreover have "chunk_view cid (t\<lparr>jt_chunks := map ?f (jt_chunks t)\<rparr>) = map (\<lambda>v. v) (chunk_view cid t)" if "ck_ID c \<noteq> cid"
    by (rule view_of_rows) (use that in simp_all)
  ultimately show ?thesis by (simp add: save_chunk_def UpdateTileCacheJobChunk_def)
qed

text \<open>What other goroutines do to the tables between two runs and beside a run leaves the row alone: cancellations,
  claims, the reset at a start, progress updates of jobs, and checkpoints of other chunks.\<close>

lemma others_spare:
  "spares cid (\<lambda>t. t)" "spares cid (\<lambda>t. snd (RequestTileCacheJobCancel jobid now t))" "spares cid (\<lambda>t. snd (ClaimNextTileCacheJob now t))"
  "spares cid (ResetInterruptedTileCacheJobs now)" "spares cid (save_job ok jobid u now)" "ck_ID c \<noteq> cid \<Longrightarrow> spares cid (save_chunk ok c now)"
proof -
  show "spares cid (ResetInterruptedTileCacheJobs now)" unfolding spares_def
  proof
    fix t
    have "chunk_view cid (t\<lparr>jt_chunks := map (\<lambda>c. if ck_Status c = ''running'' then c\<lparr>ck_Status := ''queued'', ck_UpdatedAt := now\<rparr> else c) (jt_chunks t)\<rparr>)
        = map (\<lambda>v. v) (chunk_view cid t)"
      by (rule view_of_rows) (simp_all add: fixed_part_def)
    then show "chunk_view cid (ResetInterruptedTileCacheJobs now t) = chunk_view cid t" by (simp add: ResetInterruptedTileCacheJobs_def Let_def)
  qed
qed (simp_all add: spares_def RequestTileCacheJobCancel_def ClaimNextTileCacheJob_def save_chunk_view Let_def split: sum.splits option.splits)

text \<open>How far the stored position may be behind: by the checkpoints that were lost.\<close>

definition lost_saves :: "(int \<Rightarrow> tile_event) \<Rightarrow> int \<Rightarrow> int \<Rightarrow> int" where
  "lost_saves ev a b = int (length (filter (\<lambda>k. \<not> ev_chunk_saved (ev k)) [a..b - 1]))"

lemma lost_saves_step: "a < b \<Longrightarrow> lost_saves ev a b = (if ev_chunk_saved (ev a) then 0 else 1) + lost_saves ev (a + 1) b"
  by (simp add: lost_saves_def upto_rec1)

lemma lost_saves_nonneg [simp]: "0 \<le> lost_saves ev a b"
  by (simp add: lost_saves_def)

definition lagging :: "(int \<Rightarrow> tile_event) \<Rightarrow> chunk_run \<Rightarrow> chunk_run \<Rightarrow> JobChunk \<Rightarrow> JobChunk \<Rightarrow> bool" where
  "lagging ev r r' v v' =
     (let k = ck_NextOffset (cr_chunk r); k' = ck_NextOffset (cr_chunk r')
      in same_area v v' \<and> ck_NextOffset v \<le> ck_NextOffset v' \<and> ck_NextOffset v' \<le> k'
         \<and> k' - ck_NextOffset v' \<le> k - ck_NextOffset v + lost_saves ev k k'
         \<and> (ck_Status v' = ''succeeded'' \<longrightarrow> ck_NextOffset v' = chunk_total v))"

definition stored_behind :: "chunk_run \<Rightarrow> JobChunk \<Rightarrow> bool" where
  "stored_behind r v =
     (chunk_view (ck_ID (cr_chunk r)) (cr_tables r) = [v] \<and> same_area v (cr_chunk r) \<and> ck_Status v \<noteq> ''succeeded''
      \<and> ck_Status (cr_chunk r) \<noteq> ''succeeded'' \<and> ck_NextOffset v \<le> ck_NextOffset (cr_chunk r) \<and> ck_NextOffset (cr_chunk r) \<le> chunk_total (cr_chunk r))"

lemma count_outcome_status [simp]: "ck_Status (fst (count_outcome out (c, s))) = ck_Status c"
  by (simp add: count_outcome_def Let_def split: tile_outcome.splits)

lemma same_area_update [simp]:
  "same_area (c\<lparr>ck_NextOffset := k, ck_Status := st\<rparr>) c' = same_area c c'" "same_area c (c'\<lparr>ck_NextOffset := k, ck_Status := st\<rparr>) = same_area c c'"
  "same_area c (c'\<lparr>ck_Status := st\<rparr>) = same_area c c'" "same_area c (fst (count_outcome out (c', s))) = same_area c c'"
  by (simp_all add: same_area_def)

lemma chunk_loop_stored:
  assumes "\<forall>k. spares cid (ev_before (ev k)) \<and> spares cid (ev_during (ev k))"
  shows "stored_behind r v \<Longrightarrow> ck_ID (cr_chunk r) = cid \<Longrightarrow>
    \<exists>v'. chunk_view cid (cr_tables (chunk_loop ev now r)) = [v'] \<and> lagging ev r (chunk_loop ev now r) v v'"
  using assms
proof (induction ev now r arbitrary: v rule: chunk_loop.induct)
  case (1 ev now r)
  define c s e where "c = cr_chunk r" and "s = cr_state r" and "e = ev (ck_NextOffset c)"
  define t1 where "t1 = ev_before e (cr_tables r)"
  have view: "chunk_view cid (cr_tables r) = [v]" "chunk_view cid t1 = [v]" "chunk_view cid (ev_during e t1) = [v]"
    using 1(2-4) by (auto simp: stored_behind_def spares_def t1_def e_def)
  have b: "same_area v c" "ck_Status v \<noteq> ''succeeded''" "ck_Status c \<noteq> ''succeeded''" "ck_NextOffset v \<le> ck_NextOffset c" "ck_ID c = cid" "ck_NextOffset c \<le> chunk_total c"
    using 1(2, 3) by (auto simp: stored_behind_def c_def)
  note tot = same_area_facts(2) [OF b(1)]
  show ?case
  proof (cases "ck_NextOffset c < chunk_total c \<and> \<not> ev_done e \<and> \<not> cancelRequested (jb_ID (js_job s)) t1")
    case False
    then show ?thesis using b view tot
      by (subst (1 2) chunk_loop.simps)
        (auto simp: Let_def lagging_def save_chunk_view fixed_part_def lost_saves_def same_area_def simp flip: c_def s_def e_def t1_def)
  next
    case True
    let ?cs = "count_outcome (ev_outcome e) (c, s)"
    let ?r1 = "\<lparr>cr_chunk = fst ?cs, cr_state = snd ?cs,
        cr_tables = save_job (ev_job_saved e) (jb_ID (js_job s)) (jobState_update (snd ?cs) JobRunning [] None) now (save_chunk (ev_chunk_saved e) (fst ?cs) now (ev_during e t1)),
        cr_tiles = cr_tiles r @ [tile_at c (ck_NextOffset c)]\<rparr>"
    have loop: "chunk_loop ev now r = chunk_loop ev now ?r1"
      using True by (subst chunk_loop.simps) (simp add: Let_def c_def s_def e_def t1_def)
    define v1 where "v1 = (if ev_chunk_saved e then v\<lparr>ck_NextOffset := ck_NextOffset c + 1, ck_Status := []\<rparr> else v)"
    have st: "stored_behind ?r1 v1" using b True view(3)
      by (auto simp: stored_behind_def v1_def save_chunk_view fixed_part_def)
    have "\<exists>v'. chunk_view cid (cr_tables (chunk_loop ev now ?r1)) = [v'] \<and> lagging ev ?r1 (chunk_loop ev now ?r1) v1 v'"
      by (rule 1(1) [OF c_def s_def e_def refl _ _ t1_def _ refl refl refl refl st]) (use True b 1(4) in auto)
    then obtain v' where v': "chunk_view cid (cr_tables (chunk_loop ev now ?r1)) = [v']" "lagging ev ?r1 (chunk_loop ev now ?r1) v1 v'" by blast
    obtain n where "progressed n ?r1 (chunk_loop ev now ?r1)" using chunk_loop_spec [of ?r1 ev now] True by auto
    then have "ck_NextOffset c < ck_NextOffset (cr_chunk (chunk_loop ev now ?r1))" by (simp add: progressed_def Let_def)
    from lost_saves_step [OF this, of ev] v'(2) b(4)
    have "lagging ev r (chunk_loop ev now ?r1) v v'"
      by (auto simp: lagging_def Let_def v1_def e_def chunk_total_def chunk_width_def same_area_def simp flip: c_def)
    with v'(1) show ?thesis unfolding loop by blast
  qed
qed

section \<open>Properties\<close>

text \<open>
  C38. The chunks of a job partition its tiles: when the chunks are built, the tiles they list are exactly the
  tiles of the clamped range of every zoom level, each listed once, in chunks of at most 1024 tiles, and
  the reported total is their number.
\<close>

theorem chunks_partition_tiles:
  assumes b: "buildChunks F (Some td) minZoom maxZoom requested = Inr (chunks, n)" and z: "0 \<le> minZoom"
    and w: "td_BoundingBox td = Some world" "fo_clip F requested world = Some box"
  shows "distinct (job_tiles chunks)
    \<and> (\<forall>tile. tile \<in> set (job_tiles chunks) \<longleftrightarrow> (\<exists>zoom \<in> {minZoom..maxZoom}. in_range zoom (level_range F td box zoom) tile))
    \<and> n = int (length (job_tiles chunks)) \<and> (\<forall>c \<in> set chunks. chunk_total c \<le> 1024)"
proof -
  have c: "chunks = concat (map (level_chunks F td box) [minZoom..maxZoom])" and n: "n = (\<Sum>z\<leftarrow>[minZoom..maxZoom]. level_size F td box z)"
    using b w zoom_loop_levels [OF z, of F td box maxZoom "[]" 0] by (auto simp: buildChunks_def split: if_splits)
  have "\<forall>c \<in> set chunks. chunk_total c \<le> 1024" unfolding c using level_exact(4) by auto
  with levels_exact [of "[minZoom..maxZoom]" F td box] n show ?thesis unfolding c by (simp del: split_paired_All split_paired_Ex)
qed

definition sample_matrix :: "int \<Rightarrow> TileMatrix" where
  "sample_matrix n = \<lparr>mx_ID = [], mx_CellSize = 0, mx_PointOfOrigin = (0, 0), mx_TileWidth = 256, mx_TileHeight = 256, mx_MatrixWidth = n, mx_MatrixHeight = n\<rparr>"

definition sample_set :: TileMatrixSetDefinition where
  "sample_set = \<lparr>td_ID = ''custom'', td_BoundingBox = Some (0, 0, 0, 0), td_TileMatrices = [sample_matrix 1, sample_matrix 2]\<rparr>"

definition sample_floats :: float_ops where
  "sample_floats = \<lparr>fo_clip = \<lambda>r w. Some r, fo_range = \<lambda>mx r. (0, 5, -1, 5)\<rparr>"

lemma chunks_partition_tiles_witness:
  "\<exists>chunks. buildChunks sample_floats (Some sample_set) 0 1 (0, 0, 0, 0) = Inr (chunks, 5) \<and> distinct (job_tiles chunks) \<and> length (job_tiles chunks) = 5"
proof -
  obtain chunks where b: "buildChunks sample_floats (Some sample_set) 0 1 (0, 0, 0, 0) = Inr (chunks, 5)"
    by (simp add: buildChunks_def sample_set_def sample_floats_def zoom_loop.simps clamp_range_def sample_matrix_def range_empty_def range_size_def)
  from chunks_partition_tiles [OF b, of "(0, 0, 0, 0)" "(0, 0, 0, 0)"] b show ?thesis
    by (auto simp: sample_set_def sample_floats_def)
qed

text \<open>
  Zoom levels index the matrices of a set by position without a check. A job whose zoom range (up to
  24) reaches past the matrices of a custom set, or whose set has no bounding box, makes the request
  panic instead of being refused; a range within the matrices never does.
\<close>

theorem build_chunks_panics:
  assumes "0 \<le> minZoom" "minZoom \<le> maxZoom"
  shows "buildChunks F (Some td) minZoom maxZoom requested = Inl Panic \<longleftrightarrow>
    td_BoundingBox td = None
    \<or> (\<exists>world. td_BoundingBox td = Some world \<and> fo_clip F requested world \<noteq> None \<and> int (length (td_TileMatrices td)) \<le> maxZoom)"
  using assms by (auto simp: buildChunks_def zoom_loop_levels split: option.splits)

lemma build_chunks_panics_witness:
  "buildChunks sample_floats (Some sample_set) 0 2 (0, 0, 0, 0) = Inl Panic"
proof -
  have "(0::int) \<le> 0" "(0::int) \<le> 2" by simp_all
  from build_chunks_panics [OF this, of sample_floats sample_set "(0, 0, 0, 0)"] show ?thesis
    by (simp add: sample_set_def sample_floats_def)
qed

lemma runChunk_progress:
  assumes "ck_NextOffset c \<le> chunk_total c"
  obtains n where "0 \<le> n" "ck_NextOffset c + n \<le> chunk_total c" "same_area c (cr_chunk (runChunk ev saved now s c t))"
    "ck_NextOffset (cr_chunk (runChunk ev saved now s c t)) = ck_NextOffset c + n"
    "cr_tiles (runChunk ev saved now s c t) = map (tile_at c) [ck_NextOffset c..ck_NextOffset c + n - 1]"
    "outcomes (cr_state (runChunk ev saved now s c t)) = outcomes s + n"
    "ck_Status (cr_chunk (runChunk ev saved now s c t)) = ''succeeded'' \<Longrightarrow> ck_NextOffset c + n = chunk_total c"
proof -
  let ?r = "\<lparr>cr_chunk = c\<lparr>ck_Status := ''running''\<rparr>, cr_state = s, cr_tables = save_chunk saved (c\<lparr>ck_Status := ''running''\<rparr>) now t, cr_tiles = []\<rparr>"
  have "same_area c (c\<lparr>ck_Status := ''running''\<rparr>)" by (simp add: same_area_def)
  note same = same_area_facts [OF this]
  obtain n where "progressed n ?r (chunk_loop ev now ?r)" using chunk_loop_spec [of ?r ev now] assms same by auto
  then show ?thesis using same that [of n] by (auto simp: progressed_def Let_def runChunk_def same_area_def)
qed

text \<open>
  A later run of a chunk reads its row: \<open>rs_before\<close> is what happened to the tables since the run before, then the job's
  chunks are listed, \<open>rs_others\<close> is what happened until a worker took this chunk up. A process that dies is a
  run whose last writes have no effect.
\<close>

record resumption =
  rs_before :: "job_tables \<Rightarrow> job_tables"
  rs_workspace_ok :: bool
  rs_resource_ok :: bool
  rs_state :: jobState
  rs_others :: "job_tables \<Rightarrow> job_tables"
  rs_events :: "int \<Rightarrow> tile_event"
  rs_saved :: bool
  rs_now :: instant

definition stored_chunk :: "string \<Rightarrow> resumption \<Rightarrow> job_tables \<Rightarrow> JobChunk option" where
  "stored_chunk cid q t =
     (case run_prepare (rs_workspace_ok q) (rs_resource_ok q) (js_job (rs_state q)) t of
        RunChunks cs \<Rightarrow> find (\<lambda>c. ck_ID c = cid) cs
      | _ \<Rightarrow> None)"

text \<open>The runs of one chunk: the tables, the tiles worked on, how many of them were counted, and the lost checkpoints.\<close>

fun resume_runs :: "string \<Rightarrow> resumption list \<Rightarrow> job_tables \<Rightarrow> job_tables \<times> (int \<times> int \<times> int) list \<times> int \<times> int" where
  "resume_runs cid [] t = (t, [], 0, 0)"
| "resume_runs cid (q # qs) t =
     (let t0 = rs_before q t
      in case stored_chunk cid q t0 of
           None \<Rightarrow> resume_runs cid qs t0
         | Some c \<Rightarrow>
             (let r = runChunk (rs_events q) (rs_saved q) (rs_now q) (rs_state q) c (rs_others q t0)
              in case resume_runs cid qs (cr_tables r) of (t', tiles, counted, lost) \<Rightarrow>
                   (t', cr_tiles r @ tiles, outcomes (cr_state r) - outcomes (rs_state q) + counted,
                    lost_saves (rs_events q) (ck_NextOffset c) (ck_NextOffset (cr_chunk r)) + lost)))"

definition undisturbed :: "string \<Rightarrow> resumption \<Rightarrow> bool" where
  "undisturbed cid q =
     (spares cid (rs_before q) \<and> spares cid (rs_others q)
      \<and> (\<forall>k. spares cid (ev_before (rs_events q k)) \<and> spares cid (ev_during (rs_events q k))))"

definition position_ok :: "JobChunk \<Rightarrow> bool" where
  "position_ok v = (ck_NextOffset v \<le> chunk_total v \<and> (ck_Status v = ''succeeded'' \<longrightarrow> ck_NextOffset v = chunk_total v))"

text \<open>What a number of runs has done, from the stored position \<open>v\<close> to the stored position \<open>v'\<close>.\<close>

definition work_done :: "JobChunk \<Rightarrow> JobChunk \<Rightarrow> (int \<times> int \<times> int) list \<Rightarrow> int \<Rightarrow> int \<Rightarrow> bool" where
  "work_done v v' tiles counted lost =
     (let p = ck_NextOffset v; p' = ck_NextOffset v'
      in same_area v v' \<and> position_ok v' \<and> p \<le> p' \<and> 0 \<le> lost
         \<and> set (map (tile_at v) [p..p' - 1]) \<subseteq> set tiles \<and> set tiles \<subseteq> set (map (tile_at v) [p..chunk_total v - 1])
         \<and> counted = int (length tiles) \<and> int (length tiles) \<le> p' - p + lost
         \<and> (lost = 0 \<longrightarrow> tiles = map (tile_at v) [p..p' - 1]))"

lemma stored_chunk_row:
  assumes "stored_chunk cid q t = Some c" "chunk_view cid t = [v]"
  shows "fixed_part c = v" "ck_ID c = cid" "ck_Status c \<noteq> ''succeeded''"
proof -
  have found: "find P cs = Some c \<Longrightarrow> c \<in> set cs \<and> P c" for P and cs :: "JobChunk list" by (auto simp: find_Some_iff)
  have "c \<in> set (jt_chunks t) \<and> ck_ID c = cid \<and> ck_Status c \<noteq> ''succeeded''"
    using assms(1) by (auto simp: stored_chunk_def run_prepare_def ListTileCacheJobChunks_def Let_def split: run_plan.splits if_splits dest!: found)
  moreover from this have "fixed_part c \<in> set (chunk_view cid t)" by (auto simp: chunk_view_def)
  ultimately show "fixed_part c = v" "ck_ID c = cid" "ck_Status c \<noteq> ''succeeded''" using assms(2) by auto
qed

lemma run_work:
  fixes s :: jobState and saved :: bool and now :: instant
  assumes v: "chunk_view cid t = [v]" "position_ok v" and c: "fixed_part c = v" "ck_ID c = cid" "ck_Status c \<noteq> ''succeeded''"
    and sp: "\<forall>k. spares cid (ev_before (ev k)) \<and> spares cid (ev_during (ev k))"
  defines "r \<equiv> runChunk ev saved now s c t"
  shows "\<exists>v'. chunk_view cid (cr_tables r) = [v']
    \<and> work_done v v' (cr_tiles r) (outcomes (cr_state r) - outcomes s) (lost_saves ev (ck_NextOffset c) (ck_NextOffset (cr_chunk r)))"
proof -
  have vc: "same_area v c" "ck_NextOffset v = ck_NextOffset c" "tile_at c = tile_at v" "chunk_total c = chunk_total v" "ck_Status v = []"
    using c by (auto simp: same_area_def fixed_part_def fun_eq_iff tile_at_def chunk_total_def chunk_width_def)
  have le: "ck_NextOffset c \<le> chunk_total c" using v(2) vc by (simp add: position_ok_def)
  obtain n where n: "0 \<le> n" "ck_NextOffset c + n \<le> chunk_total c" "ck_NextOffset (cr_chunk r) = ck_NextOffset c + n"
    "cr_tiles r = map (tile_at c) [ck_NextOffset c..ck_NextOffset c + n - 1]" "outcomes (cr_state r) = outcomes s + n"
    using runChunk_progress [OF le, of ev saved now s t] unfolding r_def by metis
  let ?r = "\<lparr>cr_chunk = c\<lparr>ck_Status := ''running''\<rparr>, cr_state = s, cr_tables = save_chunk saved (c\<lparr>ck_Status := ''running''\<rparr>) now t, cr_tiles = []\<rparr>"
  have upd: "v\<lparr>ck_NextOffset := ck_NextOffset c, ck_Status := []\<rparr> = v" using vc(2, 5) by (metis JobChunk.surjective JobChunk.update_convs(8) JobChunk.update_convs(9))
  have "stored_behind ?r v" using v(1) c(2, 3) vc le upd
    by (auto simp: stored_behind_def save_chunk_view fixed_part_def chunk_total_def chunk_width_def)
  from chunk_loop_stored [OF sp this] c(2) obtain v' where v': "chunk_view cid (cr_tables r) = [v']" "lagging ev ?r r v v'"
    unfolding r_def runChunk_def Let_def by auto
  let ?p = "ck_NextOffset c" and ?p' = "ck_NextOffset v'" and ?l = "lost_saves ev (ck_NextOffset c) (ck_NextOffset (cr_chunk r))"
  have lag: "same_area v v'" "?p \<le> ?p'" "?p' \<le> ?p + n" "?p + n - ?p' \<le> ?l" "ck_Status v' = ''succeeded'' \<longrightarrow> ?p' = chunk_total v"
    using v'(2) n(3) vc by (auto simp: lagging_def Let_def)
  moreover have "position_ok v'" using lag n(2) vc(4) same_area_facts(2) [OF lag(1)] by (auto simp: position_ok_def)
  moreover have "set (map (tile_at v) [?p..?p' - 1]) \<subseteq> set (cr_tiles r)" "set (cr_tiles r) \<subseteq> set (map (tile_at v) [?p..chunk_total v - 1])"
    unfolding n(4) vc(3) using lag(3) n(2) vc(4) by auto
  moreover have "int (length (cr_tiles r)) = n" using n(1, 4) by simp
  moreover have "cr_tiles r = map (tile_at v) [?p..?p' - 1]" if "?l = 0"
  proof -
    have "?p' = ?p + n" using that lag(3, 4) by linarith
    then show ?thesis unfolding n(4) vc(3) by simp
  qed
  ultimately have "work_done v v' (cr_tiles r) (outcomes (cr_state r) - outcomes s) ?l"
    unfolding work_done_def Let_def vc(2) using n(5) lost_saves_nonneg [of ev ?p "ck_NextOffset (cr_chunk r)"] by auto
  with v'(1) show ?thesis by blast
qed

lemma work_done_join:
  assumes "work_done v v1 tiles1 counted1 lost1" "work_done v1 v2 tiles2 counted2 lost2"
  shows "work_done v v2 (tiles1 @ tiles2) (counted1 + counted2) (lost1 + lost2)"
proof -
  have sa: "same_area v v1" and sa2: "same_area v v2" using assms by (auto simp: work_done_def Let_def same_area_def)
  note same = same_area_facts [OF sa]
  let ?p = "ck_NextOffset v" and ?q = "ck_NextOffset v1" and ?q' = "ck_NextOffset v2"
  have le: "?p \<le> ?q" "?q \<le> ?q'" using assms by (auto simp: work_done_def Let_def)
  have join: "[?p..?q' - 1] = [?p..?q - 1] @ [?q..?q' - 1]"
    using upto_split1 [of ?p ?q "?q' - 1"] le by (cases "?q = ?q'") auto
  have "[?p..chunk_total v - 1] = [?p..?q - 1] @ [?q..chunk_total v - 1]" if "?q \<le> chunk_total v"
    using upto_split1 [of ?p ?q "chunk_total v - 1"] le that by (cases "?q = chunk_total v") auto
  moreover have "?q \<le> chunk_total v" using assms(1) same(2) by (auto simp: work_done_def Let_def position_ok_def)
  ultimately have tail: "set (map (tile_at v) [?q..chunk_total v - 1]) \<subseteq> set (map (tile_at v) [?p..chunk_total v - 1])" by auto
  show ?thesis using assms sa2 le tail unfolding work_done_def Let_def same join
    by (auto simp del: set_map upto.simps)
qed

text \<open>
  C37. Work is resumed at the stored position. Over any number of runs of a chunk, each started from the
  chunk's row as it is listed then, with any cancellations, shutdowns, crashes, failed tiles, lost checkpoints and
  interference that leaves the row alone: every tile before the position stored at the end has been worked on, no tile before
  the position stored at the beginning is worked on again, the tiles worked on are counted once each time, and no more of
  them are repeated than checkpoints were lost; in particular, when none was lost, they are the tiles from the old
  position to the new one, in order, each once. A row marked succeeded has had all its tiles.
\<close>

theorem resumed_work_follows_checkpoints:
  assumes "chunk_view cid t = [v]" "ck_NextOffset v \<le> chunk_total v" "ck_Status v = ''succeeded'' \<longrightarrow> ck_NextOffset v = chunk_total v"
    and "\<forall>q \<in> set qs. undisturbed cid q" "resume_runs cid qs t = (t', tiles, counted, lost)"
  shows "\<exists>v'. chunk_view cid t' = [v'] \<and> same_area v v' \<and> ck_NextOffset v \<le> ck_NextOffset v' \<and> ck_NextOffset v' \<le> chunk_total v
    \<and> set (map (tile_at v) [ck_NextOffset v..ck_NextOffset v' - 1]) \<subseteq> set tiles
    \<and> set tiles \<subseteq> set (map (tile_at v) [ck_NextOffset v..chunk_total v - 1])
    \<and> counted = int (length tiles) \<and> int (length tiles) \<le> ck_NextOffset v' - ck_NextOffset v + lost
    \<and> (lost = 0 \<longrightarrow> tiles = map (tile_at v) [ck_NextOffset v..ck_NextOffset v' - 1])
    \<and> (ck_Status v' = ''succeeded'' \<longrightarrow> ck_NextOffset v' = chunk_total v)"
proof -
  have "position_ok v" using assms(2, 3) by (simp add: position_ok_def)
  with assms(1, 4, 5) have "\<exists>v'. chunk_view cid t' = [v'] \<and> work_done v v' tiles counted lost"
  proof (induction qs arbitrary: t v tiles counted lost)
    case Nil
    then show ?case by (simp add: work_done_def same_area_def Let_def)
  next
    case (Cons q qs)
    let ?t0 = "rs_before q t"
    have v0: "chunk_view cid ?t0 = [v]" "chunk_view cid (rs_others q ?t0) = [v]" using Cons.prems(1, 2) by (auto simp: undisturbed_def spares_def)
    show ?case
    proof (cases "stored_chunk cid q ?t0")
      case None
      with Cons.prems have "resume_runs cid qs ?t0 = (t', tiles, counted, lost)" by simp
      with Cons.IH [OF v0(1)] Cons.prems(2, 4) show ?thesis by simp
    next
      case (Some c)
      let ?r = "runChunk (rs_events q) (rs_saved q) (rs_now q) (rs_state q) c (rs_others q ?t0)"
      let ?l = "lost_saves (rs_events q) (ck_NextOffset c) (ck_NextOffset (cr_chunk ?r))"
      obtain tiles2 counted2 lost2 where rest: "resume_runs cid qs (cr_tables ?r) = (t', tiles2, counted2, lost2)"
        and e: "tiles = cr_tiles ?r @ tiles2" "counted = outcomes (cr_state ?r) - outcomes (rs_state q) + counted2" "lost = ?l + lost2"
        using Cons.prems(3) Some by (auto simp: Let_def split: prod.splits)
      have "\<forall>k. spares cid (ev_before (rs_events q k)) \<and> spares cid (ev_during (rs_events q k))" using Cons.prems(2) by (simp add: undisturbed_def)
      from run_work [OF v0(2) Cons.prems(4) stored_chunk_row [OF Some v0(1)] this] obtain v1 where v1: "chunk_view cid (cr_tables ?r) = [v1]"
        "work_done v v1 (cr_tiles ?r) (outcomes (cr_state ?r) - outcomes (rs_state q)) ?l" by blast
      obtain v' where "chunk_view cid t' = [v']" "work_done v1 v' tiles2 counted2 lost2"
        using Cons.IH [OF v1(1) _ rest] Cons.prems(2) v1(2) by (auto simp: work_done_def Let_def)
      with work_done_join [OF v1(2)] show ?thesis unfolding e by blast
    qed
  qed
  then obtain v' where "chunk_view cid t' = [v']" "work_done v v' tiles counted lost" by blast
  moreover from this(2) have "chunk_total v' = chunk_total v" using same_area_facts(2) by (simp add: work_done_def Let_def)
  ultimately show ?thesis by (auto simp: work_done_def Let_def position_ok_def simp del: set_map upto.simps)
qed

definition sample_chunk :: JobChunk where
  "sample_chunk = chunk_at 3 1 1 2 2 0 0"

definition calm_event :: tile_event where
  "calm_event = \<lparr>ev_done = False, ev_before = \<lambda>t. t, ev_during = \<lambda>t. t, ev_outcome = TileDone 5, ev_chunk_saved = True, ev_job_saved = True\<rparr>"

definition sample_request :: JobRequest where
  "sample_request = \<lparr>rq_Operation = OperationSeed, rq_Resource = ''r'', rq_ResourceID = ''r'', rq_ResourceKind = [], rq_AllResources = False,
     rq_TileType = ''map'', rq_TileMatrixSet = ''m'', rq_Format = ''png'', rq_Style = [], rq_MinZoom = Some 3, rq_MaxZoom = Some 3,
     rq_Bounds = None, rq_Generation = 1\<rparr>"

definition sample_job :: Job where
  "sample_job = new_job ''j'' 0 \<lparr>ci_WorkspaceID = ''w'', ci_Request = sample_request, ci_TotalTiles = 4, ci_CreatedBy = []\<rparr>"

definition sample_tables :: job_tables where
  "sample_tables = \<lparr>jt_jobs = [sample_job], jt_chunks = [sample_chunk\<lparr>ck_ID := ''c'', ck_JobID := ''j''\<rparr>]\<rparr>"

text \<open>A first run is stopped after two tiles, the second of them not recorded; the start of the next process resets the
  chunk, and its run finishes it.\<close>

definition sample_runs :: "resumption list" where
  "sample_runs =
     [\<lparr>rs_before = \<lambda>t. t, rs_workspace_ok = True, rs_resource_ok = True, rs_state = new_state sample_job, rs_others = \<lambda>t. t,
        rs_events = \<lambda>k. calm_event\<lparr>ev_done := k = 2, ev_chunk_saved := k = 0\<rparr>, rs_saved = True, rs_now = 9\<rparr>,
      \<lparr>rs_before = ResetInterruptedTileCacheJobs 10, rs_workspace_ok = True, rs_resource_ok = True, rs_state = new_state sample_job,
        rs_others = \<lambda>t. t, rs_events = \<lambda>_. calm_event, rs_saved = True, rs_now = 11\<rparr>]"

lemma resumed_work_follows_checkpoints_witness:
  "\<exists>t' v'. resume_runs ''c'' sample_runs sample_tables = (t', [(3, 0, 0), (3, 1, 0), (3, 1, 0), (3, 0, 1), (3, 1, 1)], 5, 1)
     \<and> chunk_view ''c'' t' = [v'] \<and> ck_NextOffset v' = 4 \<and> ck_Status v' = ''succeeded''"
proof -
  have x: "snd (resume_runs ''c'' sample_runs sample_tables) = ([(3, 0, 0), (3, 1, 0), (3, 1, 0), (3, 0, 1), (3, 1, 1)], 5, 1)"
    and st: "map ck_Status (chunk_view ''c'' (fst (resume_runs ''c'' sample_runs sample_tables))) = [''succeeded'']" by code_simp+
  obtain t' where t': "resume_runs ''c'' sample_runs sample_tables = (t', [(3, 0, 0), (3, 1, 0), (3, 1, 0), (3, 0, 1), (3, 1, 1)], 5, 1)"
    using x by (metis prod.collapse)
  let ?v = "fixed_part (sample_chunk\<lparr>ck_ID := ''c'', ck_JobID := ''j''\<rparr>)"
  have v: "chunk_view ''c'' sample_tables = [?v]" by (simp add: chunk_view_def sample_tables_def)
  have f: "ck_NextOffset ?v = 0" "chunk_total ?v = 4" "ck_Status ?v \<noteq> ''succeeded''" by code_simp+
  have u: "\<forall>q \<in> set sample_runs. undisturbed ''c'' q" by (simp add: sample_runs_def undisturbed_def others_spare calm_event_def)
  from resumed_work_follows_checkpoints [OF v _ _ u t'] f obtain v' where v': "chunk_view ''c'' t' = [v']" "ck_Status v' = ''succeeded'' \<longrightarrow> ck_NextOffset v' = 4"
    by auto
  with st t' show ?thesis by auto
qed

fun claims :: "nat \<Rightarrow> instant \<Rightarrow> job_tables \<Rightarrow> Job list" where
  "claims 0 now t = []"
| "claims (Suc k) now t = (case ClaimNextTileCacheJob now t of (None, t') \<Rightarrow> [] | (Some j, t') \<Rightarrow> j # claims k now t')"

definition claim_order :: "job_tables \<Rightarrow> Job list" where
  "claim_order t = sort_key (\<lambda>j. (jb_CreatedAt j, jb_ID j)) (filter claimable (jt_jobs t))"

lemma claim_step:
  assumes d: "distinct (map jb_ID (jt_jobs t))" and o: "claim_order t = j # rest"
  obtains j' t' where "ClaimNextTileCacheJob now t = (Some j', t')" "jb_ID j' = jb_ID j" "claim_order t' = rest" "distinct (map jb_ID (jt_jobs t'))"
proof -
  let ?claim = "\<lambda>k. k\<lparr>jb_Status := JobRunning, jb_StartedAt := Some now, jb_UpdatedAt := now\<rparr>"
  let ?t' = "update_jobs (\<lambda>k. jb_ID k = jb_ID j \<and> claimable k) ?claim t"
  have c: "ClaimNextTileCacheJob now t = (Some (?claim j), ?t')"
    using o by (simp add: ClaimNextTileCacheJob_def next_claim_def claim_order_def)
  have mem: "set (filter claimable (jt_jobs t)) = set (j # rest)" using arg_cong [OF o, of set] by (simp add: claim_order_def)
  have f: "filter claimable (jt_jobs ?t') = filter (\<lambda>k. jb_ID k \<noteq> jb_ID j) (filter claimable (jt_jobs t))"
  proof -
    have "filter claimable (map (\<lambda>k. if jb_ID k = jb_ID j \<and> claimable k then ?claim k else k) js) = filter (\<lambda>k. jb_ID k \<noteq> jb_ID j) (filter claimable js)" for js
      by (induction js) (auto simp: claimable_def)
    then show ?thesis by (simp add: update_jobs_def)
  qed
  have "distinct (map jb_ID (filter claimable (jt_jobs t)))" using d by (auto simp: distinct_map inj_on_def)
  then have "distinct (map jb_ID (claim_order t))"
    unfolding claim_order_def distinct_map_sort_key .
  then have "filter (\<lambda>k. jb_ID k \<noteq> jb_ID j) (claim_order t) = rest"
    unfolding o by (simp add: filter_id_conv) (metis imageI)
  then have "claim_order ?t' = rest" unfolding claim_order_def f by (simp add: filter_sort)
  moreover have "map jb_ID (jt_jobs ?t') = map jb_ID (jt_jobs t)" by (simp add: update_jobs_def)
  ultimately show ?thesis using that [OF c] d by simp
qed

text \<open>
  Jobs are handed out once each, oldest first: successive claims return exactly the claimable jobs,
  ordered by creation time and identifier, and nothing after that.
\<close>

theorem claims_oldest_first_once:
  assumes "distinct (map jb_ID (jt_jobs t))"
  shows "map jb_ID (claims k now t) = take k (map jb_ID (claim_order t))"
  using assms
proof (induction k arbitrary: t)
  case (Suc k)
  show ?case
  proof (cases "claim_order t")
    case Nil
    then show ?thesis by (simp add: ClaimNextTileCacheJob_def next_claim_def claim_order_def)
  next
    case (Cons j rest)
    obtain j' t' where s: "ClaimNextTileCacheJob now t = (Some j', t')" "jb_ID j' = jb_ID j" "claim_order t' = rest" "distinct (map jb_ID (jt_jobs t'))"
      by (rule claim_step [OF Suc.prems Cons, where now = now])
    with Suc.IH [OF s(4)] Cons show ?thesis by simp
  qed
qed simp

lemma claims_oldest_first_once_witness:
  "map jb_ID (claims 5 9 \<lparr>jt_jobs = [sample_job\<lparr>jb_CreatedAt := 7\<rparr>, sample_job\<lparr>jb_ID := ''k''\<rparr>], jt_chunks = []\<rparr>) = [''k'', ''j'']"
proof -
  let ?t = "\<lparr>jt_jobs = [sample_job\<lparr>jb_CreatedAt := 7\<rparr>, sample_job\<lparr>jb_ID := ''k''\<rparr>], jt_chunks = []\<rparr> :: job_tables"
  have "distinct (map jb_ID (jt_jobs ?t))" by (simp add: sample_job_def new_job_def)
  from claims_oldest_first_once [OF this, of 5 9] show ?thesis
    by (simp add: claim_order_def sample_job_def new_job_def claimable_def)
qed

definition job_in_scope :: "string \<Rightarrow> string list \<Rightarrow> Job \<Rightarrow> bool" where
  "job_in_scope ws rs j =
     (jb_WorkspaceID j = ws \<and> (rs = [] \<or> rq_AllResources (jb_Request j) \<or> rq_ResourceID (jb_Request j) \<in> set rs))"

lemma quiesce_blocks: "job_in_scope ws rs j \<Longrightarrow> job_blocked (quiesce_block ws rs m) j"
  by (auto simp: job_in_scope_def job_blocked_def lifecycleBlocked_def quiesce_block_def Let_def gomap_simps)

lemma quiesce_keeps: "job_blocked m j \<Longrightarrow> job_blocked (quiesce_block ws rs m) j"
  by (auto simp: job_blocked_def lifecycleBlocked_def quiesce_block_def Let_def gomap_simps split: option.splits if_splits)

lemma quiesce_fold:
  assumes "job_in_scope ws rs j"
  shows "job_blocked (fold (\<lambda>(ws, rs). quiesce_block ws rs) later (quiesce_block ws rs m)) j"
proof -
  have "job_blocked (fold (\<lambda>(ws, rs). quiesce_block ws rs) later m') j" if "job_blocked m' j" for m'
    using that by (induction later arbitrary: m') (auto simp: quiesce_keeps)
  then show ?thesis by (simp add: quiesce_blocks assms)
qed

lemma save_job_status:
  assumes "up_Status u = Some st" "k \<in> set (jt_jobs (save_job True jobid u now t))" "jb_ID k = jobid"
  shows "jb_Status k = st"
proof (cases "find (\<lambda>j. jb_ID j = jobid) (jt_jobs t)")
  case None
  with assms show ?thesis by (auto simp: save_job_def UpdateTileCacheJob_def GetTileCacheJob_def find_None_iff bind_res_def)
next
  case (Some j)
  with assms show ?thesis
    by (auto simp: save_job_def UpdateTileCacheJob_def GetTileCacheJob_def update_jobs_def apply_update_def set_or_def bind_res_def Let_def)
qed

lemma claimNext_blocked:
  assumes "next_claim t = Some j" "job_blocked m j"
  shows "\<exists>t'. claimNext m now t = (None, t') \<and> (\<forall>k \<in> set (jt_jobs t'). jb_ID k = jb_ID j \<longrightarrow> jb_Status k = JobCancelled)"
  using assms
  by (auto simp: claimNext_def ClaimNextTileCacheJob_def job_blocked_def no_update_def Let_def dest!: save_job_status [rotated])

text \<open>
  A quiesced scope is not worked on: once a workspace, or resources of it, are quiesced, no later
  claim hands out a job of that scope, whatever else is quiesced since; when the next job to claim is
  one of that scope, the claim returns nothing and the job is cancelled.
\<close>

theorem quiesced_scope_not_claimed:
  assumes "mgr = fold (\<lambda>(ws, rs). quiesce_block ws rs) later (quiesce_block ws rs m)"
  shows "(\<forall>j t'. claimNext mgr now t = (Some j, t') \<longrightarrow> \<not> job_in_scope ws rs j)
    \<and> (\<forall>j. next_claim t = Some j \<and> job_in_scope ws rs j \<longrightarrow>
         (\<exists>t'. claimNext mgr now t = (None, t') \<and> (\<forall>k \<in> set (jt_jobs t'). jb_ID k = jb_ID j \<longrightarrow> jb_Status k = JobCancelled)))"
proof (intro conjI allI impI notI)
  fix j t' assume "claimNext mgr now t = (Some j, t')" "job_in_scope ws rs j"
  then show False using quiesce_fold assms by (auto simp: claimNext_def split: prod.splits option.splits if_splits)
next
  fix j assume "next_claim t = Some j \<and> job_in_scope ws rs j"
  then show "\<exists>t'. claimNext mgr now t = (None, t') \<and> (\<forall>k \<in> set (jt_jobs t'). jb_ID k = jb_ID j \<longrightarrow> jb_Status k = JobCancelled)"
    using claimNext_blocked quiesce_fold assms by blast
qed

lemma quiesced_scope_not_claimed_witness:
  "\<exists>t'. claimNext (quiesce_block ''x'' [] (quiesce_block ''w'' [] \<lparr>jm_blockedWorkspaces = {}, jm_blockedResources = []\<rparr>)) 9 sample_tables = (None, t')
     \<and> (\<forall>k \<in> set (jt_jobs t'). jb_ID k = ''j'' \<longrightarrow> jb_Status k = JobCancelled)"
proof -
  let ?m = "\<lparr>jm_blockedWorkspaces = {}, jm_blockedResources = []\<rparr>"
  let ?mgr = "quiesce_block ''x'' [] (quiesce_block ''w'' [] ?m)"
  have m: "?mgr = fold (\<lambda>(ws, rs). quiesce_block ws rs) [(''x'', [])] (quiesce_block ''w'' [] ?m)" by simp
  have n: "next_claim sample_tables = Some sample_job" "job_in_scope ''w'' [] sample_job" "jb_ID sample_job = ''j''"
    by (simp_all add: next_claim_def sample_tables_def sample_job_def new_job_def claimable_def job_in_scope_def)
  from quiesced_scope_not_claimed [OF m] n show ?thesis by metis
qed

definition claimed_tables :: job_tables where
  "claimed_tables = snd (ClaimNextTileCacheJob 1 sample_tables)"

definition late_cancel :: "int \<Rightarrow> tile_event" where
  "late_cancel k = calm_event\<lparr>ev_done := k = 1, ev_during := \<lambda>t. snd (RequestTileCacheJobCancel ''j'' 2 t)\<rparr>"

definition failed_then_stopped :: "int \<Rightarrow> tile_event" where
  "failed_then_stopped k = calm_event\<lparr>ev_done := k = 1, ev_outcome := TileFailed ''render''\<rparr>"

definition first_run :: "(int \<Rightarrow> tile_event) \<Rightarrow> job_tables" where
  "first_run ev = ResetInterruptedTileCacheJobs 5 (fst (run_job True True (Inr (0, 0)) (\<lambda>_. ev) 3 sample_job claimed_tables))"

definition second_run :: job_tables where
  "second_run =
     (case ClaimNextTileCacheJob 6 (first_run failed_then_stopped) of
        (None, t) \<Rightarrow> t
      | (Some j, t) \<Rightarrow> fst (run_job True True (Inr (0, 0)) (\<lambda>_ _. calm_event) 7 j t))"

definition job_summary :: "job_tables \<Rightarrow> (JobStatus \<times> bool \<times> int) list" where
  "job_summary t = map (\<lambda>j. (jb_Status j, jb_CancelRequested j, jb_FailedTiles j)) (jt_jobs t)"

text \<open>
  Three outcomes a caller would not expect. A cancellation that arrives while a tile is rendered is
  overwritten by the progress update, and after a shutdown the job is queued with its cancellation still
  requested: no claim ever returns it. A job interrupted after a failed tile and resumed reports success
  with a failed tile on its books. A job claimed between its creation and the storing of its
  chunks fails for want of chunks.
\<close>

theorem job_status_surprises:
  "job_summary (first_run late_cancel) = [(JobQueued, True, 0)] \<and> fst (ClaimNextTileCacheJob 6 (first_run late_cancel)) = None
   \<and> job_summary second_run = [(JobSucceeded, False, 1)]
   \<and> job_summary (fst (run_job True True (Inr (0, 0)) (\<lambda>_ _. calm_event) 3 sample_job (claimed_tables\<lparr>jt_chunks := []\<rparr>))) = [(JobFailed, False, 0)]"
  by code_simp

end
