(* ===== verification/Auth_Store.thy ===== *)
theory Auth_Store
  imports Identity Rbac_Adapter Tile_Types "HOL-Library.Char_ord" "HOL-Library.List_Lexorder" "HOL-Library.Product_Lexorder"
begin

text \<open>
  Package \<^verbatim>\<open>internal/store\<close>, the part that holds credentials: roles, API keys, claim mappings and signing
  keys (\<^verbatim>\<open>store_auth.go\<close>, \<^verbatim>\<open>role_assignments.go\<close>) and browser sessions (\<^verbatim>\<open>store_sessions.go\<close>). The
  tables are lists of rows; an operation is one transaction, or one critical section of the lock it
  takes. Random bytes, fresh identifiers and the clock are arguments. Times are kept to the
  microsecond, as the columns hold them, where the code truncates.
\<close>

section \<open>Rows\<close>

record Role =
  ro_ID :: string
  ro_Name :: string
  ro_Description :: string
  ro_IsSystem :: bool
  ro_CreatedAt :: instant

record APIKey =
  ak_ID :: string
  ak_KeyHash :: string
  ak_KeyPrefix :: string
  ak_OwnerName :: string
  ak_OwnerEmail :: string
  ak_WorkspaceID :: "string option"
  ak_RoleID :: string
  ak_Name :: string
  ak_ExpiresAt :: "instant option"
  ak_Revoked :: bool
  ak_CreatedAt :: instant

record ClaimRoleMapping =
  cm_ID :: string
  cm_WorkspaceID :: string
  cm_ClaimName :: string
  cm_ClaimValue :: string
  cm_RoleID :: string
  cm_Priority :: int
  cm_CreatedAt :: instant

record SigningKey =
  sk_ID :: string
  sk_PrivateKey :: string
  sk_PublicKey :: string
  sk_Algorithm :: string
  sk_CreatedAt :: instant
  sk_IsActive :: bool

record BrowserSession =
  bs_PreviousTokenHash :: string
  bs_PreviousCSRFHash :: string
  bs_PreviousValidUntil :: "instant option"
  bs_ID :: string
  bs_TokenHash :: string
  bs_CSRFHash :: string
  bs_Subject :: string
  bs_Email :: string
  bs_DisplayName :: string
  bs_AuthMethod :: string
  bs_GlobalRole :: string
  bs_Roles :: "(string, string) gomap"
  bs_Claims :: "(string, json) gomap"
  bs_CredentialID :: string
  bs_CredentialFingerprint :: string
  bs_RemoteAddr :: string
  bs_UserAgent :: string
  bs_CreatedAt :: instant
  bs_LastSeenAt :: instant
  bs_IdleExpiresAt :: instant
  bs_ExpiresAt :: instant
  bs_RevokedAt :: "instant option"

text \<open>\<open>db_restricted\<close> lists the allowed roles of every layer, coverage and layer group, by table.\<close>

record auth_db =
  db_roles :: "Role list"
  db_retired :: "string list"
  db_keys :: "APIKey list"
  db_mappings :: "ClaimRoleMapping list"
  db_signing :: "SigningKey list"
  db_sessions :: "BrowserSession list"
  db_policies :: "CasbinRule list"
  db_restricted :: "(string \<times> string list) list"

datatype db_error =
  ErrNotFound | ErrDuplicateKey | ErrConstraint | ErrInvalidCredentials | ErrAPIKeyNotRevoked | ErrSystemRole
| ErrResourceNotEmpty "(string \<times> nat) list" | ErrSessionRotated

section \<open>Roles\<close>

definition GetRole :: "string \<Rightarrow> auth_db \<Rightarrow> db_error + Role" where
  "GetRole rid db = (case find (\<lambda>r. ro_ID r = rid) (db_roles db) of None \<Rightarrow> Inl ErrNotFound | Some r \<Rightarrow> Inr r)"

definition ListRoles :: "auth_db \<Rightarrow> Role list" where
  "ListRoles db = sort_key (\<lambda>r. (\<not> ro_IsSystem r, ro_Name r)) (db_roles db)"

text \<open>An identifier of a deleted role is never given out again.\<close>

definition CreateRole :: "string \<Rightarrow> string \<Rightarrow> string \<Rightarrow> instant \<Rightarrow> auth_db \<Rightarrow> db_error + (Role \<times> auth_db)" where
  "CreateRole rid name description now db =
     (if rid \<in> set (db_retired db) then Inl ErrDuplicateKey
      else if rid \<in> ro_ID ` set (db_roles db) \<or> name \<in> ro_Name ` set (db_roles db) then Inl ErrConstraint
      else let r = \<lparr>ro_ID = rid, ro_Name = name, ro_Description = description, ro_IsSystem = False, ro_CreatedAt = now\<rparr>
           in Inr (r, db\<lparr>db_roles := db_roles db @ [r]\<rparr>))"

text \<open>What still refers to a role: usable API keys, claim mappings, live sessions, and access lists.\<close>

definition key_usable :: "instant \<Rightarrow> APIKey \<Rightarrow> bool" where
  "key_usable now k = (\<not> ak_Revoked k \<and> (case ak_ExpiresAt k of None \<Rightarrow> True | Some e \<Rightarrow> e > now))"

definition session_live :: "instant \<Rightarrow> BrowserSession \<Rightarrow> bool" where
  "session_live now s = (bs_RevokedAt s = None \<and> bs_ExpiresAt s > now \<and> bs_IdleExpiresAt s > now)"

definition roleDependencies :: "instant \<Rightarrow> string \<Rightarrow> auth_db \<Rightarrow> (string \<times> nat) list" where
  "roleDependencies now rid db =
     [(''api_keys'', length (filter (\<lambda>k. ak_RoleID k = rid \<and> key_usable now k) (db_keys db))),
      (''claim_mappings'', length (filter (\<lambda>m. cm_RoleID m = rid) (db_mappings db))),
      (''sessions'', length (filter (\<lambda>s. session_live now s \<and> rid \<in> snd ` set (bs_Roles s)) (db_sessions db)))]
     @ map (\<lambda>table. (table, length (filter (\<lambda>(t, roles). t = table \<and> rid \<in> set roles) (db_restricted db))))
         [''layers'', ''coverages'', ''layer_groups'']"

definition store_DeleteRole :: "instant \<Rightarrow> string \<Rightarrow> auth_db \<Rightarrow> db_error option \<times> auth_db" where
  "store_DeleteRole now rid db =
     (case find (\<lambda>r. ro_ID r = rid) (db_roles db) of
        None \<Rightarrow> (Some ErrNotFound, db)
      | Some r \<Rightarrow>
          if ro_IsSystem r then (Some ErrSystemRole, db)
          else let held = filter (\<lambda>(_, n). n > 0) (roleDependencies now rid db)
               in if held \<noteq> [] then (Some (ErrResourceNotEmpty held), db)
                  else (None, db\<lparr>db_policies := filter (\<lambda>p. cr_V0 p \<noteq> rid) (db_policies db),
                                 db_retired := List.insert rid (db_retired db),
                                 db_roles := filter (\<lambda>r. ro_ID r \<noteq> rid) (db_roles db)\<rparr>))"

primrec checkRoleAssignments :: "string list \<Rightarrow> auth_db \<Rightarrow> db_error option" where
  "checkRoleAssignments [] db = None"
| "checkRoleAssignments (rid # rids) db =
     (case GetRole rid db of Inl e \<Rightarrow> Some e | Inr _ \<Rightarrow> checkRoleAssignments rids db)"

section \<open>API keys\<close>

record CreateAPIKeyInput =
  ki_Name :: string
  ki_OwnerName :: string
  ki_OwnerEmail :: string
  ki_WorkspaceID :: "string option"
  ki_RoleID :: string
  ki_ExpiresAt :: "instant option"

definition hash_hex :: "(string \<Rightarrow> string) \<Rightarrow> string \<Rightarrow> string" where
  "hash_hex sha256 s = hex_encode (sha256 s)"

definition CreateAPIKey :: "(string \<Rightarrow> string) \<Rightarrow> string \<Rightarrow> string \<Rightarrow> instant \<Rightarrow> CreateAPIKeyInput \<Rightarrow> auth_db
    \<Rightarrow> db_error + (APIKey \<times> string \<times> auth_db)" where
  "CreateAPIKey sha256 keyBytes uuid now input db =
     (case checkRoleAssignments [ki_RoleID input] db of
        Some e \<Rightarrow> Inl e
      | None \<Rightarrow>
          let key = ''nsk_'' @ hex_encode keyBytes;
              row = \<lparr>ak_ID = uuid, ak_KeyHash = hash_hex sha256 key, ak_KeyPrefix = take 12 key, ak_OwnerName = ki_OwnerName input,
                     ak_OwnerEmail = ki_OwnerEmail input, ak_WorkspaceID = ki_WorkspaceID input, ak_RoleID = ki_RoleID input,
                     ak_Name = ki_Name input, ak_ExpiresAt = ki_ExpiresAt input, ak_Revoked = False, ak_CreatedAt = now\<rparr>
          in if uuid \<in> ak_ID ` set (db_keys db) \<or> ak_KeyHash row \<in> ak_KeyHash ` set (db_keys db) then Inl ErrConstraint
             else Inr (row, key, db\<lparr>db_keys := db_keys db @ [row]\<rparr>))"

text \<open>The lookup by hash or by identifier: not revoked, with a role that exists, and not expired.\<close>

definition getAPIKey :: "(APIKey \<Rightarrow> bool) \<Rightarrow> instant \<Rightarrow> auth_db \<Rightarrow> db_error + APIKey" where
  "getAPIKey is_row now db =
     (case find (\<lambda>k. is_row k \<and> \<not> ak_Revoked k \<and> ak_RoleID k \<in> ro_ID ` set (db_roles db)) (db_keys db) of
        None \<Rightarrow> Inl ErrNotFound
      | Some k \<Rightarrow> (case ak_ExpiresAt k of
            Some e \<Rightarrow> if e < now then Inl ErrInvalidCredentials else Inr k
          | None \<Rightarrow> Inr k))"

definition GetAPIKeyByHash :: "string \<Rightarrow> instant \<Rightarrow> auth_db \<Rightarrow> db_error + APIKey" where
  "GetAPIKeyByHash keyHash = getAPIKey (\<lambda>k. ak_KeyHash k = keyHash)"

definition GetAPIKeyByID :: "string \<Rightarrow> instant \<Rightarrow> auth_db \<Rightarrow> db_error + APIKey" where
  "GetAPIKeyByID kid = getAPIKey (\<lambda>k. ak_ID k = kid)"

definition ListAPIKeys :: "string option \<Rightarrow> auth_db \<Rightarrow> APIKey list" where
  "ListAPIKeys workspaceID db =
     sort_key (\<lambda>k. - ak_CreatedAt k)
       (case workspaceID of None \<Rightarrow> db_keys db | Some w \<Rightarrow> filter (\<lambda>k. ak_WorkspaceID k = Some w) (db_keys db))"

definition RevokeAPIKey :: "string \<Rightarrow> auth_db \<Rightarrow> db_error option \<times> auth_db" where
  "RevokeAPIKey kid db =
     (if kid \<in> ak_ID ` set (db_keys db)
      then (None, db\<lparr>db_keys := map (\<lambda>k. if ak_ID k = kid then k\<lparr>ak_Revoked := True\<rparr> else k) (db_keys db)\<rparr>)
      else (Some ErrNotFound, db))"

definition DeleteAPIKey :: "string \<Rightarrow> auth_db \<Rightarrow> db_error option \<times> auth_db" where
  "DeleteAPIKey kid db =
     (case find (\<lambda>k. ak_ID k = kid) (db_keys db) of
        None \<Rightarrow> (Some ErrNotFound, db)
      | Some k \<Rightarrow>
          if \<not> ak_Revoked k then (Some ErrAPIKeyNotRevoked, db)
          else (None, db\<lparr>db_sessions := filter (\<lambda>s. \<not> (bs_AuthMethod s = ''apikey'' \<and> bs_CredentialID s = kid)) (db_sessions db),
                         db_keys := filter (\<lambda>k. ak_ID k \<noteq> kid) (db_keys db)\<rparr>))"

section \<open>Claim mappings\<close>

definition CreateClaimMapping :: "string \<Rightarrow> instant \<Rightarrow> ClaimRoleMapping \<Rightarrow> auth_db \<Rightarrow> db_error + (ClaimRoleMapping \<times> auth_db)" where
  "CreateClaimMapping uuid now input db =
     (case checkRoleAssignments [cm_RoleID input] db of
        Some e \<Rightarrow> Inl e
      | None \<Rightarrow>
          let m = input\<lparr>cm_ID := uuid, cm_CreatedAt := now\<rparr>
          in if uuid \<in> cm_ID ` set (db_mappings db)
                \<or> (\<exists>k \<in> set (db_mappings db). cm_WorkspaceID k = cm_WorkspaceID m \<and> cm_ClaimName k = cm_ClaimName m \<and> cm_ClaimValue k = cm_ClaimValue m)
             then Inl ErrDuplicateKey
             else Inr (m, db\<lparr>db_mappings := db_mappings db @ [m]\<rparr>))"

definition GetClaimMapping :: "string \<Rightarrow> auth_db \<Rightarrow> db_error + ClaimRoleMapping" where
  "GetClaimMapping mid db = (case find (\<lambda>m. cm_ID m = mid) (db_mappings db) of None \<Rightarrow> Inl ErrNotFound | Some m \<Rightarrow> Inr m)"

definition ListClaimMappings :: "string \<Rightarrow> auth_db \<Rightarrow> ClaimRoleMapping list" where
  "ListClaimMappings workspaceID db =
     sort_key (\<lambda>m. (- cm_Priority m, cm_ClaimName m)) (filter (\<lambda>m. cm_WorkspaceID m = workspaceID) (db_mappings db))"

definition DeleteClaimMapping :: "string \<Rightarrow> auth_db \<Rightarrow> db_error option \<times> auth_db" where
  "DeleteClaimMapping mid db =
     (if mid \<in> cm_ID ` set (db_mappings db) then (None, db\<lparr>db_mappings := filter (\<lambda>m. cm_ID m \<noteq> mid) (db_mappings db)\<rparr>)
      else (Some ErrNotFound, db))"

text \<open>The rows that match, strongest first within a workspace; the first row of a workspace decides.\<close>

definition role_rank :: "string \<Rightarrow> int" where
  "role_rank role =
     (if role = ''super_admin'' then 4 else if role = ''admin'' then 3 else if role = ''editor'' then 2 else if role = ''viewer'' then 1 else 0)"

definition mapping_order :: "ClaimRoleMapping \<Rightarrow> string \<times> int \<times> int \<times> string" where
  "mapping_order m = (cm_WorkspaceID m, - cm_Priority m, - role_rank (cm_RoleID m), cm_RoleID m)"

definition mapping_applies :: "(string, string list) gomap \<Rightarrow> auth_db \<Rightarrow> ClaimRoleMapping \<Rightarrow> bool" where
  "mapping_applies claims db m =
     (cm_RoleID m \<in> ro_ID ` set (db_roles db)
      \<and> (\<exists>(name, vals) \<in> set claims. cm_ClaimName m = name \<and> cm_ClaimValue m \<in> set vals))"

definition first_role :: "ClaimRoleMapping \<Rightarrow> (string, string) gomap \<Rightarrow> (string, string) gomap" where
  "first_role m roles =
     (case map_of roles (cm_WorkspaceID m) of None \<Rightarrow> AList.update (cm_WorkspaceID m) (cm_RoleID m) roles | Some _ \<Rightarrow> roles)"

definition ResolveClaimsToRoles :: "(string, string list) gomap \<Rightarrow> auth_db \<Rightarrow> (string, string) gomap" where
  "ResolveClaimsToRoles claims db =
     fold first_role (sort_key mapping_order (filter (mapping_applies claims db) (db_mappings db))) []"

section \<open>Signing keys\<close>

definition GetActiveSigningKey :: "auth_db \<Rightarrow> db_error + SigningKey" where
  "GetActiveSigningKey db =
     (case sort_key (\<lambda>k. - sk_CreatedAt k) (filter sk_IsActive (db_signing db)) of [] \<Rightarrow> Inl ErrNotFound | k # _ \<Rightarrow> Inr k)"

text \<open>Two statements without a transaction: the second may fail after the first took effect.\<close>

definition RotateSigningKey :: "bool \<Rightarrow> string \<Rightarrow> string \<times> string \<Rightarrow> instant \<Rightarrow> auth_db \<Rightarrow> (db_error + SigningKey) \<times> auth_db" where
  "RotateSigningKey inserted uuid keypair now db =
     (let db1 = db\<lparr>db_signing := map (\<lambda>k. k\<lparr>sk_IsActive := False\<rparr>) (db_signing db)\<rparr>;
          key = \<lparr>sk_ID = uuid, sk_PrivateKey = fst keypair, sk_PublicKey = snd keypair, sk_Algorithm = ''ES256'',
                 sk_CreatedAt = now, sk_IsActive = True\<rparr>
      in if inserted then (Inr key, db1\<lparr>db_signing := db_signing db1 @ [key]\<rparr>) else (Inl ErrConstraint, db1))"

section \<open>Browser sessions\<close>

definition SessionRotationGrace :: duration where
  "SessionRotationGrace = 30 * second"

definition to_micro :: "instant \<Rightarrow> instant" where
  "to_micro t = 1000 * (t div 1000)"

definition or_if_zero :: "instant \<Rightarrow> instant \<Rightarrow> instant" where
  "or_if_zero t dflt = (if t = zero_time then dflt else t)"

text \<open>The row that is written: defaults, and times to the microsecond. The columns of a previous
  token start empty.\<close>

definition session_row :: "string \<Rightarrow> instant \<Rightarrow> BrowserSession \<Rightarrow> BrowserSession" where
  "session_row uuid now s =
     (let created = or_if_zero (bs_CreatedAt s) now; seen = or_if_zero (bs_LastSeenAt s) created
      in s\<lparr>bs_ID := if bs_ID s = [] then uuid else bs_ID s,
           bs_CreatedAt := to_micro created, bs_LastSeenAt := to_micro seen,
           bs_IdleExpiresAt := to_micro (bs_IdleExpiresAt s), bs_ExpiresAt := to_micro (bs_ExpiresAt s),
           bs_RevokedAt := map_option to_micro (bs_RevokedAt s),
           bs_PreviousTokenHash := [], bs_PreviousCSRFHash := [], bs_PreviousValidUntil := None\<rparr>)"

definition CreateBrowserSession :: "string \<Rightarrow> instant \<Rightarrow> BrowserSession \<Rightarrow> auth_db \<Rightarrow> db_error + (BrowserSession \<times> auth_db)" where
  "CreateBrowserSession uuid now s db =
     (case checkRoleAssignments (map snd (bs_Roles s)) db of
        Some e \<Rightarrow> Inl e
      | None \<Rightarrow>
          let row = session_row uuid now s
          in if bs_ID row \<in> bs_ID ` set (db_sessions db) \<or> bs_TokenHash row \<in> bs_TokenHash ` set (db_sessions db) then Inl ErrConstraint
             else Inr (row, db\<lparr>db_sessions := db_sessions db @ [row]\<rparr>))"

definition token_row :: "string \<Rightarrow> instant \<Rightarrow> BrowserSession \<Rightarrow> bool" where
  "token_row tokenHash now s =
     (bs_TokenHash s = tokenHash
      \<or> (bs_PreviousTokenHash s = tokenHash \<and> (case bs_PreviousValidUntil s of None \<Rightarrow> False | Some u \<Rightarrow> u > now)))"

definition GetBrowserSessionByTokenHash :: "string \<Rightarrow> instant \<Rightarrow> auth_db \<Rightarrow> db_error + BrowserSession" where
  "GetBrowserSessionByTokenHash tokenHash now db =
     (case find (token_row tokenHash now) (db_sessions db) of None \<Rightarrow> Inl ErrNotFound | Some s \<Rightarrow> Inr s)"

definition ListBrowserSessions :: "int \<Rightarrow> auth_db \<Rightarrow> BrowserSession list" where
  "ListBrowserSessions limit db =
     take (nat (if limit \<le> 0 \<or> limit > 1000 then 200 else limit)) (sort_key (\<lambda>s. - bs_CreatedAt s) (db_sessions db))"

text \<open>An update of the rows that satisfy a condition; without one, the error.\<close>

definition update_sessions :: "(BrowserSession \<Rightarrow> bool) \<Rightarrow> (BrowserSession \<Rightarrow> BrowserSession) \<Rightarrow> db_error \<Rightarrow> auth_db \<Rightarrow> db_error option \<times> auth_db" where
  "update_sessions cond upd err db =
     (if \<exists>s \<in> set (db_sessions db). cond s
      then (None, db\<lparr>db_sessions := map (\<lambda>s. if cond s then upd s else s) (db_sessions db)\<rparr>)
      else (Some err, db))"

definition TouchBrowserSession :: "string \<Rightarrow> instant \<Rightarrow> instant \<Rightarrow> auth_db \<Rightarrow> db_error option \<times> auth_db" where
  "TouchBrowserSession sid seenAt idleExpiresAt =
     update_sessions (\<lambda>s. bs_ID s = sid \<and> bs_RevokedAt s = None)
       (\<lambda>s. s\<lparr>bs_LastSeenAt := seenAt, bs_IdleExpiresAt := idleExpiresAt\<rparr>) ErrNotFound"

definition rotatable :: "string \<Rightarrow> string \<Rightarrow> instant \<Rightarrow> BrowserSession \<Rightarrow> bool" where
  "rotatable sid expectedHash seenAt s =
     (bs_ID s = sid \<and> bs_TokenHash s = expectedHash \<and> session_live seenAt s
      \<and> (case bs_PreviousValidUntil s of None \<Rightarrow> True | Some u \<Rightarrow> u \<le> seenAt))"

definition rotated :: "string \<Rightarrow> string \<Rightarrow> instant \<Rightarrow> instant \<Rightarrow> BrowserSession \<Rightarrow> BrowserSession" where
  "rotated tokenHash csrfHash seenAt idleExpiresAt s =
     s\<lparr>bs_PreviousTokenHash := bs_TokenHash s, bs_PreviousCSRFHash := bs_CSRFHash s,
       bs_PreviousValidUntil := Some (seenAt + SessionRotationGrace), bs_TokenHash := tokenHash, bs_CSRFHash := csrfHash,
       bs_LastSeenAt := seenAt, bs_IdleExpiresAt := min idleExpiresAt (bs_ExpiresAt s)\<rparr>"

definition RotateBrowserSession :: "string \<Rightarrow> string \<Rightarrow> string \<Rightarrow> string \<Rightarrow> instant \<Rightarrow> instant \<Rightarrow> auth_db \<Rightarrow> db_error option \<times> auth_db" where
  "RotateBrowserSession sid expectedHash tokenHash csrfHash seenAt idleExpiresAt db =
     (if (\<exists>s \<in> set (db_sessions db). rotatable sid expectedHash seenAt s)
         \<and> (\<exists>s \<in> set (db_sessions db). \<not> rotatable sid expectedHash seenAt s \<and> bs_TokenHash s = tokenHash)
      then (Some ErrConstraint, db)
      else update_sessions (rotatable sid expectedHash seenAt) (rotated tokenHash csrfHash seenAt idleExpiresAt) ErrSessionRotated db)"

definition RevokeBrowserSession :: "string \<Rightarrow> instant \<Rightarrow> auth_db \<Rightarrow> db_error option \<times> auth_db" where
  "RevokeBrowserSession sid revokedAt =
     update_sessions (\<lambda>s. bs_ID s = sid \<and> bs_RevokedAt s = None) (\<lambda>s. s\<lparr>bs_RevokedAt := Some revokedAt\<rparr>) ErrNotFound"

definition DeleteExpiredBrowserSessions :: "instant \<Rightarrow> auth_db \<Rightarrow> nat \<times> auth_db" where
  "DeleteExpiredBrowserSessions now db =
     (length (filter (\<lambda>s. \<not> session_live now s) (db_sessions db)), db\<lparr>db_sessions := filter (session_live now) (db_sessions db)\<rparr>)"

end
