(* ===== verification/Auth_Tokens.thy ===== *)
theory Auth_Tokens
  imports Auth_Store Base64 Utf8
begin

text \<open>
  Self-signed tokens: signing in the store (\<^verbatim>\<open>store/jwt.go\<close>, \<^verbatim>\<open>CreateToken\<close>) and validation
  (\<^verbatim>\<open>identity/jwt.go\<close>). The JSON codec of header and payload, SHA-256, ECDSA and the key formats of
  \<^verbatim>\<open>crypto/x509\<close> are fields of a record of functions; token structure, base64, the layout of the
  signature, the checks and the roles are modelled.
\<close>

section \<open>Tokens\<close>

record jwtHeader =
  jh_Alg :: string
  jh_Typ :: string

record jwtPayload =
  jp_Iss :: string
  jp_Sub :: string
  jp_Role :: string
  jp_Workspace :: string
  jp_Iat :: int
  jp_Exp :: int

record jwtToken =
  jt_Header :: jwtHeader
  jt_Payload :: jwtPayload
  jt_Raw :: string

record token_libs =
  tl_header :: "jwtHeader \<Rightarrow> string"
  tl_parse_header :: "string \<Rightarrow> jwtHeader option"
  tl_payload :: "jwtPayload \<Rightarrow> string"
  tl_parse_payload :: "string \<Rightarrow> jwtPayload option"
  tl_sha256 :: "string \<Rightarrow> string"
  tl_sign :: "string \<Rightarrow> string \<Rightarrow> nat \<times> nat"
  tl_verify :: "string \<Rightarrow> string \<Rightarrow> nat \<Rightarrow> nat \<Rightarrow> bool"
  tl_private_ok :: "string \<Rightarrow> bool"
  tl_public_ok :: "string \<Rightarrow> bool"
  tl_public_ecdsa :: "string \<Rightarrow> bool"

definition token_message :: "token_libs \<Rightarrow> jwtHeader \<Rightarrow> jwtPayload \<Rightarrow> string" where
  "token_message L h p = EncodeToString (tl_header L h) @ ''.'' @ EncodeToString (tl_payload L p)"

text \<open>\<^verbatim>\<open>Sign\<close>: both halves of the signature take 32 bytes, most significant byte first.\<close>

definition Sign :: "token_libs \<Rightarrow> string \<Rightarrow> jwtHeader \<Rightarrow> jwtPayload \<Rightarrow> string" where
  "Sign L privateKey h p =
     (let message = token_message L h p;
          rs = tl_sign L privateKey (tl_sha256 L message);
          signature = big_endian 32 (fst rs) @ big_endian 32 (snd rs)
      in message @ ''.'' @ EncodeToString signature)"

definition parseJWT :: "token_libs \<Rightarrow> string \<Rightarrow> string + jwtToken" where
  "parseJWT L tok =
     (case split_on CHR ''.'' tok of
        [a, b, c] \<Rightarrow>
          (case DecodeString a of
             None \<Rightarrow> Inl ''failed to decode header''
           | Some hb \<Rightarrow>
               (case DecodeString b of
                  None \<Rightarrow> Inl ''failed to decode payload''
                | Some pb \<Rightarrow>
                    (case tl_parse_header L hb of
                       None \<Rightarrow> Inl ''failed to parse header''
                     | Some h \<Rightarrow>
                         (case tl_parse_payload L pb of
                            None \<Rightarrow> Inl ''failed to parse payload''
                          | Some p \<Rightarrow> Inr \<lparr>jt_Header = h, jt_Payload = p, jt_Raw = tok\<rparr>))))
      | _ \<Rightarrow> Inl ''invalid token format'')"

definition Verify :: "token_libs \<Rightarrow> string \<Rightarrow> jwtToken \<Rightarrow> string option" where
  "Verify L publicKey t =
     (case split_on CHR ''.'' (jt_Raw t) of
        [a, b, c] \<Rightarrow>
          if jh_Alg (jt_Header t) \<noteq> ''ES256'' then Some ''unexpected JWT algorithm''
          else (case DecodeString c of
             None \<Rightarrow> Some ''failed to decode signature''
           | Some sig \<Rightarrow>
               if length sig \<noteq> 64 then Some ''invalid signature length''
               else if tl_verify L publicKey (tl_sha256 L (a @ ''.'' @ b)) (read_bytes (take 32 sig)) (read_bytes (drop 32 sig)) then None
               else Some ''invalid signature'')
      | _ \<Rightarrow> Some ''invalid token format'')"

definition unix_seconds :: "instant \<Rightarrow> int" where
  "unix_seconds t = t div second"

definition CreateToken :: "token_libs \<Rightarrow> SigningKey \<Rightarrow> string \<Rightarrow> string \<Rightarrow> string \<Rightarrow> duration \<Rightarrow> instant \<Rightarrow> string + string" where
  "CreateToken L key subject role workspaceID dur now =
     (if (role = ''super_admin'') \<noteq> (workspaceID = []) then Inl ''super_admin tokens are global; every other role requires a workspace''
      else if \<not> tl_private_ok L (sk_PrivateKey key) then Inl ''failed to parse private key''
      else Inr (Sign L (sk_PrivateKey key) \<lparr>jh_Alg = ''ES256'', jh_Typ = ''JWT''\<rparr>
             \<lparr>jp_Iss = ''neoserver'', jp_Sub = subject, jp_Role = role, jp_Workspace = workspaceID,
              jp_Iat = unix_seconds now, jp_Exp = unix_seconds (now + dur)\<rparr>))"

definition ValidateToken :: "token_libs \<Rightarrow> instant \<Rightarrow> auth_db \<Rightarrow> string \<Rightarrow> string + jwtPayload" where
  "ValidateToken L now db tok =
     (case GetActiveSigningKey db of
        Inl _ \<Rightarrow> Inl ''failed to get signing key''
      | Inr key \<Rightarrow>
          if \<not> tl_public_ok L (sk_PublicKey key) then Inl ''failed to parse public key''
          else if \<not> tl_public_ecdsa L (sk_PublicKey key) then Inl ''invalid public key type''
          else bind_res (parseJWT L tok) (\<lambda>t.
            case Verify L (sk_PublicKey key) t of
              Some err \<Rightarrow> Inl err
            | None \<Rightarrow> if unix_seconds now > jp_Exp (jt_Payload t) then Inl ''token expired'' else Inr (jt_Payload t)))"

section \<open>Validation of a request's token\<close>

record AuthError =
  ae_Message :: string
  ae_StatusCode :: int
  ae_RetryAfter :: duration

definition auth_error :: "string \<Rightarrow> AuthError" where
  "auth_error msg = \<lparr>ae_Message = msg, ae_StatusCode = 0, ae_RetryAfter = 0\<rparr>"

text \<open>A validator passes on (\<open>Inr None\<close>), accepts, or rejects.\<close>

type_synonym validation = "AuthError + Identity option"

text \<open>Only super_admin is global; every other role applies to the workspace of the token.\<close>

definition jwt_roles :: "jwtPayload \<Rightarrow> AuthError + (string \<rightharpoonup> string)" where
  "jwt_roles p =
     (if jp_Role p = [] then Inr Map.empty
      else if jp_Role p = ''super_admin''
      then if jp_Workspace p \<noteq> [] then Inl (auth_error ''Invalid token scope'') else Inr [''*'' \<mapsto> ''super_admin'']
      else if jp_Workspace p = [] \<or> jp_Workspace p = ''*''
      then Inl (auth_error ''Token has no workspace scope; issue a new token with create-token --workspace'')
      else Inr [jp_Workspace p \<mapsto> jp_Role p])"

definition jwt_identity :: "jwtPayload \<Rightarrow> (string \<rightharpoonup> string) \<Rightarrow> Identity" where
  "jwt_identity p roles =
     Anonymous\<lparr>id_Subject := jp_Sub p, id_AuthMethod := AuthMethodJWT, id_Roles := roles,
       id_Claims := [''iss'' \<mapsto> JString (jp_Iss p), ''sub'' \<mapsto> JString (jp_Sub p), ''role'' \<mapsto> JString (jp_Role p),
         ''workspace'' \<mapsto> JString (jp_Workspace p), ''iat'' \<mapsto> JNumber (show_int (jp_Iat p)), ''exp'' \<mapsto> JNumber (show_int (jp_Exp p))]\<rparr>"

definition JWT_Validate :: "token_libs \<Rightarrow> instant \<Rightarrow> auth_db \<Rightarrow> string \<Rightarrow> validation" where
  "JWT_Validate L now db tok =
     (case parseJWT L tok of
        Inl _ \<Rightarrow> Inl (auth_error ''Invalid token format'')
      | Inr t \<Rightarrow>
          if jp_Iss (jt_Payload t) \<noteq> ''neoserver'' then Inr None
          else (case GetActiveSigningKey db of
             Inl _ \<Rightarrow> Inl (auth_error ''Failed to get signing key'')
           | Inr key \<Rightarrow>
               if \<not> tl_public_ok L (sk_PublicKey key) then Inl (auth_error ''Failed to parse signing key'')
               else if \<not> tl_public_ecdsa L (sk_PublicKey key) then Inl (auth_error ''Invalid signing key type'')
               else if Verify L (sk_PublicKey key) t \<noteq> None then Inl (auth_error ''Invalid token signature'')
               else if unix_seconds now > jp_Exp (jt_Payload t) then Inl (auth_error ''Token expired'')
               else bind_res (jwt_roles (jt_Payload t)) (\<lambda>roles. Inr (Some (jwt_identity (jt_Payload t) roles)))))"

section \<open>Signing and validating\<close>

text \<open>What the library promises: the codec decodes what it encodes, for strings that are valid UTF-8 and
  times of 64 bits, signatures fit in 32 bytes a half (P-256), and a signature verifies under the public half
  of its key pair.\<close>

definition header_encodable :: "jwtHeader \<Rightarrow> bool" where
  "header_encodable h = (utf8_valid (jh_Alg h) \<and> utf8_valid (jh_Typ h))"

definition payload_encodable :: "jwtPayload \<Rightarrow> bool" where
  "payload_encodable p =
     (list_all utf8_valid [jp_Iss p, jp_Sub p, jp_Role p, jp_Workspace p] \<and> int64_range (jp_Iat p) \<and> int64_range (jp_Exp p))"

definition libs_ok :: "token_libs \<Rightarrow> SigningKey \<Rightarrow> bool" where
  "libs_ok L key =
     ((\<forall>h. header_encodable h \<longrightarrow> tl_parse_header L (tl_header L h) = Some h)
      \<and> (\<forall>p. payload_encodable p \<longrightarrow> tl_parse_payload L (tl_payload L p) = Some p)
      \<and> tl_public_ok L (sk_PublicKey key) \<and> tl_public_ecdsa L (sk_PublicKey key)
      \<and> (\<forall>h. case tl_sign L (sk_PrivateKey key) h of (r, s) \<Rightarrow>
           r < 256 ^ 32 \<and> s < 256 ^ 32 \<and> tl_verify L (sk_PublicKey key) h r s))"

lemma EncodeToString_no_dot [simp]: "CHR ''.'' \<notin> set (EncodeToString s)"
  by (rule EncodeToString_no_char) (simp add: code_of_def)

lemma split_signed:
  "split_on CHR ''.'' (Sign L priv h p) =
     [EncodeToString (tl_header L h), EncodeToString (tl_payload L p),
      EncodeToString (big_endian 32 (fst (tl_sign L priv (tl_sha256 L (token_message L h p))))
        @ big_endian 32 (snd (tl_sign L priv (tl_sha256 L (token_message L h p)))))]"
  by (simp add: Sign_def Let_def token_message_def split_on_append split_on_free)

lemma parse_signed:
  assumes "libs_ok L key" "header_encodable h" "payload_encodable p"
  shows "parseJWT L (Sign L priv h p) = Inr \<lparr>jt_Header = h, jt_Payload = p, jt_Raw = Sign L priv h p\<rparr>"
  using assms by (simp add: parseJWT_def split_signed libs_ok_def)

lemma verify_signed:
  assumes "libs_ok L key" "jh_Alg h = ''ES256''"
  shows "Verify L (sk_PublicKey key) \<lparr>jt_Header = h, jt_Payload = p, jt_Raw = Sign L (sk_PrivateKey key) h p\<rparr> = None"
proof -
  obtain r s where rs: "tl_sign L (sk_PrivateKey key) (tl_sha256 L (token_message L h p)) = (r, s)" by fastforce
  with assms have "r < 256 ^ 32" "s < 256 ^ 32" "tl_verify L (sk_PublicKey key) (tl_sha256 L (token_message L h p)) r s"
    by (auto simp: libs_ok_def split: prod.splits)
  then show ?thesis using assms(2) rs by (simp add: Verify_def split_signed read_big_endian token_message_def)
qed

text \<open>What acceptance means, read off the checks.\<close>

lemma JWT_Validate_accepts:
  assumes "JWT_Validate L now db tok = Inr (Some idn)"
  obtains t key roles where "parseJWT L tok = Inr t" "GetActiveSigningKey db = Inr key" "Verify L (sk_PublicKey key) t = None"
    "jp_Iss (jt_Payload t) = ''neoserver''" "unix_seconds now \<le> jp_Exp (jt_Payload t)"
    "jwt_roles (jt_Payload t) = Inr roles" "idn = jwt_identity (jt_Payload t) roles"
  using assms by (auto simp: JWT_Validate_def bind_res_eq_Inr split: sum.splits if_splits)

lemma parseJWT_raw: "parseJWT L tok = Inr t \<Longrightarrow> jt_Raw t = tok"
  by (auto simp: parseJWT_def split: list.splits option.splits)

lemma jwt_roles_scope:
  assumes "jwt_roles p = Inr roles"
  shows "roles = Map.empty \<or> roles = [''*'' \<mapsto> ''super_admin''] \<and> jp_Role p = ''super_admin'' \<and> jp_Workspace p = []
    \<or> roles = [jp_Workspace p \<mapsto> jp_Role p] \<and> jp_Workspace p \<notin> {[], ''*''} \<and> jp_Role p \<notin> {[], ''super_admin''}"
  using assms by (auto simp: jwt_roles_def split: if_splits)

end
