(* ===== verification/Auth_Validators.thy ===== *)
theory Auth_Validators
  imports Auth_Tokens Rate_Limit Rbac_Middleware
begin

text \<open>
  Package \<^verbatim>\<open>internal/identity\<close>: the validators of API keys (\<^verbatim>\<open>apikey.go\<close>, \<^verbatim>\<open>staticapikey.go\<close>), passwords
  (\<^verbatim>\<open>basicauth.go\<close>), OIDC tokens (\<^verbatim>\<open>oidc.go\<close>, \<^verbatim>\<open>oidc_recovery.go\<close>) and browser sessions
  (\<^verbatim>\<open>session.go\<close>), and the middleware that asks them in turn (\<^verbatim>\<open>middleware.go\<close>). Verification of an OIDC
  token is a parameter that yields the claims. The request carries the headers and cookies as
  \<^verbatim>\<open>net/http\<close> hands them out: the first value, or nothing.
\<close>

section \<open>Requests\<close>

record auth_request = http_request +
  ar_XAPIKey :: string
  ar_Authorization :: string
  ar_Cookie :: string
  ar_SessionCookie :: "string option"
  ar_CSRFToken :: string
  ar_RemoteAddr :: string

definition trim_prefix :: "string \<Rightarrow> string \<Rightarrow> string" where
  "trim_prefix s p = (if has_prefix s p then drop (length p) s else s)"

definition has_suffix :: "string \<Rightarrow> string \<Rightarrow> bool" where
  "has_suffix s p = has_prefix (rev s) (rev p)"

definition query_get :: "string \<Rightarrow> ('a http_request_scheme) \<Rightarrow> string" where
  "query_get k r = (case map_of (rq_Query r) k of Some (v # _) \<Rightarrow> v | _ \<Rightarrow> [])"

definition HashSessionToken :: "(string \<Rightarrow> string) \<Rightarrow> string \<Rightarrow> string" where
  "HashSessionToken sha256 raw = hex_encode (sha256 raw)"

definition CredentialFingerprint :: "(string \<Rightarrow> string) \<Rightarrow> string \<Rightarrow> string \<Rightarrow> string" where
  "CredentialFingerprint sha256 princ secret = HashSessionToken sha256 (princ @ [CHR 0x00] @ secret)"

section \<open>API keys\<close>

definition key_identity :: "APIKey \<Rightarrow> Identity" where
  "key_identity k =
     Anonymous\<lparr>id_Subject := ak_OwnerName k, id_Email := ak_OwnerEmail k, id_AuthMethod := AuthMethodAPIKey,
       id_Roles := [case ak_WorkspaceID k of Some w \<Rightarrow> w | None \<Rightarrow> ''*'' \<mapsto> ak_RoleID k], id_APIKeyID := ak_ID k\<rparr>"

definition APIKey_Validate :: "(string \<Rightarrow> string) \<Rightarrow> instant \<Rightarrow> auth_db \<Rightarrow> string \<Rightarrow> validation" where
  "APIKey_Validate sha256 now db key =
     (case GetAPIKeyByHash (hash_hex sha256 key) now db of
        Inl e \<Rightarrow> Inl (auth_error (if e = ErrNotFound \<or> e = ErrInvalidCredentials then ''Invalid API key'' else ''Failed to validate API key''))
      | Inr k \<Rightarrow> Inr (Some (key_identity k)))"

definition presented_key :: "bool \<Rightarrow> auth_request \<Rightarrow> string" where
  "presented_key allowQueryParam r =
     (let auth = ar_Authorization r;
          key = (if ar_XAPIKey r \<noteq> [] then ar_XAPIKey r
                 else if has_prefix auth ''Bearer nsk_'' then trim_prefix auth ''Bearer ''
                 else if has_prefix auth ''ApiKey '' then trim_prefix auth ''ApiKey '' else [])
      in if key = [] \<and> allowQueryParam then query_get ''apikey'' r else key)"

definition APIKey_ValidateRequest :: "(string \<Rightarrow> string) \<Rightarrow> bool \<Rightarrow> instant \<Rightarrow> auth_db \<Rightarrow> auth_request \<Rightarrow> validation" where
  "APIKey_ValidateRequest sha256 allowQueryParam now db r =
     (let key = presented_key allowQueryParam r
      in if key = [] then Inr None
         else if \<not> has_prefix key ''nsk_'' then Inl (auth_error ''Invalid API key format'')
         else APIKey_Validate sha256 now db key)"

definition default_role :: "string \<Rightarrow> string" where
  "default_role role = (if role = [] then ''super_admin'' else role)"

definition StaticAPIKey_ValidateRequest :: "string \<Rightarrow> string \<Rightarrow> bool \<Rightarrow> auth_request \<Rightarrow> validation" where
  "StaticAPIKey_ValidateRequest staticKey role allowQueryParam r =
     (if staticKey = [] then Inr None
      else let auth = ar_Authorization r;
               key = (if ar_XAPIKey r \<noteq> [] then ar_XAPIKey r
                      else if has_prefix auth ''ApiKey '' then trim_prefix auth ''ApiKey ''
                      else if has_prefix auth ''Bearer '' then trim_prefix auth ''Bearer '' else []);
               key = (if key = [] \<and> allowQueryParam then query_get ''apikey'' r else key)
           in if key = [] \<or> has_prefix key ''nsk_'' \<or> key \<noteq> staticKey then Inr None
              else Inr (Some (Anonymous\<lparr>id_Subject := ''static-apikey'', id_AuthMethod := AuthMethodAPIKey,
                     id_Roles := [''*'' \<mapsto> default_role role]\<rparr>)))"

section \<open>Passwords\<close>

text \<open>\<^verbatim>\<open>Request.BasicAuth\<close>: the scheme in any letter case, padded standard base64, split at the first colon.\<close>

definition std_val :: "char \<Rightarrow> nat option" where
  "std_val c = (if c = CHR ''+'' then Some 62 else if c = CHR ''/'' then Some 63
     else if c = CHR ''-'' \<or> c = CHR ''_'' then None else b64_val c)"

definition StdDecode :: "string \<Rightarrow> string option" where
  "StdDecode s =
     (let t = filter (\<lambda>c. code_of c \<noteq> 10 \<and> code_of c \<noteq> 13) s;
          pad = length (takeWhile (\<lambda>c. c = CHR ''='') (rev t))
      in if length t mod 4 \<noteq> 0 \<or> pad > 2 then None
         else case all_some (map std_val (take (length t - pad) t)) of
                None \<Rightarrow> None
              | Some vs \<Rightarrow> map_option (map char_of) (b64_bytes vs))"

definition BasicAuth :: "string \<Rightarrow> (string \<times> string) option" where
  "BasicAuth auth =
     (if \<not> equal_fold (take 6 auth) ''Basic '' then None
      else case StdDecode (drop 6 auth) of
             None \<Rightarrow> None
           | Some cs \<Rightarrow> if CHR '':'' \<in> set cs
               then Some (takeWhile (\<lambda>c. c \<noteq> CHR '':'') cs, tl (dropWhile (\<lambda>c. c \<noteq> CHR '':'') cs)) else None)"

definition check_password :: "(string \<Rightarrow> string) \<Rightarrow> (string, string) gomap \<Rightarrow> string \<Rightarrow> instant \<Rightarrow> string \<Rightarrow> string \<Rightarrow> string
    \<Rightarrow> FailureLimiter \<Rightarrow> validation \<times> FailureLimiter" where
  "check_password sha256 users role now remoteAddr username password l =
     (let keys = CredentialRateKeys (HashSessionToken sha256) remoteAddr username;
          (l1, wait) = Wait l keys now
      in if wait > 0
         then (Inl \<lparr>ae_Message = ''Too many failed sign-in attempts'', ae_StatusCode = 429, ae_RetryAfter = wait\<rparr>, l1)
         else if map_of users username \<noteq> Some password
         then let (l2, retry) = Fail l1 keys now
              in (Inl \<lparr>ae_Message = ''Invalid credentials'', ae_StatusCode = 0, ae_RetryAfter = retry\<rparr>, l2)
         else (Inr (Some (Anonymous\<lparr>id_Subject := username, id_AuthMethod := AuthMethodBasic,
                 id_Roles := [''*'' \<mapsto> default_role role]\<rparr>)), Succeed l1 keys))"

definition Basic_ValidateRequest :: "(string \<Rightarrow> string) \<Rightarrow> (string, string) gomap \<Rightarrow> string \<Rightarrow> instant \<Rightarrow> auth_request
    \<Rightarrow> FailureLimiter \<Rightarrow> validation \<times> FailureLimiter" where
  "Basic_ValidateRequest sha256 users role now r l =
     (if users = [] then (Inr None, l)
      else case BasicAuth (ar_Authorization r) of
             None \<Rightarrow> (Inr None, l)
           | Some (username, password) \<Rightarrow> check_password sha256 users role now (ar_RemoteAddr r) username password l)"

section \<open>Bearer tokens\<close>

text \<open>The token of an \<^verbatim>\<open>Authorization: Bearer\<close> header that is not a stored API key.\<close>

definition bearer_token :: "auth_request \<Rightarrow> string option" where
  "bearer_token r =
     (if \<not> has_prefix (ar_Authorization r) ''Bearer '' then None
      else let tok = trim_prefix (ar_Authorization r) ''Bearer ''
           in if tok = [] \<or> has_prefix tok ''nsk_'' then None else Some tok)"

definition JWT_ValidateRequest :: "token_libs \<Rightarrow> instant \<Rightarrow> auth_db \<Rightarrow> auth_request \<Rightarrow> validation" where
  "JWT_ValidateRequest L now db r = (case bearer_token r of None \<Rightarrow> Inr None | Some tok \<Rightarrow> JWT_Validate L now db tok)"

record OIDCConfig =
  oc_IssuerURL :: string
  oc_RequiredScopes :: "string list"
  oc_GroupClaims :: "string list"

record oidc_libs =
  ol_verify :: "string \<Rightarrow> (string, json) gomap option"
  ol_parse :: "string \<Rightarrow> (string, json) gomap option"

text \<open>\<^verbatim>\<open>strings.Fields\<close>.\<close>

definition fields :: "string \<Rightarrow> string list" where
  "fields s = filter (\<lambda>w. w \<noteq> []) (split_on CHR '' '' (map (\<lambda>c. if is_ascii_space c then CHR '' '' else c) s))"

fun json_strings :: "json list \<Rightarrow> string list" where
  "json_strings [] = []"
| "json_strings (JString s # js) = s # json_strings js"
| "json_strings (_ # js) = json_strings js"

definition token_scopes :: "(string, json) gomap \<Rightarrow> string list option" where
  "token_scopes claims =
     (case map_of claims ''scope'' of
        Some (JString s) \<Rightarrow> Some (fields s)
      | _ \<Rightarrow> (case map_of claims ''scopes'' of
          Some (JArray js) \<Rightarrow> Some (json_strings js)
        | _ \<Rightarrow> (case map_of claims ''scp'' of
            Some (JArray js) \<Rightarrow> Some (json_strings js)
          | Some (JString s) \<Rightarrow> Some (fields s)
          | _ \<Rightarrow> None)))"

definition validateScopes :: "string list \<Rightarrow> (string, json) gomap \<Rightarrow> string option" where
  "validateScopes required claims =
     (case token_scopes claims of
        None \<Rightarrow> if required \<noteq> [] then Some ''required scope claim is missing or malformed'' else None
      | Some scopes \<Rightarrow> map_option (\<lambda>s. ''missing required scope: '' @ s) (find (\<lambda>s. s \<notin> set scopes) required))"

definition extractStringSlice :: "json option \<Rightarrow> string list" where
  "extractStringSlice v = (case v of Some (JString s) \<Rightarrow> [s] | Some (JArray js) \<Rightarrow> json_strings js | _ \<Rightarrow> [])"

fun nested_claim :: "string list \<Rightarrow> (string, json) gomap \<Rightarrow> string list" where
  "nested_claim [] current = []"
| "nested_claim [part] current = extractStringSlice (map_of current part)"
| "nested_claim (part # p # ps) current =
     (case map_of current part of Some (JObject nested) \<Rightarrow> nested_claim (p # ps) nested | _ \<Rightarrow> [])"

definition extractClaimValues :: "(string, json) gomap \<Rightarrow> string \<Rightarrow> string list" where
  "extractClaimValues claims path =
     (case map_of claims path of Some v \<Rightarrow> extractStringSlice (Some v) | None \<Rightarrow> nested_claim (split_on CHR ''.'' path) claims)"

definition extractMappableClaims :: "(string, json) gomap \<Rightarrow> string list \<Rightarrow> (string, string list) gomap" where
  "extractMappableClaims claims configured =
     (let claimNames = (if configured = [] then [''groups'', ''roles'', ''group'', ''role'', ''realm_access.roles'', ''cognito:groups''] else configured)
      in fold (\<lambda>name res. let vals = extractClaimValues claims name in if vals = [] then res else AList.update name vals res) claimNames [])"

definition safePresentedClaims :: "(string, json) gomap \<Rightarrow> string list \<Rightarrow> (string, json) gomap" where
  "safePresentedClaims claims groupClaims =
     (let safe = concat (map (\<lambda>name. case map_of claims name of None \<Rightarrow> [] | Some v \<Rightarrow> [(name, v)]) [''iss'', ''sub'', ''email'', ''name'', ''exp''])
      in fold (\<lambda>(name, vals). AList.update name (JArray (map JString vals))) (extractMappableClaims claims groupClaims) safe)"

definition claim_string :: "(string, json) gomap \<Rightarrow> string \<Rightarrow> string" where
  "claim_string claims name = (case map_of claims name of Some (JString s) \<Rightarrow> s | _ \<Rightarrow> [])"

definition OIDC_validateToken :: "oidc_libs \<Rightarrow> OIDCConfig \<Rightarrow> auth_db \<Rightarrow> bool \<Rightarrow> string \<Rightarrow> validation" where
  "OIDC_validateToken P cfg db requireScopes tok =
     (case ol_verify P tok of
        None \<Rightarrow> Inl (auth_error ''Token verification failed'')
      | Some claims \<Rightarrow>
          (case (if requireScopes \<and> oc_RequiredScopes cfg \<noteq> [] then validateScopes (oc_RequiredScopes cfg) claims else None) of
             Some msg \<Rightarrow> Inl (auth_error msg)
           | None \<Rightarrow>
               let claimsMap = extractMappableClaims claims (oc_GroupClaims cfg)
               in if claim_string claims ''sub'' = [] then Inl (auth_error ''Token subject is missing'')
                  else if map_of claims ''_claim_names'' \<noteq> None \<and> map_of claimsMap ''groups'' = None
                  then Inl (auth_error ''Token group claims require provider overage resolution'')
                  else Inr (Some (Anonymous\<lparr>id_Subject := claim_string claims ''sub'', id_Email := claim_string claims ''email'',
                         id_DisplayName := claim_string claims ''name'', id_AuthMethod := AuthMethodOIDC,
                         id_Roles := map_of (ResolveClaimsToRoles claimsMap db),
                         id_Claims := map_of (safePresentedClaims claims (oc_GroupClaims cfg))\<rparr>))))"

definition self_issued :: "oidc_libs \<Rightarrow> string \<Rightarrow> bool" where
  "self_issued P tok =
     (case split_on CHR ''.'' tok of
        [_, b, _] \<Rightarrow> (case DecodeString b of
            None \<Rightarrow> False
          | Some raw \<Rightarrow> (case ol_parse P raw of None \<Rightarrow> False | Some p \<Rightarrow> map_of p ''iss'' = Some (JString ''neoserver'')))
      | _ \<Rightarrow> False)"

text \<open>Discovery of the provider is retried with a back-off (\<^verbatim>\<open>oidc_recovery.go\<close>); \<open>discovered\<close> is the outcome of
  an attempt.\<close>

record oidc_state =
  os_ready :: bool
  os_nextAttempt :: instant
  os_retryDelay :: duration

definition oidc_get :: "bool \<Rightarrow> instant \<Rightarrow> oidc_state \<Rightarrow> bool \<times> oidc_state" where
  "oidc_get discovered now st =
     (if os_ready st then (True, st)
      else if now < os_nextAttempt st then (False, st)
      else if discovered then (True, st\<lparr>os_ready := True\<rparr>)
      else (False, st\<lparr>os_nextAttempt := now + os_retryDelay st, os_retryDelay := min (30 * second) (2 * os_retryDelay st)\<rparr>))"

definition OIDC_ValidateRequest :: "oidc_libs \<Rightarrow> OIDCConfig \<Rightarrow> bool \<Rightarrow> instant \<Rightarrow> auth_db \<Rightarrow> auth_request \<Rightarrow> oidc_state \<Rightarrow> validation \<times> oidc_state" where
  "OIDC_ValidateRequest P cfg discovered now db r st =
     (if \<not> has_prefix (ar_Authorization r) ''Bearer '' \<or> has_prefix (trim_prefix (ar_Authorization r) ''Bearer '') ''nsk_''
         \<or> self_issued P (trim_prefix (ar_Authorization r) ''Bearer '')
      then (Inr None, st)
      else case oidc_get discovered now st of
             (False, st') \<Rightarrow> (Inl \<lparr>ae_Message = ''OIDC authentication temporarily unavailable'', ae_StatusCode = 503, ae_RetryAfter = 0\<rparr>, st')
           | (True, st') \<Rightarrow> (case bearer_token r of None \<Rightarrow> Inr None | Some tok \<Rightarrow> OIDC_validateToken P cfg db True tok, st'))"

section \<open>Browser sessions\<close>

record SessionValidator =
  sv_DefaultRole :: string
  sv_staticHash :: string
  sv_basicHashes :: "(string, string) gomap"
  sv_groupClaims :: "string list"

definition NewSessionValidator :: "(string \<Rightarrow> string) \<Rightarrow> string \<Rightarrow> string \<Rightarrow> (string, string) gomap \<Rightarrow> OIDCConfig option \<Rightarrow> SessionValidator" where
  "NewSessionValidator sha256 defaultRole staticKey users oidc =
     \<lparr>sv_DefaultRole = default_role defaultRole,
      sv_staticHash = (if staticKey = [] then [] else CredentialFingerprint sha256 ''static'' staticKey),
      sv_basicHashes = map (\<lambda>(username, password). (username, CredentialFingerprint sha256 username password)) users,
      sv_groupClaims = (case oidc of None \<Rightarrow> [] | Some cfg \<Rightarrow> oc_GroupClaims cfg)\<rparr>"

definition isUnsafeMethod :: "string \<Rightarrow> bool" where
  "isUnsafeMethod meth = (meth \<notin> {''GET'', ''HEAD'', ''OPTIONS'', ''TRACE''})"

definition mutating_request :: "xml_decoder \<Rightarrow> auth_request \<Rightarrow> bool" where
  "mutating_request xml r =
     (isUnsafeMethod (rq_Method r) \<or> Mutating (Protocol_Request.Get xml (http_request.truncate r)) (rq_Method r))"

text \<open>The overlap in which the token and the CSRF value of the last generation still count.\<close>

definition in_grace :: "instant \<Rightarrow> BrowserSession \<Rightarrow> bool" where
  "in_grace now s = (case bs_PreviousValidUntil s of None \<Rightarrow> False | Some u \<Rightarrow> now < u)"

definition csrf_ok :: "(string \<Rightarrow> string) \<Rightarrow> instant \<Rightarrow> BrowserSession \<Rightarrow> string \<Rightarrow> bool" where
  "csrf_ok sha256 now s csrf =
     (csrf \<noteq> [] \<and> (HashSessionToken sha256 csrf = bs_CSRFHash s
        \<or> (in_grace now s \<and> HashSessionToken sha256 csrf = bs_PreviousCSRFHash s)))"

text \<open>The roles of a session, from what its credential is worth now.\<close>

definition session_roles :: "SessionValidator \<Rightarrow> instant \<Rightarrow> auth_db \<Rightarrow> BrowserSession \<Rightarrow> AuthError + (string \<rightharpoonup> string)" where
  "session_roles v now db s =
     (let meth = bs_AuthMethod s
      in if meth = ''apikey''
         then (case GetAPIKeyByID (bs_CredentialID s) now db of
             Inl _ \<Rightarrow> Inl (auth_error ''Session credential was revoked'')
           | Inr k \<Rightarrow>
               if ak_Revoked k \<or> (case ak_ExpiresAt k of None \<Rightarrow> False | Some e \<Rightarrow> \<not> now < e)
               then Inl (auth_error ''Session credential was revoked'')
               else Inr [case ak_WorkspaceID k of Some w \<Rightarrow> w | None \<Rightarrow> ''*'' \<mapsto> ak_RoleID k])
         else if meth = ''oidc''
         then Inr (map_of (ResolveClaimsToRoles (extractMappableClaims (bs_Claims s) (sv_groupClaims v)) db))
         else if meth = ''jwt''
         then (case GetActiveSigningKey db of
             Inl _ \<Rightarrow> Inl (auth_error ''Session signing credential was rotated'')
           | Inr key \<Rightarrow>
               if bs_CredentialID s \<noteq> [] \<and> sk_ID key \<noteq> bs_CredentialID s then Inl (auth_error ''Session signing credential was rotated'')
               else Inr (map_of (bs_Roles s)))
         else if meth = ''basic'' \<or> meth = ''password''
         then (case map_of (sv_basicHashes v) (bs_Subject s) of
             None \<Rightarrow> Inl (auth_error ''Session credential changed'')
           | Some h \<Rightarrow> if h = [] \<or> h \<noteq> bs_CredentialFingerprint s then Inl (auth_error ''Session credential changed'')
                       else Inr [''*'' \<mapsto> sv_DefaultRole v])
         else if meth = ''static_apikey''
         then if sv_staticHash v = [] \<or> sv_staticHash v \<noteq> bs_CredentialFingerprint s then Inl (auth_error ''Session credential changed'')
              else Inr [''*'' \<mapsto> sv_DefaultRole v]
         else Inl (auth_error (''Unsupported session authentication method '' @ go_quote meth)))"

definition auth_method_of :: "string \<Rightarrow> auth_method" where
  "auth_method_of s =
     (case find (\<lambda>m. auth_method_string m = s) [AuthMethodNone, AuthMethodAPIKey, AuthMethodBasic, AuthMethodJWT, AuthMethodOIDC, AuthMethodAnonymous] of
        Some m \<Rightarrow> m | None \<Rightarrow> AuthMethodNamed s)"

definition session_identity :: "string \<Rightarrow> (string \<rightharpoonup> string) \<Rightarrow> BrowserSession \<Rightarrow> Identity" where
  "session_identity tokenHash roles s =
     \<lparr>id_Subject = bs_Subject s, id_Email = bs_Email s, id_DisplayName = bs_DisplayName s, id_AuthMethod = auth_method_of (bs_AuthMethod s),
      id_Roles = roles, id_Claims = map_of (bs_Claims s), id_APIKeyID = (if bs_AuthMethod s = ''apikey'' then bs_CredentialID s else []),
      id_SessionID = bs_ID s, id_SessionExpiresAt = bs_ExpiresAt s, id_SessionIdleExpiresAt = bs_IdleExpiresAt s,
      id_SessionTokenHash = tokenHash, id_SessionPreviousToken = bs_TokenHash s \<noteq> tokenHash, id_SessionRotationUntil = bs_PreviousValidUntil s\<rparr>"

definition Session_ValidateRequest :: "(string \<Rightarrow> string) \<Rightarrow> xml_decoder \<Rightarrow> SessionValidator \<Rightarrow> instant \<Rightarrow> auth_db \<Rightarrow> auth_request \<Rightarrow> validation" where
  "Session_ValidateRequest sha256 xml v now db r =
     (case ar_SessionCookie r of
        None \<Rightarrow> Inr None
      | Some cookie \<Rightarrow>
          if trim_space cookie = [] then Inr None
          else let tokenHash = HashSessionToken sha256 cookie
               in case GetBrowserSessionByTokenHash tokenHash now db of
                    Inl _ \<Rightarrow> Inl (auth_error ''Invalid session'')
                  | Inr s \<Rightarrow>
                      if bs_RevokedAt s \<noteq> None \<or> \<not> now < bs_ExpiresAt s \<or> \<not> now < bs_IdleExpiresAt s
                      then Inl (auth_error ''Session expired'')
                      else if bs_TokenHash s \<noteq> tokenHash \<and> \<not> in_grace now s then Inl (auth_error ''Session expired'')
                      else if mutating_request xml r \<and> \<not> csrf_ok sha256 now s (ar_CSRFToken r)
                      then Inl \<lparr>ae_Message = ''CSRF validation failed'', ae_StatusCode = 403, ae_RetryAfter = 0\<rparr>
                      else bind_res (session_roles v now db s) (\<lambda>roles. Inr (Some (session_identity tokenHash roles s))))"

section \<open>The middleware\<close>

record auth_config =
  ac_StaticAPIKey :: string
  ac_BasicAuthUsers :: "(string, string) gomap"
  ac_DefaultRole :: string
  ac_AllowAPIKeyInQuery :: bool
  ac_OIDC :: "OIDCConfig option"
  ac_Session :: bool
  ac_RequireAuth :: bool

record auth_libs =
  al_tokens :: token_libs
  al_oidc :: oidc_libs
  al_xml :: xml_decoder

record auth_state =
  as_db :: auth_db
  as_limiter :: FailureLimiter
  as_oidc :: oidc_state

definition hasExplicitCredential :: "auth_request \<Rightarrow> bool \<Rightarrow> bool" where
  "hasExplicitCredential r allowQuery =
     (ar_Authorization r \<noteq> [] \<or> ar_XAPIKey r \<noteq> [] \<or> (allowQuery \<and> query_get ''apikey'' r \<noteq> []))"

definition isSessionExemptPath :: "string \<Rightarrow> bool" where
  "isSessionExemptPath path = (has_suffix path ''/auth/login'' \<or> has_suffix path ''/api/v1/console/config'')"

definition staleSessionMayReadAnonymously :: "xml_decoder \<Rightarrow> auth_request \<Rightarrow> bool" where
  "staleSessionMayReadAnonymously xml r =
     (let d = Protocol_Request.Get xml (http_request.truncate r); meth = rq_Method r
      in d_Service d \<noteq> [] \<and> (\<not> isUnsafeMethod meth \<or> (d_Service d = ''stac'' \<and> d_Name d = ''SEARCH'' \<and> meth = ''POST''))
         \<and> \<not> Mutating d meth)"

text \<open>The validators of explicit credentials, in the order in which they are asked.\<close>

datatype validator = VAPIKey | VStatic | VBasic | VJWT | VOIDC OIDCConfig

definition validators :: "auth_config \<Rightarrow> validator list" where
  "validators cfg =
     [VAPIKey] @ (if ac_StaticAPIKey cfg \<noteq> [] then [VStatic] else []) @ (if ac_BasicAuthUsers cfg \<noteq> [] then [VBasic] else [])
     @ [VJWT] @ (case ac_OIDC cfg of None \<Rightarrow> [] | Some oc \<Rightarrow> if oc_IssuerURL oc \<noteq> [] then [VOIDC oc] else [])"

fun validate :: "auth_libs \<Rightarrow> auth_config \<Rightarrow> bool \<Rightarrow> instant \<Rightarrow> auth_request \<Rightarrow> validator \<Rightarrow> auth_state \<Rightarrow> validation \<times> auth_state" where
  "validate A cfg discovered now r VAPIKey st =
     (APIKey_ValidateRequest (tl_sha256 (al_tokens A)) (ac_AllowAPIKeyInQuery cfg) now (as_db st) r, st)"
| "validate A cfg discovered now r VStatic st =
     (StaticAPIKey_ValidateRequest (ac_StaticAPIKey cfg) (ac_DefaultRole cfg) (ac_AllowAPIKeyInQuery cfg) r, st)"
| "validate A cfg discovered now r VBasic st =
     (case Basic_ValidateRequest (tl_sha256 (al_tokens A)) (ac_BasicAuthUsers cfg) (ac_DefaultRole cfg) now r (as_limiter st) of
        (res, l) \<Rightarrow> (res, st\<lparr>as_limiter := l\<rparr>))"
| "validate A cfg discovered now r VJWT st = (JWT_ValidateRequest (al_tokens A) now (as_db st) r, st)"
| "validate A cfg discovered now r (VOIDC oc) st =
     (case OIDC_ValidateRequest (al_oidc A) oc discovered now (as_db st) r (as_oidc st) of
        (res, os) \<Rightarrow> (res, st\<lparr>as_oidc := os\<rparr>))"

fun try_validators :: "(validator \<Rightarrow> auth_state \<Rightarrow> validation \<times> auth_state) \<Rightarrow> validator list \<Rightarrow> AuthError option \<Rightarrow> auth_state
    \<Rightarrow> (Identity option \<times> AuthError option) \<times> auth_state" where
  "try_validators run [] lastErr st = ((None, lastErr), st)"
| "try_validators run (v # vs) lastErr st =
     (case run v st of
        (Inl e, st') \<Rightarrow> try_validators run vs (Some e) st'
      | (Inr (Some idn), st') \<Rightarrow> ((Some idn, lastErr), st')
      | (Inr None, st') \<Rightarrow> try_validators run vs lastErr st')"

datatype auth_outcome = AuthNext "Identity option" | AuthFail string int "duration option"

definition auth_failure :: "AuthError option \<Rightarrow> auth_outcome" where
  "auth_failure lastErr =
     (case lastErr of
        None \<Rightarrow> AuthFail ''credentials were not accepted'' 401 None
      | Some e \<Rightarrow> AuthFail (ae_Message e) (if ae_StatusCode e = 0 then 401 else ae_StatusCode e)
                   (if ae_RetryAfter e > 0 then Some (ae_RetryAfter e div second + 1) else None))"

text \<open>The cookie is looked at only when no explicit credential was presented.\<close>

definition session_step :: "auth_libs \<Rightarrow> auth_config \<Rightarrow> instant \<Rightarrow> auth_request \<Rightarrow> auth_state \<Rightarrow> Identity option \<times> AuthError option" where
  "session_step A cfg now r st =
     (if ac_Session cfg \<and> \<not> hasExplicitCredential r (ac_AllowAPIKeyInQuery cfg) \<and> \<not> isSessionExemptPath (rq_Path r)
      then case Session_ValidateRequest (tl_sha256 (al_tokens A)) (al_xml A)
               (NewSessionValidator (tl_sha256 (al_tokens A)) (ac_DefaultRole cfg) (ac_StaticAPIKey cfg) (ac_BasicAuthUsers cfg) (ac_OIDC cfg))
               now (as_db st) r of
             Inr idn \<Rightarrow> (idn, None)
           | Inl e \<Rightarrow> if staleSessionMayReadAnonymously (al_xml A) r then (None, None) else (None, Some e)
      else (None, None))"

definition Middleware :: "auth_libs \<Rightarrow> auth_config \<Rightarrow> bool \<Rightarrow> instant \<Rightarrow> auth_request \<Rightarrow> auth_state \<Rightarrow> auth_outcome \<times> auth_state" where
  "Middleware A cfg discovered now r st =
     (let ((idn, lastErr), st') = try_validators (validate A cfg discovered now r) (validators cfg) None st;
          (idn, lastErr) = (if idn = None \<and> lastErr = None then session_step A cfg now r st' else (idn, lastErr))
      in if idn = None \<and> (lastErr \<noteq> None \<or> hasExplicitCredential r (ac_AllowAPIKeyInQuery cfg)) then (auth_failure lastErr, st')
         else if ac_RequireAuth cfg \<and> idn = None then (AuthFail ''authentication required'' 401 None, st')
         else (AuthNext idn, st'))"

text \<open>The responses of the middleware may be kept by shared caches unless it set \<^verbatim>\<open>private, no-store\<close>.\<close>

definition marked_private :: "auth_config \<Rightarrow> auth_request \<Rightarrow> auth_outcome \<Rightarrow> bool" where
  "marked_private cfg r res =
     (hasExplicitCredential r (ac_AllowAPIKeyInQuery cfg) \<or> ar_Cookie r \<noteq> []
      \<or> (case res of AuthNext (Some _) \<Rightarrow> True | _ \<Rightarrow> False))"

section \<open>Role checks on a route\<close>

definition RequireIdentity :: "web_request \<Rightarrow> outcome" where
  "RequireIdentity r = (case wr_identity r of None \<Rightarrow> HTTPError ''authentication required'' 401 | Some _ \<Rightarrow> Next r)"

definition RequireRole :: "string \<Rightarrow> string \<Rightarrow> web_request \<Rightarrow> outcome" where
  "RequireRole workspaceID role r =
     (case wr_identity r of
        None \<Rightarrow> HTTPError ''authentication required'' 401
      | Some _ \<Rightarrow> if HasRole (wr_identity r) workspaceID role then Next r else HTTPError ''forbidden'' 403)"

definition identity_RequireSuperAdmin :: "web_request \<Rightarrow> outcome" where
  "identity_RequireSuperAdmin r =
     (case wr_identity r of
        None \<Rightarrow> HTTPError ''authentication required'' 401
      | Some _ \<Rightarrow> if IsSuperAdmin (wr_identity r) then Next r else HTTPError ''forbidden: super admin required'' 403)"

definition RequireWorkspaceAccess :: "string \<Rightarrow> web_request \<Rightarrow> outcome" where
  "RequireWorkspaceAccess param r =
     (case wr_identity r of
        None \<Rightarrow> HTTPError ''authentication required'' 401
      | Some _ \<Rightarrow>
          if IsSuperAdmin (wr_identity r) then Next r
          else if wr_params r param = [] then HTTPError ''workspace not specified'' 400
          else if HasWorkspaceAccess (wr_identity r) (wr_params r param) then Next r
          else HTTPError ''forbidden: no access to workspace'' 403)"

end
