(* ===== verification/Auth_Console.thy ===== *)
theory Auth_Console
  imports Auth_Validators
begin

text \<open>
  The sign-in endpoints of the management console (\<^verbatim>\<open>mgmt/auth.go\<close>): login with its rate limit and its three
  methods, refresh, logout and the revocation by an administrator. Requests are decoded
  already; a body that does not decode is \<open>None\<close>. Responses are status and message, or the session with the two
  secrets that go into the cookies. Random bytes, identifiers and the clock are arguments.
\<close>

record loginRequest =
  lr_Method :: string
  lr_APIKey :: string
  lr_Username :: string
  lr_Password :: string
  lr_Token :: string
  lr_OIDCToken :: string
  lr_IDToken :: string

record console_config =
  cc_AuthEnabled :: bool
  cc_AuthMethod :: string
  cc_Users :: "(string, string) gomap"
  cc_ApiKey :: string
  cc_DefaultRole :: string
  cc_BrowserLoginEnabled :: bool
  cc_ClientID :: string
  cc_OIDC :: OIDCConfig
  cc_TTLSec :: int
  cc_IdleTimeoutSec :: int

definition normalize :: "loginRequest \<Rightarrow> loginRequest" where
  "normalize rq =
     (if lr_Method rq \<noteq> [] then rq
      else if lr_Username rq \<noteq> [] \<or> lr_Password rq \<noteq> [] then rq\<lparr>lr_Method := ''password''\<rparr>
      else if lr_OIDCToken rq \<noteq> [] then rq\<lparr>lr_Method := ''oidc'', lr_IDToken := lr_OIDCToken rq\<rparr>
      else rq\<lparr>lr_Method := ''token'', lr_Token := if lr_Token rq = [] then lr_APIKey rq else lr_Token rq\<rparr>)"

definition login_refused :: "console_config \<Rightarrow> string \<Rightarrow> (int \<times> string) option" where
  "login_refused cfg meth =
     (if meth = ''password''
      then if \<not> cc_AuthEnabled cfg \<or> cc_AuthMethod cfg \<noteq> ''basic'' \<or> cc_Users cfg = [] then Some (403, ''This sign-in method is disabled'') else None
      else if meth = ''oidc''
      then if \<not> cc_BrowserLoginEnabled cfg \<or> oc_IssuerURL (cc_OIDC cfg) = [] \<or> cc_ClientID cfg = [] then Some (403, ''This sign-in method is disabled'') else None
      else if meth = ''token'' then None else Some (400, ''Bad Request''))"

text \<open>\<^verbatim>\<open>SetBasicAuth\<close> followed by \<^verbatim>\<open>BasicAuth\<close>: a colon in the user name ends it.\<close>

definition basic_pair :: "string \<Rightarrow> string \<Rightarrow> string \<times> string" where
  "basic_pair username password =
     (let cs = username @ '':'' @ password
      in (takeWhile (\<lambda>c. c \<noteq> CHR '':'') cs, tl (dropWhile (\<lambda>c. c \<noteq> CHR '':'') cs)))"

definition key_header_request :: "string \<Rightarrow> auth_request" where
  "key_header_request tok =
     \<lparr>rq_Method = ''GET'', rq_Path = [], rq_Query = [], rq_Body = NoBody, rq_Descriptor = None, ar_XAPIKey = tok, ar_Authorization = [],
      ar_Cookie = [], ar_SessionCookie = None, ar_CSRFToken = [], ar_RemoteAddr = []\<rparr>"

definition authenticateLogin :: "auth_libs \<Rightarrow> console_config \<Rightarrow> bool \<Rightarrow> instant \<Rightarrow> auth_db \<Rightarrow> loginRequest \<Rightarrow> validation \<times> string \<times> string" where
  "authenticateLogin A cfg discovered now db rq =
     (let sha = tl_sha256 (al_tokens A);
          static = StaticAPIKey_ValidateRequest (cc_ApiKey cfg) (cc_DefaultRole cfg) False (key_header_request (lr_Token rq))
      in if lr_Method rq = ''password''
         then case basic_pair (lr_Username rq) (lr_Password rq) of (u, p) \<Rightarrow>
                (fst (check_password sha (cc_Users cfg) (cc_DefaultRole cfg) now [] u p NewFailureLimiter), ''password'',
                 CredentialFingerprint sha (lr_Username rq) (lr_Password rq))
         else if lr_Method rq = ''token''
         then if has_prefix (lr_Token rq) ''nsk_'' then (APIKey_Validate sha now db (lr_Token rq), ''apikey'', [])
              else if cc_AuthEnabled cfg \<and> cc_AuthMethod cfg = ''apikey'' \<and> cc_ApiKey cfg \<noteq> [] \<and> static \<noteq> Inr None
              then (static, ''static_apikey'', CredentialFingerprint sha ''static'' (lr_Token rq))
              else if lr_Token rq = [] then (Inl (auth_error ''credential is required''), [], [])
              else (JWT_Validate (al_tokens A) now db (lr_Token rq), ''jwt'', [])
         else if lr_IDToken rq = [] then (Inl (auth_error ''id_token is required''), [], [])
         else if \<not> discovered then (Inl (auth_error ''OIDC provider discovery failed''), [], [])
         else (OIDC_validateToken (al_oidc A) (cc_OIDC cfg) db False (lr_IDToken rq), ''oidc'', []))"

text \<open>The expiry a token claims; \<open>num\<close> reads the number.\<close>

definition claimExpiration :: "(string \<Rightarrow> int option) \<Rightarrow> (string \<rightharpoonup> json) \<Rightarrow> instant" where
  "claimExpiration num claims =
     (case claims ''exp'' of
        Some (JNumber n) \<Rightarrow> (case num n of Some v \<Rightarrow> v * second | None \<Rightarrow> zero_time)
      | _ \<Rightarrow> zero_time)"

definition session_expiry :: "(string \<Rightarrow> int option) \<Rightarrow> console_config \<Rightarrow> instant \<Rightarrow> Identity \<Rightarrow> instant" where
  "session_expiry num cfg now idn =
     (let expiresAt = now + cc_TTLSec cfg * second; claimed = claimExpiration num (id_Claims idn)
      in if claimed \<noteq> zero_time \<and> claimed < expiresAt then claimed else expiresAt)"

text \<open>A Go map as a list of its pairs: the roles and claims a session stores.\<close>

record login_secrets =
  ls_uuid :: string
  ls_token :: string
  ls_csrf :: string

record login_context =
  lc_remoteAddr :: string
  lc_userAgent :: string
  lc_now :: instant
  lc_discovered :: bool
  lc_roles :: "(string \<rightharpoonup> string) \<Rightarrow> (string, string) gomap"
  lc_claims :: "(string \<rightharpoonup> json) \<Rightarrow> (string, json) gomap"
  lc_num :: "string \<Rightarrow> int option"

definition new_session :: "auth_libs \<Rightarrow> console_config \<Rightarrow> login_context \<Rightarrow> login_secrets \<Rightarrow> auth_db \<Rightarrow> Identity \<Rightarrow> string \<Rightarrow> string \<Rightarrow> BrowserSession" where
  "new_session A cfg c sec db idn kind fingerprint =
     (let sha = tl_sha256 (al_tokens A); now = lc_now c;
          expiresAt = session_expiry (lc_num c) cfg now idn;
          credentialID = (if kind = ''jwt'' then (case GetActiveSigningKey db of Inr key \<Rightarrow> sk_ID key | Inl _ \<Rightarrow> id_APIKeyID idn) else id_APIKeyID idn)
      in \<lparr>bs_PreviousTokenHash = [], bs_PreviousCSRFHash = [], bs_PreviousValidUntil = None, bs_ID = [],
          bs_TokenHash = HashSessionToken sha (EncodeToString (ls_token sec)), bs_CSRFHash = HashSessionToken sha (EncodeToString (ls_csrf sec)),
          bs_Subject = id_Subject idn, bs_Email = id_Email idn, bs_DisplayName = id_DisplayName idn, bs_AuthMethod = kind,
          bs_GlobalRole = role_at (id_Roles idn) ''*'', bs_Roles = lc_roles c (id_Roles idn), bs_Claims = lc_claims c (id_Claims idn),
          bs_CredentialID = credentialID, bs_CredentialFingerprint = fingerprint, bs_RemoteAddr = ClientAddress (lc_remoteAddr c),
          bs_UserAgent = lc_userAgent c, bs_CreatedAt = now, bs_LastSeenAt = now,
          bs_IdleExpiresAt = min (now + cc_IdleTimeoutSec cfg * second) expiresAt, bs_ExpiresAt = expiresAt, bs_RevokedAt = None\<rparr>)"

datatype console_response = Refused int string "duration option" | Opened BrowserSession string string | Done int

definition retry_after :: "duration \<Rightarrow> duration option" where
  "retry_after wait = (if wait > 0 then Some (wait div second + 1) else None)"

definition login_principal :: "loginRequest \<Rightarrow> string" where
  "login_principal rq =
     (if lr_Username rq \<noteq> [] then lr_Username rq else if lr_APIKey rq \<noteq> [] then lr_APIKey rq
      else lr_Token rq @ lr_OIDCToken rq @ lr_IDToken rq)"

definition login :: "auth_libs \<Rightarrow> console_config \<Rightarrow> login_context \<Rightarrow> login_secrets \<Rightarrow> loginRequest option \<Rightarrow> auth_state \<Rightarrow> console_response \<times> auth_state" where
  "login A cfg c sec body st =
     (case body of
        None \<Rightarrow> (Refused 400 ''Bad Request'' None, st)
      | Some raw \<Rightarrow>
          let rq = normalize raw; now = lc_now c
          in case login_refused cfg (lr_Method rq) of
               Some (code, msg) \<Rightarrow> (Refused code msg None, st)
             | None \<Rightarrow>
                 let keys = CredentialRateKeys (HashSessionToken (tl_sha256 (al_tokens A))) (lc_remoteAddr c) (login_principal rq);
                     (l1, wait) = Wait (as_limiter st) keys now
                 in if wait > 0 then (Refused 429 ''Too Many Requests'' (retry_after wait), st\<lparr>as_limiter := l1\<rparr>)
                    else (case authenticateLogin A cfg (lc_discovered c) now (as_db st) rq of
                        (Inr (Some idn), kind, fingerprint) \<Rightarrow>
                          let st2 = st\<lparr>as_limiter := Succeed l1 keys\<rparr>
                          in (case CreateBrowserSession (ls_uuid sec) now (new_session A cfg c sec (as_db st) idn kind fingerprint) (as_db st) of
                                Inl _ \<Rightarrow> (Refused 500 ''Internal Error'' None, st2)
                              | Inr (s, db) \<Rightarrow> (Opened s (EncodeToString (ls_token sec)) (EncodeToString (ls_csrf sec)), st2\<lparr>as_db := db\<rparr>))
                      | _ \<Rightarrow> (case Fail l1 keys now of (l2, retry) \<Rightarrow>
                              (Refused 401 ''Authentication failed'' (retry_after retry), st\<lparr>as_limiter := l2\<rparr>))))"

definition logout :: "instant \<Rightarrow> Identity \<Rightarrow> auth_db \<Rightarrow> console_response \<times> auth_db" where
  "logout now idn db =
     (if id_SessionID idn = [] then (Done 204, db)
      else case RevokeBrowserSession (id_SessionID idn) now db of
             (Some _, db') \<Rightarrow> (Refused 503 ''Sign-out failed'' None, db')
           | (None, db') \<Rightarrow> (Done 204, db'))"

definition refreshSession :: "(string \<Rightarrow> string) \<Rightarrow> console_config \<Rightarrow> instant \<Rightarrow> login_secrets \<Rightarrow> Identity \<Rightarrow> auth_db \<Rightarrow> console_response \<times> auth_db" where
  "refreshSession sha256 cfg now sec idn db =
     (if id_SessionID idn = [] then (Refused 400 ''Session required'' None, db)
      else if id_SessionPreviousToken idn then (Refused 409 ''Session refreshed'' None, db)
      else if (case id_SessionRotationUntil idn of None \<Rightarrow> False | Some u \<Rightarrow> now < u) then (Done 200, db)
      else let idle = min (now + cc_IdleTimeoutSec cfg * second) (id_SessionExpiresAt idn)
           in case RotateBrowserSession (id_SessionID idn) (id_SessionTokenHash idn) (HashSessionToken sha256 (EncodeToString (ls_token sec)))
                    (HashSessionToken sha256 (EncodeToString (ls_csrf sec))) now idle db of
                (Some ErrSessionRotated, db') \<Rightarrow> (Refused 409 ''Session refreshed'' None, db')
              | (Some _, db') \<Rightarrow> (Refused 503 ''Session refresh failed'' None, db')
              | (None, db') \<Rightarrow> (Done 200, db'))"

definition revokeSession :: "instant \<Rightarrow> string \<Rightarrow> auth_db \<Rightarrow> console_response \<times> auth_db" where
  "revokeSession now sid db =
     (case RevokeBrowserSession sid now db of (Some _, db') \<Rightarrow> (Refused 404 ''Not Found'' None, db') | (None, db') \<Rightarrow> (Done 204, db'))"

end
