(* ===== verification/Auth_Properties.thy ===== *)
theory Auth_Properties
  imports Auth_Console
begin

text \<open>
  Properties of authentication: explicit credentials decide, sessions are as good as the credential behind them,
  revocation and rotation hold through every later operation on the store, deleted roles are gone for
  good, and tokens carry no more than was signed. Operations on the store are collected in one type,
  so that what one operation keeps holds after any number of them.
\<close>

section \<open>Operations on the store\<close>

datatype db_op =
  DbCreateRole string string string instant | DbDeleteRole instant string
| DbCreateKey string string instant CreateAPIKeyInput | DbRevokeKey string | DbDeleteKey string
| DbCreateMapping string instant ClaimRoleMapping | DbDeleteMapping string
| DbRotateSigning bool string "string \<times> string" instant
| DbCreateSession string instant BrowserSession | DbTouch string instant instant
| DbRotate string string string string instant instant | DbRevoke string instant | DbDeleteExpired instant

definition keep_on_error :: "'e + 'a \<times> auth_db \<Rightarrow> auth_db \<Rightarrow> auth_db" where
  "keep_on_error r db = (case r of Inl _ \<Rightarrow> db | Inr (_, db') \<Rightarrow> db')"

fun db_exec :: "(string \<Rightarrow> string) \<Rightarrow> db_op \<Rightarrow> auth_db \<Rightarrow> auth_db" where
  "db_exec H (DbCreateRole rid name descr now) db = keep_on_error (CreateRole rid name descr now db) db"
| "db_exec H (DbDeleteRole now rid) db = snd (store_DeleteRole now rid db)"
| "db_exec H (DbCreateKey keyBytes uuid now input) db =
     (case CreateAPIKey H keyBytes uuid now input db of Inl _ \<Rightarrow> db | Inr (_, _, db') \<Rightarrow> db')"
| "db_exec H (DbRevokeKey kid) db = snd (RevokeAPIKey kid db)"
| "db_exec H (DbDeleteKey kid) db = snd (DeleteAPIKey kid db)"
| "db_exec H (DbCreateMapping uuid now m) db = keep_on_error (CreateClaimMapping uuid now m db) db"
| "db_exec H (DbDeleteMapping mid) db = snd (DeleteClaimMapping mid db)"
| "db_exec H (DbRotateSigning ok uuid kp now) db = snd (RotateSigningKey ok uuid kp now db)"
| "db_exec H (DbCreateSession uuid now s) db = keep_on_error (CreateBrowserSession uuid now s db) db"
| "db_exec H (DbTouch sid seen idle) db = snd (TouchBrowserSession sid seen idle db)"
| "db_exec H (DbRotate sid expected tokenHash csrfHash seen idle) db = snd (RotateBrowserSession sid expected tokenHash csrfHash seen idle db)"
| "db_exec H (DbRevoke sid t) db = snd (RevokeBrowserSession sid t db)"
| "db_exec H (DbDeleteExpired now) db = snd (DeleteExpiredBrowserSessions now db)"

text \<open>What one operation does to the sessions: nothing but dropping, updating or adding rows.\<close>

fun creates_session :: "(string \<Rightarrow> string \<Rightarrow> bool) \<Rightarrow> db_op \<Rightarrow> bool" where
  "creates_session P (DbCreateSession uuid now s) = P (bs_ID (session_row uuid now s)) (bs_TokenHash s)"
| "creates_session P oper = False"

fun rotates_to :: "string \<Rightarrow> db_op \<Rightarrow> bool" where
  "rotates_to h (DbRotate sid expected tokenHash csrfHash seen idle) = (tokenHash = h)"
| "rotates_to h oper = False"

lemma session_row_simps [simp]:
  "bs_TokenHash (session_row uuid now s) = bs_TokenHash s"
  "bs_PreviousTokenHash (session_row uuid now s) = []" "bs_PreviousValidUntil (session_row uuid now s) = None"
  by (simp_all add: session_row_def Let_def)

lemma rotated_simps [simp]:
  "bs_ID (rotated h c seen idle s) = bs_ID s" "bs_TokenHash (rotated h c seen idle s) = h"
  "bs_PreviousTokenHash (rotated h c seen idle s) = bs_TokenHash s"
  "bs_PreviousValidUntil (rotated h c seen idle s) = Some (seen + SessionRotationGrace)"
  "bs_RevokedAt (rotated h c seen idle s) = bs_RevokedAt s"
  by (simp_all add: rotated_def)

lemma update_sessions_set:
  "set (db_sessions (snd (update_sessions cond upd err db))) = (\<lambda>s. if cond s then upd s else s) ` set (db_sessions db)"
  by (force simp: update_sessions_def)

lemma db_sessions_exec:
  assumes "s' \<in> set (db_sessions (db_exec H oper db))"
  shows "s' \<in> set (db_sessions db)
    \<or> (\<exists>uuid now s. oper = DbCreateSession uuid now s \<and> s' = session_row uuid now s)
    \<or> (\<exists>s \<in> set (db_sessions db). (\<exists>sid seen idle. oper = DbTouch sid seen idle \<and> s' = s\<lparr>bs_LastSeenAt := seen, bs_IdleExpiresAt := idle\<rparr>)
         \<or> (\<exists>sid expected h c seen idle. oper = DbRotate sid expected h c seen idle \<and> rotatable sid expected seen s \<and> s' = rotated h c seen idle s)
         \<or> (\<exists>sid t. oper = DbRevoke sid t \<and> s' = s\<lparr>bs_RevokedAt := Some t\<rparr>))"
  using assms
proof (cases oper)
  case (DbRotate sid expected h c seen idle)
  with assms show ?thesis
    by (auto simp: RotateBrowserSession_def update_sessions_set split: if_splits)
qed (auto simp: keep_on_error_def CreateRole_def store_DeleteRole_def CreateAPIKey_def RevokeAPIKey_def DeleteAPIKey_def CreateClaimMapping_def
    DeleteClaimMapping_def RotateSigningKey_def CreateBrowserSession_def TouchBrowserSession_def RevokeBrowserSession_def
    DeleteExpiredBrowserSessions_def update_sessions_set Let_def split: if_splits option.splits sum.splits)

section \<open>Revocation\<close>

definition session_dead :: "string \<Rightarrow> auth_db \<Rightarrow> bool" where
  "session_dead sid db = (\<forall>s \<in> set (db_sessions db). bs_ID s = sid \<longrightarrow> bs_RevokedAt s \<noteq> None)"

definition not_reissued :: "string \<Rightarrow> db_op \<Rightarrow> bool" where
  "not_reissued sid oper = (\<not> creates_session (\<lambda>i _. i = sid) oper)"

interpretation dead_session: guarded_invariant "db_exec H" "not_reissued sid" "session_dead sid" for H sid
proof
  fix oper db assume a: "not_reissued sid oper" "session_dead sid db"
  show "session_dead sid (db_exec H oper db)"
    unfolding session_dead_def
  proof (intro ballI impI)
    fix s assume "s \<in> set (db_sessions (db_exec H oper db))" "bs_ID s = sid"
    with a show "bs_RevokedAt s \<noteq> None"
      by (auto simp: session_dead_def not_reissued_def dest!: db_sessions_exec)
  qed
qed

lemma revoke_kills:
  assumes "RevokeBrowserSession sid t db = (None, db')"
  shows "session_dead sid db'"
  using assms by (auto simp: RevokeBrowserSession_def update_sessions_def session_dead_def split: if_splits)

section \<open>What a valid session shows\<close>

lemma session_found:
  assumes "GetBrowserSessionByTokenHash h now db = Inr s"
  shows "s \<in> set (db_sessions db)" "token_row h now s"
  using assms by (auto simp: GetBrowserSessionByTokenHash_def split: option.splits dest!: find_SomeD)

lemma Session_accepts:
  assumes "Session_ValidateRequest H xml v now db r = Inr (Some idn)"
  obtains cookie s roles where "ar_SessionCookie r = Some cookie" "s \<in> set (db_sessions db)" "session_live now s"
    "token_row (HashSessionToken H cookie) now s" "mutating_request xml r \<Longrightarrow> csrf_ok H now s (ar_CSRFToken r)"
    "session_roles v now db s = Inr roles" "idn = session_identity (HashSessionToken H cookie) roles s"
proof -
  from assms obtain cookie s roles where a: "ar_SessionCookie r = Some cookie" "GetBrowserSessionByTokenHash (HashSessionToken H cookie) now db = Inr s"
    "bs_RevokedAt s = None" "now < bs_ExpiresAt s" "now < bs_IdleExpiresAt s" "mutating_request xml r \<longrightarrow> csrf_ok H now s (ar_CSRFToken r)"
    "session_roles v now db s = Inr roles" "idn = session_identity (HashSessionToken H cookie) roles s"
    by (auto simp: Session_ValidateRequest_def Let_def bind_res_eq_Inr split: option.splits if_splits sum.splits)
  with session_found [OF a(2)] that show thesis by (simp add: session_live_def)
qed

text \<open>The credential a session was opened with is still good.\<close>

definition credential_stands :: "SessionValidator \<Rightarrow> instant \<Rightarrow> auth_db \<Rightarrow> BrowserSession \<Rightarrow> bool" where
  "credential_stands v now db s =
     (let meth = bs_AuthMethod s
      in meth \<in> {''apikey'', ''oidc'', ''jwt'', ''basic'', ''password'', ''static_apikey''}
         \<and> (meth = ''apikey'' \<longrightarrow> (\<exists>k \<in> set (db_keys db). ak_ID k = bs_CredentialID s \<and> key_usable now k \<and> ak_RoleID k \<in> ro_ID ` set (db_roles db)))
         \<and> (meth = ''jwt'' \<longrightarrow> (\<exists>k \<in> set (db_signing db). sk_IsActive k \<and> bs_CredentialID s \<in> {[], sk_ID k}))
         \<and> (meth \<in> {''basic'', ''password''} \<longrightarrow> map_of (sv_basicHashes v) (bs_Subject s) = Some (bs_CredentialFingerprint s))
         \<and> (meth = ''static_apikey'' \<longrightarrow> sv_staticHash v = bs_CredentialFingerprint s \<and> sv_staticHash v \<noteq> []))"

lemma getAPIKey_Inr:
  assumes "getAPIKey P now db = Inr k"
  shows "k \<in> set (db_keys db)" "P k" "\<not> ak_Revoked k" "ak_RoleID k \<in> ro_ID ` set (db_roles db)"
  using assms by (auto simp: getAPIKey_def split: option.splits if_splits dest!: find_SomeD)

lemma GetActiveSigningKey_Inr:
  assumes "GetActiveSigningKey db = Inr k"
  shows "k \<in> set (db_signing db)" "sk_IsActive k"
proof -
  obtain ks where s: "sort_key (\<lambda>k. - sk_CreatedAt k) (filter sk_IsActive (db_signing db)) = k # ks"
    using assms by (auto simp: GetActiveSigningKey_def split: list.splits)
  have "k \<in> set (filter sk_IsActive (db_signing db))"
    using arg_cong [OF s, of set] by (simp only: set_sort) auto
  then show "k \<in> set (db_signing db)" "sk_IsActive k" by auto
qed

lemma session_roles_stand:
  assumes "session_roles v now db s = Inr roles"
  shows "credential_stands v now db s"
proof (cases "bs_AuthMethod s = ''apikey''")
  case True
  with assms obtain k where "getAPIKey (\<lambda>k. ak_ID k = bs_CredentialID s) now db = Inr k"
    "\<not> (case ak_ExpiresAt k of None \<Rightarrow> False | Some e \<Rightarrow> \<not> now < e)"
    by (auto simp: session_roles_def GetAPIKeyByID_def split: sum.splits if_splits)
  with getAPIKey_Inr [OF this(1)] True show ?thesis
    by (auto simp: credential_stands_def key_usable_def split: option.splits)
next
  case False
  with assms show ?thesis
    by (auto simp: session_roles_def credential_stands_def Let_def split: sum.splits option.splits if_splits
        intro: GetActiveSigningKey_Inr bexI [OF _ GetActiveSigningKey_Inr(1)])
qed

section \<open>Properties\<close>

text \<open>
  C5. A session is worth what its credential is worth now. When the session validator accepts a request, the
  cookie's hash is the current token of a stored session, or the last one within its grace period; the
  session is neither revoked nor expired nor idle too long; a request that may change something
  carries the session's CSRF value; and the credential behind it still stands: the API key is
  unrevoked, unexpired and has an existing role, the signing key is still active, or the configured
  secret is unchanged.
\<close>

theorem session_identity_live:
  assumes "Session_ValidateRequest H xml v now db r = Inr (Some idn)"
  shows "\<exists>cookie s. ar_SessionCookie r = Some cookie \<and> s \<in> set (db_sessions db) \<and> id_SessionID idn = bs_ID s \<and> session_live now s
    \<and> token_row (HashSessionToken H cookie) now s \<and> (mutating_request xml r \<longrightarrow> csrf_ok H now s (ar_CSRFToken r))
    \<and> credential_stands v now db s"
proof -
  from Session_accepts [OF assms] obtain cookie s roles where c: "ar_SessionCookie r = Some cookie" "s \<in> set (db_sessions db)" "session_live now s"
    "token_row (HashSessionToken H cookie) now s" "mutating_request xml r \<Longrightarrow> csrf_ok H now s (ar_CSRFToken r)"
    "session_roles v now db s = Inr roles" "idn = session_identity (HashSessionToken H cookie) roles s" by metis
  have "credential_stands v now db s" by (rule session_roles_stand [OF c(6)])
  moreover have "id_SessionID idn = bs_ID s" by (simp add: c(7) session_identity_def)
  ultimately show ?thesis using c(1-5) by blast
qed

text \<open>
  C6. A revoked session stays out: after its revocation, whatever operations run on the store, as long as its
  identifier is not given to a new session, no request is accepted as that session at any time.
\<close>

theorem revoked_session_stays_out:
  assumes "RevokeBrowserSession sid t db = (None, db')" "\<forall>oper \<in> set opers. not_reissued sid oper"
    and "Session_ValidateRequest H xml v now (fold (db_exec H) opers db') r = Inr (Some idn)"
  shows "id_SessionID idn \<noteq> sid"
proof -
  have "session_dead sid (fold (db_exec H) opers db')"
    by (rule dead_session.guarded_run_inv [OF assms(2) revoke_kills [OF assms(1)]])
  then show ?thesis using Session_accepts [OF assms(3)]
    by (metis (no_types, lifting) session_dead_def session_live_def session_identity_def Identity.select_convs(8))
qed

definition sample_hash :: "string \<Rightarrow> string" where "sample_hash x = rev x"

definition sample_role :: Role where
  "sample_role = \<lparr>ro_ID = ''editor'', ro_Name = ''Editor'', ro_Description = [], ro_IsSystem = False, ro_CreatedAt = 0\<rparr>"

definition sample_key :: APIKey where
  "sample_key = \<lparr>ak_ID = ''k'', ak_KeyHash = hash_hex sample_hash ''nsk_1'', ak_KeyPrefix = ''nsk_1'', ak_OwnerName = ''ann'', ak_OwnerEmail = [],
     ak_WorkspaceID = Some ''ws'', ak_RoleID = ''editor'', ak_Name = [], ak_ExpiresAt = None, ak_Revoked = False, ak_CreatedAt = 0\<rparr>"

definition sample_session :: BrowserSession where
  "sample_session = \<lparr>bs_PreviousTokenHash = [], bs_PreviousCSRFHash = [], bs_PreviousValidUntil = None, bs_ID = ''s'',
     bs_TokenHash = HashSessionToken sample_hash ''tok'', bs_CSRFHash = HashSessionToken sample_hash ''csrf'', bs_Subject = ''ann'', bs_Email = [],
     bs_DisplayName = [], bs_AuthMethod = ''apikey'', bs_GlobalRole = [], bs_Roles = [(''ws'', ''editor'')], bs_Claims = [], bs_CredentialID = ''k'',
     bs_CredentialFingerprint = [], bs_RemoteAddr = [], bs_UserAgent = [], bs_CreatedAt = 0, bs_LastSeenAt = 0, bs_IdleExpiresAt = 100 * second,
     bs_ExpiresAt = 1000 * second, bs_RevokedAt = None\<rparr>"

definition sample_db :: auth_db where
  "sample_db = \<lparr>db_roles = [sample_role], db_retired = [], db_keys = [sample_key], db_mappings = [], db_signing = [],
     db_sessions = [sample_session, sample_session\<lparr>bs_ID := ''t'', bs_TokenHash := HashSessionToken sample_hash ''other''\<rparr>],
     db_policies = [], db_restricted = []\<rparr>"

definition sample_validator :: SessionValidator where
  "sample_validator = NewSessionValidator sample_hash [] [] [] None"

definition sample_post :: auth_request where
  "sample_post = (key_header_request [])\<lparr>rq_Method := ''POST'', ar_SessionCookie := Some ''tok'', ar_CSRFToken := ''csrf''\<rparr>"

definition with_cookie :: "string \<Rightarrow> auth_request" where
  "with_cookie c = sample_post\<lparr>ar_SessionCookie := Some c\<rparr>"

lemma sample_accepted:
  "Session_ValidateRequest sample_hash (\<lambda>_. []) sample_validator 5 sample_db sample_post =
     Inr (Some (session_identity (bs_TokenHash sample_session) [''ws'' \<mapsto> ''editor''] sample_session))"
  by (simp add: Session_ValidateRequest_def sample_post_def key_header_request_def GetBrowserSessionByTokenHash_def sample_db_def token_row_def
      sample_session_def mutating_request_def isUnsafeMethod_def csrf_ok_def session_roles_def GetAPIKeyByID_def getAPIKey_def sample_key_def
      sample_role_def trim_space_def is_ascii_space_def char_between_def code_of_def Let_def)

theorem session_identity_live_witness:
  "credential_stands sample_validator 5 sample_db sample_session"
proof -
  obtain s where "s \<in> set (db_sessions sample_db)" "bs_ID s = ''s''" "credential_stands sample_validator 5 sample_db s"
    using session_identity_live [OF sample_accepted] by (auto simp: session_identity_def sample_session_def)
  then show ?thesis by (auto simp: sample_db_def)
qed

definition revoked_db :: auth_db where
  "revoked_db = snd (RevokeBrowserSession ''s'' 3 sample_db)"

lemma revoked_db_eq: "revoked_db = sample_db\<lparr>db_sessions := [sample_session\<lparr>bs_RevokedAt := Some 3\<rparr>, db_sessions sample_db ! 1]\<rparr>"
  by (simp add: revoked_db_def RevokeBrowserSession_def update_sessions_def sample_db_def sample_session_def)

lemma other_accepted:
  "\<exists>idn. Session_ValidateRequest sample_hash (\<lambda>_. []) sample_validator 5 revoked_db (with_cookie ''other'') = Inr (Some idn) \<and> id_SessionID idn = ''t''"
  by (simp add: revoked_db_eq Session_ValidateRequest_def with_cookie_def sample_post_def key_header_request_def GetBrowserSessionByTokenHash_def
      sample_db_def token_row_def sample_session_def mutating_request_def isUnsafeMethod_def csrf_ok_def session_roles_def GetAPIKeyByID_def
      getAPIKey_def sample_key_def sample_role_def trim_space_def is_ascii_space_def char_between_def code_of_def Let_def session_identity_def
      HashSessionToken_def sample_hash_def hex_encode_def hex_digit_def)

theorem revoked_session_stays_out_witness: "''t'' \<noteq> ''s'' \<and> (\<exists>db'. RevokeBrowserSession ''s'' 3 sample_db = (None, db'))"
proof -
  have r: "RevokeBrowserSession ''s'' 3 sample_db = (None, revoked_db)"
    by (simp add: revoked_db_def RevokeBrowserSession_def update_sessions_def sample_db_def sample_session_def)
  obtain idn where i: "Session_ValidateRequest sample_hash (\<lambda>_. []) sample_validator 5 revoked_db (with_cookie ''other'') = Inr (Some idn)" "id_SessionID idn = ''t''"
    using other_accepted by blast
  have "id_SessionID idn \<noteq> ''s''"
    by (rule revoked_session_stays_out [OF r, where opers = "[]" and H = sample_hash]) (use i in simp_all)
  with i r show ?thesis by simp
qed

section \<open>Rotation\<close>

text \<open>A token hash that is no session's current token and counts as a previous one up to a limit only.\<close>

definition token_retired :: "string \<Rightarrow> instant \<Rightarrow> auth_db \<Rightarrow> bool" where
  "token_retired h limit db =
     (\<forall>s \<in> set (db_sessions db). bs_TokenHash s \<noteq> h
        \<and> (bs_PreviousTokenHash s = h \<longrightarrow> (\<forall>u. bs_PreviousValidUntil s = Some u \<longrightarrow> u \<le> limit)))"

definition not_reused :: "string \<Rightarrow> db_op \<Rightarrow> bool" where
  "not_reused h oper = (\<not> creates_session (\<lambda>_ t. t = h) oper \<and> \<not> rotates_to h oper)"

interpretation retired_token: guarded_invariant "db_exec H" "not_reused h" "token_retired h limit" for H h limit
proof
  fix oper db assume a: "not_reused h oper" "token_retired h limit db"
  have "bs_TokenHash s \<noteq> h \<and> (bs_PreviousTokenHash s = h \<longrightarrow> (\<forall>u. bs_PreviousValidUntil s = Some u \<longrightarrow> u \<le> limit))"
    if "s \<in> set (db_sessions (db_exec H oper db))" for s
    using a db_sessions_exec [OF that] by (auto simp: token_retired_def not_reused_def)
  then show "token_retired h limit (db_exec H oper db)" by (simp add: token_retired_def)
qed

text \<open>Identifiers and current tokens are unique, as the columns' constraints have it.\<close>

definition sessions_ok :: "auth_db \<Rightarrow> bool" where
  "sessions_ok db = (distinct (map bs_ID (db_sessions db)) \<and> distinct (map bs_TokenHash (db_sessions db)))"

lemma sessions_ok_update:
  assumes "sessions_ok db" "\<And>s. bs_ID (upd s) = bs_ID s" "\<And>s. bs_TokenHash (upd s) = bs_TokenHash s"
  shows "sessions_ok (snd (update_sessions cond upd err db))"
proof -
  have "map f (map (\<lambda>s. if cond s then upd s else s) xs) = map f xs" if "\<And>s. f (upd s) = f s" for f :: "BrowserSession \<Rightarrow> string" and xs
    using that by (induction xs) auto
  from this [of bs_ID] this [of bs_TokenHash] assms show ?thesis by (simp add: sessions_ok_def update_sessions_def del: map_map)
qed

lemma sessions_ok_filter: "sessions_ok db \<Longrightarrow> sessions_ok (db\<lparr>db_sessions := filter P (db_sessions db)\<rparr>)"
  by (simp add: sessions_ok_def distinct_map_filter)

lemma sessions_ok_unique: "sessions_ok db \<Longrightarrow> s \<in> set (db_sessions db) \<Longrightarrow> t \<in> set (db_sessions db) \<Longrightarrow> bs_ID s = bs_ID t \<Longrightarrow> s = t"
  by (auto simp: sessions_ok_def distinct_map dest: inj_onD)

lemma sessions_ok_rotate:
  assumes ok: "sessions_ok db"
  shows "sessions_ok (snd (RotateBrowserSession sid expected h c seen idle db))"
proof (cases "\<exists>s \<in> set (db_sessions db). \<not> rotatable sid expected seen s \<and> bs_TokenHash s = h")
  case True
  with ok show ?thesis by (auto simp: RotateBrowserSession_def update_sessions_def)
next
  case fresh: False
  let ?g = "\<lambda>s. if rotatable sid expected seen s then rotated h c seen idle s else s"
  have rot: "x = y" if "x \<in> set (db_sessions db)" "y \<in> set (db_sessions db)" "rotatable sid expected seen x" "rotatable sid expected seen y" for x y
    using that sessions_ok_unique [OF ok] by (simp add: rotatable_def)
  have inj: "inj_on bs_ID (set (db_sessions db))" "inj_on bs_TokenHash (set (db_sessions db))" "distinct (db_sessions db)"
    using ok by (auto simp: sessions_ok_def distinct_map)
  have "inj_on (bs_TokenHash \<circ> ?g) (set (db_sessions db))"
  proof (rule inj_onI)
    fix x y assume xy: "x \<in> set (db_sessions db)" "y \<in> set (db_sessions db)" "(bs_TokenHash \<circ> ?g) x = (bs_TokenHash \<circ> ?g) y"
    then show "x = y" using fresh rot inj_onD [OF inj(2), of x y] by (cases "rotatable sid expected seen x"; cases "rotatable sid expected seen y") auto
  qed
  moreover have "inj_on (bs_ID \<circ> ?g) (set (db_sessions db))"
    using inj(1) by (auto intro!: inj_onI dest: inj_onD split: if_splits)
  ultimately have "sessions_ok (db\<lparr>db_sessions := map ?g (db_sessions db)\<rparr>)"
    using ok inj(3) by (simp add: sessions_ok_def distinct_map)
  with fresh ok show ?thesis by (auto simp: RotateBrowserSession_def update_sessions_def)
qed

lemma sessions_ok_same: "db_sessions db' = db_sessions db \<Longrightarrow> sessions_ok db' = sessions_ok db"
  by (simp add: sessions_ok_def)

interpretation session_table: step_invariant "db_exec H" sessions_ok for H
proof
  fix oper db assume ok: "sessions_ok db"
  show "sessions_ok (db_exec H oper db)"
  proof (cases oper)
    case (DbCreateSession uuid now s)
    with ok show ?thesis
      by (auto simp: keep_on_error_def CreateBrowserSession_def Let_def sessions_ok_def split: sum.splits option.splits if_splits)
  next
    case (DbDeleteKey kid)
    have "sessions_ok (db\<lparr>db_sessions := filter P (db_sessions db), db_keys := ks\<rparr>)" for P ks
      using sessions_ok_filter [OF ok, of P] by (simp add: sessions_ok_def)
    with ok DbDeleteKey show ?thesis by (simp add: DeleteAPIKey_def split: option.splits)
  qed (use ok in \<open>simp_all add: sessions_ok_rotate sessions_ok_update sessions_ok_filter TouchBrowserSession_def RevokeBrowserSession_def
        DeleteExpiredBrowserSessions_def\<close>,
      (auto simp: keep_on_error_def CreateRole_def store_DeleteRole_def CreateAPIKey_def RevokeAPIKey_def CreateClaimMapping_def
        DeleteClaimMapping_def RotateSigningKey_def Let_def sessions_ok_def split: sum.splits option.splits if_splits)+)
qed

text \<open>
  C7. A rotated token runs out. Every refresh of a session leaves its idle expiry within the end of the
  session. The token it replaces is accepted, whatever operations follow, only before 30 seconds after the refresh
  have passed, provided that the hash of the old token is neither the hash of the new one nor already some
  session's previous token, and that no later operation gives it to a session again.
\<close>

theorem rotated_token_expires:
  assumes "sessions_ok db" and rot: "RotateBrowserSession sid h h' c seen idle db = (None, db')"
  shows "(\<forall>s \<in> set (db_sessions db'). bs_ID s = sid \<longrightarrow> bs_IdleExpiresAt s \<le> bs_ExpiresAt s)
    \<and> (h' \<noteq> h \<and> h \<notin> bs_PreviousTokenHash ` set (db_sessions db) \<longrightarrow>
       (\<forall>opers now r cookie idn. list_all (not_reused h) opers \<and> ar_SessionCookie r = Some cookie \<and> HashSessionToken H cookie = h
          \<and> Session_ValidateRequest H xml v now (fold (db_exec H) opers db') r = Inr (Some idn)
          \<longrightarrow> now < seen + SessionRotationGrace))"
proof
  have db': "db' = db\<lparr>db_sessions := map (\<lambda>s. if rotatable sid h seen s then rotated h' c seen idle s else s) (db_sessions db)\<rparr>"
    and ex: "\<exists>s \<in> set (db_sessions db). rotatable sid h seen s"
    using rot by (auto simp: RotateBrowserSession_def update_sessions_def split: if_splits)
  then obtain s0 where s0: "s0 \<in> set (db_sessions db)" "rotatable sid h seen s0" by blast
  have id_rot: "rotatable sid h seen s" if "s \<in> set (db_sessions db)" "bs_ID s = sid" for s
    using sessions_ok_unique [OF assms(1) that(1) s0(1)] s0(2) that(2) by (auto simp: rotatable_def)
  have tok_rot: "rotatable sid h seen s" if "s \<in> set (db_sessions db)" "bs_TokenHash s = h" for s
    using assms(1) s0 that by (metis (mono_tags) distinct_map inj_onD rotatable_def sessions_ok_def)
  show "\<forall>s \<in> set (db_sessions db'). bs_ID s = sid \<longrightarrow> bs_IdleExpiresAt s \<le> bs_ExpiresAt s"
    using id_rot by (auto simp: db' rotated_def)
  show "h' \<noteq> h \<and> h \<notin> bs_PreviousTokenHash ` set (db_sessions db) \<longrightarrow>
       (\<forall>opers now r cookie idn. list_all (not_reused h) opers \<and> ar_SessionCookie r = Some cookie \<and> HashSessionToken H cookie = h
          \<and> Session_ValidateRequest H xml v now (fold (db_exec H) opers db') r = Inr (Some idn)
          \<longrightarrow> now < seen + SessionRotationGrace)"
  proof (intro impI allI, elim conjE)
    fix opers now r cookie idn
    assume fresh: "h' \<noteq> h" "h \<notin> bs_PreviousTokenHash ` set (db_sessions db)" and ops: "list_all (not_reused h) opers"
      and acc: "Session_ValidateRequest H xml v now (fold (db_exec H) opers db') r = Inr (Some idn)"
      "ar_SessionCookie r = Some cookie" "HashSessionToken H cookie = h"
    have "token_retired h (seen + SessionRotationGrace) db'"
      using fresh tok_rot by (auto simp: token_retired_def db')
    with ops have "token_retired h (seen + SessionRotationGrace) (fold (db_exec H) opers db')"
      by (intro retired_token.guarded_run_inv) (simp_all add: list_all_iff)
    with Session_accepts [OF acc(1)] acc(2,3) show "now < seen + SessionRotationGrace"
      by (fastforce simp: token_retired_def token_row_def split: option.splits)
  qed
qed

definition rotated_db :: auth_db where
  "rotated_db = snd (RotateBrowserSession ''s'' (HashSessionToken sample_hash ''tok'') (HashSessionToken sample_hash ''new'') [] 2 9 sample_db)"

lemma rotated_db_eq:
  "RotateBrowserSession ''s'' (HashSessionToken sample_hash ''tok'') (HashSessionToken sample_hash ''new'') [] 2 9 sample_db = (None, rotated_db)"
  "db_sessions rotated_db = [rotated (HashSessionToken sample_hash ''new'') [] 2 9 sample_session, db_sessions sample_db ! 1]"
  "db_keys rotated_db = [sample_key]" "db_roles rotated_db = [sample_role]"
  by (simp_all add: rotated_db_def RotateBrowserSession_def update_sessions_def sample_db_def rotatable_def sample_session_def session_live_def
      HashSessionToken_def sample_hash_def hex_encode_def hex_digit_def code_of_def)

lemma grace_accepted:
  "\<exists>idn. Session_ValidateRequest sample_hash (\<lambda>_. []) sample_validator 5 rotated_db sample_post = Inr (Some idn)"
  by (simp add: rotated_db_eq Session_ValidateRequest_def sample_post_def key_header_request_def GetBrowserSessionByTokenHash_def
      token_row_def mutating_request_def isUnsafeMethod_def csrf_ok_def in_grace_def rotated_def SessionRotationGrace_def
      sample_session_def session_roles_def GetAPIKeyByID_def getAPIKey_def sample_key_def sample_role_def trim_space_def is_ascii_space_def
      char_between_def code_of_def Let_def HashSessionToken_def sample_hash_def hex_encode_def hex_digit_def)

theorem rotated_token_expires_witness:
  "(\<exists>idn. Session_ValidateRequest sample_hash (\<lambda>_. []) sample_validator 5 rotated_db sample_post = Inr (Some idn))
   \<and> \<not> (\<exists>idn. Session_ValidateRequest sample_hash (\<lambda>_. []) sample_validator (2 + SessionRotationGrace) rotated_db sample_post = Inr (Some idn))
   \<and> bs_IdleExpiresAt (db_sessions rotated_db ! 0) \<le> bs_ExpiresAt (db_sessions rotated_db ! 0)"
proof -
  have ok: "sessions_ok sample_db"
    by (simp add: sessions_ok_def sample_db_def sample_session_def HashSessionToken_def sample_hash_def hex_encode_def hex_digit_def code_of_def)
  have "HashSessionToken sample_hash ''tok'' \<notin> bs_PreviousTokenHash ` set (db_sessions sample_db)"
    by (simp add: sample_db_def sample_session_def HashSessionToken_def sample_hash_def hex_encode_def)
  moreover have "HashSessionToken sample_hash ''new'' \<noteq> HashSessionToken sample_hash ''tok''"
    by (simp add: HashSessionToken_def sample_hash_def hex_encode_def hex_digit_def code_of_def)
  moreover have "ar_SessionCookie sample_post = Some ''tok''" by (simp add: sample_post_def)
  moreover note expires = rotated_token_expires [OF ok rotated_db_eq(1), of sample_hash "\<lambda>_. []" sample_validator]
  ultimately have "\<not> (\<exists>idn. Session_ValidateRequest sample_hash (\<lambda>_. []) sample_validator (2 + SessionRotationGrace)
      (fold (db_exec sample_hash) [] rotated_db) sample_post = Inr (Some idn))"
    by (metis list.pred_inject(1) less_irrefl)
  moreover have "bs_ID (db_sessions rotated_db ! 0) = ''s''" by (simp add: rotated_db_eq rotated_def sample_session_def)
  ultimately show ?thesis using grace_accepted expires by (simp add: rotated_db_eq(2))
qed

section \<open>Deleted roles\<close>

definition role_gone :: "string \<Rightarrow> auth_db \<Rightarrow> bool" where
  "role_gone rid db = (rid \<in> set (db_retired db) \<and> rid \<notin> ro_ID ` set (db_roles db))"

lemma db_roles_exec:
  "set (db_retired db) \<subseteq> set (db_retired (db_exec H oper db))"
  "ro_ID ` set (db_roles (db_exec H oper db)) \<subseteq> ro_ID ` set (db_roles db) \<union> - set (db_retired db)"
  by (cases oper; force simp: keep_on_error_def CreateRole_def store_DeleteRole_def CreateAPIKey_def RevokeAPIKey_def DeleteAPIKey_def CreateClaimMapping_def
      DeleteClaimMapping_def RotateSigningKey_def CreateBrowserSession_def TouchBrowserSession_def RotateBrowserSession_def RevokeBrowserSession_def
      DeleteExpiredBrowserSessions_def update_sessions_def Let_def split: sum.splits option.splits if_splits)+

interpretation gone_role: step_invariant "db_exec H" "role_gone rid" for H rid
proof
  fix oper db assume "role_gone rid db"
  then show "role_gone rid (db_exec H oper db)"
    unfolding role_gone_def using db_roles_exec(1) [of db H oper] subsetD [OF db_roles_exec(2) [of H oper db], of rid] by blast
qed

lemma delete_role_gone: "store_DeleteRole now rid db = (None, db') \<Longrightarrow> role_gone rid db'"
  by (auto simp: store_DeleteRole_def role_gone_def Let_def split: option.splits if_splits)

lemma first_role_Some:
  "map_of (first_role m acc) ws = Some role \<Longrightarrow> map_of acc ws = Some role \<or> cm_WorkspaceID m = ws \<and> cm_RoleID m = role"
  by (simp add: first_role_def gomap_simps split: option.splits if_splits)

lemma fold_first_role:
  "map_of (fold first_role ms acc) ws = Some role \<Longrightarrow> map_of acc ws = Some role \<or> (\<exists>m \<in> set ms. cm_WorkspaceID m = ws \<and> cm_RoleID m = role)"
proof (induction ms arbitrary: acc)
  case (Cons m ms)
  from Cons.IH [of "first_role m acc"] Cons.prems first_role_Some [of m acc ws role] show ?case by auto
qed simp

lemma resolved_role_exists:
  assumes "map_of (ResolveClaimsToRoles claims db) ws = Some role"
  shows "role \<in> ro_ID ` set (db_roles db)"
  using fold_first_role [OF assms [unfolded ResolveClaimsToRoles_def]] by (auto simp: mapping_applies_def)

text \<open>
  C8. A deleted role is gone for good: once its deletion succeeded, whatever operations follow, no role with that
  identifier can be created, no API key is returned with it, neither by hash nor by identifier, and no
  claims resolve to it.
\<close>

theorem deleted_role_never_granted:
  assumes "store_DeleteRole t rid db = (None, db')" "db'' = fold (db_exec H) opers db'"
  shows "CreateRole rid name descr now db'' = Inl ErrDuplicateKey
    \<and> (\<forall>k. GetAPIKeyByHash hash now db'' = Inr k \<or> GetAPIKeyByID kid now db'' = Inr k \<longrightarrow> ak_RoleID k \<noteq> rid)
    \<and> map_of (ResolveClaimsToRoles claims db'') ws \<noteq> Some rid"
proof -
  have gone: "role_gone rid db''"
    unfolding assms(2) by (rule gone_role.run_inv [OF delete_role_gone [OF assms(1)]])
  then have "rid \<notin> ro_ID ` set (db_roles db'')" by (simp add: role_gone_def)
  then have "\<forall>k. GetAPIKeyByHash hash now db'' = Inr k \<or> GetAPIKeyByID kid now db'' = Inr k \<longrightarrow> ak_RoleID k \<noteq> rid"
    unfolding GetAPIKeyByHash_def GetAPIKeyByID_def by (metis getAPIKey_Inr(4))
  moreover have "map_of (ResolveClaimsToRoles claims db'') ws \<noteq> Some rid"
    using resolved_role_exists \<open>rid \<notin> ro_ID ` set (db_roles db'')\<close> by blast
  ultimately show ?thesis using gone by (simp add: role_gone_def CreateRole_def)
qed

theorem deleted_role_never_granted_witness:
  "CreateRole ''guide'' [] [] 0 (snd (store_DeleteRole 0 ''guide'' (sample_db\<lparr>db_roles := [sample_role\<lparr>ro_ID := ''guide''\<rparr>]\<rparr>))) = Inl ErrDuplicateKey"
proof -
  let ?db = "sample_db\<lparr>db_roles := [sample_role\<lparr>ro_ID := ''guide''\<rparr>]\<rparr>"
  have d: "store_DeleteRole 0 ''guide'' ?db = (None, snd (store_DeleteRole 0 ''guide'' ?db))"
    by (simp add: store_DeleteRole_def sample_db_def sample_role_def sample_key_def sample_session_def roleDependencies_def session_live_def key_usable_def)
  from deleted_role_never_granted [OF d, where opers = "[]" and H = sample_hash, simplified] show ?thesis by blast
qed

section \<open>Tokens\<close>

text \<open>
  C10. A self-signed token carries what was signed: a token is accepted only when its header names ES256 and its
  signature verifies, over exactly the header and payload it carries, under the active signing key,
  and it has not expired; the identity has the subject of the payload, and at most the one role of the
  payload, in the one workspace of the payload, with super_admin the only role that is global.
\<close>

theorem token_carries_what_was_signed:
  assumes "JWT_Validate L now db tok = Inr (Some idn)"
  shows "\<exists>a b c sig raw hraw h p key. split_on CHR ''.'' tok = [a, b, c] \<and> DecodeString c = Some sig \<and> DecodeString b = Some raw
    \<and> tl_parse_payload L raw = Some p \<and> DecodeString a = Some hraw \<and> tl_parse_header L hraw = Some h \<and> jh_Alg h = ''ES256''
    \<and> GetActiveSigningKey db = Inr key
    \<and> tl_verify L (sk_PublicKey key) (tl_sha256 L (a @ ''.'' @ b)) (read_bytes (take 32 sig)) (read_bytes (drop 32 sig))
    \<and> unix_seconds now \<le> jp_Exp p \<and> id_Subject idn = jp_Sub p
    \<and> (\<forall>ws role. id_Roles idn ws = Some role \<longrightarrow> role = jp_Role p \<and> (if ws = ''*'' then role = ''super_admin'' else ws = jp_Workspace p))"
proof -
  from JWT_Validate_accepts [OF assms] obtain t key roles where t: "parseJWT L tok = Inr t" "GetActiveSigningKey db = Inr key"
    "Verify L (sk_PublicKey key) t = None" "unix_seconds now \<le> jp_Exp (jt_Payload t)"
    "jwt_roles (jt_Payload t) = Inr roles" "idn = jwt_identity (jt_Payload t) roles" by metis
  from t(1) obtain a b c hraw raw where p: "split_on CHR ''.'' tok = [a, b, c]" "DecodeString a = Some hraw" "DecodeString b = Some raw"
    "tl_parse_header L hraw = Some (jt_Header t)" "tl_parse_payload L raw = Some (jt_Payload t)"
    by (auto simp: parseJWT_def split: list.splits option.splits)
  from t(3) p(1) parseJWT_raw [OF t(1)] obtain sig where v: "DecodeString c = Some sig" "jh_Alg (jt_Header t) = ''ES256''"
    "tl_verify L (sk_PublicKey key) (tl_sha256 L (a @ ''.'' @ b)) (read_bytes (take 32 sig)) (read_bytes (drop 32 sig))"
    by (auto simp: Verify_def split: option.splits if_splits)
  have "\<forall>ws role. id_Roles idn ws = Some role \<longrightarrow> role = jp_Role (jt_Payload t) \<and> (if ws = ''*'' then role = ''super_admin'' else ws = jp_Workspace (jt_Payload t))"
    using jwt_roles_scope [OF t(5)] by (auto simp: t(6) jwt_identity_def split: if_splits)
  moreover have "id_Subject idn = jp_Sub (jt_Payload t)" by (simp add: t(6) jwt_identity_def)
  ultimately show ?thesis using t(2,4) p v by blast
qed

text \<open>
  C11. What becomes of a token that the server issues, for a subject, role and workspace in valid UTF-8 and times that
  fit in 64 bits. Until it expires it validates under the key it was signed with and gives the subject,
  role and workspace it was issued for; after that it is rejected as expired. The exception
  is a token for the workspace \<^verbatim>\<open>*\<close> with a role: it is issued, and rejected as having no workspace scope.
\<close>

theorem issued_token_round_trip:
  assumes ok: "libs_ok L key" "GetActiveSigningKey db = Inr key" and tok: "CreateToken L key subject role ws dur now = Inr tok"
    and enc: "list_all utf8_valid [subject, role, ws]" "int64_range (unix_seconds now)" "int64_range (unix_seconds (now + dur))"
  shows "JWT_Validate L later db tok =
    (if unix_seconds later > unix_seconds (now + dur) then Inl (auth_error ''Token expired'')
     else if ws = ''*'' \<and> role \<noteq> []
     then Inl (auth_error ''Token has no workspace scope; issue a new token with create-token --workspace'')
     else Inr (Some (jwt_identity \<lparr>jp_Iss = ''neoserver'', jp_Sub = subject, jp_Role = role, jp_Workspace = ws, jp_Iat = unix_seconds now,
                       jp_Exp = unix_seconds (now + dur)\<rparr> (if role = [] then Map.empty else [if role = ''super_admin'' then ''*'' else ws \<mapsto> role]))))"
proof -
  define h p where "h = \<lparr>jh_Alg = ''ES256'', jh_Typ = ''JWT''\<rparr>"
    and "p = \<lparr>jp_Iss = ''neoserver'', jp_Sub = subject, jp_Role = role, jp_Workspace = ws, jp_Iat = unix_seconds now, jp_Exp = unix_seconds (now + dur)\<rparr>"
  from tok have t: "tok = Sign L (sk_PrivateKey key) h p" and scope: "(role = ''super_admin'') = (ws = [])"
    by (auto simp: CreateToken_def h_def p_def split: if_splits)
  have ascii: "utf8_valid ''ES256''" "utf8_valid ''JWT''" "utf8_valid ''neoserver''" by code_simp+
  with enc have able: "header_encodable h" "payload_encodable p"
    by (simp_all add: header_encodable_def payload_encodable_def h_def p_def)
  have "jwt_roles p = (if ws = ''*'' \<and> role \<noteq> []
      then Inl (auth_error ''Token has no workspace scope; issue a new token with create-token --workspace'')
      else Inr (if role = [] then Map.empty else [if role = ''super_admin'' then ''*'' else ws \<mapsto> role]))"
    using scope by (auto simp: jwt_roles_def p_def)
  moreover have "Verify L (sk_PublicKey key) \<lparr>jt_Header = h, jt_Payload = p, jt_Raw = tok\<rparr> = None"
    unfolding t by (rule verify_signed [OF ok(1)]) (simp add: h_def)
  moreover have "parseJWT L tok = Inr \<lparr>jt_Header = h, jt_Payload = p, jt_Raw = tok\<rparr>" unfolding t by (rule parse_signed [OF ok(1) able])
  ultimately show ?thesis using ok by (simp add: JWT_Validate_def libs_ok_def p_def)
qed

text \<open>A codec and a signature scheme that satisfy what is asked of the libraries.\<close>

definition plain_libs :: token_libs where
  "plain_libs = \<lparr>
     tl_header = (\<lambda>h. EncodeToString (jh_Alg h) @ ''.'' @ EncodeToString (jh_Typ h)),
     tl_parse_header = (\<lambda>s. case map DecodeString (split_on CHR ''.'' s) of
       [Some a, Some b] \<Rightarrow> Some \<lparr>jh_Alg = a, jh_Typ = b\<rparr> | _ \<Rightarrow> None),
     tl_payload = (\<lambda>p. join ''.'' (map EncodeToString [jp_Iss p, jp_Sub p, jp_Role p, jp_Workspace p, show_int (jp_Iat p), show_int (jp_Exp p)])),
     tl_parse_payload = (\<lambda>s. case map DecodeString (split_on CHR ''.'' s) of
       [Some a, Some b, Some c, Some d, Some e, Some f] \<Rightarrow>
         Some \<lparr>jp_Iss = a, jp_Sub = b, jp_Role = c, jp_Workspace = d, jp_Iat = read_int e, jp_Exp = read_int f\<rparr>
     | _ \<Rightarrow> None),
     tl_sha256 = sample_hash, tl_sign = (\<lambda>_ _. (7, 9)), tl_verify = (\<lambda>_ _ r s. r = 7 \<and> s = 9),
     tl_private_ok = (\<lambda>_. True), tl_public_ok = (\<lambda>_. True), tl_public_ecdsa = (\<lambda>_. True)\<rparr>"

definition sample_signing :: SigningKey where
  "sample_signing = \<lparr>sk_ID = ''sig'', sk_PrivateKey = [], sk_PublicKey = [], sk_Algorithm = ''ES256'', sk_CreatedAt = 0, sk_IsActive = True\<rparr>"

lemma plain_libs_ok: "libs_ok plain_libs key"
  by (simp add: libs_ok_def plain_libs_def split_on_append split_on_free)

definition issued_token :: string where
  "issued_token = Sign plain_libs [] \<lparr>jh_Alg = ''ES256'', jh_Typ = ''JWT''\<rparr>
     \<lparr>jp_Iss = ''neoserver'', jp_Sub = ''ann'', jp_Role = ''editor'', jp_Workspace = ''ws'', jp_Iat = 0, jp_Exp = 60\<rparr>"

lemma issued_token_created: "CreateToken plain_libs sample_signing ''ann'' ''editor'' ''ws'' (60 * second) 0 = Inr issued_token"
  by (simp add: CreateToken_def issued_token_def sample_signing_def plain_libs_def unix_seconds_def)

lemma issued_encodable:
  "header_encodable \<lparr>jh_Alg = ''ES256'', jh_Typ = ''JWT''\<rparr>"
  "payload_encodable \<lparr>jp_Iss = ''neoserver'', jp_Sub = ''ann'', jp_Role = ''editor'', jp_Workspace = ''ws'', jp_Iat = 0, jp_Exp = 60\<rparr>"
  by code_simp+

lemma issued_token_accepted:
  "\<exists>idn. JWT_Validate plain_libs (30 * second) (sample_db\<lparr>db_signing := [sample_signing]\<rparr>) issued_token = Inr (Some idn)
     \<and> id_Roles idn = [''ws'' \<mapsto> ''editor'']"
  by (simp add: JWT_Validate_def issued_token_def parse_signed [OF plain_libs_ok [of sample_signing]] issued_encodable GetActiveSigningKey_def
      verify_signed [OF plain_libs_ok [of sample_signing], unfolded sample_signing_def, simplified] sample_signing_def
      plain_libs_def [THEN arg_cong [of _ _ tl_public_ok]] plain_libs_def [THEN arg_cong [of _ _ tl_public_ecdsa]]
      unix_seconds_def jwt_roles_def jwt_identity_def)

theorem issued_token_round_trip_witness:
  "(\<exists>idn. JWT_Validate plain_libs (30 * second) (sample_db\<lparr>db_signing := [sample_signing]\<rparr>) issued_token = Inr (Some idn)
      \<and> id_Roles idn = [''ws'' \<mapsto> ''editor''])
   \<and> JWT_Validate plain_libs (61 * second) (sample_db\<lparr>db_signing := [sample_signing]\<rparr>) issued_token = Inl (auth_error ''Token expired'')"
proof -
  have key: "GetActiveSigningKey (sample_db\<lparr>db_signing := [sample_signing]\<rparr>) = Inr sample_signing"
    by (simp add: GetActiveSigningKey_def sample_signing_def)
  have enc: "list_all utf8_valid [''ann'', ''editor'', ''ws'']" "int64_range (unix_seconds 0)" "int64_range (unix_seconds (0 + 60 * second))"
    by code_simp+
  note round_trip = issued_token_round_trip [OF plain_libs_ok key issued_token_created enc]
  from round_trip [of "30 * second"] round_trip [of "61 * second"] show ?thesis
    by (simp add: unix_seconds_def jwt_identity_def)
qed

theorem token_carries_what_was_signed_witness:
  "\<exists>idn. \<exists>p :: jwtPayload. JWT_Validate plain_libs (30 * second) (sample_db\<lparr>db_signing := [sample_signing]\<rparr>) issued_token = Inr (Some idn)
     \<and> id_Subject idn = jp_Sub p \<and> 30 \<le> jp_Exp p"
proof -
  obtain idn where i: "JWT_Validate plain_libs (30 * second) (sample_db\<lparr>db_signing := [sample_signing]\<rparr>) issued_token = Inr (Some idn)"
    using issued_token_accepted by blast
  from token_carries_what_was_signed [OF i] obtain p :: jwtPayload where "unix_seconds (30 * second) \<le> jp_Exp p" "id_Subject idn = jp_Sub p"
    by blast
  with i show ?thesis by (auto simp: unix_seconds_def)
qed

section \<open>The middleware\<close>

lemma validate_keeps_db: "as_db (snd (validate A cfg disc now r v st)) = as_db st"
  by (cases v) (simp_all split: prod.splits)

lemma try_validators_Some:
  assumes "try_validators run vs e st = ((Some idn, e'), st')" "\<And>v s. as_db (snd (run v s)) = as_db s"
  shows "\<exists>v \<in> set vs. \<exists>st1 st2. run v st1 = (Inr (Some idn), st2) \<and> as_db st1 = as_db st"
  using assms(1)
proof (induction vs arbitrary: e st)
  case (Cons v vs)
  obtain res st1 where r: "run v st = (res, st1)" by fastforce
  then have d: "as_db st1 = as_db st" using assms(2) [of v st] by simp
  consider err where "res = Inl err" | "res = Inr None" | who where "res = Inr (Some who)" by (metis option.exhaust sum.exhaust)
  then show ?case
  proof cases
    case 1
    with Cons.prems r have "try_validators run vs (Some err) st1 = ((Some idn, e'), st')" by simp
    from Cons.IH [OF this] d show ?thesis by auto
  next
    case 2
    with Cons.prems r have "try_validators run vs e st1 = ((Some idn, e'), st')" by simp
    from Cons.IH [OF this] d show ?thesis by auto
  next
    case 3
    with Cons.prems r have "res = Inr (Some idn)" by simp
    with r show ?thesis by auto
  qed
qed simp

lemma bearer_token_cookie [simp]: "bearer_token (r\<lparr>ar_SessionCookie := c\<rparr>) = bearer_token r"
  by (simp add: bearer_token_def)

lemma OIDC_ValidateRequest_cookie:
  "OIDC_ValidateRequest P oc disc now db (r\<lparr>ar_SessionCookie := c\<rparr>) os = OIDC_ValidateRequest P oc disc now db r os"
  unfolding OIDC_ValidateRequest_def bearer_token_cookie by simp

lemma Basic_ValidateRequest_cookie:
  "Basic_ValidateRequest h us role now (r\<lparr>ar_SessionCookie := c\<rparr>) l = Basic_ValidateRequest h us role now r l"
  by (simp add: Basic_ValidateRequest_def split: option.splits prod.splits)

lemma validate_ignores_cookie: "validate A cfg disc now (r\<lparr>ar_SessionCookie := c\<rparr>) = validate A cfg disc now r"
proof (rule ext, rule ext)
  fix v st
  show "validate A cfg disc now (r\<lparr>ar_SessionCookie := c\<rparr>) v st = validate A cfg disc now r v st"
    by (cases v) (simp_all add: APIKey_ValidateRequest_def presented_key_def StaticAPIKey_ValidateRequest_def Basic_ValidateRequest_cookie
        JWT_ValidateRequest_def OIDC_ValidateRequest_cookie query_get_def cong: if_cong)
qed

lemma explicit_skips_session:
  assumes "hasExplicitCredential r (ac_AllowAPIKeyInQuery cfg)"
  shows "session_step A cfg now r st = (None, None)"
  using assms by (simp add: session_step_def)

lemma hasExplicitCredential_cookie: "hasExplicitCredential (r\<lparr>ar_SessionCookie := c\<rparr>) allow = hasExplicitCredential r allow"
  by (simp add: hasExplicitCredential_def query_get_def)

text \<open>
  C9. An explicit credential decides. A request that presents an Authorization or API key header (or the query
  parameter, where allowed) goes on only with the identity one of the validators gave to exactly
  that credential: a rejected or unrecognised credential never falls back to anonymous access or to a
  browser session, and the cookie makes no difference.
\<close>

theorem explicit_credential_decides:
  assumes "hasExplicitCredential r (ac_AllowAPIKeyInQuery cfg)"
  shows "Middleware A cfg disc now (r\<lparr>ar_SessionCookie := c\<rparr>) st = Middleware A cfg disc now r st
    \<and> (\<forall>idn st'. Middleware A cfg disc now r st = (AuthNext idn, st') \<longrightarrow>
         (\<exists>who. idn = Some who \<and> (\<exists>v \<in> set (validators cfg). \<exists>st1 st2.
            validate A cfg disc now r v st1 = (Inr (Some who), st2) \<and> as_db st1 = as_db st)))"
proof (intro conjI allI impI)
  show "Middleware A cfg disc now (r\<lparr>ar_SessionCookie := c\<rparr>) st = Middleware A cfg disc now r st"
    using assms by (simp add: Middleware_def validate_ignores_cookie explicit_skips_session hasExplicitCredential_cookie cong: if_cong)
  fix idn st' assume m: "Middleware A cfg disc now r st = (AuthNext idn, st')"
  obtain i e s where t: "try_validators (validate A cfg disc now r) (validators cfg) None st = ((i, e), s)" by (metis prod.exhaust)
  have "i \<noteq> None" "idn = i"
    using m t assms by (auto simp: Middleware_def explicit_skips_session auth_failure_def Let_def split: if_splits option.splits)
  then obtain who where w: "i = Some who" "idn = Some who" by auto
  from try_validators_Some [OF t [unfolded w(1)] validate_keeps_db] w(2)
  show "\<exists>who. idn = Some who \<and> (\<exists>v \<in> set (validators cfg). \<exists>st1 st2.
            validate A cfg disc now r v st1 = (Inr (Some who), st2) \<and> as_db st1 = as_db st)" by blast
qed

definition sample_auth :: auth_config where
  "sample_auth = \<lparr>ac_StaticAPIKey = [], ac_BasicAuthUsers = [], ac_DefaultRole = [], ac_AllowAPIKeyInQuery = False, ac_OIDC = None,
     ac_Session = True, ac_RequireAuth = False\<rparr>"

definition sample_libs :: auth_libs where
  "sample_libs = \<lparr>al_tokens = plain_libs, al_oidc = \<lparr>ol_verify = Map.empty, ol_parse = Map.empty\<rparr>, al_xml = (\<lambda>_. [])\<rparr>"

definition sample_state :: auth_state where
  "sample_state = \<lparr>as_db = sample_db, as_limiter = NewFailureLimiter, as_oidc = \<lparr>os_ready = False, os_nextAttempt = 0, os_retryDelay = second\<rparr>\<rparr>"

definition keyed_request :: "string \<Rightarrow> auth_request" where
  "keyed_request key = sample_post\<lparr>ar_XAPIKey := key\<rparr>"

lemma keyed_request_runs:
  "fst (Middleware sample_libs sample_auth False 5 (keyed_request ''nsk_1'') sample_state) = AuthNext (Some (key_identity sample_key))"
  "fst (Middleware sample_libs sample_auth False 5 (keyed_request ''nsk_2'') sample_state) = AuthFail ''Invalid API key'' 401 None"
  by (simp_all add: Middleware_def validators_def sample_auth_def keyed_request_def sample_post_def key_header_request_def sample_libs_def
      sample_state_def APIKey_ValidateRequest_def presented_key_def has_prefix_def APIKey_Validate_def GetAPIKeyByHash_def getAPIKey_def
      sample_db_def sample_key_def sample_role_def hash_hex_def sample_hash_def plain_libs_def hex_encode_def hex_digit_def code_of_def
      JWT_ValidateRequest_def bearer_token_def hasExplicitCredential_def auth_failure_def auth_error_def Let_def)

theorem explicit_credential_decides_witness:
  "fst (Middleware sample_libs sample_auth False 5 ((keyed_request ''nsk_2'')\<lparr>ar_SessionCookie := None\<rparr>) sample_state) = AuthFail ''Invalid API key'' 401 None"
proof -
  have "hasExplicitCredential (keyed_request ''nsk_2'') (ac_AllowAPIKeyInQuery sample_auth)"
    by (simp add: hasExplicitCredential_def keyed_request_def)
  from explicit_credential_decides [OF this] keyed_request_runs(2) show ?thesis by simp
qed

end
