(* ===== verification/Auth_Transport.thy ===== *)
theory Auth_Transport
  imports Auth_Validators
begin

text \<open>
  The transport decision in front of authentication (\<^verbatim>\<open>identity/transport.go\<close>): which connections
  count as encrypted, which forwarding headers are believed, and when a plaintext request that
  carries credentials is refused. The address functions of Go's \<^verbatim>\<open>net\<close> package are an argument, so
  every statement holds for IPv4 and IPv6 alike. The property says that nobody behind the trusted
  proxies can choose the address they are seen under.
\<close>

section \<open>Addresses\<close>

record ('ip, 'net) net_lib =
  nl_SplitHostPort :: "string \<Rightarrow> string option"
  nl_ParseIP :: "string \<Rightarrow> 'ip option"
  nl_IPString :: "'ip \<Rightarrow> string"
  nl_IsLoopback :: "'ip \<Rightarrow> bool"
  nl_ParseCIDR :: "string \<Rightarrow> 'net option"
  nl_Contains :: "'net \<Rightarrow> 'ip \<Rightarrow> bool"

record transportDecision =
  td_secure :: bool
  td_encrypted :: bool

record TransportConfig =
  tc_RequireHTTPS :: bool
  tc_TrustedProxyCIDRs :: "string list"
  tc_AllowAPIKeyInQuery :: bool

record transport_request = auth_request +
  tr_TLS :: bool
  tr_XForwardedProto :: string
  tr_XForwardedFor :: string
  tr_decision :: "transportDecision option"

definition IsSecureTransport :: "transport_request \<Rightarrow> bool" where
  "IsSecureTransport r = (case tr_decision r of None \<Rightarrow> False | Some d \<Rightarrow> td_secure d)"

definition IsEncryptedTransport :: "transport_request \<Rightarrow> bool" where
  "IsEncryptedTransport r = (case tr_decision r of None \<Rightarrow> False | Some d \<Rightarrow> td_encrypted d)"

fun parseTrustedProxyCIDRs :: "('ip, 'net) net_lib \<Rightarrow> string list \<Rightarrow> string + 'net list" where
  "parseTrustedProxyCIDRs N [] = Inr []"
| "parseTrustedProxyCIDRs N (v # vs) =
     (case nl_ParseCIDR N (trim_space v) of
        None \<Rightarrow> Inl (''invalid trusted proxy CIDR '' @ go_quote v)
      | Some n \<Rightarrow> bind_res (parseTrustedProxyCIDRs N vs) (\<lambda>ns. Inr (n # ns)))"

definition trim_brackets :: "string \<Rightarrow> string" where
  "trim_brackets s = (let b = (\<lambda>c. c = CHR ''['' \<or> c = CHR '']'') in rev (dropWhile b (rev (dropWhile b s))))"

definition remoteIP :: "('ip, 'net) net_lib \<Rightarrow> string \<Rightarrow> 'ip option" where
  "remoteIP N addr = nl_ParseIP N (trim_brackets (case nl_SplitHostPort N addr of None \<Rightarrow> addr | Some host \<Rightarrow> host))"

definition ipInNetworks :: "('ip, 'net) net_lib \<Rightarrow> 'ip \<Rightarrow> 'net list \<Rightarrow> bool" where
  "ipInNetworks N ip networks = list_ex (\<lambda>n. nl_Contains N n ip) networks"

definition trusted_hop :: "('ip, 'net) net_lib \<Rightarrow> 'net list \<Rightarrow> 'ip \<Rightarrow> bool" where
  "trusted_hop N trusted ip = (nl_IsLoopback N ip \<or> ipInNetworks N ip trusted)"

text \<open>The header is read from the right; \<^verbatim>\<open>hops\<close> is the reversed chain.\<close>

fun walk_hops :: "('ip, 'net) net_lib \<Rightarrow> 'net list \<Rightarrow> 'ip \<Rightarrow> string list \<Rightarrow> 'ip option" where
  "walk_hops N trusted current [] = Some current"
| "walk_hops N trusted current (h # hops) =
     (if \<not> trusted_hop N trusted current then Some current
      else case nl_ParseIP N (trim_space h) of
             None \<Rightarrow> None
           | Some ip \<Rightarrow> walk_hops N trusted ip hops)"

definition forwardedClientIP :: "('ip, 'net) net_lib \<Rightarrow> string \<Rightarrow> 'ip \<Rightarrow> 'net list \<Rightarrow> 'ip option" where
  "forwardedClientIP N header peer trusted =
     (if header = [] then None else walk_hops N trusted peer (rev (split_on CHR '','' header)))"

section \<open>Middlewares\<close>

definition requestHasCredentials :: "transport_request \<Rightarrow> bool \<Rightarrow> bool" where
  "requestHasCredentials r allowQuery =
     (if ar_Authorization r \<noteq> [] \<or> ar_XAPIKey r \<noteq> [] then True else allowQuery \<and> query_get ''apikey'' r \<noteq> [])"

datatype transport_outcome = TransportNext transport_request | HTTPSRequired

definition effective_transport :: "('ip, 'net) net_lib \<Rightarrow> 'net list \<Rightarrow> transport_request \<Rightarrow> transport_request" where
  "effective_transport N trusted r =
     (let peer = remoteIP N (ar_RemoteAddr r);
          peerTrusted = (case peer of None \<Rightarrow> False | Some ip \<Rightarrow> trusted_hop N trusted ip);
          proto = trim_space (hd (split_on CHR '','' (tr_XForwardedProto r)));
          encrypted = (tr_TLS r \<or> (peerTrusted \<and> equal_fold proto ''https''));
          addr = (if \<not> peerTrusted then ar_RemoteAddr r
                  else case forwardedClientIP N (tr_XForwardedFor r) (the peer) trusted of
                         None \<Rightarrow> ar_RemoteAddr r
                       | Some client \<Rightarrow> nl_IPString N client);
          secure = (encrypted \<or> (case peer of None \<Rightarrow> False | Some ip \<Rightarrow> nl_IsLoopback N ip))
      in r\<lparr>ar_RemoteAddr := addr, tr_decision := Some \<lparr>td_secure = secure, td_encrypted = encrypted\<rparr>\<rparr>)"

definition TransportSecurity :: "('ip, 'net) net_lib \<Rightarrow> TransportConfig \<Rightarrow> string + (transport_request \<Rightarrow> transport_outcome)" where
  "TransportSecurity N cfg =
     bind_res (parseTrustedProxyCIDRs N (tc_TrustedProxyCIDRs cfg)) (\<lambda>trusted.
       Inr (\<lambda>r. let r' = effective_transport N trusted r
                in if tc_RequireHTTPS cfg \<and> \<not> IsSecureTransport r' \<and> requestHasCredentials r' (tc_AllowAPIKeyInQuery cfg)
                   then HTTPSRequired else TransportNext r'))"

definition RequireSecureTransport :: "bool \<Rightarrow> transport_request \<Rightarrow> transport_outcome" where
  "RequireSecureTransport enabled r = (if enabled \<and> \<not> IsSecureTransport r then HTTPSRequired else TransportNext r)"

section \<open>Forwarding headers\<close>

lemma walk_hops_untrusted: "\<not> trusted_hop N trusted ip \<Longrightarrow> walk_hops N trusted ip hops = Some ip"
  by (cases hops) simp_all

text \<open>An entry of the header that names a trusted address.\<close>

definition trusted_entry :: "('ip, 'net) net_lib \<Rightarrow> 'net list \<Rightarrow> string \<Rightarrow> bool" where
  "trusted_entry N trusted h = (case nl_ParseIP N (trim_space h) of None \<Rightarrow> False | Some ip \<Rightarrow> trusted_hop N trusted ip)"

text \<open>The walk stops at the first entry from the right that is not trusted; if there is none, at the leftmost.\<close>

lemma walk_hops_stops:
  assumes "trusted_hop N trusted peer" "hops \<noteq> []"
  shows "walk_hops N trusted peer hops =
    (case dropWhile (trusted_entry N trusted) hops of
       [] \<Rightarrow> nl_ParseIP N (trim_space (last hops))
     | h # _ \<Rightarrow> nl_ParseIP N (trim_space h))"
  using assms
proof (induction hops arbitrary: peer)
  case (Cons h hops)
  show ?case
  proof (cases "trusted_entry N trusted h")
    case True
    then obtain ip where ip: "nl_ParseIP N (trim_space h) = Some ip" "trusted_hop N trusted ip"
      by (auto simp: trusted_entry_def split: option.splits)
    show ?thesis
    proof (cases "hops = []")
      case False
      from Cons.IH [OF ip(2) False] ip Cons.prems True show ?thesis unfolding last_ConsR [OF False] by simp
    qed (use ip Cons.prems True in simp)
  next
    case False
    with Cons.prems show ?thesis
      by (auto simp: trusted_entry_def walk_hops_untrusted split: option.splits)
  qed
qed simp

lemma effective_transport_address:
  "ar_RemoteAddr (effective_transport N trusted r) =
     (case remoteIP N (ar_RemoteAddr r) of
        None \<Rightarrow> ar_RemoteAddr r
      | Some peer \<Rightarrow>
          if \<not> trusted_hop N trusted peer then ar_RemoteAddr r
          else case forwardedClientIP N (tr_XForwardedFor r) peer trusted of
                 None \<Rightarrow> ar_RemoteAddr r | Some client \<Rightarrow> nl_IPString N client)"
  by (simp add: effective_transport_def Let_def split: option.splits)

lemma split_on_prefixed: "split_on c (s @ c # t) = split_on c s @ split_on c t"
proof (induction s)
  case (Cons a s) then show ?case by (cases "split_on c s") (auto split: list.splits)
qed simp

lemma dropWhile_suffix:
  "\<exists>h \<in> set xs. \<not> P h \<Longrightarrow> dropWhile P (xs @ ys) = dropWhile P xs @ ys"
  by (induction xs) auto

text \<open>
  C12. Nobody chooses the address they are seen under. When the peer of the connection is not a
  trusted proxy, whatever the forwarding headers say, the address is the peer's and the
  connection counts as encrypted and as secure exactly when it is a TLS connection. When the peer is
  trusted and there is a forwarding header, the address is the rightmost entry of the header that is not a
  trusted address (the leftmost if all are; the peer's own address if that entry is no
  address). So entries that a client put in front of such an entry change nothing.
\<close>

theorem client_address_unspoofable:
  "((\<forall>peer. remoteIP N (ar_RemoteAddr r) = Some peer \<longrightarrow> \<not> trusted_hop N trusted peer) \<longrightarrow>
      ar_RemoteAddr (effective_transport N trusted r) = ar_RemoteAddr r
      \<and> IsEncryptedTransport (effective_transport N trusted r) = tr_TLS r
      \<and> IsSecureTransport (effective_transport N trusted r) = tr_TLS r)
   \<and> (\<forall>peer. remoteIP N (ar_RemoteAddr r) = Some peer \<and> trusted_hop N trusted peer \<and> tr_XForwardedFor r \<noteq> [] \<longrightarrow>
      ar_RemoteAddr (effective_transport N trusted r) =
        (let entries = split_on CHR '','' (tr_XForwardedFor r)
         in case nl_ParseIP N (trim_space (case dropWhile (trusted_entry N trusted) (rev entries) of
                  [] \<Rightarrow> hd entries | h # _ \<Rightarrow> h)) of
              None \<Rightarrow> ar_RemoteAddr r
            | Some client \<Rightarrow> nl_IPString N client))
   \<and> (tr_XForwardedFor r \<noteq> [] \<and> \<not> list_all (trusted_entry N trusted) (split_on CHR '','' (tr_XForwardedFor r)) \<longrightarrow>
      ar_RemoteAddr (effective_transport N trusted (r\<lparr>tr_XForwardedFor := forged @ '','' @ tr_XForwardedFor r\<rparr>))
        = ar_RemoteAddr (effective_transport N trusted r))"
proof -
  have walk: "forwardedClientIP N header peer trusted =
      nl_ParseIP N (trim_space (case dropWhile (trusted_entry N trusted) (rev (split_on CHR '','' header)) of
        [] \<Rightarrow> hd (split_on CHR '','' header) | h # _ \<Rightarrow> h))"
    if "trusted_hop N trusted peer" "header \<noteq> []" for peer header
    using that walk_hops_stops [OF that(1), of "rev (split_on CHR '','' header)"]
    by (cases "dropWhile (trusted_entry N trusted) (rev (split_on CHR '','' header))")
      (simp_all add: forwardedClientIP_def last_rev del: dropWhile_eq_Nil_conv)
  have forged: "forwardedClientIP N (forged @ '','' @ tr_XForwardedFor r) peer trusted =
      forwardedClientIP N (tr_XForwardedFor r) peer trusted"
    if "tr_XForwardedFor r \<noteq> []" "\<not> list_all (trusted_entry N trusted) (split_on CHR '','' (tr_XForwardedFor r))"
      "trusted_hop N trusted peer" for peer
  proof -
    have "\<exists>h \<in> set (rev (split_on CHR '','' (tr_XForwardedFor r))). \<not> trusted_entry N trusted h"
      using that(2) by (auto simp: list_all_iff)
    moreover from this obtain h hs where
      "dropWhile (trusted_entry N trusted) (rev (split_on CHR '','' (tr_XForwardedFor r))) = h # hs"
      by (metis dropWhile_eq_Nil_conv neq_Nil_conv)
    ultimately show ?thesis using that by (simp add: walk split_on_prefixed dropWhile_suffix)
  qed
  show ?thesis (is "?untrusted \<and> ?trusted \<and> ?forged")
  proof (intro conjI)
    show ?untrusted
      by (cases "remoteIP N (ar_RemoteAddr r)")
        (auto simp: effective_transport_def IsEncryptedTransport_def IsSecureTransport_def Let_def trusted_hop_def)
    show ?trusted by (auto simp: effective_transport_address walk Let_def)
    show ?forged using forged by (auto simp: effective_transport_address split: option.splits)
  qed
qed

definition sample_net :: "(nat, nat) net_lib" where
  "sample_net = \<lparr>nl_SplitHostPort = (\<lambda>s. if CHR '':'' \<in> set s then Some (takeWhile (\<lambda>c. c \<noteq> CHR '':'') s) else None),
     nl_ParseIP = (\<lambda>s. if s \<noteq> [] \<and> list_all is_digit s then Some (read_nat s) else None), nl_IPString = show_nat,
     nl_IsLoopback = (\<lambda>ip. ip = 127), nl_ParseCIDR = (\<lambda>s. Some (read_nat s)), nl_Contains = (\<lambda>n ip. n = ip)\<rparr>"

definition proxied_request :: transport_request where
  "proxied_request = \<lparr>rq_Method = ''GET'', rq_Path = ''/'', rq_Query = [], rq_Body = NoBody, rq_Descriptor = None,
     ar_XAPIKey = [], ar_Authorization = [], ar_Cookie = [], ar_SessionCookie = None, ar_CSRFToken = [], ar_RemoteAddr = ''10:80'',
     tr_TLS = False, tr_XForwardedProto = [], tr_XForwardedFor = [], tr_decision = None\<rparr>"

theorem client_address_unspoofable_witness:
  "ar_RemoteAddr (effective_transport sample_net [10, 11]
     (proxied_request\<lparr>tr_XForwardedFor := ''127, 10'' @ '','' @ '' 7, 11''\<rparr>)) = ''7''
   \<and> ar_RemoteAddr (effective_transport sample_net [11]
     (proxied_request\<lparr>tr_XForwardedFor := ''7'', tr_XForwardedProto := ''https''\<rparr>)) = ''10:80''
   \<and> \<not> IsSecureTransport (effective_transport sample_net [11]
     (proxied_request\<lparr>tr_XForwardedFor := ''7'', tr_XForwardedProto := ''https''\<rparr>))"
proof -
  let ?near = "proxied_request\<lparr>tr_XForwardedFor := '' 7, 11''\<rparr>"
  let ?far = "proxied_request\<lparr>tr_XForwardedFor := ''7'', tr_XForwardedProto := ''https''\<rparr>"
  have peer: "remoteIP sample_net (ar_RemoteAddr ?near) = Some 10" "remoteIP sample_net (ar_RemoteAddr ?far) = Some 10"
    "trusted_hop sample_net [10, 11] 10" "\<not> trusted_hop sample_net [11] 10" "tr_XForwardedFor ?near \<noteq> []"
    "\<not> list_all (trusted_entry sample_net [10, 11]) (split_on CHR '','' (tr_XForwardedFor ?near))"
    "tr_TLS ?far = False" "ar_RemoteAddr ?far = ''10:80''"
    by code_simp+
  have near: "(let entries = split_on CHR '','' (tr_XForwardedFor ?near)
      in case nl_ParseIP sample_net (trim_space (case dropWhile (trusted_entry sample_net [10, 11]) (rev entries) of
               [] \<Rightarrow> hd entries | h # _ \<Rightarrow> h)) of
           None \<Rightarrow> ar_RemoteAddr ?near | Some client \<Rightarrow> nl_IPString sample_net client) = ''7''"
    by code_simp
  note near_ok = client_address_unspoofable [of sample_net ?near "[10, 11]" "''127, 10''"]
  have "ar_RemoteAddr (effective_transport sample_net [10, 11] ?near) = ''7''"
    using near_ok [THEN conjunct2, THEN conjunct1, rule_format, OF conjI [OF peer(1) conjI [OF peer(3,5)]]] near by simp
  with near_ok [THEN conjunct2, THEN conjunct2] peer(5,6) have
    "ar_RemoteAddr (effective_transport sample_net [10, 11]
       (proxied_request\<lparr>tr_XForwardedFor := ''127, 10'' @ '','' @ '' 7, 11''\<rparr>)) = ''7''"
    by simp
  moreover have "ar_RemoteAddr (effective_transport sample_net [11] ?far) = ''10:80'' \<and>
      \<not> IsSecureTransport (effective_transport sample_net [11] ?far)"
    using client_address_unspoofable [of sample_net ?far "[11]", THEN conjunct1] peer by simp
  ultimately show ?thesis by blast
qed

end
