(* ===== verification/Catalog_Store.thy ===== *)
theory Catalog_Store
  imports Auth_Store
begin

text \<open>
  The catalog tables of \<^verbatim>\<open>internal/store\<close>: workspaces, services, layers, coverages, layer groups and their
  dataset map selection (\<^verbatim>\<open>store_workspace.go\<close>, \<^verbatim>\<open>store_service.go\<close>, \<^verbatim>\<open>store_layer.go\<close>, \<^verbatim>\<open>store_coverage.go\<close>,
  \<^verbatim>\<open>store_layer_group.go\<close>, \<^verbatim>\<open>dataset_map.go\<close>), and the durable deletion operations (\<^verbatim>\<open>store_deletion.go\<close>).
  Tables are lists of rows, a function is one transaction or one critical section. Columns that the
  code only carries along (titles, styles, extents) are one JSON value. Fresh identifiers and the
  clock are arguments. The credential tables are those of \<open>Auth_Store\<close>.
\<close>

section \<open>Rows\<close>

record Workspace =
  ws_ID :: string
  ws_Name :: string
  ws_Description :: string
  ws_CreatedAt :: instant
  ws_UpdatedAt :: instant
  ws_DatasetMapLayerGroupID :: string
  ws_TileRevision :: int
  ws_CapabilitiesRevision :: int

record Service =
  sv_ID :: string
  sv_WorkspaceID :: string
  sv_Name :: string
  sv_Type :: string
  sv_ConnectionInfo :: string
  sv_CacheSettings :: "json option"
  sv_Enabled :: bool
  sv_CreatedAt :: instant
  sv_UpdatedAt :: instant

record Layer =
  ly_ID :: string
  ly_ServiceID :: string
  ly_SourceLayer :: string
  ly_PublicID :: string
  ly_AllowedRoles :: "string list"
  ly_CRSDefault :: int
  ly_TileCacheGeneration :: int
  ly_Metadata :: json
  ly_CreatedAt :: instant
  ly_UpdatedAt :: instant

record Coverage =
  cv_ID :: string
  cv_WorkspaceID :: string
  cv_ServiceID :: string
  cv_SourceCoverage :: string
  cv_PublicID :: string
  cv_AllowedRoles :: "string list"
  cv_TileCacheGeneration :: int
  cv_Metadata :: json
  cv_CreatedAt :: instant
  cv_UpdatedAt :: instant

record LayerGroupMember =
  gm_Resource :: string
  gm_Style :: string
  gm_Opacity :: "string option"
  gm_Composite :: string

record LayerGroup =
  lg_ID :: string
  lg_WorkspaceID :: string
  lg_PublicID :: string
  lg_AllowedRoles :: "string list"
  lg_Members :: "LayerGroupMember list"
  lg_TileCacheGeneration :: int
  lg_Metadata :: json
  lg_CreatedAt :: instant
  lg_UpdatedAt :: instant

record owned_row =
  or_ID :: string
  or_WorkspaceID :: string
  or_Name :: string

record WFSStoredQuery =
  sq_ID :: string
  sq_WorkspaceID :: string
  sq_QueryID :: string
  sq_QueryExpression :: string
  sq_ReturnTypes :: "string list"

record ManagedAsset =
  ma_ImportID :: string
  ma_WorkspaceID :: string
  ma_ServiceID :: "string option"
  ma_Path :: string
  ma_EncryptionKey :: string
  ma_CreatedAt :: instant

section \<open>Deletion operations\<close>

datatype DeletionScope = DeletionScopeWorkspace | DeletionScopeService

datatype DeletionStatus = DeletionPending | DeletionRunning | DeletionFailed | DeletionCompleted

datatype DeletionPhase =
  DeletionPhasePlanned | DeletionPhaseTombstoned | DeletionPhaseJobsQuiesced | DeletionPhaseAuxiliaryRemoved
| DeletionPhaseCatalogCommitted | DeletionPhaseRuntimeCleared | DeletionPhaseCompleted

record DeletionRef =
  dr_ID :: string
  dr_Name :: string
  dr_Kind :: string
  dr_Reason :: string

record DeletionAuxiliary =
  da_STACCollections :: int
  da_STACItems :: int
  da_TileEntries :: int
  da_TileBytes :: int
  da_TileJobs :: int
  da_MosaicGranules :: int
  da_MosaicJobs :: int
  da_MosaicServices :: int
  da_ManagedAssets :: int

record DeletionPlan =
  dp_Blockers :: "DeletionRef list"
  dp_Scope :: DeletionScope
  dp_WorkspaceID :: string
  dp_Target :: DeletionRef
  dp_Services :: "DeletionRef list"
  dp_Layers :: "DeletionRef list"
  dp_Coverages :: "DeletionRef list"
  dp_LayerGroups :: "DeletionRef list"
  dp_Styles :: "DeletionRef list"
  dp_StyleAssets :: "DeletionRef list"
  dp_APIKeys :: "DeletionRef list"
  dp_StoredQueries :: "DeletionRef list"
  dp_ClaimMappings :: "DeletionRef list"
  dp_Policies :: "DeletionRef list"
  dp_Auxiliary :: DeletionAuxiliary

record DeletionOperation =
  do_ID :: string
  do_Scope :: DeletionScope
  do_WorkspaceID :: string
  do_TargetID :: string
  do_TargetName :: string
  do_Status :: DeletionStatus
  do_Phase :: DeletionPhase
  do_Plan :: DeletionPlan
  do_LastError :: string
  do_AttemptCount :: nat
  do_CreatedAt :: instant
  do_UpdatedAt :: instant
  do_CompletedAt :: "instant option"

record catalog_db =
  cd_auth :: auth_db
  cd_workspaces :: "Workspace list"
  cd_services :: "Service list"
  cd_layers :: "Layer list"
  cd_coverages :: "Coverage list"
  cd_groups :: "LayerGroup list"
  cd_styles :: "owned_row list"
  cd_style_assets :: "owned_row list"
  cd_queries :: "WFSStoredQuery list"
  cd_data_revisions :: "(string \<times> int \<times> bool) list"
  cd_managed :: "ManagedAsset list"
  cd_deletions :: "DeletionOperation list"

datatype catalog_error =
  DbErr db_error | ErrDatasetMapInUse | ErrInvalidDatasetMap | ErrGroupResourceDeleting
| DeletionConflict DeletionPlan | OtherError string

abbreviation NotFound :: catalog_error where "NotFound \<equiv> DbErr ErrNotFound"

type_synonym 'a result = "catalog_error + 'a"

definition active :: "DeletionOperation \<Rightarrow> bool" where
  "active op = (do_Status op \<in> {DeletionPending, DeletionRunning, DeletionFailed})"

text \<open>The condition of every catalog read: no active deletion of the row.\<close>

definition tombstoned :: "DeletionScope \<Rightarrow> string \<Rightarrow> catalog_db \<Rightarrow> bool" where
  "tombstoned scope target db = (\<exists>op \<in> set (cd_deletions db). do_Scope op = scope \<and> do_TargetID op = target \<and> active op)"

section \<open>Workspaces\<close>

definition CreateWorkspace :: "string \<Rightarrow> instant \<Rightarrow> string \<Rightarrow> string \<Rightarrow> catalog_db \<Rightarrow> Workspace result \<times> catalog_db" where
  "CreateWorkspace uuid now name description db =
     (if uuid \<in> ws_ID ` set (cd_workspaces db) \<or> name \<in> ws_Name ` set (cd_workspaces db) then (Inl (DbErr ErrDuplicateKey), db)
      else let w = \<lparr>ws_ID = uuid, ws_Name = name, ws_Description = description, ws_CreatedAt = now, ws_UpdatedAt = now,
                    ws_DatasetMapLayerGroupID = [], ws_TileRevision = 1, ws_CapabilitiesRevision = 1\<rparr>
           in (Inr w, db\<lparr>cd_workspaces := cd_workspaces db @ [w]\<rparr>))"

definition GetWorkspace :: "string \<Rightarrow> catalog_db \<Rightarrow> Workspace result" where
  "GetWorkspace wid db =
     (case find (\<lambda>w. ws_ID w = wid \<and> \<not> tombstoned DeletionScopeWorkspace (ws_ID w) db) (cd_workspaces db) of
        None \<Rightarrow> Inl NotFound | Some w \<Rightarrow> Inr w)"

definition GetWorkspaceByName :: "string \<Rightarrow> catalog_db \<Rightarrow> Workspace result" where
  "GetWorkspaceByName name db =
     (case find (\<lambda>w. ws_Name w = name \<and> \<not> tombstoned DeletionScopeWorkspace (ws_ID w) db) (cd_workspaces db) of
        None \<Rightarrow> Inl NotFound | Some w \<Rightarrow> Inr w)"

definition ListWorkspaces :: "catalog_db \<Rightarrow> Workspace list" where
  "ListWorkspaces db = sort_key ws_Name (filter (\<lambda>w. \<not> tombstoned DeletionScopeWorkspace (ws_ID w) db) (cd_workspaces db))"

definition UpdateWorkspace :: "instant \<Rightarrow> string \<Rightarrow> string option \<Rightarrow> string option \<Rightarrow> catalog_db \<Rightarrow> Workspace result \<times> catalog_db" where
  "UpdateWorkspace now wid name description db =
     (case GetWorkspace wid db of
        Inl e \<Rightarrow> (Inl e, db)
      | Inr w0 \<Rightarrow>
          let w = w0\<lparr>ws_Name := (case name of None \<Rightarrow> ws_Name w0 | Some n \<Rightarrow> n),
                     ws_Description := (case description of None \<Rightarrow> ws_Description w0 | Some d \<Rightarrow> d), ws_UpdatedAt := now\<rparr>
          in if \<exists>v \<in> set (cd_workspaces db). ws_Name v = ws_Name w \<and> ws_ID v \<noteq> wid then (Inl (DbErr ErrDuplicateKey), db)
             else (Inr w, db\<lparr>cd_workspaces := map (\<lambda>v. if ws_ID v = wid
                     then v\<lparr>ws_Name := ws_Name w, ws_Description := ws_Description w, ws_UpdatedAt := now,
                            ws_CapabilitiesRevision := ws_CapabilitiesRevision v + 1\<rparr> else v) (cd_workspaces db)\<rparr>))"

text \<open>The capabilities sequence of a workspace, bumped in the transaction of every change below it.\<close>

definition bump_capabilities :: "string \<Rightarrow> catalog_db \<Rightarrow> catalog_db" where
  "bump_capabilities wid db =
     db\<lparr>cd_workspaces := map (\<lambda>w. if ws_ID w = wid then w\<lparr>ws_CapabilitiesRevision := ws_CapabilitiesRevision w + 1\<rparr> else w) (cd_workspaces db)\<rparr>"

definition bump_tiles :: "string \<Rightarrow> catalog_db \<Rightarrow> catalog_db" where
  "bump_tiles wid db =
     db\<lparr>cd_workspaces := map (\<lambda>w. if ws_ID w = wid then w\<lparr>ws_TileRevision := ws_TileRevision w + 1\<rparr> else w) (cd_workspaces db)\<rparr>"

text \<open>\<open>owner\<close> is the answer of the selector, \<open>change\<close> the statement; no owner means no change.\<close>

definition execCapabilitiesMutation :: "string option \<Rightarrow> (catalog_db \<Rightarrow> 'a result \<times> catalog_db) \<Rightarrow> catalog_db \<Rightarrow> 'a result \<times> catalog_db" where
  "execCapabilitiesMutation owner change db =
     (case owner of
        None \<Rightarrow> (Inl NotFound, db)
      | Some wid \<Rightarrow> (case change db of (Inl e, _) \<Rightarrow> (Inl e, db) | (Inr x, db') \<Rightarrow> (Inr x, bump_capabilities wid db')))"

definition workspace_owner :: "string \<Rightarrow> catalog_db \<Rightarrow> string option" where
  "workspace_owner wid db = (if wid \<in> ws_ID ` set (cd_workspaces db) then Some wid else None)"

definition service_owner :: "string \<Rightarrow> catalog_db \<Rightarrow> string option" where
  "service_owner sid db = map_option sv_WorkspaceID (find (\<lambda>s. sv_ID s = sid) (cd_services db))"

section \<open>Services\<close>

record CreateServiceInput =
  si_WorkspaceID :: string
  si_Name :: string
  si_Type :: string
  si_ConnectionInfo :: string
  si_CacheSettings :: "json option"
  si_Enabled :: bool

definition CreateService :: "string \<Rightarrow> instant \<Rightarrow> CreateServiceInput \<Rightarrow> catalog_db \<Rightarrow> Service result \<times> catalog_db" where
  "CreateService uuid now inp db =
     execCapabilitiesMutation (workspace_owner (si_WorkspaceID inp) db) (\<lambda>db.
       if \<exists>s \<in> set (cd_services db). sv_ID s = uuid \<or> (sv_WorkspaceID s = si_WorkspaceID inp \<and> sv_Name s = si_Name inp)
       then (Inl (DbErr ErrConstraint), db)
       else let s = \<lparr>sv_ID = uuid, sv_WorkspaceID = si_WorkspaceID inp, sv_Name = si_Name inp, sv_Type = si_Type inp,
                     sv_ConnectionInfo = si_ConnectionInfo inp, sv_CacheSettings = si_CacheSettings inp, sv_Enabled = si_Enabled inp,
                     sv_CreatedAt = now, sv_UpdatedAt = now\<rparr>
            in (Inr s, db\<lparr>cd_services := cd_services db @ [s\<lparr>sv_ConnectionInfo := if si_ConnectionInfo inp = [] then ''{}'' else si_ConnectionInfo inp\<rparr>]\<rparr>)) db"

definition service_visible :: "catalog_db \<Rightarrow> Service \<Rightarrow> bool" where
  "service_visible db s = (\<not> tombstoned DeletionScopeService (sv_ID s) db \<and> \<not> tombstoned DeletionScopeWorkspace (sv_WorkspaceID s) db)"

definition GetService :: "string \<Rightarrow> catalog_db \<Rightarrow> Service result" where
  "GetService sid db =
     (case find (\<lambda>s. sv_ID s = sid \<and> service_visible db s) (cd_services db) of None \<Rightarrow> Inl NotFound | Some s \<Rightarrow> Inr s)"

definition ListServices :: "string \<Rightarrow> catalog_db \<Rightarrow> Service list" where
  "ListServices wid db = sort_key sv_Name (filter (\<lambda>s. sv_WorkspaceID s = wid \<and> service_visible db s) (cd_services db))"

record UpdateServiceInput =
  su_Name :: "string option"
  su_ConnectionInfo :: "string option"
  su_CacheSettings :: "json option"
  su_Enabled :: "bool option"

definition UpdateService :: "instant \<Rightarrow> string \<Rightarrow> UpdateServiceInput \<Rightarrow> catalog_db \<Rightarrow> Service result \<times> catalog_db" where
  "UpdateService now sid inp db =
     (case GetService sid db of
        Inl e \<Rightarrow> (Inl e, db)
      | Inr s0 \<Rightarrow>
          let s = s0\<lparr>sv_Name := (case su_Name inp of None \<Rightarrow> sv_Name s0 | Some n \<Rightarrow> n),
                     sv_ConnectionInfo := (case su_ConnectionInfo inp of None \<Rightarrow> sv_ConnectionInfo s0 | Some c \<Rightarrow> c),
                     sv_Enabled := (case su_Enabled inp of None \<Rightarrow> sv_Enabled s0 | Some b \<Rightarrow> b),
                     sv_CacheSettings := (case su_CacheSettings inp of None \<Rightarrow> sv_CacheSettings s0 | Some c \<Rightarrow> Some c),
                     sv_UpdatedAt := now\<rparr>
          in if \<exists>v \<in> set (cd_services db). sv_ID v \<noteq> sid \<and> sv_WorkspaceID v = sv_WorkspaceID s \<and> sv_Name v = sv_Name s
             then (Inl (DbErr ErrDuplicateKey), db)
             else (Inr s, bump_tiles (sv_WorkspaceID s) (bump_capabilities (sv_WorkspaceID s)
                    (db\<lparr>cd_services := map (\<lambda>v. if sv_ID v = sid
                          then s\<lparr>sv_ConnectionInfo := if sv_ConnectionInfo s = [] then ''{}'' else sv_ConnectionInfo s\<rparr> else v) (cd_services db)\<rparr>))))"

section \<open>Layers and coverages\<close>

record CreateLayerInput =
  li_ServiceID :: string
  li_SourceLayer :: string
  li_PublicID :: string
  li_AllowedRoles :: "string list"
  li_CRSDefault :: int
  li_Metadata :: json

definition CreateLayer :: "string \<Rightarrow> instant \<Rightarrow> CreateLayerInput \<Rightarrow> catalog_db \<Rightarrow> Layer result \<times> catalog_db" where
  "CreateLayer uuid now inp db =
     (case checkRoleAssignments (li_AllowedRoles inp) (cd_auth db) of
        Some e \<Rightarrow> (Inl (DbErr e), db)
      | None \<Rightarrow> execCapabilitiesMutation (service_owner (li_ServiceID inp) db) (\<lambda>db.
          if \<exists>l \<in> set (cd_layers db). ly_ID l = uuid \<or> (ly_ServiceID l = li_ServiceID inp \<and> ly_PublicID l = li_PublicID inp)
          then (Inl (DbErr ErrConstraint), db)
          else let l = \<lparr>ly_ID = uuid, ly_ServiceID = li_ServiceID inp, ly_SourceLayer = li_SourceLayer inp, ly_PublicID = li_PublicID inp,
                        ly_AllowedRoles = li_AllowedRoles inp, ly_CRSDefault = (if li_CRSDefault inp = 0 then 4326 else li_CRSDefault inp),
                        ly_TileCacheGeneration = 1, ly_Metadata = li_Metadata inp, ly_CreatedAt = now, ly_UpdatedAt = now\<rparr>
               in (Inr l, db\<lparr>cd_layers := cd_layers db @ [l]\<rparr>)) db)"

definition GetLayer :: "string \<Rightarrow> catalog_db \<Rightarrow> Layer result" where
  "GetLayer lid db = (case find (\<lambda>l. ly_ID l = lid) (cd_layers db) of None \<Rightarrow> Inl NotFound | Some l \<Rightarrow> Inr l)"

definition GetLayerByPublicID :: "string \<Rightarrow> string \<Rightarrow> catalog_db \<Rightarrow> Layer result" where
  "GetLayerByPublicID sid pid db =
     (case find (\<lambda>l. ly_ServiceID l = sid \<and> ly_PublicID l = pid) (cd_layers db) of None \<Rightarrow> Inl NotFound | Some l \<Rightarrow> Inr l)"

definition ListLayers :: "string \<Rightarrow> catalog_db \<Rightarrow> Layer list" where
  "ListLayers sid db = sort_key ly_PublicID (filter (\<lambda>l. ly_ServiceID l = sid) (cd_layers db))"

definition layer_owner :: "string \<Rightarrow> catalog_db \<Rightarrow> string option" where
  "layer_owner lid db = (case find (\<lambda>l. ly_ID l = lid) (cd_layers db) of None \<Rightarrow> None | Some l \<Rightarrow> service_owner (ly_ServiceID l) db)"

definition DeleteLayer :: "string \<Rightarrow> catalog_db \<Rightarrow> unit result \<times> catalog_db" where
  "DeleteLayer lid db =
     execCapabilitiesMutation (layer_owner lid db) (\<lambda>db. (Inr (), db\<lparr>cd_layers := filter (\<lambda>l. ly_ID l \<noteq> lid) (cd_layers db)\<rparr>)) db"

record CreateCoverageInput =
  ci_WorkspaceID :: string
  ci_ServiceID :: string
  ci_SourceCoverage :: string
  ci_PublicID :: string
  ci_AllowedRoles :: "string list"
  ci_Metadata :: json

definition coverage_clash :: "string \<Rightarrow> string \<Rightarrow> CreateCoverageInput \<Rightarrow> Coverage \<Rightarrow> bool" where
  "coverage_clash uuid wid inp c =
     (cv_ID c = uuid \<or> (cv_ServiceID c = ci_ServiceID inp \<and> (cv_PublicID c = ci_PublicID inp \<or> cv_SourceCoverage c = ci_SourceCoverage inp))
      \<or> (cv_WorkspaceID c = wid \<and> cv_PublicID c = ci_PublicID inp))"

definition CreateCoverage :: "string \<Rightarrow> instant \<Rightarrow> CreateCoverageInput \<Rightarrow> catalog_db \<Rightarrow> Coverage result \<times> catalog_db" where
  "CreateCoverage uuid now inp db =
     (case checkRoleAssignments (ci_AllowedRoles inp) (cd_auth db) of
        Some e \<Rightarrow> (Inl (DbErr e), db)
      | None \<Rightarrow>
          (case (if ci_WorkspaceID inp = [] then service_owner (ci_ServiceID inp) db else Some (ci_WorkspaceID inp)) of
             None \<Rightarrow> (Inl NotFound, db)
           | Some wid \<Rightarrow> execCapabilitiesMutation (service_owner (ci_ServiceID inp) db) (\<lambda>db.
               if list_ex (coverage_clash uuid wid inp) (cd_coverages db) then (Inl (DbErr ErrDuplicateKey), db)
               else let c = \<lparr>cv_ID = uuid, cv_WorkspaceID = wid, cv_ServiceID = ci_ServiceID inp, cv_SourceCoverage = ci_SourceCoverage inp,
                             cv_PublicID = ci_PublicID inp, cv_AllowedRoles = ci_AllowedRoles inp, cv_TileCacheGeneration = 1,
                             cv_Metadata = ci_Metadata inp, cv_CreatedAt = now, cv_UpdatedAt = now\<rparr>
                    in (Inr c, db\<lparr>cd_coverages := cd_coverages db @ [c]\<rparr>)) db))"

definition GetCoverage :: "string \<Rightarrow> catalog_db \<Rightarrow> Coverage result" where
  "GetCoverage cid db = (case find (\<lambda>c. cv_ID c = cid) (cd_coverages db) of None \<Rightarrow> Inl NotFound | Some c \<Rightarrow> Inr c)"

definition GetCoverageByPublicID :: "string \<Rightarrow> string \<Rightarrow> catalog_db \<Rightarrow> Coverage result" where
  "GetCoverageByPublicID wid pid db =
     (case find (\<lambda>c. cv_WorkspaceID c = wid \<and> cv_PublicID c = pid) (cd_coverages db) of None \<Rightarrow> Inl NotFound | Some c \<Rightarrow> Inr c)"

definition ListCoverages :: "string \<Rightarrow> catalog_db \<Rightarrow> Coverage list" where
  "ListCoverages sid db = sort_key cv_PublicID (filter (\<lambda>c. cv_ServiceID c = sid) (cd_coverages db))"

definition DeleteCoverage :: "string \<Rightarrow> catalog_db \<Rightarrow> unit result \<times> catalog_db" where
  "DeleteCoverage cid db =
     execCapabilitiesMutation (map_option cv_WorkspaceID (find (\<lambda>c. cv_ID c = cid) (cd_coverages db)))
       (\<lambda>db. (Inr (), db\<lparr>cd_coverages := filter (\<lambda>c. cv_ID c \<noteq> cid) (cd_coverages db)\<rparr>)) db"

section \<open>Publication of an import\<close>

text \<open>The writes of \<^verbatim>\<open>PublishImport\<close> (\<^verbatim>\<open>store_import.go\<close>) to the tables of the catalog: the service, its layers, the owner of
  the managed database and the revisions of the workspace. Neither the workspace nor the roles are
  looked up. \<open>sid\<close> and \<open>lids\<close> are the fresh identifiers.\<close>

record PublishImportInput =
  pi_ImportID :: string
  pi_WorkspaceID :: string
  pi_ManagedPath :: string
  pi_EncryptionKey :: string
  pi_Service :: CreateServiceInput
  pi_Layers :: "CreateLayerInput list"

text \<open>An upsert by import: the row is replaced as \<open>f\<close> says, or appended; the unique columns may refuse it.\<close>

definition upsert_asset :: "(ManagedAsset \<Rightarrow> ManagedAsset) \<Rightarrow> ManagedAsset \<Rightarrow> catalog_db \<Rightarrow> catalog_db option" where
  "upsert_asset f new db =
     (let rows = cd_managed db; i = ma_ImportID new;
          rows' = (if i \<in> ma_ImportID ` set rows then map (\<lambda>a. if ma_ImportID a = i then f a else a) rows else rows @ [new])
      in if distinct (map ma_Path rows') \<and> distinct (filter (\<lambda>s. s \<noteq> None) (map ma_ServiceID rows')) then Some (db\<lparr>cd_managed := rows'\<rparr>) else None)"

definition publish_layer :: "instant \<Rightarrow> string \<Rightarrow> string \<Rightarrow> CreateLayerInput \<Rightarrow> Layer" where
  "publish_layer now sid uuid inp =
     \<lparr>ly_ID = uuid, ly_ServiceID = sid, ly_SourceLayer = li_SourceLayer inp, ly_PublicID = li_PublicID inp, ly_AllowedRoles = li_AllowedRoles inp,
      ly_CRSDefault = (if li_CRSDefault inp = 0 then 4326 else li_CRSDefault inp), ly_TileCacheGeneration = 1, ly_Metadata = li_Metadata inp,
      ly_CreatedAt = now, ly_UpdatedAt = now\<rparr>"

fun insert_layers :: "Layer list \<Rightarrow> Layer list \<Rightarrow> Layer list option" where
  "insert_layers rows [] = Some rows"
| "insert_layers rows (l # ls) =
     (if \<exists>r \<in> set rows. ly_ID r = ly_ID l \<or> (ly_ServiceID r = ly_ServiceID l \<and> ly_PublicID r = ly_PublicID l) then None
      else insert_layers (rows @ [l]) ls)"

definition publish_service :: "instant \<Rightarrow> string \<Rightarrow> PublishImportInput \<Rightarrow> Service" where
  "publish_service now sid inp =
     \<lparr>sv_ID = sid, sv_WorkspaceID = pi_WorkspaceID inp, sv_Name = si_Name (pi_Service inp), sv_Type = si_Type (pi_Service inp),
      sv_ConnectionInfo = si_ConnectionInfo (pi_Service inp), sv_CacheSettings = si_CacheSettings (pi_Service inp),
      sv_Enabled = si_Enabled (pi_Service inp), sv_CreatedAt = now, sv_UpdatedAt = now\<rparr>"

definition publish_catalog :: "instant \<Rightarrow> string \<Rightarrow> string list \<Rightarrow> PublishImportInput \<Rightarrow> catalog_db
    \<Rightarrow> (Service \<times> Layer list) result \<times> catalog_db" where
  "publish_catalog now sid lids inp cat =
     (let wid = pi_WorkspaceID inp; svc = publish_service now sid inp;
          row = svc\<lparr>sv_ConnectionInfo := if sv_ConnectionInfo svc = [] then ''{}'' else sv_ConnectionInfo svc\<rparr>;
          layers = map2 (publish_layer now sid) lids (pi_Layers inp);
          asset = \<lparr>ma_ImportID = pi_ImportID inp, ma_WorkspaceID = wid, ma_ServiceID = Some sid, ma_Path = pi_ManagedPath inp,
                   ma_EncryptionKey = pi_EncryptionKey inp, ma_CreatedAt = now\<rparr>;
          own = (\<lambda>a. a\<lparr>ma_WorkspaceID := wid, ma_ServiceID := Some sid, ma_Path := pi_ManagedPath inp, ma_EncryptionKey := pi_EncryptionKey inp\<rparr>);
          bump = map (\<lambda>w. if ws_ID w = wid then w\<lparr>ws_CapabilitiesRevision := ws_CapabilitiesRevision w + 1, ws_TileRevision := ws_TileRevision w + 1,
                                               ws_UpdatedAt := now\<rparr> else w)
      in if \<exists>s \<in> set (cd_services cat). sv_ID s = sid \<or> (sv_WorkspaceID s = wid \<and> sv_Name s = sv_Name svc)
         then (Inl (DbErr ErrDuplicateKey), cat)
         else case insert_layers (cd_layers cat) layers of
                None \<Rightarrow> (Inl (DbErr ErrConstraint), cat)
              | Some ls \<Rightarrow>
                  (case upsert_asset own asset (cat\<lparr>cd_services := cd_services cat @ [row], cd_layers := ls\<rparr>) of
                     None \<Rightarrow> (Inl (DbErr ErrConstraint), cat)
                   | Some cat1 \<Rightarrow> (Inr (svc, layers), cat1\<lparr>cd_workspaces := bump (cd_workspaces cat1)\<rparr>)))"

text \<open>A publication adds one service, of the workspace it names, and otherwise keeps the identifiers of services and
  workspaces.\<close>

lemma publish_catalog_cases:
  assumes "publish_catalog now sid lids inp db = (r, db')"
  obtains "db' = db"
  | svc ls ms f where "sv_ID svc = sid" "sv_WorkspaceID svc = pi_WorkspaceID inp" "sid \<notin> sv_ID ` set (cd_services db)"
      "db' = db\<lparr>cd_services := cd_services db @ [svc], cd_layers := ls, cd_managed := ms, cd_workspaces := map f (cd_workspaces db)\<rparr>"
      "\<And>w. ws_ID (f w) = ws_ID w" "\<And>w. ws_DatasetMapLayerGroupID (f w) = ws_DatasetMapLayerGroupID w"
proof (cases "db' = db")
  case False
  with assms show ?thesis
    by (intro that(2) [of "(publish_service now sid inp)\<lparr>sv_ConnectionInfo := if sv_ConnectionInfo (publish_service now sid inp) = [] then ''{}'' else sv_ConnectionInfo (publish_service now sid inp)\<rparr>"
          "\<lambda>w. if ws_ID w = pi_WorkspaceID inp then w\<lparr>ws_CapabilitiesRevision := ws_CapabilitiesRevision w + 1, ws_TileRevision := ws_TileRevision w + 1,
             ws_UpdatedAt := now\<rparr> else w" "cd_managed db'" "cd_layers db'"])
      (auto simp: publish_catalog_def Let_def publish_service_def upsert_asset_def split: if_splits option.splits)
qed (rule that(1))

end
