(* ===== verification/Catalog_Deletion.thy ===== *)
theory Catalog_Deletion
  imports Catalog_Store
begin

text \<open>
  Layer groups with the dataset map selection, deletion plans, and the durable deletion operations
  (\<^verbatim>\<open>store_layer_group.go\<close>, \<^verbatim>\<open>dataset_map.go\<close>, \<^verbatim>\<open>store_deletion.go\<close>, and the deletes of
  \<^verbatim>\<open>store_workspace.go\<close> and \<^verbatim>\<open>store_service.go\<close>). A plan is stored as JSON and read back unchanged. The rows of
  the policy table are numbered by their position.
\<close>

section \<open>Plans\<close>

definition no_auxiliary :: DeletionAuxiliary where
  "no_auxiliary = \<lparr>da_STACCollections = 0, da_STACItems = 0, da_TileEntries = 0, da_TileBytes = 0, da_TileJobs = 0, da_MosaicGranules = 0,
     da_MosaicJobs = 0, da_MosaicServices = 0, da_ManagedAssets = 0\<rparr>"

definition empty_plan :: "DeletionScope \<Rightarrow> string \<Rightarrow> DeletionRef \<Rightarrow> DeletionPlan" where
  "empty_plan scope wid target = \<lparr>dp_Blockers = [], dp_Scope = scope, dp_WorkspaceID = wid, dp_Target = target, dp_Services = [], dp_Layers = [],
     dp_Coverages = [], dp_LayerGroups = [], dp_Styles = [], dp_StyleAssets = [], dp_APIKeys = [], dp_StoredQueries = [],
     dp_ClaimMappings = [], dp_Policies = [], dp_Auxiliary = no_auxiliary\<rparr>"

definition HasDependencies :: "DeletionPlan \<Rightarrow> bool" where
  "HasDependencies p =
     (length (dp_Blockers p) + length (dp_Services p) + length (dp_Layers p) + length (dp_Coverages p) + length (dp_LayerGroups p)
        + length (dp_Styles p) + length (dp_StyleAssets p) + length (dp_APIKeys p) + length (dp_StoredQueries p)
        + length (dp_ClaimMappings p) + length (dp_Policies p) > 0
      \<or> (let a = dp_Auxiliary p in da_STACCollections a > 0 \<or> da_STACItems a > 0 \<or> da_TileEntries a > 0 \<or> da_TileJobs a > 0
           \<or> da_MosaicGranules a > 0 \<or> da_MosaicJobs a > 0 \<or> da_MosaicServices a > 0 \<or> da_ManagedAssets a > 0))"

definition sort_refs :: "DeletionRef list \<Rightarrow> DeletionRef list" where
  "sort_refs = sort_key (\<lambda>r. (dr_Kind r, dr_Name r, dr_ID r))"

definition sort_plan :: "DeletionPlan \<Rightarrow> DeletionPlan" where
  "sort_plan p = p\<lparr>dp_Blockers := sort_refs (dp_Blockers p), dp_Services := sort_refs (dp_Services p), dp_Layers := sort_refs (dp_Layers p),
     dp_Coverages := sort_refs (dp_Coverages p), dp_LayerGroups := sort_refs (dp_LayerGroups p), dp_Styles := sort_refs (dp_Styles p),
     dp_StyleAssets := sort_refs (dp_StyleAssets p), dp_APIKeys := sort_refs (dp_APIKeys p), dp_StoredQueries := sort_refs (dp_StoredQueries p),
     dp_ClaimMappings := sort_refs (dp_ClaimMappings p), dp_Policies := sort_refs (dp_Policies p)\<rparr>"

definition deletionRefs :: "string \<Rightarrow> string \<Rightarrow> (string \<times> string) list \<Rightarrow> DeletionRef list" where
  "deletionRefs kind reason rows = map (\<lambda>(i, n). \<lparr>dr_ID = i, dr_Name = n, dr_Kind = kind, dr_Reason = reason\<rparr>) rows"

definition policy_rows :: "string \<Rightarrow> catalog_db \<Rightarrow> (string \<times> string) list" where
  "policy_rows wid db =
     map (\<lambda>(i, r). (show_nat i, cr_PType r @ '':'' @ cr_V0 r @ '':'' @ cr_V2 r))
       (filter (\<lambda>(_, r). cr_V1 r = wid) (enumerate 0 (db_policies (cd_auth db))))"

definition workspace_services :: "string \<Rightarrow> catalog_db \<Rightarrow> Service list" where
  "workspace_services wid db = filter (\<lambda>s. sv_WorkspaceID s = wid) (cd_services db)"

definition PlanWorkspaceDeletion :: "string \<Rightarrow> catalog_db \<Rightarrow> DeletionPlan result" where
  "PlanWorkspaceDeletion wid db =
     (case GetWorkspace wid db of
        Inl e \<Rightarrow> Inl e
      | Inr w \<Rightarrow>
          let owned = (\<lambda>t. map (\<lambda>x. (or_ID x, or_Name x)) (filter (\<lambda>x. or_WorkspaceID x = wid) t))
          in Inr (sort_plan ((empty_plan DeletionScopeWorkspace wid \<lparr>dr_ID = ws_ID w, dr_Name = ws_Name w, dr_Kind = ''workspace'', dr_Reason = []\<rparr>)
            \<lparr>dp_Services := deletionRefs ''service'' ''owned by workspace'' (map (\<lambda>s. (sv_ID s, sv_Name s)) (workspace_services wid db)),
             dp_Layers := deletionRefs ''layer'' ''owned by workspace service''
               (map (\<lambda>l. (ly_ID l, ly_PublicID l)) (filter (\<lambda>l. ly_ServiceID l \<in> sv_ID ` set (workspace_services wid db)) (cd_layers db))),
             dp_Coverages := deletionRefs ''coverage'' ''owned by workspace''
               (map (\<lambda>c. (cv_ID c, cv_PublicID c)) (filter (\<lambda>c. cv_WorkspaceID c = wid) (cd_coverages db))),
             dp_LayerGroups := deletionRefs ''layer_group'' ''owned by workspace''
               (map (\<lambda>g. (lg_ID g, lg_PublicID g)) (filter (\<lambda>g. lg_WorkspaceID g = wid) (cd_groups db))),
             dp_Styles := deletionRefs ''style'' ''owned by workspace'' (owned (cd_styles db)),
             dp_StyleAssets := deletionRefs ''style_asset'' ''owned by workspace'' (owned (cd_style_assets db)),
             dp_APIKeys := deletionRefs ''api_key'' ''scoped to workspace''
               (map (\<lambda>k. (ak_ID k, ak_Name k)) (filter (\<lambda>k. ak_WorkspaceID k = Some wid) (db_keys (cd_auth db)))),
             dp_StoredQueries := deletionRefs ''stored_query'' ''scoped to workspace''
               (map (\<lambda>q. (sq_ID q, sq_QueryID q)) (filter (\<lambda>q. sq_WorkspaceID q = wid) (cd_queries db))),
             dp_ClaimMappings := deletionRefs ''claim_mapping'' ''scoped to workspace''
               (map (\<lambda>m. (cm_ID m, cm_ClaimName m @ ''='' @ cm_ClaimValue m)) (filter (\<lambda>m. cm_WorkspaceID m = wid) (db_mappings (cd_auth db)))),
             dp_Policies := deletionRefs ''rbac_policy'' ''scoped to workspace'' (policy_rows wid db)\<rparr>)))"

text \<open>The groups that a service deletion takes along: one round over the groups, repeated while it
  adds a name.\<close>

definition ListLayerGroups :: "string \<Rightarrow> catalog_db \<Rightarrow> LayerGroup list" where
  "ListLayerGroups wid db = sort_key lg_PublicID (filter (\<lambda>g. lg_WorkspaceID g = wid) (cd_groups db))"

definition group_ref :: "LayerGroup \<Rightarrow> DeletionRef" where
  "group_ref g = \<lparr>dr_ID = lg_ID g, dr_Name = lg_PublicID g, dr_Kind = ''layer_group'', dr_Reason = ''depends on deleted service resource''\<rparr>"

fun group_round :: "LayerGroup list \<Rightarrow> string list \<Rightarrow> DeletionRef list \<Rightarrow> bool \<Rightarrow> string list \<times> DeletionRef list \<times> bool" where
  "group_round [] names refs changed = (names, refs, changed)"
| "group_round (g # gs) names refs changed =
     (if lg_PublicID g \<notin> set names \<and> list_ex (\<lambda>m. gm_Resource m \<in> set names) (lg_Members g)
      then group_round gs (lg_PublicID g # names) (refs @ [group_ref g]) True
      else group_round gs names refs changed)"

lemma group_round_names:
  "group_round gs names refs ch = (names', refs', ch') \<Longrightarrow> set names \<subseteq> set names' \<and> set names' \<subseteq> set names \<union> lg_PublicID ` set gs
     \<and> (ch' \<and> \<not> ch \<longrightarrow> set names' \<noteq> set names)"
proof (induction gs names refs ch rule: group_round.induct)
  case (2 g gs names refs changed)
  show ?case
  proof (cases "lg_PublicID g \<notin> set names \<and> list_ex (\<lambda>m. gm_Resource m \<in> set names) (lg_Members g)")
    case True
    then have "group_round gs (lg_PublicID g # names) (refs @ [group_ref g]) True = (names', refs', ch')" using 2(3) by simp
    from 2(1) [OF True this] True show ?thesis by auto
  next
    case False
    then have "group_round gs names refs changed = (names', refs', ch')" using 2(3) by (simp split: if_splits)
    from 2(2) [OF False this] show ?thesis by auto
  qed
qed simp

lemma group_round_shrinks:
  assumes "(names', refs', True) = group_round groups names refs False"
  shows "card (lg_PublicID ` set groups - set names') < card (lg_PublicID ` set groups - set names)"
proof -
  from group_round_names [OF assms [symmetric]] have "set names \<subseteq> set names'" "set names' \<subseteq> set names \<union> lg_PublicID ` set groups" "set names' \<noteq> set names"
    by auto
  then have "lg_PublicID ` set groups - set names' \<subset> lg_PublicID ` set groups - set names" by blast
  then show ?thesis by (simp add: psubset_card_mono)
qed

function group_closure :: "LayerGroup list \<Rightarrow> string list \<Rightarrow> DeletionRef list \<Rightarrow> string list \<times> DeletionRef list" where
  "group_closure groups names refs =
     (case group_round groups names refs False of
        (names', refs', changed) \<Rightarrow> if changed then group_closure groups names' refs' else (names', refs'))"
  by pat_completeness auto

termination group_closure
  by (relation "measure (\<lambda>(groups, names, refs). card (lg_PublicID ` set groups - set names))") (auto intro: group_round_shrinks)

declare group_closure.simps [simp del]

definition str_contains :: "string \<Rightarrow> string \<Rightarrow> bool" where
  "str_contains hay needle = list_ex (\<lambda>n. has_prefix (drop n hay) needle) [0..<Suc (length hay)]"

definition ListWFSStoredQueries :: "string \<Rightarrow> catalog_db \<Rightarrow> WFSStoredQuery list" where
  "ListWFSStoredQueries wid db = sort_key sq_QueryID (filter (\<lambda>q. sq_WorkspaceID q = wid) (cd_queries db))"

definition GetOGCTilesAPISettings :: "string \<Rightarrow> catalog_db \<Rightarrow> string result" where
  "GetOGCTilesAPISettings wid db =
     (case find (\<lambda>w. ws_ID w = wid) (cd_workspaces db) of None \<Rightarrow> Inl NotFound | Some w \<Rightarrow> Inr (ws_DatasetMapLayerGroupID w))"

definition addDatasetMapDeletionBlocker :: "DeletionPlan \<Rightarrow> catalog_db \<Rightarrow> DeletionPlan result" where
  "addDatasetMapDeletionBlocker p db =
     bind_res (GetOGCTilesAPISettings (dp_WorkspaceID p) db) (\<lambda>selected.
       Inr (p\<lparr>dp_Blockers := dp_Blockers p @ map (\<lambda>g. \<lparr>dr_ID = dr_ID g, dr_Name = ''Workspace map'', dr_Kind = ''dataset_map'',
              dr_Reason = ''clear or change the workspace map selection before deleting its layer group or a service containing its members ('' @ dr_Name g @ '')''\<rparr>)
              (filter (\<lambda>g. dr_ID g = selected) (dp_LayerGroups p))\<rparr>))"

text \<open>\<open>marshal\<close> is the JSON encoding of a query's return types.\<close>

definition PlanServiceDeletion :: "(string list \<Rightarrow> string) \<Rightarrow> string \<Rightarrow> string \<Rightarrow> catalog_db \<Rightarrow> DeletionPlan result" where
  "PlanServiceDeletion marshal wid sid db =
     (case GetService sid db of
        Inl e \<Rightarrow> Inl e
      | Inr s \<Rightarrow>
          if sv_WorkspaceID s \<noteq> wid then Inl NotFound
          else
            let layers = map (\<lambda>l. (ly_ID l, ly_PublicID l)) (filter (\<lambda>l. ly_ServiceID l = sid) (cd_layers db));
                coverages = map (\<lambda>c. (cv_ID c, cv_PublicID c)) (filter (\<lambda>c. cv_ServiceID c = sid) (cd_coverages db));
                (names, groups) = group_closure (ListLayerGroups wid db) (map snd layers @ map snd coverages) [];
                queries = filter (\<lambda>q. list_ex (str_contains (marshal (sq_ReturnTypes q) @ [CHR 0x0A] @ sq_QueryExpression q)) names)
                            (ListWFSStoredQueries wid db);
                policies = filter (\<lambda>(_, policy). list_ex (\<lambda>n. has_prefix (rev policy) (rev ('':'' @ n))) names) (policy_rows wid db)
            in bind_res (addDatasetMapDeletionBlocker
                 ((empty_plan DeletionScopeService wid \<lparr>dr_ID = sv_ID s, dr_Name = sv_Name s, dr_Kind = ''service'', dr_Reason = []\<rparr>)
                   \<lparr>dp_Layers := deletionRefs ''layer'' ''owned by service'' layers,
                    dp_Coverages := deletionRefs ''coverage'' ''owned by service'' coverages, dp_LayerGroups := groups,
                    dp_StoredQueries := deletionRefs ''stored_query'' ''references deleted service resource'' (map (\<lambda>q. (sq_ID q, sq_QueryID q)) queries),
                    dp_Policies := deletionRefs ''rbac_policy'' ''references deleted service resource'' policies\<rparr>) db)
                 (\<lambda>p. Inr (sort_plan p)))"

section \<open>Operations\<close>

definition findActiveCatalogDeletion :: "DeletionScope \<Rightarrow> string \<Rightarrow> catalog_db \<Rightarrow> DeletionOperation option" where
  "findActiveCatalogDeletion scope target db =
     (case sort_key (\<lambda>op. - do_CreatedAt op) (filter (\<lambda>op. do_Scope op = scope \<and> do_TargetID op = target \<and> active op) (cd_deletions db)) of
        [] \<Rightarrow> None | op # _ \<Rightarrow> Some op)"

definition FindCatalogDeletionByTarget :: "DeletionScope \<Rightarrow> string \<Rightarrow> catalog_db \<Rightarrow> DeletionOperation result" where
  "FindCatalogDeletionByTarget scope target db =
     (case sort_key (\<lambda>op. - do_CreatedAt op) (filter (\<lambda>op. do_Scope op = scope \<and> do_TargetID op = target) (cd_deletions db)) of
        [] \<Rightarrow> Inl NotFound | op # _ \<Rightarrow> Inr op)"

definition GetCatalogDeletion :: "string \<Rightarrow> catalog_db \<Rightarrow> DeletionOperation result" where
  "GetCatalogDeletion oid db = (case find (\<lambda>op. do_ID op = oid) (cd_deletions db) of None \<Rightarrow> Inl NotFound | Some op \<Rightarrow> Inr op)"

definition ListPendingCatalogDeletions :: "catalog_db \<Rightarrow> DeletionOperation list" where
  "ListPendingCatalogDeletions db = sort_key do_CreatedAt (filter active (cd_deletions db))"

definition ListCatalogDeletions :: "int \<Rightarrow> catalog_db \<Rightarrow> DeletionOperation list" where
  "ListCatalogDeletions limit db =
     take (nat (if limit \<le> 0 \<or> limit > 1000 then 200 else limit)) (sort_key (\<lambda>op. - do_CreatedAt op) (cd_deletions db))"

text \<open>For a service the plan is made again under the lock of selections and group writes.\<close>

definition current_plan :: "(string list \<Rightarrow> string) \<Rightarrow> DeletionPlan \<Rightarrow> catalog_db \<Rightarrow> DeletionPlan result" where
  "current_plan marshal plan db =
     (if dp_Scope plan = DeletionScopeService
      then bind_res (PlanServiceDeletion marshal (dp_WorkspaceID plan) (dr_ID (dp_Target plan)) db) (\<lambda>current.
             if dp_Blockers current \<noteq> [] then Inl ErrDatasetMapInUse else Inr (current\<lparr>dp_Auxiliary := dp_Auxiliary plan\<rparr>))
      else Inr plan)"

definition new_operation :: "string \<Rightarrow> instant \<Rightarrow> DeletionPlan \<Rightarrow> DeletionOperation" where
  "new_operation uuid now p =
     \<lparr>do_ID = uuid, do_Scope = dp_Scope p, do_WorkspaceID = dp_WorkspaceID p, do_TargetID = dr_ID (dp_Target p),
      do_TargetName = dr_Name (dp_Target p), do_Status = DeletionPending, do_Phase = DeletionPhasePlanned, do_Plan = p,
      do_LastError = [], do_AttemptCount = 0, do_CreatedAt = now, do_UpdatedAt = now, do_CompletedAt = None\<rparr>"

definition BeginCatalogDeletion :: "(string list \<Rightarrow> string) \<Rightarrow> string \<Rightarrow> instant \<Rightarrow> DeletionPlan \<Rightarrow> catalog_db
    \<Rightarrow> (DeletionOperation \<times> bool) result \<times> catalog_db" where
  "BeginCatalogDeletion marshal uuid now plan db =
     (if dr_ID (dp_Target plan) = [] \<or> dp_WorkspaceID plan = []
      then (Inl (OtherError ''deletion plan target and workspace are required''), db)
      else case findActiveCatalogDeletion (dp_Scope plan) (dr_ID (dp_Target plan)) db of
        Some op \<Rightarrow> (Inr (op, False), db)
      | None \<Rightarrow>
          (case current_plan marshal plan db of
             Inl e \<Rightarrow> (Inl e, db)
           | Inr p \<Rightarrow>
               let op = new_operation uuid now (sort_plan p)
               in if uuid \<in> do_ID ` set (cd_deletions db) then (Inl (DbErr ErrConstraint), db)
                  else (Inr (op, True), db\<lparr>cd_deletions := cd_deletions db @ [op]\<rparr>)))"

definition update_operation :: "instant \<Rightarrow> DeletionStatus \<Rightarrow> DeletionPhase \<Rightarrow> string \<Rightarrow> DeletionOperation \<Rightarrow> DeletionOperation" where
  "update_operation now status phase lastError op =
     op\<lparr>do_Status := status, do_Phase := phase, do_LastError := lastError,
        do_AttemptCount := do_AttemptCount op + (if status = DeletionRunning \<and> do_Status op \<noteq> DeletionRunning then 1 else 0),
        do_UpdatedAt := now, do_CompletedAt := (if status = DeletionCompleted then Some now else do_CompletedAt op)\<rparr>"

definition UpdateCatalogDeletion :: "instant \<Rightarrow> string \<Rightarrow> DeletionStatus \<Rightarrow> DeletionPhase \<Rightarrow> string \<Rightarrow> catalog_db \<Rightarrow> unit result \<times> catalog_db" where
  "UpdateCatalogDeletion now oid status phase lastError db =
     (if oid \<in> do_ID ` set (cd_deletions db)
      then (Inr (), db\<lparr>cd_deletions := map (\<lambda>op. if do_ID op = oid then update_operation now status phase lastError op else op) (cd_deletions db)\<rparr>)
      else (Inl NotFound, db))"

section \<open>The commit\<close>

definition deleteWorkspaceCatalog :: "string \<Rightarrow> catalog_db \<Rightarrow> catalog_db" where
  "deleteWorkspaceCatalog wid db =
     (let own = sv_ID ` set (workspace_services wid db)
      in db\<lparr>cd_auth := (cd_auth db)\<lparr>db_policies := filter (\<lambda>r. cr_V1 r \<noteq> wid) (db_policies (cd_auth db)),
                                   db_keys := filter (\<lambda>k. ak_WorkspaceID k \<noteq> Some wid) (db_keys (cd_auth db)),
                                   db_mappings := filter (\<lambda>m. cm_WorkspaceID m \<noteq> wid) (db_mappings (cd_auth db))\<rparr>,
            cd_layers := filter (\<lambda>l. ly_ServiceID l \<notin> own) (cd_layers db),
            cd_coverages := filter (\<lambda>c. \<not> (cv_WorkspaceID c = wid \<or> cv_ServiceID c \<in> own)) (cd_coverages db),
            cd_services := filter (\<lambda>s. sv_WorkspaceID s \<noteq> wid) (cd_services db),
            cd_groups := filter (\<lambda>g. lg_WorkspaceID g \<noteq> wid) (cd_groups db),
            cd_queries := filter (\<lambda>q. sq_WorkspaceID q \<noteq> wid) (cd_queries db),
            cd_style_assets := filter (\<lambda>x. or_WorkspaceID x \<noteq> wid) (cd_style_assets db),
            cd_styles := filter (\<lambda>x. or_WorkspaceID x \<noteq> wid) (cd_styles db),
            cd_data_revisions := filter (\<lambda>(w, _). w \<noteq> wid) (cd_data_revisions db),
            cd_workspaces := filter (\<lambda>w. ws_ID w \<noteq> wid) (cd_workspaces db)\<rparr>)"

definition plan_refs :: "DeletionPlan \<Rightarrow> DeletionRef list" where
  "plan_refs p = dp_Layers p @ dp_Coverages p @ dp_LayerGroups p"

definition deleteServiceCatalog :: "DeletionOperation \<Rightarrow> catalog_db \<Rightarrow> catalog_db" where
  "deleteServiceCatalog op db =
     (let p = do_Plan op; names = map dr_Name (plan_refs p)
      in db\<lparr>cd_auth := (cd_auth db)\<lparr>db_policies := filter (\<lambda>r. \<not> (cr_V1 r = do_WorkspaceID op \<and> cr_V2 r \<in> set names)) (db_policies (cd_auth db))\<rparr>,
            cd_layers := filter (\<lambda>l. ly_ServiceID l \<noteq> do_TargetID op) (cd_layers db),
            cd_coverages := filter (\<lambda>c. cv_ServiceID c \<noteq> do_TargetID op) (cd_coverages db),
            cd_groups := filter (\<lambda>g. lg_ID g \<notin> dr_ID ` set (dp_LayerGroups p)) (cd_groups db),
            cd_queries := filter (\<lambda>q. sq_ID q \<notin> dr_ID ` set (dp_StoredQueries p)) (cd_queries db),
            cd_services := filter (\<lambda>s. \<not> (sv_ID s = do_TargetID op \<and> sv_WorkspaceID s = do_WorkspaceID op)) (cd_services db)\<rparr>)"

definition committed :: "DeletionOperation \<Rightarrow> bool" where
  "committed op = (do_Phase op = DeletionPhaseCatalogCommitted \<or> do_Phase op = DeletionPhaseRuntimeCleared)"

definition CommitCatalogDeletion :: "instant \<Rightarrow> string \<Rightarrow> catalog_db \<Rightarrow> unit result \<times> catalog_db" where
  "CommitCatalogDeletion now oid db =
     (case GetCatalogDeletion oid db of
        Inl e \<Rightarrow> (Inl e, db)
      | Inr op \<Rightarrow>
          if do_Status op = DeletionCompleted \<or> committed op then (Inr (), db)
          else let db1 = (case do_Scope op of DeletionScopeWorkspace \<Rightarrow> deleteWorkspaceCatalog (do_WorkspaceID op) db
                                            | DeletionScopeService \<Rightarrow> deleteServiceCatalog op db);
                   mark = (\<lambda>o'. o'\<lparr>do_Status := DeletionRunning, do_Phase := DeletionPhaseCatalogCommitted, do_LastError := [], do_UpdatedAt := now\<rparr>)
               in (Inr (), bump_capabilities (do_WorkspaceID op)
                     (db1\<lparr>cd_deletions := map (\<lambda>o'. if do_ID o' = oid then mark o' else o') (cd_deletions db1)\<rparr>)))"

definition DeleteWorkspace :: "string \<Rightarrow> catalog_db \<Rightarrow> unit result \<times> catalog_db" where
  "DeleteWorkspace wid db =
     (case PlanWorkspaceDeletion wid db of
        Inl e \<Rightarrow> (Inl e, db)
      | Inr p \<Rightarrow>
          if HasDependencies p then (Inl (DeletionConflict p), db)
          else if wid \<notin> ws_ID ` set (cd_workspaces db) then (Inl NotFound, db)
          else (Inr (), db\<lparr>cd_workspaces := filter (\<lambda>w. ws_ID w \<noteq> wid) (cd_workspaces db),
                           cd_data_revisions := filter (\<lambda>(w, _). w \<noteq> wid) (cd_data_revisions db)\<rparr>))"

definition DeleteService :: "(string list \<Rightarrow> string) \<Rightarrow> string \<Rightarrow> catalog_db \<Rightarrow> unit result \<times> catalog_db" where
  "DeleteService marshal sid db =
     (case GetService sid db of
        Inl e \<Rightarrow> (Inl e, db)
      | Inr s \<Rightarrow>
          (case PlanServiceDeletion marshal (sv_WorkspaceID s) sid db of
             Inl e \<Rightarrow> (Inl e, db)
           | Inr p \<Rightarrow>
               if dp_Blockers p \<noteq> [] then (Inl ErrDatasetMapInUse, db)
               else if HasDependencies p then (Inl (DeletionConflict p), db)
               else execCapabilitiesMutation (service_owner sid db)
                      (\<lambda>db. (Inr (), db\<lparr>cd_services := filter (\<lambda>v. sv_ID v \<noteq> sid) (cd_services db)\<rparr>)) db))"

section \<open>Layer groups\<close>

definition group_touches :: "string \<Rightarrow> string \<Rightarrow> LayerGroupMember list \<Rightarrow> DeletionRef \<Rightarrow> bool" where
  "group_touches gid pid members r = (dr_Name r = pid \<or> (gid \<noteq> [] \<and> dr_ID r = gid) \<or> dr_Name r \<in> gm_Resource ` set members)"

definition validateGroupDeletionState :: "string \<Rightarrow> string \<Rightarrow> string \<Rightarrow> LayerGroupMember list \<Rightarrow> catalog_db \<Rightarrow> catalog_error option" where
  "validateGroupDeletionState wid gid pid members db =
     (if list_ex (\<lambda>op. do_WorkspaceID op = wid \<and> (do_Scope op = DeletionScopeWorkspace
           \<or> list_ex (group_touches gid pid members) (dp_LayerGroups (do_Plan op) @ dp_Layers (do_Plan op) @ dp_Coverages (do_Plan op))))
         (ListPendingCatalogDeletions db)
      then Some ErrGroupResourceDeleting else None)"

record CreateLayerGroupInput =
  gi_WorkspaceID :: string
  gi_PublicID :: string
  gi_AllowedRoles :: "string list"
  gi_Members :: "LayerGroupMember list"
  gi_Metadata :: json

definition CreateLayerGroup :: "string \<Rightarrow> instant \<Rightarrow> CreateLayerGroupInput \<Rightarrow> catalog_db \<Rightarrow> LayerGroup result \<times> catalog_db" where
  "CreateLayerGroup uuid now inp db =
     (case checkRoleAssignments (gi_AllowedRoles inp) (cd_auth db) of
        Some e \<Rightarrow> (Inl (DbErr e), db)
      | None \<Rightarrow>
          (case validateGroupDeletionState (gi_WorkspaceID inp) [] (gi_PublicID inp) (gi_Members inp) db of
             Some e \<Rightarrow> (Inl e, db)
           | None \<Rightarrow> execCapabilitiesMutation (workspace_owner (gi_WorkspaceID inp) db) (\<lambda>db.
               if \<exists>g \<in> set (cd_groups db). lg_ID g = uuid \<or> (lg_WorkspaceID g = gi_WorkspaceID inp \<and> lg_PublicID g = gi_PublicID inp)
               then (Inl (DbErr ErrDuplicateKey), db)
               else let g = \<lparr>lg_ID = uuid, lg_WorkspaceID = gi_WorkspaceID inp, lg_PublicID = gi_PublicID inp, lg_AllowedRoles = gi_AllowedRoles inp,
                             lg_Members = gi_Members inp, lg_TileCacheGeneration = 1, lg_Metadata = gi_Metadata inp, lg_CreatedAt = now, lg_UpdatedAt = now\<rparr>
                    in (Inr g, db\<lparr>cd_groups := cd_groups db @ [g]\<rparr>)) db))"

definition GetLayerGroup :: "string \<Rightarrow> catalog_db \<Rightarrow> LayerGroup result" where
  "GetLayerGroup gid db = (case find (\<lambda>g. lg_ID g = gid) (cd_groups db) of None \<Rightarrow> Inl NotFound | Some g \<Rightarrow> Inr g)"

definition GetLayerGroupByPublicID :: "string \<Rightarrow> string \<Rightarrow> catalog_db \<Rightarrow> LayerGroup result" where
  "GetLayerGroupByPublicID wid pid db =
     (case find (\<lambda>g. lg_WorkspaceID g = wid \<and> lg_PublicID g = pid) (cd_groups db) of None \<Rightarrow> Inl NotFound | Some g \<Rightarrow> Inr g)"

record UpdateLayerGroupInput =
  gu_PublicID :: "string option"
  gu_AllowedRoles :: "string list option"
  gu_Members :: "LayerGroupMember list option"
  gu_Metadata :: "json option"

definition UpdateLayerGroup :: "instant \<Rightarrow> string \<Rightarrow> UpdateLayerGroupInput \<Rightarrow> catalog_db \<Rightarrow> LayerGroup result \<times> catalog_db" where
  "UpdateLayerGroup now gid inp db =
     (case (case gu_AllowedRoles inp of None \<Rightarrow> None | Some roles \<Rightarrow> checkRoleAssignments roles (cd_auth db)) of
        Some e \<Rightarrow> (Inl (DbErr e), db)
      | None \<Rightarrow>
          (case GetLayerGroup gid db of
             Inl e \<Rightarrow> (Inl e, db)
           | Inr g0 \<Rightarrow>
               let g = g0\<lparr>lg_PublicID := (case gu_PublicID inp of None \<Rightarrow> lg_PublicID g0 | Some x \<Rightarrow> x),
                          lg_AllowedRoles := (case gu_AllowedRoles inp of None \<Rightarrow> lg_AllowedRoles g0 | Some x \<Rightarrow> x),
                          lg_Members := (case gu_Members inp of None \<Rightarrow> lg_Members g0 | Some x \<Rightarrow> x),
                          lg_Metadata := (case gu_Metadata inp of None \<Rightarrow> lg_Metadata g0 | Some x \<Rightarrow> x),
                          lg_TileCacheGeneration := lg_TileCacheGeneration g0 + 1, lg_UpdatedAt := now\<rparr>
               in case validateGroupDeletionState (lg_WorkspaceID g) (lg_ID g) (lg_PublicID g) (lg_Members g) db of
                    Some e \<Rightarrow> (Inl e, db)
                  | None \<Rightarrow> execCapabilitiesMutation (workspace_owner (lg_WorkspaceID g) db) (\<lambda>db.
                      if \<exists>v \<in> set (cd_groups db). lg_ID v \<noteq> gid \<and> lg_WorkspaceID v = lg_WorkspaceID g \<and> lg_PublicID v = lg_PublicID g
                      then (Inl (DbErr ErrDuplicateKey), db)
                      else (Inr g, db\<lparr>cd_groups := map (\<lambda>v. if lg_ID v = gid then g else v) (cd_groups db)\<rparr>)) db))"

definition DeleteLayerGroup :: "string \<Rightarrow> catalog_db \<Rightarrow> unit result \<times> catalog_db" where
  "DeleteLayerGroup gid db =
     (if gid \<in> ws_DatasetMapLayerGroupID ` set (cd_workspaces db) then (Inl ErrDatasetMapInUse, db)
      else execCapabilitiesMutation (map_option lg_WorkspaceID (find (\<lambda>g. lg_ID g = gid) (cd_groups db)))
             (\<lambda>db. (Inr (), db\<lparr>cd_groups := filter (\<lambda>g. lg_ID g \<noteq> gid) (cd_groups db)\<rparr>)) db)"

definition validateDatasetMapSelection :: "string \<Rightarrow> string \<Rightarrow> catalog_db \<Rightarrow> catalog_error option" where
  "validateDatasetMapSelection wid gid db =
     (if gid = [] then None
      else case GetLayerGroup gid db of
             Inl _ \<Rightarrow> Some ErrInvalidDatasetMap
           | Inr g \<Rightarrow>
               if lg_WorkspaceID g \<noteq> wid then Some ErrInvalidDatasetMap
               else (case validateGroupDeletionState wid (lg_ID g) (lg_PublicID g) (lg_Members g) db of
                       None \<Rightarrow> None
                     | Some e \<Rightarrow> Some (if e = ErrGroupResourceDeleting then ErrInvalidDatasetMap else e)))"

definition UpdateOGCTilesAPISettings :: "instant \<Rightarrow> string \<Rightarrow> string \<Rightarrow> catalog_db \<Rightarrow> unit result \<times> catalog_db" where
  "UpdateOGCTilesAPISettings now wid selected db =
     (case validateDatasetMapSelection wid selected db of
        Some e \<Rightarrow> (Inl e, db)
      | None \<Rightarrow>
          if wid \<notin> ws_ID ` set (cd_workspaces db) then (Inl NotFound, db)
          else (Inr (), db\<lparr>cd_workspaces := map (\<lambda>w. if ws_ID w = wid
                  then w\<lparr>ws_DatasetMapLayerGroupID := selected, ws_CapabilitiesRevision := ws_CapabilitiesRevision w + 1,
                         ws_TileRevision := ws_TileRevision w + 1, ws_UpdatedAt := now\<rparr> else w) (cd_workspaces db)\<rparr>))"

end
