(* ===== verification/Catalog_Plan.thy ===== *)
theory Catalog_Plan
  imports Catalog_Deletion
begin

text \<open>
  What a service deletion takes along. The loop over the layer groups computes exactly the groups that
  depend on a deleted resource, directly or through other groups.
\<close>

section \<open>Dependent groups\<close>

inductive depends :: "string set \<Rightarrow> LayerGroup set \<Rightarrow> LayerGroup \<Rightarrow> bool" for base groups where
  direct: "g \<in> groups \<Longrightarrow> m \<in> set (lg_Members g) \<Longrightarrow> gm_Resource m \<in> base \<Longrightarrow> depends base groups g"
| nested: "g \<in> groups \<Longrightarrow> m \<in> set (lg_Members g) \<Longrightarrow> depends base groups h \<Longrightarrow> gm_Resource m = lg_PublicID h \<Longrightarrow> depends base groups g"

lemma depends_in: "depends base groups g \<Longrightarrow> g \<in> groups"
  by (induction rule: depends.induct)

text \<open>What holds of names and references between two rounds.\<close>

definition closure_ok :: "string set \<Rightarrow> LayerGroup set \<Rightarrow> string list \<Rightarrow> DeletionRef list \<Rightarrow> bool" where
  "closure_ok base groups names refs =
     (set names = base \<union> dr_Name ` set refs \<and> set refs \<subseteq> group_ref ` {g. depends base groups g \<and> lg_PublicID g \<notin> base})"

lemma closure_ok_names: "closure_ok base groups names refs \<Longrightarrow> n \<in> set names \<Longrightarrow> n \<in> base \<or> (\<exists>h. depends base groups h \<and> lg_PublicID h = n)"
  by (fastforce simp: closure_ok_def group_ref_def)

lemma group_round_ok:
  "group_round gs names refs ch = (names', refs', ch') \<Longrightarrow> set gs \<subseteq> groups \<Longrightarrow> closure_ok base groups names refs \<Longrightarrow> closure_ok base groups names' refs'"
proof (induction gs names refs ch rule: group_round.induct)
  case (2 g gs names refs changed)
  show ?case
  proof (cases "lg_PublicID g \<notin> set names \<and> list_ex (\<lambda>m. gm_Resource m \<in> set names) (lg_Members g)")
    case True
    then obtain m where m: "m \<in> set (lg_Members g)" "gm_Resource m \<in> set names" by (auto simp: list_ex_iff)
    have "depends base groups g"
      using closure_ok_names [OF 2(5) m(2)] m(1) 2(4) by (auto intro: depends.intros)
    with 2(5) True have "closure_ok base groups (lg_PublicID g # names) (refs @ [group_ref g])"
      by (auto simp: closure_ok_def group_ref_def)
    with 2(1) [OF True] 2(3,4) True show ?thesis by simp
  next
    case False
    with 2(2) [OF False] 2(3-5) show ?thesis by (simp split: if_splits)
  qed
qed simp

lemma group_round_unchanged:
  "group_round gs names refs ch = (names', refs', False) \<Longrightarrow>
     names' = names \<and> refs' = refs \<and> (\<forall>g \<in> set gs. lg_PublicID g \<in> set names \<or> (\<forall>m \<in> set (lg_Members g). gm_Resource m \<notin> set names))"
proof (induction gs names refs ch rule: group_round.induct)
  case (2 g gs names refs changed)
  have mono: "group_round gs n r True = (n', r', c) \<Longrightarrow> c" for n r n' r' c
    by (induction gs n r True rule: group_round.induct) (auto split: if_splits)
  show ?case
  proof (cases "lg_PublicID g \<notin> set names \<and> list_ex (\<lambda>m. gm_Resource m \<in> set names) (lg_Members g)")
    case True
    then have "group_round gs (lg_PublicID g # names) (refs @ [group_ref g]) True = (names', refs', False)" using 2(3) by simp
    then show ?thesis using mono by blast
  next
    case False
    then have "group_round gs names refs changed = (names', refs', False)" using 2(3) by (simp split: if_splits)
    with 2(2) [OF False] False show ?thesis by (auto simp: list_ex_iff)
  qed
qed simp

lemma closed_names:
  assumes "\<forall>g \<in> groups. lg_PublicID g \<in> N \<or> (\<forall>m \<in> set (lg_Members g). gm_Resource m \<notin> N)" "base \<subseteq> N" "depends base groups g"
  shows "lg_PublicID g \<in> N"
  using assms(3,1,2) by (induction rule: depends.induct) (auto, metis+)

lemma group_closure_ok:
  "closure_ok base (set groups) names refs \<Longrightarrow> group_closure groups names refs = (names', refs') \<Longrightarrow>
     closure_ok base (set groups) names' refs'
     \<and> (\<forall>g \<in> set groups. lg_PublicID g \<in> set names' \<or> (\<forall>m \<in> set (lg_Members g). gm_Resource m \<notin> set names'))"
proof (induction groups names refs rule: group_closure.induct)
  case (1 groups names refs)
  obtain n r c where r: "group_round groups names refs False = (n, r, c)" by (metis prod_cases3)
  have ok: "closure_ok base (set groups) n r" by (rule group_round_ok [OF r subset_refl 1(2)])
  show ?case
  proof (cases c)
    case True
    then have "group_closure groups n r = (names', refs')" using 1(3) r by (simp add: group_closure.simps [of groups names refs])
    then show ?thesis using 1(1) [OF r [symmetric] refl True ok] by simp
  next
    case False
    then have "names' = n" "refs' = r" using 1(3) r by (simp_all add: group_closure.simps [of groups names refs])
    with ok group_round_unchanged [of groups names refs False n r] r False show ?thesis by auto
  qed
qed

text \<open>
  C18. A service deletion takes along exactly the layer groups that depend on its layers and coverages: those
  with a member among them, and those with a member that is such a group. The loop that finds them
  ends, and what remains of the workspace's groups has no member among the names that go, unless the
  group bears one of these names itself.
\<close>

theorem group_closure_exact:
  assumes "inj_on lg_PublicID (set groups)" "group_closure groups base [] = (names, refs)"
  shows "set refs = group_ref ` {g. depends (set base) (set groups) g \<and> lg_PublicID g \<notin> set base}
    \<and> set names = set base \<union> lg_PublicID ` {g. depends (set base) (set groups) g}
    \<and> (\<forall>g \<in> set groups. lg_PublicID g \<in> set names \<or> (\<forall>m \<in> set (lg_Members g). gm_Resource m \<notin> set names))"
proof -
  have "closure_ok (set base) (set groups) base []" by (simp add: closure_ok_def)
  from group_closure_ok [OF this assms(2)] have ok: "closure_ok (set base) (set groups) names refs"
    and closed: "\<forall>g \<in> set groups. lg_PublicID g \<in> set names \<or> (\<forall>m \<in> set (lg_Members g). gm_Resource m \<notin> set names)" by auto
  have names: "lg_PublicID g \<in> set names" if "depends (set base) (set groups) g" for g
    using closed_names [OF closed _ that] ok by (auto simp: closure_ok_def)
  have "group_ref g \<in> set refs" if g: "depends (set base) (set groups) g" "lg_PublicID g \<notin> set base" for g
  proof -
    from names [OF g(1)] g(2) ok obtain r where "r \<in> set refs" "dr_Name r = lg_PublicID g" by (auto simp: closure_ok_def)
    moreover from this ok obtain h where h: "r = group_ref h" "depends (set base) (set groups) h" by (auto simp: closure_ok_def)
    moreover have "h = g"
      using inj_onD [OF assms(1) _ depends_in [OF h(2)] depends_in [OF g(1)]] calculation by (simp add: group_ref_def)
    ultimately show ?thesis by simp
  qed
  moreover have "set refs \<subseteq> group_ref ` {g. depends (set base) (set groups) g \<and> lg_PublicID g \<notin> set base}" using ok by (simp add: closure_ok_def)
  moreover have "set names \<subseteq> set base \<union> lg_PublicID ` {g. depends (set base) (set groups) g}" using closure_ok_names [OF ok] by blast
  moreover have "set base \<subseteq> set names" using ok by (auto simp: closure_ok_def)
  ultimately show ?thesis using names closed by blast
qed

definition sample_group :: "string \<Rightarrow> string list \<Rightarrow> LayerGroup" where
  "sample_group name members = \<lparr>lg_ID = ''id-'' @ name, lg_WorkspaceID = ''w'', lg_PublicID = name, lg_AllowedRoles = [],
     lg_Members = map (\<lambda>r. \<lparr>gm_Resource = r, gm_Style = [], gm_Opacity = None, gm_Composite = []\<rparr>) members,
     lg_TileCacheGeneration = 1, lg_Metadata = JNull, lg_CreatedAt = 0, lg_UpdatedAt = 0\<rparr>"

definition sample_groups :: "LayerGroup list" where
  "sample_groups = [sample_group ''a'' [''b''], sample_group ''b'' [''roads''], sample_group ''c'' [''rivers'']]"

lemma sample_closure:
  "group_closure sample_groups [''roads''] [] =
     ([''a'', ''b'', ''roads''], [group_ref (sample_group ''b'' [''roads'']), group_ref (sample_group ''a'' [''b''])])"
  by (simp add: group_closure.simps sample_groups_def sample_group_def)

theorem group_closure_exact_witness:
  "depends (set [''roads'']) (set sample_groups) (sample_group ''a'' [''b''])
   \<and> \<not> depends (set [''roads'']) (set sample_groups) (sample_group ''c'' [''rivers''])"
proof -
  let ?D = "depends (set [''roads'']) (set sample_groups)"
  have inj: "inj_on lg_PublicID (set sample_groups)" by (simp add: sample_groups_def sample_group_def)
  note exact = group_closure_exact [OF inj sample_closure]
  have "group_ref (sample_group ''a'' [''b'']) \<in> group_ref ` {g. ?D g \<and> lg_PublicID g \<notin> set [''roads'']}"
    unfolding conjunct1 [OF exact, symmetric] by simp
  then obtain g where g: "?D g" "group_ref g = group_ref (sample_group ''a'' [''b''])" by auto
  have "sample_group ''a'' [''b''] \<in> set sample_groups" by (simp add: sample_groups_def)
  then have "g = sample_group ''a'' [''b'']"
    using g(2) inj_onD [OF inj _ depends_in [OF g(1)]] by (simp add: group_ref_def)
  moreover have "\<not> ?D (sample_group ''c'' [''rivers''])"
  proof
    assume "?D (sample_group ''c'' [''rivers''])"
    then have "lg_PublicID (sample_group ''c'' [''rivers'']) \<in> lg_PublicID ` {g. ?D g}" by blast
    then have "''c'' \<in> set [''a'', ''b'', ''roads'']"
      unfolding conjunct1 [OF conjunct2 [OF exact]] by (simp add: sample_group_def)
    then show False by simp
  qed
  ultimately show ?thesis using g(1) by simp
qed

end
