(* ===== verification/Catalog_Integrity.thy ===== *)
theory Catalog_Integrity
  imports Catalog_Plan
begin

text \<open>
  The audit and repair of orphaned rows (\<^verbatim>\<open>store_integrity.go\<close>) and the ownership map they are compared
  against. A repair leaves nothing for the audit to report; it also removes every global claim mapping,
  which the audit mistakes for rows of a workspace that does not exist.
\<close>

section \<open>Orphans\<close>

record CatalogOrphan =
  co_Kind :: string
  co_ID :: string
  co_Name :: string
  co_WorkspaceID :: string
  co_Reason :: string

definition orphans :: "string \<Rightarrow> string \<Rightarrow> (string \<times> string \<times> string) list \<Rightarrow> CatalogOrphan list" where
  "orphans kind reason rows = map (\<lambda>(i, n, w). \<lparr>co_Kind = kind, co_ID = i, co_Name = n, co_WorkspaceID = w, co_Reason = reason\<rparr>) rows"

definition workspace_ids :: "catalog_db \<Rightarrow> string set" where
  "workspace_ids db = ws_ID ` set (cd_workspaces db)"

definition service_ids :: "catalog_db \<Rightarrow> string set" where
  "service_ids db = sv_ID ` set (cd_services db)"

definition role_ids :: "catalog_db \<Rightarrow> string set" where
  "role_ids db = ro_ID ` set (db_roles (cd_auth db))"

definition invalid_dataset_map :: "catalog_db \<Rightarrow> Workspace \<Rightarrow> bool" where
  "invalid_dataset_map db w =
     (ws_DatasetMapLayerGroupID w \<noteq> []
      \<and> \<not> list_ex (\<lambda>g. lg_ID g = ws_DatasetMapLayerGroupID w \<and> lg_WorkspaceID g = ws_ID w) (cd_groups db))"

definition coverage_orphan :: "catalog_db \<Rightarrow> Coverage \<Rightarrow> bool" where
  "coverage_orphan db c =
     (cv_WorkspaceID c \<notin> workspace_ids db \<or> cv_ServiceID c \<notin> service_ids db
      \<or> list_ex (\<lambda>s. sv_ID s = cv_ServiceID c \<and> sv_WorkspaceID s \<noteq> cv_WorkspaceID c) (cd_services db))"

definition policy_orphan :: "catalog_db \<Rightarrow> CasbinRule \<Rightarrow> bool" where
  "policy_orphan db r = (cr_V1 r \<noteq> [] \<and> cr_V1 r \<noteq> ''*'' \<and> cr_V1 r \<notin> workspace_ids db)"

definition AuditCatalogOrphans :: "catalog_db \<Rightarrow> CatalogOrphan list" where
  "AuditCatalogOrphans db =
     (let a = cd_auth db; policies = enumerate 0 (db_policies a); lost = (\<lambda>w. w \<notin> workspace_ids db); norole = (\<lambda>r. r \<notin> role_ids db)
      in sort_key (\<lambda>x. (co_Kind x, co_ID x))
       (orphans ''dataset_map'' ''workspace map group does not exist in this workspace''
          (map (\<lambda>w. (ws_ID w, ws_Name w, ws_ID w)) (filter (invalid_dataset_map db) (cd_workspaces db)))
        @ orphans ''rbac_role'' ''role does not exist'' (map (\<lambda>(i, r). (show_nat i, cr_V0 r, cr_V1 r)) (filter (\<lambda>(_, r). norole (cr_V0 r)) policies))
        @ orphans ''api_key_role'' ''role does not exist''
          (map (\<lambda>k. (ak_ID k, ak_Name k, case ak_WorkspaceID k of None \<Rightarrow> [] | Some w \<Rightarrow> w)) (filter (\<lambda>k. norole (ak_RoleID k)) (db_keys a)))
        @ orphans ''claim_mapping_role'' ''role does not exist''
          (map (\<lambda>m. (cm_ID m, cm_ClaimName m, cm_WorkspaceID m)) (filter (\<lambda>m. norole (cm_RoleID m)) (db_mappings a)))
        @ orphans ''service'' ''workspace does not exist''
          (map (\<lambda>s. (sv_ID s, sv_Name s, sv_WorkspaceID s)) (filter (\<lambda>s. lost (sv_WorkspaceID s)) (cd_services db)))
        @ orphans ''layer'' ''service does not exist''
          (map (\<lambda>l. (ly_ID l, ly_PublicID l, [])) (filter (\<lambda>l. ly_ServiceID l \<notin> service_ids db) (cd_layers db)))
        @ orphans ''coverage'' ''workspace or service does not exist''
          (map (\<lambda>c. (cv_ID c, cv_PublicID c, cv_WorkspaceID c)) (filter (coverage_orphan db) (cd_coverages db)))
        @ orphans ''style'' ''workspace does not exist''
          (map (\<lambda>x. (or_ID x, or_Name x, or_WorkspaceID x)) (filter (\<lambda>x. lost (or_WorkspaceID x)) (cd_styles db)))
        @ orphans ''style_asset'' ''workspace does not exist''
          (map (\<lambda>x. (or_ID x, or_Name x, or_WorkspaceID x)) (filter (\<lambda>x. lost (or_WorkspaceID x)) (cd_style_assets db)))
        @ orphans ''layer_group'' ''workspace does not exist''
          (map (\<lambda>g. (lg_ID g, lg_PublicID g, lg_WorkspaceID g)) (filter (\<lambda>g. lost (lg_WorkspaceID g)) (cd_groups db)))
        @ orphans ''api_key'' ''workspace does not exist''
          (map (\<lambda>k. (ak_ID k, ak_Name k, the (ak_WorkspaceID k)))
            (filter (\<lambda>k. case ak_WorkspaceID k of None \<Rightarrow> False | Some w \<Rightarrow> lost w) (db_keys a)))
        @ orphans ''stored_query'' ''workspace does not exist''
          (map (\<lambda>q. (sq_ID q, sq_QueryID q, sq_WorkspaceID q)) (filter (\<lambda>q. lost (sq_WorkspaceID q)) (cd_queries db)))
        @ orphans ''claim_mapping'' ''workspace does not exist''
          (map (\<lambda>m. (cm_ID m, cm_ClaimName m @ ''='' @ cm_ClaimValue m, cm_WorkspaceID m)) (filter (\<lambda>m. lost (cm_WorkspaceID m)) (db_mappings a)))
        @ orphans ''rbac_policy'' ''workspace does not exist''
          (map (\<lambda>(i, r). (show_nat i, cr_PType r @ '':'' @ cr_V0 r @ '':'' @ cr_V2 r, cr_V1 r)) (filter (\<lambda>(_, r). policy_orphan db r) policies))))"

section \<open>Repair\<close>

text \<open>The statements of the transaction, in their order; each sees the tables the earlier ones left.\<close>

definition repair_dataset_maps :: "instant \<Rightarrow> catalog_db \<Rightarrow> catalog_db" where
  "repair_dataset_maps now db =
     db\<lparr>cd_workspaces := map (\<lambda>w. if invalid_dataset_map db w
          then w\<lparr>ws_DatasetMapLayerGroupID := [], ws_CapabilitiesRevision := ws_CapabilitiesRevision w + 1,
                 ws_TileRevision := ws_TileRevision w + 1, ws_UpdatedAt := now\<rparr> else w) (cd_workspaces db)\<rparr>"

definition repair_roles :: "catalog_db \<Rightarrow> catalog_db" where
  "repair_roles db =
     db\<lparr>cd_auth := (cd_auth db)\<lparr>db_policies := filter (\<lambda>r. cr_V0 r \<in> role_ids db) (db_policies (cd_auth db)),
                               db_keys := filter (\<lambda>k. ak_RoleID k \<in> role_ids db) (db_keys (cd_auth db)),
                               db_mappings := filter (\<lambda>m. cm_RoleID m \<in> role_ids db) (db_mappings (cd_auth db))\<rparr>\<rparr>"

definition repair_resources :: "catalog_db \<Rightarrow> catalog_db" where
  "repair_resources db =
     db\<lparr>cd_layers := filter (\<lambda>l. ly_ServiceID l \<in> service_ids db
            \<and> \<not> list_ex (\<lambda>s. sv_ID s = ly_ServiceID l \<and> sv_WorkspaceID s \<notin> workspace_ids db) (cd_services db)) (cd_layers db),
        cd_coverages := filter (\<lambda>c. \<not> coverage_orphan db c) (cd_coverages db)\<rparr>"

definition repair_owned :: "catalog_db \<Rightarrow> catalog_db" where
  "repair_owned db =
     (let a = cd_auth db; kept = (\<lambda>w. w \<in> workspace_ids db)
      in db\<lparr>cd_services := filter (\<lambda>s. kept (sv_WorkspaceID s)) (cd_services db),
            cd_styles := filter (\<lambda>x. kept (or_WorkspaceID x)) (cd_styles db),
            cd_style_assets := filter (\<lambda>x. kept (or_WorkspaceID x)) (cd_style_assets db),
            cd_groups := filter (\<lambda>g. kept (lg_WorkspaceID g)) (cd_groups db),
            cd_queries := filter (\<lambda>q. kept (sq_WorkspaceID q)) (cd_queries db),
            cd_auth := a\<lparr>db_keys := filter (\<lambda>k. case ak_WorkspaceID k of None \<Rightarrow> True | Some w \<Rightarrow> kept w) (db_keys a),
                         db_mappings := filter (\<lambda>m. kept (cm_WorkspaceID m)) (db_mappings a),
                         db_policies := filter (\<lambda>r. \<not> policy_orphan db r) (db_policies a)\<rparr>\<rparr>)"

definition row_count :: "catalog_db \<Rightarrow> nat" where
  "row_count db = length (cd_services db) + length (cd_layers db) + length (cd_coverages db) + length (cd_groups db) + length (cd_styles db)
     + length (cd_style_assets db) + length (cd_queries db) + length (db_keys (cd_auth db)) + length (db_mappings (cd_auth db))
     + length (db_policies (cd_auth db))"

definition RepairCatalogOrphans :: "instant \<Rightarrow> catalog_db \<Rightarrow> nat \<times> catalog_db" where
  "RepairCatalogOrphans now db =
     (let db' = repair_owned (repair_resources (repair_roles (repair_dataset_maps now db)))
      in (length (filter (invalid_dataset_map db) (cd_workspaces db)) + (row_count db - row_count db'), db'))"

record CatalogOwnership =
  cw_Workspaces :: "string list"
  cw_Services :: "(string, string) gomap"
  cw_Resources :: "(string, string) gomap"

text \<open>Later rows of an identifier overwrite earlier ones, hence the reversed lists.\<close>

definition collect_ownership :: "catalog_db \<Rightarrow> CatalogOwnership" where
  "collect_ownership db =
     \<lparr>cw_Workspaces = map ws_ID (cd_workspaces db),
      cw_Services = rev (map (\<lambda>s. (sv_ID s, sv_WorkspaceID s)) (filter (\<lambda>s. sv_WorkspaceID s \<in> workspace_ids db) (cd_services db))),
      cw_Resources = rev
        (concat (map (\<lambda>l. map (\<lambda>s. (ly_ID l, sv_WorkspaceID s))
            (filter (\<lambda>s. sv_ID s = ly_ServiceID l \<and> sv_WorkspaceID s \<in> workspace_ids db) (cd_services db))) (cd_layers db))
         @ map (\<lambda>c. (cv_ID c, cv_WorkspaceID c)) (filter (\<lambda>c. cv_WorkspaceID c \<in> workspace_ids db
             \<and> list_ex (\<lambda>s. sv_ID s = cv_ServiceID c \<and> sv_WorkspaceID s = cv_WorkspaceID c) (cd_services db)) (cd_coverages db))
         @ map (\<lambda>g. (lg_ID g, lg_WorkspaceID g)) (filter (\<lambda>g. lg_WorkspaceID g \<in> workspace_ids db) (cd_groups db)))\<rparr>"

section \<open>The repair is complete\<close>

lemma orphans_Nil [simp]: "orphans kind reason rows = [] \<longleftrightarrow> rows = []"
  by (simp add: orphans_def)

lemma sort_key_Nil_iff [simp]: "sort_key f xs = [] \<longleftrightarrow> xs = []"
  by (metis length_0_conv length_sort)

lemma repair_maps_ids: "map ws_ID (cd_workspaces (repair_dataset_maps now db)) = map ws_ID (cd_workspaces db)"
  by (simp add: repair_dataset_maps_def)

lemma workspace_ids_set: "workspace_ids db = set (map ws_ID (cd_workspaces db))"
  by (simp add: workspace_ids_def)

lemma stage_workspace_ids [simp]:
  "workspace_ids (repair_dataset_maps now db) = workspace_ids db" "workspace_ids (repair_roles db) = workspace_ids db"
  "workspace_ids (repair_resources db) = workspace_ids db" "workspace_ids (repair_owned db) = workspace_ids db"
  unfolding workspace_ids_set repair_maps_ids by (simp_all add: repair_roles_def repair_resources_def repair_owned_def Let_def)

lemma stage_role_ids [simp]:
  "role_ids (repair_dataset_maps now db) = role_ids db" "role_ids (repair_roles db) = role_ids db"
  "role_ids (repair_resources db) = role_ids db" "role_ids (repair_owned db) = role_ids db"
  by (simp_all add: role_ids_def repair_dataset_maps_def repair_roles_def repair_resources_def repair_owned_def Let_def)

lemma stage_services [simp]:
  "cd_services (repair_dataset_maps now db) = cd_services db" "cd_services (repair_roles db) = cd_services db"
  "cd_services (repair_resources db) = cd_services db"
  by (simp_all add: repair_dataset_maps_def repair_roles_def repair_resources_def)

lemma service_ids_cong: "cd_services db = cd_services db' \<Longrightarrow> service_ids db = service_ids db'"
  by (simp add: service_ids_def)

lemma stage_service_ids [simp]:
  "service_ids (repair_dataset_maps now db) = service_ids db" "service_ids (repair_roles db) = service_ids db"
  "service_ids (repair_resources db) = service_ids db"
  by (simp_all add: service_ids_def)

lemma service_ids_owned: "sv_ID s \<in> service_ids (repair_owned db)" if "s \<in> set (cd_services db)" "sv_WorkspaceID s \<in> workspace_ids db"
  using that by (auto simp: service_ids_def repair_owned_def Let_def)

lemma filter_enumerate_Nil: "filter (\<lambda>(_, x). P x) (enumerate n xs) = [] \<longleftrightarrow> (\<forall>x \<in> set xs. \<not> P x)"
  by (induction xs arbitrary: n) simp_all

lemma repair_maps_valid:
  "w \<in> set (cd_workspaces (repair_dataset_maps now db)) \<Longrightarrow> \<not> invalid_dataset_map (repair_dataset_maps now db) w"
  by (auto simp: repair_dataset_maps_def invalid_dataset_map_def split: if_splits)

lemma later_maps_valid:
  "invalid_dataset_map (repair_roles db) w = invalid_dataset_map db w" "invalid_dataset_map (repair_resources db) w = invalid_dataset_map db w"
  "w \<in> set (cd_workspaces db) \<Longrightarrow> invalid_dataset_map (repair_owned db) w = invalid_dataset_map db w"
  by (auto simp: repair_roles_def repair_resources_def repair_owned_def invalid_dataset_map_def list_ex_iff workspace_ids_def Let_def)

lemma later_workspaces [simp]:
  "cd_workspaces (repair_roles db) = cd_workspaces db" "cd_workspaces (repair_resources db) = cd_workspaces db"
  "cd_workspaces (repair_owned db) = cd_workspaces db"
  by (simp_all add: repair_roles_def repair_resources_def repair_owned_def Let_def)

lemma repair_resources_layers:
  assumes "l \<in> set (cd_layers (repair_owned (repair_resources db)))"
  shows "ly_ServiceID l \<in> service_ids (repair_owned (repair_resources db))"
proof -
  have l: "ly_ServiceID l \<in> service_ids db" "\<forall>s \<in> set (cd_services db). sv_ID s = ly_ServiceID l \<longrightarrow> sv_WorkspaceID s \<in> workspace_ids db"
    using assms by (auto simp: repair_owned_def repair_resources_def Let_def list_ex_iff)
  then obtain s where "s \<in> set (cd_services db)" "sv_ID s = ly_ServiceID l" by (auto simp: service_ids_def)
  with l(2) service_ids_owned [of s "repair_resources db"] show ?thesis by auto
qed

lemma repair_resources_coverages:
  assumes "c \<in> set (cd_coverages (repair_owned (repair_resources db)))"
  shows "\<not> coverage_orphan (repair_owned (repair_resources db)) c"
proof -
  have c: "cv_WorkspaceID c \<in> workspace_ids db" "cv_ServiceID c \<in> service_ids db"
    "\<forall>s \<in> set (cd_services db). sv_ID s = cv_ServiceID c \<longrightarrow> sv_WorkspaceID s = cv_WorkspaceID c"
    using assms by (auto simp: repair_owned_def repair_resources_def coverage_orphan_def Let_def list_ex_iff)
  then obtain s where "s \<in> set (cd_services db)" "sv_ID s = cv_ServiceID c" by (auto simp: service_ids_def)
  with c service_ids_owned [of s "repair_resources db"] have "cv_ServiceID c \<in> service_ids (repair_owned (repair_resources db))" by auto
  moreover have "set (cd_services (repair_owned (repair_resources db))) \<subseteq> set (cd_services db)" by (auto simp: repair_owned_def Let_def)
  ultimately show ?thesis using c by (auto simp: coverage_orphan_def list_ex_iff)
qed

lemma repair_owned_rows:
  "s \<in> set (cd_services (repair_owned db)) \<Longrightarrow> sv_WorkspaceID s \<in> workspace_ids db"
  "x \<in> set (cd_styles (repair_owned db)) \<Longrightarrow> or_WorkspaceID x \<in> workspace_ids db"
  "x \<in> set (cd_style_assets (repair_owned db)) \<Longrightarrow> or_WorkspaceID x \<in> workspace_ids db"
  "g \<in> set (cd_groups (repair_owned db)) \<Longrightarrow> lg_WorkspaceID g \<in> workspace_ids db"
  "q \<in> set (cd_queries (repair_owned db)) \<Longrightarrow> sq_WorkspaceID q \<in> workspace_ids db"
  "k \<in> set (db_keys (cd_auth (repair_owned db))) \<Longrightarrow> ak_WorkspaceID k = Some w \<Longrightarrow> w \<in> workspace_ids db"
  "m \<in> set (db_mappings (cd_auth (repair_owned db))) \<Longrightarrow> cm_WorkspaceID m \<in> workspace_ids db"
  "r \<in> set (db_policies (cd_auth (repair_owned db))) \<Longrightarrow> \<not> policy_orphan db r"
  by (auto simp: repair_owned_def Let_def)

lemma repair_roles_rows:
  "r \<in> set (db_policies (cd_auth (repair_owned (repair_resources (repair_roles db))))) \<Longrightarrow> cr_V0 r \<in> role_ids db"
  "k \<in> set (db_keys (cd_auth (repair_owned (repair_resources (repair_roles db))))) \<Longrightarrow> ak_RoleID k \<in> role_ids db"
  "m \<in> set (db_mappings (cd_auth (repair_owned (repair_resources (repair_roles db))))) \<Longrightarrow> cm_RoleID m \<in> role_ids db"
  by (auto simp: repair_owned_def repair_resources_def repair_roles_def Let_def)

lemma policy_orphan_owned: "policy_orphan (repair_owned db) r = policy_orphan db r"
  by (simp add: policy_orphan_def)

text \<open>
  C19. A repair is complete: after it the audit reports nothing, neither rows of workspaces, services or roles
  that do not exist nor a workspace map that selects a missing group. Workspaces and roles themselves
  are never removed by it.
\<close>

theorem repair_leaves_no_orphans:
  "AuditCatalogOrphans (snd (RepairCatalogOrphans now db)) = []
   \<and> workspace_ids (snd (RepairCatalogOrphans now db)) = workspace_ids db \<and> role_ids (snd (RepairCatalogOrphans now db)) = role_ids db"
proof -
  define d1 d2 where "d1 = repair_dataset_maps now db" and "d2 = repair_roles d1"
  have d: "snd (RepairCatalogOrphans now db) = repair_owned (repair_resources d2)"
    by (simp add: RepairCatalogOrphans_def d1_def d2_def Let_def)
  have ids: "workspace_ids d2 = workspace_ids db" "role_ids d2 = role_ids db" by (simp_all add: d1_def d2_def)
  have maps: "\<not> invalid_dataset_map (repair_owned (repair_resources d2)) w" if "w \<in> set (cd_workspaces d2)" for w
    using that repair_maps_valid [of w now db] by (simp add: later_maps_valid d1_def d2_def)
  note rows = repair_owned_rows [of _ "repair_resources d2"] repair_roles_rows [of _ d1, folded d2_def]
  have "role_ids d1 = role_ids d2" by (simp add: d2_def)
  note facts = maps rows [unfolded this stage_workspace_ids] repair_resources_layers [of _ d2] repair_resources_coverages [of _ d2]
  have keys: "\<not> (case ak_WorkspaceID k of None \<Rightarrow> False | Some w \<Rightarrow> w \<notin> workspace_ids (repair_owned (repair_resources d2)))"
    if "k \<in> set (db_keys (cd_auth (repair_owned (repair_resources d2))))" for k
    using facts(7) [OF that] by (auto split: option.splits)
  show ?thesis
    unfolding d AuditCatalogOrphans_def Let_def sort_key_Nil_iff append_is_Nil_conv orphans_Nil map_is_Nil_conv filter_enumerate_Nil
    using facts keys ids by (simp add: filter_empty_conv policy_orphan_owned later_workspaces)
qed

text \<open>The audit and the repair know no workspace \<^verbatim>\<open>*\<close>: a claim mapping for all workspaces counts as an orphan.\<close>

lemma repair_drops_global_mappings:
  assumes "''*'' \<notin> workspace_ids db" "m \<in> set (db_mappings (cd_auth (snd (RepairCatalogOrphans now db))))"
  shows "cm_WorkspaceID m \<noteq> ''*''"
proof -
  have "cm_WorkspaceID m \<in> workspace_ids db"
    using assms(2) repair_owned_rows(7) [of m] by (force simp: RepairCatalogOrphans_def Let_def)
  with assms(1) show ?thesis by auto
qed

end
