(* ===== verification/Catalog_Invariants.thy ===== *)
theory Catalog_Invariants
  imports Catalog_Integrity
begin

text \<open>
  The catalog under any sequence of operations. Two relations that no foreign key guards are kept by
  the checks of the code: the workspace map selects a group that exists, and a service deletion leaves
  no group behind that refers to what it removed, although its plan was made long before.
\<close>

section \<open>Operations\<close>

text \<open>The operations of the catalog that write to the tables of workspaces, services, groups and deletions, the
  publication of an import among them. \<open>OpRevisions\<close> stands for the writes that only raise the revisions of a
  workspace, \<open>OpOtherTables\<close> for every write to the other tables: credentials, layers and coverages,
  styles, stored queries and managed databases.\<close>

datatype catalog_op =
  OpCreateWorkspace string instant string string
| OpUpdateWorkspace instant string "string option" "string option"
| OpDeleteWorkspace string
| OpCreateService string instant CreateServiceInput
| OpUpdateService instant string UpdateServiceInput
| OpDeleteService string
| OpCreateLayer string instant CreateLayerInput
| OpDeleteLayer string
| OpCreateCoverage string instant CreateCoverageInput
| OpDeleteCoverage string
| OpCreateLayerGroup string instant CreateLayerGroupInput
| OpUpdateLayerGroup instant string UpdateLayerGroupInput
| OpDeleteLayerGroup string
| OpUpdateTiles instant string string
| OpBegin string instant DeletionPlan
| OpUpdateDeletion instant string DeletionStatus DeletionPhase string
| OpCommit instant string
| OpRepair instant
| OpPublish instant string "string list" PublishImportInput
| OpRevisions string
| OpOtherTables "catalog_db \<Rightarrow> catalog_db"

fun catalog_exec :: "(string list \<Rightarrow> string) \<Rightarrow> catalog_op \<Rightarrow> catalog_db \<Rightarrow> catalog_db" where
  "catalog_exec J (OpCreateWorkspace u t n d) db = snd (CreateWorkspace u t n d db)"
| "catalog_exec J (OpUpdateWorkspace t w n d) db = snd (UpdateWorkspace t w n d db)"
| "catalog_exec J (OpDeleteWorkspace w) db = snd (DeleteWorkspace w db)"
| "catalog_exec J (OpCreateService u t i) db = snd (CreateService u t i db)"
| "catalog_exec J (OpUpdateService t s i) db = snd (UpdateService t s i db)"
| "catalog_exec J (OpDeleteService s) db = snd (DeleteService J s db)"
| "catalog_exec J (OpCreateLayer u t i) db = snd (CreateLayer u t i db)"
| "catalog_exec J (OpDeleteLayer l) db = snd (DeleteLayer l db)"
| "catalog_exec J (OpCreateCoverage u t i) db = snd (CreateCoverage u t i db)"
| "catalog_exec J (OpDeleteCoverage c) db = snd (DeleteCoverage c db)"
| "catalog_exec J (OpCreateLayerGroup u t i) db = snd (CreateLayerGroup u t i db)"
| "catalog_exec J (OpUpdateLayerGroup t g i) db = snd (UpdateLayerGroup t g i db)"
| "catalog_exec J (OpDeleteLayerGroup g) db = snd (DeleteLayerGroup g db)"
| "catalog_exec J (OpUpdateTiles t w g) db = snd (UpdateOGCTilesAPISettings t w g db)"
| "catalog_exec J (OpBegin u t p) db = snd (BeginCatalogDeletion J u t p db)"
| "catalog_exec J (OpUpdateDeletion t i s ph e) db = snd (UpdateCatalogDeletion t i s ph e db)"
| "catalog_exec J (OpCommit t i) db = snd (CommitCatalogDeletion t i db)"
| "catalog_exec J (OpRepair t) db = snd (RepairCatalogOrphans t db)"
| "catalog_exec J (OpPublish t sid lids i) db = snd (publish_catalog t sid lids i db)"
| "catalog_exec J (OpRevisions w) db = bump_tiles w (bump_capabilities w db)"
| "catalog_exec J (OpOtherTables f) db =
     db\<lparr>cd_auth := cd_auth (f db), cd_layers := cd_layers (f db), cd_coverages := cd_coverages (f db), cd_styles := cd_styles (f db),
        cd_style_assets := cd_style_assets (f db), cd_queries := cd_queries (f db), cd_data_revisions := cd_data_revisions (f db),
        cd_managed := cd_managed (f db)\<rparr>"

text \<open>A new group has an identifier no plan knows, and a completed deletion is never reopened: the
  coordinator updates operations it found active.\<close>

fun proper_op :: "catalog_op \<Rightarrow> catalog_db \<Rightarrow> bool" where
  "proper_op (OpCreateLayerGroup u t i) db = (\<forall>op \<in> set (cd_deletions db). u \<notin> dr_ID ` set (dp_LayerGroups (do_Plan op)))"
| "proper_op (OpUpdateDeletion t i s ph e) db = (\<forall>op \<in> set (cd_deletions db). do_ID op = i \<longrightarrow> active op)"
| "proper_op _ _ = True"

definition empty_catalog :: "auth_db \<Rightarrow> catalog_db" where
  "empty_catalog a = \<lparr>cd_auth = a, cd_workspaces = [], cd_services = [], cd_layers = [], cd_coverages = [], cd_groups = [], cd_styles = [],
     cd_style_assets = [], cd_queries = [], cd_data_revisions = [], cd_managed = [], cd_deletions = []\<rparr>"

inductive catalog_reachable :: "(string list \<Rightarrow> string) \<Rightarrow> catalog_db \<Rightarrow> bool" for J where
  start: "catalog_reachable J (empty_catalog a)"
| step: "catalog_reachable J db \<Longrightarrow> proper_op oper db \<Longrightarrow> catalog_reachable J (catalog_exec J oper db)"

section \<open>The invariant\<close>

definition selections :: "catalog_db \<Rightarrow> (string \<times> string) set" where
  "selections db = {p \<in> (\<lambda>w. (ws_ID w, ws_DatasetMapLayerGroupID w)) ` set (cd_workspaces db). snd p \<noteq> []}"

definition plan_names :: "DeletionPlan \<Rightarrow> string set" where
  "plan_names p = dr_Name ` set (plan_refs p)"

definition plan_groups :: "DeletionPlan \<Rightarrow> string set" where
  "plan_groups p = dr_ID ` set (dp_LayerGroups p)"

definition removing :: "catalog_db \<Rightarrow> DeletionOperation \<Rightarrow> bool" where
  "removing db op = (op \<in> set (cd_deletions db) \<and> do_Scope op = DeletionScopeService \<and> active op)"

definition group_clear :: "DeletionOperation \<Rightarrow> LayerGroup \<Rightarrow> bool" where
  "group_clear op g =
     (lg_WorkspaceID g = do_WorkspaceID op \<longrightarrow> lg_ID g \<notin> plan_groups (do_Plan op) \<longrightarrow> lg_PublicID g \<notin> plan_names (do_Plan op) \<longrightarrow>
      (\<forall>m \<in> set (lg_Members g). gm_Resource m \<notin> plan_names (do_Plan op)))"

definition plan_kept :: "catalog_db \<Rightarrow> DeletionOperation \<Rightarrow> bool" where
  "plan_kept db op =
     (snd ` selections db \<inter> plan_groups (do_Plan op) = {}
      \<and> (\<forall>g \<in> set (cd_groups db). (lg_ID g \<in> plan_groups (do_Plan op) \<longrightarrow> lg_WorkspaceID g = do_WorkspaceID op) \<and> group_clear op g))"

definition catalog_ok :: "catalog_db \<Rightarrow> bool" where
  "catalog_ok db =
     (distinct (map lg_ID (cd_groups db)) \<and> distinct (map ws_ID (cd_workspaces db)) \<and> distinct (map do_ID (cd_deletions db))
      \<and> (\<forall>(w, gid) \<in> selections db. \<exists>g \<in> set (cd_groups db). lg_ID g = gid \<and> lg_WorkspaceID g = w)
      \<and> (\<forall>op. removing db op \<longrightarrow> plan_kept db op))"

lemma catalog_okD:
  assumes "catalog_ok db"
  shows "distinct (map lg_ID (cd_groups db))" "distinct (map ws_ID (cd_workspaces db))" "distinct (map do_ID (cd_deletions db))"
    "(w, gid) \<in> selections db \<Longrightarrow> \<exists>g \<in> set (cd_groups db). lg_ID g = gid \<and> lg_WorkspaceID g = w"
    "removing db op \<Longrightarrow> plan_kept db op"
  using assms by (auto simp: catalog_ok_def)

text \<open>Most operations touch neither selections nor groups nor operations; some only take rows away.\<close>

lemma catalog_ok_frame:
  assumes "catalog_ok db" "cd_groups db' = cd_groups db" "distinct (map ws_ID (cd_workspaces db'))" "selections db' = selections db"
    "cd_deletions db' = cd_deletions db"
  shows "catalog_ok db'"
  using assms by (simp add: catalog_ok_def removing_def plan_kept_def)

lemma catalog_ok_shrink:
  assumes "catalog_ok db" "set (cd_groups db') \<subseteq> set (cd_groups db)" "distinct (map lg_ID (cd_groups db'))" "distinct (map ws_ID (cd_workspaces db'))"
    "selections db' \<subseteq> selections db" "cd_deletions db' = cd_deletions db"
    "\<forall>(w, gid) \<in> selections db'. \<forall>g \<in> set (cd_groups db). lg_ID g = gid \<and> lg_WorkspaceID g = w \<longrightarrow> g \<in> set (cd_groups db')"
  shows "catalog_ok db'"
proof -
  have "\<exists>g \<in> set (cd_groups db'). lg_ID g = gid \<and> lg_WorkspaceID g = w" if "(w, gid) \<in> selections db'" for w gid
    using that assms(5,7) catalog_okD(4) [OF assms(1), of w gid] by blast
  moreover have "plan_kept db' op" if "removing db' op" for op
    using catalog_okD(5) [OF assms(1), of op] that assms(2,5,6) by (auto simp: removing_def plan_kept_def)
  ultimately show ?thesis using assms(1,3,4,6) by (auto simp: catalog_ok_def)
qed

lemma selections_map:
  assumes "cd_workspaces db' = map f (cd_workspaces db)" "\<And>w. ws_ID (f w) = ws_ID w" "\<And>w. ws_DatasetMapLayerGroupID (f w) = ws_DatasetMapLayerGroupID w"
  shows "selections db' = selections db"
  unfolding selections_def assms(1) by (simp add: image_image assms(2,3))

lemma bump_selections [simp]: "selections (bump_capabilities w db) = selections db" "selections (bump_tiles w db) = selections db"
proof -
  show "selections (bump_capabilities w db) = selections db"
    by (rule selections_map [where f = "\<lambda>v. if ws_ID v = w then v\<lparr>ws_CapabilitiesRevision := ws_CapabilitiesRevision v + 1\<rparr> else v"])
      (simp_all add: bump_capabilities_def)
  show "selections (bump_tiles w db) = selections db"
    by (rule selections_map [where f = "\<lambda>v. if ws_ID v = w then v\<lparr>ws_TileRevision := ws_TileRevision v + 1\<rparr> else v"])
      (simp_all add: bump_tiles_def)
qed

lemma bump_frame [simp]:
  "cd_groups (bump_capabilities w db) = cd_groups db" "cd_deletions (bump_capabilities w db) = cd_deletions db"
  "map ws_ID (cd_workspaces (bump_capabilities w db)) = map ws_ID (cd_workspaces db)"
  "cd_groups (bump_tiles w db) = cd_groups db" "cd_deletions (bump_tiles w db) = cd_deletions db"
  "map ws_ID (cd_workspaces (bump_tiles w db)) = map ws_ID (cd_workspaces db)"
  by (simp_all add: bump_capabilities_def bump_tiles_def)

lemma catalog_ok_bump: "catalog_ok (bump_capabilities w db) = catalog_ok db" "catalog_ok (bump_tiles w db) = catalog_ok db"
  by (simp_all add: catalog_ok_def removing_def plan_kept_def)

lemma execCapabilitiesMutation_ok:
  assumes "catalog_ok db" "\<And>x db'. change db = (Inr x, db') \<Longrightarrow> catalog_ok db'"
  shows "catalog_ok (snd (execCapabilitiesMutation owner change db))"
  using assms by (auto simp: execCapabilitiesMutation_def catalog_ok_bump split: option.splits prod.splits sum.splits)

section \<open>Services, layers and coverages\<close>

text \<open>A change of other tables only.\<close>

definition other_tables :: "catalog_db \<Rightarrow> catalog_db \<Rightarrow> bool" where
  "other_tables db db' = (cd_groups db' = cd_groups db \<and> cd_workspaces db' = cd_workspaces db \<and> cd_deletions db' = cd_deletions db)"

lemma other_tables_ok: "catalog_ok db \<Longrightarrow> other_tables db db' \<Longrightarrow> catalog_ok db'"
  by (rule catalog_ok_frame) (auto simp: other_tables_def selections_def catalog_okD)

lemma exec_other_ok:
  assumes "catalog_ok db" "\<And>x db'. change db = (Inr x, db') \<Longrightarrow> other_tables db db'"
  shows "catalog_ok (snd (execCapabilitiesMutation owner change db))"
  by (rule execCapabilitiesMutation_ok [OF assms(1)]) (rule other_tables_ok [OF assms(1) assms(2)])

lemma service_ops_ok:
  assumes "catalog_ok db"
  shows "catalog_ok (snd (CreateService u t i db))" "catalog_ok (snd (UpdateService t sid i' db))" "catalog_ok (snd (DeleteService J sid db))"
proof -
  show "catalog_ok (snd (CreateService u t i db))" unfolding CreateService_def
    by (rule execCapabilitiesMutation_ok [OF assms]) (auto intro!: other_tables_ok [OF assms] simp: other_tables_def Let_def split: if_splits)
  show "catalog_ok (snd (UpdateService t sid i' db))"
    using assms by (auto simp: UpdateService_def catalog_ok_bump other_tables_def Let_def split: sum.splits intro!: other_tables_ok [OF assms])
  show "catalog_ok (snd (DeleteService J sid db))"
    using assms by (auto simp: DeleteService_def other_tables_def split: sum.splits intro!: exec_other_ok)
qed

lemma layer_ops_ok:
  assumes "catalog_ok db"
  shows "catalog_ok (snd (CreateLayer u t i db))" "catalog_ok (snd (DeleteLayer lid db))"
    "catalog_ok (snd (CreateCoverage u t i' db))" "catalog_ok (snd (DeleteCoverage cid db))"
proof -
  show "catalog_ok (snd (CreateLayer u t i db))"
    using assms by (auto simp: CreateLayer_def other_tables_def Let_def split: option.splits if_splits
        intro!: exec_other_ok)
  show "catalog_ok (snd (DeleteLayer lid db))"
    using assms by (auto simp: DeleteLayer_def other_tables_def intro!: exec_other_ok)
  show "catalog_ok (snd (CreateCoverage u t i' db))"
    using assms by (auto simp: CreateCoverage_def other_tables_def Let_def split: option.splits if_splits
        intro!: exec_other_ok)
  show "catalog_ok (snd (DeleteCoverage cid db))"
    using assms by (auto simp: DeleteCoverage_def other_tables_def intro!: exec_other_ok)
qed

section \<open>Workspaces\<close>

lemma selections_append: "selections (db\<lparr>cd_workspaces := cd_workspaces db @ [w]\<rparr>) = selections db" if "ws_DatasetMapLayerGroupID w = []"
  using that by (auto simp: selections_def)

lemma catalog_ok_map_workspaces:
  assumes "catalog_ok db" "\<And>w. ws_ID (f w) = ws_ID w" "\<And>w. ws_DatasetMapLayerGroupID (f w) = ws_DatasetMapLayerGroupID w"
  shows "catalog_ok (db\<lparr>cd_workspaces := map f (cd_workspaces db)\<rparr>)"
proof (rule catalog_ok_frame [OF assms(1)])
  show "selections (db\<lparr>cd_workspaces := map f (cd_workspaces db)\<rparr>) = selections db" by (rule selections_map [OF _ assms(2,3)]) simp
  show "distinct (map ws_ID (cd_workspaces (db\<lparr>cd_workspaces := map f (cd_workspaces db)\<rparr>)))"
    using catalog_okD(2) [OF assms(1)] by (simp add: comp_def assms(2))
qed simp_all

lemma CreateWorkspace_ok:
  assumes "catalog_ok db"
  shows "catalog_ok (snd (CreateWorkspace u t n d db))"
proof (cases "u \<in> ws_ID ` set (cd_workspaces db) \<or> n \<in> ws_Name ` set (cd_workspaces db)")
  case True then show ?thesis using assms by (simp add: CreateWorkspace_def)
next
  case False
  let ?w = "\<lparr>ws_ID = u, ws_Name = n, ws_Description = d, ws_CreatedAt = t, ws_UpdatedAt = t, ws_DatasetMapLayerGroupID = [], ws_TileRevision = 1, ws_CapabilitiesRevision = 1\<rparr>"
  have "snd (CreateWorkspace u t n d db) = db\<lparr>cd_workspaces := cd_workspaces db @ [?w]\<rparr>" using False by (simp add: CreateWorkspace_def Let_def)
  moreover have "catalog_ok (db\<lparr>cd_workspaces := cd_workspaces db @ [?w]\<rparr>)"
    by (rule catalog_ok_frame [OF assms]) (use False catalog_okD(2) [OF assms] in \<open>simp_all add: selections_append\<close>)
  ultimately show ?thesis by simp
qed

lemma UpdateWorkspace_ok: "catalog_ok db \<Longrightarrow> catalog_ok (snd (UpdateWorkspace t wid n d db))"
  by (auto simp: UpdateWorkspace_def Let_def split: sum.splits intro!: catalog_ok_map_workspaces)

lemma selections_filter: "cd_workspaces db' = filter P (cd_workspaces db) \<Longrightarrow> selections db' \<subseteq> selections db"
  by (auto simp: selections_def)

lemma DeleteWorkspace_ok:
  assumes "catalog_ok db"
  shows "catalog_ok (snd (DeleteWorkspace wid db))"
proof (cases "snd (DeleteWorkspace wid db) = db")
  case False
  then have "cd_workspaces (snd (DeleteWorkspace wid db)) = filter (\<lambda>w. ws_ID w \<noteq> wid) (cd_workspaces db)"
    "cd_groups (snd (DeleteWorkspace wid db)) = cd_groups db" "cd_deletions (snd (DeleteWorkspace wid db)) = cd_deletions db"
    by (auto simp: DeleteWorkspace_def split: sum.splits if_splits)
  then show ?thesis
    using catalog_okD(1,2) [OF assms]
    by (intro catalog_ok_shrink [OF assms]) (simp_all add: selections_filter List.distinct_map_filter)
qed (simp add: assms)

section \<open>Layer groups\<close>

text \<open>A group write is admitted only when it touches no name and no identifier of an active plan.\<close>

lemma validate_clear:
  assumes "validateGroupDeletionState wid gid pid members db = None" "removing db op" "do_WorkspaceID op = wid"
  shows "pid \<notin> plan_names (do_Plan op)" "gid \<noteq> [] \<Longrightarrow> gid \<notin> plan_groups (do_Plan op)" "m \<in> set members \<Longrightarrow> gm_Resource m \<notin> plan_names (do_Plan op)"
proof -
  have "op \<in> set (ListPendingCatalogDeletions db)" using assms(2) by (simp add: removing_def ListPendingCatalogDeletions_def)
  then have "\<not> group_touches gid pid members r" if "r \<in> set (dp_LayerGroups (do_Plan op)) \<union> set (dp_Layers (do_Plan op)) \<union> set (dp_Coverages (do_Plan op))" for r
    using assms(1,3) that by (auto simp: validateGroupDeletionState_def list_ex_iff split: if_splits)
  then have n: "\<not> group_touches gid pid members r" if "r \<in> set (plan_refs (do_Plan op))" for r using that by (auto simp: plan_refs_def)
  show "pid \<notin> plan_names (do_Plan op)" using n by (auto simp: group_touches_def plan_names_def)
  show "gid \<notin> plan_groups (do_Plan op)" if "gid \<noteq> []" using n that by (auto simp: group_touches_def plan_groups_def plan_refs_def)
  show "gm_Resource m \<notin> plan_names (do_Plan op)" if "m \<in> set members" using n that unfolding group_touches_def plan_names_def by (metis imageE imageI)
qed

lemma catalog_ok_groups:
  assumes "catalog_ok db" "distinct (map lg_ID gs)"
    and "\<And>g op. g \<in> set gs \<Longrightarrow> g \<notin> set (cd_groups db) \<Longrightarrow> removing db op \<Longrightarrow>
           (lg_ID g \<in> plan_groups (do_Plan op) \<longrightarrow> lg_WorkspaceID g = do_WorkspaceID op) \<and> group_clear op g"
    and "\<And>w gid g. (w, gid) \<in> selections db \<Longrightarrow> g \<in> set (cd_groups db) \<Longrightarrow> lg_ID g = gid \<Longrightarrow> lg_WorkspaceID g = w
           \<Longrightarrow> \<exists>h \<in> set gs. lg_ID h = gid \<and> lg_WorkspaceID h = w"
  shows "catalog_ok (db\<lparr>cd_groups := gs\<rparr>)"
proof -
  have sel: "selections (db\<lparr>cd_groups := gs\<rparr>) = selections db" by (simp add: selections_def)
  have "plan_kept (db\<lparr>cd_groups := gs\<rparr>) op" if "removing db op" for op
    using catalog_okD(5) [OF assms(1) that] assms(3) [OF _ _ that] by (simp add: plan_kept_def sel) blast
  then show ?thesis
    using catalog_okD(2-4) [OF assms(1)] assms(2,4) by (fastforce simp: catalog_ok_def sel removing_def)
qed

lemma CreateLayerGroup_ok:
  assumes "catalog_ok db" "proper_op (OpCreateLayerGroup u t i) db"
  shows "catalog_ok (snd (CreateLayerGroup u t i db))"
proof (cases "validateGroupDeletionState (gi_WorkspaceID i) [] (gi_PublicID i) (gi_Members i) db")
  case None
  note clear = validate_clear [OF None]
  have "catalog_ok db'" if "(if \<exists>g \<in> set (cd_groups db). lg_ID g = u \<or> (lg_WorkspaceID g = gi_WorkspaceID i \<and> lg_PublicID g = gi_PublicID i)
      then (Inl (DbErr ErrDuplicateKey), db)
      else let g = \<lparr>lg_ID = u, lg_WorkspaceID = gi_WorkspaceID i, lg_PublicID = gi_PublicID i, lg_AllowedRoles = gi_AllowedRoles i,
                   lg_Members = gi_Members i, lg_TileCacheGeneration = 1, lg_Metadata = gi_Metadata i, lg_CreatedAt = t, lg_UpdatedAt = t\<rparr>
           in (Inr g, db\<lparr>cd_groups := cd_groups db @ [g]\<rparr>)) = (Inr x, db')" for x db'
  proof -
    let ?g = "\<lparr>lg_ID = u, lg_WorkspaceID = gi_WorkspaceID i, lg_PublicID = gi_PublicID i, lg_AllowedRoles = gi_AllowedRoles i,
               lg_Members = gi_Members i, lg_TileCacheGeneration = 1, lg_Metadata = gi_Metadata i, lg_CreatedAt = t, lg_UpdatedAt = t\<rparr>"
    from that have db': "db' = db\<lparr>cd_groups := cd_groups db @ [?g]\<rparr>" and "u \<notin> lg_ID ` set (cd_groups db)"
      by (auto simp: Let_def split: if_splits)
    then show ?thesis unfolding db'
      using catalog_okD(1) [OF assms(1)] assms(2) clear
      by (intro catalog_ok_groups [OF assms(1)]) (auto simp: group_clear_def removing_def plan_groups_def)
  qed
  then show ?thesis
    using None assms(1) by (auto simp: CreateLayerGroup_def split: option.splits intro!: execCapabilitiesMutation_ok)
next
  case (Some e) then show ?thesis using assms(1) by (simp add: CreateLayerGroup_def split: option.splits)
qed

lemma UpdateLayerGroup_ok:
  assumes "catalog_ok db"
  shows "catalog_ok (snd (UpdateLayerGroup t gid i db))"
proof -
  have "catalog_ok (db\<lparr>cd_groups := map (\<lambda>v. if lg_ID v = gid then g else v) (cd_groups db)\<rparr>)"
    if g0: "GetLayerGroup gid db = Inr g0" and g: "lg_ID g = lg_ID g0" "lg_WorkspaceID g = lg_WorkspaceID g0"
      and v: "validateGroupDeletionState (lg_WorkspaceID g) (lg_ID g) (lg_PublicID g) (lg_Members g) db = None" for g g0
  proof (rule catalog_ok_groups [OF assms])
    from g0 have g0': "g0 \<in> set (cd_groups db)" "lg_ID g0 = gid" by (auto simp: GetLayerGroup_def split: option.splits dest: find_SomeD)
    show "distinct (map lg_ID (map (\<lambda>v. if lg_ID v = gid then g else v) (cd_groups db)))"
      using catalog_okD(1) [OF assms] g(1) g0'(2) by (simp add: comp_def if_distrib [of lg_ID] cong: if_cong)
    fix h op assume h: "h \<in> set (map (\<lambda>v. if lg_ID v = gid then g else v) (cd_groups db))" "h \<notin> set (cd_groups db)" and op: "removing db op"
    then have "h = g" by auto
    moreover have "lg_ID g \<in> plan_groups (do_Plan op) \<longrightarrow> lg_WorkspaceID g = do_WorkspaceID op"
      using catalog_okD(5) [OF assms op] g0'(1) g by (simp add: plan_kept_def)
    ultimately show "(lg_ID h \<in> plan_groups (do_Plan op) \<longrightarrow> lg_WorkspaceID h = do_WorkspaceID op) \<and> group_clear op h"
      using validate_clear(3) [OF v op] by (simp add: group_clear_def)
  next
    fix w gid' h assume "(w, gid') \<in> selections db" and h: "h \<in> set (cd_groups db)" "lg_ID h = gid'" "lg_WorkspaceID h = w"
    from g0 have g0': "g0 \<in> set (cd_groups db)" "lg_ID g0 = gid" by (auto simp: GetLayerGroup_def split: option.splits dest: find_SomeD)
    show "\<exists>k \<in> set (map (\<lambda>v. if lg_ID v = gid then g else v) (cd_groups db)). lg_ID k = gid' \<and> lg_WorkspaceID k = w"
    proof (cases "lg_ID h = gid")
      case True
      then have "h = g0" using catalog_okD(1) [OF assms] h(1) g0' by (auto simp: distinct_map inj_on_def)
      then show ?thesis using g h True by (intro bexI [of _ g]) (auto simp: image_iff)
    next
      case False then show ?thesis using h by (intro bexI [of _ h]) (auto simp: image_iff)
    qed
  qed
  then show ?thesis
    using assms by (auto simp: UpdateLayerGroup_def Let_def split: option.splits sum.splits if_splits intro!: execCapabilitiesMutation_ok)
qed

lemma DeleteLayerGroup_ok:
  assumes "catalog_ok db"
  shows "catalog_ok (snd (DeleteLayerGroup gid db))"
proof (cases "gid \<in> ws_DatasetMapLayerGroupID ` set (cd_workspaces db)")
  case False
  have "catalog_ok (db\<lparr>cd_groups := filter (\<lambda>g. lg_ID g \<noteq> gid) (cd_groups db)\<rparr>)"
  proof (rule catalog_ok_groups [OF assms])
    fix w gid' g assume s: "(w, gid') \<in> selections db" and g: "g \<in> set (cd_groups db)" "lg_ID g = gid'" "lg_WorkspaceID g = w"
    from s False have "gid' \<noteq> gid" by (auto simp: selections_def)
    with g show "\<exists>h \<in> set (filter (\<lambda>g. lg_ID g \<noteq> gid) (cd_groups db)). lg_ID h = gid' \<and> lg_WorkspaceID h = w" by auto
  qed (use catalog_okD(1) [OF assms] in \<open>auto simp: List.distinct_map_filter\<close>)
  then show ?thesis using False assms by (auto simp: DeleteLayerGroup_def intro!: execCapabilitiesMutation_ok)
qed (simp add: DeleteLayerGroup_def assms)

section \<open>The workspace map\<close>

lemma catalog_ok_select:
  assumes "catalog_ok db" "distinct (map ws_ID ws)"
    and "\<And>w gid. (w, gid) \<in> selections (db\<lparr>cd_workspaces := ws\<rparr>) \<Longrightarrow> (w, gid) \<in> selections db
           \<or> ((\<exists>g \<in> set (cd_groups db). lg_ID g = gid \<and> lg_WorkspaceID g = w) \<and> (\<forall>op. removing db op \<longrightarrow> gid \<notin> plan_groups (do_Plan op)))"
  shows "catalog_ok (db\<lparr>cd_workspaces := ws\<rparr>)"
proof -
  have "plan_kept (db\<lparr>cd_workspaces := ws\<rparr>) op" if "removing db op" for op
    using catalog_okD(5) [OF assms(1) that] assms(3) that by (fastforce simp: plan_kept_def)
  moreover have "\<exists>g \<in> set (cd_groups db). lg_ID g = gid \<and> lg_WorkspaceID g = w" if "(w, gid) \<in> selections (db\<lparr>cd_workspaces := ws\<rparr>)" for w gid
    using assms(3) [OF that] catalog_okD(4) [OF assms(1)] by blast
  ultimately show ?thesis using catalog_okD(1,3) [OF assms(1)] assms(2) by (auto simp: catalog_ok_def removing_def)
qed

lemma valid_selection:
  assumes "catalog_ok db" "validateDatasetMapSelection wid gid db = None" "gid \<noteq> []"
  shows "\<exists>g \<in> set (cd_groups db). lg_ID g = gid \<and> lg_WorkspaceID g = wid" "removing db op \<Longrightarrow> gid \<notin> plan_groups (do_Plan op)"
proof -
  from assms(2,3) obtain g where f: "GetLayerGroup gid db = Inr g" and w: "lg_WorkspaceID g = wid"
    and v: "validateGroupDeletionState wid (lg_ID g) (lg_PublicID g) (lg_Members g) db = None"
    by (auto simp: validateDatasetMapSelection_def split: sum.splits if_splits option.splits)
  from f have g: "g \<in> set (cd_groups db)" "lg_ID g = gid" by (auto simp: GetLayerGroup_def split: option.splits dest: find_SomeD)
  then show "\<exists>g \<in> set (cd_groups db). lg_ID g = gid \<and> lg_WorkspaceID g = wid" using w by blast
  assume op: "removing db op"
  show "gid \<notin> plan_groups (do_Plan op)"
  proof (cases "do_WorkspaceID op = wid")
    case True then show ?thesis using validate_clear(2) [OF v op] assms(3) g(2) by simp
  next
    case False then show ?thesis using catalog_okD(5) [OF assms(1) op] g w by (auto simp: plan_kept_def)
  qed
qed

lemma UpdateOGCTilesAPISettings_ok:
  assumes "catalog_ok db"
  shows "catalog_ok (snd (UpdateOGCTilesAPISettings t wid gid db))"
proof (cases "validateDatasetMapSelection wid gid db = None \<and> wid \<in> ws_ID ` set (cd_workspaces db)")
  case True
  let ?f = "\<lambda>w. if ws_ID w = wid then w\<lparr>ws_DatasetMapLayerGroupID := gid, ws_CapabilitiesRevision := ws_CapabilitiesRevision w + 1,
                         ws_TileRevision := ws_TileRevision w + 1, ws_UpdatedAt := t\<rparr> else w"
  have "catalog_ok (db\<lparr>cd_workspaces := map ?f (cd_workspaces db)\<rparr>)"
  proof (rule catalog_ok_select [OF assms])
    show "distinct (map ws_ID (map ?f (cd_workspaces db)))"
      using catalog_okD(2) [OF assms] by (simp add: comp_def if_distrib [of ws_ID] cong: if_cong)
    fix w g assume "(w, g) \<in> selections (db\<lparr>cd_workspaces := map ?f (cd_workspaces db)\<rparr>)"
    then obtain v where v: "v \<in> set (cd_workspaces db)" "w = ws_ID (?f v)" "g = ws_DatasetMapLayerGroupID (?f v)" "g \<noteq> []"
      by (auto simp: selections_def)
    show "(w, g) \<in> selections db \<or> ((\<exists>h \<in> set (cd_groups db). lg_ID h = g \<and> lg_WorkspaceID h = w)
        \<and> (\<forall>op. removing db op \<longrightarrow> g \<notin> plan_groups (do_Plan op)))"
    proof (cases "ws_ID v = wid")
      case True
      then have "w = wid" "g = gid" using v by auto
      then show ?thesis using valid_selection [OF assms] \<open>validateDatasetMapSelection wid gid db = None \<and> _\<close> v(4) by blast
    next
      case False then show ?thesis using v by (auto simp: selections_def)
    qed
  qed
  then show ?thesis using True by (simp add: UpdateOGCTilesAPISettings_def)
next
  case False then show ?thesis using assms by (auto simp: UpdateOGCTilesAPISettings_def split: option.splits)
qed

section \<open>Deletions\<close>

lemma sort_plan_simps [simp]:
  "set (dp_LayerGroups (sort_plan p)) = set (dp_LayerGroups p)" "set (dp_Layers (sort_plan p)) = set (dp_Layers p)"
  "set (dp_Coverages (sort_plan p)) = set (dp_Coverages p)" "dp_WorkspaceID (sort_plan p) = dp_WorkspaceID p"
  "dp_Target (sort_plan p) = dp_Target p" "dp_Scope (sort_plan p) = dp_Scope p" "(dp_Blockers (sort_plan p) = []) = (dp_Blockers p = [])"
  by (simp_all add: sort_plan_def sort_refs_def)

lemma deletionRefs_names [simp]: "dr_Name ` set (deletionRefs kind reason rows) = snd ` set rows"
  by (force simp: deletionRefs_def)

text \<open>What a successful plan for a service says about its groups.\<close>

lemma PlanServiceDeletion_groups:
  assumes "PlanServiceDeletion J wid sid db = Inr p"
  obtains base names refs selected where "group_closure (ListLayerGroups wid db) base [] = (names, refs)"
    "set (dp_LayerGroups p) = set refs" "plan_names p = set names" "dp_WorkspaceID p = wid" "dp_Scope p = DeletionScopeService"
    "GetOGCTilesAPISettings wid db = Inr selected" "dp_Blockers p = [] \<Longrightarrow> selected \<notin> dr_ID ` set refs"
    "dr_ID (dp_Target p) = sid"
proof -
  let ?layers = "map (\<lambda>l. (ly_ID l, ly_PublicID l)) (filter (\<lambda>l. ly_ServiceID l = sid) (cd_layers db))"
  let ?coverages = "map (\<lambda>c. (cv_ID c, cv_PublicID c)) (filter (\<lambda>c. cv_ServiceID c = sid) (cd_coverages db))"
  obtain names refs where c: "group_closure (ListLayerGroups wid db) (map snd ?layers @ map snd ?coverages) [] = (names, refs)"
    by fastforce
  have "closure_ok (set (map snd ?layers @ map snd ?coverages)) (set (ListLayerGroups wid db)) (map snd ?layers @ map snd ?coverages) []"
    by (simp add: closure_ok_def)
  from conjunct1 [OF group_closure_ok [OF this c]]
  have names: "set names = set (map snd ?layers @ map snd ?coverages) \<union> dr_Name ` set refs" by (simp add: closure_ok_def)
  obtain s where s: "GetService sid db = Inr s" "sv_WorkspaceID s = wid"
    using assms by (auto simp: PlanServiceDeletion_def split: sum.splits if_splits)
  have sid: "sv_ID s = sid" using s(1) by (auto simp: GetService_def split: option.splits dest: find_SomeD)
  obtain selected where sel: "GetOGCTilesAPISettings wid db = Inr selected"
    using assms by (auto simp: PlanServiceDeletion_def s c addDatasetMapDeletionBlocker_def bind_res_def empty_plan_def
        split: sum.splits if_splits simp del: map_append map_map)
  have p: "set (dp_LayerGroups p) = set refs" "dp_WorkspaceID p = wid" "dp_Scope p = DeletionScopeService" "dr_ID (dp_Target p) = sid"
      "set (dp_Layers p) = set (deletionRefs ''layer'' ''owned by service'' ?layers)"
      "set (dp_Coverages p) = set (deletionRefs ''coverage'' ''owned by service'' ?coverages)"
      "dp_Blockers p = [] \<Longrightarrow> filter (\<lambda>g. dr_ID g = selected) refs = []"
    using assms by (auto simp: PlanServiceDeletion_def s c sel sid addDatasetMapDeletionBlocker_def empty_plan_def Let_def simp del: map_append map_map)
  have "plan_names p = set names"
    unfolding plan_names_def plan_refs_def set_append image_Un p(1,5,6) deletionRefs_names names set_map by blast
  moreover have "dp_Blockers p = [] \<Longrightarrow> selected \<notin> dr_ID ` set refs" using p(7) by (auto simp: filter_empty_conv)
  ultimately show ?thesis using that c p(1-4) sel by blast
qed

lemma find_workspace: "distinct (map ws_ID ws) \<Longrightarrow> w \<in> set ws \<Longrightarrow> find (\<lambda>v. ws_ID v = ws_ID w) ws = Some w"
  by (induction ws) auto

lemma new_plan_kept:
  assumes "catalog_ok db" "PlanServiceDeletion J wid sid db = Inr p" "dp_Blockers p = []"
    and "plan_groups (do_Plan op) = plan_groups p" "plan_names (do_Plan op) = plan_names p" "do_WorkspaceID op = wid"
  shows "plan_kept db op"
proof -
  from assms(2) obtain base names refs selected where c: "group_closure (ListLayerGroups wid db) base [] = (names, refs)"
    "set (dp_LayerGroups p) = set refs" "plan_names p = set names" "GetOGCTilesAPISettings wid db = Inr selected" "selected \<notin> dr_ID ` set refs"
    by (rule PlanServiceDeletion_groups) (use assms(3) in simp)
  have "closure_ok (set base) (set (ListLayerGroups wid db)) base []" by (simp add: closure_ok_def)
  note ok = group_closure_ok [OF this c(1)]
  have own: "\<exists>h \<in> set (cd_groups db). lg_ID h = gid \<and> lg_WorkspaceID h = wid" if "gid \<in> plan_groups p" for gid
  proof -
    from that obtain r where r: "r \<in> set refs" "dr_ID r = gid" by (auto simp: plan_groups_def c(2))
    from r(1) conjunct1 [OF ok] obtain h where "r = group_ref h" "depends (set base) (set (ListLayerGroups wid db)) h" by (auto simp: closure_ok_def)
    with r(2) depends_in show ?thesis by (auto simp: group_ref_def ListLayerGroups_def)
  qed
  have group: "lg_WorkspaceID g = wid" if "g \<in> set (cd_groups db)" "lg_ID g \<in> plan_groups p" for g
    using own [OF that(2)] that(1) catalog_okD(1) [OF assms(1)] by (auto simp: distinct_map inj_on_def)
  have "gid \<notin> plan_groups p" if sel: "(w, gid) \<in> selections db" for w gid
  proof
    assume gid: "gid \<in> plan_groups p"
    from catalog_okD(4) [OF assms(1) sel] group gid have "w = wid" by auto
    from sel obtain v where v: "v \<in> set (cd_workspaces db)" "ws_ID v = w" "ws_DatasetMapLayerGroupID v = gid" by (auto simp: selections_def)
    have "selected = gid"
      using c(4) find_workspace [OF catalog_okD(2) [OF assms(1)] v(1)] v \<open>w = wid\<close> by (simp add: GetOGCTilesAPISettings_def)
    then show False using c(2,5) gid by (auto simp: plan_groups_def)
  qed
  moreover have "group_clear op g" if "g \<in> set (cd_groups db)" for g
    using conjunct2 [OF ok] that assms(5,6) c(3) by (auto simp: group_clear_def ListLayerGroups_def)
  ultimately show ?thesis using group assms(4,6) by (auto simp: plan_kept_def)
qed

lemma current_plan_service:
  assumes "current_plan J plan db = Inr p" "dp_Scope p = DeletionScopeService"
  shows "\<exists>sid q. PlanServiceDeletion J (dp_WorkspaceID p) sid db = Inr q \<and> dp_Blockers q = [] \<and> plan_groups q = plan_groups p \<and> plan_names q = plan_names p"
proof (cases "dp_Scope plan = DeletionScopeService")
  case True
  with assms(1) obtain q where q: "PlanServiceDeletion J (dp_WorkspaceID plan) (dr_ID (dp_Target plan)) db = Inr q" "dp_Blockers q = []" "p = q\<lparr>dp_Auxiliary := dp_Auxiliary plan\<rparr>"
    by (auto simp: current_plan_def bind_res_def split: sum.splits if_splits)
  moreover have "dp_WorkspaceID q = dp_WorkspaceID plan" by (rule PlanServiceDeletion_groups [OF q(1)]) simp
  ultimately show ?thesis
    by (intro exI [of _ "dr_ID (dp_Target plan)"] exI [of _ q]) (simp add: plan_groups_def plan_names_def plan_refs_def)
next
  case False with assms show ?thesis by (simp add: current_plan_def)
qed

lemma BeginCatalogDeletion_cases:
  obtains "snd (BeginCatalogDeletion J u t plan db) = db"
  | p where "current_plan J plan db = Inr p" "u \<notin> do_ID ` set (cd_deletions db)"
      "snd (BeginCatalogDeletion J u t plan db) = db\<lparr>cd_deletions := cd_deletions db @ [new_operation u t (sort_plan p)]\<rparr>"
proof -
  have "snd (BeginCatalogDeletion J u t plan db) = db \<or> (\<exists>p. current_plan J plan db = Inr p \<and> u \<notin> do_ID ` set (cd_deletions db)
      \<and> snd (BeginCatalogDeletion J u t plan db) = db\<lparr>cd_deletions := cd_deletions db @ [new_operation u t (sort_plan p)]\<rparr>)"
    by (simp add: BeginCatalogDeletion_def Let_def split: option.split sum.split)
  with that show thesis by blast
qed

lemma BeginCatalogDeletion_ok:
  assumes "catalog_ok db"
  shows "catalog_ok (snd (BeginCatalogDeletion J u t plan db))"
proof (cases rule: BeginCatalogDeletion_cases [of J u t plan db])
  case (2 p)
  let ?op = "new_operation u t (sort_plan p)"
  have "plan_kept db ?op" if "do_Scope ?op = DeletionScopeService"
  proof -
    from that have "dp_Scope p = DeletionScopeService" by (simp add: new_operation_def)
    from current_plan_service [OF 2(1) this] obtain sid q where q: "PlanServiceDeletion J (dp_WorkspaceID p) sid db = Inr q" "dp_Blockers q = []"
      "plan_groups q = plan_groups p" "plan_names q = plan_names p" by blast
    show ?thesis
      by (rule new_plan_kept [OF assms q(1,2)]) (use q(3,4) in \<open>simp_all add: new_operation_def plan_groups_def plan_names_def plan_refs_def\<close>)
  qed
  moreover have "plan_kept (db\<lparr>cd_deletions := cd_deletions db @ [?op]\<rparr>) = plan_kept db"
    by (rule ext) (simp add: plan_kept_def selections_def)
  moreover have "do_ID ?op = u" by (simp add: new_operation_def)
  ultimately show ?thesis
    using assms 2(2) unfolding 2(3) catalog_ok_def by (auto simp: removing_def selections_def)
qed (simp add: assms)

text \<open>An update of operations that keeps scope, plan and workspace, and activates none.\<close>

lemma catalog_ok_operations:
  assumes "catalog_ok db" "\<And>op. op \<in> set (cd_deletions db) \<Longrightarrow> do_ID (f op) = do_ID op \<and> do_Scope (f op) = do_Scope op \<and> do_Plan (f op) = do_Plan op
      \<and> do_WorkspaceID (f op) = do_WorkspaceID op \<and> (active (f op) \<longrightarrow> active op)"
  shows "catalog_ok (db\<lparr>cd_deletions := map f (cd_deletions db)\<rparr>)"
proof -
  have "map do_ID (map f (cd_deletions db)) = map do_ID (cd_deletions db)" using assms(2) by simp
  with catalog_okD(3) [OF assms(1)] have "distinct (map do_ID (map f (cd_deletions db)))" by metis
  moreover have "plan_kept (db\<lparr>cd_deletions := map f (cd_deletions db)\<rparr>) op'" if r: "removing (db\<lparr>cd_deletions := map f (cd_deletions db)\<rparr>) op'" for op'
  proof -
    from r obtain op where op: "op \<in> set (cd_deletions db)" "op' = f op" by (auto simp: removing_def)
    with r assms(2) [OF op(1)] have "removing db op" by (simp add: removing_def)
    from catalog_okD(5) [OF assms(1) this] assms(2) [OF op(1)] show ?thesis by (simp add: plan_kept_def op(2) selections_def group_clear_def)
  qed
  ultimately show ?thesis using assms(1) by (simp add: catalog_ok_def selections_def)
qed

lemma UpdateCatalogDeletion_ok:
  assumes "catalog_ok db" "proper_op (OpUpdateDeletion t i st ph e) db"
  shows "catalog_ok (snd (UpdateCatalogDeletion t i st ph e db))"
  using assms by (auto simp: UpdateCatalogDeletion_def update_operation_def intro!: catalog_ok_operations)

text \<open>The two bodies of the commit only take rows away, and never a selected group.\<close>

lemma deleteServiceCatalog_ok:
  assumes "catalog_ok db" "removing db op"
  shows "catalog_ok (deleteServiceCatalog op db)"
proof (rule catalog_ok_shrink [OF assms(1)])
  have sel: "selections (deleteServiceCatalog op db) = selections db" by (simp add: selections_def deleteServiceCatalog_def Let_def)
  then show "selections (deleteServiceCatalog op db) \<subseteq> selections db" by simp
  show "\<forall>(w, gid) \<in> selections (deleteServiceCatalog op db). \<forall>g \<in> set (cd_groups db). lg_ID g = gid \<and> lg_WorkspaceID g = w \<longrightarrow> g \<in> set (cd_groups (deleteServiceCatalog op db))"
    using catalog_okD(5) [OF assms] unfolding sel by (force simp: plan_kept_def plan_groups_def deleteServiceCatalog_def Let_def)
qed (use catalog_okD(1,2) [OF assms(1)] in \<open>auto simp: deleteServiceCatalog_def Let_def List.distinct_map_filter\<close>)

lemma deleteWorkspaceCatalog_ok:
  assumes "catalog_ok db"
  shows "catalog_ok (deleteWorkspaceCatalog wid db)"
proof (rule catalog_ok_shrink [OF assms])
  show "selections (deleteWorkspaceCatalog wid db) \<subseteq> selections db" by (rule selections_filter) (simp add: deleteWorkspaceCatalog_def Let_def)
  show "\<forall>(w, gid) \<in> selections (deleteWorkspaceCatalog wid db). \<forall>g \<in> set (cd_groups db). lg_ID g = gid \<and> lg_WorkspaceID g = w \<longrightarrow> g \<in> set (cd_groups (deleteWorkspaceCatalog wid db))"
    by (auto simp: selections_def deleteWorkspaceCatalog_def Let_def)
qed (use catalog_okD(1,2) [OF assms] in \<open>auto simp: deleteWorkspaceCatalog_def Let_def List.distinct_map_filter\<close>)

lemma delete_deletions [simp]: "cd_deletions (deleteServiceCatalog op db) = cd_deletions db" "cd_deletions (deleteWorkspaceCatalog wid db) = cd_deletions db"
  by (simp_all add: deleteServiceCatalog_def deleteWorkspaceCatalog_def Let_def)

lemma find_operation: "distinct (map do_ID ops) \<Longrightarrow> find (\<lambda>v. do_ID v = i) ops = Some op \<Longrightarrow> o' \<in> set ops \<Longrightarrow> do_ID o' = i \<Longrightarrow> o' = op"
  by (induction ops) (auto split: if_splits)

lemma CommitCatalogDeletion_ok:
  assumes "catalog_ok db"
  shows "catalog_ok (snd (CommitCatalogDeletion t i db))"
proof (cases "GetCatalogDeletion i db")
  case (Inr op)
  then have f: "find (\<lambda>op. do_ID op = i) (cd_deletions db) = Some op" by (simp add: GetCatalogDeletion_def split: option.splits)
  note op = find_SomeD [OF f]
  show ?thesis
  proof (cases "do_Status op = DeletionCompleted \<or> committed op")
    case False
    then have act: "active op" by (cases "do_Status op") (auto simp: active_def)
    define db1 where "db1 = (case do_Scope op of DeletionScopeWorkspace \<Rightarrow> deleteWorkspaceCatalog (do_WorkspaceID op) db | DeletionScopeService \<Rightarrow> deleteServiceCatalog op db)"
    have "catalog_ok db1" and del: "cd_deletions db1 = cd_deletions db"
      using deleteServiceCatalog_ok [OF assms] deleteWorkspaceCatalog_ok [OF assms] act op by (simp_all add: db1_def removing_def split: DeletionScope.splits)
    then have "catalog_ok (db1\<lparr>cd_deletions := map (\<lambda>o'. if do_ID o' = i
        then o'\<lparr>do_Status := DeletionRunning, do_Phase := DeletionPhaseCatalogCommitted, do_LastError := [], do_UpdatedAt := t\<rparr> else o') (cd_deletions db1)\<rparr>)"
      using find_operation [OF catalog_okD(3) [OF assms] f] act by (intro catalog_ok_operations) auto
    then show ?thesis using False Inr by (simp add: CommitCatalogDeletion_def db1_def Let_def catalog_ok_bump)
  qed (use Inr assms in \<open>auto simp: CommitCatalogDeletion_def\<close>)
qed (simp add: CommitCatalogDeletion_def assms)

lemma RepairCatalogOrphans_ok:
  assumes "catalog_ok db"
  shows "catalog_ok (snd (RepairCatalogOrphans t db))"
proof -
  have no_invalid: "\<not> invalid_dataset_map db w" if "w \<in> set (cd_workspaces db)" for w
    using catalog_okD(4) [OF assms, of "ws_ID w" "ws_DatasetMapLayerGroupID w"] that by (auto simp: invalid_dataset_map_def selections_def list_ex_iff)
  then have maps: "repair_dataset_maps t db = db" by (simp add: repair_dataset_maps_def map_idI)
  have "other_tables db (repair_resources (repair_roles db))" by (simp add: other_tables_def repair_resources_def repair_roles_def)
  from other_tables_ok [OF assms this] have ok: "catalog_ok (repair_resources (repair_roles db))" (is "catalog_ok ?d") .
  have "catalog_ok (repair_owned ?d)"
  proof (rule catalog_ok_shrink [OF ok])
    show "\<forall>(w, gid) \<in> selections (repair_owned ?d). \<forall>g \<in> set (cd_groups ?d). lg_ID g = gid \<and> lg_WorkspaceID g = w \<longrightarrow> g \<in> set (cd_groups (repair_owned ?d))"
      by (auto simp: selections_def repair_owned_def workspace_ids_def Let_def)
  qed (use catalog_okD(1,2) [OF ok] in \<open>auto simp: repair_owned_def selections_def Let_def List.distinct_map_filter\<close>)
  then show ?thesis by (simp add: RepairCatalogOrphans_def maps Let_def)
qed

lemma publish_catalog_ok:
  assumes "catalog_ok db"
  shows "catalog_ok (snd (publish_catalog t sid lids i db))"
proof -
  obtain r db' where p: "publish_catalog t sid lids i db = (r, db')" by fastforce
  from p have "catalog_ok db'"
  proof (cases rule: publish_catalog_cases)
    case 1 with assms show ?thesis by simp
  next
    case (2 svc ls ms f)
    have "catalog_ok (db\<lparr>cd_services := cd_services db @ [svc], cd_layers := ls, cd_managed := ms\<rparr>)"
      by (rule other_tables_ok [OF assms]) (simp add: other_tables_def)
    from catalog_ok_map_workspaces [OF this 2(5,6)] 2(4) show ?thesis by simp
  qed
  with p show ?thesis by simp
qed

section \<open>Every run\<close>

lemma catalog_exec_ok: "catalog_ok db \<Longrightarrow> proper_op oper db \<Longrightarrow> catalog_ok (catalog_exec J oper db)"
  by (cases oper) (auto intro: CreateWorkspace_ok UpdateWorkspace_ok DeleteWorkspace_ok service_ops_ok layer_ops_ok CreateLayerGroup_ok
      UpdateLayerGroup_ok DeleteLayerGroup_ok UpdateOGCTilesAPISettings_ok BeginCatalogDeletion_ok UpdateCatalogDeletion_ok
      CommitCatalogDeletion_ok RepairCatalogOrphans_ok publish_catalog_ok other_tables_ok simp: other_tables_def catalog_ok_bump
      simp del: proper_op.simps)

lemma reachable_ok: "catalog_reachable J db \<Longrightarrow> catalog_ok db"
proof (induction rule: catalog_reachable.induct)
  case (start a) show ?case by (simp add: catalog_ok_def empty_catalog_def selections_def removing_def)
qed (rule catalog_exec_ok)

text \<open>
  C17. The workspace map never dangles: whatever operations run on the catalog, in whatever order, deletions with
  old plans and repairs included, a workspace that selects a layer group as its map selects one that
  exists and belongs to it.
\<close>

theorem dataset_map_never_dangles:
  assumes "catalog_reachable J db" "w \<in> set (cd_workspaces db)" "ws_DatasetMapLayerGroupID w \<noteq> []"
  shows "\<exists>g. GetLayerGroup (ws_DatasetMapLayerGroupID w) db = Inr g \<and> lg_WorkspaceID g = ws_ID w"
proof -
  note ok = reachable_ok [OF assms(1)]
  have "(ws_ID w, ws_DatasetMapLayerGroupID w) \<in> selections db" using assms(2,3) by (auto simp: selections_def)
  from catalog_okD(4) [OF ok this] obtain g where g: "g \<in> set (cd_groups db)" "lg_ID g = ws_DatasetMapLayerGroupID w" "lg_WorkspaceID g = ws_ID w" by blast
  have "find (\<lambda>h. lg_ID h = lg_ID g) gs = Some g" if "distinct (map lg_ID gs)" "g \<in> set gs" for gs using that by (induction gs) auto
  from this [OF catalog_okD(1) [OF ok] g(1)] g show ?thesis by (simp add: GetLayerGroup_def)
qed

text \<open>
  C16. A service deletion leaves no group that names what it planned to remove: when the deletion of a service
  commits, however long after its plan was made and whatever groups were created or changed since, no group that
  remains in the workspace has a member whose name is in the plan made at the beginning (the layers and coverages
  the service had then, and the groups that contained them), except a group that bears such a name itself;
  and the committed operation is marked as such. Nothing is said of layers and coverages that are added to the service
  after the plan was made: \<open>late_layer_leaves_dangling_group\<close> below.
\<close>

theorem commit_leaves_no_dangling_group:
  assumes "catalog_reachable J db" "GetCatalogDeletion oid db = Inr op" "do_Scope op = DeletionScopeService" "active op" "\<not> committed op"
    and "CommitCatalogDeletion t oid db = (r, db')" "g \<in> set (cd_groups db')" "lg_WorkspaceID g = do_WorkspaceID op"
    and "lg_PublicID g \<notin> plan_names (do_Plan op)" "m \<in> set (lg_Members g)"
  shows "gm_Resource m \<notin> plan_names (do_Plan op) \<and> r = Inr () \<and> (\<exists>op'. GetCatalogDeletion oid db' = Inr op' \<and> committed op')"
proof -
  note ok = reachable_ok [OF assms(1)]
  from assms(2) have f: "find (\<lambda>v. do_ID v = oid) (cd_deletions db) = Some op" by (simp add: GetCatalogDeletion_def split: option.splits)
  note op = find_SomeD [OF f]
  have rem: "removing db op" using op assms(3,4) by (simp add: removing_def)
  have st: "do_Status op \<noteq> DeletionCompleted" using assms(4) by (auto simp: active_def)
  let ?mark = "\<lambda>o'. if do_ID o' = oid then o'\<lparr>do_Status := DeletionRunning, do_Phase := DeletionPhaseCatalogCommitted, do_LastError := [], do_UpdatedAt := t\<rparr> else o'"
  have r: "r = Inr ()" and db': "db' = bump_capabilities (do_WorkspaceID op)
      ((deleteServiceCatalog op db)\<lparr>cd_deletions := map ?mark (cd_deletions db)\<rparr>)"
    using assms(2,3,5,6) st by (auto simp: CommitCatalogDeletion_def Let_def)
  have "g \<in> set (cd_groups db)" "lg_ID g \<notin> plan_groups (do_Plan op)"
    using assms(7) unfolding db' by (auto simp: deleteServiceCatalog_def plan_groups_def Let_def)
  then have "gm_Resource m \<notin> plan_names (do_Plan op)"
    using catalog_okD(5) [OF ok rem] assms(8-10) by (auto simp: plan_kept_def group_clear_def)
  moreover have "find (\<lambda>v. do_ID v = oid) (map ?mark (cd_deletions db)) = Some (?mark op)"
    by (subst find_map_key) (simp_all add: f)
  then have "GetCatalogDeletion oid db' = Inr (?mark op)" unfolding GetCatalogDeletion_def db' bump_frame(2) by simp
  then have "\<exists>op'. GetCatalogDeletion oid db' = Inr op' \<and> committed op'"
    using op by (intro exI [of _ "?mark op"]) (simp add: committed_def)
  ultimately show ?thesis using r by blast
qed

section \<open>A run\<close>

definition plain_types :: "string list \<Rightarrow> string" where
  "plain_types ts = join '','' ts"

definition member_of :: "string \<Rightarrow> LayerGroupMember" where
  "member_of r = \<lparr>gm_Resource = r, gm_Style = [], gm_Opacity = None, gm_Composite = []\<rparr>"

definition no_credentials :: auth_db where
  "no_credentials = \<lparr>db_roles = [], db_retired = [], db_keys = [], db_mappings = [], db_signing = [], db_sessions = [], db_policies = [], db_restricted = []\<rparr>"

definition group_input :: "string \<Rightarrow> string list \<Rightarrow> CreateLayerGroupInput" where
  "group_input name rs = \<lparr>gi_WorkspaceID = ''w'', gi_PublicID = name, gi_AllowedRoles = [], gi_Members = map member_of rs, gi_Metadata = JNull\<rparr>"

definition service_plan :: DeletionPlan where
  "service_plan = empty_plan DeletionScopeService ''w'' \<lparr>dr_ID = ''s'', dr_Name = ''files'', dr_Kind = ''service'', dr_Reason = []\<rparr>"

definition demo_catalog_ops :: "catalog_op list" where
  "demo_catalog_ops =
    [OpCreateWorkspace ''w'' 1 ''maps'' [],
     OpCreateService ''s'' 2 \<lparr>si_WorkspaceID = ''w'', si_Name = ''files'', si_Type = ''duckdb'', si_ConnectionInfo = [], si_CacheSettings = None, si_Enabled = True\<rparr>,
     OpCreateLayer ''l'' 3 \<lparr>li_ServiceID = ''s'', li_SourceLayer = ''t'', li_PublicID = ''roads'', li_AllowedRoles = [], li_CRSDefault = 0, li_Metadata = JNull\<rparr>,
     OpCreateLayerGroup ''g'' 4 (group_input ''base'' [''roads'']),
     OpCreateLayerGroup ''h'' 5 (group_input ''other'' [''rivers'']),
     OpUpdateTiles 6 ''w'' ''h'',
     OpBegin ''d'' 7 service_plan]"

definition demo_catalog :: catalog_db where
  "demo_catalog = fold (catalog_exec plain_types) demo_catalog_ops (empty_catalog no_credentials)"

lemmas catalog_eval = CreateWorkspace_def CreateService_def CreateLayer_def CreateLayerGroup_def UpdateOGCTilesAPISettings_def
  validateDatasetMapSelection_def validateGroupDeletionState_def ListPendingCatalogDeletions_def GetLayerGroup_def BeginCatalogDeletion_def
  findActiveCatalogDeletion_def current_plan_def PlanServiceDeletion_def GetService_def service_visible_def tombstoned_def active_def
  ListLayerGroups_def group_closure.simps ListWFSStoredQueries_def policy_rows_def addDatasetMapDeletionBlocker_def GetOGCTilesAPISettings_def
  empty_plan_def deletionRefs_def group_ref_def sort_plan_def sort_refs_def new_operation_def execCapabilitiesMutation_def workspace_owner_def
  service_owner_def bump_capabilities_def group_touches_def plan_refs_def

lemmas demo_eval = empty_catalog_def no_credentials_def group_input_def member_of_def service_plan_def demo_catalog_ops_def demo_catalog_def
  plain_types_def no_auxiliary_def

lemma demo_catalog_run:
  "map (\<lambda>g. (lg_ID g, lg_PublicID g)) (cd_groups demo_catalog) = [(''g'', ''base''), (''h'', ''other'')]"
  "map (\<lambda>w. (ws_ID w, ws_DatasetMapLayerGroupID w)) (cd_workspaces demo_catalog) = [(''w'', ''h'')]"
  "map (\<lambda>op. (do_ID op, do_Scope op, map dr_ID (dp_LayerGroups (do_Plan op)))) (cd_deletions demo_catalog) = [(''d'', DeletionScopeService, [''g''])]"
  by (simp_all add: demo_eval catalog_eval Let_def)

primrec proper_ops :: "(string list \<Rightarrow> string) \<Rightarrow> catalog_op list \<Rightarrow> catalog_db \<Rightarrow> bool" where
  "proper_ops J [] db = True"
| "proper_ops J (oper # opers) db = (proper_op oper db \<and> proper_ops J opers (catalog_exec J oper db))"

lemma reachable_run: "catalog_reachable J db \<Longrightarrow> proper_ops J opers db \<Longrightarrow> catalog_reachable J (fold (catalog_exec J) opers db)"
  by (induction opers arbitrary: db) (simp_all add: catalog_reachable.step)

lemma demo_catalog_reachable: "catalog_reachable plain_types demo_catalog"
  unfolding demo_catalog_def by (rule reachable_run [OF catalog_reachable.start]) (simp add: demo_eval catalog_eval Let_def)

theorem dataset_map_never_dangles_witness: "\<exists>g. GetLayerGroup ''h'' demo_catalog = Inr g \<and> lg_WorkspaceID g = ''w''"
proof -
  obtain w where w: "cd_workspaces demo_catalog = [w]" "ws_ID w = ''w''" "ws_DatasetMapLayerGroupID w = ''h''"
    using demo_catalog_run(2) by (auto simp: map_eq_Cons_conv)
  show ?thesis using dataset_map_never_dangles [OF demo_catalog_reachable, of w] w by simp
qed

lemma demo_commit:
  "map (\<lambda>op. (do_Status op, do_Phase op, do_WorkspaceID op)) (cd_deletions demo_catalog) = [(DeletionPending, DeletionPhasePlanned, ''w'')]"
  "map (\<lambda>g. (lg_WorkspaceID g, lg_PublicID g, lg_Members g)) (cd_groups (snd (CommitCatalogDeletion 8 ''d'' demo_catalog))) = [(''w'', ''other'', [member_of ''rivers''])]"
  "\<forall>op \<in> set (cd_deletions demo_catalog). plan_names (do_Plan op) = {''roads'', ''base''}"
  by (simp_all add: demo_eval catalog_eval CommitCatalogDeletion_def GetCatalogDeletion_def committed_def deleteServiceCatalog_def plan_names_def Let_def)

theorem commit_leaves_no_dangling_group_witness:
  "list_all (\<lambda>g. list_all (\<lambda>m. gm_Resource m \<notin> {''roads'', ''base''}) (lg_Members g)) (cd_groups (snd (CommitCatalogDeletion 8 ''d'' demo_catalog)))"
  unfolding list_all_iff
proof (intro ballI)
  fix g m assume g: "g \<in> set (cd_groups (snd (CommitCatalogDeletion 8 ''d'' demo_catalog)))" and m: "m \<in> set (lg_Members g)"
  obtain op where op: "cd_deletions demo_catalog = [op]" "do_ID op = ''d''" "do_Scope op = DeletionScopeService" "do_Status op = DeletionPending"
    "do_Phase op = DeletionPhasePlanned" "do_WorkspaceID op = ''w''"
    using demo_catalog_run(3) demo_commit(1) by (auto simp: map_eq_Cons_conv)
  have names: "plan_names (do_Plan op) = {''roads'', ''base''}" using demo_commit(3) op(1) by simp
  have "lg_WorkspaceID g = ''w''" "lg_PublicID g = ''other''" using g demo_commit(2) by (auto simp: map_eq_Cons_conv)
  moreover have "GetCatalogDeletion ''d'' demo_catalog = Inr op" by (simp add: GetCatalogDeletion_def op)
  ultimately show "gm_Resource m \<notin> {''roads'', ''base''}"
    using commit_leaves_no_dangling_group [OF demo_catalog_reachable, of "''d''" op 8 "fst (CommitCatalogDeletion 8 ''d'' demo_catalog)"
        "snd (CommitCatalogDeletion 8 ''d'' demo_catalog)" g m] g m names op
    by (simp add: active_def committed_def)
qed

text \<open>A layer can still be added to a service whose deletion has begun, and a group can name it, since the plan
  does not. The commit removes every layer of the service, so the group is left with a member that names nothing.\<close>

definition late_layer_ops :: "catalog_op list" where
  "late_layer_ops =
    [OpCreateLayer ''k'' 8 \<lparr>li_ServiceID = ''s'', li_SourceLayer = ''u'', li_PublicID = ''rails'', li_AllowedRoles = [], li_CRSDefault = 0, li_Metadata = JNull\<rparr>,
     OpCreateLayerGroup ''x'' 9 (group_input ''late'' [''rails'']),
     OpCommit 10 ''d'']"

lemma late_layer_leaves_dangling_group:
  "proper_ops plain_types late_layer_ops demo_catalog \<and>
   map (\<lambda>g. (lg_PublicID g, map gm_Resource (lg_Members g))) (cd_groups (fold (catalog_exec plain_types) late_layer_ops demo_catalog))
     = [(''other'', [''rivers'']), (''late'', [''rails''])] \<and>
   map ly_PublicID (cd_layers (fold (catalog_exec plain_types) (take 2 late_layer_ops) demo_catalog)) = [''roads'', ''rails''] \<and>
   cd_layers (fold (catalog_exec plain_types) late_layer_ops demo_catalog) = []"
  by (simp add: late_layer_ops_def demo_eval catalog_eval CommitCatalogDeletion_def GetCatalogDeletion_def committed_def deleteServiceCatalog_def Let_def)

end
