(* ===== verification/Catalog_Lifecycle.thy ===== *)
theory Catalog_Lifecycle
  imports Catalog_Invariants
begin

text \<open>
  The coordinator of catalog deletions (\<^verbatim>\<open>cataloglifecycle/coordinator.go\<close>, \<^verbatim>\<open>assets.go\<close>): planning, the durable
  begin, one attempt of the work, retry and recovery. Every request to the catalog, to an auxiliary
  store or to the file system may fail, and the process may stop at any request. The auxiliary stores
  are seen through their lifecycle interfaces: the rows they own by workspace and resource, or by
  workspace and service. A failing removal may have removed some rows. Attempts run one after the
  other; the map of running operations only keeps two attempts of one operation apart.
\<close>

section \<open>Programs that may fail\<close>

type_synonym ('s, 'e, 'a) prog = "'s \<Rightarrow> ('e + 'a) \<times> 's"

definition pret :: "'a \<Rightarrow> ('s, 'e, 'a) prog" where
  "pret x s = (Inr x, s)"

definition pfail :: "'e \<Rightarrow> ('s, 'e, 'a) prog" where
  "pfail e s = (Inl e, s)"

definition pbind :: "('s, 'e, 'a) prog \<Rightarrow> ('a \<Rightarrow> ('s, 'e, 'b) prog) \<Rightarrow> ('s, 'e, 'b) prog" where
  "pbind m f s = (case m s of (Inl e, s1) \<Rightarrow> (Inl e, s1) | (Inr x, s1) \<Rightarrow> f x s1)"

definition ptry :: "('s, 'e, 'a) prog \<Rightarrow> ('s, 'e, 'e + 'a) prog" where
  "ptry m s = (case m s of (r, s1) \<Rightarrow> (Inr r, s1))"

definition pwhen :: "bool \<Rightarrow> ('s, 'e, unit) prog \<Rightarrow> ('s, 'e, unit) prog" where
  "pwhen b m = (if b then m else pret ())"

definition pmodify :: "('s \<Rightarrow> 's) \<Rightarrow> ('s, 'e, unit) prog" where
  "pmodify f s = (Inr (), f s)"

section \<open>State\<close>

datatype lc_fault = Works | Fails nat | Crashes

type_synonym owned_rows = "((string \<times> string) \<times> int) list"

text \<open>The stores an attempt has to clear; a row is its owner and its size.\<close>

record aux_stores =
  ax_Tiles :: owned_rows
  ax_TileJobs :: owned_rows
  ax_STACCollections :: owned_rows
  ax_STACItems :: owned_rows
  ax_MosaicServices :: owned_rows
  ax_MosaicGranules :: owned_rows
  ax_MosaicJobs :: owned_rows

record lifecycle =
  lc_db :: catalog_db
  lc_now :: instant
  lc_faults :: "lc_fault list"
  lc_down :: bool
  lc_registry :: "(string \<times> string list) list"
  lc_blocked :: "(string \<times> string list) list"
  lc_aux :: aux_stores
  lc_files :: "string list"
  lc_asset_dirs :: "(string \<times> int) list"
  lc_staged_dirs :: "string list"
  lc_wfs :: "string list"
  lc_cached :: "string list"
  lc_policies :: "(string \<times> string) list"

record Dependencies =
  dep_TileCache :: bool
  dep_TileJobs :: bool
  dep_Mosaic :: bool
  dep_STAC :: bool
  dep_Enforcer :: bool
  dep_WFSState :: bool
  dep_Cache :: bool
  dep_ManagedImports :: bool

type_synonym 'a lc = "(lifecycle, catalog_error, 'a) prog"

text \<open>One request: what it does, and what remains of it when it fails after \<open>n\<close> rows.\<close>

definition request :: "'a lc \<Rightarrow> (nat \<Rightarrow> lifecycle \<Rightarrow> lifecycle) \<Rightarrow> 'a lc" where
  "request go partial s =
     (if lc_down s then (Inl (OtherError ''process stopped''), s)
      else case lc_faults s of
             [] \<Rightarrow> go s
           | f # fs \<Rightarrow> let s1 = s\<lparr>lc_faults := fs\<rparr>
                       in case f of Works \<Rightarrow> go s1
                                  | Fails n \<Rightarrow> (Inl (OtherError ''request failed''), partial n s1)
                                  | Crashes \<Rightarrow> (Inl (OtherError ''process stopped''), s1\<lparr>lc_down := True\<rparr>))"

definition db_request :: "(catalog_db \<Rightarrow> 'a result \<times> catalog_db) \<Rightarrow> 'a lc" where
  "db_request f = request (\<lambda>s. case f (lc_db s) of (r, db) \<Rightarrow> (r, s\<lparr>lc_db := db\<rparr>)) (\<lambda>_ s. s)"

definition db_read :: "(catalog_db \<Rightarrow> 'a result) \<Rightarrow> 'a lc" where
  "db_read f = db_request (\<lambda>db. (f db, db))"

definition lc_update :: "string \<Rightarrow> DeletionStatus \<Rightarrow> DeletionPhase \<Rightarrow> string \<Rightarrow> unit lc" where
  "lc_update oid status phase msg s = db_request (UpdateCatalogDeletion (lc_now s) oid status phase msg) s"

section \<open>Scopes\<close>

definition deletionResourceIDs :: "DeletionPlan \<Rightarrow> string list" where
  "deletionResourceIDs p = map dr_ID (plan_refs p)"

definition deletionResourceNames :: "DeletionPlan \<Rightarrow> string list" where
  "deletionResourceNames p = map dr_Name (plan_refs p)"

definition deletionServiceIDs :: "DeletionPlan \<Rightarrow> string list" where
  "deletionServiceIDs p = (if dp_Scope p = DeletionScopeService then [dr_ID (dp_Target p)] else map dr_ID (dp_Services p))"

definition resourceIDsForScope :: "DeletionPlan \<Rightarrow> string list \<Rightarrow> string list" where
  "resourceIDsForScope p ids = (if dp_Scope p = DeletionScopeWorkspace then [] else ids)"

definition servicesForScope :: "DeletionPlan \<Rightarrow> string list \<Rightarrow> string list" where
  "servicesForScope p ids = (if dp_Scope p = DeletionScopeWorkspace then [] else ids)"

text \<open>The stores take an empty list of identifiers for the whole workspace.\<close>

definition owned_by :: "string \<Rightarrow> string list \<Rightarrow> (string \<times> string) \<times> int \<Rightarrow> bool" where
  "owned_by wid ids row = (fst (fst row) = wid \<and> (ids = [] \<or> snd (fst row) \<in> set ids))"

definition purge :: "string \<Rightarrow> string list \<Rightarrow> owned_rows \<Rightarrow> owned_rows" where
  "purge wid ids rows = filter (\<lambda>row. \<not> owned_by wid ids row) rows"

fun purge_some :: "string \<Rightarrow> string list \<Rightarrow> nat \<Rightarrow> owned_rows \<Rightarrow> owned_rows" where
  "purge_some wid ids n [] = []"
| "purge_some wid ids n (row # rows) =
     (if owned_by wid ids row \<and> n > 0 then purge_some wid ids (n - 1) rows else row # purge_some wid ids n rows)"

definition rows_of :: "string \<Rightarrow> string list \<Rightarrow> owned_rows \<Rightarrow> int" where
  "rows_of wid ids rows = int (length (filter (owned_by wid ids) rows))"

definition bytes_of :: "string \<Rightarrow> string list \<Rightarrow> owned_rows \<Rightarrow> int" where
  "bytes_of wid ids rows = sum_list (map snd (filter (owned_by wid ids) rows))"

definition tiles_QuiesceLifecycle :: "string \<Rightarrow> string list \<Rightarrow> unit lc" where
  "tiles_QuiesceLifecycle wid ids =
     request (\<lambda>s. (Inr (), s\<lparr>lc_blocked := (wid, ids) # lc_blocked s\<rparr>)) (\<lambda>_ s. s\<lparr>lc_blocked := (wid, ids) # lc_blocked s\<rparr>)"

definition tiles_PurgeLifecycle :: "string \<Rightarrow> string list \<Rightarrow> unit lc" where
  "tiles_PurgeLifecycle wid ids =
     request (\<lambda>s. (Inr (), s\<lparr>lc_aux := (lc_aux s)\<lparr>ax_Tiles := purge wid ids (ax_Tiles (lc_aux s)), ax_TileJobs := purge wid ids (ax_TileJobs (lc_aux s))\<rparr>\<rparr>))
       (\<lambda>n s. s\<lparr>lc_aux := (lc_aux s)\<lparr>ax_Tiles := purge_some wid ids n (ax_Tiles (lc_aux s))\<rparr>\<rparr>)"

definition stac_QuiesceAndDeleteLifecycle :: "string \<Rightarrow> string list \<Rightarrow> unit lc" where
  "stac_QuiesceAndDeleteLifecycle wid ids =
     request (\<lambda>s. (Inr (), s\<lparr>lc_aux := (lc_aux s)\<lparr>ax_STACCollections := purge wid ids (ax_STACCollections (lc_aux s)),
                                               ax_STACItems := purge wid ids (ax_STACItems (lc_aux s))\<rparr>\<rparr>))
       (\<lambda>n s. s\<lparr>lc_aux := (lc_aux s)\<lparr>ax_STACItems := purge_some wid ids n (ax_STACItems (lc_aux s))\<rparr>\<rparr>)"

definition mosaic_QuiesceAndDeleteLifecycle :: "string \<Rightarrow> string list \<Rightarrow> unit lc" where
  "mosaic_QuiesceAndDeleteLifecycle wid ids =
     request (\<lambda>s. (Inr (), s\<lparr>lc_aux := (lc_aux s)\<lparr>ax_MosaicServices := purge wid ids (ax_MosaicServices (lc_aux s)),
                                               ax_MosaicGranules := purge wid ids (ax_MosaicGranules (lc_aux s)),
                                               ax_MosaicJobs := purge wid ids (ax_MosaicJobs (lc_aux s))\<rparr>\<rparr>))
       (\<lambda>n s. s\<lparr>lc_aux := (lc_aux s)\<lparr>ax_MosaicGranules := purge_some wid ids n (ax_MosaicGranules (lc_aux s))\<rparr>\<rparr>)"

section \<open>Runtime state\<close>

definition registry_Remove :: "string \<Rightarrow> lifecycle \<Rightarrow> lifecycle" where
  "registry_Remove wid s = s\<lparr>lc_registry := filter (\<lambda>(w, _). w \<noteq> wid) (lc_registry s)\<rparr>"

definition registry_QuiesceService :: "string \<Rightarrow> string \<Rightarrow> lifecycle \<Rightarrow> lifecycle" where
  "registry_QuiesceService wid sid s =
     s\<lparr>lc_registry := map (\<lambda>(w, svcs). if w = wid then (w, filter (\<lambda>x. x \<noteq> sid) svcs) else (w, svcs)) (lc_registry s)\<rparr>"

definition quiesceRuntime :: "DeletionPlan \<Rightarrow> lifecycle \<Rightarrow> lifecycle" where
  "quiesceRuntime p s =
     (if dp_Scope p = DeletionScopeWorkspace then registry_Remove (dp_WorkspaceID p) s
      else registry_QuiesceService (dp_WorkspaceID p) (dr_ID (dp_Target p)) s)"

definition clearRuntime :: "Dependencies \<Rightarrow> DeletionPlan \<Rightarrow> lifecycle \<Rightarrow> lifecycle" where
  "clearRuntime deps p s0 =
     (let s = quiesceRuntime p s0; wid = dp_WorkspaceID p
      in s\<lparr>lc_wfs := (if dep_WFSState deps then filter (\<lambda>w. w \<noteq> wid) (lc_wfs s) else lc_wfs s),
           lc_cached := (if dep_Cache deps then filter (\<lambda>w. w \<noteq> wid) (lc_cached s) else lc_cached s),
           lc_policies := (if \<not> dep_Enforcer deps then lc_policies s
                           else if dp_Scope p = DeletionScopeWorkspace then filter (\<lambda>(w, _). w \<noteq> wid) (lc_policies s)
                           else filter (\<lambda>(w, r). \<not> (w = wid \<and> r \<in> set (deletionResourceNames p))) (lc_policies s))\<rparr>)"

section \<open>Managed files\<close>

definition GetManagedAssetByService :: "string \<Rightarrow> catalog_db \<Rightarrow> ManagedAsset option" where
  "GetManagedAssetByService sid db = find (\<lambda>a. ma_ServiceID a = Some sid) (cd_managed db)"

definition DeleteManagedAsset :: "string \<Rightarrow> catalog_db \<Rightarrow> unit result \<times> catalog_db" where
  "DeleteManagedAsset iid db = (Inr (), db\<lparr>cd_managed := filter (\<lambda>a. ma_ImportID a \<noteq> iid) (cd_managed db)\<rparr>)"

definition staged_path :: "string \<Rightarrow> ManagedAsset \<Rightarrow> string" where
  "staged_path oid a = ma_Path a @ ''.deleting-'' @ oid"

definition os_exists :: "string \<Rightarrow> bool lc" where
  "os_exists path = request (\<lambda>s. (Inr (path \<in> set (lc_files s)), s)) (\<lambda>_ s. s)"

text \<open>The answer of a rename tells whether the source existed.\<close>

definition os_Rename :: "string \<Rightarrow> string \<Rightarrow> bool lc" where
  "os_Rename old new =
     request (\<lambda>s. if old \<in> set (lc_files s) then (Inr True, s\<lparr>lc_files := List.insert new (removeAll old (lc_files s))\<rparr>) else (Inr False, s)) (\<lambda>_ s. s)"

definition os_Remove :: "string \<Rightarrow> unit lc" where
  "os_Remove path = request (\<lambda>s. (Inr (), s\<lparr>lc_files := removeAll path (lc_files s)\<rparr>)) (\<lambda>_ s. s)"

fun restoreManagedImports :: "string \<Rightarrow> ManagedAsset list \<Rightarrow> unit lc" where
  "restoreManagedImports oid [] = pret ()"
| "restoreManagedImports oid (a # as) = pbind (ptry (os_Rename (staged_path oid a) (ma_Path a))) (\<lambda>_. restoreManagedImports oid as)"

definition fail_restoring :: "string \<Rightarrow> ManagedAsset list \<Rightarrow> catalog_error \<Rightarrow> 'a lc" where
  "fail_restoring oid as e = pbind (restoreManagedImports oid as) (\<lambda>_. pfail e)"

fun stageManagedImports :: "string \<Rightarrow> bool \<Rightarrow> string list \<Rightarrow> ManagedAsset list \<Rightarrow> ManagedAsset list lc" where
  "stageManagedImports oid catalogCommitted [] as = pret as"
| "stageManagedImports oid catalogCommitted (sid # sids) as =
     pbind (db_read (\<lambda>db. Inr (GetManagedAssetByService sid db))) (\<lambda>found.
       case found of
         None \<Rightarrow> stageManagedImports oid catalogCommitted sids as
       | Some a \<Rightarrow> pbind (ptry (os_exists (staged_path oid a))) (\<lambda>st.
           case st of
             Inl e \<Rightarrow> fail_restoring oid as e
           | Inr True \<Rightarrow> stageManagedImports oid catalogCommitted sids (as @ [a])
           | Inr False \<Rightarrow> pbind (ptry (os_Rename (ma_Path a) (staged_path oid a))) (\<lambda>mv.
               case mv of
                 Inl e \<Rightarrow> fail_restoring oid as e
               | Inr True \<Rightarrow> stageManagedImports oid catalogCommitted sids (as @ [a])
               | Inr False \<Rightarrow> if catalogCommitted then stageManagedImports oid catalogCommitted sids (as @ [a])
                              else fail_restoring oid as (OtherError ''stage managed import asset: file does not exist''))))"

fun removeManagedImports :: "string \<Rightarrow> ManagedAsset list \<Rightarrow> unit lc" where
  "removeManagedImports oid [] = pret ()"
| "removeManagedImports oid (a # as) =
     pbind (os_Remove (staged_path oid a)) (\<lambda>_.
     pbind (db_request (DeleteManagedAsset (ma_ImportID a))) (\<lambda>_. removeManagedImports oid as))"

section \<open>Style asset directories\<close>

text \<open>A directory of a workspace, with the number of files below it.\<close>

definition valid_path_id :: "string \<Rightarrow> bool" where
  "valid_path_id x = (CHR ''/'' \<notin> set x \<and> CHR 0x5C \<notin> set x)"

definition assets_Stage :: "string \<Rightarrow> string \<Rightarrow> unit lc" where
  "assets_Stage oid wid =
     (if \<not> valid_path_id wid \<or> \<not> valid_path_id oid then pfail (OtherError ''invalid lifecycle path identifier'')
      else request (\<lambda>s.
        if wid \<notin> fst ` set (lc_asset_dirs s) then (Inr (), s)
        else if oid \<in> set (lc_staged_dirs s) then (Inl (OtherError ''both active and staged managed asset paths exist''), s)
        else (Inr (), s\<lparr>lc_asset_dirs := filter (\<lambda>(w, _). w \<noteq> wid) (lc_asset_dirs s), lc_staged_dirs := oid # lc_staged_dirs s\<rparr>)) (\<lambda>_ s. s))"

definition assets_RemoveStaged :: "string \<Rightarrow> unit lc" where
  "assets_RemoveStaged oid =
     (if \<not> valid_path_id oid then pfail (OtherError ''invalid lifecycle path identifier'')
      else request (\<lambda>s. (Inr (), s\<lparr>lc_staged_dirs := removeAll oid (lc_staged_dirs s)\<rparr>)) (\<lambda>_ s. s))"

definition assets_Count :: "string \<Rightarrow> int lc" where
  "assets_Count wid =
     (if \<not> valid_path_id wid then pfail (OtherError ''invalid lifecycle path identifier'')
      else request (\<lambda>s. (Inr (case map_of (lc_asset_dirs s) wid of None \<Rightarrow> 0 | Some n \<Rightarrow> 1 + n), s)) (\<lambda>_ s. s))"

section \<open>One attempt\<close>

definition commit_or_restore :: "string \<Rightarrow> ManagedAsset list \<Rightarrow> unit lc" where
  "commit_or_restore oid as s =
     (case db_request (CommitCatalogDeletion (lc_now s) oid) s of
        (Inr x, s1) \<Rightarrow> (Inr x, s1)
      | (Inl e, s1) \<Rightarrow> fail_restoring oid as e s1)"

definition remove_auxiliary :: "Dependencies \<Rightarrow> DeletionOperation \<Rightarrow> unit lc" where
  "remove_auxiliary deps op =
     (let p = do_Plan op; resources = resourceIDsForScope p (deletionResourceIDs p); services = servicesForScope p (deletionServiceIDs p)
      in pbind (pwhen (dep_STAC deps) (stac_QuiesceAndDeleteLifecycle (dp_WorkspaceID p) services)) (\<lambda>_.
         pbind (pwhen (dep_Mosaic deps) (mosaic_QuiesceAndDeleteLifecycle (dp_WorkspaceID p) services)) (\<lambda>_.
         pbind (pwhen (dep_TileCache deps) (tiles_PurgeLifecycle (dp_WorkspaceID p) resources)) (\<lambda>_.
         pwhen (dp_Scope p = DeletionScopeWorkspace) (assets_Stage (do_ID op) (dp_WorkspaceID p))))))"

definition finish :: "Dependencies \<Rightarrow> DeletionOperation \<Rightarrow> ManagedAsset list \<Rightarrow> unit lc" where
  "finish deps op as =
     pbind (removeManagedImports (do_ID op) as) (\<lambda>_.
     pbind (pwhen (dp_Scope (do_Plan op) = DeletionScopeWorkspace) (assets_RemoveStaged (do_ID op))) (\<lambda>_.
     pbind (pmodify (clearRuntime deps (do_Plan op))) (\<lambda>_.
     pbind (lc_update (do_ID op) DeletionRunning DeletionPhaseRuntimeCleared []) (\<lambda>_.
     lc_update (do_ID op) DeletionCompleted DeletionPhaseCompleted []))))"

definition execute :: "Dependencies \<Rightarrow> DeletionOperation \<Rightarrow> unit lc" where
  "execute deps op =
     (let p = do_Plan op
      in pbind (pmodify (quiesceRuntime p)) (\<lambda>_.
         pbind (pwhen (dep_TileJobs deps) (tiles_QuiesceLifecycle (dp_WorkspaceID p) (resourceIDsForScope p (deletionResourceIDs p)))) (\<lambda>_.
         pbind (lc_update (do_ID op) DeletionRunning DeletionPhaseJobsQuiesced []) (\<lambda>_.
         pbind (remove_auxiliary deps op) (\<lambda>_.
         pbind (if dep_ManagedImports deps then stageManagedImports (do_ID op) (committed op) (deletionServiceIDs p) [] else pret []) (\<lambda>as.
         pbind (lc_update (do_ID op) DeletionRunning DeletionPhaseAuxiliaryRemoved []) (\<lambda>_.
         pbind (commit_or_restore (do_ID op) as) (\<lambda>_. finish deps op as))))))))"

definition error_message :: "catalog_error \<Rightarrow> string" where
  "error_message e = take 2048 (case e of OtherError m \<Rightarrow> m | _ \<Rightarrow> ''catalog error'')"

text \<open>The goroutine of an operation: work, and the durable failure with the phase that was reached.\<close>

definition attempt :: "Dependencies \<Rightarrow> DeletionOperation \<Rightarrow> lifecycle \<Rightarrow> lifecycle" where
  "attempt deps op s =
     (case execute deps op s of
        (Inr _, s1) \<Rightarrow> s1
      | (Inl e, s1) \<Rightarrow>
          (case db_read (GetCatalogDeletion (do_ID op)) s1 of
             (r, s2) \<Rightarrow> snd (lc_update (do_ID op) DeletionFailed (case r of Inl _ \<Rightarrow> do_Phase op | Inr current \<Rightarrow> do_Phase current) (error_message e) s2)))"

section \<open>The coordinator\<close>

definition enrich :: "Dependencies \<Rightarrow> DeletionPlan \<Rightarrow> DeletionPlan lc" where
  "enrich deps p =
     (let wid = dp_WorkspaceID p; resources = resourceIDsForScope p (deletionResourceIDs p); services = servicesForScope p (deletionServiceIDs p);
          stat = (\<lambda>b f. if b then request (\<lambda>s. (Inr (f (lc_aux s)), s)) (\<lambda>_ s. s) else pret id)
      in pbind (stat (dep_TileCache deps) (\<lambda>x a. a\<lparr>da_TileEntries := rows_of wid resources (ax_Tiles x), da_TileBytes := bytes_of wid resources (ax_Tiles x),
                                                       da_TileJobs := rows_of wid resources (ax_TileJobs x)\<rparr>)) (\<lambda>f1.
         pbind (stat (dep_STAC deps) (\<lambda>x a. a\<lparr>da_STACCollections := rows_of wid services (ax_STACCollections x),
                                              da_STACItems := rows_of wid services (ax_STACItems x)\<rparr>)) (\<lambda>f2.
         pbind (stat (dep_Mosaic deps) (\<lambda>x a. a\<lparr>da_MosaicServices := rows_of wid services (ax_MosaicServices x),
                                                da_MosaicGranules := rows_of wid services (ax_MosaicGranules x),
                                                da_MosaicJobs := rows_of wid services (ax_MosaicJobs x)\<rparr>)) (\<lambda>f3.
         pbind (if dep_ManagedImports deps
                then db_read (\<lambda>db. Inr (int (length (filter (\<lambda>sid. GetManagedAssetByService sid db \<noteq> None) (deletionServiceIDs p)))))
                else pret 0) (\<lambda>managed.
         pbind (if dp_Scope p = DeletionScopeWorkspace then assets_Count wid else pret 0) (\<lambda>dirs.
         let a = f3 (f2 (f1 (dp_Auxiliary p)))
         in pret (p\<lparr>dp_Auxiliary := a\<lparr>da_ManagedAssets := da_ManagedAssets a + managed + dirs\<rparr>\<rparr>)))))))"

definition PlanWorkspace :: "Dependencies \<Rightarrow> string \<Rightarrow> DeletionPlan lc" where
  "PlanWorkspace deps wid = pbind (db_read (PlanWorkspaceDeletion wid)) (enrich deps)"

definition PlanService :: "Dependencies \<Rightarrow> (string list \<Rightarrow> string) \<Rightarrow> string \<Rightarrow> string \<Rightarrow> DeletionPlan lc" where
  "PlanService deps marshal wid sid = pbind (db_read (PlanServiceDeletion marshal wid sid)) (enrich deps)"

text \<open>The operation is durable and the runtime quiesced before the caller is answered; the attempt
  that follows runs on its own.\<close>

definition begin_deletion :: "(string list \<Rightarrow> string) \<Rightarrow> string \<Rightarrow> DeletionPlan \<Rightarrow> DeletionOperation lc" where
  "begin_deletion marshal uuid p s0 =
     pbind (\<lambda>s. db_request (BeginCatalogDeletion marshal uuid (lc_now s) p) s) (\<lambda>(op, _).
     pbind (pmodify (quiesceRuntime (do_Plan op))) (\<lambda>_.
     pbind (lc_update (do_ID op) DeletionRunning DeletionPhaseTombstoned []) (\<lambda>_.
     pret (op\<lparr>do_Status := DeletionRunning, do_Phase := DeletionPhaseTombstoned\<rparr>)))) s0"

definition started :: "Dependencies \<Rightarrow> DeletionOperation lc \<Rightarrow> DeletionOperation option lc" where
  "started deps m s = (case m s of (Inl e, s1) \<Rightarrow> (Inl e, s1) | (Inr op, s1) \<Rightarrow> (Inr (Some op), attempt deps op s1))"

definition coordinator_DeleteService :: "Dependencies \<Rightarrow> (string list \<Rightarrow> string) \<Rightarrow> string \<Rightarrow> string \<Rightarrow> string \<Rightarrow> bool \<Rightarrow> DeletionOperation option lc" where
  "coordinator_DeleteService deps marshal uuid wid sid recursive =
     pbind (PlanService deps marshal wid sid) (\<lambda>p.
       if dp_Blockers p \<noteq> [] then pfail ErrDatasetMapInUse
       else if recursive then started deps (begin_deletion marshal uuid p)
       else if HasDependencies p then pfail (DeletionConflict p)
       else pbind (db_request (DeleteService marshal sid)) (\<lambda>_. pbind (pmodify (clearRuntime deps p)) (\<lambda>_. pret None)))"

definition coordinator_DeleteWorkspace :: "Dependencies \<Rightarrow> (string list \<Rightarrow> string) \<Rightarrow> string \<Rightarrow> string \<Rightarrow> bool \<Rightarrow> DeletionOperation option lc" where
  "coordinator_DeleteWorkspace deps marshal uuid wid recursive =
     pbind (PlanWorkspace deps wid) (\<lambda>p.
       if recursive then started deps (begin_deletion marshal uuid p)
       else if HasDependencies p then pfail (DeletionConflict p)
       else pbind (db_request (DeleteWorkspace wid)) (\<lambda>_. pbind (pmodify (clearRuntime deps p)) (\<lambda>_. pret None)))"

definition coordinator_Retry :: "Dependencies \<Rightarrow> string \<Rightarrow> DeletionOperation option lc" where
  "coordinator_Retry deps oid =
     pbind (db_read (GetCatalogDeletion oid)) (\<lambda>op.
       if do_Status op = DeletionCompleted then pret (Some op)
       else started deps (pbind (lc_update (do_ID op) DeletionRunning (do_Phase op) []) (\<lambda>_.
              pret (op\<lparr>do_Status := DeletionRunning, do_LastError := []\<rparr>))))"

definition coordinator_Recover :: "Dependencies \<Rightarrow> unit lc" where
  "coordinator_Recover deps =
     pbind (db_read (\<lambda>db. Inr (ListPendingCatalogDeletions db))) (\<lambda>ops.
       pmodify (fold (\<lambda>op s. attempt deps op (quiesceRuntime (do_Plan op) s)) ops))"

text \<open>A new process: nothing is blocked or cached, and the registry is loaded from what the catalog shows.\<close>

definition load_registry :: "catalog_db \<Rightarrow> (string \<times> string list) list" where
  "load_registry db = map (\<lambda>w. (ws_ID w, map sv_ID (ListServices (ws_ID w) db))) (ListWorkspaces db)"

definition lc_restart :: "lifecycle \<Rightarrow> lifecycle" where
  "lc_restart s = s\<lparr>lc_down := False, lc_blocked := [], lc_wfs := [], lc_cached := [], lc_registry := load_registry (lc_db s)\<rparr>"

end
