(* ===== verification/Catalog_Recovery.thy ===== *)
theory Catalog_Recovery
  imports Catalog_Lifecycle
begin

text \<open>
  What the coordinator promises: a deletion that was accepted stays out of sight whatever fails, and an
  attempt whose requests all succeed completes it. Two flaws are shown as well: a retry forgets that the
  catalog was committed, and the deletion of a service without publications purges its workspace.
\<close>

section \<open>Attempts without faults\<close>

definition ends :: "('s, 'e, 'a) prog \<Rightarrow> 's \<Rightarrow> ('a \<Rightarrow> 's \<Rightarrow> bool) \<Rightarrow> bool" where
  "ends m s Q = (case m s of (Inr x, s1) \<Rightarrow> Q x s1 | (Inl _, _) \<Rightarrow> False)"

lemma ends_bind: "ends m s (\<lambda>x s1. ends (f x) s1 Q) \<Longrightarrow> ends (pbind m f) s Q"
  by (auto simp: ends_def pbind_def split: prod.splits sum.splits)

lemma ends_mono: "ends m s Q \<Longrightarrow> (\<And>x s1. Q x s1 \<Longrightarrow> R x s1) \<Longrightarrow> ends m s R"
  by (auto simp: ends_def split: prod.splits sum.splits)

lemma ends_then: "ends m s R \<Longrightarrow> (\<And>x s1. R x s1 \<Longrightarrow> ends (f x) s1 Q) \<Longrightarrow> ends (pbind m f) s Q"
  by (blast intro: ends_bind ends_mono)

lemma ends_ret [simp]: "ends (pret x) s Q = Q x s"
  by (simp add: ends_def pret_def)

lemma ends_modify [simp]: "ends (pmodify f) s Q = Q () (f s)"
  by (simp add: ends_def pmodify_def)

lemma ends_when: "(b \<Longrightarrow> ends m s Q) \<Longrightarrow> (\<not> b \<Longrightarrow> Q () s) \<Longrightarrow> ends (pwhen b m) s Q"
  by (simp add: pwhen_def)

lemma ends_try: "ends m s (\<lambda>x. Q (Inr x)) \<Longrightarrow> ends (ptry m) s Q"
  by (auto simp: ends_def ptry_def split: prod.splits sum.splits)

definition calm :: "lifecycle \<Rightarrow> bool" where
  "calm s = (lc_faults s = [] \<and> \<not> lc_down s)"

lemma request_calm: "calm s \<Longrightarrow> request go partial s = go s"
  by (simp add: request_def calm_def)

lemma ends_request: "calm s \<Longrightarrow> ends go s Q \<Longrightarrow> ends (request go partial) s Q"
  by (simp add: ends_def request_calm)

lemma ends_db: "calm s \<Longrightarrow> f (lc_db s) = (Inr x, db) \<Longrightarrow> Q x (s\<lparr>lc_db := db\<rparr>) \<Longrightarrow> ends (db_request f) s Q"
  by (simp add: db_request_def ends_def request_calm)

text \<open>The row of the operation an attempt works for.\<close>

definition row_of :: "DeletionOperation \<Rightarrow> catalog_db \<Rightarrow> DeletionOperation \<Rightarrow> bool" where
  "row_of op db row = (GetCatalogDeletion (do_ID op) db = Inr row \<and> do_Plan row = do_Plan op \<and> do_Scope row = dp_Scope (do_Plan op)
     \<and> do_WorkspaceID row = dp_WorkspaceID (do_Plan op) \<and> do_TargetID row = dr_ID (dp_Target (do_Plan op)))"

definition stands :: "DeletionOperation \<Rightarrow> DeletionStatus \<Rightarrow> DeletionPhase \<Rightarrow> catalog_db \<Rightarrow> bool" where
  "stands op st ph db = (\<exists>row. row_of op db row \<and> do_Status row = st \<and> do_Phase row = ph)"

lemma GetCatalogDeletion_update:
  assumes "GetCatalogDeletion oid db = Inr row" "UpdateCatalogDeletion t oid st ph e db = (r, db')"
  shows "r = Inr ()" "GetCatalogDeletion oid db' = Inr (update_operation t st ph e row)" "\<exists>ops. db' = db\<lparr>cd_deletions := ops\<rparr>"
proof -
  let ?f = "\<lambda>op. if do_ID op = oid then update_operation t st ph e op else op"
  from assms(1) have f: "find (\<lambda>op. do_ID op = oid) (cd_deletions db) = Some row" by (simp add: GetCatalogDeletion_def split: option.splits)
  then have "oid \<in> do_ID ` set (cd_deletions db)" by (auto dest: find_SomeD)
  with assms(2) have "r = Inr ()" "db' = db\<lparr>cd_deletions := map ?f (cd_deletions db)\<rparr>" by (auto simp: UpdateCatalogDeletion_def)
  moreover have "find (\<lambda>op. do_ID op = oid) (map ?f (cd_deletions db)) = Some (?f row)"
    by (subst find_map_key) (simp_all add: f update_operation_def)
  ultimately show "r = Inr ()" "GetCatalogDeletion oid db' = Inr (update_operation t st ph e row)" "\<exists>ops. db' = db\<lparr>cd_deletions := ops\<rparr>"
    using find_SomeD [OF f] by (auto simp: GetCatalogDeletion_def)
qed

lemma ends_update:
  assumes "calm s" "row_of op (lc_db s) row"
    and "\<And>ops. stands op st ph ((lc_db s)\<lparr>cd_deletions := ops\<rparr>) \<Longrightarrow> Q () (s\<lparr>lc_db := (lc_db s)\<lparr>cd_deletions := ops\<rparr>\<rparr>)"
  shows "ends (lc_update (do_ID op) st ph e) s Q"
proof -
  obtain r db' where u: "UpdateCatalogDeletion (lc_now s) (do_ID op) st ph e (lc_db s) = (r, db')" by fastforce
  have g: "GetCatalogDeletion (do_ID op) (lc_db s) = Inr row" using assms(2) by (simp add: row_of_def)
  obtain ops where ops: "db' = (lc_db s)\<lparr>cd_deletions := ops\<rparr>" using GetCatalogDeletion_update(3) [OF g u] by blast
  have "stands op st ph db'"
    using GetCatalogDeletion_update(2) [OF g u] assms(2) by (auto simp: stands_def row_of_def update_operation_def)
  then have "Q () (s\<lparr>lc_db := db'\<rparr>)" using assms(3) by (simp add: ops)
  moreover have "ends (lc_update (do_ID op) st ph e) s Q =
      ends (db_request (UpdateCatalogDeletion (lc_now s) (do_ID op) st ph e)) s Q" by (simp add: lc_update_def ends_def)
  ultimately show ?thesis using ends_db [OF assms(1), of "UpdateCatalogDeletion (lc_now s) (do_ID op) st ph e" "()" db' Q] u GetCatalogDeletion_update(1) [OF g u] by simp
qed

text \<open>The auxiliary stores after a removal.\<close>

definition aux_clear :: "Dependencies \<Rightarrow> DeletionPlan \<Rightarrow> aux_stores \<Rightarrow> bool" where
  "aux_clear deps p x =
     (let wid = dp_WorkspaceID p; resources = resourceIDsForScope p (deletionResourceIDs p); services = servicesForScope p (deletionServiceIDs p);
          none = (\<lambda>ids rows. \<forall>row \<in> set rows. \<not> owned_by wid ids row)
      in (dep_TileCache deps \<longrightarrow> none resources (ax_Tiles x) \<and> none resources (ax_TileJobs x))
         \<and> (dep_STAC deps \<longrightarrow> none services (ax_STACCollections x) \<and> none services (ax_STACItems x))
         \<and> (dep_Mosaic deps \<longrightarrow> none services (ax_MosaicServices x) \<and> none services (ax_MosaicGranules x) \<and> none services (ax_MosaicJobs x)))"

definition dirs_ok :: "DeletionOperation \<Rightarrow> lifecycle \<Rightarrow> bool" where
  "dirs_ok op s = (dp_Scope (do_Plan op) = DeletionScopeWorkspace \<longrightarrow>
     valid_path_id (dp_WorkspaceID (do_Plan op)) \<and> valid_path_id (do_ID op)
     \<and> (dp_WorkspaceID (do_Plan op) \<notin> fst ` set (lc_asset_dirs s) \<or> do_ID op \<notin> set (lc_staged_dirs s)))"

lemma remove_auxiliary_ends:
  assumes "calm s" "dirs_ok op s"
  shows "ends (remove_auxiliary deps op) s (\<lambda>_ s1. calm s1 \<and> lc_db s1 = lc_db s \<and> lc_files s1 = lc_files s \<and> lc_registry s1 = lc_registry s
    \<and> aux_clear deps (do_Plan op) (lc_aux s1)
    \<and> (dp_Scope (do_Plan op) = DeletionScopeWorkspace \<longrightarrow> dp_WorkspaceID (do_Plan op) \<notin> fst ` set (lc_asset_dirs s1)))"
  using assms
  by (auto simp: remove_auxiliary_def ends_def pbind_def pwhen_def pret_def request_calm calm_def request_def stac_QuiesceAndDeleteLifecycle_def
      mosaic_QuiesceAndDeleteLifecycle_def tiles_PurgeLifecycle_def assets_Stage_def aux_clear_def purge_def dirs_ok_def Let_def
      split: prod.splits sum.splits if_splits)

text \<open>Managed files: the columns are unique, and no file has the name a staged file would get.\<close>

definition managed_ok :: "string \<Rightarrow> catalog_db \<Rightarrow> bool" where
  "managed_ok oid db = (\<forall>a \<in> set (cd_managed db). \<forall>b \<in> set (cd_managed db).
     (ma_Path a = ma_Path b \<longrightarrow> a = b) \<and> (ma_ServiceID a \<noteq> None \<and> ma_ServiceID a = ma_ServiceID b \<longrightarrow> a = b) \<and> ma_Path a \<noteq> staged_path oid b)"

lemma managed_ok_deletions [simp]: "managed_ok oid (db\<lparr>cd_deletions := ops\<rparr>) = managed_ok oid db"
  by (simp add: managed_ok_def)

definition stageable :: "string \<Rightarrow> bool \<Rightarrow> string list \<Rightarrow> ManagedAsset \<Rightarrow> bool" where
  "stageable oid c files a = (if staged_path oid a \<in> set files then ma_Path a \<notin> set files else ma_Path a \<in> set files \<or> c)"

lemma managed_in: "GetManagedAssetByService sid db = Some a \<Longrightarrow> a \<in> set (cd_managed db) \<and> ma_ServiceID a = Some sid"
  unfolding GetManagedAssetByService_def by (rule find_SomeD)

lemma ends_read: "calm s \<Longrightarrow> Q x s \<Longrightarrow> f (lc_db s) = Inr x \<Longrightarrow> ends (db_read f) s Q"
  by (cases s) (simp add: db_read_def db_request_def ends_def request_calm)

lemma ends_exists: "calm s \<Longrightarrow> Q (Inr (path \<in> set (lc_files s))) s \<Longrightarrow> ends (ptry (os_exists path)) s Q"
  by (rule ends_try) (simp add: os_exists_def ends_def request_calm)

lemma ends_rename:
  "calm s \<Longrightarrow> (old \<in> set (lc_files s) \<Longrightarrow> Q (Inr True) (s\<lparr>lc_files := List.insert new (removeAll old (lc_files s))\<rparr>))
     \<Longrightarrow> (old \<notin> set (lc_files s) \<Longrightarrow> Q (Inr False) s) \<Longrightarrow> ends (ptry (os_Rename old new)) s Q"
  by (rule ends_try) (simp add: os_Rename_def ends_def request_calm)

text \<open>Staging one file keeps every other asset stageable.\<close>

lemma stageable_other:
  assumes "managed_ok oid db" "a \<in> set (cd_managed db)" "b \<in> set (cd_managed db)" "stageable oid c files b"
  shows "stageable oid c (List.insert (staged_path oid a) (removeAll (ma_Path a) files)) b"
proof (cases "a = b")
  case True then show ?thesis using assms(1,2) by (auto simp: stageable_def managed_ok_def)
next
  case False
  then have "ma_Path a \<noteq> ma_Path b" "ma_Path b \<noteq> staged_path oid a" "ma_Path a \<noteq> staged_path oid b" using assms(1-3) by (auto simp: managed_ok_def)
  then show ?thesis using assms(4) by (auto simp: stageable_def staged_path_def)
qed

definition staged_all :: "string \<Rightarrow> lifecycle \<Rightarrow> string list \<Rightarrow> ManagedAsset list \<Rightarrow> ManagedAsset list \<Rightarrow> lifecycle \<Rightarrow> bool" where
  "staged_all oid s sids as as' s1 =
     (calm s1 \<and> (\<exists>fs. s1 = s\<lparr>lc_files := fs\<rparr>) \<and> set as \<subseteq> set as' \<and> set as' \<subseteq> set as \<union> set (cd_managed (lc_db s))
      \<and> (\<forall>sid \<in> set sids. \<forall>a. GetManagedAssetByService sid (lc_db s) = Some a \<longrightarrow> a \<in> set as')
      \<and> (\<forall>a \<in> set as'. ma_Path a \<notin> set (lc_files s1)))"

lemma staged_all_step:
  assumes "staged_all oid (s\<lparr>lc_files := fs\<rparr>) sids (as @ [a]) as' s1" "GetManagedAssetByService sid (lc_db s) = Some a"
  shows "staged_all oid s (sid # sids) as as' s1"
  using assms managed_in [OF assms(2)] by (auto simp: staged_all_def)

lemma stage_ends:
  assumes "calm s" "managed_ok oid (lc_db s)" "set as \<subseteq> set (cd_managed (lc_db s))" "\<forall>a \<in> set as. ma_Path a \<notin> set (lc_files s)"
    and "\<forall>sid \<in> set sids. \<forall>a. GetManagedAssetByService sid (lc_db s) = Some a \<longrightarrow> stageable oid c (lc_files s) a"
  shows "ends (stageManagedImports oid c sids as) s (staged_all oid s sids as)"
  using assms
proof (induction sids arbitrary: s as)
  case Nil
  have "s = s\<lparr>lc_files := lc_files s\<rparr>" by simp
  then have "\<exists>fs. s = s\<lparr>lc_files := fs\<rparr>" by (rule exI)
  with Nil show ?case by (simp add: staged_all_def)
next
  case (Cons sid sids)
  show ?case
  proof (cases "GetManagedAssetByService sid (lc_db s)")
    case None
    have "ends (stageManagedImports oid c sids as) s (staged_all oid s (sid # sids) as)"
      by (rule ends_mono [OF Cons.IH]) (use Cons.prems None in \<open>auto simp: staged_all_def\<close>)
    then show ?thesis by (auto intro!: ends_bind ends_read [OF Cons.prems(1)] simp: None)
  next
    case (Some a)
    note a = managed_in [OF Some]
    have st: "stageable oid c (lc_files s) a" using Cons.prems(5) Some by simp
    have next_files: "ends (stageManagedImports oid c sids (as @ [a])) (s\<lparr>lc_files := fs\<rparr>) (staged_all oid s (sid # sids) as)"
      if "\<forall>b \<in> set (as @ [a]). ma_Path b \<notin> set fs" "\<forall>b \<in> set (cd_managed (lc_db s)). stageable oid c (lc_files s) b \<longrightarrow> stageable oid c fs b" for fs
      by (rule ends_mono [OF Cons.IH])
        (use Cons.prems a that managed_in in \<open>auto simp: calm_def intro!: staged_all_step [OF _ Some]\<close>)
    have same: "s = s\<lparr>lc_files := lc_files s\<rparr>" by simp
    have clear: "ma_Path b \<noteq> staged_path oid a" if "b \<in> set (cd_managed (lc_db s))" for b
      using Cons.prems(2) a that by (auto simp: managed_ok_def)
    have "ends (pbind (ptry (os_Rename (ma_Path a) (staged_path oid a))) (\<lambda>mv. case mv of Inl e \<Rightarrow> fail_restoring oid as e
        | Inr True \<Rightarrow> stageManagedImports oid c sids (as @ [a])
        | Inr False \<Rightarrow> if c then stageManagedImports oid c sids (as @ [a]) else fail_restoring oid as (OtherError ''stage managed import asset: file does not exist'')))
      s (staged_all oid s (sid # sids) as)" if "staged_path oid a \<notin> set (lc_files s)"
    proof (rule ends_bind, rule ends_rename [OF Cons.prems(1)])
      assume "ma_Path a \<in> set (lc_files s)"
      have "ends (stageManagedImports oid c sids (as @ [a])) (s\<lparr>lc_files := List.insert (staged_path oid a) (removeAll (ma_Path a) (lc_files s))\<rparr>)
          (staged_all oid s (sid # sids) as)"
        by (rule next_files) (use Cons.prems(3,4) a clear stageable_other [OF Cons.prems(2)] in auto)
      then show "ends (case Inr True of Inl e \<Rightarrow> fail_restoring oid as e | Inr True \<Rightarrow> stageManagedImports oid c sids (as @ [a])
        | Inr False \<Rightarrow> if c then stageManagedImports oid c sids (as @ [a]) else fail_restoring oid as (OtherError ''stage managed import asset: file does not exist''))
        (s\<lparr>lc_files := List.insert (staged_path oid a) (removeAll (ma_Path a) (lc_files s))\<rparr>) (staged_all oid s (sid # sids) as)" by simp
    next
      assume "ma_Path a \<notin> set (lc_files s)"
      then show "ends (case Inr False of Inl e \<Rightarrow> fail_restoring oid as e | Inr True \<Rightarrow> stageManagedImports oid c sids (as @ [a])
        | Inr False \<Rightarrow> if c then stageManagedImports oid c sids (as @ [a]) else fail_restoring oid as (OtherError ''stage managed import asset: file does not exist''))
        s (staged_all oid s (sid # sids) as)"
        using st that next_files [of "lc_files s"] Cons.prems(4) same by (auto simp: stageable_def)
    qed
    moreover have "ends (stageManagedImports oid c sids (as @ [a])) s (staged_all oid s (sid # sids) as)" if "staged_path oid a \<in> set (lc_files s)"
      using st that next_files [of "lc_files s"] Cons.prems(4) same by (auto simp: stageable_def)
    ultimately show ?thesis
      apply (simp only: stageManagedImports.simps)
      apply (rule ends_bind, rule ends_read [OF Cons.prems(1), where x = "Some a"])
       apply (simp only: option.case)
       apply (rule ends_bind, rule ends_exists [OF Cons.prems(1)])
       apply (cases "staged_path oid a \<in> set (lc_files s)"; simp)
      apply (simp add: Some)
      done
  qed
qed

text \<open>The removal of staged files, with their rows.\<close>

lemma remove_managed_ends:
  assumes "calm s"
  shows "ends (removeManagedImports oid as) s (\<lambda>_ s1. s1 = s\<lparr>lc_files := filter (\<lambda>f. f \<notin> staged_path oid ` set as) (lc_files s),
    lc_db := (lc_db s)\<lparr>cd_managed := filter (\<lambda>a. ma_ImportID a \<notin> ma_ImportID ` set as) (cd_managed (lc_db s))\<rparr>\<rparr>)"
  using assms
proof (induction as arbitrary: s)
  case (Cons a as)
  let ?s = "s\<lparr>lc_files := removeAll (staged_path oid a) (lc_files s),
    lc_db := (lc_db s)\<lparr>cd_managed := filter (\<lambda>b. ma_ImportID b \<noteq> ma_ImportID a) (cd_managed (lc_db s))\<rparr>\<rparr>"
  have "calm ?s" using Cons.prems by (simp add: calm_def)
  from Cons.IH [OF this] show ?case
    using Cons.prems by (auto simp: ends_def pbind_def os_Remove_def db_request_def DeleteManagedAsset_def request_calm calm_def removeAll_filter_not_eq
        eq_commute [of _ "staged_path oid a"] request_def split: prod.splits sum.splits)
qed simp

text \<open>What the commit leaves of a target.\<close>

definition catalog_clear :: "DeletionPlan \<Rightarrow> catalog_db \<Rightarrow> bool" where
  "catalog_clear p db =
     (let wid = dp_WorkspaceID p; target = dr_ID (dp_Target p)
      in case dp_Scope p of
           DeletionScopeWorkspace \<Rightarrow>
             list_all (\<lambda>w. ws_ID w \<noteq> wid) (cd_workspaces db) \<and> list_all (\<lambda>v. sv_WorkspaceID v \<noteq> wid) (cd_services db)
             \<and> list_all (\<lambda>c. cv_WorkspaceID c \<noteq> wid) (cd_coverages db) \<and> list_all (\<lambda>g. lg_WorkspaceID g \<noteq> wid) (cd_groups db)
             \<and> list_all (\<lambda>q. sq_WorkspaceID q \<noteq> wid) (cd_queries db) \<and> list_all (\<lambda>k. ak_WorkspaceID k \<noteq> Some wid) (db_keys (cd_auth db))
             \<and> list_all (\<lambda>r. cr_V1 r \<noteq> wid) (db_policies (cd_auth db))
         | DeletionScopeService \<Rightarrow>
             list_all (\<lambda>v. \<not> (sv_ID v = target \<and> sv_WorkspaceID v = wid)) (cd_services db)
             \<and> list_all (\<lambda>l. ly_ServiceID l \<noteq> target) (cd_layers db) \<and> list_all (\<lambda>c. cv_ServiceID c \<noteq> target) (cd_coverages db)
             \<and> list_all (\<lambda>g. lg_ID g \<notin> dr_ID ` set (dp_LayerGroups p)) (cd_groups db)
             \<and> list_all (\<lambda>q. sq_ID q \<notin> dr_ID ` set (dp_StoredQueries p)) (cd_queries db))"

lemma catalog_clear_deletions [simp]:
  "catalog_clear p (db\<lparr>cd_deletions := ops\<rparr>) = catalog_clear p db" "catalog_clear p (db\<lparr>cd_managed := ms\<rparr>) = catalog_clear p db"
  by (cases "dp_Scope p"; simp add: catalog_clear_def Let_def)+

lemma commit_clears:
  assumes "stands op st ph db" "st \<noteq> DeletionCompleted" "ph \<noteq> DeletionPhaseCatalogCommitted" "ph \<noteq> DeletionPhaseRuntimeCleared"
    and "CommitCatalogDeletion now (do_ID op) db = (r, db')"
  shows "r = Inr ()" "catalog_clear (do_Plan op) db'" "stands op DeletionRunning DeletionPhaseCatalogCommitted db'" "cd_managed db' = cd_managed db"
proof -
  obtain row where row: "GetCatalogDeletion (do_ID op) db = Inr row" "do_Plan row = do_Plan op" "do_Scope row = dp_Scope (do_Plan op)"
    "do_WorkspaceID row = dp_WorkspaceID (do_Plan op)" "do_TargetID row = dr_ID (dp_Target (do_Plan op))" "do_Status row = st" "do_Phase row = ph"
    using assms(1) by (auto simp: stands_def row_of_def)
  let ?mark = "\<lambda>x. if do_ID x = do_ID op then x\<lparr>do_Status := DeletionRunning, do_Phase := DeletionPhaseCatalogCommitted, do_LastError := [], do_UpdatedAt := now\<rparr> else x"
  have f: "find (\<lambda>x. do_ID x = do_ID op) (cd_deletions db) = Some row" using row(1) by (simp add: GetCatalogDeletion_def split: option.splits)
  have m: "find (\<lambda>x. do_ID x = do_ID op) (map ?mark (cd_deletions db)) = Some (?mark row)"
    by (subst find_map_key) (simp_all add: f)
  show "r = Inr ()" using assms row by (auto simp: CommitCatalogDeletion_def committed_def Let_def)
  show "catalog_clear (do_Plan op) db'" using assms row
    by (auto simp: CommitCatalogDeletion_def committed_def catalog_clear_def Let_def deleteWorkspaceCatalog_def deleteServiceCatalog_def
        bump_capabilities_def list_all_iff split: DeletionScope.splits)
  have d: "cd_deletions db' = map ?mark (cd_deletions db)" "cd_managed db' = cd_managed db" using assms row
    by (auto simp: CommitCatalogDeletion_def committed_def Let_def deleteWorkspaceCatalog_def deleteServiceCatalog_def bump_capabilities_def split: DeletionScope.splits)
  show "cd_managed db' = cd_managed db" by (rule d(2))
  show "stands op DeletionRunning DeletionPhaseCatalogCommitted db'"
    using m row find_SomeD [OF f] by (auto simp: stands_def row_of_def GetCatalogDeletion_def d(1))
qed

lemma commit_ends:
  assumes "calm s" "stands op st ph (lc_db s)" "st \<noteq> DeletionCompleted" "ph \<noteq> DeletionPhaseCatalogCommitted" "ph \<noteq> DeletionPhaseRuntimeCleared"
  shows "ends (commit_or_restore (do_ID op) as) s (\<lambda>_ s1. \<exists>db. s1 = s\<lparr>lc_db := db\<rparr> \<and> catalog_clear (do_Plan op) db
    \<and> stands op DeletionRunning DeletionPhaseCatalogCommitted db \<and> cd_managed db = cd_managed (lc_db s))"
proof -
  obtain r db' where c: "CommitCatalogDeletion (lc_now s) (do_ID op) (lc_db s) = (r, db')" by fastforce
  note clears = commit_clears [OF assms(2-5) c]
  then show ?thesis using assms(1) c
    by (auto simp: commit_or_restore_def ends_def db_request_def request_calm)
qed

text \<open>Nothing of the target is served by the registry any more.\<close>

definition unserved :: "DeletionPlan \<Rightarrow> lifecycle \<Rightarrow> bool" where
  "unserved p s =
     (case dp_Scope p of
        DeletionScopeWorkspace \<Rightarrow> list_all (\<lambda>(w, _). w \<noteq> dp_WorkspaceID p) (lc_registry s)
      | DeletionScopeService \<Rightarrow> list_all (\<lambda>(w, svcs). w = dp_WorkspaceID p \<longrightarrow> dr_ID (dp_Target p) \<notin> set svcs) (lc_registry s))"

lemma unserved_quiesce: "unserved p (quiesceRuntime p s)"
  by (cases "dp_Scope p") (auto simp: unserved_def quiesceRuntime_def registry_Remove_def registry_QuiesceService_def list_all_iff split: if_splits)

lemma quiesce_frame: "\<exists>reg. quiesceRuntime p s = s\<lparr>lc_registry := reg\<rparr>"
  by (auto simp: quiesceRuntime_def registry_Remove_def registry_QuiesceService_def)

lemma clear_frame: "lc_db (clearRuntime deps p s) = lc_db s" "lc_files (clearRuntime deps p s) = lc_files s" "lc_aux (clearRuntime deps p s) = lc_aux s"
    "calm (clearRuntime deps p s) = calm s" "unserved p (clearRuntime deps p s)"
  using quiesce_frame [of p s] unserved_quiesce [of p s]
  by (auto simp: clearRuntime_def Let_def calm_def unserved_def split: DeletionScope.splits)

lemma stands_managed [simp]: "stands op st ph (db\<lparr>cd_managed := ms\<rparr>) = stands op st ph db"
  by (simp add: stands_def row_of_def GetCatalogDeletion_def)

lemma ends_update_stands:
  assumes "calm s" "stands op st0 ph0 (lc_db s)"
    and "\<And>ops. stands op st ph ((lc_db s)\<lparr>cd_deletions := ops\<rparr>) \<Longrightarrow> Q () (s\<lparr>lc_db := (lc_db s)\<lparr>cd_deletions := ops\<rparr>\<rparr>)"
  shows "ends (lc_update (do_ID op) st ph e) s Q"
proof -
  from assms(2) obtain row where row: "row_of op (lc_db s) row" by (auto simp: stands_def)
  show ?thesis by (rule ends_update [OF assms(1) row]) (rule assms(3))
qed

text \<open>The end of a deletion, and its last requests.\<close>

definition completed :: "DeletionOperation \<Rightarrow> lifecycle \<Rightarrow> bool" where
  "completed op s = (stands op DeletionCompleted DeletionPhaseCompleted (lc_db s) \<and> catalog_clear (do_Plan op) (lc_db s) \<and> unserved (do_Plan op) s)"

lemma finish_ends:
  assumes "calm s" "stands op st ph (lc_db s)" "catalog_clear (do_Plan op) (lc_db s)"
    and "dp_Scope (do_Plan op) = DeletionScopeWorkspace \<longrightarrow> valid_path_id (do_ID op)"
  shows "ends (finish deps op as) s (\<lambda>_ s1. completed op s1 \<and> lc_aux s1 = lc_aux s
    \<and> lc_files s1 = filter (\<lambda>f. f \<notin> staged_path (do_ID op) ` set as) (lc_files s)
    \<and> cd_managed (lc_db s1) = filter (\<lambda>a. ma_ImportID a \<notin> ma_ImportID ` set as) (cd_managed (lc_db s)))"
  unfolding finish_def
proof (rule ends_then [OF remove_managed_ends [OF assms(1)]], rule ends_then)
  fix s1 :: lifecycle
  let ?db = "(lc_db s)\<lparr>cd_managed := filter (\<lambda>a. ma_ImportID a \<notin> ma_ImportID ` set as) (cd_managed (lc_db s))\<rparr>"
  assume s1: "s1 = s\<lparr>lc_files := filter (\<lambda>f. f \<notin> staged_path (do_ID op) ` set as) (lc_files s), lc_db := ?db\<rparr>"
  then show "ends (pwhen (dp_Scope (do_Plan op) = DeletionScopeWorkspace) (assets_RemoveStaged (do_ID op))) s1
      (\<lambda>_ s2. calm s2 \<and> lc_db s2 = ?db \<and> lc_files s2 = lc_files s1 \<and> lc_aux s2 = lc_aux s)"
    using assms(1,4) by (intro ends_when) (auto simp: assets_RemoveStaged_def ends_def request_def calm_def)
  fix s2 :: lifecycle
  assume s2: "calm s2 \<and> lc_db s2 = ?db \<and> lc_files s2 = lc_files s1 \<and> lc_aux s2 = lc_aux s"
  show "ends (pbind (pmodify (clearRuntime deps (do_Plan op))) (\<lambda>_. pbind (lc_update (do_ID op) DeletionRunning DeletionPhaseRuntimeCleared [])
      (\<lambda>_. lc_update (do_ID op) DeletionCompleted DeletionPhaseCompleted []))) s2
     (\<lambda>_ s3. completed op s3 \<and> lc_aux s3 = lc_aux s \<and> lc_files s3 = filter (\<lambda>f. f \<notin> staged_path (do_ID op) ` set as) (lc_files s)
       \<and> cd_managed (lc_db s3) = filter (\<lambda>a. ma_ImportID a \<notin> ma_ImportID ` set as) (cd_managed (lc_db s)))"
    apply (rule ends_bind, simp only: ends_modify, rule ends_bind)
    apply (rule ends_update_stands [of _ op st ph])
    subgoal using s2 by (simp add: clear_frame)
    subgoal using s2 assms(2) by (simp add: clear_frame)
    apply (rule ends_update_stands [of _ op DeletionRunning DeletionPhaseRuntimeCleared])
    subgoal using s2 clear_frame(4) [of deps "do_Plan op" s2] by (simp add: calm_def)
    subgoal by simp
    subgoal using s2 s1 assms(3) clear_frame(5) [of "do_Plan op" deps s2]
      by (simp add: completed_def clear_frame unserved_def split: DeletionScope.splits)
    done
qed

definition execute_post :: "Dependencies \<Rightarrow> DeletionOperation \<Rightarrow> lifecycle \<Rightarrow> unit \<Rightarrow> lifecycle \<Rightarrow> bool" where
  "execute_post deps op s u s1 = (completed op s1 \<and> aux_clear deps (do_Plan op) (lc_aux s1)
    \<and> (dep_ManagedImports deps \<longrightarrow> (\<forall>sid \<in> set (deletionServiceIDs (do_Plan op)). GetManagedAssetByService sid (lc_db s1) = None
         \<and> (\<forall>a. GetManagedAssetByService sid (lc_db s) = Some a \<longrightarrow> ma_Path a \<notin> set (lc_files s1) \<and> staged_path (do_ID op) a \<notin> set (lc_files s1)))))"

lemma pbind_assoc: "pbind (pbind m f) g = pbind m (\<lambda>x. pbind (f x) g)"
  by (rule ext) (auto simp: pbind_def split: prod.splits sum.splits)

lemma managed_gone:
  assumes "managed_ok oid db" "\<forall>a. GetManagedAssetByService sid db = Some a \<longrightarrow> a \<in> set as"
    and "cd_managed db' = filter (\<lambda>a. ma_ImportID a \<notin> ma_ImportID ` set as) (cd_managed db)"
  shows "GetManagedAssetByService sid db' = None"
proof (rule ccontr)
  assume "GetManagedAssetByService sid db' \<noteq> None"
  then obtain b where "GetManagedAssetByService sid db' = Some b" by blast
  from managed_in [OF this] have b: "b \<in> set (cd_managed db)" "ma_ServiceID b = Some sid" "ma_ImportID b \<notin> ma_ImportID ` set as" using assms(3) by auto
  then obtain a where a: "GetManagedAssetByService sid db = Some a" by (fastforce simp: GetManagedAssetByService_def find_None_iff)
  from managed_in [OF this] b assms(1) have "a = b" by (auto simp: managed_ok_def)
  with a assms(2) b(3) show False by auto
qed

definition known :: "DeletionOperation \<Rightarrow> catalog_db \<Rightarrow> bool" where
  "known op db = (\<exists>st ph. stands op st ph db)"

lemma knownI: "stands op st ph db \<Longrightarrow> known op db"
  by (auto simp: known_def)

lemma execute_ends:
  assumes "calm s" "row_of op (lc_db s) row" "dirs_ok op s" "managed_ok (do_ID op) (lc_db s)"
    and "\<forall>sid \<in> set (deletionServiceIDs (do_Plan op)). \<forall>a. GetManagedAssetByService sid (lc_db s) = Some a \<longrightarrow> stageable (do_ID op) (committed op) (lc_files s) a"
  shows "ends (execute deps op) s (execute_post deps op s)"
proof -
  let ?p = "do_Plan op"
  obtain reg where reg: "quiesceRuntime ?p s = s\<lparr>lc_registry := reg\<rparr>" using quiesce_frame by blast
  define Q1 where "Q1 = (\<lambda>(_::unit) s1. \<exists>bl. s1 = s\<lparr>lc_registry := reg, lc_blocked := bl\<rparr>)"
  define Q2 where "Q2 = (\<lambda>(_::unit) s2. calm s2 \<and> (\<exists>ops. lc_db s2 = (lc_db s)\<lparr>cd_deletions := ops\<rparr>) \<and> lc_files s2 = lc_files s
    \<and> lc_asset_dirs s2 = lc_asset_dirs s \<and> lc_staged_dirs s2 = lc_staged_dirs s \<and> known op (lc_db s2))"
  define Q3 where "Q3 = (\<lambda>(_::unit) s3. calm s3 \<and> (\<exists>ops. lc_db s3 = (lc_db s)\<lparr>cd_deletions := ops\<rparr>) \<and> lc_files s3 = lc_files s
    \<and> aux_clear deps ?p (lc_aux s3) \<and> known op (lc_db s3))"
  define Q4 where "Q4 = (\<lambda>as s4. calm s4 \<and> (\<exists>ops. lc_db s4 = (lc_db s)\<lparr>cd_deletions := ops\<rparr>) \<and> aux_clear deps ?p (lc_aux s4) \<and> known op (lc_db s4)
    \<and> (dep_ManagedImports deps \<longrightarrow> (\<forall>sid \<in> set (deletionServiceIDs ?p). \<forall>a. GetManagedAssetByService sid (lc_db s) = Some a \<longrightarrow> a \<in> set as)
        \<and> (\<forall>a \<in> set as. ma_Path a \<notin> set (lc_files s4))))"
  have same: "GetManagedAssetByService sid ((lc_db s)\<lparr>cd_deletions := ops\<rparr>) = GetManagedAssetByService sid (lc_db s)" for sid ops
    by (simp add: GetManagedAssetByService_def)
  have 1: "ends (pwhen (dep_TileJobs deps) (tiles_QuiesceLifecycle (dp_WorkspaceID ?p) (resourceIDsForScope ?p (deletionResourceIDs ?p)))) (s\<lparr>lc_registry := reg\<rparr>) Q1"
  proof (rule ends_when)
    have "s\<lparr>lc_registry := reg\<rparr> = s\<lparr>lc_registry := reg, lc_blocked := lc_blocked s\<rparr>" by simp
    then show "Q1 () (s\<lparr>lc_registry := reg\<rparr>)" unfolding Q1_def by (rule exI)
  qed (use assms(1) in \<open>auto simp: tiles_QuiesceLifecycle_def ends_def request_def calm_def Q1_def\<close>)
  have 2: "ends (lc_update (do_ID op) DeletionRunning DeletionPhaseJobsQuiesced []) s1 Q2" if "Q1 u s1" for u s1
    using that assms(1,2) by (auto simp: Q1_def Q2_def calm_def intro!: ends_update [of _ op row] knownI)
  have 3: "ends (remove_auxiliary deps op) s2 Q3" if "Q2 u s2" for u s2
    using that assms(3) by (auto simp: Q2_def Q3_def dirs_ok_def intro!: ends_mono [OF remove_auxiliary_ends])
  have 4: "ends (if dep_ManagedImports deps then stageManagedImports (do_ID op) (committed op) (deletionServiceIDs ?p) [] else pret []) s3 Q4" if "Q3 u s3" for u s3
  proof (cases "dep_ManagedImports deps")
    case True
    have "ends (stageManagedImports (do_ID op) (committed op) (deletionServiceIDs ?p) []) s3 (staged_all (do_ID op) s3 (deletionServiceIDs ?p) [])"
      by (rule stage_ends) (use that assms(4,5) in \<open>auto simp: Q3_def same\<close>)
    then show ?thesis unfolding if_P [OF True]
      by (rule ends_mono) (use that True in \<open>auto simp: Q3_def Q4_def staged_all_def same\<close>)
  qed (use that in \<open>auto simp: Q3_def Q4_def\<close>)
  have 5: "ends (pbind (lc_update (do_ID op) DeletionRunning DeletionPhaseAuxiliaryRemoved []) (\<lambda>_. commit_or_restore (do_ID op) as)) s4
      (\<lambda>_ s5. calm s5 \<and> lc_files s5 = lc_files s4 \<and> lc_aux s5 = lc_aux s4 \<and> cd_managed (lc_db s5) = cd_managed (lc_db s)
        \<and> catalog_clear ?p (lc_db s5) \<and> stands op DeletionRunning DeletionPhaseCatalogCommitted (lc_db s5))" if q: "Q4 as s4" for as s4
  proof -
    from q obtain st ph where "calm s4" "stands op st ph (lc_db s4)" by (auto simp: Q4_def known_def)
    then show ?thesis
      by (intro ends_bind, intro ends_update_stands [of _ op st ph])
        (use q in \<open>auto simp: calm_def Q4_def intro!: ends_mono [OF commit_ends]\<close>)
  qed
  have 6: "ends (pbind (lc_update (do_ID op) DeletionRunning DeletionPhaseAuxiliaryRemoved []) (\<lambda>_.
      pbind (commit_or_restore (do_ID op) as) (\<lambda>_. finish deps op as))) s4 (execute_post deps op s)" if q: "Q4 as s4" for as s4
  proof -
    have "ends (pbind (pbind (lc_update (do_ID op) DeletionRunning DeletionPhaseAuxiliaryRemoved []) (\<lambda>_. commit_or_restore (do_ID op) as)) (\<lambda>_. finish deps op as)) s4
        (execute_post deps op s)"
    proof (rule ends_then [OF 5 [OF q]])
      fix s5 :: lifecycle
      assume s5: "calm s5 \<and> lc_files s5 = lc_files s4 \<and> lc_aux s5 = lc_aux s4 \<and> cd_managed (lc_db s5) = cd_managed (lc_db s)
        \<and> catalog_clear ?p (lc_db s5) \<and> stands op DeletionRunning DeletionPhaseCatalogCommitted (lc_db s5)"
      have v: "dp_Scope ?p = DeletionScopeWorkspace \<longrightarrow> valid_path_id (do_ID op)" using assms(3) by (auto simp: dirs_ok_def)
      have "ends (finish deps op as) s5 (\<lambda>_ s6. completed op s6 \<and> lc_aux s6 = lc_aux s5
          \<and> lc_files s6 = filter (\<lambda>f. f \<notin> staged_path (do_ID op) ` set as) (lc_files s5)
          \<and> cd_managed (lc_db s6) = filter (\<lambda>a. ma_ImportID a \<notin> ma_ImportID ` set as) (cd_managed (lc_db s5)))"
        using s5 by (intro finish_ends [OF _ _ _ v]) auto
      then show "ends (finish deps op as) s5 (execute_post deps op s)"
        by (rule ends_mono) (use s5 q assms(4) in \<open>auto simp: execute_post_def Q4_def intro!: managed_gone\<close>)
    qed
    then show ?thesis by (simp add: pbind_assoc)
  qed
  show ?thesis
    unfolding execute_def Let_def
    apply (rule ends_bind, simp only: ends_modify reg)
    apply (rule ends_then [OF 1], rule ends_then [OF 2], assumption)
    apply (rule ends_then [OF 3], assumption)
    apply (rule ends_then [OF 4], assumption)
    apply (erule 6)
    done
qed


definition demo_deps :: Dependencies where
  "demo_deps = \<lparr>dep_TileCache = True, dep_TileJobs = True, dep_Mosaic = True, dep_STAC = True, dep_Enforcer = True, dep_WFSState = True,
     dep_Cache = True, dep_ManagedImports = True\<rparr>"

definition demo_lifecycle :: lifecycle where
  "demo_lifecycle = \<lparr>lc_db = demo_catalog\<lparr>cd_managed := [\<lparr>ma_ImportID = ''i'', ma_WorkspaceID = ''w'', ma_ServiceID = Some ''s'', ma_Path = ''/data/i.parquet'', ma_EncryptionKey = ''k'', ma_CreatedAt = 1\<rparr>]\<rparr>,
     lc_now = 9, lc_faults = [], lc_down = False, lc_registry = [(''w'', [''s''])], lc_blocked = [],
     lc_aux = \<lparr>ax_Tiles = [((''w'', ''l''), 100), ((''w'', ''k''), 7)], ax_TileJobs = [], ax_STACCollections = [((''w'', ''s''), 1)], ax_STACItems = [],
               ax_MosaicServices = [], ax_MosaicGranules = [], ax_MosaicJobs = []\<rparr>,
     lc_files = [''/data/i.parquet''], lc_asset_dirs = [], lc_staged_dirs = [], lc_wfs = [], lc_cached = [], lc_policies = []\<rparr>"

lemma demo_operation:
  "map (\<lambda>op. (do_ID op, dp_Scope (do_Plan op), dp_WorkspaceID (do_Plan op), dr_ID (dp_Target (do_Plan op)), do_Scope op, do_WorkspaceID op, do_TargetID op))
     (cd_deletions demo_catalog) = [(''d'', DeletionScopeService, ''w'', ''s'', DeletionScopeService, ''w'', ''s'')]"
  by (simp add: demo_eval catalog_eval Let_def)


section \<open>A retry forgets the commit\<close>

text \<open>Once a managed file is removed, only an attempt that knows of the commit gets past the staging of it;
  but each attempt first overwrites the recorded phase. When a retry of a committed deletion fails early,
  the next one starts from that phase and fails on the missing file, for ever.\<close>

lemma lost_file_blocks:
  assumes "calm s" "dep_ManagedImports deps" "dp_Scope (do_Plan op) = DeletionScopeService" "\<not> committed op"
    and "GetManagedAssetByService (dr_ID (dp_Target (do_Plan op))) (lc_db s) = Some a"
    and "ma_Path a \<notin> set (lc_files s)" "staged_path (do_ID op) a \<notin> set (lc_files s)"
  shows "\<exists>e s1. execute deps op s = (Inl e, s1)"
  using assms
  by (auto simp: execute_def pbind_def pmodify_def pwhen_def pret_def quiesceRuntime_def registry_QuiesceService_def request_def calm_def Let_def
      tiles_QuiesceLifecycle_def lc_update_def db_request_def UpdateCatalogDeletion_def remove_auxiliary_def stac_QuiesceAndDeleteLifecycle_def
      mosaic_QuiesceAndDeleteLifecycle_def tiles_PurgeLifecycle_def deletionServiceIDs_def db_read_def ptry_def os_exists_def os_Rename_def
      fail_restoring_def pfail_def GetManagedAssetByService_def split: prod.splits sum.splits)

lemma retry_resets_phase:
  "\<exists>op. cd_deletions demo_catalog = [op] \<and>
     map (\<lambda>o'. (do_Status o', do_Phase o')) (cd_deletions (lc_db (attempt demo_deps (op\<lparr>do_Phase := DeletionPhaseCatalogCommitted\<rparr>)
       (demo_lifecycle\<lparr>lc_faults := [Works, Works, Fails 0]\<rparr>)))) = [(DeletionFailed, DeletionPhaseJobsQuiesced)]"
proof -
  obtain op where op: "cd_deletions demo_catalog = [op]" "do_ID op = ''d''" "dp_Scope (do_Plan op) = DeletionScopeService"
    using demo_operation by (auto simp: map_eq_Cons_conv)
  then show ?thesis
    by (simp add: attempt_def execute_def pbind_def pmodify_def pwhen_def pret_def quiesceRuntime_def registry_QuiesceService_def request_def Let_def
      tiles_QuiesceLifecycle_def lc_update_def db_request_def UpdateCatalogDeletion_def remove_auxiliary_def stac_QuiesceAndDeleteLifecycle_def
      db_read_def demo_lifecycle_def demo_deps_def GetCatalogDeletion_def update_operation_def)
qed

text \<open>A service without publications has no resource identifier, and no identifier stands for the whole
  workspace: its deletion purges every tile of the workspace.\<close>

lemma empty_service_purges_workspace:
  assumes "dp_Scope p = DeletionScopeService" "plan_refs p = []"
  shows "purge (dp_WorkspaceID p) (resourceIDsForScope p (deletionResourceIDs p)) rows = filter (\<lambda>row. fst (fst row) \<noteq> dp_WorkspaceID p) rows"
  using assms by (simp add: resourceIDsForScope_def deletionResourceIDs_def purge_def owned_by_def)

end
