(* ===== verification/Catalog_Hidden.thy ===== *)
theory Catalog_Hidden
  imports Catalog_Recovery
begin

text \<open>
  What readers of the catalog see while deletions run. The coordinator, its attempts with faults and
  crashes, restarts, and every other operation of the catalog are interleaved; the target of a
  recorded deletion is never visible again, and a deletion is recorded as completed only when its
  target is gone.
\<close>

section \<open>Safety of the recorded operations\<close>

definition skeys :: "catalog_db \<Rightarrow> (string \<times> string) set" where
  "skeys db = (\<lambda>v. (sv_ID v, sv_WorkspaceID v)) ` set (cd_services db)"

definition wkeys :: "catalog_db \<Rightarrow> string set" where
  "wkeys db = ws_ID ` set (cd_workspaces db)"

definition opkeys :: "catalog_db \<Rightarrow> (string \<times> DeletionScope \<times> string) set" where
  "opkeys db = (\<lambda>op. (do_ID op, do_Scope op, do_TargetID op)) ` set (cd_deletions db)"

text \<open>\<open>P\<close> are the workspaces into which imports are published: a publication does not look at the workspace,
  so it may leave a service of a workspace that is no longer there.\<close>

definition gone :: "string set \<Rightarrow> catalog_db \<Rightarrow> DeletionScope \<Rightarrow> string \<Rightarrow> bool" where
  "gone P db scope target =
     (case scope of
        DeletionScopeService \<Rightarrow> target \<notin> fst ` skeys db
      | DeletionScopeWorkspace \<Rightarrow> target \<notin> wkeys db \<and> (target \<notin> P \<longrightarrow> target \<notin> snd ` skeys db))"

definition row_safe :: "string set \<Rightarrow> catalog_db \<Rightarrow> DeletionOperation \<Rightarrow> bool" where
  "row_safe P db op =
     ((do_Status op = DeletionCompleted \<or> committed op \<longrightarrow> gone P db (do_Scope op) (do_TargetID op))
      \<and> (case do_Scope op of
           DeletionScopeService \<Rightarrow> \<forall>w. (do_TargetID op, w) \<in> skeys db \<longrightarrow> w = do_WorkspaceID op
         | DeletionScopeWorkspace \<Rightarrow> do_WorkspaceID op = do_TargetID op))"

text \<open>\<open>K\<close> are operations that were recorded, \<open>C\<close> identifiers of operations whose target is known to be gone.\<close>

definition safe :: "string set \<Rightarrow> (string \<times> DeletionScope \<times> string) set \<Rightarrow> string set \<Rightarrow> catalog_db \<Rightarrow> bool" where
  "safe P K C db =
     (single_valued (skeys db) \<and> distinct (map do_ID (cd_deletions db)) \<and> K \<subseteq> opkeys db
      \<and> (\<forall>op \<in> set (cd_deletions db). row_safe P db op \<and> (do_ID op \<in> C \<longrightarrow> gone P db (do_Scope op) (do_TargetID op))))"

definition shrinks :: "catalog_db \<Rightarrow> catalog_db \<Rightarrow> bool" where
  "shrinks db db' = (skeys db' \<subseteq> skeys db \<and> wkeys db' \<subseteq> wkeys db \<and> cd_deletions db' = cd_deletions db)"

lemma catalog_shrinks_refl [simp]: "shrinks db db"
  by (simp add: shrinks_def)

lemma gone_shrinks: "gone P db scope t \<Longrightarrow> skeys db' \<subseteq> skeys db \<Longrightarrow> wkeys db' \<subseteq> wkeys db \<Longrightarrow> gone P db' scope t"
  by (auto simp: gone_def split: DeletionScope.splits)

lemma row_safe_shrinks: "row_safe P db op \<Longrightarrow> skeys db' \<subseteq> skeys db \<Longrightarrow> wkeys db' \<subseteq> wkeys db \<Longrightarrow> row_safe P db' op"
  by (auto simp: row_safe_def gone_shrinks split: DeletionScope.splits)

lemma safe_shrinks: "safe P K C db \<Longrightarrow> shrinks db db' \<Longrightarrow> safe P K C db'"
  by (auto simp: safe_def shrinks_def opkeys_def intro: single_valued_subset row_safe_shrinks gone_shrinks)

lemma safe_mono: "safe P K C db \<Longrightarrow> K' \<subseteq> K \<Longrightarrow> C' \<subseteq> C \<Longrightarrow> safe P K' C' db"
  unfolding safe_def by blast

lemma gone_deletions [simp]: "gone P (db\<lparr>cd_deletions := ops\<rparr>) = gone P db" "row_safe P (db\<lparr>cd_deletions := ops\<rparr>) = row_safe P db"
    "skeys (db\<lparr>cd_deletions := ops\<rparr>) = skeys db" "wkeys (db\<lparr>cd_deletions := ops\<rparr>) = wkeys db"
  by (auto simp: fun_eq_iff gone_def row_safe_def skeys_def wkeys_def split: DeletionScope.splits)

lemma bump_keys [simp]: "skeys (bump_capabilities w db) = skeys db" "wkeys (bump_capabilities w db) = wkeys db"
    "skeys (bump_tiles w db) = skeys db" "wkeys (bump_tiles w db) = wkeys db"
proof -
  have set_ids: "wkeys db = set (map ws_ID (cd_workspaces db))" for db by (simp add: wkeys_def)
  show "wkeys (bump_capabilities w db) = wkeys db" "wkeys (bump_tiles w db) = wkeys db" unfolding set_ids by simp_all
qed (simp_all add: skeys_def bump_capabilities_def bump_tiles_def)

text \<open>A write to operations: each keeps scope, target and workspace, and is marked completed or committed
  only when its target is gone.\<close>

lemma safe_map_operations:
  assumes "safe P K C db" "\<And>op. op \<in> set (cd_deletions db) \<Longrightarrow> do_ID (f op) = do_ID op \<and> do_Scope (f op) = do_Scope op \<and> do_TargetID (f op) = do_TargetID op
      \<and> do_WorkspaceID (f op) = do_WorkspaceID op"
    and "\<And>op. op \<in> set (cd_deletions db) \<Longrightarrow> do_Status (f op) = DeletionCompleted \<or> committed (f op)
      \<Longrightarrow> do_Status op = DeletionCompleted \<or> committed op \<or> gone P db (do_Scope op) (do_TargetID op)"
  shows "safe P K C (db\<lparr>cd_deletions := map f (cd_deletions db)\<rparr>)"
proof -
  have ids: "map (do_ID \<circ> f) (cd_deletions db) = map do_ID (cd_deletions db)" using assms(2) by simp
  have keys: "opkeys (db\<lparr>cd_deletions := map f (cd_deletions db)\<rparr>) = opkeys db" using assms(2) by (simp add: opkeys_def image_image)
  have "row_safe P db (f op) \<and> (do_ID op \<in> C \<longrightarrow> gone P db (do_Scope (f op)) (do_TargetID (f op)))" if "op \<in> set (cd_deletions db)" for op
    using assms(1) assms(2,3) [OF that] that by (auto simp: safe_def row_safe_def split: DeletionScope.splits)
  then show ?thesis using assms(1,2) by (auto simp: safe_def keys ids)
qed

definition gone_id :: "string set \<Rightarrow> string \<Rightarrow> catalog_db \<Rightarrow> bool" where
  "gone_id P oid db = (\<forall>op \<in> set (cd_deletions db). do_ID op = oid \<longrightarrow> gone P db (do_Scope op) (do_TargetID op))"

lemma safe_insert: "safe P K (insert oid C) db = (safe P K C db \<and> gone_id P oid db)"
  by (auto simp: safe_def gone_id_def)

lemma safe_insert_fun: "safe P K (insert oid C) = (\<lambda>db. safe P K C db \<and> gone_id P oid db)"
  by (rule ext) (rule safe_insert)

lemma safe_unique: "safe P K C db \<Longrightarrow> op \<in> set (cd_deletions db) \<Longrightarrow> o' \<in> set (cd_deletions db) \<Longrightarrow> do_ID o' = do_ID op \<Longrightarrow> o' = op"
  by (auto simp: safe_def distinct_map inj_on_def)

lemma safe_update:
  assumes "safe P K C db" "st = DeletionCompleted \<or> ph = DeletionPhaseCatalogCommitted \<or> ph = DeletionPhaseRuntimeCleared \<Longrightarrow> gone_id P oid db"
  shows "safe P K C (snd (UpdateCatalogDeletion t oid st ph e db))"
proof (cases "oid \<in> do_ID ` set (cd_deletions db)")
  case True
  have "safe P K C (db\<lparr>cd_deletions := map (\<lambda>op. if do_ID op = oid then update_operation t st ph e op else op) (cd_deletions db)\<rparr>)"
    by (rule safe_map_operations [OF assms(1)]) (use assms(2) in \<open>auto simp: update_operation_def committed_def gone_id_def split: if_splits\<close>)
  with True show ?thesis by (simp add: UpdateCatalogDeletion_def)
qed (simp add: assms(1) UpdateCatalogDeletion_def)

lemma delete_shrinks: "shrinks db (deleteServiceCatalog op db)" "shrinks db (deleteWorkspaceCatalog wid db)"
  by (auto simp: shrinks_def skeys_def wkeys_def deleteServiceCatalog_def deleteWorkspaceCatalog_def Let_def)

lemma delete_gone:
  assumes "row_safe P db op"
  shows "do_Scope op = DeletionScopeService \<Longrightarrow> gone P (deleteServiceCatalog op db) (do_Scope op) (do_TargetID op)"
    "do_Scope op = DeletionScopeWorkspace \<Longrightarrow> gone P (deleteWorkspaceCatalog (do_WorkspaceID op) db) (do_Scope op) (do_TargetID op)"
  using assms by (auto simp: gone_def row_safe_def skeys_def wkeys_def deleteServiceCatalog_def deleteWorkspaceCatalog_def Let_def)

lemma safe_commit:
  assumes "safe P K C db" "CommitCatalogDeletion now oid db = (r, db')"
  shows "safe P K C db' \<and> (r = Inr () \<longrightarrow> gone_id P oid db')"
proof (cases "GetCatalogDeletion oid db")
  case (Inl e) with assms show ?thesis by (auto simp: CommitCatalogDeletion_def)
next
  case (Inr op)
  then have op: "op \<in> set (cd_deletions db)" "do_ID op = oid" by (auto simp: GetCatalogDeletion_def split: option.splits dest!: find_SomeD)
  have only: "o' = op" if "o' \<in> set (cd_deletions db)" "do_ID o' = oid" for o'
    using safe_unique [OF assms(1) op(1) that(1)] op(2) that(2) by simp
  have rs: "row_safe P db op" using assms(1) op(1) by (simp add: safe_def)
  show ?thesis
  proof (cases "do_Status op = DeletionCompleted \<or> committed op")
    case True
    then have "gone_id P oid db" using rs only by (auto simp: row_safe_def gone_id_def)
    with True Inr assms show ?thesis by (simp add: CommitCatalogDeletion_def)
  next
    case False
    let ?db1 = "case do_Scope op of DeletionScopeWorkspace \<Rightarrow> deleteWorkspaceCatalog (do_WorkspaceID op) db | DeletionScopeService \<Rightarrow> deleteServiceCatalog op db"
    let ?mark = "\<lambda>o'. if do_ID o' = oid then o'\<lparr>do_Status := DeletionRunning, do_Phase := DeletionPhaseCatalogCommitted, do_LastError := [], do_UpdatedAt := now\<rparr> else o'"
    let ?db2 = "?db1\<lparr>cd_deletions := map ?mark (cd_deletions ?db1)\<rparr>"
    have sh: "shrinks db ?db1" by (cases "do_Scope op") (simp_all add: delete_shrinks)
    have s1: "safe P K C ?db1" by (rule safe_shrinks [OF assms(1) sh])
    have g1: "gone P ?db1 (do_Scope op) (do_TargetID op)" using delete_gone [OF rs] by (cases "do_Scope op") simp_all
    have d1: "cd_deletions ?db1 = cd_deletions db" using sh by (simp add: shrinks_def)
    have s2: "safe P K C ?db2"
    proof (rule safe_map_operations [OF s1], goal_cases)
      case (2 o')
      then show ?case using only [of o'] g1 d1 by (cases "do_ID o' = oid"; simp) blast
    qed simp
    have "gone_id P oid ?db2" unfolding gone_id_def gone_deletions
    proof (intro ballI impI)
      fix x assume "x \<in> set (cd_deletions ?db2)" and x: "do_ID x = oid"
      then have "x \<in> ?mark ` set (cd_deletions db)" by (simp add: d1)
      then obtain o' where o': "o' \<in> set (cd_deletions db)" "x = ?mark o'" by blast
      with x have "do_ID o' = oid" by (cases "do_ID o' = oid") simp_all
      with o' only [of o'] g1 show "gone P ?db1 (do_Scope x) (do_TargetID x)" by simp
    qed
    moreover have db': "db' = bump_capabilities (do_WorkspaceID op) ?db2" "r = Inr ()"
      using assms(2) Inr False by (auto simp: CommitCatalogDeletion_def Let_def)
    moreover have "shrinks ?db2 db'" unfolding db' by (simp add: shrinks_def)
    ultimately show ?thesis using safe_shrinks [OF s2] by (auto simp: gone_id_def gone_def split: DeletionScope.splits)
  qed
qed

section \<open>Programs of the coordinator\<close>

text \<open>An invariant of the catalog kept on success and on failure, with what holds on success.\<close>

definition upholds :: "(catalog_db \<Rightarrow> bool) \<Rightarrow> 'a lc \<Rightarrow> ('a \<Rightarrow> catalog_db \<Rightarrow> bool) \<Rightarrow> bool" where
  "upholds I m Q = (\<forall>s. I (lc_db s) \<longrightarrow> I (lc_db (snd (m s))) \<and> (\<forall>x. fst (m s) = Inr x \<longrightarrow> Q x (lc_db (snd (m s)))))"

lemma upholdsD: "upholds I m Q \<Longrightarrow> I (lc_db s) \<Longrightarrow> I (lc_db (snd (m s)))"
  by (simp add: upholds_def)

lemma upholdsI: "(\<And>s. I (lc_db s) \<Longrightarrow> I (lc_db (snd (m s)))) \<Longrightarrow> (\<And>s x. I (lc_db s) \<Longrightarrow> fst (m s) = Inr x \<Longrightarrow> Q x (lc_db (snd (m s)))) \<Longrightarrow> upholds I m Q"
  by (simp add: upholds_def)

lemma upholds_bind:
  assumes "upholds I m Q" "\<And>x. upholds (\<lambda>db. I db \<and> Q x db) (f x) R"
  shows "upholds I (pbind m f) R"
  unfolding upholds_def
proof (intro allI impI)
  fix s :: lifecycle
  assume i: "I (lc_db s)"
  obtain r s1 where m: "m s = (r, s1)" by fastforce
  show "I (lc_db (snd (pbind m f s))) \<and> (\<forall>x. fst (pbind m f s) = Inr x \<longrightarrow> R x (lc_db (snd (pbind m f s))))"
  proof (cases r)
    case (Inl e) with assms(1) i m show ?thesis by (auto simp: upholds_def pbind_def dest!: spec [of _ s])
  next
    case (Inr x)
    with assms(1) i m have "I (lc_db s1) \<and> Q x (lc_db s1)" by (auto simp: upholds_def dest!: spec [of _ s])
    with assms(2) [of x] Inr m show ?thesis by (auto simp: upholds_def pbind_def)
  qed
qed

lemma upholds_seq: "upholds I m (\<lambda>_ _. True) \<Longrightarrow> (\<And>x. upholds I (f x) R) \<Longrightarrow> upholds I (pbind m f) R"
  using upholds_bind [of I m "\<lambda>_ _. True" f R] by simp

text \<open>Programs that leave services, workspaces and operations alone.\<close>

definition still :: "'a lc \<Rightarrow> bool" where
  "still m = (\<forall>s. skeys (lc_db (snd (m s))) = skeys (lc_db s) \<and> wkeys (lc_db (snd (m s))) = wkeys (lc_db s)
     \<and> cd_deletions (lc_db (snd (m s))) = cd_deletions (lc_db s))"

lemma still_upholds: "still m \<Longrightarrow> upholds (safe P K C) m (\<lambda>_ _. True)"
  by (rule upholdsI) (auto simp: still_def shrinks_def elim!: safe_shrinks)

lemma still_ret [simp]: "still (pret x)" "still (pfail e)" "still (pmodify f) = (\<forall>s. skeys (lc_db (f s)) = skeys (lc_db s) \<and> wkeys (lc_db (f s)) = wkeys (lc_db s)
     \<and> cd_deletions (lc_db (f s)) = cd_deletions (lc_db s))"
  by (simp_all add: still_def pret_def pfail_def pmodify_def)

lemma still_bind: "still m \<Longrightarrow> (\<And>x. still (f x)) \<Longrightarrow> still (pbind m f)"
  by (auto simp: still_def pbind_def split: prod.splits sum.splits) (metis snd_conv)+

lemma still_when: "still m \<Longrightarrow> still (pwhen b m)"
  by (simp add: pwhen_def)

lemma still_try: "still m \<Longrightarrow> still (ptry m)"
  by (auto simp: still_def ptry_def split: prod.splits) (metis snd_conv)+

lemma still_request:
  assumes "still go" "\<And>n s. lc_db (partial n s) = lc_db s"
  shows "still (request go partial)"
  using assms by (auto simp: still_def request_def Let_def split: list.splits lc_fault.splits)

lemma still_requests [simp]:
  "still (tiles_QuiesceLifecycle wid ids)" "still (tiles_PurgeLifecycle wid ids)" "still (stac_QuiesceAndDeleteLifecycle wid ids)"
  "still (mosaic_QuiesceAndDeleteLifecycle wid ids)" "still (os_exists f)" "still (os_Rename f g)" "still (os_Remove f)"
  "still (assets_Stage oid wid)" "still (assets_RemoveStaged oid)" "still (assets_Count wid)" "still (db_request (DeleteManagedAsset i))"
  by (auto simp: tiles_QuiesceLifecycle_def tiles_PurgeLifecycle_def stac_QuiesceAndDeleteLifecycle_def mosaic_QuiesceAndDeleteLifecycle_def
      os_exists_def os_Rename_def os_Remove_def assets_Stage_def assets_RemoveStaged_def assets_Count_def db_request_def DeleteManagedAsset_def
      skeys_def wkeys_def intro!: still_request) (auto simp: still_def skeys_def wkeys_def)

lemma still_read [simp]: "still (db_read f)"
  unfolding db_read_def db_request_def by (rule still_request) (auto simp: still_def split: prod.splits)

lemma still_restore: "still (restoreManagedImports oid as)" "still (fail_restoring oid as e)"
proof -
  show "still (restoreManagedImports oid as)" by (induction as) (simp_all add: still_bind still_try)
  then show "still (fail_restoring oid as e)" by (simp add: fail_restoring_def still_bind)
qed

lemma still_stage: "still (stageManagedImports oid c sids as)"
  by (induction oid c sids as rule: stageManagedImports.induct)
    (auto intro!: still_bind still_try simp: still_restore split: option.splits sum.splits bool.splits)

lemma still_remove: "still (removeManagedImports oid as)"
  by (induction as) (simp_all add: still_bind)

lemma still_quiesce [simp]: "lc_db (quiesceRuntime p s) = lc_db s"
  using quiesce_frame [of p s] by auto

lemma still_auxiliary: "still (remove_auxiliary deps op)"
  by (auto simp: remove_auxiliary_def Let_def intro!: still_bind still_when)

lemma upholds_update:
  assumes "\<And>db. st = DeletionCompleted \<or> ph = DeletionPhaseCatalogCommitted \<or> ph = DeletionPhaseRuntimeCleared \<Longrightarrow> safe P K C db \<Longrightarrow> gone_id P oid db"
  shows "upholds (safe P K C) (lc_update oid st ph e) (\<lambda>_ _. True)"
proof (rule upholdsI)
  fix s :: lifecycle
  assume s: "safe P K C (lc_db s)"
  have "lc_db (snd (lc_update oid st ph e s)) \<in> {lc_db s, snd (UpdateCatalogDeletion (lc_now s) oid st ph e (lc_db s))}"
    by (auto simp: lc_update_def db_request_def request_def Let_def split: prod.splits list.splits lc_fault.splits)
  then show "safe P K C (lc_db (snd (lc_update oid st ph e s)))" using s safe_update [OF s assms] by auto
qed simp

lemma upholds_commit: "upholds (safe P K C) (commit_or_restore oid as) (\<lambda>_ db. gone_id P oid db)"
proof -
  have request: "(s1 = s \<or> lc_db s1 = lc_db s) \<and> (\<exists>e. r = Inl e) \<or> CommitCatalogDeletion t oid (lc_db s) = (r, lc_db s1)"
    if "db_request (CommitCatalogDeletion t oid) s = (r, s1)" for s s1 r t
    using that by (auto simp: db_request_def request_def Let_def split: prod.splits list.splits lc_fault.splits if_splits)
  have "safe P K C (lc_db (snd (commit_or_restore oid as s))) \<and> (fst (commit_or_restore oid as s) = Inr () \<longrightarrow> gone_id P oid (lc_db (snd (commit_or_restore oid as s))))"
    if s: "safe P K C (lc_db s)" for s
  proof -
    obtain r s1 where c: "db_request (CommitCatalogDeletion (lc_now s) oid) s = (r, s1)" by fastforce
    have s1: "safe P K C (lc_db s1)" "r = Inr () \<longrightarrow> gone_id P oid (lc_db s1)" using request [OF c] s safe_commit [OF s] by auto
    show ?thesis
    proof (cases r)
      case (Inl e)
      have "safe P K C (lc_db (snd (fail_restoring oid as e s1 :: (catalog_error + unit) \<times> lifecycle)))"
        by (rule upholdsD [OF still_upholds [OF still_restore(2)] s1(1)])
      moreover have "fst (fail_restoring oid as e s1 :: (catalog_error + unit) \<times> lifecycle) \<noteq> Inr ()"
        by (auto simp: fail_restoring_def pbind_def pfail_def split: prod.splits sum.splits)
      ultimately show ?thesis using c Inl by (simp add: commit_or_restore_def)
    next
      case (Inr x) with c s1 show ?thesis by (simp add: commit_or_restore_def)
    qed
  qed
  then show ?thesis by (auto simp: upholds_def)
qed

section \<open>Attempts\<close>

lemmas upholds_still = upholds_seq [OF still_upholds]

lemma upholds_finish: "upholds (safe P K (insert (do_ID op) C)) (finish deps op as) (\<lambda>_ _. True)"
  unfolding finish_def
  by (intro upholds_still upholds_seq [OF upholds_update] upholds_update)
    (auto simp: still_remove still_when clear_frame safe_insert)

lemma upholds_execute: "upholds (safe P K C) (execute deps op) (\<lambda>_ _. True)"
proof -
  have stage: "still (if dep_ManagedImports deps then stageManagedImports (do_ID op) (committed op) (deletionServiceIDs (do_Plan op)) [] else pret [])"
    by (simp add: still_stage)
  have finish: "upholds (\<lambda>db. safe P K C db \<and> gone_id P (do_ID op) db) (finish deps op as) (\<lambda>_ _. True)" for as
    using upholds_finish [of P K op C deps as] unfolding safe_insert_fun .
  show ?thesis
    unfolding execute_def Let_def
    apply (rule upholds_still, simp)
    apply (rule upholds_still, simp add: still_when)
    apply (rule upholds_seq [OF upholds_update], simp)
    apply (rule upholds_still, rule still_auxiliary)
    apply (rule upholds_still, rule stage)
    apply (rule upholds_seq [OF upholds_update], simp)
    apply (rule upholds_bind [OF upholds_commit], rule finish)
    done
qed

text \<open>The failure is recorded with the phase read from the catalog or, when that read fails, with the one
  the attempt started from.\<close>

lemma attempt_safe:
  assumes "safe P K C (lc_db s)" "committed op \<longrightarrow> do_ID op \<in> C"
  shows "safe P K C (lc_db (attempt deps op s))"
proof -
  obtain r s1 where e: "execute deps op s = (r, s1)" by fastforce
  have s1: "safe P K C (lc_db s1)" using upholdsD [OF upholds_execute assms(1), of deps op] e by simp
  show ?thesis
  proof (cases r)
    case (Inr x) with s1 e show ?thesis by (simp add: attempt_def)
  next
    case (Inl err)
    obtain g s2 where g: "db_read (GetCatalogDeletion (do_ID op)) s1 = (g, s2)" by fastforce
    have s2: "safe P K C (lc_db s2)" using upholdsD [OF still_upholds [OF still_read] s1, of "GetCatalogDeletion (do_ID op)"] g by simp
    define ph where "ph = (case g of Inl _ \<Rightarrow> do_Phase op | Inr current \<Rightarrow> do_Phase current)"
    have "gone_id P (do_ID op) (lc_db s2)" if "ph = DeletionPhaseCatalogCommitted \<or> ph = DeletionPhaseRuntimeCleared"
    proof (cases g)
      case (Inl e')
      with that assms(2) have "do_ID op \<in> C" by (auto simp: ph_def committed_def)
      with s2 show ?thesis by (auto simp: safe_def gone_id_def)
    next
      case (Inr current)
      with g have "GetCatalogDeletion (do_ID op) (lc_db s2) = Inr current"
        by (auto simp: db_read_def db_request_def request_def Let_def split: list.splits lc_fault.splits if_splits)
      then have c: "current \<in> set (cd_deletions (lc_db s2))" "do_ID current = do_ID op" by (auto simp: GetCatalogDeletion_def split: option.splits dest!: find_SomeD)
      have "committed current" using that Inr by (simp add: ph_def committed_def)
      with c s2 have "gone P (lc_db s2) (do_Scope current) (do_TargetID current)" by (simp add: safe_def row_safe_def)
      moreover have "o' = current" if "o' \<in> set (cd_deletions (lc_db s2))" "do_ID o' = do_ID op" for o'
        using safe_unique [OF s2 c(1) that(1)] c(2) that(2) by simp
      ultimately show ?thesis by (auto simp: gone_id_def)
    qed
    moreover have "attempt deps op s = snd (lc_update (do_ID op) DeletionFailed ph (error_message err) s2)" using e Inl g by (simp add: attempt_def ph_def)
    moreover have "lc_db (snd (lc_update (do_ID op) DeletionFailed ph (error_message err) s2)) \<in>
        {lc_db s2, snd (UpdateCatalogDeletion (lc_now s2) (do_ID op) DeletionFailed ph (error_message err) (lc_db s2))}"
      by (auto simp: lc_update_def db_request_def request_def Let_def split: prod.splits list.splits lc_fault.splits)
    ultimately show ?thesis using s2 safe_update [OF s2, of DeletionFailed ph "do_ID op"] by auto
  qed
qed

text \<open>The identifiers of operations that have been committed.\<close>

definition done_ids :: "catalog_db \<Rightarrow> string set" where
  "done_ids db = {do_ID op | op. op \<in> set (cd_deletions db) \<and> (do_Status op = DeletionCompleted \<or> committed op)}"

lemma safe_done: "safe P K {} db \<Longrightarrow> safe P K (done_ids db) db"
  using safe_unique [of P K "{}" db] by (fastforce simp: safe_def done_ids_def row_safe_def)

lemma recover_safe:
  assumes "safe P K {} (lc_db s)"
  shows "safe P K {} (lc_db (snd (coordinator_Recover deps s)))"
proof -
  have fold: "safe P K C (lc_db (fold (\<lambda>op s. attempt deps op (quiesceRuntime (do_Plan op) s)) ops s'))"
    if "safe P K C (lc_db s')" "\<forall>op \<in> set ops. committed op \<longrightarrow> do_ID op \<in> C" for C ops s'
    using that by (induction ops arbitrary: s') (simp_all add: attempt_safe)
  obtain r s1 where r: "db_read (\<lambda>db. Inr (ListPendingCatalogDeletions db)) s = (r, s1)" by fastforce
  have s1: "safe P K {} (lc_db s1)" using upholdsD [OF still_upholds [OF still_read] assms, of "\<lambda>db. Inr (ListPendingCatalogDeletions db)"] r by simp
  show ?thesis
  proof (cases r)
    case (Inr ops)
    with r have "set ops \<subseteq> set (cd_deletions (lc_db s1))"
      by (auto simp: db_read_def db_request_def request_def Let_def ListPendingCatalogDeletions_def split: list.splits lc_fault.splits if_splits)
    then have "safe P K (done_ids (lc_db s1)) (lc_db (fold (\<lambda>op s. attempt deps op (quiesceRuntime (do_Plan op) s)) ops s1))"
      by (intro fold safe_done [OF s1]) (auto simp: done_ids_def)
    then show ?thesis using r Inr by (auto simp: coordinator_Recover_def pbind_def pmodify_def intro: safe_mono)
  qed (use r s1 in \<open>simp add: coordinator_Recover_def pbind_def\<close>)
qed

section \<open>Every other operation of the catalog\<close>

lemma exec_shrinks:
  assumes "\<And>x db'. change db = (Inr x, db') \<Longrightarrow> shrinks db db'"
  shows "shrinks db (snd (execCapabilitiesMutation owner change db))"
  using assms by (fastforce simp: execCapabilitiesMutation_def shrinks_def split: option.splits prod.splits sum.splits)

lemma shrinks_frame: "cd_services db' = cd_services db \<Longrightarrow> wkeys db' \<subseteq> wkeys db \<Longrightarrow> cd_deletions db' = cd_deletions db \<Longrightarrow> shrinks db db'"
  by (simp add: shrinks_def skeys_def)

lemma wkeys_map [simp]: "(\<And>w. ws_ID (f w) = ws_ID w) \<Longrightarrow> wkeys (db\<lparr>cd_workspaces := map f (cd_workspaces db)\<rparr>) = wkeys db"
  by (simp add: wkeys_def image_image)

lemma layer_ops_shrink:
  "shrinks db (snd (CreateLayer u t i db))" "shrinks db (snd (DeleteLayer lid db))" "shrinks db (snd (CreateCoverage u t i' db))"
  "shrinks db (snd (DeleteCoverage cid db))"
  by (auto simp: CreateLayer_def DeleteLayer_def CreateCoverage_def DeleteCoverage_def Let_def wkeys_def intro!: exec_shrinks shrinks_frame split: option.splits if_splits)

lemma group_ops_shrink:
  "shrinks db (snd (CreateLayerGroup u t i db))" "shrinks db (snd (UpdateLayerGroup t gid i' db))" "shrinks db (snd (DeleteLayerGroup gid db))"
  "shrinks db (snd (UpdateOGCTilesAPISettings t wid gid db))"
proof -
  show "shrinks db (snd (CreateLayerGroup u t i db))"
    by (auto simp: CreateLayerGroup_def Let_def wkeys_def intro!: exec_shrinks shrinks_frame split: option.splits if_splits)
  show "shrinks db (snd (UpdateLayerGroup t gid i' db))"
    by (auto simp: UpdateLayerGroup_def Let_def wkeys_def bind_res_def intro!: exec_shrinks shrinks_frame split: option.splits if_splits sum.splits)
  show "shrinks db (snd (DeleteLayerGroup gid db))"
    by (auto simp: DeleteLayerGroup_def Let_def wkeys_def bind_res_def intro!: exec_shrinks shrinks_frame split: option.splits if_splits sum.splits)
  show "shrinks db (snd (UpdateOGCTilesAPISettings t wid gid db))"
    by (auto simp: UpdateOGCTilesAPISettings_def Let_def bind_res_def wkeys_def intro!: exec_shrinks shrinks_frame split: option.splits if_splits sum.splits)
qed

lemma service_ops_shrink: "shrinks db (snd (DeleteService J sid db))" "shrinks db (snd (DeleteWorkspace wid db))" "shrinks db (snd (UpdateWorkspace t wid n d db))"
    "shrinks db (snd (RepairCatalogOrphans t db))"
proof -
  show "shrinks db (snd (DeleteService J sid db))"
    by (auto simp: DeleteService_def intro!: exec_shrinks split: sum.splits) (auto simp: shrinks_def skeys_def wkeys_def)
  show "shrinks db (snd (DeleteWorkspace wid db))"
    by (auto simp: DeleteWorkspace_def shrinks_def skeys_def wkeys_def split: sum.splits)
  show "shrinks db (snd (UpdateWorkspace t wid n d db))"
    by (auto simp: UpdateWorkspace_def Let_def intro!: shrinks_frame split: sum.splits)
  show "shrinks db (snd (RepairCatalogOrphans t db))"
    by (auto simp: RepairCatalogOrphans_def Let_def repair_dataset_maps_def repair_roles_def repair_resources_def repair_owned_def shrinks_def skeys_def wkeys_def)
qed

lemma UpdateService_safe: "safe P K C db \<Longrightarrow> safe P K C (snd (UpdateService t sid i db))"
proof (cases "GetService sid db")
  case (Inr s0)
  assume s: "safe P K C db"
  have s0: "s0 \<in> set (cd_services db)" "sv_ID s0 = sid" using Inr by (auto simp: GetService_def split: option.splits dest!: find_SomeD)
  have "skeys (snd (UpdateService t sid i db)) \<subseteq> skeys db"
    using Inr s0 by (auto simp: UpdateService_def Let_def skeys_def bump_capabilities_def bump_tiles_def)
  moreover have "wkeys (snd (UpdateService t sid i db)) = wkeys db" "cd_deletions (snd (UpdateService t sid i db)) = cd_deletions db"
    using Inr by (auto simp: UpdateService_def Let_def) (auto simp: wkeys_def)
  ultimately show ?thesis by (intro safe_shrinks [OF s]) (simp add: shrinks_def)
qed (simp add: UpdateService_def)

text \<open>New rows: their identifiers are fresh, so no recorded operation has them as its target.\<close>

lemma safe_grow:
  assumes "safe P K C db" "cd_deletions db' = cd_deletions db" "skeys db' = insert (u, w) (skeys db)" "wkeys db' = wkeys db"
    and "u \<notin> fst ` skeys db" "u \<notin> do_TargetID ` set (cd_deletions db)" "w \<in> wkeys db \<union> P"
  shows "safe P K C db'"
proof -
  have sv: "single_valued (skeys db')" using assms(1,3,5) by (auto simp: safe_def single_valued_def image_iff)
  have g: "gone P db' (do_Scope op) (do_TargetID op)" if "op \<in> set (cd_deletions db)" "gone P db (do_Scope op) (do_TargetID op)" for op
    using that assms by (auto simp: gone_def split: DeletionScope.splits)
  have "row_safe P db' op" if "op \<in> set (cd_deletions db)" for op
  proof -
    have "row_safe P db op" using assms(1) that by (simp add: safe_def)
    then show ?thesis using g [OF that] assms(3,6) that by (auto simp: row_safe_def split: DeletionScope.splits)
  qed
  with g sv assms(1,2) show ?thesis by (auto simp: safe_def opkeys_def)
qed

lemma CreateService_safe:
  assumes "safe P K C db" "u \<notin> do_TargetID ` set (cd_deletions db)"
  shows "safe P K C (snd (CreateService u t i db))"
proof (cases "si_WorkspaceID i \<in> wkeys db \<and> \<not> (\<exists>s \<in> set (cd_services db). sv_ID s = u \<or> (sv_WorkspaceID s = si_WorkspaceID i \<and> sv_Name s = si_Name i))")
  case True
  then have "\<exists>v. snd (CreateService u t i db) = bump_capabilities (si_WorkspaceID i) (db\<lparr>cd_services := cd_services db @ [v]\<rparr>) \<and> sv_ID v = u \<and> sv_WorkspaceID v = si_WorkspaceID i"
    by (auto simp: CreateService_def execCapabilitiesMutation_def workspace_owner_def Let_def wkeys_def)
  then obtain v where v: "snd (CreateService u t i db) = bump_capabilities (si_WorkspaceID i) (db\<lparr>cd_services := cd_services db @ [v]\<rparr>)"
    "sv_ID v = u" "sv_WorkspaceID v = si_WorkspaceID i" by blast
  have grow: "skeys (db\<lparr>cd_services := cd_services db @ [v]\<rparr>) = insert (u, si_WorkspaceID i) (skeys db)" "wkeys (db\<lparr>cd_services := cd_services db @ [v]\<rparr>) = wkeys db"
    using v(2,3) by (simp_all add: skeys_def wkeys_def)
  have "u \<notin> fst ` skeys db" using True by (auto simp: skeys_def)
  then show ?thesis unfolding v(1) using True assms
    by (intro safe_grow [OF assms(1), where u = u and w = "si_WorkspaceID i"]) (simp_all add: grow)
next
  case False
  then have "snd (CreateService u t i db) = db" by (auto simp: CreateService_def execCapabilitiesMutation_def workspace_owner_def wkeys_def)
  with assms(1) show ?thesis by simp
qed

lemma publish_safe:
  assumes "safe P K C db" "sid \<notin> do_TargetID ` set (cd_deletions db)" "pi_WorkspaceID i \<in> P"
  shows "safe P K C (snd (publish_catalog t sid lids i db))"
proof -
  obtain r db' where p: "publish_catalog t sid lids i db = (r, db')" by fastforce
  from p have "safe P K C db'"
  proof (cases rule: publish_catalog_cases)
    case 1 with assms(1) show ?thesis by simp
  next
    case (2 svc ls ms f)
    have "skeys db' = insert (sid, pi_WorkspaceID i) (skeys db)" "wkeys db' = wkeys db" "sid \<notin> fst ` skeys db"
      using 2 by (auto simp: skeys_def wkeys_def image_image)
    then show ?thesis
      using 2(4) assms by (intro safe_grow [OF assms(1), where u = sid and w = "pi_WorkspaceID i"]) simp_all
  qed
  with p show ?thesis by simp
qed

lemma CreateWorkspace_safe:
  assumes "safe P K C db" "u \<notin> do_TargetID ` set (cd_deletions db)"
  shows "safe P K C (snd (CreateWorkspace u t n d db))"
proof -
  let ?db = "snd (CreateWorkspace u t n d db)"
  have f: "skeys ?db = skeys db" "cd_deletions ?db = cd_deletions db" "wkeys ?db \<subseteq> insert u (wkeys db)"
    by (auto simp: CreateWorkspace_def Let_def skeys_def wkeys_def)
  have g: "gone P ?db (do_Scope op) (do_TargetID op)" if "op \<in> set (cd_deletions db)" "gone P db (do_Scope op) (do_TargetID op)" for op
    using that f assms(2) by (auto simp: gone_def split: DeletionScope.splits)
  have "row_safe P ?db op" if "op \<in> set (cd_deletions db)" for op
    using assms(1) that g [OF that] f(1) by (auto simp: safe_def row_safe_def split: DeletionScope.splits)
  with g f assms(1) show ?thesis by (auto simp: safe_def opkeys_def)
qed

section \<open>Beginning a deletion\<close>

lemma sort_plan_target [simp]: "dp_Target (sort_plan p) = dp_Target p" "dp_WorkspaceID (sort_plan p) = dp_WorkspaceID p" "dp_Scope (sort_plan p) = dp_Scope p"
  by (simp_all add: sort_plan_def)

lemma PlanServiceDeletion_target:
  assumes "PlanServiceDeletion J wid sid db = Inr p"
  shows "dp_Scope p = DeletionScopeService" "dp_WorkspaceID p = wid" "dr_ID (dp_Target p) = sid" "(sid, wid) \<in> skeys db"
proof -
  obtain v where v: "GetService sid db = Inr v" "sv_WorkspaceID v = wid" using assms by (auto simp: PlanServiceDeletion_def split: sum.splits if_splits)
  then have "v \<in> set (cd_services db)" "sv_ID v = sid" by (auto simp: GetService_def split: option.splits dest!: find_SomeD)
  with v show "(sid, wid) \<in> skeys db" by (auto simp: skeys_def)
  show "dp_Scope p = DeletionScopeService" "dp_WorkspaceID p = wid" "dr_ID (dp_Target p) = sid"
    using assms v \<open>sv_ID v = sid\<close>
    by (auto simp: PlanServiceDeletion_def addDatasetMapDeletionBlocker_def empty_plan_def bind_res_def Let_def split: sum.splits if_splits prod.splits option.splits)
qed

lemma begin_safe:
  assumes "safe P K C db" "dp_Scope plan = DeletionScopeWorkspace \<Longrightarrow> dp_WorkspaceID plan = dr_ID (dp_Target plan)"
    and "u \<notin> C"
  shows "safe P K C (snd (BeginCatalogDeletion J u t plan db))"
proof (cases rule: BeginCatalogDeletion_cases [of J u t plan db])
  case (2 p)
  let ?op = "new_operation u t (sort_plan p)"
  have "row_safe P db ?op"
  proof (cases "dp_Scope plan")
    case DeletionScopeWorkspace
    with 2(1) assms(2) show ?thesis by (auto simp: current_plan_def row_safe_def new_operation_def committed_def)
  next
    case DeletionScopeService
    with 2(1) obtain q where q: "PlanServiceDeletion J (dp_WorkspaceID plan) (dr_ID (dp_Target plan)) db = Inr q" "p = q\<lparr>dp_Auxiliary := dp_Auxiliary plan\<rparr>"
      by (auto simp: current_plan_def bind_res_def split: sum.splits if_splits)
    note t = PlanServiceDeletion_target [OF q(1)]
    have "w = dp_WorkspaceID plan" if "(dr_ID (dp_Target plan), w) \<in> skeys db" for w
      using assms(1) t(4) that by (auto simp: safe_def single_valued_def)
    then show ?thesis using t(1-3) q(2) by (simp add: row_safe_def new_operation_def committed_def)
  qed
  moreover have "do_ID ?op = u" by (simp add: new_operation_def)
  ultimately show ?thesis using assms(1,3) 2(2) unfolding 2(3) safe_def by (auto simp: opkeys_def)
qed (simp add: assms(1))

lemma begin_deletion_safe:
  assumes "safe P K {} (lc_db s)" "dp_Scope p = DeletionScopeWorkspace \<Longrightarrow> dp_WorkspaceID p = dr_ID (dp_Target p)"
  shows "safe P K {} (lc_db (snd (begin_deletion J u p s)))"
proof -
  have b: "upholds (safe P K {}) (\<lambda>s. db_request (BeginCatalogDeletion J u (lc_now s) p) s) (\<lambda>_ _. True)"
  proof (rule upholdsI)
    fix s :: lifecycle
    assume s: "safe P K {} (lc_db s)"
    have "lc_db (snd (db_request (BeginCatalogDeletion J u (lc_now s) p) s)) \<in> {lc_db s, snd (BeginCatalogDeletion J u (lc_now s) p (lc_db s))}"
      by (auto simp: db_request_def request_def Let_def split: prod.splits list.splits lc_fault.splits)
    then show "safe P K {} (lc_db (snd (db_request (BeginCatalogDeletion J u (lc_now s) p) s)))"
      using s begin_safe [OF s assms(2), of u J "lc_now s"] by auto
  qed simp
  have u: "upholds (safe P K {}) (pbind (pmodify (quiesceRuntime (do_Plan op))) (\<lambda>_. pbind (lc_update (do_ID op) DeletionRunning DeletionPhaseTombstoned [])
      (\<lambda>_. pret (op\<lparr>do_Status := DeletionRunning, do_Phase := DeletionPhaseTombstoned\<rparr>)))) (\<lambda>_ _. True)" for op
    by (rule upholds_still, simp, rule upholds_seq [OF upholds_update], simp, rule still_upholds, simp)
  show ?thesis unfolding begin_deletion_def
    by (rule upholdsD [OF upholds_seq [OF b, where R = "\<lambda>_ _. True"] assms(1)]) (simp add: u split: prod.split)
qed

lemma begin_uncommitted: "begin_deletion J u p s = (Inr op, s1) \<Longrightarrow> \<not> committed op"
  by (auto simp: begin_deletion_def pbind_def pmodify_def pret_def committed_def split: prod.splits sum.splits)

lemma started_begin_safe:
  assumes "safe P K {} (lc_db s)" "dp_Scope p = DeletionScopeWorkspace \<Longrightarrow> dp_WorkspaceID p = dr_ID (dp_Target p)"
  shows "safe P K {} (lc_db (snd (started deps (begin_deletion J u p) s)))"
proof -
  obtain r s1 where b: "begin_deletion J u p s = (r, s1)" by fastforce
  have s1: "safe P K {} (lc_db s1)" using begin_deletion_safe [OF assms, of J u] b by simp
  show ?thesis
  proof (cases r)
    case (Inr op)
    with b have "\<not> committed op" by (auto dest: begin_uncommitted)
    with s1 b Inr show ?thesis by (simp add: started_def attempt_safe)
  qed (use s1 b in \<open>simp add: started_def\<close>)
qed

text \<open>Planning reads only, and keeps the target of the catalog's plan.\<close>

lemma still_enrich: "still (enrich deps p)"
proof -
  have stat: "still (request (\<lambda>s. (Inr (f s), s)) (\<lambda>_ s. s))" for f :: "lifecycle \<Rightarrow> 'a"
    by (rule still_request) (simp_all add: still_def)
  show ?thesis unfolding enrich_def Let_def by (intro still_bind) (auto simp: stat)
qed

lemma enrich_target: "enrich deps p s = (Inr q, s1) \<Longrightarrow> dp_Scope q = dp_Scope p \<and> dp_WorkspaceID q = dp_WorkspaceID p \<and> dp_Target q = dp_Target p"
  unfolding enrich_def Let_def pbind_def pret_def by (auto split: prod.splits sum.splits)

lemma PlanWorkspace_target:
  assumes "PlanWorkspace deps wid s = (Inr p, s1)"
  shows "dp_WorkspaceID p = dr_ID (dp_Target p)"
proof -
  obtain q s2 where q: "db_read (PlanWorkspaceDeletion wid) s = (Inr q, s2)" "enrich deps q s2 = (Inr p, s1)"
    using assms by (auto simp: PlanWorkspace_def pbind_def split: prod.splits sum.splits)
  then have "\<exists>db. PlanWorkspaceDeletion wid db = Inr q"
    by (auto simp: db_read_def db_request_def request_def Let_def split: list.splits lc_fault.splits if_splits)
  then have "dp_WorkspaceID q = dr_ID (dp_Target q)"
    by (auto simp: PlanWorkspaceDeletion_def GetWorkspace_def empty_plan_def Let_def split: sum.splits option.splits dest!: find_SomeD)
  with enrich_target [OF q(2)] show ?thesis by simp
qed

lemma still_plan: "still (PlanWorkspace deps wid)" "still (PlanService deps J wid sid)"
  by (simp_all add: PlanWorkspace_def PlanService_def still_bind still_enrich)

section \<open>All events\<close>

datatype lc_event =
  EvCatalog catalog_op
| EvDeleteService string string string bool
| EvDeleteWorkspace string string bool
| EvRetry string
| EvRecover
| EvRestart
| EvEnvironment "lc_fault list" instant

fun lc_exec :: "Dependencies \<Rightarrow> (string list \<Rightarrow> string) \<Rightarrow> lc_event \<Rightarrow> lifecycle \<Rightarrow> lifecycle" where
  "lc_exec deps J (EvCatalog oper) s = s\<lparr>lc_db := catalog_exec J oper (lc_db s)\<rparr>"
| "lc_exec deps J (EvDeleteService u wid sid rec) s = snd (coordinator_DeleteService deps J u wid sid rec s)"
| "lc_exec deps J (EvDeleteWorkspace u wid rec) s = snd (coordinator_DeleteWorkspace deps J u wid rec s)"
| "lc_exec deps J (EvRetry oid) s = snd (coordinator_Retry deps oid s)"
| "lc_exec deps J EvRecover s = snd (coordinator_Recover deps s)"
| "lc_exec deps J EvRestart s = lc_restart s"
| "lc_exec deps J (EvEnvironment faults now) s = s\<lparr>lc_faults := faults, lc_now := now\<rparr>"

text \<open>New workspaces and services get identifiers that no recorded deletion has as its target; the records
  of deletions are written by the coordinator only.\<close>

fun event_ok :: "string set \<Rightarrow> lc_event \<Rightarrow> lifecycle \<Rightarrow> bool" where
  "event_ok P (EvCatalog (OpCreateWorkspace u t n d)) s = (u \<notin> do_TargetID ` set (cd_deletions (lc_db s)))"
| "event_ok P (EvCatalog (OpCreateService u t i)) s = (u \<notin> do_TargetID ` set (cd_deletions (lc_db s)))"
| "event_ok P (EvCatalog (OpPublish t sid lids i)) s = (sid \<notin> do_TargetID ` set (cd_deletions (lc_db s)) \<and> pi_WorkspaceID i \<in> P)"
| "event_ok P (EvCatalog (OpBegin u t p)) s = False"
| "event_ok P (EvCatalog (OpUpdateDeletion t i st ph e)) s = False"
| "event_ok P (EvCatalog (OpCommit t i)) s = False"
| "event_ok P _ s = True"

inductive lc_runs :: "string set \<Rightarrow> Dependencies \<Rightarrow> (string list \<Rightarrow> string) \<Rightarrow> lifecycle \<Rightarrow> lifecycle \<Rightarrow> bool" for P deps J where
  stay: "lc_runs P deps J s s"
| step: "lc_runs P deps J s s1 \<Longrightarrow> event_ok P ev s1 \<Longrightarrow> lc_runs P deps J s (lc_exec deps J ev s1)"

lemma catalog_event_safe: "safe P K {} db \<Longrightarrow> event_ok P (EvCatalog oper) s \<Longrightarrow> lc_db s = db \<Longrightarrow> safe P K {} (catalog_exec J oper db)"
proof (cases oper)
  case (OpOtherTables f)
  assume "safe P K {} db"
  then show ?thesis by (rule safe_shrinks) (simp add: OpOtherTables shrinks_def skeys_def wkeys_def)
next
  case (OpRevisions w)
  assume "safe P K {} db"
  then show ?thesis by (rule safe_shrinks) (simp add: OpRevisions shrinks_def)
next
  case (OpPublish t sid lids i)
  assume "safe P K {} db" "event_ok P (EvCatalog oper) s" "lc_db s = db"
  then show ?thesis unfolding OpPublish by (auto intro!: publish_safe)
qed (auto intro: safe_shrinks CreateService_safe CreateWorkspace_safe UpdateService_safe layer_ops_shrink group_ops_shrink service_ops_shrink)

lemma pmodify_clear_still: "still (pmodify (clearRuntime deps p))"
  by (simp add: clear_frame)

lemma still_delete: "upholds (safe P K C) (db_request (DeleteService J sid)) (\<lambda>_ _. True)" "upholds (safe P K C) (db_request (DeleteWorkspace wid)) (\<lambda>_ _. True)"
proof -
  have db: "lc_db (snd (db_request f s)) \<in> {lc_db s, snd (f (lc_db s))}" for f :: "catalog_db \<Rightarrow> unit result \<times> catalog_db" and s
    by (auto simp: db_request_def request_def Let_def split: prod.splits list.splits lc_fault.splits)
  then have keep: "upholds (safe P K C) (db_request f) (\<lambda>_ _. True)" if "\<And>db. shrinks db (snd (f db))" for f :: "catalog_db \<Rightarrow> unit result \<times> catalog_db"
  proof (intro upholdsI)
    fix s :: lifecycle
    assume "safe P K C (lc_db s)"
    then show "safe P K C (lc_db (snd (db_request f s)))" using db [of f s] safe_shrinks [OF _ that] by auto
  qed simp
  show "upholds (safe P K C) (db_request (DeleteService J sid)) (\<lambda>_ _. True)" "upholds (safe P K C) (db_request (DeleteWorkspace wid)) (\<lambda>_ _. True)"
    by (rule keep, rule service_ops_shrink)+
qed

lemma retry_safe:
  assumes "safe P K {} (lc_db s)"
  shows "safe P K {} (lc_db (snd (coordinator_Retry deps oid s)))"
proof -
  obtain r s1 where r: "db_read (GetCatalogDeletion oid) s = (r, s1)" by fastforce
  have s1: "safe P K {} (lc_db s1)" using upholdsD [OF still_upholds [OF still_read] assms, of "GetCatalogDeletion oid"] r by simp
  show ?thesis
  proof (cases r)
    case (Inr op)
    let ?C = "done_ids (lc_db s1)"
    let ?m = "pbind (lc_update (do_ID op) DeletionRunning (do_Phase op) []) (\<lambda>_. pret (op\<lparr>do_Status := DeletionRunning, do_LastError := []\<rparr>))"
    from r Inr have "GetCatalogDeletion oid (lc_db s1) = Inr op"
      by (auto simp: db_read_def db_request_def request_def Let_def split: list.splits lc_fault.splits if_splits)
    then have op: "op \<in> set (cd_deletions (lc_db s1))" by (auto simp: GetCatalogDeletion_def split: option.splits dest!: find_SomeD)
    have c: "committed op \<longrightarrow> do_ID op \<in> ?C" using op by (auto simp: done_ids_def)
    have u: "upholds (safe P K ?C) ?m (\<lambda>_ _. True)"
      by (rule upholds_seq [OF upholds_update still_upholds]) (use c in \<open>auto simp: committed_def safe_def gone_id_def\<close>)
    obtain q s2 where q: "?m s1 = (q, s2)" by fastforce
    have s2: "safe P K ?C (lc_db s2)" using upholdsD [OF u safe_done [OF s1]] q by simp
    have "q = Inr op' \<Longrightarrow> do_ID op' = do_ID op \<and> do_Phase op' = do_Phase op" for op'
      using q by (auto simp: pbind_def pret_def split: prod.splits sum.splits)
    then have "safe P K ?C (lc_db (snd (started deps ?m s1)))" using q s2 c
      by (cases q) (auto simp: started_def committed_def intro!: attempt_safe)
    then show ?thesis using r Inr s1 by (auto simp: coordinator_Retry_def pbind_def [of "db_read (GetCatalogDeletion oid)"] pret_def intro: safe_mono)
  qed (use r s1 in \<open>simp add: coordinator_Retry_def pbind_def\<close>)
qed

lemma coordinator_safe:
  assumes "safe P K {} (lc_db s)"
  shows "safe P K {} (lc_db (snd (coordinator_DeleteService deps J u wid sid rec s)))"
    "safe P K {} (lc_db (snd (coordinator_DeleteWorkspace deps J u wid rec s)))"
proof -
  let ?quick = "\<lambda>m p. pbind (db_request m) (\<lambda>_. pbind (pmodify (clearRuntime deps p)) (\<lambda>_. pret None)) :: DeletionOperation option lc"
  have tail: "upholds (safe P K {}) (pbind (pmodify (clearRuntime deps p)) (\<lambda>_. pret None) :: DeletionOperation option lc) (\<lambda>_ _. True)" for p
    by (rule still_upholds, rule still_bind) (simp_all add: clear_frame)
  have quick: "upholds (safe P K {}) (?quick (DeleteService J sid) p) (\<lambda>_ _. True)" "upholds (safe P K {}) (?quick (DeleteWorkspace wid) p) (\<lambda>_ _. True)" for p
    by (rule upholds_seq [OF still_delete(1) tail], rule upholds_seq [OF still_delete(2) tail])
  obtain r s1 where p: "PlanService deps J wid sid s = (r, s1)" by fastforce
  have s1: "safe P K {} (lc_db s1)" using upholdsD [OF still_upholds [OF still_plan(2)] assms, of deps J wid sid] p by simp
  have scope: "r = Inr p \<Longrightarrow> dp_Scope p = DeletionScopeService" for p
    using \<open>PlanService deps J wid sid s = (r, s1)\<close>
    by (auto simp: PlanService_def pbind_def db_read_def db_request_def request_def Let_def PlanServiceDeletion_target(1)
        split: prod.splits sum.splits list.splits lc_fault.splits if_splits dest!: enrich_target)
  show "safe P K {} (lc_db (snd (coordinator_DeleteService deps J u wid sid rec s)))"
    using p s1 scope upholdsD [OF quick(1) s1]
    by (cases r) (auto simp: coordinator_DeleteService_def pbind_def [of "PlanService deps J wid sid"] pfail_def intro!: started_begin_safe)
  obtain r' s2 where w: "PlanWorkspace deps wid s = (r', s2)" by fastforce
  have s2: "safe P K {} (lc_db s2)" using upholdsD [OF still_upholds [OF still_plan(1)] assms, of deps wid] w by simp
  show "safe P K {} (lc_db (snd (coordinator_DeleteWorkspace deps J u wid rec s)))"
    using w s2 PlanWorkspace_target [of deps wid s] upholdsD [OF quick(2) s2]
    by (cases r') (auto simp: coordinator_DeleteWorkspace_def pbind_def [of "PlanWorkspace deps wid"] pfail_def intro!: started_begin_safe)
qed

lemma event_safe: "safe P K {} (lc_db s) \<Longrightarrow> event_ok P ev s \<Longrightarrow> safe P K {} (lc_db (lc_exec deps J ev s))"
  by (cases ev) (auto simp: catalog_event_safe coordinator_safe retry_safe recover_safe lc_restart_def)

lemma runs_safe: "lc_runs P deps J s s1 \<Longrightarrow> safe P K {} (lc_db s) \<Longrightarrow> safe P K {} (lc_db s1)"
  by (induction rule: lc_runs.induct) (simp_all add: event_safe)

lemma runs_trans: "lc_runs P deps J s1 s2 \<Longrightarrow> lc_runs P deps J s s1 \<Longrightarrow> lc_runs P deps J s s2"
  by (induction rule: lc_runs.induct) (auto intro: lc_runs.step)

lemma safe_start: "cd_deletions db = [] \<Longrightarrow> distinct (map sv_ID (cd_services db)) \<Longrightarrow> safe P {} {} db"
  by (auto simp: safe_def skeys_def single_valued_def distinct_map inj_on_def)

text \<open>Readers miss a target whose operation is active, and one that is gone.\<close>

lemma hidden_row:
  assumes "row_safe P db op" "op \<in> set (cd_deletions db)"
  shows "do_Scope op = DeletionScopeService \<Longrightarrow> GetService (do_TargetID op) db = Inl NotFound \<and> do_TargetID op \<notin> sv_ID ` set (ListServices wid db)"
    "do_Scope op = DeletionScopeWorkspace \<Longrightarrow> GetWorkspace (do_TargetID op) db = Inl NotFound \<and> do_TargetID op \<notin> ws_ID ` set (ListWorkspaces db)
      \<and> (do_TargetID op \<notin> P \<or> do_Status op \<noteq> DeletionCompleted \<longrightarrow> ListServices (do_TargetID op) db = [])"
proof -
  have tomb: "gone P db (do_Scope op) (do_TargetID op) \<or> tombstoned (do_Scope op) (do_TargetID op) db"
    using assms by (cases "do_Status op") (auto simp: row_safe_def tombstoned_def active_def)
  show "GetService (do_TargetID op) db = Inl NotFound \<and> do_TargetID op \<notin> sv_ID ` set (ListServices wid db)" if sc: "do_Scope op = DeletionScopeService"
  proof -
    have no: "\<not> (sv_ID v = do_TargetID op \<and> service_visible db v)" if "v \<in> set (cd_services db)" for v
      using tomb sc that by (force simp: service_visible_def gone_def skeys_def)
    then have "find (\<lambda>v. sv_ID v = do_TargetID op \<and> service_visible db v) (cd_services db) = None" by (auto simp: find_None_iff)
    then show ?thesis using no by (auto simp: GetService_def ListServices_def)
  qed
  show "GetWorkspace (do_TargetID op) db = Inl NotFound \<and> do_TargetID op \<notin> ws_ID ` set (ListWorkspaces db)
      \<and> (do_TargetID op \<notin> P \<or> do_Status op \<noteq> DeletionCompleted \<longrightarrow> ListServices (do_TargetID op) db = [])"
    if sc: "do_Scope op = DeletionScopeWorkspace"
  proof -
    have tomb': "tombstoned (do_Scope op) (do_TargetID op) db" if "do_Status op \<noteq> DeletionCompleted"
      using that assms(2) by (cases "do_Status op") (auto simp: tombstoned_def active_def)
    have "filter (\<lambda>v. sv_WorkspaceID v = do_TargetID op \<and> service_visible db v) (cd_services db) = []"
      if "do_TargetID op \<notin> P \<or> do_Status op \<noteq> DeletionCompleted"
      using tomb tomb' sc that by (force simp: filter_empty_conv service_visible_def gone_def skeys_def)
    moreover have no: "\<not> (ws_ID w = do_TargetID op \<and> \<not> tombstoned DeletionScopeWorkspace (ws_ID w) db)" if "w \<in> set (cd_workspaces db)" for w
      using tomb sc that by (force simp: gone_def wkeys_def)
    then have "find (\<lambda>w. ws_ID w = do_TargetID op \<and> \<not> tombstoned DeletionScopeWorkspace (ws_ID w) db) (cd_workspaces db) = None" by (auto simp: find_None_iff)
    ultimately show ?thesis using no by (auto simp: GetWorkspace_def ListWorkspaces_def ListServices_def) blast
  qed
qed

text \<open>C14. A deletion the catalog has recorded keeps its target out of sight for ever: whatever happens
  afterwards, with requests failing, the process crashing and restarting at any point, attempts, retries
  and recoveries, publications of imports and any other operation of the catalog in between, a reader finds
  neither the service or workspace by its identifier nor in a listing. The record stays, and says
  completed only when the row of the target is gone, and for a workspace the rows of its services. The listing of
  a deleted workspace's services is empty, too. The exception are the workspaces \<open>P\<close> into which imports are published: as
  publications do not check the workspace, services may appear there once its deletion is completed.
  New identifiers are supposed to differ from those of deleted targets.\<close>

theorem deleted_target_stays_hidden:
  assumes "lc_runs P deps J s0 s" "cd_deletions (lc_db s0) = []" "distinct (map sv_ID (cd_services (lc_db s0)))"
    and "op \<in> set (cd_deletions (lc_db s))" "lc_runs P deps J s s1"
  shows "\<exists>row \<in> set (cd_deletions (lc_db s1)). do_ID row = do_ID op \<and> do_Scope row = do_Scope op \<and> do_TargetID row = do_TargetID op
    \<and> (do_Status row = DeletionCompleted \<longrightarrow> gone P (lc_db s1) (do_Scope op) (do_TargetID op))
    \<and> (case do_Scope op of
         DeletionScopeService \<Rightarrow> GetService (do_TargetID op) (lc_db s1) = Inl NotFound \<and> (\<forall>wid. do_TargetID op \<notin> sv_ID ` set (ListServices wid (lc_db s1)))
       | DeletionScopeWorkspace \<Rightarrow> GetWorkspace (do_TargetID op) (lc_db s1) = Inl NotFound \<and> do_TargetID op \<notin> ws_ID ` set (ListWorkspaces (lc_db s1))
           \<and> (do_TargetID op \<notin> P \<or> do_Status row \<noteq> DeletionCompleted \<longrightarrow> ListServices (do_TargetID op) (lc_db s1) = []))"
proof -
  let ?K = "opkeys (lc_db s)"
  have "safe P {} {} (lc_db s)" by (rule runs_safe [OF assms(1) safe_start [OF assms(2,3)]])
  then have "safe P ?K {} (lc_db s)" by (simp add: safe_def)
  from runs_safe [OF assms(5) this] have s1: "safe P ?K {} (lc_db s1)" .
  have "(do_ID op, do_Scope op, do_TargetID op) \<in> opkeys (lc_db s1)" using s1 assms(4) by (auto simp: safe_def opkeys_def)
  then obtain row where row: "row \<in> set (cd_deletions (lc_db s1))" "do_ID row = do_ID op" "do_Scope row = do_Scope op" "do_TargetID row = do_TargetID op"
    by (auto simp: opkeys_def)
  have "row_safe P (lc_db s1) row" using s1 row(1) by (simp add: safe_def)
  from hidden_row [OF this row(1)] this row show ?thesis
    by (intro bexI [of _ row]) (auto simp: row_safe_def split: DeletionScope.splits)
qed

text \<open>A process that stops right after the operation was recorded, and its successor.\<close>

definition bare_deps :: Dependencies where
  "bare_deps = \<lparr>dep_TileCache = False, dep_TileJobs = False, dep_Mosaic = False, dep_STAC = False, dep_Enforcer = False, dep_WFSState = False,
     dep_Cache = False, dep_ManagedImports = False\<rparr>"

definition before_deletion :: lifecycle where
  "before_deletion = demo_lifecycle\<lparr>lc_db := demo_catalog\<lparr>cd_deletions := []\<rparr>, lc_faults := [Works, Works, Crashes]\<rparr>"

definition crashed :: lifecycle where
  "crashed = lc_exec bare_deps plain_types (EvDeleteService ''e'' ''w'' ''s'' True) before_deletion"

lemma crashed_record:
  "map sv_ID (cd_services (lc_db before_deletion)) = [''s'']" "GetService ''s'' (lc_db before_deletion) \<noteq> Inl NotFound"
  "map (\<lambda>op. (do_ID op, do_Scope op, do_TargetID op)) (cd_deletions (lc_db crashed)) = [(''e'', DeletionScopeService, ''s'')]" "lc_down crashed"
  by (simp_all add: crashed_def before_deletion_def bare_deps_def demo_lifecycle_def coordinator_DeleteService_def PlanService_def enrich_def pbind_def pret_def
      db_read_def db_request_def request_def started_def begin_deletion_def pmodify_def lc_update_def quiesceRuntime_def registry_QuiesceService_def
      demo_eval catalog_eval Let_def)

theorem deleted_target_stays_hidden_witness: "GetService ''s'' (lc_db (lc_restart crashed)) = Inl NotFound"
proof -
  have run: "lc_runs {} bare_deps plain_types before_deletion crashed"
    unfolding crashed_def by (rule lc_runs.step [OF lc_runs.stay]) simp
  have again: "lc_runs {} bare_deps plain_types crashed (lc_restart crashed)"
    using lc_runs.step [OF lc_runs.stay, of "{}" EvRestart crashed bare_deps plain_types] by simp
  obtain op where op: "op \<in> set (cd_deletions (lc_db crashed))" "do_Scope op = DeletionScopeService" "do_TargetID op = ''s''"
    using crashed_record(3) by (auto simp: map_eq_Cons_conv)
  have "cd_deletions (lc_db before_deletion) = []" by (simp add: before_deletion_def)
  then show ?thesis using deleted_target_stays_hidden [OF run _ _ op(1) again] op crashed_record(1) by auto
qed

end
