(* ===== verification/Import_Store.thy ===== *)
theory Import_Store
  imports Catalog_Lifecycle
begin

text \<open>
  The import tables of the catalog (\<^verbatim>\<open>store/store_import.go\<close>, \<^verbatim>\<open>store_import_transform.go\<close>): jobs, the timeline of
  their transitions and the managed databases they own, one function per statement or transaction. Jobs
  are in insertion order. The clock and fresh identifiers are arguments; a \<open>stamp\<close> is the time of a
  transaction and the identifier of the event it may record.
\<close>

section \<open>Rows\<close>

datatype ImportStatus =
  ImportQueued | ImportRunning | ImportAwaitingPlan | ImportReadyToPublish | ImportPublishing | ImportPublished
| ImportCancelling | ImportCancelled | ImportFailed | ImportRollingBack | ImportRolledBack

datatype ImportPhase =
  ImportPhaseAcquire | ImportPhaseDiscover | ImportPhaseValidate | ImportPhaseTransform | ImportPhasePreview
| ImportPhasePublish | ImportPhaseRollback

record ImportProperty =
  ip_Name :: string
  ip_Type :: string
  ip_JSONType :: string
  ip_Ordinal :: int

record ImportDiscoveredLayer =
  dl_Name :: string
  dl_Title :: string
  dl_Description :: string
  dl_GeometryColumn :: string
  dl_GeometryType :: string
  dl_SRID :: int
  dl_IDColumn :: string
  dl_FeatureCount :: int
  dl_NativeExtent :: "json option"
  dl_Properties :: "ImportProperty list"

record ImportDiscovery =
  di_Layers :: "ImportDiscoveredLayer list"
  di_Warnings :: "string list"

record ImportFieldMapping =
  fm_Source :: string
  fm_Target :: string
  fm_Type :: string
  fm_Include :: bool

record ImportLayerPlan =
  lp_SourceLayer :: string
  lp_PublicID :: string
  lp_Title :: string
  lp_Description :: string
  lp_Enabled :: bool
  lp_Public :: bool
  lp_AllowedRoles :: "string list"
  lp_Fields :: "ImportFieldMapping list"
  lp_GeometryColumn :: string
  lp_TargetGeometry :: string
  lp_IDColumn :: string
  lp_SourceSRID :: int
  lp_TargetSRID :: int

record ImportPlan =
  pl_ServiceName :: string
  pl_Layers :: "ImportLayerPlan list"

record ImportJob =
  ij_ID :: string
  ij_WorkspaceID :: string
  ij_Name :: string
  ij_SourceKind :: string
  ij_SourceLocator :: string
  ij_SourcePath :: string
  ij_SourceRelativePath :: string
  ij_SourceFilename :: string
  ij_Status :: ImportStatus
  ij_Phase :: ImportPhase
  ij_Plan :: "ImportPlan option"
  ij_Discovery :: "ImportDiscovery option"
  ij_ServiceID :: string
  ij_ManagedPath :: string
  ij_RollbackOperationID :: string
  ij_ProcessedBytes :: int
  ij_ProcessedFeatures :: int
  ij_ProcessedLayers :: int
  ij_TotalLayers :: int
  ij_RetryCount :: int
  ij_CancelRequested :: bool
  ij_ErrorMessage :: string
  ij_CreatedBy :: string
  ij_CreatedAt :: instant
  ij_StartedAt :: "instant option"
  ij_CompletedAt :: "instant option"
  ij_UpdatedAt :: instant

record ImportJobEvent =
  ie_ID :: string
  ie_ImportID :: string
  ie_WorkspaceID :: string
  ie_Status :: ImportStatus
  ie_Phase :: ImportPhase
  ie_Warnings :: "string list"
  ie_ErrorMessage :: string
  ie_ProcessedBytes :: int
  ie_ProcessedFeatures :: int
  ie_ProcessedLayers :: int
  ie_CreatedAt :: instant

record CreateImportJobInput =
  ic_WorkspaceID :: string
  ic_Name :: string
  ic_SourceKind :: string
  ic_SourceLocator :: string
  ic_SourcePath :: string
  ic_SourceFilename :: string
  ic_CreatedBy :: string
  ic_SourceRelativePath :: string

record ImportJobUpdate =
  iu_SourcePath :: "string option"
  iu_SourceRelativePath :: "string option"
  iu_Status :: "ImportStatus option"
  iu_Phase :: "ImportPhase option"
  iu_Plan :: "ImportPlan option"
  iu_Discovery :: "ImportDiscovery option"
  iu_ServiceID :: "string option"
  iu_ManagedPath :: "string option"
  iu_RollbackOperationID :: "string option"
  iu_ProcessedBytes :: "int option"
  iu_ProcessedFeatures :: "int option"
  iu_ProcessedLayers :: "int option"
  iu_TotalLayers :: "int option"
  iu_RetryCount :: "int option"
  iu_CancelRequested :: "bool option"
  iu_ErrorMessage :: "string option"
  iu_StartedAt :: "instant option"
  iu_CompletedAt :: "instant option"
  iu_ClearCompletedAt :: bool

definition no_update :: ImportJobUpdate where
  "no_update = \<lparr>iu_SourcePath = None, iu_SourceRelativePath = None, iu_Status = None, iu_Phase = None, iu_Plan = None, iu_Discovery = None,
     iu_ServiceID = None, iu_ManagedPath = None, iu_RollbackOperationID = None, iu_ProcessedBytes = None, iu_ProcessedFeatures = None,
     iu_ProcessedLayers = None, iu_TotalLayers = None, iu_RetryCount = None, iu_CancelRequested = None, iu_ErrorMessage = None,
     iu_StartedAt = None, iu_CompletedAt = None, iu_ClearCompletedAt = False\<rparr>"

record import_db =
  ib_jobs :: "ImportJob list"
  ib_events :: "ImportJobEvent list"
  ib_cat :: catalog_db

datatype import_error = StoreErr catalog_error | Canceled | Refused string

type_synonym 'a import_result = "import_error + 'a"
type_synonym stamp = "instant \<times> string"

abbreviation JobNotFound :: import_error where "JobNotFound \<equiv> StoreErr NotFound"

definition empty_import_db :: import_db where
  "empty_import_db = \<lparr>ib_jobs = [], ib_events = [], ib_cat = empty_catalog no_credentials\<rparr>"

section \<open>Jobs\<close>

definition importWarnings :: "ImportJob \<Rightarrow> string list" where
  "importWarnings job = (case ij_Discovery job of None \<Rightarrow> [] | Some d \<Rightarrow> di_Warnings d)"

definition insertImportEvent :: "stamp \<Rightarrow> ImportJob \<Rightarrow> import_db \<Rightarrow> import_db" where
  "insertImportEvent st job db =
     db\<lparr>ib_events := ib_events db @ [\<lparr>ie_ID = snd st, ie_ImportID = ij_ID job, ie_WorkspaceID = ij_WorkspaceID job, ie_Status = ij_Status job,
        ie_Phase = ij_Phase job, ie_Warnings = importWarnings job, ie_ErrorMessage = ij_ErrorMessage job, ie_ProcessedBytes = ij_ProcessedBytes job,
        ie_ProcessedFeatures = ij_ProcessedFeatures job, ie_ProcessedLayers = ij_ProcessedLayers job, ie_CreatedAt = fst st\<rparr>]\<rparr>"

definition CreateImportJob :: "stamp \<Rightarrow> string \<Rightarrow> CreateImportJobInput \<Rightarrow> import_db \<Rightarrow> ImportJob import_result \<times> import_db" where
  "CreateImportJob st uuid inp db =
     (let job = \<lparr>ij_ID = uuid, ij_WorkspaceID = ic_WorkspaceID inp, ij_Name = ic_Name inp, ij_SourceKind = ic_SourceKind inp,
                 ij_SourceLocator = ic_SourceLocator inp, ij_SourcePath = ic_SourcePath inp, ij_SourceRelativePath = ic_SourceRelativePath inp,
                 ij_SourceFilename = ic_SourceFilename inp, ij_Status = ImportQueued, ij_Phase = ImportPhaseAcquire, ij_Plan = None, ij_Discovery = None,
                 ij_ServiceID = [], ij_ManagedPath = [], ij_RollbackOperationID = [], ij_ProcessedBytes = 0, ij_ProcessedFeatures = 0,
                 ij_ProcessedLayers = 0, ij_TotalLayers = 0, ij_RetryCount = 0, ij_CancelRequested = False, ij_ErrorMessage = [],
                 ij_CreatedBy = ic_CreatedBy inp, ij_CreatedAt = fst st, ij_StartedAt = None, ij_CompletedAt = None, ij_UpdatedAt = fst st\<rparr>
      in if uuid \<in> ij_ID ` set (ib_jobs db) then (Inl (StoreErr (DbErr ErrConstraint)), db)
         else (Inr job, insertImportEvent st job (db\<lparr>ib_jobs := ib_jobs db @ [job]\<rparr>)))"

definition GetImportJob :: "string \<Rightarrow> import_db \<Rightarrow> ImportJob import_result" where
  "GetImportJob i db = (case find (\<lambda>j. ij_ID j = i) (ib_jobs db) of None \<Rightarrow> Inl JobNotFound | Some j \<Rightarrow> Inr j)"

definition ListImportJobs :: "string \<Rightarrow> int \<Rightarrow> import_db \<Rightarrow> ImportJob list" where
  "ListImportJobs wid limit db =
     take (nat (if limit \<le> 0 \<or> limit > 1000 then 100 else limit))
       (sort_key (\<lambda>j. - ij_CreatedAt j) (filter (\<lambda>j. ij_WorkspaceID j = wid) (ib_jobs db)))"

definition ListRunnableImportJobs :: "import_db \<Rightarrow> ImportJob list" where
  "ListRunnableImportJobs db = take 100 (sort_key ij_CreatedAt (filter (\<lambda>j. ij_Status j = ImportQueued) (ib_jobs db)))"

definition ListInterruptedImportJobs :: "import_db \<Rightarrow> ImportJob list" where
  "ListInterruptedImportJobs db =
     sort_key ij_CreatedAt (filter (\<lambda>j. ij_Status j \<in> {ImportPublishing, ImportPublished, ImportRollingBack, ImportCancelling, ImportCancelled}) (ib_jobs db))"

definition or_keep :: "'a option \<Rightarrow> 'a \<Rightarrow> 'a" where
  "or_keep u x = (case u of None \<Rightarrow> x | Some y \<Rightarrow> y)"

definition updated_job :: "instant \<Rightarrow> ImportJobUpdate \<Rightarrow> ImportJob \<Rightarrow> ImportJob" where
  "updated_job now u job =
     job\<lparr>ij_Status := or_keep (iu_Status u) (ij_Status job), ij_SourcePath := or_keep (iu_SourcePath u) (ij_SourcePath job),
        ij_SourceRelativePath := or_keep (iu_SourceRelativePath u) (ij_SourceRelativePath job), ij_Phase := or_keep (iu_Phase u) (ij_Phase job),
        ij_Plan := (case iu_Plan u of None \<Rightarrow> ij_Plan job | Some p \<Rightarrow> Some p),
        ij_Discovery := (case iu_Discovery u of None \<Rightarrow> ij_Discovery job | Some d \<Rightarrow> Some d),
        ij_ServiceID := or_keep (iu_ServiceID u) (ij_ServiceID job), ij_ManagedPath := or_keep (iu_ManagedPath u) (ij_ManagedPath job),
        ij_RollbackOperationID := or_keep (iu_RollbackOperationID u) (ij_RollbackOperationID job),
        ij_ProcessedBytes := or_keep (iu_ProcessedBytes u) (ij_ProcessedBytes job),
        ij_ProcessedFeatures := or_keep (iu_ProcessedFeatures u) (ij_ProcessedFeatures job),
        ij_ProcessedLayers := or_keep (iu_ProcessedLayers u) (ij_ProcessedLayers job), ij_TotalLayers := or_keep (iu_TotalLayers u) (ij_TotalLayers job),
        ij_RetryCount := or_keep (iu_RetryCount u) (ij_RetryCount job), ij_CancelRequested := or_keep (iu_CancelRequested u) (ij_CancelRequested job),
        ij_ErrorMessage := or_keep (iu_ErrorMessage u) (ij_ErrorMessage job),
        ij_StartedAt := (case iu_StartedAt u of None \<Rightarrow> ij_StartedAt job | Some t \<Rightarrow> Some t),
        ij_CompletedAt := (if iu_ClearCompletedAt u then None else case iu_CompletedAt u of None \<Rightarrow> ij_CompletedAt job | Some t \<Rightarrow> Some t),
        ij_UpdatedAt := now\<rparr>"

definition put_job :: "ImportJob \<Rightarrow> import_db \<Rightarrow> import_db" where
  "put_job job db = db\<lparr>ib_jobs := map (\<lambda>j. if ij_ID j = ij_ID job then job else j) (ib_jobs db)\<rparr>"

definition job_changed :: "ImportJob \<Rightarrow> ImportJob \<Rightarrow> bool" where
  "job_changed old new = (ij_Status old \<noteq> ij_Status new \<or> ij_Phase old \<noteq> ij_Phase new \<or> ij_ErrorMessage old \<noteq> ij_ErrorMessage new
     \<or> importWarnings old \<noteq> importWarnings new)"

text \<open>A requested cancellation refuses every other change of status.\<close>

definition UpdateImportJob :: "stamp \<Rightarrow> string \<Rightarrow> ImportJobUpdate \<Rightarrow> import_db \<Rightarrow> ImportJob import_result \<times> import_db" where
  "UpdateImportJob st i u db =
     (case GetImportJob i db of
        Inl e \<Rightarrow> (Inl e, db)
      | Inr old \<Rightarrow>
          if ij_CancelRequested old \<and> iu_Status u \<noteq> None \<and> iu_Status u \<noteq> Some ImportCancelled \<and> iu_Status u \<noteq> Some ImportCancelling
          then (Inl Canceled, db)
          else let job = updated_job (fst st) u old; db1 = put_job job db
               in (Inr job, if job_changed old job then insertImportEvent st job db1 else db1))"

definition cancellable :: "ImportStatus \<Rightarrow> bool" where
  "cancellable s = (s \<in> {ImportQueued, ImportRunning, ImportCancelling, ImportAwaitingPlan, ImportReadyToPublish, ImportFailed, ImportCancelled})"

definition RequestImportCancel :: "stamp \<Rightarrow> string \<Rightarrow> import_db \<Rightarrow> unit import_result \<times> import_db" where
  "RequestImportCancel st i db =
     (case GetImportJob i db of
        Inl e \<Rightarrow> (Inl e, db)
      | Inr old \<Rightarrow>
          if \<not> cancellable (ij_Status old) then (Inl JobNotFound, db)
          else let job = old\<lparr>ij_CancelRequested := True, ij_Status := ImportCancelling, ij_CompletedAt := None, ij_UpdatedAt := fst st\<rparr>
               in (Inr (), insertImportEvent st job (put_job job db)))"

definition reset_job :: "instant \<Rightarrow> ImportJob \<Rightarrow> ImportJob" where
  "reset_job now j =
     (if ij_Status j = ImportRunning
      then j\<lparr>ij_Status := (if ij_CancelRequested j then ImportCancelling else ImportQueued),
             ij_ErrorMessage := (if ij_ErrorMessage j = [] then ''resumed after restart'' else ij_ErrorMessage j), ij_UpdatedAt := now\<rparr>
      else j)"

definition ResetInterruptedImportJobs :: "instant \<Rightarrow> import_db \<Rightarrow> import_db" where
  "ResetInterruptedImportJobs now db = db\<lparr>ib_jobs := map (reset_job now) (ib_jobs db)\<rparr>"

definition ListImportJobEvents :: "string \<Rightarrow> int \<Rightarrow> import_db \<Rightarrow> ImportJobEvent list" where
  "ListImportJobEvents i limit db =
     take (nat (if limit \<le> 0 \<or> limit > 1000 then 200 else limit))
       (sort_key ie_CreatedAt (sort_key ie_ID (filter (\<lambda>e. ie_ImportID e = i) (ib_events db))))"

section \<open>Managed databases\<close>

definition GetManagedAssetByImport :: "string \<Rightarrow> import_db \<Rightarrow> ManagedAsset option" where
  "GetManagedAssetByImport i db = find (\<lambda>a. ma_ImportID a = i) (cd_managed (ib_cat db))"

definition ListManagedAssets :: "import_db \<Rightarrow> ManagedAsset list" where
  "ListManagedAssets db = sort_key ma_CreatedAt (sort_key ma_ImportID (cd_managed (ib_cat db)))"

definition UpsertStagedManagedAsset :: "ManagedAsset \<Rightarrow> import_db \<Rightarrow> unit import_result \<times> import_db" where
  "UpsertStagedManagedAsset item db =
     (case upsert_asset (\<lambda>a. a\<lparr>ma_WorkspaceID := ma_WorkspaceID item, ma_ServiceID := None, ma_Path := ma_Path item, ma_EncryptionKey := ma_EncryptionKey item\<rparr>)
             (item\<lparr>ma_ServiceID := None\<rparr>) (ib_cat db) of
        None \<Rightarrow> (Inl (StoreErr (DbErr ErrConstraint)), db)
      | Some cat \<Rightarrow> (Inr (), db\<lparr>ib_cat := cat\<rparr>))"

definition UpdateManagedAssetPath :: "instant \<Rightarrow> string \<Rightarrow> string \<Rightarrow> import_db \<Rightarrow> unit import_result \<times> import_db" where
  "UpdateManagedAssetPath now i path db =
     (if i \<notin> ma_ImportID ` set (cd_managed (ib_cat db)) then (Inl JobNotFound, db)
      else if \<exists>a \<in> set (cd_managed (ib_cat db)). ma_ImportID a \<noteq> i \<and> ma_Path a = path then (Inl (StoreErr (DbErr ErrConstraint)), db)
      else (Inr (), db\<lparr>ib_cat := (ib_cat db)\<lparr>cd_managed := map (\<lambda>a. if ma_ImportID a = i then a\<lparr>ma_Path := path\<rparr> else a) (cd_managed (ib_cat db))\<rparr>,
                       ib_jobs := map (\<lambda>j. if ij_ID j = i then j\<lparr>ij_ManagedPath := path, ij_UpdatedAt := now\<rparr> else j) (ib_jobs db)\<rparr>))"

definition import_DeleteManagedAsset :: "string \<Rightarrow> import_db \<Rightarrow> import_db" where
  "import_DeleteManagedAsset i db = db\<lparr>ib_cat := snd (DeleteManagedAsset i (ib_cat db))\<rparr>"

text \<open>A finished revision is selected only while its job still accepts one.\<close>

definition CompleteImportTransform :: "stamp \<Rightarrow> ManagedAsset \<Rightarrow> import_db \<Rightarrow> unit import_result \<times> import_db" where
  "CompleteImportTransform st asset db =
     (case GetImportJob (ma_ImportID asset) db of
        Inl _ \<Rightarrow> (Inl (Refused ''import is no longer accepting a transformed revision''), db)
      | Inr old \<Rightarrow>
          if \<not> (ij_WorkspaceID old = ma_WorkspaceID asset \<and> ij_Status old \<in> {ImportRunning, ImportQueued} \<and> \<not> ij_CancelRequested old)
          then (Inl (Refused ''import is no longer accepting a transformed revision''), db)
          else let job = old\<lparr>ij_Status := ImportReadyToPublish, ij_Phase := ImportPhasePreview, ij_ManagedPath := ma_Path asset, ij_CompletedAt := None,
                             ij_ErrorMessage := [], ij_UpdatedAt := fst st\<rparr>
               in case upsert_asset (\<lambda>a. a\<lparr>ma_Path := ma_Path asset, ma_EncryptionKey := ma_EncryptionKey asset\<rparr>)
                         (asset\<lparr>ma_ServiceID := None, ma_CreatedAt := fst st\<rparr>) (ib_cat db) of
                    None \<Rightarrow> (Inl (StoreErr (DbErr ErrConstraint)), db)
                  | Some cat \<Rightarrow> (Inr (), insertImportEvent st job (put_job job (db\<lparr>ib_cat := cat\<rparr>))))"

section \<open>Publication\<close>

text \<open>One transaction: the writes to the catalog, the job and its event; \<open>sid\<close> and \<open>lids\<close> are the
  fresh identifiers of the service and of its layers.\<close>

definition publish_tx :: "stamp \<Rightarrow> string \<Rightarrow> string list \<Rightarrow> PublishImportInput \<Rightarrow> ImportJob \<Rightarrow> import_db
    \<Rightarrow> (Service \<times> Layer list) import_result \<times> import_db" where
  "publish_tx st sid lids inp old db =
     (let now = fst st;
          job = old\<lparr>ij_Status := ImportPublished, ij_Phase := ImportPhasePublish, ij_ServiceID := sid, ij_ManagedPath := pi_ManagedPath inp,
                    ij_ErrorMessage := [], ij_CompletedAt := Some now, ij_UpdatedAt := now\<rparr>
      in case publish_catalog now sid lids inp (ib_cat db) of
           (Inl e, _) \<Rightarrow> (Inl (StoreErr e), db)
         | (Inr published, cat) \<Rightarrow> (Inr published, insertImportEvent st job (put_job job (db\<lparr>ib_cat := cat\<rparr>))))"

definition PublishImport :: "stamp \<Rightarrow> string \<Rightarrow> string list \<Rightarrow> PublishImportInput \<Rightarrow> import_db \<Rightarrow> (Service \<times> Layer list) import_result \<times> import_db" where
  "PublishImport st sid lids inp db =
     (case GetImportJob (pi_ImportID inp) db of
        Inl e \<Rightarrow> (Inl e, db)
      | Inr existing \<Rightarrow>
          if ij_Status existing = ImportPublished \<and> ij_ServiceID existing \<noteq> []
          then (case GetService (ij_ServiceID existing) (ib_cat db) of Inl e \<Rightarrow> (Inl (StoreErr e), db) | Inr s \<Rightarrow> (Inr (s, []), db))
          else publish_tx st sid lids inp existing db)"

section \<open>Cancellation\<close>

text \<open>The writes of the import tables.\<close>

datatype import_op =
  OpCreateImport stamp string CreateImportJobInput
| OpUpdateImport stamp string ImportJobUpdate
| OpCancelImport stamp string
| OpResetImports instant
| OpStageAsset ManagedAsset
| OpMoveAsset instant string string
| OpDropAsset string
| OpCompleteTransform stamp ManagedAsset
| OpPublishImport stamp string "string list" PublishImportInput

fun import_exec :: "import_op \<Rightarrow> import_db \<Rightarrow> import_db" where
  "import_exec (OpCreateImport st u inp) db = snd (CreateImportJob st u inp db)"
| "import_exec (OpUpdateImport st i u) db = snd (UpdateImportJob st i u db)"
| "import_exec (OpCancelImport st i) db = snd (RequestImportCancel st i db)"
| "import_exec (OpResetImports now) db = ResetInterruptedImportJobs now db"
| "import_exec (OpStageAsset a) db = snd (UpsertStagedManagedAsset a db)"
| "import_exec (OpMoveAsset now i path) db = snd (UpdateManagedAssetPath now i path db)"
| "import_exec (OpDropAsset i) db = import_DeleteManagedAsset i db"
| "import_exec (OpCompleteTransform st a) db = snd (CompleteImportTransform st a db)"
| "import_exec (OpPublishImport st sid lids inp) db = snd (PublishImport st sid lids inp db)"

text \<open>How the manager uses them: it withdraws the flag only together with a new status, as a changed plan and a retry do, and
  publishes only a job it has put into the publishing state.\<close>

fun import_op_ok :: "import_op \<Rightarrow> import_db \<Rightarrow> bool" where
  "import_op_ok (OpUpdateImport st i u) db =
     (iu_CancelRequested u \<noteq> Some False \<or> iu_Status u \<notin> {None, Some ImportCancelling, Some ImportCancelled})"
| "import_op_ok (OpPublishImport st sid lids inp) db =
     (case GetImportJob (pi_ImportID inp) db of Inl _ \<Rightarrow> True | Inr j \<Rightarrow> ij_Status j \<in> {ImportPublishing, ImportPublished})"
| "import_op_ok _ db = True"

inductive import_runs :: "import_db \<Rightarrow> import_db \<Rightarrow> bool" where
  stay: "import_runs db db"
| step: "import_runs db db1 \<Longrightarrow> import_op_ok oper db1 \<Longrightarrow> import_runs db (import_exec oper db1)"

definition cancelled_job :: "string \<Rightarrow> import_db \<Rightarrow> bool" where
  "cancelled_job i db =
     (case GetImportJob i db of Inl _ \<Rightarrow> False | Inr j \<Rightarrow> ij_CancelRequested j \<and> ij_Status j \<in> {ImportCancelling, ImportCancelled})"

lemma Get_ID: "GetImportJob i db = Inr j \<Longrightarrow> ij_ID j = i"
  by (auto simp: GetImportJob_def split: option.splits dest: find_SomeD)

lemma Get_map:
  assumes "ib_jobs db' = map f (ib_jobs db)" "\<And>j. ij_ID (f j) = ij_ID j"
  shows "GetImportJob i db' = (case GetImportJob i db of Inl e \<Rightarrow> Inl e | Inr j \<Rightarrow> Inr (f j))"
  using find_map_key [of ij_ID f i "ib_jobs db"] assms by (simp add: GetImportJob_def split: option.splits)

lemma jobs_event [simp]: "ib_jobs (insertImportEvent st job db) = ib_jobs db"
  by (simp add: insertImportEvent_def)

lemma Get_same: "ib_jobs db' = ib_jobs db \<Longrightarrow> GetImportJob i db' = GetImportJob i db"
  by (simp add: GetImportJob_def)

lemma Get_put:
  assumes "ib_jobs db' = ib_jobs (put_job job db)" "GetImportJob i db = Inr j"
  shows "GetImportJob i db' = Inr (if ij_ID job = i then job else j)"
  using Get_map [of db' "\<lambda>j. if ij_ID j = ij_ID job then job else j" db i] assms Get_ID [OF assms(2)] by (auto simp: put_job_def)

lemma cancelled_put:
  assumes "cancelled_job i db" "ib_jobs db' = ib_jobs (put_job job db)"
    and "ij_ID job = i \<Longrightarrow> ij_CancelRequested job \<and> ij_Status job \<in> {ImportCancelling, ImportCancelled}"
  shows "cancelled_job i db'"
  using assms Get_put [OF assms(2)] by (auto simp: cancelled_job_def split: sum.splits)

lemma cancelled_same: "cancelled_job i db \<Longrightarrow> ib_jobs db' = ib_jobs db \<Longrightarrow> cancelled_job i db'"
  using Get_same [of db' db i] by (simp add: cancelled_job_def)

lemma cancelled_flag: "cancelled_job i db \<Longrightarrow> GetImportJob i db = Inr j \<Longrightarrow> ij_CancelRequested j \<and> ij_Status j \<in> {ImportCancelling, ImportCancelled}"
  by (simp add: cancelled_job_def)

lemma find_prefix: "find P xs = Some x \<Longrightarrow> find P (xs @ ys) = Some x"
  by (induction xs) auto

lemma create_cancelled: "cancelled_job i db \<Longrightarrow> cancelled_job i (snd (CreateImportJob st u inp db))"
  by (auto simp: cancelled_job_def GetImportJob_def CreateImportJob_def Let_def find_prefix split: option.splits)

lemma update_cancelled:
  assumes c: "cancelled_job i db" and ok: "import_op_ok (OpUpdateImport st k u) db"
  shows "cancelled_job i (snd (UpdateImportJob st k u db))"
proof (cases "GetImportJob k db")
  case (Inr old)
  let ?job = "updated_job (fst st) u old"
  show ?thesis
  proof (cases "ij_CancelRequested old \<and> iu_Status u \<noteq> None \<and> iu_Status u \<noteq> Some ImportCancelled \<and> iu_Status u \<noteq> Some ImportCancelling")
    case True
    then show ?thesis using c by (simp add: UpdateImportJob_def Inr)
  next
    case False
    have "ij_CancelRequested ?job \<and> ij_Status ?job \<in> {ImportCancelling, ImportCancelled}" if "ij_ID ?job = i"
    proof -
      have "ij_ID old = i" using that by (simp add: updated_job_def)
      with Get_ID [OF Inr] have "ij_CancelRequested old \<and> ij_Status old \<in> {ImportCancelling, ImportCancelled}"
        using cancelled_flag [OF c] Inr by blast
      with False ok show ?thesis by (auto simp: updated_job_def or_keep_def split: option.splits)
    qed
    then show ?thesis using c cancelled_put [OF c, of _ ?job] False unfolding UpdateImportJob_def Inr by (simp add: Let_def)
  qed
qed (simp add: UpdateImportJob_def c)

lemma cancel_cancelled:
  assumes c: "cancelled_job i db"
  shows "cancelled_job i (snd (RequestImportCancel st k db))"
proof (cases "GetImportJob k db")
  case (Inr old)
  let ?job = "old\<lparr>ij_CancelRequested := True, ij_Status := ImportCancelling, ij_CompletedAt := None, ij_UpdatedAt := fst st\<rparr>"
  show ?thesis using c cancelled_put [OF c, of _ ?job] unfolding RequestImportCancel_def Inr by (simp add: Let_def)
qed (simp add: RequestImportCancel_def c)

lemma map_cancelled:
  assumes "cancelled_job i db" "ib_jobs db' = map f (ib_jobs db)"
    and "\<And>j. ij_ID (f j) = ij_ID j \<and> ij_CancelRequested (f j) = ij_CancelRequested j" "\<And>j. ij_Status (f j) \<noteq> ij_Status j \<Longrightarrow> ij_Status j = ImportRunning"
  shows "cancelled_job i db'"
proof -
  obtain j where j: "GetImportJob i db = Inr j" using assms(1) by (auto simp: cancelled_job_def split: sum.splits)
  then have "ij_Status (f j) = ij_Status j" using cancelled_flag [OF assms(1) j] assms(4) [of j] by (cases "ij_Status (f j) = ij_Status j") auto
  then show ?thesis using Get_map [OF assms(2)] assms(3) j cancelled_flag [OF assms(1) j] by (simp add: cancelled_job_def)
qed

lemma transform_cancelled:
  assumes c: "cancelled_job i db"
  shows "cancelled_job i (snd (CompleteImportTransform st a db))"
proof (cases "GetImportJob (ma_ImportID a) db")
  case (Inr old)
  let ?job = "old\<lparr>ij_Status := ImportReadyToPublish, ij_Phase := ImportPhasePreview, ij_ManagedPath := ma_Path a, ij_CompletedAt := None,
    ij_ErrorMessage := [], ij_UpdatedAt := fst st\<rparr>"
  show ?thesis
  proof (cases "ij_ID old = i")
    case True
    then have "ij_CancelRequested old" using cancelled_flag [OF c, of old] Inr Get_ID [OF Inr] by simp
    then show ?thesis using c by (simp add: CompleteImportTransform_def Inr)
  next
    case False
    then have put: "cancelled_job i db'" if "ib_jobs db' = ib_jobs (put_job ?job db)" for db' using cancelled_put [OF c that] by simp
    show ?thesis using c unfolding CompleteImportTransform_def Inr
      by (auto simp: Let_def put_job_def split: option.split intro!: put)
  qed
qed (simp add: CompleteImportTransform_def c)

lemma publish_cancelled:
  assumes c: "cancelled_job i db" and ok: "import_op_ok (OpPublishImport st sid lids inp) db"
  shows "cancelled_job i (snd (PublishImport st sid lids inp db))"
proof (cases "GetImportJob (pi_ImportID inp) db")
  case (Inr old)
  have other: "ij_ID old \<noteq> i" using cancelled_flag [OF c, of old] Inr Get_ID [OF Inr] ok by auto
  have put: "cancelled_job i db'" if "ib_jobs db' = ib_jobs (put_job job db)" "ij_ID job = ij_ID old" for db' job
    using cancelled_put [OF c that(1)] that(2) other by simp
  have "cancelled_job i (snd (publish_tx st sid lids inp old db))" unfolding publish_tx_def Let_def
    by (auto simp: c put_job_def split: prod.split sum.split intro!: put)
  then show ?thesis using c by (simp add: PublishImport_def Inr split: sum.split)
qed (simp add: PublishImport_def c)

lemma import_exec_cancelled:
  assumes c: "cancelled_job i db" and ok: "import_op_ok oper db"
  shows "cancelled_job i (import_exec oper db)"
proof (cases oper)
  case (OpResetImports now)
  show ?thesis unfolding OpResetImports import_exec.simps
    by (rule map_cancelled [OF c, of _ "reset_job now"]) (auto simp: ResetInterruptedImportJobs_def reset_job_def split: if_splits)
next
  case (OpMoveAsset now k path)
  have "cancelled_job i db'"
    if "ib_jobs db' = map (\<lambda>j. if ij_ID j = k then j\<lparr>ij_ManagedPath := path, ij_UpdatedAt := now\<rparr> else j) (ib_jobs db)" for db'
    by (rule map_cancelled [OF c that]) (auto split: if_splits)
  then show ?thesis using c unfolding OpMoveAsset import_exec.simps UpdateManagedAssetPath_def by simp
next
  case (OpStageAsset a)
  show ?thesis unfolding OpStageAsset import_exec.simps
    by (rule cancelled_same [OF c]) (simp add: UpsertStagedManagedAsset_def split: option.split)
next
  case (OpDropAsset k)
  show ?thesis unfolding OpDropAsset import_exec.simps by (rule cancelled_same [OF c]) (simp add: import_DeleteManagedAsset_def)
qed (use c ok create_cancelled update_cancelled cancel_cancelled transform_cancelled publish_cancelled in auto)

text \<open>
  C20. An accepted cancellation is final: once the request has been recorded, through any further writes of the import tables -
  progress and failures of the worker still running, changed plans, retries, restarts, completed transforms,
  publications of other imports - the job keeps the request and is cancelling or cancelled; it is never queued,
  offered for publication or published again.
\<close>

theorem cancelled_import_stays_cancelled:
  assumes "RequestImportCancel st i db = (Inr (), db1)" "import_runs db1 db2"
  shows "\<exists>j. GetImportJob i db2 = Inr j \<and> ij_CancelRequested j \<and> ij_Status j \<in> {ImportCancelling, ImportCancelled}"
proof -
  obtain old where old: "GetImportJob i db = Inr old" using assms(1) by (auto simp: RequestImportCancel_def split: sum.splits)
  let ?job = "old\<lparr>ij_CancelRequested := True, ij_Status := ImportCancelling, ij_CompletedAt := None, ij_UpdatedAt := fst st\<rparr>"
  have "ib_jobs db1 = ib_jobs (put_job ?job db)" using assms(1) old by (auto simp: RequestImportCancel_def Let_def split: if_splits)
  from Get_put [OF this old] Get_ID [OF old] have "cancelled_job i db1" by (simp add: cancelled_job_def)
  with assms(2) have "cancelled_job i db2" by (induction rule: import_runs.induct) (auto intro: import_exec_cancelled)
  then show ?thesis by (auto simp: cancelled_job_def split: sum.splits)
qed

definition demo_import_db :: import_db where
  "demo_import_db = import_exec (OpCreateImport (1, ''e1'') ''j1'' \<lparr>ic_WorkspaceID = ''w'', ic_Name = ''n'', ic_SourceKind = ''upload'', ic_SourceLocator = ''a.gpkg'',
     ic_SourcePath = ''/t/upload-1/a.gpkg'', ic_SourceFilename = ''a.gpkg'', ic_CreatedBy = ''u'', ic_SourceRelativePath = ''upload-1/a.gpkg''\<rparr>) empty_import_db"

lemmas import_eval = demo_import_db_def empty_import_db_def CreateImportJob_def GetImportJob_def RequestImportCancel_def UpdateImportJob_def
  put_job_def insertImportEvent_def cancellable_def no_update_def

lemma cancelled_import_stays_cancelled_witness:
  "\<exists>j. GetImportJob ''j1'' (import_exec (OpUpdateImport (3, ''e3'') ''j1'' (no_update\<lparr>iu_Status := Some ImportAwaitingPlan\<rparr>))
        (snd (RequestImportCancel (2, ''e2'') ''j1'' demo_import_db))) = Inr j
     \<and> ij_CancelRequested j \<and> ij_Status j \<in> {ImportCancelling, ImportCancelled}"
proof (rule cancelled_import_stays_cancelled)
  show "RequestImportCancel (2, ''e2'') ''j1'' demo_import_db = (Inr (), snd (RequestImportCancel (2, ''e2'') ''j1'' demo_import_db))"
    by (simp add: import_eval Let_def)
  show "import_runs (snd (RequestImportCancel (2, ''e2'') ''j1'' demo_import_db))
      (import_exec (OpUpdateImport (3, ''e3'') ''j1'' (no_update\<lparr>iu_Status := Some ImportAwaitingPlan\<rparr>)) (snd (RequestImportCancel (2, ''e2'') ''j1'' demo_import_db)))"
    by (intro import_runs.step import_runs.stay) (simp add: no_update_def)
qed

text \<open>Publication does not look at the workspace: with no workspace at all it still creates the service and its layers, with
  roles no one has assigned.\<close>

definition demo_publication :: PublishImportInput where
  "demo_publication = \<lparr>pi_ImportID = ''j1'', pi_WorkspaceID = ''w'', pi_ManagedPath = ''/m/w/j1.duckdb'', pi_EncryptionKey = ''k'',
     pi_Service = \<lparr>si_WorkspaceID = ''w'', si_Name = ''roads'', si_Type = ''duckdb'', si_ConnectionInfo = ''{}'', si_CacheSettings = None, si_Enabled = True\<rparr>,
     pi_Layers = []\<rparr>"

lemma publish_creates_orphan_service:
  "cd_workspaces (ib_cat demo_import_db) = [] \<and> map sv_WorkspaceID (cd_services (ib_cat (snd (PublishImport (5, ''e5'') ''s1'' [] demo_publication demo_import_db)))) = [''w'']"
  by (simp add: import_eval PublishImport_def publish_tx_def publish_catalog_def publish_service_def upsert_asset_def demo_publication_def empty_catalog_def Let_def)

end
