(* ===== verification/Import_Plan.thy ===== *)
theory Import_Plan
  imports Import_Store Sql_Scan Tile_Types
begin

text \<open>
  The plan of an import (\<^verbatim>\<open>importer/manager.go\<close>): names and types a plan may use, \<open>validatePlan\<close> with the defaults it fills
  in, and the statement \<open>buildTransformSQL\<close> makes of one layer. Strings are byte strings. The main property reads
  that statement with the scanner of \<^verbatim>\<open>Sql_Scan\<close>: one statement, and every name of the request is
  exactly one quoted identifier.
\<close>

section \<open>Configuration and names\<close>

record Importer =
  cf_Enabled :: bool
  cf_Root :: string
  cf_TemporaryDirectory :: string
  cf_WorkerCount :: int
  cf_MaxConcurrentJobs :: int
  cf_MaxUploadBytes :: int
  cf_MaxRetainedSourceBytes :: int
  cf_UploadTimeoutSec :: int
  cf_UploadIdleTimeoutSec :: int
  cf_MaxSourceBytes :: int
  cf_MaxExpandedBytes :: int
  cf_MaxArchiveFiles :: int
  cf_MaxLayers :: int
  cf_MaxFeatures :: int
  cf_PreviewFeatures :: int
  cf_TransformTimeoutSec :: int
  cf_MaxRetries :: int
  cf_ShutdownTimeoutSec :: int

text \<open>\<^verbatim>\<open>filepath.Base\<close> and \<^verbatim>\<open>filepath.Ext\<close>.\<close>

definition last_part :: "string \<Rightarrow> string" where
  "last_part s = rev (takeWhile (\<lambda>c. c \<noteq> CHR ''/'') (rev s))"

definition filepath_Base :: "string \<Rightarrow> string" where
  "filepath_Base s =
     (if s = [] then ''.''
      else let t = rev (dropWhile (\<lambda>c. c = CHR ''/'') (rev s)) in if t = [] then ''/'' else last_part t)"

definition filepath_Ext :: "string \<Rightarrow> string" where
  "filepath_Ext s =
     (let b = last_part s in if CHR ''.'' \<in> set b then CHR ''.'' # rev (takeWhile (\<lambda>c. c \<noteq> CHR ''.'') (rev b)) else [])"

definition castType :: "string \<Rightarrow> string option" where
  "castType value =
     (let v = to_lower (trim_space value)
      in if v = [] then Some []
         else if v = ''string'' \<or> v = ''varchar'' then Some ''VARCHAR''
         else if v = ''integer'' \<or> v = ''bigint'' then Some ''BIGINT''
         else if v = ''number'' \<or> v = ''double'' then Some ''DOUBLE''
         else if v = ''boolean'' then Some ''BOOLEAN''
         else if v = ''date'' then Some ''DATE''
         else if v = ''timestamp'' then Some ''TIMESTAMP''
         else None)"

definition supportedSource :: "string \<Rightarrow> bool" where
  "supportedSource path = (to_lower (filepath_Ext path) \<in> {''.gpkg'', ''.geojson'', ''.json'', ''.fgb'', ''.parquet'', ''.shp''})"

definition safe_char :: "char \<Rightarrow> bool" where
  "safe_char c = (c = CHR ''_'' \<or> c = CHR ''-'' \<or> c = CHR '':'' \<or> c = CHR ''.'' \<or> code_of c > 127
     \<or> char_between 97 122 c \<or> char_between 65 90 c \<or> is_digit c)"

definition safeName :: "string \<Rightarrow> bool" where
  "safeName value = (let v = trim_space value in v \<noteq> [] \<and> length v \<le> 128 \<and> list_all safe_char v)"

definition sourceBaseName :: "string \<Rightarrow> string" where
  "sourceBaseName value = (let b = filepath_Base value in take (length b - length (filepath_Ext b)) b)"

definition sanitizeError :: "string \<Rightarrow> string" where
  "sanitizeError value = take 1024 (replace_char (CHR 10) '' '' value)"

definition is_parquet :: "string \<Rightarrow> bool" where
  "is_parquet path = equal_fold (filepath_Ext path) ''.parquet''"

section \<open>Validation\<close>

text \<open>A map filled in order: of two layers with one name the later counts.\<close>

definition discovered_layer :: "ImportDiscoveredLayer list \<Rightarrow> string \<Rightarrow> ImportDiscoveredLayer option" where
  "discovered_layer layers name = map_of (rev (map (\<lambda>l. (dl_Name l, l)) layers)) name"

definition field_target :: "ImportFieldMapping \<Rightarrow> string" where
  "field_target f = (if fm_Target f = [] then fm_Source f else fm_Target f)"

fun validate_fields :: "string list \<Rightarrow> string list \<Rightarrow> ImportFieldMapping list \<Rightarrow> string option" where
  "validate_fields properties targets [] = None"
| "validate_fields properties targets (f # fs) =
     (if fm_Source f \<notin> set properties then Some (''unknown field '' @ go_quote (fm_Source f))
      else if \<not> fm_Include f then validate_fields properties targets fs
      else if \<not> safeName (field_target f) \<or> field_target f \<in> set targets
      then Some (''invalid or duplicate target field '' @ go_quote (field_target f))
      else if castType (fm_Type f) = None then Some (''unsupported target type '' @ go_quote (fm_Type f))
      else validate_fields properties (field_target f # targets) fs)"

definition fill_layer :: "ImportDiscoveredLayer \<Rightarrow> ImportLayerPlan \<Rightarrow> ImportLayerPlan" where
  "fill_layer source item =
     (let geometry = (if lp_GeometryColumn item = [] then dl_GeometryColumn source else lp_GeometryColumn item);
          srid = (if lp_SourceSRID item = 0 then dl_SRID source else lp_SourceSRID item)
      in item\<lparr>lp_GeometryColumn := geometry,
              lp_TargetGeometry := (if lp_TargetGeometry item = [] then geometry else lp_TargetGeometry item),
              lp_SourceSRID := srid, lp_TargetSRID := (if lp_TargetSRID item = 0 then srid else lp_TargetSRID item)\<rparr>)"

fun validate_layers :: "ImportDiscoveredLayer list \<Rightarrow> string list \<Rightarrow> ImportLayerPlan list \<Rightarrow> string + ImportLayerPlan list" where
  "validate_layers layers publicIDs [] = Inr []"
| "validate_layers layers publicIDs (item # items) =
     (case discovered_layer layers (lp_SourceLayer item) of
        None \<Rightarrow> Inl (''unknown source layer '' @ go_quote (lp_SourceLayer item))
      | Some source \<Rightarrow>
          if \<not> safeName (lp_PublicID item) \<or> lp_PublicID item \<in> set publicIDs
          then Inl (''invalid or duplicate public_id '' @ go_quote (lp_PublicID item))
          else let filled = fill_layer source item
               in if lp_SourceSRID filled \<le> 0 \<or> lp_TargetSRID filled \<le> 0
                  then Inl (''layer '' @ go_quote (lp_SourceLayer item) @ '' requires valid source and target CRS'')
                  else case validate_fields (map ip_Name (dl_Properties source)) [] (lp_Fields item) of
                         Some e \<Rightarrow> Inl e
                       | None \<Rightarrow> bind_res (validate_layers layers (lp_PublicID item # publicIDs) items) (\<lambda>rest. Inr (filled # rest)))"

definition validatePlan :: "Importer \<Rightarrow> ImportJob \<Rightarrow> ImportPlan option \<Rightarrow> string + ImportPlan" where
  "validatePlan cfg job plan =
     (case ij_Discovery job of
        None \<Rightarrow> Inl ''discovery is not complete''
      | Some d \<Rightarrow>
          (case plan of
             None \<Rightarrow> Inl ''service_name must be a safe non-empty identifier''
           | Some p \<Rightarrow>
               if \<not> safeName (pl_ServiceName p) then Inl ''service_name must be a safe non-empty identifier''
               else if pl_Layers p = [] \<or> int (length (pl_Layers p)) > cf_MaxLayers cfg
               then Inl ''import plan must select a bounded number of layers''
               else bind_res (validate_layers (di_Layers d) [] (pl_Layers p)) (\<lambda>items. Inr (p\<lparr>pl_Layers := items\<rparr>))))"

section \<open>The statement of a layer\<close>

definition ReadPolicySQL :: string where
  "ReadPolicySQL = '', allowed_drivers=['' @ [squote] @ ''GeoJSON'' @ [squote] @ '','' @ [squote] @ ''GPKG'' @ [squote] @ '',''
     @ [squote] @ ''ESRI Shapefile'' @ [squote] @ '','' @ [squote] @ ''FlatGeobuf'' @ [squote] @ '']''"

definition read_expr :: "string \<Rightarrow> ImportDiscoveredLayer \<Rightarrow> string" where
  "read_expr path source =
     (if is_parquet path then ''read_parquet('' @ QuoteLiteral path @ '')''
      else ''ST_Read('' @ QuoteLiteral path
           @ (if dl_Name source \<noteq> [] \<and> equal_fold (filepath_Ext path) ''.gpkg'' then '', layer='' @ QuoteLiteral (dl_Name source) else [])
           @ ReadPolicySQL @ '')'')"

definition field_expr :: "ImportFieldMapping \<Rightarrow> string" where
  "field_expr f =
     (let expression = ''src.'' @ QuoteIdent (fm_Source f);
          cast = (case castType (fm_Type f) of
                    None \<Rightarrow> expression
                  | Some t \<Rightarrow> if t = [] then expression else ''CAST('' @ expression @ '' AS '' @ t @ '')'')
      in cast @ '' AS '' @ QuoteIdent (field_target f))"

definition plain_properties :: "ImportDiscoveredLayer \<Rightarrow> string list" where
  "plain_properties source = filter (\<lambda>n. n \<noteq> dl_GeometryColumn source) (map ip_Name (dl_Properties source))"

definition included :: "ImportLayerPlan \<Rightarrow> ImportFieldMapping list" where
  "included plan = filter fm_Include (lp_Fields plan)"

definition field_list :: "ImportDiscoveredLayer \<Rightarrow> ImportLayerPlan \<Rightarrow> string list" where
  "field_list source plan =
     (if lp_Fields plan = [] then map (\<lambda>n. ''src.'' @ QuoteIdent n) (plain_properties source) else map field_expr (included plan))"

definition targetNames :: "ImportDiscoveredLayer \<Rightarrow> ImportLayerPlan \<Rightarrow> string list" where
  "targetNames source plan = (if lp_Fields plan = [] then plain_properties source else map field_target (included plan))"

definition geom_expr :: "string \<Rightarrow> ImportDiscoveredLayer \<Rightarrow> ImportLayerPlan \<Rightarrow> string" where
  "geom_expr path source plan =
     (let column = ''src.'' @ QuoteIdent (dl_GeometryColumn source);
          native = list_ex (\<lambda>p. ip_Name p = dl_GeometryColumn source \<and> has_prefix (to_upper (ip_Type p)) ''GEOMETRY'') (dl_Properties source);
          geom = (if is_parquet path \<and> \<not> native then ''ST_GeomFromWKB('' @ column @ '')'' else column)
      in if lp_SourceSRID plan \<noteq> lp_TargetSRID plan
         then ''ST_Transform('' @ geom @ '', '' @ [squote] @ ''EPSG:'' @ show_int (lp_SourceSRID plan) @ [squote]
              @ '', '' @ [squote] @ ''EPSG:'' @ show_int (lp_TargetSRID plan) @ [squote] @ '', always_xy := true)''
         else geom)"

definition generated_id :: string where
  "generated_id = ''__neoserver_id''"

definition buildTransformSQL :: "string \<Rightarrow> ImportDiscoveredLayer \<Rightarrow> ImportLayerPlan \<Rightarrow> string + (string \<times> string)" where
  "buildTransformSQL path source plan =
     (let fields = field_list source plan @ [geom_expr path source plan @ '' AS '' @ QuoteIdent (lp_TargetGeometry plan)];
          statement = (\<lambda>fs. ''CREATE TABLE managed.'' @ QuoteIdent (lp_PublicID plan) @ '' AS SELECT '' @ join '','' fs
                             @ '' FROM '' @ read_expr path source @ '' AS src'')
      in if lp_IDColumn plan = []
         then Inr (statement ((''row_number() OVER ()::BIGINT AS '' @ QuoteIdent generated_id) # fields), generated_id)
         else if lp_IDColumn plan \<notin> set (targetNames source plan)
         then Inl (''id_column '' @ go_quote (lp_IDColumn plan) @ '' is not an included target field'')
         else Inr (statement fields, lp_IDColumn plan))"

section \<open>Reading the statement\<close>

lemma emits_prefix: "plain_text s \<Longrightarrow> emits t es \<Longrightarrow> emits (s @ t) es"
  by (induction s) (auto simp: plain_text_def emits_plain)

lemma emits_infix:
  assumes "emits s es" "emits t fs" "sep_text mid"
  shows "emits (s @ mid @ t) (es @ fs)"
proof -
  obtain c cs where "mid = c # cs" "separator c" "plain_text (c # cs)"
    using assms(3) by (cases mid) (auto simp: sep_text_def)
  with emits_append [OF assms(1) _ this(2), of "cs @ t" fs] emits_prefix [of "c # cs" t fs] assms(2) show ?thesis by simp
qed

lemma emits_suffix: "emits s es \<Longrightarrow> sep_text suf \<Longrightarrow> emits (s @ suf) es"
  using emits_infix [of s es "[]" "[]" suf] by (simp add: emits_Nil)

lemma scan_escaped_body: "foldl scan_step (InLit, acc) (EscapeLiteral s) = (InLit, acc)"
  unfolding EscapeLiteral_def by (induction s) (auto simp: plain_step_def)

text \<open>A literal emits nothing, whatever it holds.\<close>

lemma emits_QuoteLiteral: "emits (QuoteLiteral s @ t) es = emits t es"
  by (simp add: emits_def QuoteLiteral_def plain_step_def scan_escaped_body)

lemma emits_join: "sep_text sep \<Longrightarrow> list_all2 emits ss ess \<Longrightarrow> emits (join sep ss) (concat ess)"
proof (induction sep ss arbitrary: ess rule: join.induct)
  case (3 sep s t ss)
  then obtain es rest where "ess = es # rest" "emits s es" "list_all2 emits (t # ss) rest" by (auto simp: list_all2_Cons1)
  with 3 emits_infix [of s es "join sep (t # ss)" "concat rest" sep] show ?case by simp
qed (auto simp: list_all2_Cons1 emits_Nil)

lemmas text_simps = sep_text_def plain_text_def plain_char_def separator_def is_digit_def char_between_def code_of_def

text \<open>The names in a select list and in a statement, in the order they stand there.\<close>

definition field_names :: "ImportDiscoveredLayer \<Rightarrow> ImportLayerPlan \<Rightarrow> string list" where
  "field_names source plan =
     (if lp_Fields plan = [] then plain_properties source else concat (map (\<lambda>f. [fm_Source f, field_target f]) (included plan)))"

definition statement_names :: "ImportDiscoveredLayer \<Rightarrow> ImportLayerPlan \<Rightarrow> string list" where
  "statement_names source plan =
     [lp_PublicID plan] @ (if lp_IDColumn plan = [] then [generated_id] else []) @ field_names source plan
     @ [dl_GeometryColumn source, lp_TargetGeometry plan]"

lemma castType_plain:
  assumes "castType v = Some t"
  shows "plain_text t"
proof -
  have "t \<in> {[], ''VARCHAR'', ''BIGINT'', ''DOUBLE'', ''BOOLEAN'', ''DATE'', ''TIMESTAMP''}"
    using assms by (auto simp: castType_def Let_def split: if_splits)
  then show ?thesis by (auto simp: text_simps)
qed

lemma emits_column: "emits (''src.'' @ QuoteIdent n) [Ident n]"
  by (rule emits_prefix [OF _ emits_ident]) (simp add: text_simps)

lemma emits_as: "emits s es \<Longrightarrow> emits (s @ '' AS '' @ QuoteIdent n) (es @ [Ident n])"
  by (rule emits_infix [OF _ emits_ident]) (simp_all add: text_simps)

lemma emits_wrap: "emits s es \<Longrightarrow> plain_text pre \<Longrightarrow> sep_text suf \<Longrightarrow> emits (pre @ s @ suf) es"
  by (simp add: emits_prefix emits_suffix)

lemma emits_field: "emits (field_expr f) [Ident (fm_Source f), Ident (field_target f)]"
proof -
  have wrap: "emits (''CAST('' @ (''src.'' @ QuoteIdent (fm_Source f)) @ '' AS '' @ t @ '')'') [Ident (fm_Source f)]" if "plain_text t" for t
    using that by (intro emits_wrap [OF emits_column]) (simp_all add: text_simps)
  show ?thesis
    using emits_as [OF emits_column, of "fm_Source f" "field_target f"] emits_as [OF wrap, of _ "field_target f"]
    by (auto simp: field_expr_def Let_def castType_plain split: option.splits)
qed

lemma emits_geom: "emits (geom_expr path source plan) [Ident (dl_GeometryColumn source)]"
proof -
  let ?c = "''src.'' @ QuoteIdent (dl_GeometryColumn source)"
  have wkb: "emits (''ST_GeomFromWKB('' @ ?c @ '')'') [Ident (dl_GeometryColumn source)]"
    by (rule emits_wrap [OF emits_column]) (simp_all add: text_simps)
  have lit: "emits ([squote] @ ''EPSG:'' @ show_int i @ [squote] @ t) es = emits t es" for i t es
    using emits_literal [of "''EPSG:'' @ show_int i" t es] plain_no_squote [OF plain_show_int [of i]] by simp
  have xform: "emits (''ST_Transform('' @ s @ '', '' @ [squote] @ ''EPSG:'' @ show_int i @ [squote] @ '', '' @ [squote] @ ''EPSG:'' @ show_int j @ [squote] @ '', always_xy := true)'') es"
    if "emits s es" for s es i j
  proof -
    have "emits ([squote] @ ''EPSG:'' @ show_int j @ [squote] @ '', always_xy := true)'') []"
      unfolding lit by (simp add: emits_def plain_step_def)
    from emits_prefix [OF _ this, of "'', ''"] have "emits ('', '' @ [squote] @ ''EPSG:'' @ show_int j @ [squote] @ '', always_xy := true)'') []"
      by (simp add: text_simps)
    then have "emits ([squote] @ ''EPSG:'' @ show_int i @ [squote] @ '', '' @ [squote] @ ''EPSG:'' @ show_int j @ [squote] @ '', always_xy := true)'') []"
      by (simp only: lit)
    from emits_prefix [OF _ emits_infix [OF that this, of "'', ''"], of "''ST_Transform(''"] show ?thesis by (simp add: text_simps)
  qed
  show ?thesis unfolding geom_expr_def Let_def
    using wkb emits_column xform [OF wkb] xform [OF emits_column] by (simp only: split: if_split) simp
qed

lemma emits_read: "emits (read_expr path source) []"
proof -
  have policy: "emits (ReadPolicySQL @ '')'') []"
    by (simp add: emits_def ReadPolicySQL_def plain_step_def)
  have layer: "emits ('', layer='' @ QuoteLiteral n @ t) es" if "emits t es" for n t es
    by (rule emits_prefix) (simp_all add: emits_QuoteLiteral that text_simps)
  have st: "emits (''ST_Read('' @ QuoteLiteral path @ t) []" if "emits t []" for t
    by (rule emits_prefix) (simp_all add: emits_QuoteLiteral that text_simps)
  have pq: "emits (''read_parquet('' @ QuoteLiteral path @ '')'') []"
    by (rule emits_prefix) (simp_all add: emits_QuoteLiteral text_simps emits_plain emits_Nil)
  show ?thesis unfolding read_expr_def
    using pq st [OF policy] st [OF layer [OF policy]] by (simp only: append_assoc append_Nil split: if_split) simp
qed

lemma concat_singles: "concat (map (\<lambda>x. [f x]) xs) = map f xs"
  by (induction xs) auto

lemma emits_fields: "list_all2 emits (field_list source plan)
    (if lp_Fields plan = [] then map (\<lambda>n. [Ident n]) (plain_properties source)
     else map (\<lambda>f. [Ident (fm_Source f), Ident (field_target f)]) (included plan))"
  using emits_column emits_field by (simp add: field_list_def list_all2_map1 list_all2_map2 list_all2_refl)

text \<open>The statement around a select list.\<close>

lemma emits_statement:
  assumes "emits (join '','' fs) es"
  shows "emits (''CREATE TABLE managed.'' @ QuoteIdent n @ '' AS SELECT '' @ join '','' fs @ '' FROM '' @ read_expr path source @ '' AS src'') (Ident n # es)"
proof -
  have "emits (join '','' fs @ '' FROM '' @ read_expr path source @ '' AS src'') es"
    using emits_infix [OF assms emits_suffix [OF emits_read, of "'' AS src''"], of "'' FROM ''"] by (simp add: text_simps)
  from emits_infix [OF emits_ident this, of "'' AS SELECT ''" n] have
    "emits (QuoteIdent n @ '' AS SELECT '' @ join '','' fs @ '' FROM '' @ read_expr path source @ '' AS src'') (Ident n # es)"
    by (simp add: text_simps)
  from emits_prefix [OF _ this, of "''CREATE TABLE managed.''"] show ?thesis by (simp add: text_simps)
qed

text \<open>
  C23. The statement that transforms a layer is one complete statement, whatever path, layer name, column names and
  target names the source and the plan hold: the database reads exactly the names of the plan as quoted
  identifiers, in order, no placeholder, and no separator that would start a second statement.
\<close>

theorem transform_statement_names:
  assumes "buildTransformSQL path source plan = Inr (sql, idColumn)"
  shows "scan_sql sql = Some (map Ident (statement_names source plan))"
proof -
  let ?ess = "if lp_Fields plan = [] then map (\<lambda>n. [Ident n]) (plain_properties source)
    else map (\<lambda>f. [Ident (fm_Source f), Ident (field_target f)]) (included plan)"
  let ?geom = "geom_expr path source plan @ '' AS '' @ QuoteIdent (lp_TargetGeometry plan)"
  let ?row = "''row_number() OVER ()::BIGINT AS '' @ QuoteIdent generated_id"
  have names: "concat ?ess = map Ident (field_names source plan)"
    by (auto simp: field_names_def concat_singles map_concat comp_def)
  have fields: "list_all2 emits (field_list source plan @ [?geom]) (?ess @ [[Ident (dl_GeometryColumn source), Ident (lp_TargetGeometry plan)]])"
    using emits_fields emits_as [OF emits_geom] by (intro list_all2_appendI) auto
  have row: "emits ?row [Ident generated_id]" by (rule emits_prefix [OF _ emits_ident]) (simp add: text_simps)
  have comma: "sep_text '',''" by (simp add: text_simps)
  have one: "scan_sql s = Some es" if "emits s es" for s es using that by (simp add: emits_def scan_sql_def)
  show ?thesis
  proof (cases "lp_IDColumn plan = []")
    case True
    have "list_all2 emits (?row # field_list source plan @ [?geom])
        ([Ident generated_id] # ?ess @ [[Ident (dl_GeometryColumn source), Ident (lp_TargetGeometry plan)]])"
      using row fields by (simp only: list.rel_inject simp_thms)
    from one [OF emits_statement [OF emits_join [OF comma this]]] assms True names show ?thesis
      by (auto simp: buildTransformSQL_def Let_def statement_names_def)
  next
    case False
    from one [OF emits_statement [OF emits_join [OF comma fields]]] assms False names show ?thesis
      by (auto simp: buildTransformSQL_def Let_def statement_names_def split: if_splits)
  qed
qed

definition hostile_layer :: ImportDiscoveredLayer where
  "hostile_layer = \<lparr>dl_Name = ''roads'' @ [squote] @ ''; DROP TABLE x'', dl_Title = [], dl_Description = [], dl_GeometryColumn = ''geom'', dl_GeometryType = ''POINT'',
     dl_SRID = 4326, dl_IDColumn = [], dl_FeatureCount = 2, dl_NativeExtent = None,
     dl_Properties = [\<lparr>ip_Name = ''a'' @ [dquote] @ '';b'', ip_Type = ''VARCHAR'', ip_JSONType = ''string'', ip_Ordinal = 1\<rparr>]\<rparr>"

definition hostile_plan :: ImportLayerPlan where
  "hostile_plan = \<lparr>lp_SourceLayer = dl_Name hostile_layer, lp_PublicID = ''pub'' @ [dquote] @ ''lic'', lp_Title = [], lp_Description = [], lp_Enabled = True,
     lp_Public = False, lp_AllowedRoles = [], lp_Fields = [], lp_GeometryColumn = ''geom'', lp_TargetGeometry = ''g'', lp_IDColumn = [],
     lp_SourceSRID = 4326, lp_TargetSRID = 3857\<rparr>"

lemma transform_statement_names_witness:
  "\<exists>sql. buildTransformSQL (''/in/o'' @ [squote] @ ''brien.gpkg'') hostile_layer hostile_plan = Inr (sql, ''__neoserver_id'')
     \<and> scan_sql sql = Some (map Ident [''pub'' @ [dquote] @ ''lic'', ''__neoserver_id'', ''a'' @ [dquote] @ '';b'', ''geom'', ''g''])"
proof -
  have "\<exists>sql. buildTransformSQL (''/in/o'' @ [squote] @ ''brien.gpkg'') hostile_layer hostile_plan = Inr (sql, ''__neoserver_id'')"
    by (simp add: buildTransformSQL_def Let_def hostile_plan_def generated_id_def)
  moreover have "statement_names hostile_layer hostile_plan = [''pub'' @ [dquote] @ ''lic'', ''__neoserver_id'', ''a'' @ [dquote] @ '';b'', ''geom'', ''g'']"
    by (simp add: statement_names_def hostile_plan_def hostile_layer_def field_names_def plain_properties_def generated_id_def)
  ultimately show ?thesis using transform_statement_names by metis
qed

section \<open>What an accepted plan is\<close>

definition fields_ok :: "ImportDiscoveredLayer \<Rightarrow> ImportFieldMapping list \<Rightarrow> bool" where
  "fields_ok source fs =
     (list_all (\<lambda>f. fm_Source f \<in> ip_Name ` set (dl_Properties source)) fs
      \<and> distinct (map field_target (filter fm_Include fs))
      \<and> list_all (\<lambda>f. safeName (field_target f) \<and> castType (fm_Type f) \<noteq> None) (filter fm_Include fs))"

definition layer_ok :: "ImportDiscoveredLayer list \<Rightarrow> ImportLayerPlan \<Rightarrow> bool" where
  "layer_ok layers item =
     (case discovered_layer layers (lp_SourceLayer item) of
        None \<Rightarrow> False
      | Some source \<Rightarrow> safeName (lp_PublicID item) \<and> lp_SourceSRID item > 0 \<and> lp_TargetSRID item > 0 \<and> fields_ok source (lp_Fields item))"

definition plan_ok :: "Importer \<Rightarrow> ImportDiscovery \<Rightarrow> ImportPlan \<Rightarrow> bool" where
  "plan_ok cfg d p =
     (safeName (pl_ServiceName p) \<and> pl_Layers p \<noteq> [] \<and> int (length (pl_Layers p)) \<le> cf_MaxLayers cfg
      \<and> distinct (map lp_PublicID (pl_Layers p)) \<and> list_all (layer_ok (di_Layers d)) (pl_Layers p))"

text \<open>The defaults of a layer that names a discovered one.\<close>

definition fill_item :: "ImportDiscoveredLayer list \<Rightarrow> ImportLayerPlan \<Rightarrow> ImportLayerPlan" where
  "fill_item layers item = (case discovered_layer layers (lp_SourceLayer item) of None \<Rightarrow> item | Some source \<Rightarrow> fill_layer source item)"

definition fill_plan :: "ImportDiscovery \<Rightarrow> ImportPlan \<Rightarrow> ImportPlan" where
  "fill_plan d p = p\<lparr>pl_Layers := map (fill_item (di_Layers d)) (pl_Layers p)\<rparr>"

lemma fill_layer_keeps [simp]:
  "lp_SourceLayer (fill_layer s i) = lp_SourceLayer i" "lp_PublicID (fill_layer s i) = lp_PublicID i" "lp_Fields (fill_layer s i) = lp_Fields i"
  by (simp_all add: fill_layer_def Let_def)

lemma fill_item_keeps [simp]:
  "lp_SourceLayer (fill_item ls i) = lp_SourceLayer i" "lp_PublicID (fill_item ls i) = lp_PublicID i" "lp_Fields (fill_item ls i) = lp_Fields i"
  by (simp_all add: fill_item_def split: option.splits)

lemma fill_item_idem [simp]: "fill_item ls (fill_item ls i) = fill_item ls i"
  by (simp add: fill_item_def fill_layer_def Let_def split: option.splits)

lemma validate_fields_iff:
  "validate_fields ps ts fs = None \<longleftrightarrow>
     list_all (\<lambda>f. fm_Source f \<in> set ps) fs \<and> distinct (map field_target (filter fm_Include fs))
     \<and> set ts \<inter> field_target ` set (filter fm_Include fs) = {}
     \<and> list_all (\<lambda>f. safeName (field_target f) \<and> castType (fm_Type f) \<noteq> None) (filter fm_Include fs)"
  by (induction ps ts fs rule: validate_fields.induct) auto

lemma validate_fields_ok: "validate_fields (map ip_Name (dl_Properties s)) [] fs = None \<longleftrightarrow> fields_ok s fs"
  by (simp add: validate_fields_iff fields_ok_def)

lemma validate_layers_iff:
  "validate_layers ls ids items = Inr out \<longleftrightarrow>
     out = map (fill_item ls) items \<and> list_all (layer_ok ls) out \<and> distinct (map lp_PublicID items) \<and> set ids \<inter> lp_PublicID ` set items = {}"
proof (induction items arbitrary: ids out)
  case (Cons item items)
  show ?case
  proof (cases "discovered_layer ls (lp_SourceLayer item)")
    case None
    then show ?thesis by (auto simp: layer_ok_def)
  next
    case (Some source)
    then have fill: "fill_item ls item = fill_layer source item" by (simp add: fill_item_def)
    have "layer_ok ls (fill_layer source item) \<longleftrightarrow> safeName (lp_PublicID item) \<and> lp_SourceSRID (fill_layer source item) > 0
        \<and> lp_TargetSRID (fill_layer source item) > 0 \<and> validate_fields (map ip_Name (dl_Properties source)) [] (lp_Fields item) = None"
      using Some by (simp add: layer_ok_def validate_fields_ok)
    with Cons.IH [of "lp_PublicID item # ids"] Some fill show ?thesis
      by (auto simp: Let_def bind_res_eq_Inr not_le split: option.splits)
  qed
qed auto

text \<open>
  C24. Validation accepts a plan exactly when the plan with its defaults filled in is well formed: a
  safe service name, a bounded number of layers with distinct safe public ids, each on a discovered layer with
  known source and target reference systems, mapping known fields to distinct safe targets of known types;
  and the plan it stores is that one, which it accepts again unchanged when the job is transformed.
\<close>

theorem validatePlan_accepts:
  "validatePlan cfg job (Some p) = Inr q \<longleftrightarrow> (\<exists>d. ij_Discovery job = Some d \<and> q = fill_plan d p \<and> plan_ok cfg d q
     \<and> validatePlan cfg job (Some q) = Inr q)"
proof -
  have "validatePlan cfg job (Some p) = Inr q \<longleftrightarrow> (\<exists>d. ij_Discovery job = Some d \<and> q = fill_plan d p \<and> plan_ok cfg d q)" for p q
    by (auto simp: validatePlan_def fill_plan_def plan_ok_def bind_res_eq_Inr validate_layers_iff comp_def not_less split: option.splits)
  moreover have "fill_plan d (fill_plan d p) = fill_plan d p" for d by (simp add: fill_plan_def)
  ultimately show ?thesis by auto
qed

text \<open>The geometry column a plan names is not the one the transform reads, and a name is checked without its blanks.\<close>

lemma plan_geometry_ignored: "buildTransformSQL path source (plan\<lparr>lp_GeometryColumn := g\<rparr>) = buildTransformSQL path source plan"
  by (simp add: buildTransformSQL_def Let_def geom_expr_def field_list_def targetNames_def included_def)

lemma untrimmed_name_accepted: "safeName '' roads ''"
  by (simp add: safeName_def Let_def trim_space_def is_ascii_space_def safe_char_def char_between_def code_of_def is_digit_def)

end
