(* ===== verification/Import_Files.thy ===== *)
theory Import_Files
  imports Import_Plan
begin

text \<open>
  The importer's files: retained sources below the temporary directory and the extraction of uploaded archives
  (\<^verbatim>\<open>importer/manager.go\<close>, \<^verbatim>\<open>recovery.go\<close>, \<^verbatim>\<open>source_restore.go\<close>). A tree holds files with their content and
  directories, by clean path. An archive is what the zip reader delivers: its entries with the size the header
  claims and the bytes the stream really yields. Which paths the operating system refuses to create or to close,
  and when the context ends, are arguments.
\<close>

section \<open>Trees\<close>

record tree =
  tr_files :: "(string \<times> string) list"
  tr_dirs :: "string list"

record os_env =
  os_refuses :: "string \<Rightarrow> bool"
  os_close_fails :: "string \<Rightarrow> bool"
  os_sticks :: "string \<Rightarrow> bool"

definition below :: "string \<Rightarrow> string \<Rightarrow> bool" where
  "below dir path = has_prefix path (dir @ ''/'')"

definition bytes_below :: "string \<Rightarrow> tree \<Rightarrow> int" where
  "bytes_below dir t = sum_list (map (\<lambda>f. int (length (snd f))) (filter (\<lambda>f. below dir (fst f)) (tr_files t)))"

definition outside :: "string \<Rightarrow> tree \<Rightarrow> (string \<times> string) list" where
  "outside dir t = filter (\<lambda>f. \<not> below dir (fst f)) (tr_files t)"

definition regularFile :: "tree \<Rightarrow> string \<Rightarrow> bool" where
  "regularFile t path = (path \<in> fst ` set (tr_files t))"

definition path_exists :: "tree \<Rightarrow> string \<Rightarrow> bool" where
  "path_exists t path = (path = ''/'' \<or> path \<in> fst ` set (tr_files t) \<or> path \<in> set (tr_dirs t))"

definition filepath_Dir :: "string \<Rightarrow> string" where
  "filepath_Dir path = filepath_Clean (rev (dropWhile (\<lambda>c. c \<noteq> CHR ''/'') (rev path)))"

text \<open>A path and the directories it passes through.\<close>

definition ancestors :: "string \<Rightarrow> string list" where
  "ancestors path = map (\<lambda>i. take i path) (filter (\<lambda>i. path ! i = CHR ''/'') [1..<length path]) @ [path]"

definition os_MkdirAll :: "os_env \<Rightarrow> string \<Rightarrow> tree \<Rightarrow> tree option" where
  "os_MkdirAll env path t =
     (if os_refuses env path \<or> list_ex (regularFile t) (ancestors path) then None
      else Some (t\<lparr>tr_dirs := tr_dirs t @ ancestors path\<rparr>))"

definition os_RemoveAll :: "string \<Rightarrow> tree \<Rightarrow> tree" where
  "os_RemoveAll path t =
     t\<lparr>tr_files := filter (\<lambda>f. fst f \<noteq> path \<and> \<not> below path (fst f)) (tr_files t),
       tr_dirs := filter (\<lambda>d. d \<noteq> path \<and> \<not> below path d) (tr_dirs t)\<rparr>"

text \<open>Creating a new file exclusively and writing bytes to it.\<close>

definition os_Create :: "os_env \<Rightarrow> string \<Rightarrow> string \<Rightarrow> tree \<Rightarrow> tree option" where
  "os_Create env path content t =
     (if os_refuses env path \<or> path_exists t path \<or> \<not> path_exists t (filepath_Dir path) then None
      else Some (t\<lparr>tr_files := tr_files t @ [(path, content)]\<rparr>))"

definition removeOwnedFile :: "os_env \<Rightarrow> string \<Rightarrow> tree \<Rightarrow> (string + unit) \<times> tree" where
  "removeOwnedFile env path t =
     (if regularFile t path \<and> os_sticks env path then (Inl ''remove'', t)
      else (Inr (), t\<lparr>tr_files := filter (\<lambda>f. fst f \<noteq> path) (tr_files t)\<rparr>))"

section \<open>Retained sources\<close>

definition source_limit :: "Importer \<Rightarrow> int" where
  "source_limit cfg = (if cf_MaxRetainedSourceBytes cfg = 0 then 10 * 2 ^ 30 else cf_MaxRetainedSourceBytes cfg)"

definition remainingSourceBytes :: "Importer \<Rightarrow> tree \<Rightarrow> string + int" where
  "remainingSourceBytes cfg t =
     (let used = bytes_below (cf_TemporaryDirectory cfg) t
      in if used > source_limit cfg
         then Inl (''retained import sources exceed '' @ show_int (source_limit cfg) @ '' byte budget; publish or cancel unused imports'')
         else Inr (source_limit cfg - used))"

text \<open>What a copy through \<^verbatim>\<open>io.LimitReader\<close> writes.\<close>

definition limited :: "int \<Rightarrow> string \<Rightarrow> string" where
  "limited n content = take (nat n) content"

text \<open>\<^verbatim>\<open>filepath.Abs\<close>, on a clean absolute working directory.\<close>

definition filepath_Abs :: "string \<Rightarrow> string \<Rightarrow> string" where
  "filepath_Abs cwd path = (if is_abs path then filepath_Clean path else filepath_Join cwd path)"

definition cleanupTemporarySource :: "os_env \<Rightarrow> Importer \<Rightarrow> string \<Rightarrow> string \<Rightarrow> tree \<Rightarrow> (string + unit) \<times> tree" where
  "cleanupTemporarySource env cfg cwd path t =
     (let root = filepath_Abs cwd (cf_TemporaryDirectory cfg); relative = filepath_Rel root (filepath_Abs cwd path)
      in if relative = ''.'' \<or> escapes relative then (Inr (), t)
         else let first = hd (split_on CHR ''/'' relative); dir = filepath_Join root first
              in if \<not> (has_prefix first ''upload-'' \<or> has_prefix first ''extract-'') then (Inr (), t)
                 else if os_sticks env dir then (Inl ''remove'', t)
                 else (Inr (), os_RemoveAll dir t))"

section \<open>Uploads and downloads\<close>

definition importable :: "string \<Rightarrow> bool" where
  "importable filename = (supportedSource filename \<or> equal_fold (filepath_Ext filename) ''.zip'')"

text \<open>A fresh directory of \<^verbatim>\<open>os.MkdirTemp\<close>; \<open>nonce\<close> is the random part of its name.\<close>

definition upload_dir :: "Importer \<Rightarrow> string \<Rightarrow> string" where
  "upload_dir cfg nonce = filepath_Join (cf_TemporaryDirectory cfg) (''upload-'' @ nonce)"

definition os_MkdirTemp :: "os_env \<Rightarrow> Importer \<Rightarrow> string \<Rightarrow> tree \<Rightarrow> tree option" where
  "os_MkdirTemp env cfg nonce t =
     (let dir = upload_dir cfg nonce
      in if os_refuses env dir \<or> path_exists t dir then None else Some (t\<lparr>tr_dirs := tr_dirs t @ [dir]\<rparr>))"

record upload =
  up_WorkspaceID :: string
  up_Name :: string
  up_Filename :: string
  up_CreatedBy :: string
  up_Data :: string
  up_ReadFails :: bool

text \<open>The deferred removal of the directory is the step \<open>undo\<close>. The new file is empty while the budget is read.\<close>

definition CreateUpload :: "os_env \<Rightarrow> Importer \<Rightarrow> (string \<Rightarrow> bool) \<Rightarrow> stamp \<Rightarrow> string \<Rightarrow> string \<Rightarrow> upload \<Rightarrow> import_db \<times> tree
    \<Rightarrow> (string + ImportJob) \<times> import_db \<times> tree" where
  "CreateUpload env cfg known st uuid nonce u s =
     (let db = fst s; t = snd s; filename = filepath_Base (trim_space (up_Filename u)); dir = upload_dir cfg nonce; path = filepath_Join dir filename
      in if \<not> known (up_WorkspaceID u) then (Inl ''workspace not found'', s)
         else if filename = ''.'' \<or> filename = [] then (Inl ''filename is required'', s)
         else if \<not> importable filename then (Inl ''unsupported vector import format'', s)
         else case os_MkdirTemp env cfg nonce t of
                None \<Rightarrow> (Inl ''mkdir'', s)
              | Some t1 \<Rightarrow>
                  if os_Create env path [] t1 = None then (Inl ''create'', db, os_RemoveAll dir t1)
                  else case remainingSourceBytes cfg t1 of
                    Inl e \<Rightarrow> (Inl e, db, os_RemoveAll dir t1)
                  | Inr room \<Rightarrow>
                      let limit = min (cf_MaxUploadBytes cfg) room; content = limited (limit + 1) (up_Data u); t2 = the (os_Create env path content t1)
                      in if up_ReadFails u then (Inl ''copy'', db, os_RemoveAll dir t2)
                         else if os_close_fails env path then (Inl ''close'', db, os_RemoveAll dir t2)
                         else if int (length content) > limit
                         then (Inl (''upload exceeds available retained-source budget or '' @ show_int (cf_MaxUploadBytes cfg)
                                    @ '' byte upload limit; publish or cancel unused imports''), db, os_RemoveAll dir t2)
                         else case CreateImportJob st uuid
                                     \<lparr>ic_WorkspaceID = up_WorkspaceID u, ic_Name = (if up_Name u = [] then sourceBaseName filename else up_Name u),
                                      ic_SourceKind = ''upload'', ic_SourceLocator = filename, ic_SourcePath = path, ic_SourceFilename = filename,
                                      ic_CreatedBy = up_CreatedBy u, ic_SourceRelativePath = filepath_Join (filepath_Base dir) filename\<rparr> db of
                                (Inl _, db1) \<Rightarrow> (Inl ''store'', db1, os_RemoveAll dir t2)
                              | (Inr job, db1) \<Rightarrow> (Inr job, db1, t2))"

text \<open>A job's own copy of a cached download: a hard link or a copy, the same bytes either way.\<close>

definition adoptRemoteSource :: "os_env \<Rightarrow> Importer \<Rightarrow> string \<Rightarrow> ImportJob \<Rightarrow> string \<Rightarrow> tree \<Rightarrow> (string + string \<times> string) \<times> tree" where
  "adoptRemoteSource env cfg nonce job cached t =
     (case map_of (tr_files t) cached of
        None \<Rightarrow> (Inl ''stat'', t)
      | Some content \<Rightarrow>
          (case remainingSourceBytes cfg t of
             Inl e \<Rightarrow> (Inl e, t)
           | Inr room \<Rightarrow>
               if int (length content) > room
               then (Inl ''remote source exceeds the available retained-source budget; publish or cancel unused imports'', t)
               else case os_MkdirTemp env cfg nonce t of
                      None \<Rightarrow> (Inl ''mkdir'', t)
                    | Some t1 \<Rightarrow>
                        let dir = upload_dir cfg nonce; base = filepath_Base (ij_SourceFilename job);
                            name = (if importable base then base else filepath_Base cached); path = filepath_Join dir name
                        in case os_Create env path content t1 of
                             None \<Rightarrow> (Inl ''copy'', os_RemoveAll dir t1)
                           | Some t2 \<Rightarrow> (Inr (path, filepath_Join (filepath_Base dir) name), t2)))"

section \<open>Archives\<close>

record ZipEntry =
  ze_Name :: string
  ze_IsDir :: bool
  ze_UncompressedSize64 :: nat
  ze_Opens :: bool
  ze_Data :: string
  ze_ReadFails :: bool

definition expanded_error :: "Importer \<Rightarrow> string" where
  "expanded_error cfg = ''archive exceeds available retained-source budget or '' @ show_int (cf_MaxExpandedBytes cfg) @ '' expanded-byte limit''"

definition max_int64 :: int where
  "max_int64 = 2 ^ 63 - 1"

definition unsafe_path :: "string \<Rightarrow> bool" where
  "unsafe_path clean = (clean = ''.'' \<or> is_abs clean \<or> has_prefix clean ''../'')"

text \<open>One file of an archive; the budget left and the candidates so far are the loop's state.\<close>

definition extract_file :: "os_env \<Rightarrow> Importer \<Rightarrow> string \<Rightarrow> int \<Rightarrow> ZipEntry \<Rightarrow> int \<times> string list \<Rightarrow> tree \<Rightarrow> (string + int \<times> string list) \<times> tree" where
  "extract_file env cfg destination room e st t =
     (let content = limited (if room < max_int64 then room + 1 else room) (ze_Data e); written = int (length content)
      in case os_Create env destination content t of
           None \<Rightarrow> (Inl ''create'', t)
         | Some t1 \<Rightarrow>
             if ze_ReadFails e then (Inl ''copy'', t1)
             else if written > room then (Inl (expanded_error cfg), t1)
             else if os_close_fails env destination then (Inl ''close'', t1)
             else (Inr (fst st + written, if supportedSource destination then snd st @ [destination] else snd st), t1))"

definition extract_entry :: "os_env \<Rightarrow> Importer \<Rightarrow> string \<Rightarrow> int \<Rightarrow> ZipEntry \<Rightarrow> int \<times> string list \<Rightarrow> tree \<Rightarrow> (string + int \<times> string list) \<times> tree" where
  "extract_entry env cfg root limit e st t =
     (let clean = filepath_Clean (ze_Name e); destination = filepath_Join root clean; room = limit - fst st
      in if unsafe_path clean then (Inl ''archive contains unsafe path'', t)
         else if ze_IsDir e
         then (case os_MkdirAll env destination t of None \<Rightarrow> (Inl ''mkdir'', t) | Some t1 \<Rightarrow> (Inr st, t1))
         else if room < 0 \<or> int (ze_UncompressedSize64 e) > room then (Inl (expanded_error cfg), t)
         else case os_MkdirAll env (filepath_Dir destination) t of
                None \<Rightarrow> (Inl ''mkdir'', t)
              | Some t1 \<Rightarrow> if \<not> ze_Opens e then (Inl ''open entry'', t1) else extract_file env cfg destination room e st t1)"

fun extract_entries :: "os_env \<Rightarrow> (nat \<Rightarrow> bool) \<Rightarrow> Importer \<Rightarrow> string \<Rightarrow> int \<Rightarrow> ZipEntry list \<Rightarrow> int \<times> string list \<Rightarrow> tree \<Rightarrow> (string + int \<times> string list) \<times> tree" where
  "extract_entries env ended cfg root limit [] st t = (Inr st, t)"
| "extract_entries env ended cfg root limit (e # es) st t =
     (if ended (length es) then (Inl ''context ended'', t)
      else case extract_entry env cfg root limit e st t of
             (Inl err, t1) \<Rightarrow> (Inl err, t1)
           | (Inr st1, t1) \<Rightarrow> extract_entries env ended cfg root limit es st1 t1)"

definition is_shapefile :: "string \<Rightarrow> bool" where
  "is_shapefile path = equal_fold (filepath_Ext path) ''.shp''"

definition choose_candidate :: "string list \<Rightarrow> string + string" where
  "choose_candidate candidates =
     (case find is_shapefile (sort candidates) of
        Some c \<Rightarrow> Inr c
      | None \<Rightarrow>
          (case candidates of
             [] \<Rightarrow> Inl ''archive contains no supported vector source''
           | [c] \<Rightarrow> Inr c
           | _ \<Rightarrow> Inl ''archive contains multiple vector sources; package one dataset per upload''))"

text \<open>An archive the reader cannot open is \<^const>\<open>None\<close>. A directory left by an earlier attempt is removed first; on an error the new one is.\<close>

definition extract_root :: "Importer \<Rightarrow> string \<Rightarrow> string" where
  "extract_root cfg jobID = filepath_Join (cf_TemporaryDirectory cfg) (''extract-'' @ jobID)"

definition extractArchive :: "os_env \<Rightarrow> (nat \<Rightarrow> bool) \<Rightarrow> Importer \<Rightarrow> string \<Rightarrow> ZipEntry list option \<Rightarrow> tree \<Rightarrow> (string + string) \<times> tree" where
  "extractArchive env ended cfg jobID archive t =
     (case archive of
        None \<Rightarrow> (Inl ''open zip'', t)
      | Some entries \<Rightarrow>
          if int (length entries) > cf_MaxArchiveFiles cfg
          then (Inl (''archive exceeds '' @ show_int (cf_MaxArchiveFiles cfg) @ '' file limit''), t)
          else let root = extract_root cfg jobID; t0 = os_RemoveAll root t
               in case os_MkdirAll env root t0 of
                    None \<Rightarrow> (Inl ''mkdir'', t0)
                  | Some t1 \<Rightarrow>
                      (case remainingSourceBytes cfg t1 of
                         Inl e \<Rightarrow> (Inl e, os_RemoveAll root t1)
                       | Inr room \<Rightarrow>
                           (case extract_entries env ended cfg root (min (cf_MaxExpandedBytes cfg) room) entries (0, []) t1 of
                              (Inl e, t2) \<Rightarrow> (Inl e, os_RemoveAll root t2)
                            | (Inr (_, candidates), t2) \<Rightarrow>
                                (case choose_candidate candidates of
                                   Inl e \<Rightarrow> (Inl e, os_RemoveAll root t2)
                                 | Inr c \<Rightarrow> (Inr c, t2)))))"

section \<open>Paths\<close>

lemma split_on_parts: "p \<in> set (split_on c s) \<Longrightarrow> c \<notin> set p"
proof (induction c s arbitrary: p rule: split_on.induct)
  case (2 c x xs)
  show ?case
  proof (cases "x = c")
    case False
    obtain q qs where q: "split_on c xs = q # qs" using split_on_nonempty by (cases "split_on c xs") auto
    with 2 False show ?thesis by auto
  qed (use 2 in auto)
qed simp

lemma clean_relative_shape:
  assumes "\<forall>p \<in> set ps. CHR ''/'' \<notin> set p" "\<forall>q \<in> set qs. proper_name q"
  shows "\<exists>k' qs'. clean_parts False (qs @ replicate k ''..'') ps = replicate k' ''..'' @ qs' \<and> (\<forall>q \<in> set qs'. proper_name q)"
  using assms
proof (induction ps arbitrary: qs k)
  case Nil
  then show ?case by (intro exI [of _ k] exI [of _ "rev qs"]) simp
next
  case (Cons p ps)
  consider "p = [] \<or> p = ''.''" | "p = ''..''" "qs = []" | q qs1 where "p = ''..''" "qs = q # qs1" | "proper_name p"
    using Cons.prems by (cases qs) (auto simp: proper_name_def)
  then show ?case
  proof cases
    case 2
    with Cons.IH [of "[]" "Suc k"] Cons.prems show ?thesis by (cases k) auto
  next
    case 3
    with Cons.IH [of qs1 k] Cons.prems show ?thesis by (auto simp: proper_name_def)
  next
    case 4
    with Cons.IH [of "p # qs" k] Cons.prems show ?thesis by (auto simp: proper_name_def)
  qed (use Cons in auto)
qed

text \<open>A cleaned relative path climbs first and then descends.\<close>

lemma clean_relative:
  assumes "\<not> is_abs s"
  obtains k qs where "\<forall>q \<in> set qs. proper_name q"
    "filepath_Clean s = (if k = 0 \<and> qs = [] then ''.'' else join ''/'' (replicate k ''..'' @ qs))"
proof -
  obtain k qs where "clean_parts False [] (split_on CHR ''/'' s) = replicate k ''..'' @ qs" "\<forall>q \<in> set qs. proper_name q"
    using clean_relative_shape [of "split_on CHR ''/'' s" "[]" 0] split_on_parts by fastforce
  with assms that [of qs k] show thesis by (simp add: filepath_Clean_def Let_def)
qed

lemma join_Cons_prefix: "ps \<noteq> [] \<Longrightarrow> join sep (p # ps) = p @ sep @ join sep ps"
  by (cases ps) auto

text \<open>An archive path that is not refused names something below the directory, or its parent.\<close>

lemma safe_entry_path:
  assumes "\<not> unsafe_path (filepath_Clean s)"
  shows "filepath_Clean s = ''..'' \<or> (\<exists>qs. qs \<noteq> [] \<and> (\<forall>q \<in> set qs. proper_name q) \<and> filepath_Clean s = join ''/'' qs)"
proof -
  have rel: "\<not> is_abs s" using assms by (auto simp: unsafe_path_def filepath_Clean_def Let_def is_abs_def has_prefix_def)
  obtain k qs where qs: "\<forall>q \<in> set qs. proper_name q"
    "filepath_Clean s = (if k = 0 \<and> qs = [] then ''.'' else join ''/'' (replicate k ''..'' @ qs))" by (rule clean_relative [OF rel])
  show ?thesis
  proof (cases k)
    case 0
    with qs assms show ?thesis by (cases "qs = []") (auto simp: unsafe_path_def)
  next
    case (Suc j)
    show ?thesis
    proof (cases "replicate j ''..'' @ qs = []")
      case True
      with qs Suc show ?thesis by simp
    next
      case False
      with qs Suc join_Cons_prefix [OF False, of "''/''" "''..''"] assms show ?thesis by (auto simp: unsafe_path_def has_prefix_def)
    qed
  qed
qed

definition abs_dir :: "string list \<Rightarrow> string" where
  "abs_dir rs = CHR ''/'' # join ''/'' rs"

lemma abs_dir_below:
  assumes "rs \<noteq> []" "qs \<noteq> []"
  shows "below (abs_dir rs) (abs_dir (rs @ qs))"
  using assms join_append [of rs qs "''/''"] by (simp add: below_def abs_dir_def has_prefix_def)

lemma join_parent:
  assumes "\<forall>r \<in> set (rs @ [x]). proper_name r"
  shows "filepath_Join (abs_dir (rs @ [x])) ''..'' = abs_dir rs"
proof -
  have "CHR ''/'' # join ''/'' (rs @ [x]) @ ''/'' @ ''..'' = join ''/'' ([[]] @ (rs @ [x]) @ [''..''])"
    using join_append [of "rs @ [x]" "[''..'']" "''/''"] join_Cons_prefix [of "(rs @ [x]) @ [''..'']" "''/''" "[]"] by simp
  moreover have "split_on CHR ''/'' (join ''/'' ([[]] @ (rs @ [x]) @ [''..''])) = [[]] @ (rs @ [x]) @ [''..'']"
    by (rule split_on_join_plain) (use assms in \<open>auto simp: proper_name_def\<close>)
  moreover have "clean_parts True [] ([[]] @ (rs @ [x]) @ [''..'']) = rs"
  proof -
    have "clean_parts True acc ((rs @ [x]) @ [''..'']) = rev acc @ rs" if "\<forall>r \<in> set (rs @ [x]). proper_name r" for acc
      using that by (induction rs arbitrary: acc) (auto simp: proper_name_def)
    from this [of "[]"] assms show ?thesis by simp
  qed
  moreover have "is_abs (CHR ''/'' # join ''/'' (rs @ [x]) @ ''/'' @ ''..'')" by (simp add: is_abs_def has_prefix_def)
  ultimately show ?thesis unfolding filepath_Join_def filepath_Clean_def Let_def abs_dir_def append_Cons by (simp only: if_True)
qed

section \<open>Extraction stays below its directory\<close>

lemma MkdirAll_some:
  assumes "os_MkdirAll env p t = Some t'"
  shows "tr_files t' = tr_files t" "set (ancestors p) \<subseteq> set (tr_dirs t')" "path_exists t q \<Longrightarrow> path_exists t' q"
  using assms by (auto simp: os_MkdirAll_def path_exists_def split: if_splits)

lemma same_files:
  "tr_files t' = tr_files t \<Longrightarrow> outside d t' = outside d t" "tr_files t' = tr_files t \<Longrightarrow> bytes_below d t' = bytes_below d t"
  "tr_files t' = tr_files t \<Longrightarrow> regularFile t' = regularFile t"
  by (auto simp: outside_def bytes_below_def regularFile_def fun_eq_iff)

lemma Create_some:
  assumes "os_Create env p content t = Some t'"
  shows "\<not> path_exists t p" "tr_files t' = tr_files t @ [(p, content)]" "path_exists t q \<Longrightarrow> path_exists t' q"
  using assms by (auto simp: os_Create_def path_exists_def split: if_splits)

lemma added_file:
  assumes "tr_files t' = tr_files t @ [(p, content)]" "below d p"
  shows "outside d t' = outside d t" "bytes_below d t' = bytes_below d t + int (length content)"
    "regularFile t' p" "regularFile t q \<Longrightarrow> regularFile t' q"
  using assms by (auto simp: outside_def bytes_below_def regularFile_def)

definition extracted :: "string \<Rightarrow> tree \<Rightarrow> string \<Rightarrow> bool" where
  "extracted root t c = (regularFile t c \<and> below root c \<and> supportedSource c)"

lemma destination_below:
  assumes "\<forall>r \<in> set (rs @ [x]). proper_name r" "\<not> unsafe_path (filepath_Clean s)"
  shows "filepath_Join (abs_dir (rs @ [x])) (filepath_Clean s) = abs_dir rs
     \<or> below (abs_dir (rs @ [x])) (filepath_Join (abs_dir (rs @ [x])) (filepath_Clean s))"
  using safe_entry_path [OF assms(2)]
proof (elim disjE exE conjE)
  assume "filepath_Clean s = ''..''"
  then show ?thesis using join_parent [OF assms(1)] by simp
next
  fix qs assume qs: "qs \<noteq> []" "\<forall>q \<in> set qs. proper_name q" "filepath_Clean s = join ''/'' qs"
  have "filepath_Join (abs_dir (rs @ [x])) (filepath_Clean s) = abs_dir ((rs @ [x]) @ qs)"
    using root_join(1) [OF assms(1) qs(2, 1)] qs(3) by (simp add: abs_dir_def)
  then show ?thesis using abs_dir_below [of "rs @ [x]" qs] qs(1) by simp
qed

text \<open>What holds between two entries, and what an entry keeps even when it fails.\<close>

definition extracting :: "string list \<Rightarrow> string \<Rightarrow> int \<Rightarrow> int \<times> string list \<Rightarrow> tree \<Rightarrow> bool" where
  "extracting rs root limit st t =
     (path_exists t (abs_dir rs) \<and> bytes_below root t = fst st \<and> (st = (0, []) \<or> fst st \<le> limit) \<and> list_all (extracted root t) (snd st))"

definition confined :: "string list \<Rightarrow> string \<Rightarrow> int \<Rightarrow> tree \<Rightarrow> (string + int \<times> string list) \<times> tree \<Rightarrow> bool" where
  "confined rs root limit t out =
     (outside root (snd out) = outside root t \<and> (case fst out of Inl _ \<Rightarrow> True | Inr st \<Rightarrow> extracting rs root limit st (snd out)))"

lemma extracting_same:
  assumes "extracting rs root limit st t" "tr_files t' = tr_files t" "\<And>q. path_exists t q \<Longrightarrow> path_exists t' q"
  shows "extracting rs root limit st t'" "outside root t' = outside root t"
  using assms(1,3) same_files [OF assms(2)] by (simp_all add: extracting_def extracted_def [abs_def])

lemma extract_file_confined:
  assumes "extracting rs root limit st t" "d = abs_dir rs \<or> below root d"
  shows "confined rs root limit t (extract_file env cfg d (limit - fst st) e st t)"
proof (cases "os_Create env d (limited (if limit - fst st < max_int64 then limit - fst st + 1 else limit - fst st) (ze_Data e)) t")
  case None
  then show ?thesis by (simp add: extract_file_def confined_def Let_def)
next
  case (Some t1)
  have "below root d" using assms Create_some(1) [OF Some] by (auto simp: extracting_def)
  note added = added_file [OF Create_some(2) [OF Some] this]
  have "list_all (extracted root t1) (if supportedSource d then snd st @ [d] else snd st)"
    using assms(1) added \<open>below root d\<close> by (auto simp: extracting_def extracted_def list_all_iff)
  with Some added assms(1) Create_some(3) [OF Some] show ?thesis
    by (auto simp: extract_file_def confined_def extracting_def Let_def)
qed

lemma extract_entry_confined:
  assumes "\<forall>r \<in> set (rs @ [x]). proper_name r" "root = abs_dir (rs @ [x])" "extracting rs root limit st t"
  shows "confined rs root limit t (extract_entry env cfg root limit e st t)"
proof -
  let ?d = "filepath_Join root (filepath_Clean (ze_Name e))"
  have same: "confined rs root limit t (Inl err, t)" for err by (simp add: confined_def)
  have mk: "confined rs root limit t (Inl err, t1)" "confined rs root limit t (Inr st, t1)"
      "extracting rs root limit st t1" "outside root t1 = outside root t" if "os_MkdirAll env p t = Some t1" for err p t1
    using extracting_same [OF assms(3) MkdirAll_some(1) [OF that] MkdirAll_some(3) [OF that]] by (simp_all add: confined_def)
  have stored: "confined rs root limit t (extract_file env cfg ?d (limit - fst st) e st t1)"
    if "\<not> unsafe_path (filepath_Clean (ze_Name e))" "os_MkdirAll env p t = Some t1" for p t1
    using extract_file_confined [OF mk(3) [OF that(2)]] destination_below [OF assms(1) that(1)] assms(2) mk(4) [OF that(2)]
    by (simp add: confined_def)
  show ?thesis unfolding extract_entry_def Let_def using same mk stored by (simp split: option.split)
qed

lemma extract_entries_confined:
  assumes "\<forall>r \<in> set (rs @ [x]). proper_name r" "root = abs_dir (rs @ [x])" "extracting rs root limit st t"
  shows "confined rs root limit t (extract_entries env ended cfg root limit es st t)"
  using assms(3)
proof (induction es arbitrary: st t)
  case (Cons e es)
  obtain r t1 where out: "extract_entry env cfg root limit e st t = (r, t1)" by fastforce
  then have "confined rs root limit t (r, t1)" using extract_entry_confined [OF assms(1,2) Cons.prems] by metis
  note now = this
  have step: "extract_entries env ended cfg root limit (e # es) st t =
      (if ended (length es) then (Inl ''context ended'', t)
       else case r of Inl err \<Rightarrow> (Inl err, t1) | Inr st1 \<Rightarrow> extract_entries env ended cfg root limit es st1 t1)"
    by (simp only: extract_entries.simps out prod.case)
  show ?case unfolding step using now Cons.IH [of _ t1]
    by (cases r; cases "ended (length es)") (auto simp: confined_def split: sum.splits)
qed (simp add: confined_def)

lemma RemoveAll_files:
  "(p, c) \<in> set (tr_files (os_RemoveAll root t)) \<longleftrightarrow> (p, c) \<in> set (tr_files t) \<and> p \<noteq> root \<and> \<not> below root p"
  by (auto simp: os_RemoveAll_def)

lemma outside_files: "\<not> below root p \<Longrightarrow> outside root t' = outside root t \<Longrightarrow> (p, c) \<in> set (tr_files t') \<longleftrightarrow> (p, c) \<in> set (tr_files t)"
  by (auto simp: outside_def dest!: arg_cong [where f = set])

lemma bytes_RemoveAll [simp]: "bytes_below root (os_RemoveAll root t) = 0"
  by (simp add: bytes_below_def os_RemoveAll_def)

text \<open>The directory of an extraction, and the tree an extraction starts in.\<close>

lemma extract_root_eq:
  assumes "cf_TemporaryDirectory cfg = abs_dir rs" "\<forall>r \<in> set rs. proper_name r" "CHR ''/'' \<notin> set jobID"
  shows "extract_root cfg jobID = abs_dir (rs @ [''extract-'' @ jobID])" "\<forall>r \<in> set (rs @ [''extract-'' @ jobID]). proper_name r"
proof -
  have x: "proper_name (''extract-'' @ jobID)" using assms(3) by (simp add: proper_name_def)
  with assms(2) show "\<forall>r \<in> set (rs @ [''extract-'' @ jobID]). proper_name r" by simp
  show "extract_root cfg jobID = abs_dir (rs @ [''extract-'' @ jobID])"
    using root_join(1) [of rs "[''extract-'' @ jobID]"] x assms by (simp add: extract_root_def abs_dir_def)
qed

lemma parent_ancestor: "abs_dir rs = ''/'' \<or> abs_dir rs \<in> set (ancestors (abs_dir (rs @ [x])))"
proof (cases "rs = []")
  case False
  have eq: "abs_dir (rs @ [x]) = abs_dir rs @ ''/'' @ x" using join_append [of rs "[x]" "''/''"] False by (simp add: abs_dir_def)
  have "abs_dir rs = take (length (abs_dir rs)) (abs_dir (rs @ [x]))" "abs_dir (rs @ [x]) ! length (abs_dir rs) = CHR ''/''"
    "length (abs_dir rs) < length (abs_dir (rs @ [x]))" unfolding eq by simp_all
  moreover have "1 \<le> length (abs_dir rs)" by (simp add: abs_dir_def)
  ultimately show ?thesis unfolding ancestors_def by fastforce
qed (simp add: abs_dir_def)

lemma extracting_start:
  assumes "os_MkdirAll env (abs_dir (rs @ [x])) (os_RemoveAll (abs_dir (rs @ [x])) t) = Some t1"
  shows "extracting rs (abs_dir (rs @ [x])) limit (0, []) t1"
proof -
  have "path_exists t1 (abs_dir rs)" using MkdirAll_some(2) [OF assms] parent_ancestor [of rs x] by (auto simp: path_exists_def)
  then show ?thesis using same_files(2) [OF MkdirAll_some(1) [OF assms]] by (simp add: extracting_def)
qed

lemma choose_candidate_in: "choose_candidate cs = Inr c \<Longrightarrow> c \<in> set cs"
  by (auto simp: choose_candidate_def split: option.splits list.splits dest: find_SomeD)

text \<open>The tree and result of an extraction, by where it ended.\<close>

lemma extractArchive_cases:
  assumes "cf_TemporaryDirectory cfg = abs_dir rs" "\<forall>r \<in> set rs. proper_name r" "CHR ''/'' \<notin> set jobID"
    and "extractArchive env ended cfg jobID archive t = (r, t')"
  defines "root \<equiv> extract_root cfg jobID"
  obtains (untouched) e where "r = Inl e" "t' = t"
  | (unmade) e where "r = Inl e" "t' = os_RemoveAll root t"
  | (undone) e t2 where "r = Inl e" "t' = os_RemoveAll root t2" "outside root t2 = outside root (os_RemoveAll root t)"
  | (extracted) p st t1 where "r = Inr p" "p \<in> set (snd st)" "outside root t' = outside root (os_RemoveAll root t)"
      "bytes_below (cf_TemporaryDirectory cfg) t1 = bytes_below (cf_TemporaryDirectory cfg) (os_RemoveAll root t)"
      "extracting rs root (min (cf_MaxExpandedBytes cfg) (source_limit cfg - bytes_below (cf_TemporaryDirectory cfg) t1)) st t'"
proof (cases "archive = None \<or> int (length (the archive)) > cf_MaxArchiveFiles cfg")
  case True
  with assms(4) untouched show thesis by (auto simp: extractArchive_def split: option.splits)
next
  case False
  then obtain entries where entries: "archive = Some entries" "\<not> int (length entries) > cf_MaxArchiveFiles cfg" by auto
  show thesis
  proof (cases "os_MkdirAll env root (os_RemoveAll root t)")
    case None
    with assms(4) entries unmade show thesis by (auto simp: extractArchive_def root_def Let_def)
  next
    case (Some t1)
    note files = MkdirAll_some(1) [OF Some]
    show thesis
    proof (cases "remainingSourceBytes cfg t1")
      case (Inl e)
      with assms(4) entries Some undone [of e t1] same_files(1) [OF files] show thesis
        by (auto simp: extractArchive_def root_def Let_def)
    next
      case (Inr room)
      let ?limit = "min (cf_MaxExpandedBytes cfg) room"
      note eq = extract_root_eq [OF assms(1-3), folded root_def]
      have room: "room = source_limit cfg - bytes_below (cf_TemporaryDirectory cfg) t1"
        using Inr by (auto simp: remainingSourceBytes_def Let_def split: if_splits)
      obtain q t2 where out: "extract_entries env ended cfg root ?limit entries (0, []) t1 = (q, t2)" by fastforce
      have conf: "confined rs root ?limit t1 (q, t2)"
        using extract_entries_confined [OF eq(2,1), of ?limit "(0, [])" t1 env ended cfg entries] out
          extracting_start [of env rs "''extract-'' @ jobID" t t1 ?limit] Some eq(1) by simp
      have outs: "outside root t2 = outside root (os_RemoveAll root t)" using conf same_files(1) [OF files] by (simp add: confined_def)
      have res: "(r, t') = (case q of Inl e \<Rightarrow> (Inl e, os_RemoveAll root t2)
          | Inr st \<Rightarrow> (case choose_candidate (snd st) of Inl e \<Rightarrow> (Inl e, os_RemoveAll root t2) | Inr c \<Rightarrow> (Inr c, t2)))"
        using assms(4) entries Some Inr out by (auto simp: extractArchive_def root_def Let_def split: sum.splits)
      show thesis
      proof (cases q)
        case (Inl e)
        with res undone [of e t2] outs show thesis by simp
      next
        case (Inr st)
        then show thesis
        proof (cases "choose_candidate (snd st)")
          case (Inl e)
          with Inr res undone [of e t2] outs show thesis by simp
        next
          case c: (Inr c)
          with Inr res have "r = Inr c" "t' = t2" by simp_all
          with extracted [of c st t1] choose_candidate_in [OF c] outs conf Inr room same_files(2) [OF files] show thesis
            by (simp add: confined_def)
        qed
      qed
    qed
  qed
qed

text \<open>
  C21. Whatever names the entries of an archive carry and whatever sizes they claim, an extraction writes only below the
  job's own directory: every other file is left as it was. A failed extraction leaves nothing there; one that
  succeeds leaves at most the configured number of bytes, however many the streams yield, and returns a
  supported source among the files written.
\<close>

theorem archive_stays_below_directory:
  assumes "cf_TemporaryDirectory cfg = abs_dir rs" "\<forall>r \<in> set rs. proper_name r" "CHR ''/'' \<notin> set jobID"
    and "extractArchive env ended cfg jobID archive t = (r, t')"
  shows "(\<forall>p c. p \<noteq> extract_root cfg jobID \<and> \<not> below (extract_root cfg jobID) p \<longrightarrow> (p, c) \<in> set (tr_files t') \<longleftrightarrow> (p, c) \<in> set (tr_files t))
     \<and> (case r of
          Inl _ \<Rightarrow> t' = t \<or> (\<forall>p c. below (extract_root cfg jobID) p \<longrightarrow> (p, c) \<notin> set (tr_files t'))
        | Inr p \<Rightarrow> regularFile t' p \<and> below (extract_root cfg jobID) p \<and> supportedSource p
                   \<and> bytes_below (extract_root cfg jobID) t' \<le> cf_MaxExpandedBytes cfg)"
  using assms
proof (cases rule: extractArchive_cases)
  case (undone e t2)
  have "(p, c) \<in> set (tr_files t2) \<longleftrightarrow> (p, c) \<in> set (tr_files (os_RemoveAll (extract_root cfg jobID) t))"
    if "\<not> below (extract_root cfg jobID) p" for p c using outside_files [OF that undone(3)] .
  then show ?thesis unfolding undone(1,2) by (simp add: RemoveAll_files)
next
  case (extracted p st t1)
  have "(q, c) \<in> set (tr_files t') \<longleftrightarrow> (q, c) \<in> set (tr_files (os_RemoveAll (extract_root cfg jobID) t))"
    if "\<not> below (extract_root cfg jobID) q" for q c using outside_files [OF that extracted(3)] .
  moreover have "Import_Files.extracted (extract_root cfg jobID) t' p" "bytes_below (extract_root cfg jobID) t' \<le> cf_MaxExpandedBytes cfg"
    using extracted(2,5) by (auto simp: extracting_def list_all_iff)
  ultimately show ?thesis unfolding extracted(1) by (simp add: RemoveAll_files extracted_def)
qed (simp_all add: RemoveAll_files)

definition quiet_os :: os_env where
  "quiet_os = \<lparr>os_refuses = (\<lambda>_. False), os_close_fails = (\<lambda>_. False), os_sticks = (\<lambda>_. False)\<rparr>"

definition demo_importer :: Importer where
  "demo_importer = \<lparr>cf_Enabled = True, cf_Root = ''/m'', cf_TemporaryDirectory = ''/t'', cf_WorkerCount = 1, cf_MaxConcurrentJobs = 1, cf_MaxUploadBytes = 9,
     cf_MaxRetainedSourceBytes = 12, cf_UploadTimeoutSec = 1, cf_UploadIdleTimeoutSec = 1, cf_MaxSourceBytes = 9, cf_MaxExpandedBytes = 6, cf_MaxArchiveFiles = 5,
     cf_MaxLayers = 3, cf_MaxFeatures = 9, cf_PreviewFeatures = 5, cf_TransformTimeoutSec = 1, cf_MaxRetries = 2, cf_ShutdownTimeoutSec = 1\<rparr>"

definition demo_entry :: "string \<Rightarrow> string \<Rightarrow> ZipEntry" where
  "demo_entry name content = \<lparr>ze_Name = name, ze_IsDir = False, ze_UncompressedSize64 = 1, ze_Opens = True, ze_Data = content, ze_ReadFails = False\<rparr>"

definition demo_tree :: tree where
  "demo_tree = \<lparr>tr_files = [(''/t/upload-7/a.zip'', ''zip'')], tr_dirs = [''/t'', ''/t/upload-7'']\<rparr>"

lemma archive_demo:
  "extractArchive quiet_os (\<lambda>_. False) demo_importer ''1'' (Some [demo_entry ''d/../r.shp'' ''abc'', demo_entry ''r.dbf'' ''de'']) demo_tree
   = (Inr ''/t/extract-1/r.shp'', \<lparr>tr_files = [(''/t/upload-7/a.zip'', ''zip''), (''/t/extract-1/r.shp'', ''abc''), (''/t/extract-1/r.dbf'', ''de'')],
        tr_dirs = [''/t'', ''/t/upload-7'', ''/t'', ''/t/extract-1'', ''/t'', ''/t/extract-1'', ''/t'', ''/t/extract-1'']\<rparr>)"
  by code_simp

lemma archive_stays_below_directory_witness:
  "supportedSource ''/t/extract-1/r.shp'' \<and> bytes_below (extract_root demo_importer ''1'')
     (snd (extractArchive quiet_os (\<lambda>_. False) demo_importer ''1'' (Some [demo_entry ''d/../r.shp'' ''abc'', demo_entry ''r.dbf'' ''de'']) demo_tree)) \<le> 6"
proof -
  have "cf_TemporaryDirectory demo_importer = abs_dir [''t'']" "cf_MaxExpandedBytes demo_importer = 6" by (simp_all add: demo_importer_def abs_dir_def)
  with archive_stays_below_directory [OF _ _ _ archive_demo, of "[''t'']"] show ?thesis
    unfolding archive_demo by (simp add: proper_name_def)
qed

section \<open>The budget of retained sources\<close>

lemma bytes_append: "tr_files t' = tr_files t @ [(p, content)] \<Longrightarrow> bytes_below d t' \<le> bytes_below d t + int (length content)"
  by (simp add: bytes_below_def)

lemma bytes_filter:
  assumes "tr_files t' = filter P (tr_files t)"
  shows "bytes_below d t' \<le> bytes_below d t"
proof -
  have "sum_list (map (\<lambda>f. int (length (snd f))) (filter Q (filter P fs))) \<le> sum_list (map (\<lambda>f. int (length (snd f))) (filter Q fs))" for Q fs
    by (induction fs) auto
  then show ?thesis by (simp add: bytes_below_def assms)
qed

lemma bytes_RemoveAll_le: "bytes_below d (os_RemoveAll r t) \<le> bytes_below d t"
  by (rule bytes_filter) (simp add: os_RemoveAll_def)

lemma bytes_undo:
  assumes "tr_files t2 = tr_files t1 @ [(p, content)]" "below r p"
  shows "bytes_below d (os_RemoveAll r t2) \<le> bytes_below d t1"
  by (rule bytes_filter [where P = "\<lambda>f. fst f \<noteq> r \<and> \<not> below r (fst f)"]) (simp add: os_RemoveAll_def assms)

lemma MkdirTemp_files: "os_MkdirTemp env cfg nonce t = Some t1 \<Longrightarrow> tr_files t1 = tr_files t"
  by (auto simp: os_MkdirTemp_def Let_def split: if_splits)

lemma takeWhile_free: "x \<notin> set (takeWhile (\<lambda>c. c \<noteq> x) xs)"
  by (auto dest: set_takeWhileD)

lemma importable_proper:
  assumes "importable (filepath_Base s)"
  shows "proper_name (filepath_Base s)"
proof -
  have "CHR ''/'' \<notin> set (filepath_Base s)" if "filepath_Base s \<noteq> ''/''"
    using that by (auto simp: filepath_Base_def last_part_def Let_def takeWhile_free split: if_splits)
  moreover have "\<not> importable []" "\<not> importable ''/''" "\<not> importable ''.''" "\<not> importable ''..''"
    by (simp_all add: importable_def supportedSource_def filepath_Ext_def last_part_def Let_def equal_fold_def to_lower_def lower_char_def char_between_def code_of_def)
  ultimately show ?thesis using assms by (metis proper_name_def)
qed

lemma upload_path_below:
  assumes "cf_TemporaryDirectory cfg = abs_dir rs" "\<forall>r \<in> set rs. proper_name r" "CHR ''/'' \<notin> set nonce" "proper_name name"
  shows "below (upload_dir cfg nonce) (filepath_Join (upload_dir cfg nonce) name)"
proof -
  have x: "proper_name (''upload-'' @ nonce)" using assms(3) by (simp add: proper_name_def)
  have dir: "upload_dir cfg nonce = abs_dir (rs @ [''upload-'' @ nonce])"
    using root_join(1) [of rs "[''upload-'' @ nonce]"] x assms by (simp add: upload_dir_def abs_dir_def)
  have "filepath_Join (upload_dir cfg nonce) name = abs_dir ((rs @ [''upload-'' @ nonce]) @ [name])"
    using root_join(1) [of "rs @ [''upload-'' @ nonce]" "[name]"] x assms unfolding dir by (simp add: abs_dir_def)
  then show ?thesis unfolding dir using abs_dir_below [of "rs @ [''upload-'' @ nonce]" "[name]"] by simp
qed

lemma remaining_room: "remainingSourceBytes cfg t = Inr room \<Longrightarrow> bytes_below (cf_TemporaryDirectory cfg) t + room = source_limit cfg"
  by (auto simp: remainingSourceBytes_def Let_def split: if_splits)

lemma CreateUpload_budget:
  assumes "cf_TemporaryDirectory cfg = abs_dir rs" "\<forall>r \<in> set rs. proper_name r" "CHR ''/'' \<notin> set nonce"
    and "bytes_below (cf_TemporaryDirectory cfg) (snd s) \<le> source_limit cfg"
  shows "bytes_below (cf_TemporaryDirectory cfg) (snd (snd (CreateUpload env cfg known st uuid nonce u s))) \<le> source_limit cfg"
proof -
  let ?tmp = "cf_TemporaryDirectory cfg" and ?dir = "upload_dir cfg nonce" and ?name = "filepath_Base (trim_space (up_Filename u))"
  let ?path = "filepath_Join ?dir ?name"
  show ?thesis
  proof (cases "known (up_WorkspaceID u) \<and> \<not> (?name = ''.'' \<or> ?name = []) \<and> importable ?name")
    case False
    then show ?thesis using assms(4) by (auto simp: CreateUpload_def Let_def)
  next
    case True
    note below = upload_path_below [OF assms(1-3) importable_proper]
    show ?thesis
    proof (cases "os_MkdirTemp env cfg nonce (snd s)")
      case None
      with assms(4) True show ?thesis by (simp add: CreateUpload_def Let_def)
    next
      case (Some t1)
      have t1: "bytes_below ?tmp t1 \<le> source_limit cfg" using assms(4) same_files(2) [OF MkdirTemp_files [OF Some]] by simp
      then have undo1: "bytes_below ?tmp (os_RemoveAll ?dir t1) \<le> source_limit cfg" using bytes_RemoveAll_le order_trans by blast
      show ?thesis
      proof (cases "os_Create env ?path [] t1 = None")
        case created: True
        show ?thesis using True Some undo1 created by (simp add: CreateUpload_def Let_def)
      next
        case created: False
        show ?thesis
        proof (cases "remainingSourceBytes cfg t1")
          case (Inl e)
          with True Some undo1 created show ?thesis by (simp add: CreateUpload_def Let_def)
        next
          case (Inr room)
          let ?limit = "min (cf_MaxUploadBytes cfg) room"
          let ?content = "limited (?limit + 1) (up_Data u)"
          let ?t2 = "the (os_Create env ?path ?content t1)"
          have files: "tr_files ?t2 = tr_files t1 @ [(?path, ?content)]" using created by (auto simp: os_Create_def split: if_splits)
          have undo2: "bytes_below ?tmp (os_RemoveAll ?dir ?t2) \<le> source_limit cfg"
            using bytes_undo [OF files below] True t1 order_trans by blast
          have kept: "bytes_below ?tmp ?t2 \<le> source_limit cfg" if "\<not> int (length ?content) > ?limit"
            using bytes_append [OF files, of ?tmp] that remaining_room [OF Inr] by linarith
          have "(os_Create env ?path [] t1 = None) = False" using created by blast
          then show ?thesis using undo2 kept unfolding CreateUpload_def Let_def
            by (simp only: True Some Inr option.case sum.case if_False if_True simp_thms snd_conv fst_conv split: prod.split sum.split if_split) simp
        qed
      qed
    qed
  qed
qed

lemma adopt_budget:
  assumes "bytes_below (cf_TemporaryDirectory cfg) t \<le> source_limit cfg"
  shows "bytes_below (cf_TemporaryDirectory cfg) (snd (adoptRemoteSource env cfg nonce job cached t)) \<le> source_limit cfg"
proof -
  let ?tmp = "cf_TemporaryDirectory cfg"
  have made: "bytes_below ?tmp t1 = bytes_below ?tmp t" "bytes_below ?tmp (os_RemoveAll d t1) \<le> source_limit cfg"
    if "os_MkdirTemp env cfg nonce t = Some t1" for t1 d
    using same_files(2) [OF MkdirTemp_files [OF that]] bytes_RemoveAll_le [of ?tmp d t1] assms by auto
  have copied: "bytes_below ?tmp t2 \<le> source_limit cfg"
    if "os_Create env p content t1 = Some t2" "os_MkdirTemp env cfg nonce t = Some t1" "remainingSourceBytes cfg t = Inr room" "\<not> int (length content) > room"
    for t1 t2 p content room
    using bytes_append [OF Create_some(2) [OF that(1)], of ?tmp] made(1) [OF that(2)] remaining_room [OF that(3)] that(4) by linarith
  show ?thesis
  proof (cases "map_of (tr_files t) cached")
    case content: (Some content)
    show ?thesis
    proof (cases "remainingSourceBytes cfg t")
      case (Inr room)
      show ?thesis
      proof (cases "os_MkdirTemp env cfg nonce t")
        case None
        then show ?thesis using assms by (simp add: adoptRemoteSource_def content Inr)
      next
        case (Some t1)
        let ?base = "filepath_Base (ij_SourceFilename job)"
        let ?p = "filepath_Join (upload_dir cfg nonce) (if importable ?base then ?base else filepath_Base cached)"
        show ?thesis using assms made(2) [OF Some, of "upload_dir cfg nonce"] copied [OF _ Some Inr, of ?p content]
          unfolding adoptRemoteSource_def Let_def content Inr Some option.case sum.case
          by (cases "os_Create env ?p content t1"; cases "int (length content) > room") simp_all
      qed
    qed (simp add: adoptRemoteSource_def content assms)
  qed (simp add: adoptRemoteSource_def assms)
qed

lemma bytes_split:
  assumes "\<And>p. below root p \<Longrightarrow> below d p"
  shows "bytes_below d t = sum_list (map (\<lambda>f. int (length (snd f))) (filter (\<lambda>f. below d (fst f)) (outside root t))) + bytes_below root t"
proof -
  have "sum_list (map (\<lambda>f. int (length (snd f))) (filter (\<lambda>f. below d (fst f)) fs)) =
      sum_list (map (\<lambda>f. int (length (snd f))) (filter (\<lambda>f. below d (fst f)) (filter (\<lambda>f. \<not> below root (fst f)) fs)))
      + sum_list (map (\<lambda>f. int (length (snd f))) (filter (\<lambda>f. below root (fst f)) fs))" for fs :: "(string \<times> string) list"
    using assms by (induction fs) auto
  then show ?thesis by (simp add: bytes_below_def outside_def)
qed

lemma extract_budget:
  assumes "cf_TemporaryDirectory cfg = abs_dir rs" "\<forall>r \<in> set rs. proper_name r" "rs \<noteq> []" "CHR ''/'' \<notin> set jobID"
    and "bytes_below (cf_TemporaryDirectory cfg) t \<le> source_limit cfg"
  shows "bytes_below (cf_TemporaryDirectory cfg) (snd (extractArchive env ended cfg jobID archive t)) \<le> source_limit cfg"
proof -
  let ?tmp = "cf_TemporaryDirectory cfg" and ?root = "extract_root cfg jobID"
  obtain r t' where out: "extractArchive env ended cfg jobID archive t = (r, t')" by fastforce
  have "?root = ?tmp @ ''/'' @ ''extract-'' @ jobID"
    using extract_root_eq(1) [OF assms(1,2,4)] join_append [of rs "[''extract-'' @ jobID]" "''/''"] assms(1,3) by (simp add: abs_dir_def)
  then have sub: "below ?root p \<Longrightarrow> below ?tmp p" for p by (auto simp: below_def dest!: has_prefixE) (simp add: has_prefix_def)
  have start: "bytes_below ?tmp (os_RemoveAll ?root t) \<le> source_limit cfg"
    using bytes_RemoveAll_le [of ?tmp ?root t] assms(5) by linarith
  from assms(1,2,4) out show ?thesis
  proof (cases rule: extractArchive_cases)
    case (undone e t2)
    have "outside ?root (os_RemoveAll ?root t2) = filter (\<lambda>f. fst f \<noteq> ?root) (outside ?root t2)" for t2
      by (auto simp: outside_def os_RemoveAll_def intro: filter_cong)
    then have "bytes_below ?tmp (os_RemoveAll ?root t2) = bytes_below ?tmp (os_RemoveAll ?root (os_RemoveAll ?root t))"
      using undone(3) by (simp add: bytes_split [OF sub])
    then show ?thesis using start bytes_RemoveAll_le [of ?tmp ?root "os_RemoveAll ?root t"] unfolding out undone(2) by simp
  next
    case (extracted p st t1)
    have "bytes_below ?tmp t' = bytes_below ?tmp t1 + bytes_below ?root t'"
      using extracted(3,4) bytes_split [OF sub, where t = t'] bytes_split [OF sub, where t = "os_RemoveAll ?root t"] by simp
    moreover have "bytes_below ?root t' \<le> source_limit cfg - bytes_below ?tmp t1" using extracted(2,5) by (auto simp: extracting_def)
    ultimately show ?thesis unfolding out by simp
  qed (use start assms(5) out in simp_all)
qed

text \<open>What the importer does to its retained sources.\<close>

datatype source_op =
  OpUpload os_env stamp string string upload
| OpExtract os_env "nat \<Rightarrow> bool" string "ZipEntry list option"
| OpAdopt os_env string ImportJob string
| OpCleanup os_env string

fun source_exec :: "Importer \<Rightarrow> (string \<Rightarrow> bool) \<Rightarrow> string \<Rightarrow> source_op \<Rightarrow> import_db \<times> tree \<Rightarrow> import_db \<times> tree" where
  "source_exec cfg known cwd (OpUpload env st uuid nonce u) s = snd (CreateUpload env cfg known st uuid nonce u s)"
| "source_exec cfg known cwd (OpExtract env ended jobID archive) s = (fst s, snd (extractArchive env ended cfg jobID archive (snd s)))"
| "source_exec cfg known cwd (OpAdopt env nonce job cached) s = (fst s, snd (adoptRemoteSource env cfg nonce job cached (snd s)))"
| "source_exec cfg known cwd (OpCleanup env path) s = (fst s, snd (cleanupTemporarySource env cfg cwd path (snd s)))"

text \<open>Identifiers and the random part of a directory name hold no separator.\<close>

fun source_op_ok :: "source_op \<Rightarrow> bool" where
  "source_op_ok (OpUpload env st uuid nonce u) = (CHR ''/'' \<notin> set nonce)"
| "source_op_ok (OpExtract env ended jobID archive) = (CHR ''/'' \<notin> set jobID)"
| "source_op_ok _ = True"

lemma cleanup_budget: "bytes_below d (snd (cleanupTemporarySource env cfg cwd path t)) \<le> bytes_below d t"
  by (simp add: cleanupTemporarySource_def Let_def bytes_RemoveAll_le)

lemma source_exec_budget:
  assumes "cf_TemporaryDirectory cfg = abs_dir rs" "\<forall>r \<in> set rs. proper_name r" "rs \<noteq> []" "source_op_ok op"
    and "bytes_below (cf_TemporaryDirectory cfg) (snd s) \<le> source_limit cfg"
  shows "bytes_below (cf_TemporaryDirectory cfg) (snd (source_exec cfg known cwd op s)) \<le> source_limit cfg"
proof (cases op)
  case OpUpload
  then show ?thesis using CreateUpload_budget [OF assms(1,2) _ assms(5)] assms(4) by simp
next
  case OpExtract
  then show ?thesis using extract_budget [OF assms(1-3) _ assms(5)] assms(4) by simp
next
  case OpAdopt
  then show ?thesis using adopt_budget [OF assms(5)] by simp
next
  case OpCleanup
  then show ?thesis using cleanup_budget [of "cf_TemporaryDirectory cfg"] assms(5) order_trans by simp blast
qed

text \<open>
  C22. Retained sources never exceed their budget: through any sequence of uploads, extracted archives, adopted downloads and
  clean-ups, successful or failing at any point, the bytes below the temporary directory stay within the
  configured number (ten GiB when it is not set), whatever sizes requests and archives claim.
\<close>

theorem retained_sources_within_budget:
  assumes "cf_TemporaryDirectory cfg = abs_dir rs" "\<forall>r \<in> set rs. proper_name r" "rs \<noteq> []" "list_all source_op_ok ops"
    and "bytes_below (cf_TemporaryDirectory cfg) (snd s) \<le> source_limit cfg"
  shows "bytes_below (cf_TemporaryDirectory cfg) (snd (fold (source_exec cfg known cwd) ops s)) \<le> source_limit cfg"
  using assms(4,5)
proof (induction ops arbitrary: s)
  case (Cons op ops)
  then show ?case using source_exec_budget [OF assms(1-3), of op s known cwd] by simp
qed simp

definition demo_source_ops :: "source_op list" where
  "demo_source_ops =
     [OpExtract quiet_os (\<lambda>_. False) ''1'' (Some [demo_entry ''a.shp'' ''abcd'', demo_entry ''b'' ''ef'']),
      OpUpload quiet_os (0, ''e1'') ''j1'' ''9'' \<lparr>up_WorkspaceID = ''w'', up_Name = [], up_Filename = ''big.gpkg'', up_CreatedBy = ''u'', up_Data = ''12345678'', up_ReadFails = False\<rparr>]"

lemma retained_sources_within_budget_witness:
  "bytes_below ''/t'' (snd (fold (source_exec demo_importer (\<lambda>_. True) ''/'') demo_source_ops (empty_import_db, demo_tree))) \<le> 12"
proof -
  have "cf_TemporaryDirectory demo_importer = ''/t''" "''/t'' = abs_dir [''t'']" "source_limit demo_importer = 12" "bytes_below ''/t'' demo_tree = 3"
    by (simp_all add: demo_importer_def abs_dir_def source_limit_def bytes_below_def demo_tree_def below_def has_prefix_def)
  moreover have "list_all source_op_ok demo_source_ops" by (simp add: demo_source_ops_def)
  ultimately show ?thesis
    using retained_sources_within_budget [of demo_importer "[''t'']" demo_source_ops "(empty_import_db, demo_tree)" "\<lambda>_. True" "''/''"]
    by (simp add: proper_name_def)
qed

end
