(* ===== verification/Spec2Isabelle.thy ===== *)
theory Spec2Isabelle
  imports Rbac_Middleware Rbac_Properties Rate_Limit Sql_Quote Protocol_Request Wfs_Lock_Properties Write_Gate
    Cache_Properties Filter_Properties Tile_Types Tile_Ownership Tile_Cache_Properties Tile_Job_Properties
    Auth_Properties Auth_Transport Catalog_Plan Catalog_Hidden Import_Files
begin

text \<open>
  \<^bold>\<open>A verification library for the map server neoserver.\<close>

  The server publishes geographic layers of workspaces over OGC protocols. A request is resolved to a
  service and an operation, its identity is checked against the policies of the workspace, filters are
  compiled to SQL, edits are serialised by a write gate and by feature locks, and answers and tiles
  are kept in two caches. The library models the parts that decide who may do what, what reaches the
  database, and what is served from a cache. Paths below are relative to \<^verbatim>\<open>src/internal\<close>.

  \<^bold>\<open>Conventions.\<close> Theory \<open>Go_Prelude\<close> holds what the models share: Go maps as association lists
  (\<open>gomap\<close>), instants and durations in nanoseconds, string functions, results as sums with the error on
  the left (\<open>bind_res\<close>), decimal printing, and the locales \<open>guarded_invariant\<close> and
  \<open>step_invariant\<close> that turn one preservation lemma per operation into an invariant of all runs. Go's
  \<^verbatim>\<open>int\<close> and \<^verbatim>\<open>int64\<close> are \<open>int\<close> where the values are counts and sizes. Strings are byte
  strings; changes of letter case act on ASCII letters. Critical sections are single steps; where
  several goroutines or processes matter, there is a step relation. Time is an argument.

  \<^bold>\<open>Parts.\<close>

  \<^item> \<open>Sql_Quote\<close> (\<^verbatim>\<open>sqlutil/quote.go\<close>): quoting of identifiers and literals; a quoted value scans as
    one token whatever it holds.

  \<^item> \<open>Identity\<close> (\<^verbatim>\<open>identity/identity.go\<close>): identities, role hierarchy, resolution of the workspace role.
    \<open>Rate_Limit\<close> (\<^verbatim>\<open>identity/ratelimit.go\<close>): the limiter of failed logins, its back-off schedule and its
    bounded table.

  \<^item> \<open>Auth_Store\<close> (\<^verbatim>\<open>store/store_auth.go\<close>, \<^verbatim>\<open>store_sessions.go\<close>): the credential tables, one function per statement
    or transaction over lists of rows. \<open>Auth_Tokens\<close> (\<^verbatim>\<open>store/jwt.go\<close>, \<^verbatim>\<open>identity/jwt.go\<close>): self-signed tokens;
    hash, signature and JSON are parameters with their round-trip laws. \<open>Auth_Validators\<close>
    (\<^verbatim>\<open>identity\<close>): the validators of API keys, passwords, tokens, OIDC and browser sessions and the
    middleware that tries them in order. \<open>Auth_Console\<close> (\<^verbatim>\<open>mgmt/auth.go\<close>): sign-in, sign-out and refresh.
    \<open>Auth_Transport\<close> (\<^verbatim>\<open>identity/transport.go\<close>): trusted proxies and the transport decision. \<open>Auth_Properties\<close>
    shows over every run of store operations that revoked sessions, rotated tokens and deleted roles stay
    out, that an explicit credential decides alone, and that a token grants what was signed.

  \<^item> \<open>Protocol_Request\<close> (\<^verbatim>\<open>protocolrequest\<close>): resolution of a request to service and operation from path,
    query and XML body, and the table of operations a policy may name. The XML decoder is a parameter
    that yields tokens.

  \<^item> \<open>Rbac\<close>, \<open>Rbac_Adapter\<close>, \<open>Rbac_Properties\<close>, \<open>Rbac_Middleware\<close> (\<^verbatim>\<open>rbac\<close>, policy tables of \<^verbatim>\<open>store\<close>):
    enforcer, persistence and HTTP middleware. The casbin library is a record of functions with an
    interface locale, interpreted on an engine that loads and stores the catalog's rows. Shown: no
    middleware lets a request past a refusal or an error, grants equal decisions, a mutation is persisted
    or rolled back, a failed reload closes every check.

  \<^item> \<open>Filter_Lexer\<close>, \<open>Filter_Compiler\<close>, \<open>Sql_Scan\<close>, \<open>Filter_Safety\<close>, \<open>Filter_Properties\<close> (\<^verbatim>\<open>filter\<close>): the
    CQL2 lexer and the two compilers to SQL, written once with the dialect as argument. \<open>Sql_Scan\<close> is a
    reference reader of SQL text. Shown: compilation returns on every input; compiled text closes its
    quotes, holds no statement separator, names only allowed properties and numbers its placeholders
    in order; a quoted value arrives unchanged as an argument. The recursive descent runs on fuel,
    \<open>2 * remaining + 2\<close> tokens for scalar and \<open>4 * remaining + 4\<close> for boolean expressions, and
    \<open>compile_terminates\<close> shows that it is never used up. \<^verbatim>\<open>strconv.ParseFloat\<close> is a parameter.

  \<^item> \<open>Wfs_Locks\<close>, \<open>Wfs_Lock_Invariants\<close>, \<open>Wfs_Lock_Properties\<close> (\<^verbatim>\<open>wfs/locking.go\<close>,
    \<^verbatim>\<open>wfs/lock_identity.go\<close>, \<^verbatim>\<open>store/store_wfs_locks.go\<close>): feature locks with expiry, persistence and restart;
    exclusiveness, quotas, protection and recovery over every run of operations with failing
    storage. \<open>Base64\<close> is the codec of the lock keys; the JSON codec is a parameter with a round-trip law.
    \<open>Write_Gate\<close> (\<^verbatim>\<open>wfs/write_gate.go\<close>): the per-workspace gate as steps of any number of goroutines.

  \<^item> \<open>Cache_Manager\<close>, \<open>Cache_Properties\<close> (\<^verbatim>\<open>cache\<close>): the response cache with fill tokens, epochs and the
    invalidation index. Admission and eviction of the ristretto library are inputs of the steps. Shown: a
    fill begun before an invalidation is never served after it, and survives everything else.

  \<^item> \<open>Tile_Types\<close> (\<^verbatim>\<open>tilecache/types.go\<close>, \<^verbatim>\<open>filesystem.go\<close>): identity, canonical key and object key of a
    tile and the path check of the file store, with the path functions of Go's library it calls.

  \<^item> \<open>Tile_Ownership\<close> (\<^verbatim>\<open>tilecache/ownership.go\<close>, lease writes of \<^verbatim>\<open>s3.go\<close>): the single-writer lease over a
    shared prefix as steps of any number of processes, with lost answers and crashes. The object store's
    ETag is an injective function of the marker; distinct processes have distinct instance ids.

  \<^item> \<open>Tile_Index\<close>, \<open>Tile_Job_Store\<close> (\<^verbatim>\<open>tilecache/index.go\<close>, \<^verbatim>\<open>jobs.go\<close>): the metadata database, one function
    per transaction. \<open>Tile_Cache\<close> (\<^verbatim>\<open>tilecache/manager.go\<close>, \<^verbatim>\<open>fenced_jobs.go\<close>): the manager as a state
    monad with errors in which every request to the index or the blob store may fail, the latter after
    part of its effects. \<open>Tile_Cache_Invariants\<close> has one Hoare-style triple per operation and the invariant;
    \<open>Tile_Cache_Properties\<close> the accounting, quotas, round trip, fencing, deletion and restart. Workspace
    identifiers are assumed to hold no colon (they are UUIDs): the usage rows of resources join two
    identifiers with one. The hash is a parameter.

  \<^item> \<open>Tile_Jobs\<close>, \<open>Tile_Job_Properties\<close> (\<^verbatim>\<open>tilejobs/manager.go\<close>): planning of a job's chunks, running and
    resuming them, claiming and quiescing. Floating-point arithmetic is a parameter up to the tile range
    of a matrix; interference of other goroutines and dropped write errors are inputs of each tile.

  \<^item> \<open>Catalog_Store\<close>, \<open>Catalog_Deletion\<close>, \<open>Catalog_Integrity\<close> (\<^verbatim>\<open>store\<close>): the tables of workspaces, services, layers,
    coverages and layer groups, the plans and records of deletions and their commit, audit and repair, one
    function per statement or transaction. \<open>Catalog_Plan\<close> shows that the plan of a deletion finds exactly the
    dependent groups, \<open>Catalog_Invariants\<close> that no operation leaves a dataset map or a group dangling.
    \<open>Catalog_Lifecycle\<close> (\<^verbatim>\<open>cataloglifecycle\<close>): the coordinator of deletions across catalog, registry, tile, STAC and
    mosaic stores and managed files, with a fault or a crash at every request. \<open>Catalog_Recovery\<close> shows
    that an attempt without faults completes from every phase, \<open>Catalog_Hidden\<close> that the target of a
    recorded deletion is never seen again whatever fails.

  \<^item> \<open>Import_Store\<close> (\<^verbatim>\<open>store/store_import.go\<close>, \<^verbatim>\<open>store_import_transform.go\<close>): import jobs, their timeline and the managed databases;
    an accepted cancellation is final. \<open>Import_Plan\<close> (\<^verbatim>\<open>importer/manager.go\<close>): what a plan may hold and the
    statement made of a layer, read by the scanner of \<open>Sql_Scan\<close>. \<open>Import_Files\<close> (\<^verbatim>\<open>importer/manager.go\<close>,
    \<^verbatim>\<open>recovery.go\<close>): uploads, adopted downloads and archives over a tree of files in which every call may fail;
    extraction stays below its directory and the sources within their budget. What the zip reader delivers is an
    argument; removing a directory the importer has just made succeeds.

  \<^bold>\<open>Interfaces.\<close> Each contract one part relies on is a locale: casbin's engine and its loader, the lock key
  codec, the step invariants of limiter, locks, gate and tile cache. Each is interpreted on the model's
  own definitions in the theory that provides them.

  \<^bold>\<open>Not modelled.\<close> Code that mainly drives libraries: the data sources (SQL drivers, GDAL), the renderer, the
  S3 client, HTTP routing and process start, metrics, audit and the embedded console. Parts with logic of
  their own that the library does not cover yet: the management API, configuration, style parsing, the worker and handlers of the importer, the request
  parsers of WMS, WMTS, WCS, OGC API and STAC, and the WFS transaction and FES filter code.
\<close>

end
